(* ===== verification/Prelude.thy ===== *)
theory Prelude
  imports Main "HOL-Library.Word"
begin

text \<open>
  Shared material of the development.  Results of fallible code are values of
  \<open>res\<close>: \<open>Ok\<close> for a normal return, \<open>Err\<close> for a C++ exception or a failed assertion and
  \<open>UB\<close> for an execution the C++ standard leaves undefined (an access past the end of an
  array).  A member function that changes its object has the type
  \<open>('e \<times> 's, 's) res\<close>: the object as it is when the exception leaves the function is
  kept beside the exception, because callers that catch it go on using that object.
  The collection \<open>res_simps\<close> holds the rules that evaluate the result combinators,
  \<open>bit_field_simps\<close> the bounds and bits of extracted instruction fields.
\<close>

unbundle bit_operations_syntax

named_theorems res_simps \<open>evaluation of the result combinators\<close>
named_theorems bit_field_simps \<open>bounds and bits of extracted instruction fields\<close>

type_synonym byte = "8 word"
type_synonym byte2 = "16 word"
type_synonym u32 = "32 word"
type_synonym u64 = "64 word"

section \<open>Results\<close>

datatype (discs_sels) ('e, 'a) res = Ok 'a | Err 'e | UB

fun rbind :: "('e, 'a) res \<Rightarrow> ('a \<Rightarrow> ('e, 'b) res) \<Rightarrow> ('e, 'b) res" where
  "rbind (Ok a) f = f a"
| "rbind (Err e) f = Err e"
| "rbind UB f = UB"

text \<open>Run an operation of a part of an object, and put the part back into the object.\<close>

fun lift_part :: "('s \<Rightarrow> 't) \<Rightarrow> ('e \<times> 's, 's) res \<Rightarrow> ('e \<times> 't, 't) res" where
  "lift_part put (Ok s) = Ok (put s)"
| "lift_part put (Err es) = Err (fst es, put (snd es))"
| "lift_part put UB = UB"

text \<open>Evaluate an expression that may throw while the object is in state \<open>s\<close>.\<close>

fun eval_in :: "'s \<Rightarrow> ('e, 'a) res \<Rightarrow> ('e \<times> 's, 'a) res" where
  "eval_in s (Ok a) = Ok a"
| "eval_in s (Err e) = Err (e, s)"
| "eval_in s UB = UB"

lemma rbind_Ok_iff [res_simps]: "rbind r f = Ok b \<longleftrightarrow> (\<exists>a. r = Ok a \<and> f a = Ok b)"
  by (cases r) auto

lemma rbind_Err_iff [res_simps]:
  "rbind r f = Err e \<longleftrightarrow> r = Err e \<or> (\<exists>a. r = Ok a \<and> f a = Err e)"
  by (cases r) auto

lemma rbind_UB_iff [res_simps]: "rbind r f = UB \<longleftrightarrow> r = UB \<or> (\<exists>a. r = Ok a \<and> f a = UB)"
  by (cases r) auto

lemma lift_part_Ok_iff [res_simps]: "lift_part put r = Ok t \<longleftrightarrow> (\<exists>s. r = Ok s \<and> t = put s)"
  by (cases r) auto

lemma lift_part_Err_iff [res_simps]:
  "lift_part put r = Err (e, t) \<longleftrightarrow> (\<exists>s. r = Err (e, s) \<and> t = put s)"
  by (cases r) (auto simp: prod_eq_iff)

lemma lift_part_UB_iff [res_simps]: "lift_part put r = UB \<longleftrightarrow> r = UB"
  by (cases r) auto

lemma eval_in_Ok_iff [res_simps]: "eval_in s r = Ok a \<longleftrightarrow> r = Ok a"
  by (cases r) auto

lemma eval_in_Err_iff [res_simps]: "eval_in s r = Err (e, t) \<longleftrightarrow> r = Err e \<and> t = s"
  by (cases r) auto

lemma eval_in_UB_iff [res_simps]: "eval_in s r = UB \<longleftrightarrow> r = UB"
  by (cases r) auto

lemma rbind_assoc: "rbind (rbind r f) g = rbind r (\<lambda>a. rbind (f a) g)"
  by (cases r) auto

section \<open>Decimal rendering\<close>

text \<open>\<open>std::to_string\<close> on an unsigned value.\<close>

fun digit_char :: "nat \<Rightarrow> char" where
  "digit_char d = char_of (48 + d)"

fun to_string :: "nat \<Rightarrow> string" where
  "to_string n = (if n < 10 then [digit_char n] else to_string (n div 10) @ [digit_char (n mod 10)])"

declare to_string.simps [simp del]

section \<open>Lists\<close>

lemma nth_list_update_same_or_other:
  "i < length xs \<Longrightarrow> xs[j := v] ! i = (if j = i then v else xs ! i)"
  by (simp add: nth_list_update)


section \<open>Words\<close>

lemma all_less_8:
  "(\<forall>n<8. P (n::nat)) \<longleftrightarrow> P 0 \<and> P 1 \<and> P 2 \<and> P 3 \<and> P 4 \<and> P 5 \<and> P 6 \<and> P 7"
  by (simp add: numeral_eq_Suc All_less_Suc) blast

lemma all_less_16:
  "(\<forall>n<16. P (n::nat)) \<longleftrightarrow>
     P 0 \<and> P 1 \<and> P 2 \<and> P 3 \<and> P 4 \<and> P 5 \<and> P 6 \<and> P 7 \<and> P 8 \<and> P 9 \<and> P 10 \<and> P 11 \<and> P 12
     \<and> P 13 \<and> P 14 \<and> P 15"
  by (simp add: numeral_eq_Suc All_less_Suc) blast

lemma all_less_32:
  "(\<forall>n<32. P (n::nat)) \<longleftrightarrow>
     P 0 \<and> P 1 \<and> P 2 \<and> P 3 \<and> P 4 \<and> P 5 \<and> P 6 \<and> P 7 \<and> P 8 \<and> P 9 \<and> P 10 \<and> P 11 \<and> P 12
     \<and> P 13 \<and> P 14 \<and> P 15 \<and> P 16 \<and> P 17 \<and> P 18 \<and> P 19 \<and> P 20 \<and> P 21 \<and> P 22 \<and> P 23
     \<and> P 24 \<and> P 25 \<and> P 26 \<and> P 27 \<and> P 28 \<and> P 29 \<and> P 30 \<and> P 31"
  by (simp add: numeral_eq_Suc All_less_Suc) blast

lemma byte_eq_iff: "(a :: byte) = b \<longleftrightarrow> (\<forall>n<8. bit a n = bit b n)"
  by (auto intro: bit_word_eqI)

lemma byte2_eq_iff: "(a :: byte2) = b \<longleftrightarrow> (\<forall>n<16. bit a n = bit b n)"
  by (auto intro: bit_word_eqI)

lemma u32_eq_iff: "(a :: u32) = b \<longleftrightarrow> (\<forall>n<32. bit a n = bit b n)"
  by (auto intro: bit_word_eqI)

lemma bit_byte_ge [simp]: "8 \<le> n \<Longrightarrow> \<not> bit (b :: byte) n"
  by (auto dest: bit_imp_le_length)

lemma bit_byte2_ge [simp]: "16 \<le> n \<Longrightarrow> \<not> bit (b :: byte2) n"
  by (auto dest: bit_imp_le_length)

lemma bit_u32_ge [simp]: "32 \<le> n \<Longrightarrow> \<not> bit (b :: u32) n"
  by (auto dest: bit_imp_le_length)

text \<open>Shifting a word down to its top bit.\<close>

lemma drop_bit_top:
  fixes w :: "'a::len word"
  assumes "LENGTH('a) = Suc n"
  shows "drop_bit n w = of_bool (bit w n)"
proof (rule bit_word_eqI)
  fix k assume "k < LENGTH('a)"
  show "bit (drop_bit n w) k = bit (of_bool (bit w n) :: 'a word) k"
    using assms by (cases k) (auto simp: bit_simps dest: bit_imp_le_length)
qed

lemma uint_push_bit: "uint (push_bit n (a :: u32)) = (uint a * 2 ^ n) mod 2 ^ 32"
  by (simp only: unsigned_push_bit_eq) (simp add: push_bit_eq_mult take_bit_eq_mod)

lemma uint_drop_bit: "uint (drop_bit n (a :: u32)) = uint a div 2 ^ n"
  by (simp only: unsigned_drop_bit_eq)
    (use uint_bounded [of a] in \<open>simp add: drop_bit_eq_div take_bit_eq_mod\<close>)

lemma sint_sra: "sint (signed_drop_bit n (a :: u32)) = sint a div 2 ^ n"
  by (simp add: sint_signed_drop_bit_eq drop_bit_eq_div)

lemma unat_ucast_up: "LENGTH('a) \<le> LENGTH('b) \<Longrightarrow> unat (ucast (x :: 'a::len word) :: 'b::len word) = unat x"
  by (simp add: unsigned_ucast_eq take_bit_nat_eq_self_iff)
    (metis order_less_le_trans unsigned_less power_increasing one_le_numeral)

section \<open>Iterating a step that may throw\<close>

fun iterate :: "('s \<Rightarrow> ('e \<times> 's, 's) res) \<Rightarrow> nat \<Rightarrow> 's \<Rightarrow> ('e \<times> 's, 's) res" where
  "iterate step 0 s = Ok s"
| "iterate step (Suc n) s = rbind (step s) (iterate step n)"

lemma iterate_add: "iterate step (m + n) s = rbind (iterate step m s) (iterate step n)"
proof (induction m arbitrary: s)
  case (Suc m)
  then show ?case by (cases "step s") simp_all
qed simp

lemma iterate_Suc_end: "iterate step (Suc n) s = rbind (iterate step n s) step"
proof -
  have "iterate step 1 = step"
  proof (rule ext)
    fix s show "iterate step 1 s = step s" by (cases "step s") simp_all
  qed
  then show ?thesis
    using iterate_add [of step n 1 s] by simp
qed

text \<open>An operation that leaves a state with a property, returning or throwing.\<close>

fun keeps :: "('s \<Rightarrow> bool) \<Rightarrow> ('e \<times> 's, 's) res \<Rightarrow> bool" where
  "keeps I (Ok s) = I s"
| "keeps I (Err es) = I (snd es)"
| "keeps I UB = True"

lemma keeps_rbind: "keeps I r \<Longrightarrow> (\<And>s. I s \<Longrightarrow> keeps I (f s)) \<Longrightarrow> keeps I (rbind r f)"
  by (cases r) auto

lemma keeps_rbind_eval: "I s \<Longrightarrow> (\<And>a. r = Ok a \<Longrightarrow> keeps I (f a)) \<Longrightarrow> keeps I (rbind (eval_in s r) f)"
  by (cases r) auto

lemma keeps_lift_part: "keeps (\<lambda>t. I (put t)) r \<Longrightarrow> keeps I (lift_part put r)"
  by (cases r) auto

lemma keepsI:
  "(\<And>t. r = Ok t \<Longrightarrow> I t) \<Longrightarrow> (\<And>e t. r = Err (e, t) \<Longrightarrow> I t) \<Longrightarrow> keeps I r"
  by (cases r) auto

lemma keepsD: "keeps I r \<Longrightarrow> r = Ok t \<Longrightarrow> I t" "keeps I r \<Longrightarrow> r = Err (e, t) \<Longrightarrow> I t"
  by auto

text \<open>
  What a state machine promises its users: an invariant that a step keeps, whether it
  returns or throws.
\<close>

locale kept_invariant =
  fixes step :: "'s \<Rightarrow> ('e \<times> 's, 's) res"
    and inv :: "'s \<Rightarrow> bool"
  assumes step_keeps: "inv s \<Longrightarrow> keeps inv (step s)"
begin

lemma iterate_keeps: "inv s \<Longrightarrow> keeps inv (iterate step n s)"
proof (induction n arbitrary: s)
  case (Suc n)
  then show ?case by (auto intro: keeps_rbind step_keeps)
qed simp

lemmas iterate_Ok = keepsD(1) [OF iterate_keeps]
lemmas iterate_Err = keepsD(2) [OF iterate_keeps]

end

section \<open>Stores\<close>

text \<open>
  The contract between a store of cells and the code that fills it: a cell reads back what
  was written last, and a write leaves the cells apart from it alone.
\<close>

locale cell_store =
  fixes rd :: "'s \<Rightarrow> 'k \<Rightarrow> 'v"
    and wr :: "'s \<Rightarrow> 'k \<Rightarrow> 'v \<Rightarrow> 's"
    and apart :: "'k \<Rightarrow> 'k \<Rightarrow> bool"
  assumes rd_same: "rd (wr s k v) k = v"
    and rd_apart: "apart k j \<Longrightarrow> rd (wr s k v) j = rd s j"
begin

lemma rd_fold_apart:
  "(\<And>k. k \<in> fst ` set kvs \<Longrightarrow> apart k j) \<Longrightarrow> rd (fold (\<lambda>(k, v) s. wr s k v) kvs s) j = rd s j"
  by (induction kvs arbitrary: s) (auto simp: rd_apart)

lemma rd_fold_last:
  assumes "kvs = xs @ (k, v) # ys" and "\<And>j. j \<in> fst ` set ys \<Longrightarrow> apart j k"
  shows "rd (fold (\<lambda>(k, v) s. wr s k v) kvs s) k = v"
  using assms by (simp add: rd_fold_apart rd_same)

end

end
