(* ===== verification/RV_Modules.thy ===== *)
theory RV_Modules
  imports Prelude
begin

text \<open>
  The combinational modules of the RISC-V pipeline simulator
  (\<open>riscv-pipelined-cpu-sim/modules/\<close>): sign extension (\<open>common.h\<close>), gates and
  multiplexers (\<open>gates.h\<close>), the comparator (\<open>cmp.h\<close>) and the ALU (\<open>alu.h\<close>), with the
  exceptions of \<open>address_exceptions.h\<close>, \<open>unsupported_instruction.h\<close> and
  \<open>ebreak_exception.h\<close>.  An \<open>enum class\<close> over a byte may hold any byte, so the
  enumerations that the code casts integers to have one constructor for the values that
  name no enumerator.
\<close>

section \<open>Exceptions\<close>

text \<open>
  The classes of the exceptions the simulator throws, with the string its \<open>what()\<close>
  returns.  All but \<open>EbreakException\<close> derive from \<open>std::logic_error\<close>.
\<close>

datatype rv_exception =
    LogicError string
  | InvalidArgument string
  | OutOfRange string
  | InvalidAddressException string
  | AlignmentException string
  | UnsupportedException string
  | EbreakException

fun is_logic_error :: "rv_exception \<Rightarrow> bool" where
  "is_logic_error EbreakException = False"
| "is_logic_error _ = True"

section \<open>Sign extension\<close>

definition signExtendFromByte :: "byte \<Rightarrow> u32" where
  "signExtendFromByte target =
     (if drop_bit 7 target \<noteq> 0 then (ucast target :: u32) OR 0xffffff00 else ucast target)"

definition signExtendFromByte2 :: "byte2 \<Rightarrow> u32" where
  "signExtendFromByte2 target =
     (if drop_bit 15 target \<noteq> 0 then (ucast target :: u32) OR 0xffff0000 else ucast target)"

section \<open>Gates\<close>

definition gate_Add :: "'a::len word \<Rightarrow> 'a word \<Rightarrow> 'a word" where
  "gate_Add lhs rhs = lhs + rhs"

definition gate_And :: "bool \<Rightarrow> bool \<Rightarrow> bool" where
  "gate_And lhs rhs = (lhs \<and> rhs)"

definition gate_Or :: "bool \<Rightarrow> bool \<Rightarrow> bool" where
  "gate_Or lhs rhs = (lhs \<or> rhs)"

definition Multiplexer2 :: "bool \<Rightarrow> u32 \<Rightarrow> u32 \<Rightarrow> u32" where
  "Multiplexer2 control src1 src2 = (if control then src2 else src1)"

definition Multiplexer3 :: "byte \<Rightarrow> u32 \<Rightarrow> u32 \<Rightarrow> u32 \<Rightarrow> (rv_exception, u32) res" where
  "Multiplexer3 control src1 src2 src3 =
     (if control = 0 then Ok src1
      else if control = 1 then Ok src2
      else if control = 2 then Ok src3
      else Err (LogicError (''invalid control signal: '' @ to_string (unat control))))"

section \<open>Comparator\<close>

datatype CmpControl =
  CMP_NOP | CMP_EQ | CMP_NE | CMP_LT | CMP_GE | CMP_LTU | CMP_GEU | CMP_other byte

text \<open>\<open>static_cast<CmpControl>(value)\<close> for a word.\<close>

definition CmpControl_of_word :: "u32 \<Rightarrow> CmpControl" where
  "CmpControl_of_word value =
     (let b = ucast value :: byte in
      if b = 0 then CMP_NOP else if b = 1 then CMP_EQ else if b = 2 then CMP_NE
      else if b = 3 then CMP_LT else if b = 4 then CMP_GE else if b = 5 then CMP_LTU
      else if b = 6 then CMP_GEU else CMP_other b)"

fun show_CmpControl :: "CmpControl \<Rightarrow> string" where
  "show_CmpControl CMP_NOP = ''NOP''"
| "show_CmpControl CMP_EQ = ''EQ''"
| "show_CmpControl CMP_NE = ''NE''"
| "show_CmpControl CMP_LT = ''LT''"
| "show_CmpControl CMP_GE = ''GE''"
| "show_CmpControl CMP_LTU = ''LTU''"
| "show_CmpControl CMP_GEU = ''GEU''"
| "show_CmpControl (CMP_other _) = ''''"

text \<open>
  \<open>Cmp<word_>\<close>, the instance the pipeline uses: the signed and the unsigned orders are
  both the unsigned order of the type.
\<close>

fun Cmp :: "CmpControl \<Rightarrow> u32 \<Rightarrow> u32 \<Rightarrow> (rv_exception, bool) res" where
  "Cmp CMP_NOP lhs rhs = Ok False"
| "Cmp CMP_EQ lhs rhs = Ok (lhs = rhs)"
| "Cmp CMP_NE lhs rhs = Ok (lhs \<noteq> rhs)"
| "Cmp CMP_LT lhs rhs = Ok (lhs < rhs)"
| "Cmp CMP_LTU lhs rhs = Ok (lhs < rhs)"
| "Cmp CMP_GE lhs rhs = Ok (lhs \<ge> rhs)"
| "Cmp CMP_GEU lhs rhs = Ok (lhs \<ge> rhs)"
| "Cmp (CMP_other _) lhs rhs = Err (LogicError ''unknown compare operation'')"

section \<open>ALU\<close>

datatype ALUControl =
    ALU_NOP | ALU_ADD | ALU_SUB | ALU_SLL | ALU_SLT | ALU_SLTU | ALU_XOR | ALU_SRL
  | ALU_SRA | ALU_OR | ALU_AND | ALU_other byte

definition ALUControl_of_word :: "u32 \<Rightarrow> ALUControl" where
  "ALUControl_of_word value =
     (let b = ucast value :: byte in
      if b = 0 then ALU_NOP else if b = 1 then ALU_ADD else if b = 2 then ALU_SUB
      else if b = 3 then ALU_SLL else if b = 4 then ALU_SLT else if b = 5 then ALU_SLTU
      else if b = 6 then ALU_XOR else if b = 7 then ALU_SRL else if b = 8 then ALU_SRA
      else if b = 9 then ALU_OR else if b = 10 then ALU_AND else ALU_other b)"

fun show_ALUControl :: "ALUControl \<Rightarrow> string" where
  "show_ALUControl ALU_NOP = ''NOP''"
| "show_ALUControl ALU_ADD = ''ADD''"
| "show_ALUControl ALU_SUB = ''SUB''"
| "show_ALUControl ALU_SLL = ''SLL''"
| "show_ALUControl ALU_SLT = ''SLT''"
| "show_ALUControl ALU_SLTU = ''SLTU''"
| "show_ALUControl ALU_XOR = ''XOR''"
| "show_ALUControl ALU_SRL = ''SRL''"
| "show_ALUControl ALU_SRA = ''SRA''"
| "show_ALUControl ALU_OR = ''OR''"
| "show_ALUControl ALU_AND = ''AND''"
| "show_ALUControl (ALU_other _) = ''''"

fun ALU :: "ALUControl \<Rightarrow> u32 \<Rightarrow> u32 \<Rightarrow> (rv_exception, u32) res" where
  "ALU ALU_NOP src_a src_b = Ok 0"
| "ALU ALU_ADD src_a src_b = Ok (src_a + src_b)"
| "ALU ALU_SUB src_a src_b = Ok (src_a - src_b)"
| "ALU ALU_AND src_a src_b = Ok (src_a AND src_b)"
| "ALU ALU_OR src_a src_b = Ok (src_a OR src_b)"
| "ALU ALU_XOR src_a src_b = Ok (src_a XOR src_b)"
| "ALU ALU_SLL src_a src_b = Ok (push_bit (unat (src_b AND 0x0000001f)) src_a)"
| "ALU ALU_SRL src_a src_b = Ok (drop_bit (unat (src_b AND 0x0000001f)) src_a)"
| "ALU ALU_SRA src_a src_b = Ok (signed_drop_bit (unat (src_b AND 0x0000001f)) src_a)"
| "ALU ALU_SLT src_a src_b = Ok (if src_a <s src_b then 1 else 0)"
| "ALU ALU_SLTU src_a src_b = Ok (if src_a < src_b then 1 else 0)"
| "ALU (ALU_other b) src_a src_b =
     Err (LogicError (''unknown control signal: '' @ to_string (unat b)))"

section \<open>Correctness\<close>

lemma signExtendFromByte_scast: "signExtendFromByte b = scast b"
proof -
  have "drop_bit 7 b = of_bool (bit b 7)"
    by (rule drop_bit_top) simp
  then show ?thesis
    unfolding signExtendFromByte_def u32_eq_iff all_less_32
    by (simp add: bit_simps)
qed

lemma signExtendFromByte2_scast: "signExtendFromByte2 b = scast b"
proof -
  have "drop_bit 15 b = of_bool (bit b 15)"
    by (rule drop_bit_top) simp
  then show ?thesis
    unfolding signExtendFromByte2_def u32_eq_iff all_less_32
    by (simp add: bit_simps)
qed

text \<open>Only the low five bits of the second operand count in a shift.\<close>

lemma shift_amount: "unat (b AND 0x1f :: u32) = unat b mod 32"
proof -
  have "b AND 0x1f = take_bit 5 b"
    by (simp add: take_bit_eq_mask mask_eq_exp_minus_1)
  then have "unat (b AND 0x1f) = take_bit 5 (unat b)"
    by (simp only: unsigned_take_bit_eq)
  then show ?thesis by (simp add: take_bit_eq_mod)
qed

text \<open>
  What each operation has to compute by the RV32I manual, on the mathematical values of
  the operands: \<open>alu_meets op a b r\<close> says that \<open>r\<close> is the right result.
\<close>

fun alu_meets :: "ALUControl \<Rightarrow> u32 \<Rightarrow> u32 \<Rightarrow> u32 \<Rightarrow> bool" where
  "alu_meets ALU_NOP a b r = (r = 0)"
| "alu_meets ALU_ADD a b r = (uint r = (uint a + uint b) mod 2 ^ 32)"
| "alu_meets ALU_SUB a b r = (uint r = (uint a - uint b) mod 2 ^ 32)"
| "alu_meets ALU_SLL a b r = (uint r = (uint a * 2 ^ (unat b mod 32)) mod 2 ^ 32)"
| "alu_meets ALU_SRL a b r = (uint r = uint a div 2 ^ (unat b mod 32))"
| "alu_meets ALU_SRA a b r = (sint r = sint a div 2 ^ (unat b mod 32))"
| "alu_meets ALU_SLT a b r = (r = of_bool (sint a < sint b))"
| "alu_meets ALU_SLTU a b r = (r = of_bool (uint a < uint b))"
| "alu_meets ALU_XOR a b r = (\<forall>n<32. bit r n = (bit a n \<noteq> bit b n))"
| "alu_meets ALU_OR a b r = (\<forall>n<32. bit r n = (bit a n \<or> bit b n))"
| "alu_meets ALU_AND a b r = (\<forall>n<32. bit r n = (bit a n \<and> bit b n))"
| "alu_meets (ALU_other _) a b r = False"

lemma ALU_meets: "ALU op a b = Ok r \<Longrightarrow> alu_meets op a b r"
  by (cases op)
    (auto simp: uint_word_ariths shift_amount uint_push_bit uint_drop_bit sint_sra
       word_sless_alt word_less_def bit_simps)

lemma ALU_Ok_iff: "(\<exists>r. ALU op a b = Ok r) \<longleftrightarrow> (\<forall>c. op \<noteq> ALU_other c)"
  by (cases op) auto

lemma ALU_not_UB: "ALU op a b \<noteq> UB"
  by (cases op) auto

lemma Cmp_Ok_iff: "(\<exists>r. Cmp op a b = Ok r) \<longleftrightarrow> (\<forall>c. op \<noteq> CMP_other c)"
  by (cases op) auto

lemma Cmp_not_UB: "Cmp op a b \<noteq> UB"
  by (cases op) auto

lemma Multiplexer3_not_UB: "Multiplexer3 c a b d \<noteq> UB"
  by (simp add: Multiplexer3_def)

end
