(* ===== verification/RV_Memory.thy ===== *)
theory RV_Memory
  imports RV_Modules
begin

text \<open>
  The storage modules of the simulator: the data memory (\<open>modules/data_mem_unit.h\<close>), the
  instruction memory (\<open>modules/instr_mem_unit.h\<close>), the register file
  (\<open>modules/regfile.h\<close>) and the clocked register (\<open>modules/register.h\<close>).

  The arrays of words are accessed through byte pointers, so a memory is a function from
  byte offsets to bytes, read and written little-endian as the x86-64 host the simulator
  is built for does.  The array bounds and the alignment are explicit: an access with a byte
  outside the array, or of a halfword or word at an address that is not a multiple of its size,
  is \<open>UB\<close>.  An aligned halfword or byte of the array of words has the bytes of the word: the
  rules on the types of the accesses (strict aliasing) are not modelled.
\<close>

section \<open>Byte-addressed arrays\<close>

type_synonym byte_array = "nat \<Rightarrow> byte"

definition zero_bytes :: byte_array where
  "zero_bytes = (\<lambda>_. 0)"

fun read_bytes :: "byte_array \<Rightarrow> nat \<Rightarrow> nat \<Rightarrow> byte list" where
  "read_bytes m a 0 = []"
| "read_bytes m a (Suc n) = m a # read_bytes m (Suc a) n"

fun write_bytes :: "byte_array \<Rightarrow> nat \<Rightarrow> byte list \<Rightarrow> byte_array" where
  "write_bytes m a [] = m"
| "write_bytes m a (b # bs) = write_bytes (m(a := b)) (Suc a) bs"

definition byte_of :: "nat \<Rightarrow> 'a::len word \<Rightarrow> byte" where
  "byte_of i w = ucast (drop_bit (8 * i) w)"

definition load_byte2 :: "byte_array \<Rightarrow> nat \<Rightarrow> byte2" where
  "load_byte2 m a = ucast (m a) OR push_bit 8 (ucast (m (a + 1)))"

definition load_word :: "byte_array \<Rightarrow> nat \<Rightarrow> u32" where
  "load_word m a =
     ucast (m a) OR push_bit 8 (ucast (m (a + 1)))
       OR push_bit 16 (ucast (m (a + 2))) OR push_bit 24 (ucast (m (a + 3)))"

definition store_byte2 :: "byte_array \<Rightarrow> nat \<Rightarrow> byte2 \<Rightarrow> byte_array" where
  "store_byte2 m a v = write_bytes m a [byte_of 0 v, byte_of 1 v]"

definition store_word :: "byte_array \<Rightarrow> nat \<Rightarrow> u32 \<Rightarrow> byte_array" where
  "store_word m a v = write_bytes m a [byte_of 0 v, byte_of 1 v, byte_of 2 v, byte_of 3 v]"

section \<open>Data memory\<close>

datatype StoreMode = SM_Byte | SM_Halfword | SM_Word

definition StoreMode_of_byte :: "byte \<Rightarrow> StoreMode option" where
  "StoreMode_of_byte b =
     (if b = 0 then Some SM_Byte else if b = 1 then Some SM_Halfword
      else if b = 2 then Some SM_Word else None)"

fun show_StoreMode :: "StoreMode \<Rightarrow> string" where
  "show_StoreMode SM_Byte = ''Byte''"
| "show_StoreMode SM_Halfword = ''Halfword''"
| "show_StoreMode SM_Word = ''Word''"

datatype LoadExtensionMode = LM_Byte | LM_Halfword | LM_Word | LM_ByteU | LM_HalfwordU

definition LoadExtensionMode_of_byte :: "byte \<Rightarrow> LoadExtensionMode option" where
  "LoadExtensionMode_of_byte b =
     (if b = 0 then Some LM_Byte else if b = 1 then Some LM_Halfword
      else if b = 2 then Some LM_Word else if b = 4 then Some LM_ByteU
      else if b = 5 then Some LM_HalfwordU else None)"

fun show_LoadExtensionMode :: "LoadExtensionMode \<Rightarrow> string" where
  "show_LoadExtensionMode LM_Byte = ''Byte''"
| "show_LoadExtensionMode LM_Halfword = ''Halfword''"
| "show_LoadExtensionMode LM_Word = ''Word''"
| "show_LoadExtensionMode LM_ByteU = ''ByteU''"
| "show_LoadExtensionMode LM_HalfwordU = ''HalfwordU''"

record DataMemUnit =
  dm_store_mode :: byte
  dm_write_enable :: bool
  dm_address :: u32
  dm_write_data :: u32
  dm_memory :: byte_array
  dm_read_data :: u32

definition dm_capacity :: nat where
  "dm_capacity = 4096"

definition dm_bytes :: nat where
  "dm_bytes = dm_capacity * 4"

definition DataMemUnit_default :: DataMemUnit where
  "DataMemUnit_default =
     \<lparr>dm_store_mode = 0, dm_write_enable = False, dm_address = 0, dm_write_data = 0,
      dm_memory = zero_bytes, dm_read_data = 0\<rparr>"

text \<open>The constructor from a map; the pairs come in the order the map is iterated in.\<close>

fun DataMemUnit_store_all :: "(u32 \<times> u32) list \<Rightarrow> byte_array \<Rightarrow> (rv_exception, byte_array) res"
where
  "DataMemUnit_store_all [] m = Ok m"
| "DataMemUnit_store_all ((key, value) # data) m =
     (if unat key + 4 \<le> dm_bytes \<and> unat key mod 4 = 0 then DataMemUnit_store_all data (store_word m (unat key) value)
      else UB)"

definition DataMemUnit_ctor :: "(u32 \<times> u32) list \<Rightarrow> (rv_exception, DataMemUnit) res" where
  "DataMemUnit_ctor data =
     rbind (DataMemUnit_store_all data zero_bytes)
       (\<lambda>m. Ok (DataMemUnit_default\<lparr>dm_memory := m\<rparr>))"

definition storeValue :: "DataMemUnit \<Rightarrow> (rv_exception \<times> DataMemUnit, DataMemUnit) res" where
  "storeValue d =
     (let a = unat (dm_address d); m = dm_memory d; v = dm_write_data d in
      case StoreMode_of_byte (dm_store_mode d) of
        Some SM_Byte \<Rightarrow>
          (if a + 1 \<le> dm_bytes then Ok (d\<lparr>dm_memory := m(a := ucast v)\<rparr>) else UB)
      | Some SM_Halfword \<Rightarrow>
          (if a + 2 \<le> dm_bytes \<and> a mod 2 = 0 then Ok (d\<lparr>dm_memory := store_byte2 m a (ucast v)\<rparr>) else UB)
      | Some SM_Word \<Rightarrow>
          (if a + 4 \<le> dm_bytes \<and> a mod 4 = 0 then Ok (d\<lparr>dm_memory := store_word m a v\<rparr>) else UB)
      | None \<Rightarrow> Ok d)"

definition loadValue :: "DataMemUnit \<Rightarrow> (rv_exception, u32) res" where
  "loadValue d =
     (let a = unat (dm_address d); m = dm_memory d in
      case LoadExtensionMode_of_byte (dm_store_mode d) of
        Some LM_Byte \<Rightarrow> (if a + 1 \<le> dm_bytes then Ok (signExtendFromByte (m a)) else UB)
      | Some LM_Halfword \<Rightarrow>
          (if a + 2 \<le> dm_bytes \<and> a mod 2 = 0 then Ok (signExtendFromByte2 (load_byte2 m a)) else UB)
      | Some LM_Word \<Rightarrow> (if a + 4 \<le> dm_bytes \<and> a mod 4 = 0 then Ok (load_word m a) else UB)
      | Some LM_ByteU \<Rightarrow> (if a + 1 \<le> dm_bytes then Ok (ucast (m a)) else UB)
      | Some LM_HalfwordU \<Rightarrow> (if a + 2 \<le> dm_bytes \<and> a mod 2 = 0 then Ok (ucast (load_byte2 m a)) else UB)
      | None \<Rightarrow> Err (LogicError (''invalid funct3: '' @ to_string (unat (dm_store_mode d)))))"

definition dm_getData :: "DataMemUnit \<Rightarrow> (rv_exception, u32) res" where
  "dm_getData d =
     (if unat (dm_address d) > dm_capacity * 4 then
        Err (InvalidAddressException
               (''data read overflow - address='' @ to_string (unat (dm_address d))))
      else if unat (dm_address d) mod 1 \<noteq> 0 then
        Err (AlignmentException
               (''data write invalid alignment - address='' @ to_string (unat (dm_address d))))
      else loadValue d)"

definition dm_tick :: "DataMemUnit \<Rightarrow> (rv_exception \<times> DataMemUnit, DataMemUnit) res" where
  "dm_tick d =
     (if dm_write_enable d then
        (if unat (dm_address d) > dm_capacity * 4 then
           Err (InvalidAddressException
                  (''data write overflow - address='' @ to_string (unat (dm_address d))), d)
         else if unat (dm_address d) mod 1 \<noteq> 0 then
           Err (AlignmentException
                  (''data write invalid alignment - address='' @ to_string (unat (dm_address d))), d)
         else storeValue d)
      else rbind (eval_in d (dm_getData d)) (\<lambda>v. Ok (d\<lparr>dm_read_data := v\<rparr>)))"

section \<open>Instruction memory\<close>

record InstrMemUnit =
  im_address :: u32
  im_memory :: byte_array
  im_start_of_section :: u32
  im_end_of_section :: u32

definition im_capacity :: nat where
  "im_capacity = 1024"

fun copy_words :: "u32 list \<Rightarrow> nat \<Rightarrow> byte_array \<Rightarrow> byte_array" where
  "copy_words [] a m = m"
| "copy_words (w # ws) a m = copy_words ws (a + 4) (store_word m a w)"

definition InstrMemUnit_ctor :: "u32 list \<Rightarrow> u32 \<Rightarrow> (rv_exception, InstrMemUnit) res" where
  "InstrMemUnit_ctor instructions start_address =
     (if unat start_address mod 4 \<noteq> 0 then
        Err (AlignmentException
               (''start_address: '' @ to_string (unat start_address) @ '' % '' @ to_string 4 @ '' != 0''))
      else if unat start_address div 4 + length instructions > im_capacity then UB
      else Ok \<lparr>im_address = 0,
               im_memory = copy_words instructions (4 * (unat start_address div 4)) zero_bytes,
               im_start_of_section = start_address,
               im_end_of_section = start_address + of_nat (length instructions * 4)\<rparr>)"

definition im_getData :: "InstrMemUnit \<Rightarrow> (rv_exception, u32) res" where
  "im_getData i =
     (if unat (im_address i) + 4 \<le> im_capacity * 4 \<and> unat (im_address i) mod 4 = 0 then Ok (load_word (im_memory i) (unat (im_address i)))
      else UB)"

definition isPcOutOfSection :: "InstrMemUnit \<Rightarrow> u32 \<Rightarrow> bool" where
  "isPcOutOfSection i pc = (pc < im_start_of_section i \<or> pc \<ge> im_end_of_section i)"

section \<open>Register file\<close>

record RegFile =
  rf_address1 :: byte
  rf_address2 :: byte
  rf_address3 :: byte
  rf_write_enable3 :: bool
  rf_write_data3 :: u32
  rf_regs :: "u32 list"
  rf_read_data1 :: u32
  rf_read_data2 :: u32

definition number_of_regs :: nat where
  "number_of_regs = 32"

definition RegFile_init :: RegFile where
  "RegFile_init =
     \<lparr>rf_address1 = 0, rf_address2 = 0, rf_address3 = 0, rf_write_enable3 = False,
      rf_write_data3 = 0, rf_regs = replicate number_of_regs 0,
      rf_read_data1 = 0, rf_read_data2 = 0\<rparr>"

text \<open>\<open>std::array::at\<close>: an index past the end throws \<open>std::out_of_range\<close>.\<close>

definition array_at :: "'a list \<Rightarrow> nat \<Rightarrow> (rv_exception, 'a) res" where
  "array_at xs i = (if i < length xs then Ok (xs ! i) else Err (OutOfRange ''array::at''))"

definition rf_write_back :: "RegFile \<Rightarrow> (rv_exception \<times> RegFile, RegFile) res" where
  "rf_write_back r =
     (if rf_write_enable3 r \<and> rf_address3 r \<noteq> 0 then
        rbind (eval_in r (array_at (rf_regs r) (unat (rf_address3 r))))
          (\<lambda>_. Ok (r\<lparr>rf_regs := (rf_regs r)[unat (rf_address3 r) := rf_write_data3 r]\<rparr>))
      else Ok r)"

definition rf_tick :: "RegFile \<Rightarrow> (rv_exception \<times> RegFile, RegFile) res" where
  "rf_tick r0 =
     rbind (rf_write_back r0) (\<lambda>r1.
     rbind (eval_in r1 (array_at (rf_regs r1) (unat (rf_address1 r1)))) (\<lambda>d1.
     let r2 = r1\<lparr>rf_read_data1 := d1\<rparr> in
     rbind (eval_in r2 (array_at (rf_regs r2) (unat (rf_address2 r2)))) (\<lambda>d2.
     Ok (r2\<lparr>rf_read_data2 := d2\<rparr>))))"

definition setNewSignals :: "byte \<Rightarrow> byte \<Rightarrow> byte \<Rightarrow> bool \<Rightarrow> u32 \<Rightarrow> RegFile \<Rightarrow> RegFile" where
  "setNewSignals addr1 addr2 addr3 we3 wd3 r =
     r\<lparr>rf_address1 := addr1, rf_address2 := addr2, rf_address3 := addr3,
       rf_write_enable3 := we3, rf_write_data3 := wd3\<rparr>"

definition getRegDirectly :: "RegFile \<Rightarrow> u32 \<Rightarrow> (rv_exception, u32) res" where
  "getRegDirectly r addr = array_at (rf_regs r) (unat addr)"

section \<open>Clocked register\<close>

record 'a Register =
  enable_flag :: bool
  reg_next :: 'a
  reg_current :: 'a

text \<open>
  \<open>T next = 0\<close> and \<open>current = 0\<close> convert the word 0 to the element type; the
  conversion is the argument \<open>conv\<close>.
\<close>

definition Register_init :: "(u32 \<Rightarrow> 'a) \<Rightarrow> 'a Register" where
  "Register_init conv = \<lparr>enable_flag = True, reg_next = conv 0, reg_current = conv 0\<rparr>"

definition Register_tick :: "'a Register \<Rightarrow> 'a Register" where
  "Register_tick r = (if enable_flag r then r\<lparr>reg_current := reg_next r\<rparr> else r)"

definition Register_clear :: "(u32 \<Rightarrow> 'a) \<Rightarrow> 'a Register \<Rightarrow> 'a Register" where
  "Register_clear conv r = r\<lparr>reg_current := conv 0, reg_next := conv 0\<rparr>"

section \<open>Loads after stores\<close>

lemma load_store_word: "load_word (store_word m a v) a = v"
  unfolding u32_eq_iff all_less_32
  by (simp add: load_word_def store_word_def byte_of_def bit_simps)

lemma load_store_byte2: "load_byte2 (store_byte2 m a v) a = v"
  unfolding byte2_eq_iff all_less_16
  by (simp add: load_byte2_def store_byte2_def byte_of_def bit_simps)

lemma store_word_other: "a + 4 \<le> b \<or> b < a \<Longrightarrow> store_word m a v b = m b"
  by (auto simp: store_word_def)

lemma store_byte2_other: "a + 2 \<le> b \<or> b < a \<Longrightarrow> store_byte2 m a v b = m b"
  by (auto simp: store_byte2_def)

definition words_apart :: "nat \<Rightarrow> nat \<Rightarrow> bool" where
  "words_apart a b = (a + 4 \<le> b \<or> b + 4 \<le> a)"

lemma load_word_apart: "words_apart a b \<Longrightarrow> load_word (store_word m a v) b = load_word m b"
  by (auto simp: load_word_def store_word_other words_apart_def)

text \<open>Words in a byte array are a store of cells.\<close>

interpretation words: cell_store load_word store_word words_apart
  by unfold_locales (simp_all add: load_store_word load_word_apart)

text \<open>The constructors' loops are folds of stores.\<close>

lemma copy_words_fold:
  "copy_words ws a m = fold (\<lambda>(k, v) s. store_word s k v) (zip (map (\<lambda>i. a + 4 * i) [0..<length ws]) ws) m"
proof (induction ws arbitrary: a m)
  case (Cons w ws)
  have "map (\<lambda>i. a + 4 * i) [0..<length (w # ws)] = a # map (\<lambda>i. (a + 4) + 4 * i) [0..<length ws]"
    by (rule nth_equalityI) (auto simp: nth_Cons split: nat.splits simp del: upt_Suc)
  then show ?case by (simp add: Cons.IH)
qed simp

lemma load_copy_words:
  assumes "i < length ws"
  shows "load_word (copy_words ws a m) (a + 4 * i) = ws ! i"
proof -
  let ?kvs = "zip (map (\<lambda>i. a + 4 * i) [0..<length ws]) ws"
  have len: "length ?kvs = length ws" by simp
  have nth: "\<And>j. j < length ws \<Longrightarrow> ?kvs ! j = (a + 4 * j, ws ! j)" by simp
  have split: "?kvs = take i ?kvs @ (a + 4 * i, ws ! i) # drop (Suc i) ?kvs"
    using assms id_take_nth_drop [of i ?kvs] nth [OF assms] by simp
  have "words_apart j (a + 4 * i)" if "j \<in> fst ` set (drop (Suc i) ?kvs)" for j
  proof -
    from that obtain n where "n < length ?kvs - Suc i" and "j = fst (drop (Suc i) ?kvs ! n)"
      unfolding set_conv_nth by auto
    then have "j = a + 4 * (Suc i + n)" using nth by simp
    then show ?thesis by (simp add: words_apart_def)
  qed
  then show ?thesis
    unfolding copy_words_fold by (rule words.rd_fold_last [OF split])
qed

section \<open>Data memory\<close>

text \<open>The number of bytes an access of a mode touches; \<open>None\<close> for the modes no load has.\<close>

definition mode_width :: "byte \<Rightarrow> nat option" where
  "mode_width m =
     (if m = 0 \<or> m = 4 then Some 1 else if m = 1 \<or> m = 5 then Some 2
      else if m = 2 then Some 4 else None)"

lemma dm_bytes_eq: "dm_bytes = 16384" "dm_capacity * 4 = 16384"
  by (simp_all add: dm_bytes_def dm_capacity_def)

lemmas mode_simps =
  mode_width_def StoreMode_of_byte_def LoadExtensionMode_of_byte_def dm_bytes_eq

lemma dm_getData_UB_iff:
  "dm_getData d = UB \<longleftrightarrow>
     unat (dm_address d) \<le> 16384 \<and>
     (\<exists>w. mode_width (dm_store_mode d) = Some w \<and>
        (16384 < unat (dm_address d) + w \<or> unat (dm_address d) mod w \<noteq> 0))"
  by (auto simp: dm_getData_def loadValue_def Let_def mode_simps)

lemma dm_getData_in_bounds:
  assumes "mode_width (dm_store_mode d) = Some w" and "unat (dm_address d) + w \<le> 16384"
    and "unat (dm_address d) mod w = 0"
  shows "\<exists>v. dm_getData d = Ok v"
  using assms by (auto simp: dm_getData_def loadValue_def Let_def mode_simps split: if_splits)

text \<open>What a load of a mode returns after a store of the same mode.\<close>

definition stored_value :: "byte \<Rightarrow> u32 \<Rightarrow> u32" where
  "stored_value m v = (if m = 0 then scast (ucast v :: byte) else if m = 1 then scast (ucast v :: byte2) else v)"

lemma dm_store_then_load:
  assumes "dm_write_enable d" and "dm_store_mode d \<in> {0, 1, 2}"
    and "mode_width (dm_store_mode d) = Some w" and "unat (dm_address d) + w \<le> 16384"
    and "unat (dm_address d) mod w = 0"
  shows "\<exists>d'. dm_tick d = Ok d' \<and>
           dm_getData d' = Ok (stored_value (dm_store_mode d) (dm_write_data d))"
  using assms
  by (auto simp: dm_tick_def storeValue_def dm_getData_def loadValue_def Let_def mode_simps
      stored_value_def load_store_word load_store_byte2 signExtendFromByte_scast
      signExtendFromByte2_scast)

lemma dm_store_outside:
  assumes "dm_write_enable d" and "dm_store_mode d \<in> {0, 1, 2}"
    and "mode_width (dm_store_mode d) = Some w" and "unat (dm_address d) \<le> 16384"
    and "16384 < unat (dm_address d) + w \<or> unat (dm_address d) mod w \<noteq> 0"
  shows "dm_tick d = UB"
  using assms by (auto simp: dm_tick_def storeValue_def Let_def mode_simps)

lemma dm_store_frame:
  assumes "dm_tick d = Ok d'" and "mode_width (dm_store_mode d) = Some w"
    and "b < unat (dm_address d) \<or> unat (dm_address d) + w \<le> b"
  shows "dm_memory d' b = dm_memory d b"
  using assms
  by (auto simp: dm_tick_def storeValue_def Let_def mode_simps res_simps store_word_other
      store_byte2_other split: if_splits)

section \<open>Instruction memory\<close>

lemma InstrMemUnit_ctor_fetch:
  assumes "InstrMemUnit_ctor ws start = Ok im" and "i < length ws"
    and "unat (im_address im') = unat start + 4 * i" and "im_memory im' = im_memory im"
  shows "im_getData im' = Ok (ws ! i)"
proof -
  from assms(1) have al: "unat start mod 4 = 0" and cap: "unat start div 4 + length ws \<le> 1024"
    and mem: "im_memory im = copy_words ws (4 * (unat start div 4)) zero_bytes"
    by (auto simp: InstrMemUnit_ctor_def im_capacity_def split: if_splits)
  from al have "4 * (unat start div 4) = unat start" by auto
  with mem assms(2) have "load_word (im_memory im) (unat start + 4 * i) = ws ! i"
    by (simp add: load_copy_words)
  moreover from al cap assms(2) have "unat start + 4 * i + 4 \<le> 4096" "(unat start + 4 * i) mod 4 = 0" by presburger+
  ultimately show ?thesis
    using assms(3,4) by (simp add: im_getData_def im_capacity_def)
qed

section \<open>Register file\<close>

text \<open>The registers are there, and register 0 reads 0.\<close>

definition rf_ok :: "RegFile \<Rightarrow> bool" where
  "rf_ok r \<longleftrightarrow> length (rf_regs r) = 32 \<and> rf_regs r ! 0 = 0"

lemma rf_ok_init [simp]: "rf_ok RegFile_init"
  by (simp add: rf_ok_def RegFile_init_def number_of_regs_def)

lemma unat_byte_eq_0: "unat (b :: byte) = 0 \<longleftrightarrow> b = 0"
  by (simp add: unat_eq_0)

lemma rf_ok_tick: "rf_ok r \<Longrightarrow> keeps rf_ok (rf_tick r)"
  by (rule keepsI)
    (auto simp: rf_tick_def rf_write_back_def rf_ok_def array_at_def Let_def res_simps
      nth_list_update unat_byte_eq_0 split: if_splits)

text \<open>A tick writes the addressed register, unless that is register 0, and then reads.\<close>

definition written_regs :: "RegFile \<Rightarrow> u32 list" where
  "written_regs r =
     (if rf_write_enable3 r \<and> rf_address3 r \<noteq> 0
      then (rf_regs r)[unat (rf_address3 r) := rf_write_data3 r] else rf_regs r)"

lemma rf_tick_eq:
  assumes "rf_ok r" and "unat (rf_address1 r) < 32" and "unat (rf_address2 r) < 32"
    and "rf_write_enable3 r \<Longrightarrow> unat (rf_address3 r) < 32"
  shows "rf_tick r = Ok (r\<lparr>rf_regs := written_regs r,
                          rf_read_data1 := written_regs r ! unat (rf_address1 r),
                          rf_read_data2 := written_regs r ! unat (rf_address2 r)\<rparr>)"
  using assms
  by (auto simp: rf_tick_def rf_write_back_def array_at_def Let_def rf_ok_def written_regs_def)

lemma rf_tick_not_UB: "rf_tick r \<noteq> UB"
  by (auto simp: rf_tick_def rf_write_back_def array_at_def Let_def res_simps split: if_splits)

end
