(* ===== verification/RV_Decode.thy ===== *)
theory RV_Decode
  imports RV_Memory
begin

text \<open>
  Instruction decoding: the field extractors and the immediate extension of
  \<open>pipeline/instruction.h\<close> and the control unit of \<open>pipeline/control_unit.h\<close>.  The
  packed bit-fields of the union \<open>imm_layout\<close> are read with \<open>get_field\<close> and written with
  \<open>set_field\<close>, which take the offset and the width of the field; bit-fields are
  allocated from the least significant bit, as the compilers the project uses do.
\<close>

section \<open>Fields of an instruction\<close>

datatype InstructionType = UNKNOWN | RType | IType | SType | BType | UType | JType

definition getFunct7 :: "u32 \<Rightarrow> byte" where
  "getFunct7 instruction = ucast (drop_bit 25 instruction AND 0x0000007f)"

definition getRs2 :: "u32 \<Rightarrow> byte" where
  "getRs2 instruction = ucast (drop_bit 20 instruction AND 0x0000001f)"

definition getRs1 :: "u32 \<Rightarrow> byte" where
  "getRs1 instruction = ucast (drop_bit 15 instruction AND 0x0000001f)"

definition getFunct3 :: "u32 \<Rightarrow> byte" where
  "getFunct3 instruction = ucast (drop_bit 12 instruction AND 0x00000007)"

definition getRd :: "u32 \<Rightarrow> byte" where
  "getRd instruction = ucast (drop_bit 7 instruction AND 0x0000001f)"

definition getOpcode :: "u32 \<Rightarrow> byte" where
  "getOpcode instruction = ucast (instruction AND 0x0000007f)"

definition getInstructionType :: "byte \<Rightarrow> InstructionType" where
  "getInstructionType opcode =
     (if opcode = 0b0110011 then RType
      else if opcode = 0b0100011 then SType
      else if opcode = 0b1100011 then BType
      else if opcode = 0b0000011 \<or> opcode = 0b0010011 \<or> opcode = 0b1110011 \<or> opcode = 0b1100111
        then IType
      else if opcode = 0b0110111 \<or> opcode = 0b0010111 then UType
      else if opcode = 0b1101111 then JType
      else UNKNOWN)"

definition hasRs1 :: "InstructionType \<Rightarrow> bool" where
  "hasRs1 type = (type \<noteq> UType \<and> type \<noteq> JType)"

definition hasRs2 :: "InstructionType \<Rightarrow> bool" where
  "hasRs2 type = (type = RType \<or> type = IType \<or> type = SType \<or> type = BType)"

section \<open>Immediates\<close>

definition get_field :: "nat \<Rightarrow> nat \<Rightarrow> u32 \<Rightarrow> u32" where
  "get_field lo n w = take_bit n (drop_bit lo w)"

definition set_field :: "nat \<Rightarrow> nat \<Rightarrow> u32 \<Rightarrow> u32 \<Rightarrow> u32" where
  "set_field lo n v w = (w AND NOT (push_bit lo (mask n))) OR push_bit lo (take_bit n v)"

text \<open>\<open>out.se--\<close> when the sign bit is set.\<close>

definition sign_extend_field :: "nat \<Rightarrow> nat \<Rightarrow> byte \<Rightarrow> u32 \<Rightarrow> u32" where
  "sign_extend_field lo n sign w =
     (if sign \<noteq> 0 then set_field lo n (get_field lo n w - 1) w else w)"

definition ImmediateExtensionBlock :: "u32 \<Rightarrow> u32" where
  "ImmediateExtensionBlock instr =
     (let instr_t = getInstructionType (getOpcode instr);
          sign = ucast (drop_bit 31 instr AND 1) :: byte;
          out = 0 in
      case instr_t of
        UNKNOWN \<Rightarrow> 0
      | RType \<Rightarrow> out
      | IType \<Rightarrow>
          (let out = set_field 0 12 (get_field 20 12 instr) out
           in sign_extend_field 12 20 sign out)
      | SType \<Rightarrow>
          (let out = set_field 0 5 (get_field 7 5 instr) out;
               out = set_field 5 7 (get_field 25 7 instr) out
           in sign_extend_field 12 20 sign out)
      | BType \<Rightarrow>
          (let out = set_field 1 4 (get_field 8 4 instr) out;
               out = set_field 5 6 (get_field 25 6 instr) out;
               out = set_field 11 1 (get_field 7 1 instr) out
           in sign_extend_field 12 20 sign out)
      | JType \<Rightarrow>
          (let out = set_field 1 10 (get_field 21 10 instr) out;
               out = set_field 11 1 (get_field 20 1 instr) out;
               out = set_field 12 8 (get_field 12 8 instr) out
           in sign_extend_field 20 12 sign out)
      | UType \<Rightarrow> set_field 12 20 (get_field 12 20 instr) out)"

section \<open>Control unit\<close>

record ControlUnit =
  cu_opcode :: byte
  cu_funct3 :: byte
  cu_funct7 :: byte
  cu_is_jalr :: bool
  cu_wb_we :: bool
  cu_mem_we :: bool
  cu_mem_to_reg :: bool
  cu_brn_cond :: bool
  cu_jmp_cond :: bool
  cu_cmp_control :: CmpControl
  cu_alu_src2 :: bool
  cu_alu_op :: ALUControl
  cu_instr_type :: InstructionType

text \<open>
  \<open>cmp_control\<close> and \<open>instr_type\<close> have no initialiser; the values they hold before the
  first \<open>tick\<close> are arguments.
\<close>

definition ControlUnit_init :: "CmpControl \<Rightarrow> InstructionType \<Rightarrow> ControlUnit" where
  "ControlUnit_init cmp0 type0 =
     \<lparr>cu_opcode = 0, cu_funct3 = 0, cu_funct7 = 0, cu_is_jalr = False, cu_wb_we = False,
      cu_mem_we = False, cu_mem_to_reg = False, cu_brn_cond = False, cu_jmp_cond = False,
      cu_cmp_control = cmp0, cu_alu_src2 = False, cu_alu_op = ALU_NOP, cu_instr_type = type0\<rparr>"

text \<open>The nested switches that select the ALU operation.\<close>

definition cu_select_alu_op ::
  "byte \<Rightarrow> byte \<Rightarrow> byte \<Rightarrow> InstructionType \<Rightarrow> (rv_exception, ALUControl) res" where
  "cu_select_alu_op opcode funct3 funct7 type =
     (if opcode = 0b0110011 then
        (if funct3 = 0b000 then
           (if funct7 = 0 then Ok ALU_ADD
            else if funct7 = 0b0100000 then Ok ALU_SUB
            else Err (InvalidArgument (''invalid funct7 for ADD/SUB with funct3 == 0: '' @ to_string (unat funct7))))
         else if funct3 = 0b001 then Ok ALU_SLL
         else if funct3 = 0b010 then Ok ALU_SLT
         else if funct3 = 0b011 then Ok ALU_SLTU
         else if funct3 = 0b100 then Ok ALU_XOR
         else if funct3 = 0b101 then
           (if funct7 = 0 then Ok ALU_SRL
            else if funct7 = 0b0100000 then Ok ALU_SRA
            else Err (InvalidArgument (''invalid funct7 for SRL/SRA with funct3 == 0: '' @ to_string (unat funct7))))
         else if funct3 = 0b110 then Ok ALU_OR
         else if funct3 = 0b111 then Ok ALU_AND
         else Err (InvalidArgument (''invalid funct3: '' @ to_string (unat funct3))))
      else if opcode = 0b0010011 then
        (if funct3 = 0b000 then Ok ALU_ADD
         else if funct3 = 0b010 then Ok ALU_SLT
         else if funct3 = 0b011 then Ok ALU_SLTU
         else if funct3 = 0b100 then Ok ALU_XOR
         else if funct3 = 0b110 then Ok ALU_OR
         else if funct3 = 0b111 then Ok ALU_AND
         else if funct3 = 0b001 then
           (if funct7 = 0 then Ok ALU_SLL
            else Err (InvalidArgument (''invalid funct7 for SLLI op: '' @ to_string (unat funct7))))
         else if funct3 = 0b101 then
           (if funct7 = 0 then Ok ALU_SRL
            else if funct7 = 0b0100000 then Ok ALU_SRA
            else Err (InvalidArgument (''invalid funct7 for SRLI/SRAI op: '' @ to_string (unat funct7))))
         else Err (InvalidArgument (''invalid funct3: '' @ to_string (unat funct3))))
      else if type = UType \<or> opcode = 0b1100111 \<or> opcode = 0b0000011 \<or> opcode = 0b0100011
        then Ok ALU_ADD
      else Ok ALU_NOP)"

definition cu_select_cmp :: "byte \<Rightarrow> byte \<Rightarrow> (rv_exception, CmpControl) res" where
  "cu_select_cmp opcode funct3 =
     (if opcode = 0b1100011 then
        (if funct3 = 0 then Ok CMP_EQ
         else if funct3 = 0b001 then Ok CMP_NE
         else if funct3 = 0b100 then Ok CMP_LT
         else if funct3 = 0b101 then Ok CMP_GE
         else if funct3 = 0b110 then Ok CMP_LTU
         else if funct3 = 0b111 then Ok CMP_GEU
         else Err (LogicError (''invalid funct3 for b instruction: '' @ to_string (unat funct3))))
      else Ok CMP_NOP)"

definition cu_tick :: "ControlUnit \<Rightarrow> (rv_exception \<times> ControlUnit, ControlUnit) res" where
  "cu_tick c =
     (let opcode = cu_opcode c; funct3 = cu_funct3 c; funct7 = cu_funct7 c in
      if opcode = 0b0001111 \<or> (opcode = 0b1110011 \<and> funct3 \<noteq> 0) then
        Err (UnsupportedException (''unsupported instruction: opcode == '' @ to_string (unat opcode)), c)
      else if opcode = 0b1110011 then Err (EbreakException, c)
      else
        let type = getInstructionType opcode;
            c1 = c\<lparr>cu_is_jalr := (opcode = 0b1100111),
                   cu_wb_we := \<not> (opcode = 0b0100011 \<or> opcode = 0b1100011 \<or> opcode = 0b1110011),
                   cu_mem_we := (opcode = 0b0100011),
                   cu_instr_type := type,
                   cu_alu_src2 := (type = IType \<or> type = SType \<or> type = UType)\<rparr> in
        rbind (eval_in c1 (cu_select_alu_op opcode funct3 funct7 type)) (\<lambda>op.
        let c2 = c1\<lparr>cu_alu_op := op,
                    cu_brn_cond := (opcode = 0b1100011),
                    cu_jmp_cond := (opcode = 0b1101111 \<or> opcode = 0b1100111),
                    cu_mem_to_reg := (opcode \<noteq> 0b0000011)\<rparr> in
        rbind (eval_in c2 (cu_select_cmp opcode funct3)) (\<lambda>cmp.
        Ok (c2\<lparr>cu_cmp_control := cmp\<rparr>))))"

section \<open>Correctness of the field extractors\<close>

lemma and_mask_fields:
  "(w :: u32) AND 0x7f = take_bit 7 w" "w AND 0x1f = take_bit 5 w" "w AND 0x7 = take_bit 3 w"
  by (simp_all only: take_bit_eq_mask mask_eq_exp_minus_1) simp_all

lemma bit_fields [bit_field_simps]:
  "bit (getFunct7 i) n \<longleftrightarrow> n < 7 \<and> bit i (n + 25)"
  "bit (getRs2 i) n \<longleftrightarrow> n < 5 \<and> bit i (n + 20)"
  "bit (getRs1 i) n \<longleftrightarrow> n < 5 \<and> bit i (n + 15)"
  "bit (getFunct3 i) n \<longleftrightarrow> n < 3 \<and> bit i (n + 12)"
  "bit (getRd i) n \<longleftrightarrow> n < 5 \<and> bit i (n + 7)"
  "bit (getOpcode i) n \<longleftrightarrow> n < 7 \<and> bit i n"
  unfolding getFunct7_def getRs2_def getRs1_def getFunct3_def getRd_def getOpcode_def and_mask_fields
  by (auto simp: bit_simps add.commute)

lemma unat_fields [simp]:
  "unat (getRs1 i) < 32" "unat (getRs2 i) < 32" "unat (getRd i) < 32"
proof -
  have *: "unat (ucast (take_bit 5 w) :: byte) < 32" for w :: u32
    using take_bit_nat_less_exp [of 5 "unat w"]
    by (simp add: unsigned_ucast_eq unsigned_take_bit_eq take_bit_take_bit)
  show "unat (getRs1 i) < 32" "unat (getRs2 i) < 32" "unat (getRd i) < 32"
    by (simp_all only: getRs2_def getRs1_def getRd_def and_mask_fields *)
qed

text \<open>The six fields hold the whole instruction, each bit once.\<close>

definition compose_fields :: "byte \<Rightarrow> byte \<Rightarrow> byte \<Rightarrow> byte \<Rightarrow> byte \<Rightarrow> byte \<Rightarrow> u32" where
  "compose_fields funct7 rs2 rs1 funct3 rd opcode =
     push_bit 25 (ucast funct7) OR push_bit 20 (ucast rs2) OR push_bit 15 (ucast rs1)
       OR push_bit 12 (ucast funct3) OR push_bit 7 (ucast rd) OR ucast opcode"

lemma compose_extracted_fields:
  "compose_fields (getFunct7 i) (getRs2 i) (getRs1 i) (getFunct3 i) (getRd i) (getOpcode i) = i"
  unfolding u32_eq_iff all_less_32 compose_fields_def
  by (simp add: bit_simps bit_field_simps)

section \<open>Correctness of the immediates\<close>

text \<open>
  The figure of the RV32I manual that says which bit of the instruction each bit of the
  immediate is; \<open>None\<close> for the bits that are 0.
\<close>

definition rv_imm_source :: "InstructionType \<Rightarrow> nat \<Rightarrow> nat option" where
  "rv_imm_source type n =
     (case type of
        UNKNOWN \<Rightarrow> None
      | RType \<Rightarrow> None
      | IType \<Rightarrow> Some (if n < 11 then n + 20 else 31)
      | SType \<Rightarrow> Some (if n < 5 then n + 7 else if n < 11 then n + 20 else 31)
      | BType \<Rightarrow> (if n = 0 then None
                 else Some (if n < 5 then n + 7 else if n < 11 then n + 20 else if n = 11 then 7 else 31))
      | UType \<Rightarrow> (if n < 12 then None else Some n)
      | JType \<Rightarrow> (if n = 0 then None
                 else Some (if n < 11 then n + 20 else if n = 11 then 20 else if n < 20 then n else 31)))"

lemma bit_get_field: "bit (get_field lo n w) k \<longleftrightarrow> k < n \<and> bit w (lo + k)"
  by (auto simp: get_field_def bit_simps)

lemma bit_set_field:
  "bit (set_field lo n v w) k \<longleftrightarrow> k < 32 \<and> (if lo \<le> k \<and> k < lo + n then bit v (k - lo) else bit w k)"
  by (auto simp: set_field_def bit_simps)

lemma sign_bit_field: "(ucast (drop_bit 31 instr AND 1) :: byte) \<noteq> 0 \<longleftrightarrow> bit (instr :: u32) 31"
proof -
  have "drop_bit 31 instr = of_bool (bit instr 31)"
    by (rule drop_bit_top) simp
  then show ?thesis by simp
qed

text \<open>Decrementing an all-zero field fills it with ones: the sign extension.\<close>

lemma bit_sign_extend_field:
  assumes "\<And>k. lo \<le> k \<Longrightarrow> \<not> bit w k"
  shows "bit (sign_extend_field lo n sign w) k \<longleftrightarrow>
           k < 32 \<and> (if lo \<le> k \<and> k < lo + n then sign \<noteq> 0 else bit w k)"
proof -
  have "get_field lo n w = 0"
    by (rule bit_eqI) (auto simp: bit_get_field assms)
  then show ?thesis
    by (auto simp: sign_extend_field_def bit_set_field bit_simps assms dest: bit_imp_le_length)
qed

lemma bit_Immediate:
  "\<forall>n<32. bit (ImmediateExtensionBlock instr) n \<longleftrightarrow>
    (case rv_imm_source (getInstructionType (getOpcode instr)) n of
       None \<Rightarrow> False | Some k \<Rightarrow> bit instr k)"
  unfolding ImmediateExtensionBlock_def Let_def all_less_32
  by (cases "getInstructionType (getOpcode instr)")
    (simp_all add: rv_imm_source_def bit_set_field bit_get_field bit_sign_extend_field sign_bit_field)

section \<open>Correctness of the control unit\<close>

lemma cu_select_alu_op_enum: "cu_select_alu_op opc f3 f7 type = Ok op \<Longrightarrow> op \<noteq> ALU_other c"
  by (auto simp: cu_select_alu_op_def split: if_splits)

lemma cu_select_cmp_enum: "cu_select_cmp opc f3 = Ok cmp \<Longrightarrow> cmp \<noteq> CMP_other c"
  by (auto simp: cu_select_cmp_def split: if_splits)

lemma cu_select_not_UB: "cu_select_alu_op opc f3 f7 type \<noteq> UB" "cu_select_cmp opc f3 \<noteq> UB"
  by (auto simp: cu_select_alu_op_def cu_select_cmp_def)

lemma cu_tick_not_UB: "cu_tick c \<noteq> UB"
  by (auto simp: cu_tick_def Let_def res_simps cu_select_not_UB)

text \<open>Which instructions write a register, access memory, branch and jump.\<close>

lemma cu_tick_signals:
  assumes "cu_tick c = Ok c'"
  shows "cu_wb_we c' \<longleftrightarrow> cu_opcode c \<notin> {0b0100011, 0b1100011}"
    and "cu_mem_we c' \<longleftrightarrow> cu_opcode c = 0b0100011"
    and "cu_mem_to_reg c' \<longleftrightarrow> cu_opcode c \<noteq> 0b0000011"
    and "cu_brn_cond c' \<longleftrightarrow> cu_opcode c = 0b1100011"
    and "cu_jmp_cond c' \<longleftrightarrow> cu_opcode c \<in> {0b1101111, 0b1100111}"
    and "cu_is_jalr c' \<longleftrightarrow> cu_opcode c = 0b1100111"
    and "cu_instr_type c' = getInstructionType (cu_opcode c)"
    and "cu_alu_src2 c' \<longleftrightarrow> getInstructionType (cu_opcode c) \<in> {IType, SType, UType}"
    and "cu_select_alu_op (cu_opcode c) (cu_funct3 c) (cu_funct7 c)
           (getInstructionType (cu_opcode c)) = Ok (cu_alu_op c')"
    and "cu_select_cmp (cu_opcode c) (cu_funct3 c) = Ok (cu_cmp_control c')"
    and "cu_opcode c' = cu_opcode c" and "cu_funct3 c' = cu_funct3 c"
  using assms by (auto simp: cu_tick_def Let_def res_simps split: if_splits)

text \<open>When the control unit throws.\<close>

lemma cu_tick_Err_iff:
  "(\<exists>e c'. cu_tick c = Err (e, c')) \<longleftrightarrow>
     cu_opcode c \<in> {0b0001111, 0b1110011} \<or>
     (\<forall>op. cu_select_alu_op (cu_opcode c) (cu_funct3 c) (cu_funct7 c)
             (getInstructionType (cu_opcode c)) \<noteq> Ok op) \<or>
     (\<forall>cmp. cu_select_cmp (cu_opcode c) (cu_funct3 c) \<noteq> Ok cmp)"
  using cu_select_not_UB
  by (cases "cu_select_alu_op (cu_opcode c) (cu_funct3 c) (cu_funct7 c) (getInstructionType (cu_opcode c))";
      cases "cu_select_cmp (cu_opcode c) (cu_funct3 c)")
    (auto simp: cu_tick_def Let_def)

end
