(* ===== verification/RV_Pipeline.thy ===== *)
theory RV_Pipeline
  imports RV_Decode
begin

text \<open>
  The five-stage pipeline of \<open>pipeline/pipeline.h\<close> and \<open>pipeline/pipeline.cpp\<close>: the
  state registers between the stages, the stages, the hazard unit, one clock tick and the
  run loop.  A stage that throws leaves the pipeline as it is at the throw.
\<close>

section \<open>State registers\<close>

record DecodeState =
  ds_v_de :: bool
  ds_pc_de :: u32
  ds_instr :: u32

definition DecodeState_of :: "u32 \<Rightarrow> DecodeState" where
  "DecodeState_of value = \<lparr>ds_v_de = (value \<noteq> 0), ds_pc_de = value, ds_instr = value\<rparr>"

record ExecuteState =
  es_funct3 :: byte
  es_is_jalr :: bool
  es_alu_op :: ALUControl
  es_alu_src2 :: bool
  es_mem_to_reg :: bool
  es_wb_we :: bool
  es_mem_we :: bool
  es_cmp_control :: CmpControl
  es_brn_cond :: bool
  es_jmp_cond :: bool
  es_v_de :: bool
  es_data1 :: u32
  es_data2 :: u32
  es_pc_de :: u32
  es_instr :: u32

definition ExecuteState_of :: "u32 \<Rightarrow> ExecuteState" where
  "ExecuteState_of value =
     \<lparr>es_funct3 = ucast value, es_is_jalr = (value \<noteq> 0),
      es_alu_op = ALUControl_of_word value, es_alu_src2 = (value \<noteq> 0),
      es_mem_to_reg = (value \<noteq> 0), es_wb_we = (value \<noteq> 0), es_mem_we = (value \<noteq> 0),
      es_cmp_control = CmpControl_of_word value, es_brn_cond = (value \<noteq> 0),
      es_jmp_cond = (value \<noteq> 0), es_v_de = (value \<noteq> 0), es_data1 = value,
      es_data2 = value, es_pc_de = value, es_instr = value\<rparr>"

record MemoryState =
  ms_mem_we :: bool
  ms_mem_to_reg :: bool
  ms_wb_we :: bool
  ms_jmp_cond :: bool
  ms_store_mode :: byte
  ms_write_data :: u32
  ms_alu_res :: u32
  ms_wb_a :: u32

definition MemoryState_of :: "u32 \<Rightarrow> MemoryState" where
  "MemoryState_of value =
     \<lparr>ms_mem_we = (value \<noteq> 0), ms_mem_to_reg = (value \<noteq> 0), ms_wb_we = (value \<noteq> 0),
      ms_jmp_cond = (value \<noteq> 0), ms_store_mode = ucast value, ms_write_data = value,
      ms_alu_res = value, ms_wb_a = value\<rparr>"

record WriteBackState =
  ws_wb_we :: bool
  ws_wb_d :: u32
  ws_wb_a :: byte

definition WriteBackState_of :: "u32 \<Rightarrow> WriteBackState" where
  "WriteBackState_of value =
     \<lparr>ws_wb_we = (value \<noteq> 0), ws_wb_d = value, ws_wb_a = ucast value\<rparr>"

section \<open>The pipeline\<close>

text \<open>The bypass options of \<open>pipeline/hazard_unit.h\<close>.\<close>

datatype BypassOptionsEncoding = BP_REG | BP_MEM | BP_WB

fun byte_of_bypass :: "BypassOptionsEncoding \<Rightarrow> byte" where
  "byte_of_bypass BP_REG = 0"
| "byte_of_bypass BP_MEM = 1"
| "byte_of_bypass BP_WB = 2"

fun show_bypass :: "BypassOptionsEncoding \<Rightarrow> string" where
  "show_bypass BP_REG = ''REG''"
| "show_bypass BP_MEM = ''MEM''"
| "show_bypass BP_WB = ''WB''"

record Pipeline =
  ticks_counter :: u64
  last_instructions_counter :: int
  last_instructions_flag :: bool
  bp_mem :: u32
  pc_disp :: u32
  pc_r :: bool
  hu_rs1 :: BypassOptionsEncoding
  hu_rs2 :: BypassOptionsEncoding
  instr_mem_unit :: InstrMemUnit
  data_mem_unit :: DataMemUnit
  reg_file :: RegFile
  control_unit :: ControlUnit
  program_counter :: "u32 Register"
  decode_register :: "DecodeState Register"
  execute_register :: "ExecuteState Register"
  memory_register :: "MemoryState Register"
  write_back_register :: "WriteBackState Register"

type_synonym pipeline_step = "Pipeline \<Rightarrow> (rv_exception \<times> Pipeline, Pipeline) res"

definition Pipeline_of_parts ::
  "CmpControl \<Rightarrow> InstructionType \<Rightarrow> InstrMemUnit \<Rightarrow> DataMemUnit \<Rightarrow> Pipeline" where
  "Pipeline_of_parts cmp0 type0 im dm =
     \<lparr>ticks_counter = 0, last_instructions_counter = 0, last_instructions_flag = False,
      bp_mem = 0, pc_disp = 0, pc_r = False, hu_rs1 = BP_REG, hu_rs2 = BP_REG,
      instr_mem_unit = im, data_mem_unit = dm, reg_file = RegFile_init,
      control_unit = ControlUnit_init cmp0 type0,
      program_counter = Register_init id,
      decode_register = Register_init DecodeState_of,
      execute_register = Register_init ExecuteState_of,
      memory_register = Register_init MemoryState_of,
      write_back_register = Register_init WriteBackState_of\<rparr>"

definition Pipeline_ctor ::
  "CmpControl \<Rightarrow> InstructionType \<Rightarrow> u32 list \<Rightarrow> u32 \<Rightarrow> (rv_exception, Pipeline) res" where
  "Pipeline_ctor cmp0 type0 instructions start_instr_address =
     rbind (InstrMemUnit_ctor instructions start_instr_address)
       (\<lambda>im. Ok (Pipeline_of_parts cmp0 type0 im DataMemUnit_default))"

definition Pipeline_ctor_data ::
  "CmpControl \<Rightarrow> InstructionType \<Rightarrow> u32 list \<Rightarrow> u32 \<Rightarrow> (u32 \<times> u32) list \<Rightarrow> (rv_exception, Pipeline) res"
where
  "Pipeline_ctor_data cmp0 type0 instructions start_instr_address data =
     rbind (InstrMemUnit_ctor instructions start_instr_address) (\<lambda>im.
     rbind (DataMemUnit_ctor data) (\<lambda>dm.
     Ok (Pipeline_of_parts cmp0 type0 im dm)))"

definition setProgramCounter :: "u32 \<Rightarrow> Pipeline \<Rightarrow> Pipeline" where
  "setProgramCounter pc p =
     p\<lparr>program_counter := Register_tick ((program_counter p)\<lparr>reg_next := pc\<rparr>)\<rparr>"

definition getRegister :: "Pipeline \<Rightarrow> u32 \<Rightarrow> (rv_exception, u32) res" where
  "getRegister p addr = getRegDirectly (reg_file p) addr"

definition getDataWord :: "Pipeline \<Rightarrow> u32 \<Rightarrow> (rv_exception \<times> Pipeline, u32 \<times> Pipeline) res" where
  "getDataWord p addr =
     (let current_addr = dm_address (data_mem_unit p);
          p = p\<lparr>data_mem_unit := (data_mem_unit p)\<lparr>dm_address := addr\<rparr>\<rparr> in
      rbind (eval_in p (dm_getData (data_mem_unit p))) (\<lambda>res.
      Ok (res, p\<lparr>data_mem_unit := (data_mem_unit p)\<lparr>dm_address := current_addr\<rparr>\<rparr>)))"

definition getTicksCounter :: "Pipeline \<Rightarrow> u64" where
  "getTicksCounter p = ticks_counter p"

text \<open>Abbreviations for the registers' ports.\<close>

abbreviation "pc_cur p \<equiv> reg_current (program_counter p)"
abbreviation "de_cur p \<equiv> reg_current (decode_register p)"
abbreviation "ex_cur p \<equiv> reg_current (execute_register p)"
abbreviation "me_cur p \<equiv> reg_current (memory_register p)"
abbreviation "wb_cur p \<equiv> reg_current (write_back_register p)"
abbreviation "ex_next p \<equiv> reg_next (execute_register p)"
abbreviation "me_next p \<equiv> reg_next (memory_register p)"
abbreviation "de_next p \<equiv> reg_next (decode_register p)"
abbreviation "wb_next p \<equiv> reg_next (write_back_register p)"

text \<open>Updates of the \<open>next\<close> port and of the \<open>enable_flag\<close>.\<close>

abbreviation set_next :: "'a \<Rightarrow> 'a Register \<Rightarrow> 'a Register" where
  "set_next v \<equiv> reg_next_update (\<lambda>_. v)"

abbreviation set_enable :: "bool \<Rightarrow> 'a Register \<Rightarrow> 'a Register" where
  "set_enable b \<equiv> enable_flag_update (\<lambda>_. b)"

subsection \<open>Fetch\<close>

text \<open>The check whether the program counter left the instruction section.\<close>

definition doFetch_section_check :: pipeline_step where
  "doFetch_section_check p =
     (if \<not> last_instructions_flag p \<and> isPcOutOfSection (instr_mem_unit p) (pc_cur p)
         \<and> \<not> (es_jmp_cond (ex_next p) \<or> es_brn_cond (ex_next p)) then
        (let p = p\<lparr>last_instructions_flag := True\<rparr> in
         if ms_jmp_cond (me_cur p) then
           Ok (p\<lparr>last_instructions_counter := 1,
                 program_counter := set_enable False (program_counter p),
                 decode_register := set_enable False (decode_register p),
                 execute_register := set_enable False (execute_register p),
                 memory_register := set_enable False (memory_register p)\<rparr>)
         else if \<not> pc_r p then
           Ok (p\<lparr>last_instructions_counter := 3,
                 program_counter := set_enable False (program_counter p),
                 decode_register :=
                   Register_clear DecodeState_of (set_enable False (decode_register p))\<rparr>)
         else Err (LogicError ''out_of_instr_section'', p))
      else Ok p)"

definition doFetch_next_pc :: pipeline_step where
  "doFetch_next_pc p =
     (let p = p\<lparr>instr_mem_unit := (instr_mem_unit p)\<lparr>im_address := pc_cur p\<rparr>\<rparr>;
          summand1 = Multiplexer2 (pc_r p) (pc_cur p) (es_pc_de (ex_cur p));
          summand2 = Multiplexer2 (pc_r p) 4 (pc_disp p);
          nxt = gate_Add summand1 summand2;
          p = p\<lparr>program_counter := set_next nxt (program_counter p)\<rparr> in
      if unat nxt mod 4 \<noteq> 0 then
        Err (AlignmentException (''pc is not aligned: pc_next == '' @ to_string (unat nxt)), p)
      else Ok p)"

definition doFetch_instr :: pipeline_step where
  "doFetch_instr p =
     rbind (eval_in p (im_getData (instr_mem_unit p))) (\<lambda>w.
     Ok (p\<lparr>decode_register :=
            set_next ((de_next p)\<lparr>ds_instr := w, ds_pc_de := pc_cur p\<rparr>) (decode_register p)\<rparr>))"

definition doFetch_countdown :: pipeline_step where
  "doFetch_countdown p =
     (if last_instructions_flag p then
        (if last_instructions_counter p \<noteq> 0 then
           Ok (p\<lparr>last_instructions_counter := last_instructions_counter p - 1\<rparr>)
         else Err (LogicError ''out_of_instr_section'', p))
      else Ok p)"

definition doFetch :: pipeline_step where
  "doFetch p =
     rbind (doFetch_section_check p) (\<lambda>p.
     rbind (doFetch_next_pc p) (\<lambda>p.
     rbind (doFetch_instr p) doFetch_countdown))"

subsection \<open>Decode\<close>

definition decode_set_regs :: "Pipeline \<Rightarrow> RegFile" where
  "decode_set_regs p =
     setNewSignals (getRs1 (ds_instr (de_cur p))) (getRs2 (ds_instr (de_cur p)))
       (ws_wb_a (wb_cur p)) (ws_wb_we (wb_cur p)) (ws_wb_d (wb_cur p)) (reg_file p)"

definition decode_set_control :: "u32 \<Rightarrow> ControlUnit \<Rightarrow> ControlUnit" where
  "decode_set_control instr c =
     c\<lparr>cu_opcode := getOpcode instr, cu_funct3 := getFunct3 instr, cu_funct7 := getFunct7 instr\<rparr>"

text \<open>What decode writes to \<open>execute_register.next\<close>.\<close>

definition decode_result ::
  "DecodeState \<Rightarrow> bool \<Rightarrow> ControlUnit \<Rightarrow> RegFile \<Rightarrow> ExecuteState \<Rightarrow> ExecuteState" where
  "decode_result d redirect c r e =
     (let data1 = Multiplexer2 (cu_opcode c = 0b0010111) (rf_read_data1 r) (ds_pc_de d);
          data1 = Multiplexer2 (cu_opcode c = 0b0110111) data1 0 in
      e\<lparr>es_alu_op := cu_alu_op c,
        es_alu_src2 := cu_alu_src2 c,
        es_is_jalr := cu_is_jalr c,
        es_wb_we := cu_wb_we c,
        es_mem_we := cu_mem_we c,
        es_mem_to_reg := cu_mem_to_reg c,
        es_brn_cond := cu_brn_cond c,
        es_jmp_cond := cu_jmp_cond c,
        es_cmp_control := cu_cmp_control c,
        es_funct3 := cu_funct3 c,
        es_data1 := data1,
        es_data2 := rf_read_data2 r,
        es_pc_de := ds_pc_de d,
        es_instr := ds_instr d,
        es_v_de := gate_Or redirect (ds_v_de d)\<rparr>)"

definition doDecode :: pipeline_step where
  "doDecode p =
     (let decode_stage_instr = de_cur p in
      rbind (lift_part (\<lambda>r. p\<lparr>reg_file := r\<rparr>) (rf_tick (decode_set_regs p))) (\<lambda>p.
      rbind (lift_part (\<lambda>c. p\<lparr>control_unit := c\<rparr>)
              (cu_tick (decode_set_control (ds_instr decode_stage_instr) (control_unit p)))) (\<lambda>p.
      Ok (p\<lparr>execute_register :=
             set_next (decode_result decode_stage_instr (pc_r p) (control_unit p) (reg_file p) (ex_next p))
               (execute_register p)\<rparr>))))"

subsection \<open>Execute\<close>

definition execute_src_a :: "Pipeline \<Rightarrow> (rv_exception, u32) res" where
  "execute_src_a p =
     Multiplexer3 (byte_of_bypass (hu_rs1 p)) (es_data1 (ex_cur p)) (bp_mem p) (ws_wb_d (wb_cur p))"

definition execute_rs2v :: "Pipeline \<Rightarrow> (rv_exception, u32) res" where
  "execute_rs2v p =
     Multiplexer3 (byte_of_bypass (hu_rs2 p)) (es_data2 (ex_cur p)) (bp_mem p) (ws_wb_d (wb_cur p))"

text \<open>The fields of \<open>memory_register.next\<close> written before the ALU runs.\<close>

definition execute_to_memory :: "ExecuteState \<Rightarrow> u32 \<Rightarrow> MemoryState \<Rightarrow> MemoryState" where
  "execute_to_memory e rs2v m =
     m\<lparr>ms_store_mode := es_funct3 e,
       ms_mem_we := (es_mem_we e \<and> \<not> es_v_de e),
       ms_mem_to_reg := es_mem_to_reg e,
       ms_wb_we := (es_wb_we e \<and> \<not> es_v_de e),
       ms_jmp_cond := es_jmp_cond e,
       ms_write_data := rs2v\<rparr>"

definition doExecute :: pipeline_step where
  "doExecute p =
     (let e = ex_cur p in
      rbind (eval_in p (execute_src_a p)) (\<lambda>src_a.
      rbind (eval_in p (execute_rs2v p)) (\<lambda>rs2v.
      let p = p\<lparr>pc_disp := ImmediateExtensionBlock (es_instr e)\<rparr>;
          src_b = Multiplexer2 (es_alu_src2 e) rs2v (pc_disp p) in
      rbind (eval_in p (Cmp (es_cmp_control e) src_a rs2v)) (\<lambda>cmp_res.
      let p = p\<lparr>pc_r := gate_Or (es_jmp_cond e) (gate_And cmp_res (es_brn_cond e)),
                memory_register := set_next (execute_to_memory e rs2v (me_next p)) (memory_register p)\<rparr> in
      rbind (eval_in p (ALU (es_alu_op e) src_a src_b)) (\<lambda>alu_res.
      Ok (p\<lparr>pc_disp := (if es_is_jalr e then alu_res AND 0xfffffffe else pc_disp p),
            memory_register :=
              set_next ((me_next p)\<lparr>ms_alu_res := (if es_jmp_cond e then gate_Add (es_pc_de e) 4 else alu_res),
                                   ms_wb_a := ucast (getRd (es_instr e))\<rparr>) (memory_register p),
            decode_register := set_next ((de_next p)\<lparr>ds_v_de := pc_r p\<rparr>) (decode_register p)\<rparr>))))))"

subsection \<open>Memory and write-back\<close>

definition memory_access :: pipeline_step where
  "memory_access p =
     (let m = me_cur p in
      if \<not> ms_mem_to_reg m \<or> ms_mem_we m then
        lift_part (\<lambda>d. p\<lparr>data_mem_unit := d\<rparr>)
          (dm_tick ((data_mem_unit p)\<lparr>dm_store_mode := ms_store_mode m, dm_write_enable := ms_mem_we m,
                     dm_address := ms_alu_res m, dm_write_data := ms_write_data m\<rparr>))
      else Ok p)"

definition doMemory :: pipeline_step where
  "doMemory p =
     (let m = me_cur p in
      rbind (memory_access p) (\<lambda>p.
      let p = p\<lparr>write_back_register :=
                 set_next ((wb_next p)\<lparr>ws_wb_we := ms_wb_we m\<rparr>) (write_back_register p)\<rparr> in
      rbind (eval_in p (dm_getData (data_mem_unit p))) (\<lambda>d.
      Ok (p\<lparr>write_back_register :=
             set_next ((wb_next p)\<lparr>ws_wb_d := Multiplexer2 (ms_mem_to_reg m) d (ms_alu_res m),
                                  ws_wb_a := ucast (ms_wb_a m)\<rparr>) (write_back_register p),
            bp_mem := ms_alu_res m\<rparr>))))"

definition doWriteBack :: pipeline_step where
  "doWriteBack p = Ok p"

subsection \<open>Hazards\<close>

definition haltPipeline :: "Pipeline \<Rightarrow> Pipeline" where
  "haltPipeline p =
     p\<lparr>program_counter := set_enable False (program_counter p),
       decode_register := set_enable False (decode_register p),
       execute_register := set_enable False (execute_register p)\<rparr>"

definition restartPipeline :: "Pipeline \<Rightarrow> Pipeline" where
  "restartPipeline p =
     p\<lparr>program_counter := set_enable True (program_counter p),
       decode_register := set_enable True (decode_register p),
       execute_register := set_enable True (execute_register p)\<rparr>"

text \<open>The bypass selected for a source register, and whether it must wait for a load.\<close>

definition select_bypass ::
  "MemoryState \<Rightarrow> WriteBackState \<Rightarrow> bool \<Rightarrow> byte \<Rightarrow> BypassOptionsEncoding \<times> bool" where
  "select_bypass m w reads rs =
     (if reads \<and> rs \<noteq> 0 then
        (if ucast rs = ms_wb_a m then (BP_MEM, \<not> ms_mem_to_reg m)
         else if rs = ws_wb_a w then (BP_WB, False)
         else (BP_REG, False))
      else (BP_REG, False))"

definition hazardUnitTick :: "Pipeline \<Rightarrow> Pipeline" where
  "hazardUnitTick p =
     (if pc_r p then
        p\<lparr>decode_register := Register_clear DecodeState_of (decode_register p),
          execute_register := Register_clear ExecuteState_of (execute_register p)\<rparr>
      else
        let type = cu_instr_type (control_unit p);
            (bypass1, halt1) =
              select_bypass (me_cur p) (wb_cur p) (hasRs1 type) (getRs1 (es_instr (ex_cur p)));
            (bypass2, halt2) =
              select_bypass (me_cur p) (wb_cur p) (hasRs2 type) (getRs2 (es_instr (ex_cur p)));
            p = p\<lparr>hu_rs1 := bypass1\<rparr>;
            p = (if halt1 then haltPipeline p else p);
            p = p\<lparr>hu_rs2 := bypass2\<rparr>;
            p = (if halt2 then haltPipeline p else p) in
        if \<not> (halt1 \<or> halt2) then restartPipeline p else p)"

subsection \<open>Clock\<close>

definition tickStateRegisters :: "Pipeline \<Rightarrow> Pipeline" where
  "tickStateRegisters p =
     p\<lparr>decode_register := Register_tick (decode_register p),
       execute_register := Register_tick (execute_register p),
       memory_register := Register_tick (memory_register p),
       write_back_register := Register_tick (write_back_register p)\<rparr>"

definition tick_registers :: "Pipeline \<Rightarrow> Pipeline" where
  "tick_registers p =
     (let p = (if \<not> enable_flag (program_counter p)
               then p\<lparr>memory_register := Register_clear MemoryState_of (memory_register p)\<rparr> else p);
          p = tickStateRegisters p;
          p = p\<lparr>program_counter := Register_tick (program_counter p)\<rparr>;
          p = hazardUnitTick p in
      p\<lparr>ticks_counter := ticks_counter p + 1\<rparr>)"

definition pipeline_tick :: pipeline_step where
  "pipeline_tick p =
     rbind (doWriteBack p) (\<lambda>p.
     rbind (doMemory p) (\<lambda>p.
     rbind (doExecute p) (\<lambda>p.
     rbind (doDecode p) (\<lambda>p.
     rbind (doFetch p) (\<lambda>p.
     Ok (tick_registers p))))))"

definition pipeline_ticks :: "nat \<Rightarrow> pipeline_step" where
  "pipeline_ticks n = iterate pipeline_tick n"

text \<open>
  \<open>run\<close> ticks until a tick throws; a \<open>std::logic_error\<close> is caught and its message
  printed, any other exception leaves \<open>run\<close>.  \<open>fuel\<close> bounds the number of ticks:
  \<open>None\<close> is a run of more ticks than that, so a program that runs forever is \<open>None\<close>
  for every fuel.
\<close>

datatype run_result =
    Run_caught string Pipeline
  | Run_escaped rv_exception Pipeline
  | Run_undefined

fun what :: "rv_exception \<Rightarrow> string" where
  "what (LogicError m) = m"
| "what (InvalidArgument m) = m"
| "what (OutOfRange m) = m"
| "what (InvalidAddressException m) = m"
| "what (AlignmentException m) = m"
| "what (UnsupportedException m) = m"
| "what EbreakException = ''std::exception''"

fun pipeline_run :: "nat \<Rightarrow> Pipeline \<Rightarrow> run_result option" where
  "pipeline_run 0 p = None"
| "pipeline_run (Suc fuel) p =
     (case pipeline_tick p of
        Ok p' \<Rightarrow> pipeline_run fuel p'
      | Err (e, p') \<Rightarrow> Some (if is_logic_error e then Run_caught (what e) p' else Run_escaped e p')
      | UB \<Rightarrow> Some Run_undefined)"

end
