(* ===== verification/RV_Safety.thy ===== *)
theory RV_Safety
  imports RV_Pipeline
begin

text \<open>
  Safety of the pipeline: a well-formedness invariant that every stage, every tick and
  every run keeps, whether it returns or throws; the exceptions a tick can throw and the
  executions that are undefined.
\<close>

section \<open>Well-formed pipelines\<close>

text \<open>
  The register file has its 32 registers and register 0 holds 0, the register numbers on
  their way to it are below 32, the control signals are enumerators of their types, and
  the countdown after the end of the section is at most 3 and the last register is enabled.
\<close>

definition es_enum :: "ExecuteState \<Rightarrow> bool" where
  "es_enum e \<longleftrightarrow> (\<forall>c. es_alu_op e \<noteq> ALU_other c) \<and> (\<forall>c. es_cmp_control e \<noteq> CMP_other c)"

definition pipeline_wf :: "Pipeline \<Rightarrow> bool" where
  "pipeline_wf p \<longleftrightarrow>
     rf_ok (reg_file p) \<and> es_enum (ex_cur p) \<and> es_enum (ex_next p)
     \<and> unat (ms_wb_a (me_cur p)) < 32 \<and> unat (ms_wb_a (me_next p)) < 32
     \<and> unat (ws_wb_a (wb_cur p)) < 32 \<and> unat (ws_wb_a (reg_next (write_back_register p))) < 32
     \<and> last_instructions_counter p \<in> {0..3} \<and> enable_flag (write_back_register p)"

lemma es_enum_0 [simp]: "es_enum (ExecuteState_of 0)"
  by (simp add: es_enum_def ExecuteState_of_def ALUControl_of_word_def CmpControl_of_word_def)

lemma states_of_0 [simp]:
  "ms_wb_a (MemoryState_of 0) = 0" "ws_wb_a (WriteBackState_of 0) = 0"
  by (simp_all add: MemoryState_of_def WriteBackState_of_def)

lemma unat_ucast_small_byte: "unat (w :: u32) < 32 \<Longrightarrow> unat (ucast w :: byte) < 32"
  by (simp add: unsigned_ucast_eq take_bit_eq_mod)

lemma unat_rd_word: "unat (ucast (getRd i) :: u32) < 32"
  by (simp add: unat_ucast_up)

lemma Pipeline_wf_init: "pipeline_wf (Pipeline_of_parts cmp0 type0 im dm)"
  by (simp add: pipeline_wf_def Pipeline_of_parts_def Register_init_def)

lemma wf_doMemory: "pipeline_wf p \<Longrightarrow> keeps pipeline_wf (doMemory p)"
  by (rule keepsI)
    (auto simp: doMemory_def memory_access_def pipeline_wf_def Let_def res_simps
      unat_ucast_small_byte split: if_splits)

lemma wf_doExecute: "pipeline_wf p \<Longrightarrow> keeps pipeline_wf (doExecute p)"
  by (rule keepsI)
    (auto simp: doExecute_def pipeline_wf_def Let_def res_simps unat_rd_word execute_to_memory_def)

lemma es_enum_decode: "cu_tick c0 = Ok c \<Longrightarrow> es_enum (decode_result d b c r e)"
  using cu_tick_signals(9,10) [of c0 c] cu_select_alu_op_enum cu_select_cmp_enum
  by (auto simp: es_enum_def decode_result_def Let_def)

lemma wf_doDecode:
  assumes "pipeline_wf p"
  shows "keeps pipeline_wf (doDecode p)"
proof -
  have rf: "rf_ok (decode_set_regs p)"
    using assms by (simp add: pipeline_wf_def decode_set_regs_def setNewSignals_def rf_ok_def)
  show ?thesis
    using assms keepsD [OF rf_ok_tick [OF rf]] es_enum_decode
    by (intro keepsI) (auto simp: doDecode_def pipeline_wf_def Let_def res_simps)
qed

lemma wf_doFetch_parts:
  assumes "pipeline_wf p"
  shows "keeps pipeline_wf (doFetch_section_check p)" "keeps pipeline_wf (doFetch_next_pc p)"
    "keeps pipeline_wf (doFetch_instr p)" "keeps pipeline_wf (doFetch_countdown p)"
  using assms
  by (auto simp: doFetch_section_check_def doFetch_next_pc_def doFetch_instr_def
      doFetch_countdown_def pipeline_wf_def Let_def Register_clear_def intro: keeps_rbind_eval)

lemma wf_doFetch: "pipeline_wf p \<Longrightarrow> keeps pipeline_wf (doFetch p)"
  unfolding doFetch_def by (intro keeps_rbind wf_doFetch_parts)

lemma wf_clear_memory:
  "pipeline_wf p \<Longrightarrow> pipeline_wf (p\<lparr>memory_register := Register_clear MemoryState_of (memory_register p)\<rparr>)"
  by (simp add: pipeline_wf_def Register_clear_def)

lemma wf_tickStateRegisters: "pipeline_wf p \<Longrightarrow> pipeline_wf (tickStateRegisters p)"
  by (simp add: pipeline_wf_def tickStateRegisters_def Register_tick_def)

lemma wf_unaffected:
  "pipeline_wf (p\<lparr>hu_rs1 := b\<rparr>) = pipeline_wf p" "pipeline_wf (p\<lparr>hu_rs2 := b\<rparr>) = pipeline_wf p"
  "pipeline_wf (p\<lparr>program_counter := pc\<rparr>) = pipeline_wf p"
  "pipeline_wf (p\<lparr>ticks_counter := t\<rparr>) = pipeline_wf p"
  "pipeline_wf (haltPipeline p) = pipeline_wf p" "pipeline_wf (restartPipeline p) = pipeline_wf p"
  by (simp_all add: pipeline_wf_def haltPipeline_def restartPipeline_def)

lemma wf_hazardUnitTick: "pipeline_wf p \<Longrightarrow> pipeline_wf (hazardUnitTick p)"
proof (cases "pc_r p")
  case True
  then show "pipeline_wf p \<Longrightarrow> ?thesis"
    by (simp add: hazardUnitTick_def pipeline_wf_def Register_clear_def)
next
  case False
  then show "pipeline_wf p \<Longrightarrow> ?thesis"
    by (simp add: hazardUnitTick_def Let_def wf_unaffected split: prod.split)
qed

lemma wf_tick_registers: "pipeline_wf p \<Longrightarrow> pipeline_wf (tick_registers p)"
  by (simp add: tick_registers_def Let_def wf_unaffected wf_hazardUnitTick wf_tickStateRegisters
      wf_clear_memory)

lemma wf_pipeline_tick: "pipeline_wf p \<Longrightarrow> keeps pipeline_wf (pipeline_tick p)"
  unfolding pipeline_tick_def doWriteBack_def
  by (intro keeps_rbind wf_doMemory wf_doExecute wf_doDecode wf_doFetch)
    (simp_all add: wf_tick_registers)

interpretation pl: kept_invariant pipeline_tick pipeline_wf
  by unfold_locales (rule wf_pipeline_tick)


end
