(* ===== verification/RV_StraightLine.thy ===== *)
theory RV_StraightLine
  imports RV_Safety
begin

text \<open>
  The pipeline executes straight-line computational code (register-register,
  register-immediate, LUI and AUIPC instructions) like the sequential RV32I semantics:
  after \<open>m\<close> ticks the register file holds what the first \<open>m - 4\<close> instructions compute
  in program order, although five instructions are in flight and operands come from the
  bypasses.
\<close>

section \<open>The reference semantics\<close>

definition rv_op :: "byte \<Rightarrow> bool \<Rightarrow> u32 \<Rightarrow> u32 \<Rightarrow> u32" where
  "rv_op funct3 alt a b =
     (if funct3 = 0 then (if alt then a - b else a + b)
      else if funct3 = 1 then push_bit (unat b mod 32) a
      else if funct3 = 2 then of_bool (sint a < sint b)
      else if funct3 = 3 then of_bool (uint a < uint b)
      else if funct3 = 4 then a XOR b
      else if funct3 = 5 then
        (if alt then signed_drop_bit (unat b mod 32) a else drop_bit (unat b mod 32) a)
      else if funct3 = 6 then a OR b
      else a AND b)"

definition isa_computational :: "u32 \<Rightarrow> bool" where
  "isa_computational w \<longleftrightarrow>
     (let opc = getOpcode w; f3 = getFunct3 w; f7 = getFunct7 w in
      (opc = 0b0110011 \<and> (f7 = 0 \<or> f7 = 0b0100000 \<and> f3 \<in> {0, 5}))
      \<or> (opc = 0b0010011 \<and> (f3 = 1 \<longrightarrow> f7 = 0) \<and> (f3 = 5 \<longrightarrow> f7 \<in> {0, 0b0100000}))
      \<or> opc = 0b0110111 \<or> opc = 0b0010111)"

definition isa_result :: "u32 \<Rightarrow> u32 \<Rightarrow> u32 list \<Rightarrow> u32" where
  "isa_result pc w regs =
     (let opc = getOpcode w; f3 = getFunct3 w; f7 = getFunct7 w;
          a = regs ! unat (getRs1 w); b = regs ! unat (getRs2 w);
          imm = ImmediateExtensionBlock w in
      if opc = 0b0110011 then rv_op f3 (f7 = 0b0100000) a b
      else if opc = 0b0010011 then rv_op f3 (f3 = 5 \<and> f7 = 0b0100000) a imm
      else if opc = 0b0110111 then imm
      else pc + imm)"

definition write_reg :: "u32 list \<Rightarrow> byte \<Rightarrow> u32 \<Rightarrow> u32 list" where
  "write_reg regs rd v = (if rd = 0 then regs else regs[unat rd := v])"

definition isa_step :: "u32 \<Rightarrow> u32 \<Rightarrow> u32 list \<Rightarrow> u32 list" where
  "isa_step pc w regs = write_reg regs (getRd w) (isa_result pc w regs)"

fun isa_regs :: "u32 \<Rightarrow> u32 list \<Rightarrow> nat \<Rightarrow> u32 list" where
  "isa_regs start ws 0 = replicate 32 0"
| "isa_regs start ws (Suc k) = isa_step (start + of_nat (4 * k)) (ws ! k) (isa_regs start ws k)"

lemma length_write_reg [simp]: "length (write_reg regs rd v) = length regs"
  by (simp add: write_reg_def)

lemma isa_regs_ok: "length (isa_regs start ws k) = 32 \<and> isa_regs start ws k ! 0 = 0"
  by (induction k) (auto simp: isa_step_def write_reg_def nth_list_update unat_byte_eq_0)

section \<open>Stages\<close>

definition dm_idle :: "DataMemUnit \<Rightarrow> bool" where
  "dm_idle d \<longleftrightarrow> dm_store_mode d = 0 \<and> dm_address d = 0"

lemma dm_idle_getData: "dm_idle d \<Longrightarrow> \<exists>v. dm_getData d = Ok v"
  by (simp add: dm_idle_def dm_getData_in_bounds [of _ 1] mode_width_def)

lemma dm_idle_tick:
  assumes "dm_idle d" and "\<not> dm_write_enable d"
  shows "\<exists>d'. dm_tick d = Ok d' \<and> dm_idle d'"
proof -
  obtain v where "dm_getData d = Ok v"
    using dm_idle_getData [OF assms(1)] by auto
  then show ?thesis
    using assms by (simp add: dm_tick_def) (simp add: dm_idle_def)
qed

lemma doMemory_quiet:
  assumes "\<not> ms_mem_we (me_cur p)" and "dm_idle (data_mem_unit p)"
    and "ms_mem_to_reg (me_cur p) \<or> ms_alu_res (me_cur p) = 0 \<and> ms_store_mode (me_cur p) = 0"
  obtains d w where "doMemory p = Ok (p\<lparr>data_mem_unit := d,
      write_back_register := set_next w (write_back_register p),
      bp_mem := ms_alu_res (me_cur p)\<rparr>)"
    and "dm_idle d" and "ws_wb_we w = ms_wb_we (me_cur p)" and "ws_wb_a w = ucast (ms_wb_a (me_cur p))"
    and "ms_mem_to_reg (me_cur p) \<Longrightarrow> ws_wb_d w = ms_alu_res (me_cur p)"
proof -
  obtain d where mem: "memory_access p = Ok (p\<lparr>data_mem_unit := d\<rparr>)" and d: "dm_idle d"
  proof (cases "ms_mem_to_reg (me_cur p)")
    case True
    with assms that [of "data_mem_unit p"] show ?thesis by (simp add: memory_access_def)
  next
    case False
    let ?d = "(data_mem_unit p)\<lparr>dm_store_mode := ms_store_mode (me_cur p),
      dm_write_enable := ms_mem_we (me_cur p), dm_address := ms_alu_res (me_cur p),
      dm_write_data := ms_write_data (me_cur p)\<rparr>"
    have "dm_idle ?d" using assms False by (simp add: dm_idle_def)
    then obtain d' where "dm_tick ?d = Ok d'" "dm_idle d'"
      using dm_idle_tick [of ?d] assms(1) by auto
    with False assms that [of d'] show ?thesis by (simp add: memory_access_def)
  qed
  obtain v where v: "dm_getData d = Ok v"
    using dm_idle_getData [OF d] by auto
  show thesis
    by (rule that [where d = d and w = "(reg_next (write_back_register p))\<lparr>ws_wb_we := ms_wb_we (me_cur p),
          ws_wb_d := Multiplexer2 (ms_mem_to_reg (me_cur p)) v (ms_alu_res (me_cur p)),
          ws_wb_a := ucast (ms_wb_a (me_cur p))\<rparr>"])
      (simp_all add: doMemory_def mem v d Let_def Multiplexer2_def)
qed

lemma doExecute_plain:
  assumes "execute_src_a p = Ok a" and "execute_rs2v p = Ok b"
    and e: "e = ex_cur p" "\<not> es_jmp_cond e" "\<not> es_brn_cond e" "\<not> es_is_jalr e" "es_cmp_control e = CMP_NOP"
    and "ALU (es_alu_op e) a (if es_alu_src2 e then ImmediateExtensionBlock (es_instr e) else b) = Ok r"
  obtains m where "doExecute p = Ok (p\<lparr>pc_disp := ImmediateExtensionBlock (es_instr e), pc_r := False,
      memory_register := set_next m (memory_register p),
      decode_register := set_next ((de_next p)\<lparr>ds_v_de := False\<rparr>) (decode_register p)\<rparr>)"
    and "ms_mem_we m = (es_mem_we e \<and> \<not> es_v_de e)" and "ms_mem_to_reg m = es_mem_to_reg e"
    and "ms_wb_we m = (es_wb_we e \<and> \<not> es_v_de e)" and "\<not> ms_jmp_cond m"
    and "ms_store_mode m = es_funct3 e" and "ms_alu_res m = r" and "ms_wb_a m = ucast (getRd (es_instr e))"
proof -
  let ?m = "(execute_to_memory e b (me_next p))\<lparr>ms_alu_res := r, ms_wb_a := ucast (getRd (es_instr e))\<rparr>"
  show thesis
    by (rule that [where m = ?m]; cases "es_alu_src2 e")
      (use assms in \<open>simp_all add: doExecute_def Let_def Multiplexer2_def gate_Or_def gate_And_def execute_to_memory_def\<close>)
qed

lemma doFetch_plain:
  assumes "\<not> last_instructions_flag p" and "\<not> isPcOutOfSection (instr_mem_unit p) (pc_cur p)"
    and "\<not> pc_r p" and "unat (pc_cur p + 4) mod 4 = 0"
    and "im_getData ((instr_mem_unit p)\<lparr>im_address := pc_cur p\<rparr>) = Ok w"
  shows "doFetch p = Ok (p\<lparr>instr_mem_unit := (instr_mem_unit p)\<lparr>im_address := pc_cur p\<rparr>,
      program_counter := set_next (pc_cur p + 4) (program_counter p),
      decode_register := set_next ((de_next p)\<lparr>ds_instr := w, ds_pc_de := pc_cur p\<rparr>) (decode_register p)\<rparr>)"
  using assms
  by (simp add: doFetch_def Let_def doFetch_section_check_def doFetch_next_pc_def doFetch_instr_def
      doFetch_countdown_def Multiplexer2_def gate_Add_def)

definition wb_regs :: "Pipeline \<Rightarrow> u32 list" where
  "wb_regs p = (if ws_wb_we (wb_cur p) then write_reg (rf_regs (reg_file p)) (ws_wb_a (wb_cur p)) (ws_wb_d (wb_cur p))
     else rf_regs (reg_file p))"

lemma doDecode_plain:
  assumes "cu_tick (decode_set_control (ds_instr (de_cur p)) (control_unit p)) = Ok c"
  assumes "rf_ok (reg_file p)" and "unat (ws_wb_a (wb_cur p)) < 32"
  obtains r where "doDecode p = Ok (p\<lparr>reg_file := r, control_unit := c, execute_register :=
      set_next (decode_result (de_cur p) (pc_r p) c r (ex_next p)) (execute_register p)\<rparr>)"
    and "rf_regs r = wb_regs p"
    and "rf_read_data1 r = wb_regs p ! unat (getRs1 (ds_instr (de_cur p)))"
    and "rf_read_data2 r = wb_regs p ! unat (getRs2 (ds_instr (de_cur p)))"
proof -
  have rf: "rf_ok (decode_set_regs p)"
    using assms by (simp add: decode_set_regs_def setNewSignals_def rf_ok_def)
  have w: "written_regs (decode_set_regs p) = wb_regs p"
    by (auto simp: written_regs_def decode_set_regs_def setNewSignals_def wb_regs_def write_reg_def)
  let ?r = "(decode_set_regs p)\<lparr>rf_regs := wb_regs p, 
    rf_read_data1 := wb_regs p ! unat (getRs1 (ds_instr (de_cur p))),
    rf_read_data2 := wb_regs p ! unat (getRs2 (ds_instr (de_cur p)))\<rparr>"
  have "rf_tick (decode_set_regs p) = Ok ?r"
    using rf_tick_eq [OF rf] assms(2-) 
    by (simp add: w) (simp add: decode_set_regs_def setNewSignals_def)
  then show thesis
    using assms(1) by (intro that [of ?r]) (simp_all add: doDecode_def Let_def)
qed

section \<open>Decoding a computational instruction\<close>

definition ex_quiet :: "ExecuteState \<Rightarrow> bool" where
  "ex_quiet e \<longleftrightarrow>
     \<not> es_jmp_cond e \<and> \<not> es_brn_cond e \<and> \<not> es_is_jalr e \<and> es_cmp_control e = CMP_NOP
     \<and> \<not> es_mem_we e \<and> \<not> es_v_de e
     \<and> (es_mem_to_reg e \<or> es_alu_op e = ALU_NOP \<and> es_funct3 e = 0)
     \<and> (getRd (es_instr e) \<noteq> 0 \<longrightarrow> es_wb_we e \<and> es_mem_to_reg e)"

definition ex_bubble :: "ExecuteState \<Rightarrow> bool" where
  "ex_bubble e \<longleftrightarrow> es_instr e = 0 \<and> es_alu_op e = ALU_NOP"

definition ex_decoded :: "u32 \<Rightarrow> u32 \<Rightarrow> u32 list \<Rightarrow> ExecuteState \<Rightarrow> bool" where
  "ex_decoded pc w regs e \<longleftrightarrow>
     es_instr e = w
     \<and> cu_select_alu_op (getOpcode w) (getFunct3 w) (getFunct7 w)
         (getInstructionType (getOpcode w)) = Ok (es_alu_op e)
     \<and> (es_alu_src2 e \<longleftrightarrow> getInstructionType (getOpcode w) \<in> {IType, SType, UType})
     \<and> es_data1 e = (if getOpcode w = 0b0010111 then pc
                     else if getOpcode w = 0b0110111 then 0 else regs ! unat (getRs1 w))
     \<and> es_data2 e = regs ! unat (getRs2 w)"

lemma fields_of_0 [simp]: "getOpcode 0 = 0" "getRd 0 = 0" "getRs1 0 = 0" "getRs2 0 = 0" "getFunct3 0 = 0" "getFunct7 0 = 0"
  by (simp_all add: getOpcode_def getRd_def getRs1_def getRs2_def getFunct3_def getFunct7_def)

lemma getFunct3_cases: "getFunct3 w \<in> {0, 1, 2, 3, 4, 5, 6, 7}"
proof -
  have "unat (getFunct3 w) < 8"
    using take_bit_nat_less_exp [of 3 "unat (drop_bit 12 w)"]
    unfolding getFunct3_def and_mask_fields
    by (simp add: unsigned_ucast_eq unsigned_take_bit_eq take_bit_take_bit)
  then have "unat (getFunct3 w) \<in> {0, 1, 2, 3, 4, 5, 6, 7}"
    by auto
  then show ?thesis
    by (elim insertE emptyE) (drule arg_cong [where f = "of_nat :: nat \<Rightarrow> byte"], simp)+
qed

lemma isa_computational_cases:
  assumes "isa_computational w"
  obtains (Op) "getOpcode w = 0b0110011" "getFunct7 w = 0 \<or> getFunct7 w = 0b0100000 \<and> getFunct3 w \<in> {0, 5}"
  | (OpImm) "getOpcode w = 0b0010011" "getFunct3 w = 1 \<Longrightarrow> getFunct7 w = 0" "getFunct3 w = 5 \<Longrightarrow> getFunct7 w \<in> {0, 0b0100000}"
  | (Lui) "getOpcode w = 0b0110111"
  | (Auipc) "getOpcode w = 0b0010111"
  using assms unfolding isa_computational_def Let_def by blast

lemma select_alu_computational:
  assumes "isa_computational w"
  obtains op where "cu_select_alu_op (getOpcode w) (getFunct3 w) (getFunct7 w)
      (getInstructionType (getOpcode w)) = Ok op" 
    and "\<And>a b. ALU op a b = 
     Ok (if getOpcode w \<in> {0b0110111, 0b0010111} then a + b else
         rv_op (getFunct3 w) (getFunct7 w = 0b0100000 \<and> (getOpcode w = 0b0010011 \<longrightarrow> getFunct3 w = 5)) a b)"
proof -
  have sh: "push_bit (unat (x AND 31)) y = push_bit (unat x mod 32) y" 
    "drop_bit (unat (x AND 31)) y = drop_bit (unat x mod 32) y"
    "signed_drop_bit (unat (x AND 31)) y = signed_drop_bit (unat x mod 32) y" for x y :: u32
    using shift_amount [of x] by simp_all
  note defs = cu_select_alu_op_def rv_op_def getInstructionType_def sh word_sless_alt word_less_def
  from assms show thesis
  proof (cases rule: isa_computational_cases)
    case Op
    have f7: "getFunct7 w = 0 \<or> getFunct7 w = 0b0100000" using Op by blast
    from getFunct3_cases [of w] f7 Op show thesis
      by (elim insertE emptyE disjE) (rule that, simp add: defs, simp add: defs)+
  next
    case OpImm
    consider "getFunct3 w = 1" "getFunct7 w = 0" | "getFunct3 w = 5" "getFunct7 w = 0"
      | "getFunct3 w = 5" "getFunct7 w = 0b0100000" | "getFunct3 w \<in> {0, 2, 3, 4, 6, 7}"
      using getFunct3_cases [of w] OpImm(2,3) by blast
    then show thesis
    proof cases
      case 4
      then show thesis using OpImm(1)
        by (elim insertE emptyE) (rule that, simp add: defs, simp add: defs)+
    qed (rule that, use OpImm(1) in \<open>simp add: defs\<close>, use OpImm(1) in \<open>simp add: defs\<close>)+
  next
    case Lui
    then show thesis by - (rule that, simp add: defs, simp add: defs)
  next
    case Auipc
    then show thesis by - (rule that, simp add: defs, simp add: defs)
  qed
qed

lemma cu_tick_computational:
  assumes "isa_computational w"
  obtains c where "cu_tick (decode_set_control w cu) = Ok c"
proof -
  obtain op where op: "cu_select_alu_op (getOpcode w) (getFunct3 w) (getFunct7 w)
      (getInstructionType (getOpcode w)) = Ok op"
    by (rule select_alu_computational [OF assms])
  have "getOpcode w \<notin> {0b0001111, 0b1110011, 0b1100011}"
    using assms by (auto elim: isa_computational_cases)
  then have "\<exists>c. cu_tick (decode_set_control w cu) = Ok c"
    by (simp add: cu_tick_def Let_def decode_set_control_def op cu_select_cmp_def)
  then show thesis using that by blast
qed

lemma decode_result_decoded:
  assumes "isa_computational w" and "cu_tick (decode_set_control w cu) = Ok c"
    and "ds_instr d = w" "ds_pc_de d = pc" "\<not> ds_v_de d"
    and "rf_read_data1 r = regs ! unat (getRs1 w)" and "rf_read_data2 r = regs ! unat (getRs2 w)"
  shows "ex_quiet (decode_result d False c r e)" and "ex_decoded pc w regs (decode_result d False c r e)"
    and "cu_instr_type c = getInstructionType (getOpcode w)"
proof -
  have opc: "getOpcode w \<in> {0b0110011, 0b0010011, 0b0110111, 0b0010111}"
    using assms(1) by (auto elim: isa_computational_cases)
  have ctl: "cu_opcode (decode_set_control w cu) = getOpcode w" "cu_funct3 (decode_set_control w cu) = getFunct3 w"
    "cu_funct7 (decode_set_control w cu) = getFunct7 w"
    by (simp_all add: decode_set_control_def)
  note sig = cu_tick_signals [OF assms(2), unfolded ctl]
  have cmp: "cu_cmp_control c = CMP_NOP"
    using sig(10) opc by (auto simp: cu_select_cmp_def)
  show "ex_quiet (decode_result d False c r e)"
    using assms(5) opc by (auto simp: ex_quiet_def decode_result_def gate_Or_def sig cmp)
  show "ex_decoded pc w regs (decode_result d False c r e)"
    using assms(3-) sig(9) by (auto simp: ex_decoded_def decode_result_def Let_def Multiplexer2_def sig(8,11))
  show "cu_instr_type c = getInstructionType (getOpcode w)"
    by (rule sig(7))
qed

lemma isa_computational_ALU:
  assumes "isa_computational w" and "ex_decoded pc w R e"
    and "a = (if getOpcode w = 0b0010111 then pc
              else if getOpcode w = 0b0110111 then 0 else regs ! unat (getRs1 w))"
    and "getOpcode w = 0b0110011 \<Longrightarrow> b = regs ! unat (getRs2 w)"
  shows "ALU (es_alu_op e) a (if es_alu_src2 e then ImmediateExtensionBlock w else b) = Ok (isa_result pc w regs)"
proof -
  obtain op where op: "cu_select_alu_op (getOpcode w) (getFunct3 w) (getFunct7 w)
      (getInstructionType (getOpcode w)) = Ok op"
    and alu: "\<And>a b. ALU op a b = Ok (if getOpcode w \<in> {0b0110111, 0b0010111} then a + b else
         rv_op (getFunct3 w) (getFunct7 w = 0b0100000 \<and> (getOpcode w = 0b0010011 \<longrightarrow> getFunct3 w = 5)) a b)"
    by (rule select_alu_computational [OF assms(1)]) blast
  have "es_alu_op e = op" and src2: "es_alu_src2 e \<longleftrightarrow> getInstructionType (getOpcode w) \<in> {IType, SType, UType}"
    using assms(2) op by (simp_all add: ex_decoded_def)
  with assms(1) show ?thesis
  proof (cases rule: isa_computational_cases)
    case Op
    with assms(3,4) \<open>es_alu_op e = op\<close> src2 show ?thesis
      by (simp add: alu isa_result_def Let_def getInstructionType_def)
  next
    case OpImm
    with assms(3) \<open>es_alu_op e = op\<close> src2 show ?thesis
      by (simp add: alu isa_result_def Let_def getInstructionType_def conj_commute)
  next
    case Lui
    with assms(3) \<open>es_alu_op e = op\<close> src2 show ?thesis
      by (simp add: alu isa_result_def Let_def getInstructionType_def)
  next
    case Auipc
    with assms(3) \<open>es_alu_op e = op\<close> src2 show ?thesis
      by (simp add: alu isa_result_def Let_def getInstructionType_def)
  qed
qed

end
