(* ===== verification/RV_Simulation.thy ===== *)
theory RV_Simulation
  imports RV_StraightLine
begin

text \<open>
  The refinement of the instruction set by the pipeline: the simulation relation
  \<open>straight_line\<close> says what each state register holds after \<open>m\<close> ticks of a program of
  computational instructions, one tick moves it from \<open>m\<close> to \<open>m + 1\<close>, and so the
  architectural registers are those of the sequential execution four instructions behind
  the fetch.
\<close>

section \<open>Operands in flight\<close>

lemma write_reg_nth:
  "unat j < length regs \<Longrightarrow> write_reg regs rd v ! unat j = (if rd \<noteq> 0 \<and> rd = j then v else regs ! unat j)"
  by (auto simp: write_reg_def nth_list_update word_eq_iff_unsigned [where ?'a = nat])

lemma write_reg_0 [simp]: "write_reg regs rd v ! 0 = regs ! 0"
  by (auto simp: write_reg_def nth_list_update unat_byte_eq_0)

lemma ucast_reg_eq:
  assumes "unat (a :: u32) < 32"
  shows "ucast (rs :: byte) = a \<longleftrightarrow> rs = ucast a"
proof -
  have "unat (ucast rs :: u32) = unat rs" by (simp add: unat_ucast_up)
  moreover have "unat (ucast a :: byte) = unat a"
    using assms by (simp add: unsigned_ucast_eq take_bit_eq_mod)
  ultimately show ?thesis
    unfolding word_eq_iff_unsigned [where ?'a = nat] by (metis (no_types))
qed

lemma ucast_nonzero: "rs \<noteq> 0 \<Longrightarrow> (ucast (rs :: byte) :: u32) \<noteq> 0"
  using ucast_reg_eq [of 0 rs] by simp

text \<open>What the bypasses select is the value after the two instructions in flight.\<close>

lemma forwarded_operand:
  assumes "length R = 32" and "R ! 0 = 0" and "unat rs < 32" and "unat ma < 32"
    and "wa \<noteq> 0 \<Longrightarrow> we"
  shows "write_reg (if we then write_reg R wa wd else R) (ucast (ma :: u32)) mr ! unat rs =
    (if rs = 0 then 0 else if ucast rs = ma then mr else if rs = wa then wd else R ! unat rs)"
  using assms by (auto simp: write_reg_nth ucast_reg_eq)

lemma execute_operands:
  assumes "hu_rs1 p = fst (select_bypass (me_cur p) (wb_cur p) r1 rs1)" and "hu_rs2 p = fst (select_bypass (me_cur p) (wb_cur p) r2 rs2)"
    and "bp_mem p = ms_alu_res (me_cur p)"
  shows "execute_src_a p = Ok (if r1 \<and> rs1 \<noteq> 0 then
       (if ucast rs1 = ms_wb_a (me_cur p) then ms_alu_res (me_cur p)
        else if rs1 = ws_wb_a (wb_cur p) then ws_wb_d (wb_cur p) else es_data1 (ex_cur p))
       else es_data1 (ex_cur p))"
    and "execute_rs2v p = Ok (if r2 \<and> rs2 \<noteq> 0 then
       (if ucast rs2 = ms_wb_a (me_cur p) then ms_alu_res (me_cur p)
        else if rs2 = ws_wb_a (wb_cur p) then ws_wb_d (wb_cur p) else es_data2 (ex_cur p))
       else es_data2 (ex_cur p))"
  using assms by (simp_all add: execute_src_a_def execute_rs2v_def select_bypass_def Multiplexer3_def)

text \<open>The clock edge when nothing is stalled or redirected.\<close>

definition all_enabled :: "Pipeline \<Rightarrow> bool" where
  "all_enabled p \<longleftrightarrow>
     enable_flag (program_counter p) \<and> enable_flag (decode_register p) \<and> enable_flag (execute_register p)
     \<and> enable_flag (memory_register p) \<and> enable_flag (write_back_register p)"

definition bypass_selected :: "Pipeline \<Rightarrow> bool" where
  "bypass_selected p \<longleftrightarrow>
     hu_rs1 p = fst (select_bypass (me_cur p) (wb_cur p) (hasRs1 (cu_instr_type (control_unit p))) (getRs1 (es_instr (ex_cur p))))
     \<and> hu_rs2 p = fst (select_bypass (me_cur p) (wb_cur p) (hasRs2 (cu_instr_type (control_unit p))) (getRs2 (es_instr (ex_cur p))))"

lemma program_counter_tickStateRegisters: "program_counter (tickStateRegisters p) = program_counter p"
  by (simp add: tickStateRegisters_def)

lemma tick_registers_plain:
  assumes "all_enabled p" and "\<not> pc_r p" and "ms_wb_a (me_next p) \<noteq> 0 \<longrightarrow> ms_mem_to_reg (me_next p)"
  defines "t \<equiv> tick_registers p"
  shows "all_enabled t" "bypass_selected t" 
   "me_cur t = me_next p" "wb_cur t = wb_next p" "ex_cur t = ex_next p" "de_cur t = de_next p"
   "pc_cur t = reg_next (program_counter p)" "reg_file t = reg_file p" "data_mem_unit t = data_mem_unit p"
   "instr_mem_unit t = instr_mem_unit p" "control_unit t = control_unit p"
   "last_instructions_flag t = last_instructions_flag p" "pc_r t = pc_r p"
proof -
  let ?q = "(tickStateRegisters p)\<lparr>program_counter := Register_tick (program_counter p)\<rparr>"
  have cur: "me_cur ?q = me_next p" "wb_cur ?q = wb_next p" "ex_cur ?q = ex_next p"
    "pc_r ?q = pc_r p" "control_unit ?q = control_unit p"
    using assms(1) by (simp_all add: tickStateRegisters_def Register_tick_def all_enabled_def)
  have halt: "select_bypass (me_next p) (wb_next p) reads rs = (fst (select_bypass (me_next p) (wb_next p) reads rs), False)"
    for reads rs
    using assms(3) ucast_nonzero [of rs] by (auto simp: select_bypass_def)
  let ?b1 = "fst (select_bypass (me_next p) (wb_next p) (hasRs1 (cu_instr_type (control_unit p))) (getRs1 (es_instr (ex_next p))))"
  let ?b2 = "fst (select_bypass (me_next p) (wb_next p) (hasRs2 (cu_instr_type (control_unit p))) (getRs2 (es_instr (ex_next p))))"
  have hz: "hazardUnitTick ?q = restartPipeline (?q\<lparr>hu_rs1 := ?b1, hu_rs2 := ?b2\<rparr>)"
    unfolding hazardUnitTick_def Let_def cur
    by (subst halt, subst (2) halt) (use assms(2) in simp)
  have t: "t = (restartPipeline (?q\<lparr>hu_rs1 := ?b1, hu_rs2 := ?b2\<rparr>))\<lparr>ticks_counter := ticks_counter p + 1\<rparr>"
  proof -
    have "t = (hazardUnitTick ?q)\<lparr>ticks_counter := ticks_counter (hazardUnitTick ?q) + 1\<rparr>"
      using assms(1)
      by (simp add: t_def tick_registers_def Let_def all_enabled_def program_counter_tickStateRegisters)
    then show ?thesis
      unfolding hz by (simp add: restartPipeline_def tickStateRegisters_def)
  qed
  show "bypass_selected t"
    using assms(1) unfolding t bypass_selected_def
    by (simp add: restartPipeline_def tickStateRegisters_def Register_tick_def all_enabled_def)
  show "all_enabled t" 
   "me_cur t = me_next p" "wb_cur t = wb_next p" "ex_cur t = ex_next p" "de_cur t = de_next p"
   "pc_cur t = reg_next (program_counter p)" "reg_file t = reg_file p" "data_mem_unit t = data_mem_unit p"
   "instr_mem_unit t = instr_mem_unit p" "control_unit t = control_unit p"
   "last_instructions_flag t = last_instructions_flag p" "pc_r t = pc_r p"
    using assms(1) unfolding t
    by (simp_all add: restartPipeline_def tickStateRegisters_def Register_tick_def all_enabled_def)
qed

section \<open>The simulation\<close>

definition same_image :: "InstrMemUnit \<Rightarrow> InstrMemUnit \<Rightarrow> bool" where
  "same_image i j \<longleftrightarrow> im_memory i = im_memory j \<and> im_start_of_section i = im_start_of_section j
     \<and> im_end_of_section i = im_end_of_section j"

definition in_decode :: "u32 \<Rightarrow> u32 list \<Rightarrow> nat \<Rightarrow> DecodeState \<Rightarrow> bool" where
  "in_decode start ws m d \<longleftrightarrow>
     \<not> ds_v_de d \<and>
     (if m = 0 then ds_instr d = 0
      else ds_instr d = ws ! (m - 1) \<and> ds_pc_de d = start + of_nat (4 * (m - 1)))"

definition in_execute :: "u32 \<Rightarrow> u32 list \<Rightarrow> nat \<Rightarrow> u32 list \<Rightarrow> ExecuteState \<Rightarrow> bool" where
  "in_execute start ws m regs e \<longleftrightarrow>
     ex_quiet e \<and>
     (if m < 2 then ex_bubble e
      else ex_decoded (start + of_nat (4 * (m - 2))) (ws ! (m - 2)) regs e)"

definition in_memory :: "MemoryState \<Rightarrow> bool" where
  "in_memory m \<longleftrightarrow> \<not> ms_mem_we m \<and> \<not> ms_jmp_cond m
     \<and> (ms_mem_to_reg m \<or> ms_alu_res m = 0 \<and> ms_store_mode m = 0)
     \<and> (ms_wb_a m \<noteq> 0 \<longrightarrow> ms_wb_we m \<and> ms_mem_to_reg m)"

definition in_flight :: "u32 \<Rightarrow> u32 list \<Rightarrow> nat \<Rightarrow> Pipeline \<Rightarrow> bool" where
  "in_flight start ws m p \<longleftrightarrow>
     rf_regs (reg_file p) = isa_regs start ws (m - 4)
     \<and> (ws_wb_a (wb_cur p) \<noteq> 0 \<longrightarrow> ws_wb_we (wb_cur p))
     \<and> wb_regs p = isa_regs start ws (m - 3)
     \<and> in_memory (me_cur p)
     \<and> write_reg (wb_regs p) (ucast (ms_wb_a (me_cur p))) (ms_alu_res (me_cur p)) = isa_regs start ws (m - 2)
     \<and> in_execute start ws m (rf_regs (reg_file p)) (ex_cur p)
     \<and> (0 < m \<longrightarrow> cu_instr_type (control_unit p) = getInstructionType (getOpcode (es_instr (ex_cur p))))
     \<and> in_decode start ws m (de_cur p)"

definition straight_line :: "InstrMemUnit \<Rightarrow> u32 \<Rightarrow> u32 list \<Rightarrow> nat \<Rightarrow> Pipeline \<Rightarrow> bool" where
  "straight_line im start ws m p \<longleftrightarrow>
     pipeline_wf p \<and> all_enabled p \<and> bypass_selected p
     \<and> \<not> last_instructions_flag p \<and> \<not> pc_r p
     \<and> pc_cur p = start + of_nat (4 * m)
     \<and> dm_idle (data_mem_unit p) \<and> same_image (instr_mem_unit p) im
     \<and> in_flight start ws m p"

lemma execute_straight_line:
  assumes "straight_line im start ws m p" and "\<And>w. w \<in> set ws \<Longrightarrow> isa_computational w" and "m \<le> length ws"
    and "bp_mem q = ms_alu_res (me_cur p)" "hu_rs1 q = hu_rs1 p" "hu_rs2 q = hu_rs2 p" "me_cur q = me_cur p" 
    "wb_cur q = wb_cur p" "ex_cur q = ex_cur p"
  obtains a b r where "execute_src_a q = Ok a" and "execute_rs2v q = Ok b"
    and "ALU (es_alu_op (ex_cur p)) a (if es_alu_src2 (ex_cur p) then ImmediateExtensionBlock (es_instr (ex_cur p)) else b) = Ok r"
    and "write_reg (isa_regs start ws (m - 2)) (getRd (es_instr (ex_cur p))) r = isa_regs start ws (m - 1)"
    and "ex_bubble (ex_cur p) \<Longrightarrow> r = 0"
proof -
  let ?e = "ex_cur p"
  let ?type = "cu_instr_type (control_unit p)"
  note sl = assms(1) [unfolded straight_line_def in_flight_def]
  have R: "length (rf_regs (reg_file p)) = 32" "rf_regs (reg_file p) ! 0 = 0"
    using sl by (auto simp: pipeline_wf_def rf_ok_def)
  have ma: "unat (ms_wb_a (me_cur p)) < 32" using sl by (simp add: pipeline_wf_def)
  have S2: "write_reg (wb_regs p) (ucast (ms_wb_a (me_cur p))) (ms_alu_res (me_cur p)) = isa_regs start ws (m - 2)"
    and we: "ws_wb_a (wb_cur p) \<noteq> 0 \<Longrightarrow> ws_wb_we (wb_cur p)"
    using sl by blast+
  have fwd: "isa_regs start ws (m - 2) ! unat rs =
      (if rs = 0 then 0 else if ucast rs = ms_wb_a (me_cur p) then ms_alu_res (me_cur p)
       else if rs = ws_wb_a (wb_cur p) then ws_wb_d (wb_cur p) else rf_regs (reg_file p) ! unat rs)"
    if "unat rs < 32" for rs
    using forwarded_operand [OF R that ma we, where wa = "ws_wb_a (wb_cur p)" and wd = "ws_wb_d (wb_cur p)" and mr = "ms_alu_res (me_cur p)"]
    unfolding S2 [unfolded wb_regs_def] by simp
  have hu: "hu_rs1 q = fst (select_bypass (me_cur q) (wb_cur q) (hasRs1 ?type) (getRs1 (es_instr ?e)))"
    "hu_rs2 q = fst (select_bypass (me_cur q) (wb_cur q) (hasRs2 ?type) (getRs2 (es_instr ?e)))"
    using sl assms by (simp_all add: bypass_selected_def)
  have "in_execute start ws m (rf_regs (reg_file p)) ?e" using sl by blast
  note ops = execute_operands [OF hu, unfolded assms, OF refl]
  show thesis
  proof (cases "m < 2")
    case True
    then have "ex_bubble ?e" using sl by (simp add: in_execute_def)
    with True ops show thesis
      by (intro that) (auto simp: ex_bubble_def write_reg_def)
  next
    case False
    let ?w = "ws ! (m - 2)" and ?pc = "start + of_nat (4 * (m - 2))"
    have dec: "ex_decoded ?pc ?w (rf_regs (reg_file p)) ?e"
      using False \<open>in_execute start ws m (rf_regs (reg_file p)) ?e\<close> by (simp add: in_execute_def)
    have type: "?type = getInstructionType (getOpcode ?w)" and w: "es_instr ?e = ?w"
      using False sl dec by (simp_all add: ex_decoded_def)
    have comp: "isa_computational ?w"
      using False assms(3) by (intro assms(2)) simp
    let ?S = "isa_regs start ws (m - 2)"
    let ?a = "if getOpcode ?w = 0b0010111 then ?pc else if getOpcode ?w = 0b0110111 then 0 else ?S ! unat (getRs1 ?w)"
    have a: "execute_src_a q = Ok ?a"
      using ops(1) dec comp R(2) by (auto simp: fwd ex_decoded_def type w hasRs1_def getInstructionType_def elim: isa_computational_cases)
    obtain b where b: "execute_rs2v q = Ok b" by (simp add: ops(2))
    then have b51: "getOpcode ?w = 0b0110011 \<Longrightarrow> b = ?S ! unat (getRs2 ?w)"
      using ops(2) dec R(2) by (auto simp: fwd ex_decoded_def type w hasRs2_def getInstructionType_def)
    have alu: "ALU (es_alu_op ?e) ?a (if es_alu_src2 ?e then ImmediateExtensionBlock ?w else b) = Ok (isa_result ?pc ?w ?S)"
      by (rule isa_computational_ALU [OF comp dec refl b51])
    have step: "isa_regs start ws (m - 1) = isa_step ?pc ?w ?S"
      using False isa_regs.simps(2) [of start ws "m - 2"] by (simp add: numeral_2_eq_2 Suc_diff_Suc)
    have nb: "\<not> ex_bubble ?e"
      using comp w by (auto simp: ex_bubble_def isa_computational_def Let_def)
    show thesis
    proof (rule that [OF a b])
      show "ALU (es_alu_op ?e) ?a (if es_alu_src2 ?e then ImmediateExtensionBlock (es_instr ?e) else b) = Ok (isa_result ?pc ?w ?S)"
        unfolding w by (rule alu)
      show "write_reg ?S (getRd (es_instr ?e)) (isa_result ?pc ?w ?S) = isa_regs start ws (m - 1)"
        unfolding w step isa_step_def ..
    qed (use nb in contradiction)
  qed
qed


lemma decode_straight_line:
  assumes "in_decode start ws m d" and "\<And>w. w \<in> set ws \<Longrightarrow> isa_computational w" and "m \<le> length ws"
  obtains c where "cu_tick (decode_set_control (ds_instr d) cu) = Ok c"
    and "\<And>(r :: RegFile) regs e. rf_read_data1 r = regs ! unat (getRs1 (ds_instr d)) \<Longrightarrow>
      rf_read_data2 r = regs ! unat (getRs2 (ds_instr d)) \<Longrightarrow>
      in_execute start ws (Suc m) regs (decode_result d False c r e)"
    and "\<And>(r :: RegFile) e. cu_instr_type c = getInstructionType (getOpcode (es_instr (decode_result d False c r e)))"
proof (cases "m = 0")
  case True
  then have d: "ds_instr d = 0" "\<not> ds_v_de d" using assms(1) by (simp_all add: in_decode_def)
  let ?c = "(decode_set_control 0 cu)\<lparr>cu_is_jalr := False, cu_wb_we := True, cu_mem_we := False, cu_instr_type := UNKNOWN,
     cu_alu_src2 := False, cu_alu_op := ALU_NOP, cu_brn_cond := False, cu_jmp_cond := False, cu_mem_to_reg := True,
     cu_cmp_control := CMP_NOP\<rparr>"
  show thesis
  proof (rule that [of ?c])
    show "cu_tick (decode_set_control (ds_instr d) cu) = Ok ?c"
      by (simp add: d cu_tick_def Let_def decode_set_control_def cu_select_alu_op_def cu_select_cmp_def getInstructionType_def)
  qed (use True d in \<open>simp_all add: in_execute_def ex_quiet_def ex_bubble_def decode_result_def Let_def gate_Or_def decode_set_control_def getInstructionType_def\<close>)
next
  case False
  let ?w = "ws ! (m - 1)"
  have d: "ds_instr d = ?w" "ds_pc_de d = start + of_nat (4 * (m - 1))" "\<not> ds_v_de d"
    using assms(1) False by (simp_all add: in_decode_def)
  have comp: "isa_computational ?w"
    using False assms(3) by (intro assms(2)) simp
  obtain c where c: "cu_tick (decode_set_control ?w cu) = Ok c"
    by (rule cu_tick_computational [OF comp])
  show thesis
  proof (rule that [of c])
    fix r :: RegFile and regs e
    assume rd: "rf_read_data1 r = regs ! unat (getRs1 (ds_instr d))" "rf_read_data2 r = regs ! unat (getRs2 (ds_instr d))"
    show "in_execute start ws (Suc m) regs (decode_result d False c r e)"
      using decode_result_decoded(1,2) [OF comp c d rd [unfolded d]] False
      by (auto simp: in_execute_def)
  next
    fix r :: RegFile and e
    show "cu_instr_type c = getInstructionType (getOpcode (es_instr (decode_result d False c r e)))"
      using cu_tick_signals(7) [OF c] by (simp add: decode_result_def Let_def d decode_set_control_def)
  qed (simp only: c d)
qed

lemma section_facts:
  assumes im: "InstrMemUnit_ctor ws start = Ok im" and k: "k < length ws" and same: "same_image i im"
  shows "\<not> isPcOutOfSection i (start + of_nat (4 * k))"
    and "unat (start + of_nat (4 * k) + 4) mod 4 = 0"
    and "im_getData (i\<lparr>im_address := start + of_nat (4 * k)\<rparr>) = Ok (ws ! k)"
proof -
  from im have al: "unat start mod 4 = 0" and cap: "unat start div 4 + length ws \<le> 1024"
    and sec: "im_start_of_section im = start" "im_end_of_section im = start + of_nat (4 * length ws)"
    by (auto simp: InstrMemUnit_ctor_def im_capacity_def mult.commute split: if_splits)
  have unat: "unat (start + of_nat (4 * j)) = unat start + 4 * j" if "j \<le> length ws" for j
  proof -
    have "unat start + 4 * j \<le> 4096" using al cap that by presburger
    then show ?thesis
      by (simp add: unat_word_ariths unat_of_nat take_bit_eq_mod)
  qed
  have pc: "unat (start + of_nat (4 * k)) = unat start + 4 * k" using k by (simp only: unat less_imp_le)
  show "\<not> isPcOutOfSection i (start + of_nat (4 * k))"
    using same k unat [of "length ws"] pc
    by (simp only: isPcOutOfSection_def same_image_def sec word_less_nat_alt word_le_nat_alt) simp
  have "start + of_nat (4 * k) + 4 = start + of_nat (4 * Suc k)" by simp
  then have "unat (start + of_nat (4 * k) + 4) = unat start + 4 * Suc k"
    using k by (simp only: unat Suc_leI)
  then show "unat (start + of_nat (4 * k) + 4) mod 4 = 0"
    using al by presburger
  show "im_getData (i\<lparr>im_address := start + of_nat (4 * k)\<rparr>) = Ok (ws ! k)"
    by (rule InstrMemUnit_ctor_fetch [OF im k]) (use same pc in \<open>simp_all add: same_image_def\<close>)
qed

lemma ucast_ucast_byte: "ucast (ucast (b :: byte) :: u32) = b"
  by (rule bit_word_eqI) (simp add: bit_simps)

lemma straight_line_tick:
  assumes sl: "straight_line im start ws m p" and comp: "\<And>w. w \<in> set ws \<Longrightarrow> isa_computational w"
    and im: "InstrMemUnit_ctor ws start = Ok im" and m: "m < length ws"
  shows "\<exists>q. pipeline_tick p = Ok q \<and> straight_line im start ws (Suc m) q"
proof -
  note inv = sl [unfolded straight_line_def in_flight_def]
  from inv have me: "in_memory (me_cur p)" and idle: "dm_idle (data_mem_unit p)" by blast+
  obtain d w where p1: "doMemory p = Ok (p\<lparr>data_mem_unit := d,
      write_back_register := set_next w (write_back_register p), bp_mem := ms_alu_res (me_cur p)\<rparr>)" (is "_ = Ok ?p1")
    and d: "dm_idle d" and w: "ws_wb_we w = ms_wb_we (me_cur p)" "ws_wb_a w = ucast (ms_wb_a (me_cur p))"
      "ms_mem_to_reg (me_cur p) \<Longrightarrow> ws_wb_d w = ms_alu_res (me_cur p)"
    by (rule doMemory_quiet [of p]) (use me idle in \<open>simp_all add: in_memory_def\<close>)
  obtain a b r where ops: "execute_src_a ?p1 = Ok a" "execute_rs2v ?p1 = Ok b"
    and alu: "ALU (es_alu_op (ex_cur p)) a (if es_alu_src2 (ex_cur p) then ImmediateExtensionBlock (es_instr (ex_cur p)) else b) = Ok r"
    and S1: "write_reg (isa_regs start ws (m - 2)) (getRd (es_instr (ex_cur p))) r = isa_regs start ws (m - 1)"
    and bub: "ex_bubble (ex_cur p) \<Longrightarrow> r = 0"
    by (rule execute_straight_line [OF sl comp, of ?p1]) (use m in auto)
  have ex: "in_execute start ws m (rf_regs (reg_file p)) (ex_cur p)" using inv by blast
  then have quiet: "ex_quiet (ex_cur p)" by (simp add: in_execute_def)
  obtain mm where p2: "doExecute ?p1 = Ok (?p1\<lparr>pc_disp := ImmediateExtensionBlock (es_instr (ex_cur p)), pc_r := False,
      memory_register := set_next mm (memory_register p),
      decode_register := set_next ((de_next p)\<lparr>ds_v_de := False\<rparr>) (decode_register p)\<rparr>)" (is "_ = Ok ?p2")
    and mm: "ms_mem_we mm = (es_mem_we (ex_cur p) \<and> \<not> es_v_de (ex_cur p))" "ms_mem_to_reg mm = es_mem_to_reg (ex_cur p)"
      "ms_wb_we mm = (es_wb_we (ex_cur p) \<and> \<not> es_v_de (ex_cur p))" "\<not> ms_jmp_cond mm"
      "ms_store_mode mm = es_funct3 (ex_cur p)" "ms_alu_res mm = r" "ms_wb_a mm = ucast (getRd (es_instr (ex_cur p)))"
    by (rule doExecute_plain [OF ops, of "ex_cur p" r]) (use quiet alu in \<open>simp_all add: ex_quiet_def\<close>)
  have de: "in_decode start ws m (de_cur p)" using inv by blast
  obtain c where c: "cu_tick (decode_set_control (ds_instr (de_cur p)) (control_unit p)) = Ok c"
    and cex: "\<And>(r :: RegFile) regs e. rf_read_data1 r = regs ! unat (getRs1 (ds_instr (de_cur p))) \<Longrightarrow>
      rf_read_data2 r = regs ! unat (getRs2 (ds_instr (de_cur p))) \<Longrightarrow>
      in_execute start ws (Suc m) regs (decode_result (de_cur p) False c r e)"
    and cty: "\<And>(r :: RegFile) e. cu_instr_type c = getInstructionType (getOpcode (es_instr (decode_result (de_cur p) False c r e)))"
    by (rule decode_straight_line [OF de comp, of "control_unit p"]) (use m in auto)
  have wf: "pipeline_wf p" using inv by blast
  obtain rf where p3: "doDecode ?p2 = Ok (?p2\<lparr>reg_file := rf, control_unit := c, execute_register :=
      set_next (decode_result (de_cur p) False c rf (ex_next p)) (execute_register p)\<rparr>)" (is "_ = Ok ?p3")
    and rf: "rf_regs rf = wb_regs p"
      "rf_read_data1 rf = wb_regs p ! unat (getRs1 (ds_instr (de_cur p)))"
      "rf_read_data2 rf = wb_regs p ! unat (getRs2 (ds_instr (de_cur p)))"
    by (rule doDecode_plain [of ?p2 c]) (use c wf in \<open>simp_all add: wb_regs_def pipeline_wf_def\<close>)
  have pc: "pc_cur p = start + of_nat (4 * m)" and img: "same_image (instr_mem_unit p) im"
    and flag: "\<not> last_instructions_flag p" and en: "all_enabled p" and S3: "wb_regs p = isa_regs start ws (m - 3)"
    and S2: "write_reg (wb_regs p) (ucast (ms_wb_a (me_cur p))) (ms_alu_res (me_cur p)) = isa_regs start ws (m - 2)"
    using inv by blast+
  note sec = section_facts [OF im m img]
  have p4: "doFetch ?p3 = Ok (?p3\<lparr>instr_mem_unit := (instr_mem_unit p)\<lparr>im_address := pc_cur p\<rparr>,
      program_counter := set_next (pc_cur p + 4) (program_counter p),
      decode_register := set_next (\<lparr>ds_v_de = False, ds_pc_de = pc_cur p, ds_instr = ws ! m\<rparr>) (decode_register p)\<rparr>)" (is "_ = Ok ?p4")
    using doFetch_plain [of ?p3 "ws ! m"] flag sec by (simp add: pc)
  have tick: "pipeline_tick p = Ok (tick_registers ?p4)"
    unfolding pipeline_tick_def doWriteBack_def by (simp only: rbind.simps p1 p2 p3 p4)
  have en4: "all_enabled ?p4" using en by (simp add: all_enabled_def)
  have rd: "ms_wb_a (me_next ?p4) \<noteq> 0 \<longrightarrow> ms_mem_to_reg (me_next ?p4)"
    using quiet mm by (auto simp: ex_quiet_def)
  have npr: "\<not> pc_r ?p4" by simp
  obtain q where q: "tick_registers ?p4 = q" by blast
  have t: "all_enabled q" "bypass_selected q" "me_cur q = mm" "wb_cur q = w"
    "ex_cur q = decode_result (de_cur p) False c rf (ex_next p)"
    "de_cur q = \<lparr>ds_v_de = False, ds_pc_de = pc_cur p, ds_instr = ws ! m\<rparr>"
    "pc_cur q = pc_cur p + 4" "reg_file q = rf" "data_mem_unit q = d"
    "instr_mem_unit q = (instr_mem_unit p)\<lparr>im_address := pc_cur p\<rparr>" "control_unit q = c"
    "\<not> last_instructions_flag q" "\<not> pc_r q"
    using tick_registers_plain [OF en4 npr rd, unfolded q] flag by simp_all
  have wfq: "pipeline_wf q"
    using keepsD(1) [OF wf_pipeline_tick [OF wf] tick, unfolded q] .
  have wbr: "wb_regs q = isa_regs start ws (m - 2)"
  proof -
    have "wb_regs q = (if ws_wb_we w then write_reg (wb_regs p) (ws_wb_a w) (ws_wb_d w) else wb_regs p)"
      unfolding wb_regs_def [of q] t rf(1) ..
    also have "\<dots> = write_reg (wb_regs p) (ucast (ms_wb_a (me_cur p))) (ms_alu_res (me_cur p))"
      using me w by (cases "ms_wb_a (me_cur p) = 0") (auto simp: write_reg_def in_memory_def)
    finally show ?thesis unfolding S2 .
  qed
  have mem: "in_memory mm"
    using quiet mm alu by (auto simp: ex_quiet_def in_memory_def)
  have "in_flight start ws (Suc m) q"
    unfolding in_flight_def t(3,4,8) wbr
  proof (intro conjI impI)
    show "rf_regs rf = isa_regs start ws (Suc m - 4)" by (simp add: rf S3)
    show "ws_wb_we w" if "ws_wb_a w \<noteq> 0" using that me w by (auto simp: in_memory_def)
    show "write_reg (isa_regs start ws (m - 2)) (ucast (ms_wb_a mm)) (ms_alu_res mm) = isa_regs start ws (Suc m - 2)"
      using S1 by (simp add: mm ucast_ucast_byte)
    show "in_execute start ws (Suc m) (rf_regs rf) (ex_cur q)"
      unfolding t rf(1) by (rule cex [OF rf(2,3)])
    show "cu_instr_type (control_unit q) = getInstructionType (getOpcode (es_instr (ex_cur q)))"
      unfolding t by (rule cty)
    show "in_decode start ws (Suc m) (de_cur q)"
      by (simp add: t in_decode_def pc)
  qed (simp_all add: mem)
  then have "straight_line im start ws (Suc m) q"
    unfolding straight_line_def using wfq t d img by (simp add: pc same_image_def)
  with tick q show ?thesis by blast
qed

section \<open>From the constructor\<close>

definition boot :: "CmpControl \<Rightarrow> InstructionType \<Rightarrow> u32 list \<Rightarrow> u32 \<Rightarrow> (rv_exception, Pipeline) res" where
  "boot cmp0 type0 ws start = rbind (Pipeline_ctor cmp0 type0 ws start) (\<lambda>p. Ok (setProgramCounter start p))"

lemma bootE:
  assumes "boot cmp0 type0 ws start = Ok p"
  obtains im where "InstrMemUnit_ctor ws start = Ok im"
    and "p = setProgramCounter start (Pipeline_of_parts cmp0 type0 im DataMemUnit_default)"
  using assms by (auto simp: boot_def Pipeline_ctor_def res_simps)

lemma isa_regs_before [simp]: "isa_regs start ws 0 ! 0 = 0"
  by simp

lemma straight_line_boot:
  assumes "InstrMemUnit_ctor ws start = Ok im"
    and p: "p = setProgramCounter start (Pipeline_of_parts cmp0 type0 im DataMemUnit_default)"
  shows "straight_line im start ws 0 p"
proof -
  note defs = setProgramCounter_def Pipeline_of_parts_def Register_init_def Register_tick_def
  have wf: "pipeline_wf p"
    using Pipeline_wf_init [of cmp0 type0 im DataMemUnit_default]
    unfolding p setProgramCounter_def wf_unaffected .
  have "bypass_selected p"
    by (simp add: bypass_selected_def select_bypass_def p defs ExecuteState_of_def)
  moreover have "all_enabled p" and "\<not> last_instructions_flag p" and "\<not> pc_r p" and "pc_cur p = start"
    and "dm_idle (data_mem_unit p)" and "same_image (instr_mem_unit p) im"
    by (simp_all add: all_enabled_def p defs dm_idle_def DataMemUnit_default_def same_image_def)
  moreover have "in_flight start ws 0 p"
    by (simp add: in_flight_def p defs RegFile_init_def number_of_regs_def wb_regs_def in_memory_def
        in_execute_def in_decode_def ex_quiet_def ex_bubble_def WriteBackState_of_def MemoryState_of_def
        ExecuteState_of_def DecodeState_of_def write_reg_def ALUControl_of_word_def CmpControl_of_word_def)
  ultimately show ?thesis
    using wf by (simp add: straight_line_def)
qed

lemma straight_line_ticks:
  assumes "boot cmp0 type0 ws start = Ok p" and "\<And>w. w \<in> set ws \<Longrightarrow> isa_computational w"
    and "m \<le> length ws"
  shows "\<exists>im q. InstrMemUnit_ctor ws start = Ok im \<and> pipeline_ticks m p = Ok q \<and> straight_line im start ws m q"
proof -
  obtain im where im: "InstrMemUnit_ctor ws start = Ok im"
    and p: "p = setProgramCounter start (Pipeline_of_parts cmp0 type0 im DataMemUnit_default)"
    by (rule bootE [OF assms(1)])
  have "\<exists>q. pipeline_ticks m p = Ok q \<and> straight_line im start ws m q"
    using assms(3)
  proof (induction m)
    case 0
    show ?case using straight_line_boot [OF im p] by (simp add: pipeline_ticks_def)
  next
    case (Suc m)
    then obtain q where "pipeline_ticks m p = Ok q" and sl: "straight_line im start ws m q" by auto
    with straight_line_tick [OF sl assms(2) im] Suc.prems show ?case
      by (simp add: pipeline_ticks_def iterate_Suc_end del: iterate.simps)
  qed
  with im show ?thesis by blast
qed

end
