(* ===== verification/RV_Hazards.thy ===== *)
theory RV_Hazards
  imports RV_Simulation
begin

text \<open>
  Hazards and faults of the pipeline: what each stage changes and leaves alone, what a taken
  jump flushes, what a load-use hazard stalls, which writes an instruction commits, which
  faults a tick can raise, and what the run loop returns.
\<close>

section \<open>What each stage leaves alone\<close>

lemma doMemoryE:
  assumes "doMemory p = Ok q"
  obtains d v where "memory_access p = Ok (p\<lparr>data_mem_unit := d\<rparr>)" and "dm_getData d = Ok v"
    and "q = p\<lparr>data_mem_unit := d, write_back_register := set_next ((wb_next p)\<lparr>ws_wb_we := ms_wb_we (me_cur p),
         ws_wb_d := (if ms_mem_to_reg (me_cur p) then ms_alu_res (me_cur p) else v),
         ws_wb_a := ucast (ms_wb_a (me_cur p))\<rparr>) (write_back_register p), bp_mem := ms_alu_res (me_cur p)\<rparr>"
proof -
  obtain p1 v where 1: "memory_access p = Ok p1" and v: "dm_getData (data_mem_unit p1) = Ok v"
    and q: "q = p1\<lparr>write_back_register := set_next ((wb_next p1)\<lparr>ws_wb_we := ms_wb_we (me_cur p),
         ws_wb_d := (if ms_mem_to_reg (me_cur p) then ms_alu_res (me_cur p) else v),
         ws_wb_a := ucast (ms_wb_a (me_cur p))\<rparr>) (write_back_register p1), bp_mem := ms_alu_res (me_cur p)\<rparr>"
    using assms by (simp add: doMemory_def Let_def rbind_Ok_iff eval_in_Ok_iff Multiplexer2_def) blast
  obtain d where d: "p1 = p\<lparr>data_mem_unit := d\<rparr>"
  proof (cases "\<not> ms_mem_to_reg (me_cur p) \<or> ms_mem_we (me_cur p)")
    case True
    with 1 that show ?thesis by (auto simp: memory_access_def Let_def lift_part_Ok_iff)
  next
    case False
    with 1 that [of "data_mem_unit p"] show ?thesis by (simp add: memory_access_def)
  qed
  show thesis
    by (rule that [OF 1 [unfolded d]]) (use v q in \<open>simp_all add: d\<close>)
qed

lemma doMemory_frame:
  assumes "doMemory p = Ok q"
  shows "ex_cur q = ex_cur p" "de_cur q = de_cur p" "me_cur q = me_cur p" "wb_cur q = wb_cur p" "pc_cur q = pc_cur p"
    "enable_flag (program_counter q) = enable_flag (program_counter p)"
    "enable_flag (decode_register q) = enable_flag (decode_register p)"
    "enable_flag (execute_register q) = enable_flag (execute_register p)"
    "enable_flag (memory_register q) = enable_flag (memory_register p)"
    "enable_flag (write_back_register q) = enable_flag (write_back_register p)"
    "reg_file q = reg_file p" "instr_mem_unit q = instr_mem_unit p" "control_unit q = control_unit p"
    "bp_mem q = ms_alu_res (me_cur p)" "hu_rs1 q = hu_rs1 p" "hu_rs2 q = hu_rs2 p"
    "last_instructions_flag q = last_instructions_flag p" "ex_next q = ex_next p" 
    "last_instructions_counter q = last_instructions_counter p" 
    "ws_wb_we (wb_next q) = ms_wb_we (me_cur p)" "ws_wb_a (wb_next q) = ucast (ms_wb_a (me_cur p))"
    "ms_mem_to_reg (me_cur p) \<Longrightarrow> ws_wb_d (wb_next q) = ms_alu_res (me_cur p)"
    "\<not> ms_mem_to_reg (me_cur p) \<Longrightarrow> dm_getData (data_mem_unit q) = Ok (ws_wb_d (wb_next q))"
  by (rule doMemoryE [OF assms]; simp)+

lemma doExecuteE:
  assumes "doExecute p = Ok q"
  obtains a b c r where "execute_src_a p = Ok a" "execute_rs2v p = Ok b" "Cmp (es_cmp_control (ex_cur p)) a b = Ok c"
    and "ALU (es_alu_op (ex_cur p)) a (if es_alu_src2 (ex_cur p) then ImmediateExtensionBlock (es_instr (ex_cur p)) else b) = Ok r"
    and "q = p\<lparr>pc_disp := (if es_is_jalr (ex_cur p) then r AND 0xfffffffe else ImmediateExtensionBlock (es_instr (ex_cur p))),
      pc_r := es_jmp_cond (ex_cur p) \<or> c \<and> es_brn_cond (ex_cur p),
      memory_register := set_next ((execute_to_memory (ex_cur p) b (me_next p))
        \<lparr>ms_alu_res := (if es_jmp_cond (ex_cur p) then es_pc_de (ex_cur p) + 4 else r),
         ms_wb_a := ucast (getRd (es_instr (ex_cur p)))\<rparr>) (memory_register p),
      decode_register := set_next ((de_next p)\<lparr>ds_v_de := es_jmp_cond (ex_cur p) \<or> c \<and> es_brn_cond (ex_cur p)\<rparr>) (decode_register p)\<rparr>"
  using assms
  by (simp add: doExecute_def Let_def rbind_Ok_iff eval_in_Ok_iff Multiplexer2_def gate_Or_def gate_And_def gate_Add_def
      cong: if_cong) (elim exE conjE, rule that, assumption, assumption, assumption, assumption,
      drule sym, hypsubst, simp split del: if_split)

lemma doExecute_frame:
  assumes "doExecute p = Ok q"
  shows "ex_cur q = ex_cur p" "de_cur q = de_cur p" "me_cur q = me_cur p" "wb_cur q = wb_cur p" "pc_cur q = pc_cur p"
    "enable_flag (program_counter q) = enable_flag (program_counter p)"
    "enable_flag (decode_register q) = enable_flag (decode_register p)"
    "enable_flag (execute_register q) = enable_flag (execute_register p)"
    "enable_flag (memory_register q) = enable_flag (memory_register p)"
    "enable_flag (write_back_register q) = enable_flag (write_back_register p)"
    "reg_file q = reg_file p" "instr_mem_unit q = instr_mem_unit p" "control_unit q = control_unit p"
    "bp_mem q = bp_mem p" "hu_rs1 q = hu_rs1 p" "hu_rs2 q = hu_rs2 p"
    "last_instructions_flag q = last_instructions_flag p" "ex_next q = ex_next p" "wb_next q = wb_next p"
    "data_mem_unit q = data_mem_unit p" "last_instructions_counter q = last_instructions_counter p" 
    "ms_mem_we (me_next q) \<longleftrightarrow> es_mem_we (ex_cur p) \<and> \<not> es_v_de (ex_cur p)"
    "ms_wb_we (me_next q) \<longleftrightarrow> es_wb_we (ex_cur p) \<and> \<not> es_v_de (ex_cur p)"
    "ms_mem_to_reg (me_next q) = es_mem_to_reg (ex_cur p)"
    "ms_wb_a (me_next q) = ucast (getRd (es_instr (ex_cur p)))"
    "ds_v_de (de_next q) = pc_r q"
    "pc_r q \<longleftrightarrow> es_jmp_cond (ex_cur p) \<or>
       (\<exists>a b. execute_src_a p = Ok a \<and> execute_rs2v p = Ok b \<and> Cmp (es_cmp_control (ex_cur p)) a b = Ok True)
       \<and> es_brn_cond (ex_cur p)"
    "\<not> es_is_jalr (ex_cur p) \<Longrightarrow> pc_disp q = ImmediateExtensionBlock (es_instr (ex_cur p))"
  by (rule doExecuteE [OF assms], hypsubst, simp add: execute_to_memory_def split del: if_split)+

lemma doDecodeE:
  assumes "doDecode p = Ok q"
  obtains r c where "rf_tick (decode_set_regs p) = Ok r"
    and "cu_tick (decode_set_control (ds_instr (de_cur p)) (control_unit p)) = Ok c"
    and "q = p\<lparr>reg_file := r, control_unit := c, execute_register :=
      set_next (decode_result (de_cur p) (pc_r p) c r (ex_next p)) (execute_register p)\<rparr>"
  using assms by (simp add: doDecode_def Let_def rbind_Ok_iff lift_part_Ok_iff)
    (elim exE conjE, rule that, assumption, simp, simp)

lemma doDecode_frame:
  assumes "doDecode p = Ok q"
  shows "ex_cur q = ex_cur p" "de_cur q = de_cur p" "me_cur q = me_cur p" "wb_cur q = wb_cur p" "pc_cur q = pc_cur p"
    "enable_flag (program_counter q) = enable_flag (program_counter p)"
    "enable_flag (decode_register q) = enable_flag (decode_register p)"
    "enable_flag (execute_register q) = enable_flag (execute_register p)"
    "enable_flag (memory_register q) = enable_flag (memory_register p)"
    "enable_flag (write_back_register q) = enable_flag (write_back_register p)"
    "instr_mem_unit q = instr_mem_unit p" "data_mem_unit q = data_mem_unit p"
    "bp_mem q = bp_mem p" "hu_rs1 q = hu_rs1 p" "hu_rs2 q = hu_rs2 p" "pc_r q = pc_r p" "pc_disp q = pc_disp p"
    "last_instructions_flag q = last_instructions_flag p" "me_next q = me_next p" "wb_next q = wb_next p" 
    "de_next q = de_next p" "last_instructions_counter q = last_instructions_counter p" 
    "es_v_de (ex_next q) \<longleftrightarrow> pc_r p \<or> ds_v_de (de_cur p)"
  by (rule doDecodeE [OF assms]; simp add: decode_result_def Let_def gate_Or_def)+

lemma doFetch_section_check_cases:
  assumes "doFetch_section_check p = Ok q"
  obtains "q = p"
  | "isPcOutOfSection (instr_mem_unit p) (pc_cur p)" "\<not> last_instructions_flag p" "ms_jmp_cond (me_cur p)"
    "q = p\<lparr>last_instructions_flag := True, last_instructions_counter := 1,
                 program_counter := set_enable False (program_counter p),
                 decode_register := set_enable False (decode_register p),
                 execute_register := set_enable False (execute_register p),
                 memory_register := set_enable False (memory_register p)\<rparr>"
  | "isPcOutOfSection (instr_mem_unit p) (pc_cur p)" "\<not> last_instructions_flag p" "\<not> pc_r p"
    "q = p\<lparr>last_instructions_flag := True, last_instructions_counter := 3,
                 program_counter := set_enable False (program_counter p),
                 decode_register := Register_clear DecodeState_of (set_enable False (decode_register p))\<rparr>"
proof (cases "\<not> last_instructions_flag p \<and> isPcOutOfSection (instr_mem_unit p) (pc_cur p)
      \<and> \<not> (es_jmp_cond (ex_next p) \<or> es_brn_cond (ex_next p))")
  case leave: True
  show thesis
  proof (cases "ms_jmp_cond (me_cur p)")
    case True
    with assms leave show thesis by (intro that(2)) (simp_all add: doFetch_section_check_def)
  next
    case False
    then have "\<not> pc_r p" using assms leave by (simp add: doFetch_section_check_def Let_def split: if_split_asm)
    with False assms leave show thesis by (intro that(3)) (simp_all add: doFetch_section_check_def)
  qed
next
  case False
  then have "q = p" using assms unfolding doFetch_section_check_def by (simp only: if_False res.inject)
  then show thesis by (rule that(1))
qed

lemma section_check_frame:
  assumes "doFetch_section_check p = Ok q"
  shows "ex_cur q = ex_cur p" "pc_r q = pc_r p" "pc_disp q = pc_disp p" "pc_cur q = pc_cur p"
    "instr_mem_unit q = instr_mem_unit p"
  by (rule doFetch_section_check_cases [OF assms]; simp)+

lemma doFetchE:
  assumes "doFetch p = Ok q"
  obtains p1 w k nxt where "doFetch_section_check p = Ok p1" and "im_getData ((instr_mem_unit p)\<lparr>im_address := pc_cur p\<rparr>) = Ok w"
    and "nxt = (if pc_r p then es_pc_de (ex_cur p) + pc_disp p else pc_cur p + 4)" and "unat nxt mod 4 = 0"
    and "q = p1\<lparr>instr_mem_unit := (instr_mem_unit p)\<lparr>im_address := pc_cur p\<rparr>,
      program_counter := set_next nxt (program_counter p1),
      decode_register := set_next ((de_next p1)\<lparr>ds_instr := w, ds_pc_de := pc_cur p\<rparr>) (decode_register p1),
      last_instructions_counter := k\<rparr>"
    and "k = (if last_instructions_flag p1 then last_instructions_counter p1 - 1 else last_instructions_counter p1)"
    and "last_instructions_flag p1 \<Longrightarrow> last_instructions_counter p1 \<noteq> 0"
proof -
  obtain p1 p2 p3 where 1: "doFetch_section_check p = Ok p1" and 2: "doFetch_next_pc p1 = Ok p2"
    and 3: "doFetch_instr p2 = Ok p3" and 4: "doFetch_countdown p3 = Ok q"
    using assms unfolding doFetch_def rbind_Ok_iff by blast
  note same = section_check_frame [OF 1]
  let ?nxt = "if pc_r p then es_pc_de (ex_cur p) + pc_disp p else pc_cur p + 4"
  have al: "unat ?nxt mod 4 = 0"
    and p2: "p2 = p1\<lparr>instr_mem_unit := (instr_mem_unit p)\<lparr>im_address := pc_cur p\<rparr>,
      program_counter := set_next ?nxt (program_counter p1)\<rparr>"
    using 2 by (simp_all add: same doFetch_next_pc_def Let_def Multiplexer2_def gate_Add_def split: if_split_asm)
  obtain w where w: "im_getData ((instr_mem_unit p)\<lparr>im_address := pc_cur p\<rparr>) = Ok w"
    and p3: "p3 = p2\<lparr>decode_register := set_next ((de_next p1)\<lparr>ds_instr := w, ds_pc_de := pc_cur p\<rparr>) (decode_register p1)\<rparr>"
    using 3 by (auto simp: same doFetch_instr_def rbind_Ok_iff eval_in_Ok_iff p2)
  have q: "q = p3\<lparr>last_instructions_counter := (if last_instructions_flag p1 then last_instructions_counter p1 - 1 else last_instructions_counter p1)\<rparr>"
    and cnt: "last_instructions_flag p1 \<Longrightarrow> last_instructions_counter p1 \<noteq> 0"
    using 4 by (simp_all add: doFetch_countdown_def p3 p2 split: if_split_asm)
  show thesis
    by (rule that [OF 1 w refl al _ refl cnt]) (simp_all add: q p3 p2)
qed

lemma doFetch_frame:
  assumes "doFetch p = Ok q"
  shows "ex_cur q = ex_cur p" "me_cur q = me_cur p" "wb_cur q = wb_cur p" "pc_cur q = pc_cur p"
    "enable_flag (write_back_register q) = enable_flag (write_back_register p)"
    "reg_file q = reg_file p" "control_unit q = control_unit p" "data_mem_unit q = data_mem_unit p"
    "bp_mem q = bp_mem p" "hu_rs1 q = hu_rs1 p" "hu_rs2 q = hu_rs2 p" "pc_r q = pc_r p" "pc_disp q = pc_disp p"
    "me_next q = me_next p" "wb_next q = wb_next p" "ex_next q = ex_next p" 
    "reg_next (program_counter q) = (if pc_r p then es_pc_de (ex_cur p) + pc_disp p else pc_cur p + 4)"
    "unat (reg_next (program_counter q)) mod 4 = 0"
  by (rule doFetchE [OF assms], erule doFetch_section_check_cases; simp add: Register_clear_def split del: if_split)+

lemma doFetch_inside:
  assumes "doFetch p = Ok q" and "\<not> isPcOutOfSection (instr_mem_unit p) (pc_cur p)"
  shows "de_cur q = de_cur p"
    "enable_flag (program_counter q) = enable_flag (program_counter p)"
    "enable_flag (decode_register q) = enable_flag (decode_register p)"
    "enable_flag (execute_register q) = enable_flag (execute_register p)"
    "enable_flag (memory_register q) = enable_flag (memory_register p)"
    "ds_pc_de (de_next q) = pc_cur p"
    "im_getData ((instr_mem_unit p)\<lparr>im_address := pc_cur p\<rparr>) = Ok (ds_instr (de_next q))"
  by (rule doFetchE [OF assms(1)], erule doFetch_section_check_cases; use assms(2) in \<open>simp split del: if_split\<close>)+

lemma pipeline_tickE:
  assumes "pipeline_tick p = Ok q"
  obtains p1 p2 p3 p4 where "doMemory p = Ok p1" "doExecute p1 = Ok p2" "doDecode p2 = Ok p3" "doFetch p3 = Ok p4"
    "q = tick_registers p4"
  using assms by (auto simp: pipeline_tick_def doWriteBack_def res_simps)

section \<open>The clock edge\<close>

text \<open>The hazard unit compares the source registers of the instruction entering execute.\<close>

abbreviation "bypass1 p \<equiv> select_bypass (me_cur p) (wb_cur p) (hasRs1 (cu_instr_type (control_unit p))) (getRs1 (es_instr (ex_cur p)))"
abbreviation "bypass2 p \<equiv> select_bypass (me_cur p) (wb_cur p) (hasRs2 (cu_instr_type (control_unit p))) (getRs2 (es_instr (ex_cur p)))"

definition waits_for_load :: "Pipeline \<Rightarrow> bool" where
  "waits_for_load p \<longleftrightarrow> snd (bypass1 p) \<or> snd (bypass2 p)"

lemma hazardUnitTick_jump:
  "pc_r p \<Longrightarrow> hazardUnitTick p = p\<lparr>decode_register := Register_clear DecodeState_of (decode_register p),
     execute_register := Register_clear ExecuteState_of (execute_register p)\<rparr>"
  by (simp add: hazardUnitTick_def)

lemma hazardUnitTick_no_jump:
  assumes "\<not> pc_r p"
  shows "hazardUnitTick p = p\<lparr>hu_rs1 := fst (bypass1 p), hu_rs2 := fst (bypass2 p),
      program_counter := set_enable (\<not> waits_for_load p) (program_counter p),
      decode_register := set_enable (\<not> waits_for_load p) (decode_register p),
      execute_register := set_enable (\<not> waits_for_load p) (execute_register p)\<rparr>"
proof -
  obtain b1 h1 where 1: "bypass1 p = (b1, h1)" by fastforce
  obtain b2 h2 where 2: "bypass2 p = (b2, h2)" by fastforce
  have w: "waits_for_load p \<longleftrightarrow> h1 \<or> h2" by (simp add: waits_for_load_def 1 2)
  show ?thesis
    unfolding w hazardUnitTick_def Let_def 1 2 prod.case if_not_P [OF assms] fst_conv
    by (cases h1; cases h2) (simp_all add: haltPipeline_def restartPipeline_def)
qed

lemma hazardUnitTick_form:
  obtains a b c d e where "hazardUnitTick p = p\<lparr>hu_rs1 := a, hu_rs2 := b, program_counter := c, decode_register := d, execute_register := e\<rparr>"
proof (cases "pc_r p")
  case True
  show thesis
    by (rule that [where a = "hu_rs1 p" and b = "hu_rs2 p" and c = "program_counter p"]) (simp add: hazardUnitTick_jump [OF True])
next
  case False
  show thesis by (rule that) (rule hazardUnitTick_no_jump [OF False])
qed

definition clocked :: "Pipeline \<Rightarrow> Pipeline" where
  "clocked p = p\<lparr>decode_register := Register_tick (decode_register p),
     execute_register := Register_tick (execute_register p),
     memory_register := Register_tick (if enable_flag (program_counter p) then memory_register p
       else Register_clear MemoryState_of (memory_register p)),
     write_back_register := Register_tick (write_back_register p),
     program_counter := Register_tick (program_counter p)\<rparr>"

lemma tick_registers_eq: "tick_registers p = (hazardUnitTick (clocked p))\<lparr>ticks_counter := ticks_counter p + 1\<rparr>"
proof -
  have "ticks_counter (hazardUnitTick q) = ticks_counter q" for q
    by (rule hazardUnitTick_form [of q]) simp
  moreover have "ticks_counter (clocked p) = ticks_counter p" by (simp add: clocked_def)
  moreover have "tick_registers p = (hazardUnitTick (clocked p))\<lparr>ticks_counter := ticks_counter (hazardUnitTick (clocked p)) + 1\<rparr>"
    by (cases "enable_flag (program_counter p)") (simp_all add: tick_registers_def Let_def tickStateRegisters_def clocked_def)
  ultimately show ?thesis by simp
qed

lemma tick_registers_flow:
  "pc_r (tick_registers p) = pc_r p" "reg_file (tick_registers p) = reg_file p"
  "data_mem_unit (tick_registers p) = data_mem_unit p" "pc_disp (tick_registers p) = pc_disp p"
  "control_unit (tick_registers p) = control_unit p" "instr_mem_unit (tick_registers p) = instr_mem_unit p"
  "enable_flag (write_back_register (tick_registers p)) = enable_flag (write_back_register p)"
  "last_instructions_flag (tick_registers p) = last_instructions_flag p"
  "ticks_counter (tick_registers p) = ticks_counter p + 1"
  "me_cur (tick_registers p) = me_cur (clocked p)" "wb_cur (tick_registers p) = wb_cur (clocked p)"
  unfolding tick_registers_eq
  by (rule hazardUnitTick_form [of "clocked p"]; simp; simp add: clocked_def Register_tick_def)+

lemma clocked_cur:
  "pc_r (clocked p) = pc_r p"
  "enable_flag (write_back_register p) \<Longrightarrow> wb_cur (clocked p) = wb_next p"
  "enable_flag (program_counter p) \<Longrightarrow> enable_flag (memory_register p) \<Longrightarrow> me_cur (clocked p) = me_next p"
  "\<not> enable_flag (program_counter p) \<Longrightarrow> me_cur (clocked p) = MemoryState_of 0"
  "ex_cur (clocked p) = (if enable_flag (execute_register p) then ex_next p else ex_cur p)"
  "de_cur (clocked p) = (if enable_flag (decode_register p) then de_next p else de_cur p)"
  "pc_cur (clocked p) = (if enable_flag (program_counter p) then reg_next (program_counter p) else pc_cur p)"
  "enable_flag (program_counter (clocked p)) = enable_flag (program_counter p)"
  by (simp_all add: clocked_def Register_tick_def Register_clear_def)

lemma tick_registers_jump:
  assumes "pc_r p"
  shows "ex_cur (tick_registers p) = ExecuteState_of 0" "de_cur (tick_registers p) = DecodeState_of 0"
    "enable_flag (program_counter (tick_registers p)) = enable_flag (program_counter p)"
    "enable_flag (program_counter p) \<Longrightarrow> pc_cur (tick_registers p) = reg_next (program_counter p)"
proof -
  have r: "pc_r (clocked p)" using assms by (simp add: clocked_cur)
  show "ex_cur (tick_registers p) = ExecuteState_of 0" "de_cur (tick_registers p) = DecodeState_of 0"
    "enable_flag (program_counter (tick_registers p)) = enable_flag (program_counter p)"
    "enable_flag (program_counter p) \<Longrightarrow> pc_cur (tick_registers p) = reg_next (program_counter p)"
    unfolding tick_registers_eq hazardUnitTick_jump [OF r]
    by (simp_all add: Register_clear_def clocked_cur)
qed

lemma tick_registers_no_jump:
  assumes "\<not> pc_r p"
  shows "ex_cur (tick_registers p) = ex_cur (clocked p)" "de_cur (tick_registers p) = de_cur (clocked p)"
    "pc_cur (tick_registers p) = pc_cur (clocked p)"
    "enable_flag (program_counter (tick_registers p)) \<longleftrightarrow> \<not> waits_for_load (tick_registers p)"
    "enable_flag (decode_register (tick_registers p)) \<longleftrightarrow> \<not> waits_for_load (tick_registers p)"
    "enable_flag (execute_register (tick_registers p)) \<longleftrightarrow> \<not> waits_for_load (tick_registers p)"
    "bypass_selected (tick_registers p)"
proof -
  have r: "\<not> pc_r (clocked p)" using assms by (simp add: clocked_cur)
  have w: "waits_for_load (tick_registers p) = waits_for_load (clocked p)"
    unfolding tick_registers_eq hazardUnitTick_no_jump [OF r] by (simp add: waits_for_load_def)
  show "bypass_selected (tick_registers p)"
    unfolding tick_registers_eq hazardUnitTick_no_jump [OF r] by (simp add: bypass_selected_def)
  show "ex_cur (tick_registers p) = ex_cur (clocked p)" "de_cur (tick_registers p) = de_cur (clocked p)"
    "pc_cur (tick_registers p) = pc_cur (clocked p)"
    "enable_flag (program_counter (tick_registers p)) \<longleftrightarrow> \<not> waits_for_load (tick_registers p)"
    "enable_flag (decode_register (tick_registers p)) \<longleftrightarrow> \<not> waits_for_load (tick_registers p)"
    "enable_flag (execute_register (tick_registers p)) \<longleftrightarrow> \<not> waits_for_load (tick_registers p)"
    unfolding w unfolding tick_registers_eq hazardUnitTick_no_jump [OF r] by simp_all
qed

section \<open>Ticks\<close>

lemma tick_jump:
  assumes "pipeline_tick p = Ok q" and "pc_r q" and "enable_flag (program_counter q)"
  shows "pc_cur q = es_pc_de (ex_cur p) + pc_disp q" and "unat (pc_cur q) mod 4 = 0"
    and "ex_cur q = ExecuteState_of 0" and "de_cur q = DecodeState_of 0"
    and "\<not> es_is_jalr (ex_cur p) \<Longrightarrow> pc_disp q = ImmediateExtensionBlock (es_instr (ex_cur p))"
    and "es_jmp_cond (ex_cur p) \<or> es_brn_cond (ex_cur p)"
proof -
  obtain p1 p2 p3 p4 where st: "doMemory p = Ok p1" "doExecute p1 = Ok p2" "doDecode p2 = Ok p3" "doFetch p3 = Ok p4"
    and q: "q = tick_registers p4"
    by (rule pipeline_tickE [OF assms(1)])
  note f = doMemory_frame [OF st(1)] doExecute_frame [OF st(2)] doDecode_frame [OF st(3)] doFetch_frame [OF st(4)]
  have r: "pc_r p4" using assms(2) by (simp only: q tick_registers_flow)
  have en: "enable_flag (program_counter p4)"
    using assms(3) by (simp only: q tick_registers_jump [OF r])
  have r3: "pc_r p3" using r by (simp only: f)
  have nxt: "reg_next (program_counter p4) = es_pc_de (ex_cur p3) + pc_disp p3"
    using doFetch_frame(17) [OF st(4)] r3 by simp
  have pc: "pc_cur q = es_pc_de (ex_cur p3) + pc_disp p3"
    unfolding q tick_registers_jump(4) [OF r en] by (rule nxt)
  show "pc_cur q = es_pc_de (ex_cur p) + pc_disp q"
    unfolding pc unfolding q tick_registers_flow by (simp only: f)
  show "unat (pc_cur q) mod 4 = 0"
    unfolding pc using doFetch_frame(18) [OF st(4)] by (simp only: nxt)
  show "ex_cur q = ExecuteState_of 0" "de_cur q = DecodeState_of 0"
    by (simp_all add: q tick_registers_jump [OF r])
  show "pc_disp q = ImmediateExtensionBlock (es_instr (ex_cur p))" if "\<not> es_is_jalr (ex_cur p)"
    using that by (simp add: q tick_registers_flow f)
  have "pc_r p2" using r3 by (simp only: f)
  then show "es_jmp_cond (ex_cur p) \<or> es_brn_cond (ex_cur p)"
    unfolding doExecute_frame(27) [OF st(2)] doMemory_frame [OF st(1)] by blast
qed

lemma tick_stall:
  assumes "pipeline_tick q = Ok r" and "enable_flag (write_back_register q)"
    and "\<not> enable_flag (program_counter q)" "\<not> enable_flag (decode_register q)" "\<not> enable_flag (execute_register q)"
    and "\<not> isPcOutOfSection (instr_mem_unit q) (pc_cur q)" and "\<not> pc_r r"
  shows "pc_cur r = pc_cur q" and "de_cur r = de_cur q" and "ex_cur r = ex_cur q"
    and "me_cur r = MemoryState_of 0" and "ws_wb_a (wb_cur r) = ucast (ms_wb_a (me_cur q))"
    and "ws_wb_we (wb_cur r) = ms_wb_we (me_cur q)"
    and "\<not> ms_mem_to_reg (me_cur q) \<Longrightarrow> dm_getData (data_mem_unit r) = Ok (ws_wb_d (wb_cur r))"
    and "bypass_selected r"
proof -
  obtain p1 p2 p3 p4 where st: "doMemory q = Ok p1" "doExecute p1 = Ok p2" "doDecode p2 = Ok p3" "doFetch p3 = Ok p4"
    and q: "r = tick_registers p4"
    by (rule pipeline_tickE [OF assms(1)])
  note f = doMemory_frame [OF st(1)] doExecute_frame [OF st(2)] doDecode_frame [OF st(3)] doFetch_frame [OF st(4)]
  have inside: "\<not> isPcOutOfSection (instr_mem_unit p3) (pc_cur p3)" using assms(6) by (simp only: f not_False_eq_True)
  note g = doFetch_inside [OF st(4) inside]
  have nr: "\<not> pc_r p4" using assms(7) by (simp only: q tick_registers_flow not_False_eq_True)
  have dis: "\<not> enable_flag (program_counter p4)" "\<not> enable_flag (decode_register p4)" "\<not> enable_flag (execute_register p4)"
    "enable_flag (write_back_register p4)"
    using assms(2-5) by (simp_all only: f g not_False_eq_True)
  show "pc_cur r = pc_cur q" "de_cur r = de_cur q" "ex_cur r = ex_cur q"
    unfolding q tick_registers_no_jump [OF nr] clocked_cur if_not_P [OF dis(1)] if_not_P [OF dis(2)]
      if_not_P [OF dis(3)] by (simp_all only: f g)
  show "me_cur r = MemoryState_of 0" unfolding q tick_registers_flow by (rule clocked_cur(4) [OF dis(1)])
  have wb: "wb_cur r = wb_next p4" unfolding q tick_registers_flow by (rule clocked_cur(2) [OF dis(4)])
  show "ws_wb_a (wb_cur r) = ucast (ms_wb_a (me_cur q))" "ws_wb_we (wb_cur r) = ms_wb_we (me_cur q)"
    by (simp_all only: wb f)
  show "dm_getData (data_mem_unit r) = Ok (ws_wb_d (wb_cur r))" if "\<not> ms_mem_to_reg (me_cur q)"
    unfolding wb unfolding q tick_registers_flow
    using that by (simp add: f)
  show "bypass_selected r" unfolding q by (rule tick_registers_no_jump(7) [OF nr])
qed

section \<open>Commits\<close>

lemma memory_access_commit:
  assumes "memory_access p = Ok p1"
  shows "\<not> ms_mem_we (me_cur p) \<Longrightarrow> dm_memory (data_mem_unit p1) = dm_memory (data_mem_unit p)"
    and "ms_mem_we (me_cur p) \<Longrightarrow> mode_width (ms_store_mode (me_cur p)) = Some w \<Longrightarrow>
      b < unat (ms_alu_res (me_cur p)) \<or> unat (ms_alu_res (me_cur p)) + w \<le> b \<Longrightarrow>
      dm_memory (data_mem_unit p1) b = dm_memory (data_mem_unit p) b"
proof -
  show "dm_memory (data_mem_unit p1) = dm_memory (data_mem_unit p)" if "\<not> ms_mem_we (me_cur p)"
    using assms that
    by (auto simp: memory_access_def Let_def lift_part_Ok_iff dm_tick_def rbind_Ok_iff split: if_split_asm)
  show "dm_memory (data_mem_unit p1) b = dm_memory (data_mem_unit p) b"
    if we: "ms_mem_we (me_cur p)" and "mode_width (ms_store_mode (me_cur p)) = Some w"
      and "b < unat (ms_alu_res (me_cur p)) \<or> unat (ms_alu_res (me_cur p)) + w \<le> b"
  proof -
    let ?d = "(data_mem_unit p)\<lparr>dm_store_mode := ms_store_mode (me_cur p), dm_write_enable := ms_mem_we (me_cur p),
                     dm_address := ms_alu_res (me_cur p), dm_write_data := ms_write_data (me_cur p)\<rparr>"
    obtain d where d: "dm_tick ?d = Ok d" and p1: "p1 = p\<lparr>data_mem_unit := d\<rparr>"
      using assms we by (auto simp: memory_access_def Let_def lift_part_Ok_iff)
    have "dm_memory d b = dm_memory ?d b"
      by (rule dm_store_frame [OF d, of w]) (use that we in simp_all)
    then show ?thesis by (simp add: p1)
  qed
qed

lemma tick_commits:
  assumes "pipeline_tick p = Ok q" and "pipeline_wf p"
  shows "rf_regs (reg_file q) = wb_regs p"
    and "\<not> ms_mem_we (me_cur p) \<Longrightarrow> dm_memory (data_mem_unit q) = dm_memory (data_mem_unit p)"
    and "ms_mem_we (me_cur p) \<Longrightarrow> mode_width (ms_store_mode (me_cur p)) = Some w \<Longrightarrow>
      b < unat (ms_alu_res (me_cur p)) \<or> unat (ms_alu_res (me_cur p)) + w \<le> b \<Longrightarrow>
      dm_memory (data_mem_unit q) b = dm_memory (data_mem_unit p) b"
proof -
  obtain p1 p2 p3 p4 where st: "doMemory p = Ok p1" "doExecute p1 = Ok p2" "doDecode p2 = Ok p3" "doFetch p3 = Ok p4"
    and q: "q = tick_registers p4"
    by (rule pipeline_tickE [OF assms(1)])
  note f = doMemory_frame(1-16) [OF st(1)] doExecute_frame(1-20) [OF st(2)] doDecode_frame(1-13) [OF st(3)]
    doFetch_frame(1-9) [OF st(4)]
  have "rf_ok (reg_file p2)" "unat (ws_wb_a (wb_cur p2)) < 32"
    using assms(2) by (simp_all add: f pipeline_wf_def)
  moreover obtain c where "cu_tick (decode_set_control (ds_instr (de_cur p2)) (control_unit p2)) = Ok c"
    by (rule doDecodeE [OF st(3)])
  ultimately obtain r where "doDecode p2 = Ok (p2\<lparr>reg_file := r, control_unit := c, execute_register :=
      set_next (decode_result (de_cur p2) (pc_r p2) c r (ex_next p2)) (execute_register p2)\<rparr>)" and r: "rf_regs r = wb_regs p2"
    by (metis doDecode_plain)
  with st(3) have "reg_file p3 = r" by auto
  moreover have "wb_regs p2 = wb_regs p" by (simp add: wb_regs_def f)
  ultimately show "rf_regs (reg_file q) = wb_regs p"
    using r by (simp add: q tick_registers_flow f)
  obtain d v where mem: "memory_access p = Ok (p\<lparr>data_mem_unit := d\<rparr>)" and "data_mem_unit p1 = d"
    by (rule doMemoryE [OF st(1)]) simp
  then have d: "data_mem_unit q = d" by (simp add: q tick_registers_flow f)
  show "dm_memory (data_mem_unit q) = dm_memory (data_mem_unit p)" if "\<not> ms_mem_we (me_cur p)"
    using memory_access_commit(1) [OF mem] that by (simp add: d)
  show "dm_memory (data_mem_unit q) b = dm_memory (data_mem_unit p) b"
    if "ms_mem_we (me_cur p)" "mode_width (ms_store_mode (me_cur p)) = Some w"
      "b < unat (ms_alu_res (me_cur p)) \<or> unat (ms_alu_res (me_cur p)) + w \<le> b"
    using memory_access_commit(2) [OF mem, of w b] that by (simp add: d)
qed

section \<open>Undefined behaviour\<close>

definition dm_safe :: "DataMemUnit \<Rightarrow> bool" where
  "dm_safe d \<longleftrightarrow> (\<forall>w. mode_width (dm_store_mode d) = Some w \<longrightarrow>
     16384 < unat (dm_address d) \<or> unat (dm_address d) + w \<le> 16384 \<and> unat (dm_address d) mod w = 0)"

lemma dm_safe_not_UB:
  assumes "dm_safe d"
  shows "dm_getData d \<noteq> UB" and "dm_tick d \<noteq> UB" and "dm_tick d = Ok d' \<Longrightarrow> dm_safe d'"
proof -
  show "dm_getData d \<noteq> UB" using assms by (auto simp: dm_getData_UB_iff dm_safe_def)
  then show "dm_tick d \<noteq> UB" using assms
    by (auto simp: dm_tick_def dm_safe_def storeValue_def Let_def mode_simps rbind_UB_iff eval_in_UB_iff)
  show "dm_tick d = Ok d' \<Longrightarrow> dm_safe d'" using assms
    by (auto simp: dm_tick_def dm_safe_def storeValue_def Let_def mode_simps rbind_Ok_iff split: if_split_asm)
qed

text \<open>The accesses of a tick: the one the memory stage makes and, when it makes none, the last one.\<close>

definition memory_safe :: "Pipeline \<Rightarrow> bool" where
  "memory_safe p \<longleftrightarrow>
     (if \<not> ms_mem_to_reg (me_cur p) \<or> ms_mem_we (me_cur p)
      then dm_safe ((data_mem_unit p)\<lparr>dm_store_mode := ms_store_mode (me_cur p), dm_address := ms_alu_res (me_cur p)\<rparr>)
      else dm_safe (data_mem_unit p))"

lemma doMemory_not_UB:
  assumes "memory_safe p"
  shows "doMemory p \<noteq> UB"
proof (cases "\<not> ms_mem_to_reg (me_cur p) \<or> ms_mem_we (me_cur p)")
  case True
  let ?d = "(data_mem_unit p)\<lparr>dm_store_mode := ms_store_mode (me_cur p), dm_write_enable := ms_mem_we (me_cur p),
                     dm_address := ms_alu_res (me_cur p), dm_write_data := ms_write_data (me_cur p)\<rparr>"
  have "dm_safe ?d" using assms True by (simp add: memory_safe_def dm_safe_def)
  note safe = dm_safe_not_UB [OF this]
  have "memory_access p = lift_part (\<lambda>d. p\<lparr>data_mem_unit := d\<rparr>) (dm_tick ?d)"
    using True by (simp add: memory_access_def Let_def)
  then show ?thesis
    using safe dm_safe_not_UB(1) by (auto simp: doMemory_def Let_def rbind_UB_iff lift_part_UB_iff lift_part_Ok_iff eval_in_UB_iff)
next
  case False
  then show ?thesis
    using assms dm_safe_not_UB(1) [of "data_mem_unit p"]
    by (simp add: doMemory_def Let_def memory_access_def memory_safe_def rbind_UB_iff eval_in_UB_iff)
qed

lemma doExecute_not_UB: "doExecute p \<noteq> UB"
  by (simp add: doExecute_def Let_def rbind_UB_iff eval_in_UB_iff execute_src_a_def execute_rs2v_def
      Multiplexer3_not_UB Cmp_not_UB ALU_not_UB)

lemma doDecode_not_UB: "doDecode p \<noteq> UB"
  by (simp add: doDecode_def Let_def rbind_UB_iff lift_part_UB_iff rf_tick_not_UB cu_tick_not_UB)

lemma doFetch_not_UB:
  assumes "unat (pc_cur p) + 4 \<le> 4096" and "unat (pc_cur p) mod 4 = 0"
  shows "doFetch p \<noteq> UB"
proof -
  have 1: "doFetch_section_check p \<noteq> UB" by (simp add: doFetch_section_check_def Let_def)
  have 2: "doFetch_next_pc q \<noteq> UB" for q by (simp add: doFetch_next_pc_def Let_def)
  have 4: "doFetch_countdown q \<noteq> UB" for q by (simp add: doFetch_countdown_def)
  have 3: "doFetch_instr q' \<noteq> UB" if "doFetch_section_check p = Ok q" "doFetch_next_pc q = Ok q'" for q q'
  proof -
    have "im_address (instr_mem_unit q') = pc_cur p"
      using that(2) section_check_frame(4) [OF that(1)] by (auto simp: doFetch_next_pc_def Let_def split: if_split_asm)
    with assms show ?thesis by (simp add: doFetch_instr_def rbind_UB_iff eval_in_UB_iff im_getData_def im_capacity_def)
  qed
  show ?thesis
    using 1 2 3 4 by (simp add: doFetch_def rbind_UB_iff)
qed

lemma tick_not_UB:
  assumes "memory_safe p" and "unat (pc_cur p) + 4 \<le> 4096" and "unat (pc_cur p) mod 4 = 0"
  shows "pipeline_tick p \<noteq> UB"
proof -
  have "doFetch p3 \<noteq> UB" if "doMemory p = Ok p1" "doExecute p1 = Ok p2" "doDecode p2 = Ok p3" for p1 p2 p3
    by (rule doFetch_not_UB)
      (use assms(2,3) in \<open>simp_all add: doMemory_frame(5) [OF that(1)] doExecute_frame(5) [OF that(2)] doDecode_frame(5) [OF that(3)]\<close>)
  then show ?thesis
    using doMemory_not_UB [OF assms(1)] doExecute_not_UB doDecode_not_UB
    by (simp add: pipeline_tick_def doWriteBack_def rbind_UB_iff)
qed

section \<open>Faults\<close>

definition instr_fault :: "u32 \<Rightarrow> rv_exception \<Rightarrow> bool" where
  "instr_fault i e \<longleftrightarrow>
     (\<exists>m. e = UnsupportedException m) \<and> (getOpcode i = 0b0001111 \<or> getOpcode i = 0b1110011 \<and> getFunct3 i \<noteq> 0)
     \<or> e = EbreakException \<and> getOpcode i = 0b1110011 \<and> getFunct3 i = 0
     \<or> (\<exists>m. e = InvalidArgument m) \<and> getOpcode i \<in> {0b0110011, 0b0010011} \<and> getFunct3 i \<in> {0, 1, 5} \<and> getFunct7 i \<noteq> 0
     \<or> (\<exists>m. e = LogicError m) \<and> getOpcode i = 0b1100011 \<and> getFunct3 i \<in> {2, 3}"

definition data_fault :: "DataMemUnit \<Rightarrow> rv_exception \<Rightarrow> bool" where
  "data_fault d e \<longleftrightarrow>
     (\<exists>m. e = InvalidAddressException m) \<and> 16384 < unat (dm_address d)
     \<or> e = LogicError (''invalid funct3: '' @ to_string (unat (dm_store_mode d))) \<and> mode_width (dm_store_mode d) = None"

lemma dm_getData_fault: "dm_getData d = Err e \<Longrightarrow> data_fault d e"
  by (auto simp: dm_getData_def loadValue_def Let_def data_fault_def mode_simps split: if_split_asm)

lemma dm_tick_fault: "dm_tick d = Err (e, d') \<Longrightarrow> data_fault d e"
  using dm_getData_fault [of d e]
  by (auto simp: dm_tick_def storeValue_def Let_def rbind_Err_iff eval_in_Err_iff data_fault_def mode_simps split: if_split_asm)

lemma dm_tick_same:
  "dm_tick d = Ok d' \<Longrightarrow> dm_address d' = dm_address d \<and> dm_store_mode d' = dm_store_mode d"
  by (auto simp: dm_tick_def storeValue_def Let_def rbind_Ok_iff eval_in_Ok_iff mode_simps split: if_split_asm)

definition accessed :: "Pipeline \<Rightarrow> DataMemUnit" where
  "accessed p =
     (if \<not> ms_mem_to_reg (me_cur p) \<or> ms_mem_we (me_cur p)
      then (data_mem_unit p)\<lparr>dm_store_mode := ms_store_mode (me_cur p), dm_write_enable := ms_mem_we (me_cur p),
             dm_address := ms_alu_res (me_cur p), dm_write_data := ms_write_data (me_cur p)\<rparr>
      else data_mem_unit p)"

lemma doMemory_fault:
  assumes "doMemory p = Err (e, q)"
  shows "data_fault (accessed p) e"
proof (cases "\<not> ms_mem_to_reg (me_cur p) \<or> ms_mem_we (me_cur p)")
  case True
  then have mem: "memory_access p = lift_part (\<lambda>d. p\<lparr>data_mem_unit := d\<rparr>) (dm_tick (accessed p))"
    by (simp add: memory_access_def accessed_def Let_def)
  from assms consider (wr) p1 where "memory_access p = Err (e, p1)"
    | (rd) p1 where "memory_access p = Ok p1" "dm_getData (data_mem_unit p1) = Err e"
    by (auto simp: doMemory_def Let_def rbind_Err_iff eval_in_Err_iff)
  then show ?thesis
  proof cases
    case wr
    then show ?thesis using dm_tick_fault by (auto simp: mem lift_part_Err_iff)
  next
    case rd
    then obtain d where "dm_tick (accessed p) = Ok d" "dm_getData d = Err e"
      by (auto simp: mem lift_part_Ok_iff)
    then show ?thesis
      using dm_getData_fault [of d e] dm_tick_same [of "accessed p" d] by (simp add: data_fault_def)
  qed
next
  case False
  then show ?thesis
    using assms dm_getData_fault
    by (auto simp: doMemory_def Let_def memory_access_def accessed_def rbind_Err_iff eval_in_Err_iff)
qed

lemma doExecute_no_fault:
  assumes "es_enum (ex_cur p)"
  shows "doExecute p \<noteq> Err x"
proof -
  have "execute_src_a p \<noteq> Err y" "execute_rs2v p \<noteq> Err y" for y
    by (cases "hu_rs1 p"; simp add: execute_src_a_def Multiplexer3_def) (cases "hu_rs2 p"; simp add: execute_rs2v_def Multiplexer3_def)
  moreover have "Cmp (es_cmp_control (ex_cur p)) a b \<noteq> Err y" "ALU (es_alu_op (ex_cur p)) a b \<noteq> Err y" for a b y
    using assms by (cases "es_cmp_control (ex_cur p)"; simp add: es_enum_def) (cases "es_alu_op (ex_cur p)"; use assms in \<open>simp add: es_enum_def\<close>)
  ultimately show ?thesis
    by (cases x) (simp add: doExecute_def Let_def rbind_Err_iff eval_in_Err_iff)
qed

lemma cu_select_alu_op_fault:
  "cu_select_alu_op opc f3 f7 t = Err e \<Longrightarrow>
   (\<exists>m. e = InvalidArgument m) \<and> opc \<in> {0b0110011, 0b0010011} \<and> (f3 \<in> {0, 1, 5} \<and> f7 \<noteq> 0 \<or> f3 \<notin> {0, 1, 2, 3, 4, 5, 6, 7})"
  by (auto simp: cu_select_alu_op_def split: if_split_asm)

lemma cu_select_cmp_fault:
  "cu_select_cmp opc f3 = Err e \<Longrightarrow> (\<exists>m. e = LogicError m) \<and> opc = 0b1100011 \<and> f3 \<notin> {0, 1, 4, 5, 6, 7}"
  by (auto simp: cu_select_cmp_def split: if_split_asm)

lemma cu_tick_fault:
  assumes "cu_tick (decode_set_control i c) = Err (e, c')"
  shows "instr_fault i e"
proof -
  let ?t = "getInstructionType (getOpcode i)"
  consider "getOpcode i = 0b0001111 \<or> getOpcode i = 0b1110011"
    | "cu_select_alu_op (getOpcode i) (getFunct3 i) (getFunct7 i) ?t = Err e"
    | "cu_select_cmp (getOpcode i) (getFunct3 i) = Err e"
    using assms by (cases "getOpcode i = 0b0001111 \<or> getOpcode i = 0b1110011")
      (auto simp: cu_tick_def Let_def decode_set_control_def rbind_Err_iff eval_in_Err_iff)
  then show ?thesis
  proof cases
    case 1
    then show ?thesis
      using assms by (cases "getOpcode i = 0b0001111"; cases "getFunct3 i = 0")
        (auto simp: instr_fault_def cu_tick_def Let_def decode_set_control_def)
  next
    case 2
    then show ?thesis
      using cu_select_alu_op_fault [OF 2] getFunct3_cases [of i] by (auto simp: instr_fault_def)
  next
    case 3
    then show ?thesis
      using cu_select_cmp_fault [OF 3] getFunct3_cases [of i] by (auto simp: instr_fault_def)
  qed
qed

lemma rf_tick_no_fault:
  assumes "rf_ok r" and "unat (rf_address1 r) < 32" and "unat (rf_address2 r) < 32" and "unat (rf_address3 r) < 32"
  shows "rf_tick r \<noteq> Err x"
  using rf_tick_eq [OF assms(1-3)] assms(4) by simp

lemma doDecode_fault:
  assumes "doDecode p = Err (e, q)" and "rf_ok (reg_file p)" and "unat (ws_wb_a (wb_cur p)) < 32"
  shows "instr_fault (ds_instr (de_cur p)) e"
proof -
  have "rf_tick (decode_set_regs p) \<noteq> Err x" for x
    by (rule rf_tick_no_fault) (use assms in \<open>simp_all add: decode_set_regs_def setNewSignals_def rf_ok_def\<close>)
  with assms(1) show ?thesis
    by (auto simp: doDecode_def Let_def rbind_Err_iff lift_part_Err_iff lift_part_Ok_iff intro: cu_tick_fault)
qed

text \<open>The next program counter, as fetch computes it after the execute stage.\<close>

definition next_pc :: "Pipeline \<Rightarrow> u32" where
  "next_pc p = (if pc_r p then es_pc_de (ex_cur p) + pc_disp p else pc_cur p + 4)"

definition fetch_fault :: "Pipeline \<Rightarrow> rv_exception \<Rightarrow> bool" where
  "fetch_fault p e \<longleftrightarrow>
     e = LogicError ''out_of_instr_section'' \<and>
       (last_instructions_flag p \<and> last_instructions_counter p = 0
        \<or> \<not> last_instructions_flag p \<and> isPcOutOfSection (instr_mem_unit p) (pc_cur p) \<and> pc_r p \<and> \<not> ms_jmp_cond (me_cur p)
            \<and> \<not> es_jmp_cond (ex_next p) \<and> \<not> es_brn_cond (ex_next p))
     \<or> e = AlignmentException (''pc is not aligned: pc_next == '' @ to_string (unat (next_pc p))) \<and> unat (next_pc p) mod 4 \<noteq> 0"

lemma section_check_kept:
  assumes "doFetch_section_check p = Ok q"
  shows "pc_r q = pc_r p" "es_pc_de (ex_cur q) = es_pc_de (ex_cur p)" "pc_disp q = pc_disp p" "pc_cur q = pc_cur p"
    and "last_instructions_flag q \<Longrightarrow> last_instructions_counter q = 0 \<Longrightarrow>
           last_instructions_flag p \<and> last_instructions_counter p = 0"
  using assms by (auto simp: doFetch_section_check_def Let_def split: if_split_asm)

lemma doFetch_fault:
  assumes "doFetch p = Err (e, q)"
  shows "fetch_fault p e"
proof -
  consider (check) "doFetch_section_check p = Err (e, q)"
    | (pc) p1 where "doFetch_section_check p = Ok p1" "doFetch_next_pc p1 = Err (e, q)" | (instr) p2 where "doFetch_instr p2 = Err (e, q)"
    | (count) p1 p2 p3 where "doFetch_section_check p = Ok p1" "doFetch_next_pc p1 = Ok p2" "doFetch_instr p2 = Ok p3"
        "doFetch_countdown p3 = Err (e, q)"
    using assms unfolding doFetch_def rbind_Err_iff by blast
  then show ?thesis
  proof cases
    case check
    then show ?thesis by (auto simp: doFetch_section_check_def Let_def fetch_fault_def split: if_split_asm)
  next
    case pc
    have "next_pc p1 = next_pc p" by (simp add: next_pc_def section_check_kept(1-4) [OF pc(1)])
    with pc(2) show ?thesis
      by (auto simp: doFetch_next_pc_def Let_def fetch_fault_def next_pc_def Multiplexer2_def gate_Add_def split: if_split_asm)
  next
    case instr
    then show ?thesis by (simp add: doFetch_instr_def rbind_Err_iff eval_in_Err_iff im_getData_def split: if_split_asm)
  next
    case count
    then have "e = LogicError ''out_of_instr_section''" and "last_instructions_flag p3" "last_instructions_counter p3 = 0"
      by (simp_all add: doFetch_countdown_def split: if_split_asm)
    moreover have "last_instructions_flag p3 = last_instructions_flag p1" "last_instructions_counter p3 = last_instructions_counter p1"
      using count(2,3) by (auto simp: doFetch_next_pc_def doFetch_instr_def Let_def rbind_Ok_iff split: if_split_asm)
    ultimately show ?thesis
      using section_check_kept(5) [OF count(1)] by (simp add: fetch_fault_def)
  qed
qed

text \<open>The state in which a tick fetches: after its memory, execute and decode stages.\<close>

definition at_fetch :: "Pipeline \<Rightarrow> Pipeline \<Rightarrow> bool" where
  "at_fetch p s \<longleftrightarrow> (\<exists>p1 p2. doMemory p = Ok p1 \<and> doExecute p1 = Ok p2 \<and> doDecode p2 = Ok s)"

lemma tick_fault:
  assumes "pipeline_tick p = Err (e, q)" and "pipeline_wf p"
  shows "data_fault (accessed p) e \<or> instr_fault (ds_instr (de_cur p)) e \<or> (\<exists>s. at_fetch p s \<and> fetch_fault s e)"
proof -
  consider (mem) "doMemory p = Err (e, q)"
    | (ex) p1 where "doMemory p = Ok p1" "doExecute p1 = Err (e, q)"
    | (de) p1 p2 where "doMemory p = Ok p1" "doExecute p1 = Ok p2" "doDecode p2 = Err (e, q)"
    | (fe) p1 p2 p3 where "doMemory p = Ok p1" "doExecute p1 = Ok p2" "doDecode p2 = Ok p3" "doFetch p3 = Err (e, q)"
    using assms(1) unfolding pipeline_tick_def doWriteBack_def rbind.simps rbind_Err_iff by blast
  then show ?thesis
  proof cases
    case mem
    then show ?thesis by (simp add: doMemory_fault)
  next
    case ex
    have "es_enum (ex_cur p1)" using assms(2) by (simp add: doMemory_frame(1) [OF ex(1)] pipeline_wf_def)
    with ex(2) show ?thesis by (simp add: doExecute_no_fault)
  next
    case de
    note f = doMemory_frame(1-16) [OF de(1)] doExecute_frame(1-20) [OF de(2)]
    have "instr_fault (ds_instr (de_cur p2)) e"
      by (rule doDecode_fault [OF de(3)]) (use assms(2) in \<open>simp_all add: f pipeline_wf_def\<close>)
    then show ?thesis by (simp add: f)
  next
    case fe
    have "fetch_fault p3 e" by (rule doFetch_fault [OF fe(4)])
    then show ?thesis using fe(1-3) unfolding at_fetch_def by blast
  qed
qed

lemma tick_store_width:
  assumes "pipeline_tick p = Ok q" and "ms_mem_we (me_cur p)" and "dm_memory (data_mem_unit q) a \<noteq> dm_memory (data_mem_unit p) a"
  shows "\<exists>w. mode_width (ms_store_mode (me_cur p)) = Some w"
proof -
  obtain p1 p2 p3 p4 where st: "doMemory p = Ok p1" "doExecute p1 = Ok p2" "doDecode p2 = Ok p3" "doFetch p3 = Ok p4"
    and q: "q = tick_registers p4"
    by (rule pipeline_tickE [OF assms(1)])
  obtain d v where mem: "memory_access p = Ok (p\<lparr>data_mem_unit := d\<rparr>)" and d1: "dm_getData d = Ok v" and "data_mem_unit p1 = d"
    by (rule doMemoryE [OF st(1)]) simp
  have "mode_width (dm_store_mode d) \<noteq> None"
    using d1 by (auto simp: dm_getData_def loadValue_def Let_def mode_simps split: if_split_asm)
  moreover obtain s where s: "dm_tick (accessed p) = Ok s" and "p\<lparr>data_mem_unit := d\<rparr> = p\<lparr>data_mem_unit := s\<rparr>"
    using mem assms(2) by (auto simp: memory_access_def accessed_def Let_def lift_part_Ok_iff)
  then have "d = s" by (metis Pipeline.ext_inject Pipeline.surjective Pipeline.update_convs(10))
  then have "dm_store_mode d = ms_store_mode (me_cur p)"
    using dm_tick_same [OF s] assms(2) by (simp add: accessed_def)
  ultimately show ?thesis by auto
qed

section \<open>After the end of the section\<close>

text \<open>Once the end of the section has been seen, every tick that returns counts down.\<close>

lemma tick_counts_down:
  assumes "pipeline_tick p = Ok q" and "last_instructions_flag p"
  shows "last_instructions_flag q" and "last_instructions_counter p \<noteq> 0"
    and "last_instructions_counter q = last_instructions_counter p - 1"
proof -
  obtain p1 p2 p3 p4 where st: "doMemory p = Ok p1" "doExecute p1 = Ok p2" "doDecode p2 = Ok p3" "doFetch p3 = Ok p4"
    and q: "q = tick_registers p4"
    by (rule pipeline_tickE [OF assms(1)])
  have p3: "last_instructions_flag p3" "last_instructions_counter p3 = last_instructions_counter p"
    using assms(2) by (simp_all only: doMemory_frame(17,19) [OF st(1)] doExecute_frame(17,21) [OF st(2)] doDecode_frame(18,22) [OF st(3)])
  then have "doFetch_section_check p3 = Ok p3" by (simp add: doFetch_section_check_def)
  then have "last_instructions_flag p4 \<and> last_instructions_counter p3 \<noteq> 0 \<and>
      last_instructions_counter p4 = last_instructions_counter p3 - 1"
    by (rule_tac doFetchE [OF st(4)]) (use p3 in simp)
  have "last_instructions_counter (hazardUnitTick x) = last_instructions_counter x" for x
    by (rule hazardUnitTick_form [of x]) simp
  then have "last_instructions_counter q = last_instructions_counter p4"
    unfolding q tick_registers_eq by (simp add: clocked_def)
  with p3 \<open>last_instructions_flag p4 \<and> _\<close> show "last_instructions_flag q" "last_instructions_counter p \<noteq> 0"
      "last_instructions_counter q = last_instructions_counter p - 1"
    by (simp_all add: q tick_registers_flow)
qed

lemma countdown_ends:
  assumes "last_instructions_flag p" and "0 \<le> last_instructions_counter p" and "nat (last_instructions_counter p) < fuel"
  shows "\<exists>r. pipeline_run fuel p = Some r"
  using assms
proof (induction fuel arbitrary: p)
  case (Suc fuel)
  show ?case
  proof (cases "pipeline_tick p")
    case (Ok q)
    note t = tick_counts_down [OF Ok Suc.prems(1)]
    have "\<exists>r. pipeline_run fuel q = Some r"
      by (rule Suc.IH) (use t Suc.prems in auto)
    with Ok show ?thesis by simp
  qed (auto split: prod.split)
qed simp

end
