(* ===== verification/RV_Eval.thy ===== *)
theory RV_Eval
  imports RV_Hazards
begin

text \<open>
  Evaluation of the pipeline inside the kernel: code equations that compare addresses as
  integers, so that the bounds are not written in unary, and that name the continuation
  of each stage, so that the simplifier meets it only with an evaluated pipeline.
\<close>

section \<open>Code equations\<close>

lemma unat_bound_code:
  "unat (a :: u32) + n \<le> dm_bytes \<longleftrightarrow> uint a + int n \<le> 16384"
  "unat a + n \<le> im_capacity * 4 \<longleftrightarrow> uint a + int n \<le> 4096"
  "dm_capacity * 4 < unat a \<longleftrightarrow> 16384 < uint a"
  "unat a mod 2 = 0 \<longleftrightarrow> uint a mod 2 = 0"
  "unat a mod 4 = 0 \<longleftrightarrow> uint a mod 4 = 0"
  "unat a div 4 + m > im_capacity \<longleftrightarrow> uint a div 4 + int m > 1024"
proof -
  have a: "uint a = int (unat a)" by (rule uint_nat)
  show "unat a + n \<le> dm_bytes \<longleftrightarrow> uint a + int n \<le> 16384" "unat a + n \<le> im_capacity * 4 \<longleftrightarrow> uint a + int n \<le> 4096"
    "dm_capacity * 4 < unat a \<longleftrightarrow> 16384 < uint a"
    unfolding a dm_bytes_eq im_capacity_def by linarith+
  have "int (unat a) mod 2 = int (unat a mod 2)" "int (unat a) mod 4 = int (unat a mod 4)" "int (unat a) div 4 = int (unat a div 4)"
    by (simp_all only: zmod_int zdiv_int of_nat_numeral)
  then show "unat a mod 2 = 0 \<longleftrightarrow> uint a mod 2 = 0" "unat a mod 4 = 0 \<longleftrightarrow> uint a mod 4 = 0" "unat a div 4 + m > im_capacity \<longleftrightarrow> uint a div 4 + int m > 1024"
    unfolding a im_capacity_def by linarith+
qed

lemma unat_mod_1_code: "(unat (a :: u32) mod 1 = 0) = True"
  by simp

lemmas bound_code = unat_bound_code unat_mod_1_code not_True_eq_False if_False

declare storeValue_def [unfolded Let_def bound_code, code]
declare loadValue_def [unfolded Let_def bound_code, code]
declare dm_getData_def [unfolded bound_code, code]
declare dm_tick_def [unfolded bound_code, code]
declare im_getData_def [unfolded bound_code, code]
declare InstrMemUnit_ctor_def [unfolded bound_code, code]
declare doFetch_next_pc_def [unfolded bound_code, code]
text \<open>The continuations of the stages by name.\<close>

definition after_decode :: pipeline_step where
  "after_decode p = (case doFetch p of Ok q \<Rightarrow> Ok (tick_registers q) | Err e \<Rightarrow> Err e | UB \<Rightarrow> UB)"

definition after_execute :: pipeline_step where "after_execute p = rbind (doDecode p) after_decode"
definition after_memory :: pipeline_step where "after_memory p = rbind (doExecute p) after_execute"

lemma pipeline_tick_code [code]: "pipeline_tick p = rbind (doMemory p) after_memory"
proof -
  have 3: "(\<lambda>p. rbind (doFetch p) (\<lambda>p. Ok (tick_registers p))) = after_decode"
    by (rule ext) (simp add: after_decode_def split: res.split)
  have 2: "(\<lambda>p. rbind (doDecode p) after_decode) = after_execute"
    by (simp add: fun_eq_iff after_execute_def)
  have 1: "(\<lambda>p. rbind (doExecute p) after_execute) = after_memory"
    by (simp add: fun_eq_iff after_memory_def)
  show ?thesis
    unfolding pipeline_tick_def doWriteBack_def rbind.simps 3 2 1 ..
qed

definition with_bypasses :: "BypassOptionsEncoding \<times> bool \<Rightarrow> BypassOptionsEncoding \<times> bool \<Rightarrow> Pipeline \<Rightarrow> Pipeline" where
  "with_bypasses b1 b2 p = p\<lparr>hu_rs1 := fst b1, hu_rs2 := fst b2,
      program_counter := set_enable (\<not> (snd b1 \<or> snd b2)) (program_counter p),
      decode_register := set_enable (\<not> (snd b1 \<or> snd b2)) (decode_register p),
      execute_register := set_enable (\<not> (snd b1 \<or> snd b2)) (execute_register p)\<rparr>"

lemma hazardUnitTick_code [code]:
  "hazardUnitTick p =
     (if pc_r p then p\<lparr>decode_register := Register_clear DecodeState_of (decode_register p),
         execute_register := Register_clear ExecuteState_of (execute_register p)\<rparr>
      else with_bypasses (bypass1 p) (bypass2 p) p)"
  unfolding with_bypasses_def
  using hazardUnitTick_jump [of p] hazardUnitTick_no_jump [of p, unfolded waits_for_load_def]
  by (cases "pc_r p") (simp_all only: if_True if_False not_True_eq_False not_False_eq_True)

declare tick_registers_eq [code]


section \<open>Concrete runs\<close>

definition state_after :: "nat \<Rightarrow> u32 list \<Rightarrow> Pipeline option" where
  "state_after n ws =
     (case boot CMP_NOP UNKNOWN ws 0 of
        Ok p \<Rightarrow> (case pipeline_ticks n p of Ok q \<Rightarrow> Some q | Err _ \<Rightarrow> None | UB \<Rightarrow> None)
      | Err _ \<Rightarrow> None | UB \<Rightarrow> None)"

definition check_after :: "nat \<Rightarrow> u32 list \<Rightarrow> (Pipeline \<Rightarrow> bool) \<Rightarrow> bool" where
  "check_after n ws P = (case state_after n ws of Some q \<Rightarrow> P q | None \<Rightarrow> False)"

lemma check_afterE:
  assumes "check_after n ws P"
  obtains p q where "boot CMP_NOP UNKNOWN ws 0 = Ok p" and "pipeline_ticks n p = Ok q" and "P q"
  using assms by (auto simp: check_after_def state_after_def split: res.splits)

lemma check_after_tickE:
  assumes "check_after (Suc n) ws P"
  obtains b p q where "boot CMP_NOP UNKNOWN ws 0 = Ok b" and "pipeline_ticks n b = Ok p" and "pipeline_tick p = Ok q" and "P q"
proof (rule check_afterE [OF assms])
  fix b q assume "boot CMP_NOP UNKNOWN ws 0 = Ok b" "pipeline_ticks (Suc n) b = Ok q" "P q"
  then show thesis
    using that by (auto simp: pipeline_ticks_def iterate_Suc_end rbind_Ok_iff simp del: iterate.simps)
qed

end
