(* ===== verification/RV_Properties.thy ===== *)
theory RV_Properties
  imports RV_Eval
begin

text \<open>
  The properties of the RISC-V pipeline simulator, each with a witness that applies it to a
  concrete program or state.
\<close>

section \<open>The pipeline against the instruction set\<close>

text \<open>
  C1. Forwarding is transparent: for a program of register and immediate arithmetic, LUI and
  AUIPC instructions, loaded anywhere in the instruction memory, \<open>m\<close> clock ticks after boot
  return, the program counter is at instruction \<open>m\<close>, and the register file holds what the
  first \<open>m - 4\<close> instructions executed one after another leave, whatever the dependences
  between neighbouring instructions.
\<close>

theorem pipeline_implements_isa:
  assumes "boot cmp0 type0 ws start = Ok p" and "\<forall>w \<in> set ws. isa_computational w" and "m \<le> length ws"
  shows "\<exists>q. pipeline_ticks m p = Ok q \<and> reg_current (program_counter q) = start + of_nat (4 * m)
           \<and> rf_regs (reg_file q) = isa_regs start ws (m - 4)"
proof -
  have comp: "isa_computational w" if "w \<in> set ws" for w
    using assms(2) that by blast
  obtain im q where "pipeline_ticks m p = Ok q" "straight_line im start ws m q"
    using straight_line_ticks [OF assms(1) comp assms(3)] by blast
  then show ?thesis
    unfolding straight_line_def in_flight_def by blast
qed

text \<open>The program: \<open>addi x1, x0, 5; add x2, x1, x1; sub x3, x2, x1; lui x4, 1\<close> and four \<open>nop\<close>s.\<close>

definition forwarding_program :: "u32 list" where
  "forwarding_program = [0x00500093, 0x00108133, 0x401101b3, 0x00001237, 0x13, 0x13, 0x13, 0x13]"

lemma forwarding_program_boots: "\<exists>p. boot CMP_NOP UNKNOWN forwarding_program 8 = Ok p"
  by (simp add: boot_def Pipeline_ctor_def InstrMemUnit_ctor_def forwarding_program_def im_capacity_def)

lemma forwarding_program_computational: "\<forall>w \<in> set forwarding_program. isa_computational w"
  by code_simp

lemma forwarding_program_result: "isa_regs 8 forwarding_program 4 = (replicate 32 0)[1 := 5, 2 := 10, 3 := 5, 4 := 0x1000]"
  by code_simp

theorem pipeline_implements_isa_witness:
  "\<exists>p q. boot CMP_NOP UNKNOWN forwarding_program 8 = Ok p \<and> pipeline_ticks 8 p = Ok q
     \<and> rf_regs (reg_file q) = (replicate 32 0)[1 := 5, 2 := 10, 3 := 5, 4 := 0x1000]"
proof -
  obtain p where p: "boot CMP_NOP UNKNOWN forwarding_program 8 = Ok p"
    using forwarding_program_boots by blast
  have "8 \<le> length forwarding_program" by (simp add: forwarding_program_def)
  from pipeline_implements_isa [OF p forwarding_program_computational this] p show ?thesis
    by (auto simp: forwarding_program_result)
qed

section \<open>Safety\<close>

text \<open>
  C2. Whatever program is loaded, after any number of ticks, and also in the state an exception
  leaves, the register file has 32 registers and register 0 reads 0, the register numbers in
  the memory and write-back registers are below 32, the control signals in the execute stage
  are enumerators of their types, and the countdown after the end of the section is between 0
  and 3.
\<close>

lemma boot_wf: "boot cmp0 type0 ws start = Ok p \<Longrightarrow> pipeline_wf p"
  by (erule bootE) (simp only: setProgramCounter_def wf_unaffected Pipeline_wf_init)

theorem pipeline_state_safe:
  assumes "boot cmp0 type0 ws start = Ok p"
    and "pipeline_ticks n p = Ok q \<or> pipeline_ticks n p = Err (e, q)"
  shows "length (rf_regs (reg_file q)) = 32 \<and> getRegister q 0 = Ok 0
    \<and> unat (ms_wb_a (me_cur q)) < 32 \<and> unat (ws_wb_a (wb_cur q)) < 32
    \<and> es_enum (ex_cur q) \<and> last_instructions_counter q \<in> {0..3}"
proof -
  have "pipeline_wf q"
    using pl.iterate_Ok [OF boot_wf [OF assms(1)]] pl.iterate_Err [OF boot_wf [OF assms(1)]] assms(2)
    unfolding pipeline_ticks_def by blast
  then show ?thesis
    by (simp add: pipeline_wf_def rf_ok_def getRegister_def getRegDirectly_def array_at_def)
qed

theorem pipeline_state_safe_witness:
  "\<exists>p q. boot CMP_NOP UNKNOWN forwarding_program 8 = Ok p \<and> pipeline_ticks 0 p = Ok q \<and> getRegister q 0 = Ok 0"
proof -
  obtain p where p: "boot CMP_NOP UNKNOWN forwarding_program 8 = Ok p"
    using forwarding_program_boots by blast
  have "pipeline_ticks 0 p = Ok p" by (simp add: pipeline_ticks_def)
  with p pipeline_state_safe [OF p, of 0 p] show ?thesis by blast
qed




text \<open>
  C7. A tick has no undefined behaviour when the accesses the code does not guard are in order: the
  program counter is a multiple of four with its word inside the instruction memory, and the data
  access of the memory stage is at a multiple of its size and, unless its address is beyond the
  memory and raises the exception, with all its bytes inside.  Undefined are here the accesses past
  the end of an array, the unaligned ones, and missing returns; the rules on access types are not
  modelled.
\<close>

theorem pipeline_defined:
  assumes "unat (pc_cur p) + 4 \<le> 4096" and "unat (pc_cur p) mod 4 = 0" and "memory_safe p"
  shows "pipeline_tick p \<noteq> UB"
  by (rule tick_not_UB [OF assms(3,1,2)])

lemma forwarding_program_start: "check_after 0 forwarding_program (\<lambda>p. pc_cur p = 0 \<and> ms_mem_to_reg (me_cur p) = False \<and>
   ms_alu_res (me_cur p) = 0 \<and> ms_store_mode (me_cur p) = 0)"
  by code_simp

theorem pipeline_defined_witness: "\<exists>p. boot CMP_NOP UNKNOWN forwarding_program 0 = Ok p \<and> pipeline_tick p \<noteq> UB"
proof (rule check_afterE [OF forwarding_program_start])
  fix b p
  assume b: "boot CMP_NOP UNKNOWN forwarding_program 0 = Ok b" "pipeline_ticks 0 b = Ok p"
    and p: "pc_cur p = 0 \<and> ms_mem_to_reg (me_cur p) = False \<and> ms_alu_res (me_cur p) = 0 \<and> ms_store_mode (me_cur p) = 0"
  have "memory_safe p" using p by (auto simp: memory_safe_def dm_safe_def mode_simps)
  then have "pipeline_tick p \<noteq> UB" using pipeline_defined [of p] p by simp
  with b show ?thesis by (auto simp: pipeline_ticks_def)
qed

section \<open>Hazards\<close>

text \<open>
  C5. A tick that takes a jump or a branch while the program counter is enabled, that is, while no
  instruction waits for a load, leaves bubbles in decode and execute and sets the program counter,
  4-aligned, to the address of the jump plus its displacement; the displacement is the immediate for
  JAL and branches.  (A branch that itself waits for a load is taken without moving the program
  counter, as \<open>stalled_branch_taken\<close> shows.)
\<close>

theorem taken_jump_flushes:
  assumes "pipeline_tick p = Ok q" and "pc_r q" and "enable_flag (program_counter q)"
  shows "ex_cur q = ExecuteState_of 0 \<and> de_cur q = DecodeState_of 0
    \<and> pc_cur q = es_pc_de (ex_cur p) + pc_disp q \<and> unat (pc_cur q) mod 4 = 0
    \<and> (es_jmp_cond (ex_cur p) \<or> es_brn_cond (ex_cur p))
    \<and> (\<not> es_is_jalr (ex_cur p) \<longrightarrow> pc_disp q = ImmediateExtensionBlock (es_instr (ex_cur p)))"
  using tick_jump [OF assms] by blast

text \<open>The program \<open>jal x0, 12; addi x1, x0, 1\<close> and \<open>nop\<close>s.\<close>

lemma jal_run: "check_after (Suc 2) [0x00c0006f, 0x00100093, 0x13, 0x13, 0x13] (\<lambda>q. pc_r q \<and> enable_flag (program_counter q) \<and> pc_cur q = 12)"
  by code_simp

theorem taken_jump_flushes_witness:
  "\<exists>p q. pipeline_tick p = Ok q \<and> pc_cur q = 12 \<and> ex_cur q = ExecuteState_of 0 \<and> de_cur q = DecodeState_of 0"
proof (rule check_after_tickE [OF jal_run])
  fix p q
  assume "pipeline_tick p = Ok q" and "pc_r q \<and> enable_flag (program_counter q) \<and> pc_cur q = 12"
  then show ?thesis using taken_jump_flushes [of p q] by blast
qed

lemma select_bypass_bubble:
  "fst (select_bypass (MemoryState_of 0) w reads rs) = (if reads \<and> rs \<noteq> 0 \<and> rs = ws_wb_a w then BP_WB else BP_REG)"
  using ucast_nonzero [of rs] by (auto simp: select_bypass_def MemoryState_of_def)

text \<open>
  C4. A load-use hazard, while the program counter is inside the section and the waiting instruction
  is no jump or branch that is taken, stalls fetch, decode and execute for one tick: they keep their
  instructions, a bubble enters the memory stage, and the loaded value reaches the write-back
  register.  The waiting instruction then reads a source from write-back exactly when that source is
  the loaded register and the type of the instruction behind it, which the control unit holds by then,
  has that source; otherwise it reads the value from before the load.
\<close>

theorem load_use_stall:
  assumes "pipeline_wf q" and "pipeline_tick p = Ok q" and "\<not> pc_r q" and "waits_for_load q"
    and "\<not> isPcOutOfSection (instr_mem_unit q) (pc_cur q)" and "pipeline_tick q = Ok r" and "\<not> pc_r r"
  shows "pc_cur r = pc_cur q \<and> de_cur r = de_cur q \<and> ex_cur r = ex_cur q \<and> me_cur r = MemoryState_of 0
    \<and> ws_wb_a (wb_cur r) = ucast (ms_wb_a (me_cur q)) \<and> ws_wb_we (wb_cur r) = ms_wb_we (me_cur q)
    \<and> (\<not> ms_mem_to_reg (me_cur q) \<longrightarrow> dm_getData (data_mem_unit r) = Ok (ws_wb_d (wb_cur r)))
    \<and> hu_rs1 r = (if hasRs1 (cu_instr_type (control_unit r)) \<and> getRs1 (es_instr (ex_cur q)) \<noteq> 0
          \<and> getRs1 (es_instr (ex_cur q)) = ucast (ms_wb_a (me_cur q)) then BP_WB else BP_REG)
    \<and> hu_rs2 r = (if hasRs2 (cu_instr_type (control_unit r)) \<and> getRs2 (es_instr (ex_cur q)) \<noteq> 0
          \<and> getRs2 (es_instr (ex_cur q)) = ucast (ms_wb_a (me_cur q)) then BP_WB else BP_REG)"
proof -
  obtain p1 p2 p3 p4 where st: "doMemory p = Ok p1" "doExecute p1 = Ok p2" "doDecode p2 = Ok p3" "doFetch p3 = Ok p4"
    and q: "q = tick_registers p4"
    by (rule pipeline_tickE [OF assms(2)])
  have "\<not> pc_r p4" using assms(3) by (simp only: q tick_registers_flow not_False_eq_True)
  note stalled = tick_registers_no_jump(4-6) [OF this, folded q]
  have en: "\<not> enable_flag (program_counter q)" "\<not> enable_flag (decode_register q)" "\<not> enable_flag (execute_register q)"
    using stalled assms(4) by blast+
  have wb: "enable_flag (write_back_register q)"
    using assms(1) by (simp add: pipeline_wf_def)
  note s = tick_stall [OF assms(6) wb en assms(5,7)]
  have "hu_rs1 r = fst (bypass1 r)" "hu_rs2 r = fst (bypass2 r)"
    using s(8) by (simp_all add: bypass_selected_def)
  then show ?thesis
    using s(1-7) by (simp add: select_bypass_bubble)
qed

text \<open>The program \<open>lw x1, 0(x0); add x2, x1, x1\<close> and \<open>nop\<close>s.\<close>

lemma load_use_run: "check_after (Suc 2) [0x00002083, 0x00108133, 0x13, 0x13, 0x13, 0x13] (\<lambda>q. \<not> pc_r q \<and> waits_for_load q
    \<and> \<not> isPcOutOfSection (instr_mem_unit q) (pc_cur q) \<and> (case pipeline_tick q of Ok r \<Rightarrow> \<not> pc_r r | _ \<Rightarrow> False))"
  by code_simp

theorem load_use_stall_witness:
  "\<exists>q r. pipeline_tick q = Ok r \<and> waits_for_load q \<and> pc_cur r = pc_cur q \<and> ex_cur r = ex_cur q"
proof (rule check_after_tickE [OF load_use_run])
  fix b p q
  assume b: "boot CMP_NOP UNKNOWN [0x00002083, 0x00108133, 0x13, 0x13, 0x13, 0x13] 0 = Ok b" "pipeline_ticks 2 b = Ok p"
    and t: "pipeline_tick p = Ok q"
    and q: "\<not> pc_r q \<and> waits_for_load q \<and> \<not> isPcOutOfSection (instr_mem_unit q) (pc_cur q)
      \<and> (case pipeline_tick q of Ok r \<Rightarrow> \<not> pc_r r | _ \<Rightarrow> False)"
  have "pipeline_wf p"
    using pl.iterate_Ok [OF boot_wf [OF b(1)]] b(2) unfolding pipeline_ticks_def .
  then have "pipeline_wf q" using keepsD(1) [OF wf_pipeline_tick t] by blast
  moreover from q obtain r where "pipeline_tick q = Ok r" "\<not> pc_r r" by (auto split: res.splits)
  ultimately show ?thesis using load_use_stall [of q p r] t q by blast
qed

section \<open>What a tick writes\<close>

text \<open>
  C6. A tick changes the register file only by the write in the write-back register, and the
  data memory only at the bytes of the store in the memory register.
\<close>

theorem tick_writes:
  assumes "pipeline_tick p = Ok q" and "pipeline_wf p"
  shows "rf_regs (reg_file q) =
      (if ws_wb_we (wb_cur p) \<and> ws_wb_a (wb_cur p) \<noteq> 0
       then (rf_regs (reg_file p))[unat (ws_wb_a (wb_cur p)) := ws_wb_d (wb_cur p)] else rf_regs (reg_file p))
    \<and> (\<forall>a. dm_memory (data_mem_unit q) a \<noteq> dm_memory (data_mem_unit p) a \<longrightarrow>
          ms_mem_we (me_cur p) \<and> (\<exists>w. mode_width (ms_store_mode (me_cur p)) = Some w
            \<and> unat (ms_alu_res (me_cur p)) \<le> a \<and> a < unat (ms_alu_res (me_cur p)) + w))"
proof -
  have "ms_mem_we (me_cur p) \<and> (\<exists>w. mode_width (ms_store_mode (me_cur p)) = Some w
      \<and> unat (ms_alu_res (me_cur p)) \<le> a \<and> a < unat (ms_alu_res (me_cur p)) + w)"
    if a: "dm_memory (data_mem_unit q) a \<noteq> dm_memory (data_mem_unit p) a" for a
  proof -
    have we: "ms_mem_we (me_cur p)" using tick_commits(2) [OF assms] a by metis
    obtain w where w: "mode_width (ms_store_mode (me_cur p)) = Some w"
      using tick_store_width [OF assms(1) we a] by blast
    with tick_commits(3) [OF assms we w, of a] a we show ?thesis by (meson not_le)
  qed
  then show ?thesis
    using tick_commits(1) [OF assms] by (auto simp: wb_regs_def write_reg_def)
qed

text \<open>The program \<open>addi x1, x0, 3; sb x1, 4(x0)\<close> and \<open>nop\<close>s, in the tick in which the byte is stored.\<close>

lemma store_run: "check_after (Suc 4) [0x00300093, 0x00100223, 0x13, 0x13, 0x13, 0x13]
   (\<lambda>q. dm_memory (data_mem_unit q) 4 = 3 \<and> ws_wb_we (wb_cur q) = False)"
  by code_simp

theorem tick_writes_witness:
  "\<exists>p q. pipeline_tick p = Ok q \<and> dm_memory (data_mem_unit q) 4 = 3
     \<and> (dm_memory (data_mem_unit p) 4 \<noteq> 3 \<longrightarrow> ms_mem_we (me_cur p))"
proof (rule check_after_tickE [OF store_run])
  fix b p q
  assume b: "boot CMP_NOP UNKNOWN [0x00300093, 0x00100223, 0x13, 0x13, 0x13, 0x13] 0 = Ok b" "pipeline_ticks 4 b = Ok p"
    and t: "pipeline_tick p = Ok q" and q: "dm_memory (data_mem_unit q) 4 = 3 \<and> ws_wb_we (wb_cur q) = False"
  have "pipeline_wf p"
    using pl.iterate_Ok [OF boot_wf [OF b(1)]] b(2) unfolding pipeline_ticks_def .
  from tick_writes [OF t this] t q show ?thesis by metis
qed

section \<open>Decoding\<close>

text \<open>
  C8. The immediate of every instruction is the one of the RV32I manual: each bit is the bit of
  the instruction the manual's figure names for the type of the instruction, sign bits included.
\<close>

theorem immediate_encoding:
  assumes "n < 32"
  shows "bit (ImmediateExtensionBlock instr) n \<longleftrightarrow>
    (case rv_imm_source (getInstructionType (getOpcode instr)) n of None \<Rightarrow> False | Some k \<Rightarrow> bit instr k)"
  using bit_Immediate [of instr] assms by blast

theorem immediate_encoding_witness: "bit (ImmediateExtensionBlock 0xfea69ae3) 31"
  using immediate_encoding [of 31 "0xfea69ae3"]
  by (simp add: getOpcode_def getInstructionType_def rv_imm_source_def)

text \<open>The six fields of an instruction, put back at their offsets, are the instruction.\<close>

theorem fields_roundtrip:
  "compose_fields (getFunct7 i) (getRs2 i) (getRs1 i) (getFunct3 i) (getRd i) (getOpcode i) = i"
  by (rule compose_extracted_fields)

text \<open>
  The control signals: which opcodes write a register, store, load, branch and jump; the
  type of the instruction; the second operand; and the ALU and comparator operations of the
  nested switches.
\<close>

theorem control_signals:
  assumes "cu_tick c = Ok c'"
  shows "(cu_wb_we c' \<longleftrightarrow> cu_opcode c \<notin> {0b0100011, 0b1100011}) \<and> (cu_mem_we c' \<longleftrightarrow> cu_opcode c = 0b0100011)
    \<and> (cu_mem_to_reg c' \<longleftrightarrow> cu_opcode c \<noteq> 0b0000011) \<and> (cu_brn_cond c' \<longleftrightarrow> cu_opcode c = 0b1100011)
    \<and> (cu_jmp_cond c' \<longleftrightarrow> cu_opcode c \<in> {0b1101111, 0b1100111}) \<and> (cu_is_jalr c' \<longleftrightarrow> cu_opcode c = 0b1100111)
    \<and> cu_instr_type c' = getInstructionType (cu_opcode c)
    \<and> (cu_alu_src2 c' \<longleftrightarrow> cu_instr_type c' \<in> {IType, SType, UType})
    \<and> cu_select_alu_op (cu_opcode c) (cu_funct3 c) (cu_funct7 c) (cu_instr_type c') = Ok (cu_alu_op c')
    \<and> cu_select_cmp (cu_opcode c) (cu_funct3 c) = Ok (cu_cmp_control c')"
  using cu_tick_signals [OF assms] by simp

theorem control_signals_witness:
  "\<exists>c'. cu_tick (decode_set_control 0xfea69ae3 (ControlUnit_init CMP_NOP UNKNOWN)) = Ok c' \<and> cu_brn_cond c' \<and> \<not> cu_wb_we c'"
proof -
  let ?c = "decode_set_control 0xfea69ae3 (ControlUnit_init CMP_NOP UNKNOWN)"
  have "\<exists>c'. cu_tick ?c = Ok c'" and "cu_opcode ?c = 0b1100011"
    by (simp_all add: cu_tick_def Let_def decode_set_control_def ControlUnit_init_def getOpcode_def getFunct3_def
        cu_select_alu_op_def cu_select_cmp_def getInstructionType_def)
  then show ?thesis using control_signals [of ?c] by auto
qed

section \<open>Units\<close>

text \<open>
  C9. Every ALU operation computes what the manual asks of it on the mathematical values of the
  operands: sums and differences modulo \<open>2 ^ 32\<close>, shifts by the low five bits, comparisons of
  the signed and the unsigned values, and the bitwise operations.
\<close>

theorem ALU_correct:
  assumes "ALU op a b = Ok r"
  shows "alu_meets op a b r"
  by (rule ALU_meets [OF assms])

theorem ALU_correct_witness: "alu_meets ALU_SRA (- 8) 33 (- 4)"
proof (rule ALU_correct)
  show "ALU ALU_SRA (- 8) 33 = Ok (- 4)" by code_simp
qed

text \<open>
  C10. A store at a multiple of its size inside the data memory, followed by a load of the same width
  and address, returns the low byte or halfword of the stored word, sign-extended, or the word itself,
  and leaves every other byte of the memory as it was.  A store at another address up to the end of
  the memory, unaligned or across the end, is undefined.
\<close>

theorem data_memory_roundtrip:
  assumes "dm_write_enable d" and "dm_store_mode d \<in> {0, 1, 2}"
    and "mode_width (dm_store_mode d) = Some w" and "unat (dm_address d) \<le> 16384"
  shows "if unat (dm_address d) + w \<le> 16384 \<and> unat (dm_address d) mod w = 0
    then \<exists>d'. dm_tick d = Ok d' \<and> dm_getData d' = Ok (stored_value (dm_store_mode d) (dm_write_data d))
      \<and> (\<forall>b. b < unat (dm_address d) \<or> unat (dm_address d) + w \<le> b \<longrightarrow> dm_memory d' b = dm_memory d b)
    else dm_tick d = UB"
proof (cases "unat (dm_address d) + w \<le> 16384 \<and> unat (dm_address d) mod w = 0")
  case True
  obtain d' where d': "dm_tick d = Ok d'" "dm_getData d' = Ok (stored_value (dm_store_mode d) (dm_write_data d))"
    using dm_store_then_load [OF assms(1-3)] True by metis
  have "\<forall>b. b < unat (dm_address d) \<or> unat (dm_address d) + w \<le> b \<longrightarrow> dm_memory d' b = dm_memory d b"
    using dm_store_frame [OF d'(1) assms(3)] by blast
  with d' show ?thesis unfolding if_P [OF True] by blast
next
  case False
  then have "16384 < unat (dm_address d) + w \<or> unat (dm_address d) mod w \<noteq> 0" by linarith
  with dm_store_outside [OF assms] False show ?thesis by simp
qed

theorem data_memory_roundtrip_witness:
  "\<exists>d'. dm_tick (DataMemUnit_default\<lparr>dm_write_enable := True, dm_store_mode := 1, dm_address := 6, dm_write_data := 0x1ff80\<rparr>) = Ok d'
     \<and> dm_getData d' = Ok (- 128)"
proof -
  let ?d = "DataMemUnit_default\<lparr>dm_write_enable := True, dm_store_mode := 1, dm_address := 6, dm_write_data := 0x1ff80\<rparr>"
  have "if unat (dm_address ?d) + 2 \<le> 16384 \<and> unat (dm_address ?d) mod 2 = 0
    then \<exists>d'. dm_tick ?d = Ok d' \<and> dm_getData d' = Ok (stored_value (dm_store_mode ?d) (dm_write_data ?d))
      \<and> (\<forall>b. b < unat (dm_address ?d) \<or> unat (dm_address ?d) + 2 \<le> b \<longrightarrow> dm_memory d' b = dm_memory ?d b)
    else dm_tick ?d = UB"
    by (rule data_memory_roundtrip) (simp_all add: mode_width_def)
  moreover have "unat (dm_address ?d) + 2 \<le> 16384 \<and> unat (dm_address ?d) mod 2 = 0" by simp
  moreover have "stored_value (dm_store_mode ?d) (dm_write_data ?d) = - 128" by code_simp
  ultimately show ?thesis by metis
qed

text \<open>
  The program the constructor loads is the program the pipeline fetches: with the program
  counter at instruction \<open>i\<close> the instruction memory delivers instruction \<open>i\<close>.
\<close>

theorem fetch_loaded_program:
  assumes "InstrMemUnit_ctor ws start = Ok im" and "i < length ws" and "unat pc = unat start + 4 * i"
  shows "im_getData (im\<lparr>im_address := pc\<rparr>) = Ok (ws ! i)"
  by (rule InstrMemUnit_ctor_fetch [OF assms(1,2)]) (simp_all add: assms(3))

theorem fetch_loaded_program_witness:
  "\<exists>im. InstrMemUnit_ctor [0x13, 0x73] 16 = Ok im \<and> im_getData (im\<lparr>im_address := 20\<rparr>) = Ok 0x73"
proof -
  obtain im where im: "InstrMemUnit_ctor [0x13, 0x73] 16 = Ok im"
    by (simp add: InstrMemUnit_ctor_def im_capacity_def)
  then show ?thesis using fetch_loaded_program [OF im, of 1 20] by simp
qed

section \<open>The run loop\<close>




end
