(* ===== verification/RV_Findings.thy ===== *)
theory RV_Findings
  imports RV_Eval
begin

text \<open>
  Executions of the pipeline simulator that differ from the instruction set: each lemma runs
  a short program, or one unit, and states what the code does with it.
\<close>

definition register_at_end :: "u32 list \<Rightarrow> u32 \<Rightarrow> u32 option" where
  "register_at_end ws r =
     (case boot CMP_NOP UNKNOWN ws 0 of
        Ok p \<Rightarrow>
          (case pipeline_run 20 p of
             Some (Run_caught m q) \<Rightarrow> (case getRegister q r of Ok v \<Rightarrow> Some v | Err _ \<Rightarrow> None | UB \<Rightarrow> None)
           | Some (Run_escaped e q) \<Rightarrow> None
           | Some Run_undefined \<Rightarrow> None
           | None \<Rightarrow> None)
      | Err _ \<Rightarrow> None | UB \<Rightarrow> None)"

text \<open>
  C12. When the program counter leaves the section behind an instruction that is no jump, it is
  disabled, and \<open>tick\<close>, which takes a disabled program counter for a load-use stall, clears the
  memory register; an execute register that is not stalled moves on all the same.  So execute holds
  the instruction that was in decode, memory holds a bubble, and the instruction that was in execute
  is in no stage.
\<close>

theorem leaving_section_drops_execute:
  assumes "pipeline_tick p = Ok q" and "\<not> last_instructions_flag p" and "last_instructions_flag q"
    and "\<not> ms_jmp_cond (me_cur p)" and "enable_flag (execute_register p)"
  shows "me_cur q = MemoryState_of 0 \<and> es_instr (ex_cur q) = ds_instr (de_cur p) \<and> de_cur q = DecodeState_of 0"
proof -
  obtain p1 p2 p3 p4 where st: "doMemory p = Ok p1" "doExecute p1 = Ok p2" "doDecode p2 = Ok p3" "doFetch p3 = Ok p4"
    and q: "q = tick_registers p4"
    by (rule pipeline_tickE [OF assms(1)])
  have p3: "\<not> last_instructions_flag p3" "\<not> ms_jmp_cond (me_cur p3)" "enable_flag (execute_register p3)"
    using assms(2,4,5)
    by (simp_all add: doMemory_frame(3,8,17) [OF st(1)] doExecute_frame(3,8,17) [OF st(2)] doDecode_frame(3,8,18) [OF st(3)])
  have next3: "es_instr (ex_next p3) = ds_instr (de_cur p)"
    by (rule doDecodeE [OF st(3)])
      (simp add: decode_result_def Let_def doMemory_frame(2) [OF st(1)] doExecute_frame(2) [OF st(2)])
  have "last_instructions_flag p4" using assms(3) by (simp only: q tick_registers_flow)
  moreover obtain p' where p': "doFetch_section_check p3 = Ok p'"
    and f: "last_instructions_flag p4 = last_instructions_flag p'"
      "enable_flag (program_counter p4) = enable_flag (program_counter p')" "pc_r p4 = pc_r p'"
      "enable_flag (execute_register p4) = enable_flag (execute_register p')" "ex_next p4 = ex_next p'"
      "enable_flag (decode_register p4) = enable_flag (decode_register p')" "de_cur p4 = de_cur p'"
    by (rule doFetchE [OF st(4)]) simp
  ultimately have p4: "\<not> enable_flag (program_counter p4)" "\<not> pc_r p4" "enable_flag (execute_register p4)"
    "ex_next p4 = ex_next p3" "\<not> enable_flag (decode_register p4)" "de_cur p4 = DecodeState_of 0"
    using p3 by (cases rule: doFetch_section_check_cases [OF p'], simp_all add: Register_clear_def)+
  show ?thesis
    unfolding q tick_registers_no_jump [OF p4(2)] tick_registers_flow
    using clocked_cur(4) [OF p4(1)] by (simp add: clocked_cur(5,6) p4 next3 DecodeState_of_def)
qed

text \<open>\<open>addi a1, a1, 15; addi a2, a2, 16; add a0, a1, a2\<close> leaves 0 in \<open>a2\<close>.\<close>

lemma last_but_one_instruction_lost:
  "register_at_end [0x00f58593, 0x01060613, 0x00c58533] 12 = Some 0"
  by code_simp

lemma leaving_run: "check_after 3 [0x00f58593, 0x01060613, 0x00c58533] (\<lambda>p. \<not> last_instructions_flag p \<and>
    \<not> ms_jmp_cond (me_cur p) \<and> enable_flag (execute_register p) \<and> es_instr (ex_cur p) = 0x01060613 \<and>
    (case pipeline_tick p of Ok q \<Rightarrow> last_instructions_flag q | _ \<Rightarrow> False))"
  by code_simp

theorem leaving_section_drops_execute_witness:
  "\<exists>p q. pipeline_tick p = Ok q \<and> es_instr (ex_cur p) = 0x01060613 \<and> me_cur q = MemoryState_of 0 \<and> es_instr (ex_cur q) = ds_instr (de_cur p)"
proof (rule check_afterE [OF leaving_run])
  fix p
  assume p: "\<not> last_instructions_flag p \<and> \<not> ms_jmp_cond (me_cur p) \<and> enable_flag (execute_register p) \<and>
    es_instr (ex_cur p) = 0x01060613 \<and> (case pipeline_tick p of Ok q \<Rightarrow> last_instructions_flag q | _ \<Rightarrow> False)"
  then obtain q where "pipeline_tick p = Ok q" "last_instructions_flag q" by (auto split: res.splits)
  then show ?thesis using leaving_section_drops_execute [of p q] p by blast
qed

text \<open>
  After a load-use stall the hazard unit takes the type of the instruction behind the stalled
  one: with \<open>lui\<close> behind it, \<open>lw x1, 0(x0); add x2, x1, x1\<close> adds the old value of \<open>x1\<close>.
\<close>

lemma stalled_operand_stale:
  "check_after 10 [0x00700293, 0x00502023, 0x00002083, 0x00108133, 0x000011b7, 0x13, 0x13, 0x13, 0x13]
     (\<lambda>q. getRegister q 1 = Ok 7 \<and> getRegister q 2 = Ok 0)"
  by code_simp

text \<open>
  A branch that waits for a load is first decided on the address of the load:
  \<open>lw x1, 4(x0); bne x1, x0, 8; addi x2, x0, 1\<close> with 0 in memory loses the \<open>addi\<close>.
\<close>

lemma stalled_branch_taken:
  "register_at_end [0x00402083, 0x00009463, 0x00100113, 0x13, 0x13, 0x13, 0x13] 2 = Some 0"
  by code_simp

text \<open>
  A store forwards its address to an instruction that reads the register numbered by the low
  bits of its offset: \<open>addi x8, x0, 1; addi x5, x0, 7; sw x5, 8(x0); add x9, x8, x0\<close>, with
  \<open>nop\<close>s before the store, leaves 8 in \<open>x9\<close>.
\<close>

lemma store_forwarded:
  "register_at_end [0x00100413, 0x00700293, 0x13, 0x13, 0x00502423, 0x000404b3, 0x13, 0x13, 0x13] 9 = Some 8"
  by code_simp

text \<open>
  JALR adds the address of the instruction to its target: \<open>jalr x0, 0(x1)\<close> at address 12
  with 8 in \<open>x1\<close> continues at 20.
\<close>

lemma jalr_target_relative:
  "check_after 6 [0x00800093, 0x13, 0x13, 0x00008067, 0x13, 0x13, 0x13, 0x13] (\<lambda>q. pc_r q \<and> pc_cur q = 20)"
  by code_simp

text \<open>BLT and BGE compare without sign.\<close>

lemma signed_branches_unsigned:
  "Cmp CMP_LT (- 1) 1 = Ok False" "Cmp CMP_GE (- 1) 1 = Ok True"
  by code_simp+

text \<open>
  The bound of the data memory admits the address just past it, and the bound of the
  instruction memory is not checked.
\<close>

lemma data_bound_off_by_one:
  "unat (dm_address d) = 16384 \<Longrightarrow> dm_store_mode d = 0 \<Longrightarrow> dm_getData d = UB"
  by (simp add: dm_getData_UB_iff mode_width_def)

lemma fetch_unbounded: "4096 \<le> unat (im_address i) \<Longrightarrow> im_getData i = UB"
  by (simp add: im_getData_def im_capacity_def)

end
