(* ===== verification/JIT_Types.thy ===== *)
theory JIT_Types
  imports Prelude
begin

text \<open>
  The enumerations of the JIT compiler's intermediate representation: operand types
  (\<open>ir/instructions/Types.h\<close>), opcodes and instruction properties
  (\<open>ir/instructions/InstructionBase.h\<close>), condition codes (\<open>ir/instructions/Instruction.h\<close>)
  and analysis flags (\<open>ir/AnalysisValidityManager.h\<close>).  The debug build is modelled: a failed
  \<open>ASSERT\<close> and an executed \<open>UNREACHABLE\<close> terminate the program, which is the error
  \<open>AssertionFail\<close>.  An index past the end of an array is \<open>UB\<close>.
\<close>

section \<open>Assertions\<close>

datatype abort = AssertionFail

definition ASSERT :: "bool \<Rightarrow> (abort, 'a) res \<Rightarrow> (abort, 'a) res" where
  "ASSERT b r = (if b then r else Err AssertionFail)"

lemma ASSERT_Ok_iff [res_simps]: "ASSERT b r = Ok a \<longleftrightarrow> b \<and> r = Ok a"
  by (simp add: ASSERT_def)

lemma ASSERT_UB_iff [res_simps]: "ASSERT b r = UB \<longleftrightarrow> b \<and> r = UB"
  by (simp add: ASSERT_def)

lemma ASSERT_True [simp]: "ASSERT True r = r"
  by (simp add: ASSERT_def)

lemma ASSERT_cong [cong]: "b = c \<Longrightarrow> (c \<Longrightarrow> r = s) \<Longrightarrow> ASSERT b r = ASSERT c s"
  by (simp add: ASSERT_def)

section \<open>Operand types\<close>

datatype OperandType =
  T_VOID | T_I8 | T_I16 | T_I32 | T_I64 | T_U8 | T_U16 | T_U32 | T_U64 | T_REF | T_INVALID

fun type_number :: "OperandType \<Rightarrow> nat" where
  "type_number T_VOID = 0"
| "type_number T_I8 = 1"
| "type_number T_I16 = 2"
| "type_number T_I32 = 3"
| "type_number T_I64 = 4"
| "type_number T_U8 = 5"
| "type_number T_U16 = 6"
| "type_number T_U32 = 7"
| "type_number T_U64 = 8"
| "type_number T_REF = 9"
| "type_number T_INVALID = 10"

definition NUM_TYPES :: nat where
  "NUM_TYPES = type_number T_INVALID"

definition type_names :: "string list" where
  "type_names = [''VOID'', ''I8'', ''I16'', ''I32'', ''I64'', ''U8'', ''U16'', ''U32'', ''U64'', ''REF'']"

definition array_get :: "'a list \<Rightarrow> nat \<Rightarrow> ('e, 'a) res" where
  "array_get xs i = (if i < length xs then Ok (xs ! i) else UB)"

definition getTypeName :: "OperandType \<Rightarrow> (abort, string) res" where
  "getTypeName type = array_get type_names (type_number type)"

definition maxValues :: "u64 list" where
  "maxValues =
     [0, 0x7f, 0x7fff, 0x7fffffff, 0x7fffffffffffffff, 0xff, 0xffff, 0xffffffff, 0xffffffffffffffff, 0]"

definition GetTypeBitSize :: "OperandType \<Rightarrow> (abort, nat) res" where
  "GetTypeBitSize type =
     (if type = T_I8 \<or> type = T_U8 then Ok 8
      else if type = T_I16 \<or> type = T_U16 then Ok 16
      else if type = T_I32 \<or> type = T_U32 then Ok 32
      else if type = T_I64 \<or> type = T_U64 then Ok 64
      else Err AssertionFail)"

text \<open>The result is an \<open>int64_t\<close>: the word that \<open>sint\<close> reads.\<close>

definition ToSigned :: "u64 \<Rightarrow> OperandType \<Rightarrow> u64" where
  "ToSigned value type =
     (case type of
        T_U8 \<Rightarrow> scast (ucast value :: byte)
      | T_U16 \<Rightarrow> scast (ucast value :: byte2)
      | T_U32 \<Rightarrow> scast (ucast value :: u32)
      | T_U64 \<Rightarrow> value
      | _ \<Rightarrow> value)"

definition GetMaxValue :: "OperandType \<Rightarrow> (abort, u64) res" where
  "GetMaxValue type = ASSERT (type \<noteq> T_INVALID) (array_get maxValues (type_number type))"

definition IsIntegerType :: "OperandType \<Rightarrow> bool" where
  "IsIntegerType type = (type_number T_I8 \<le> type_number type \<and> type_number type \<le> type_number T_U64)"

section \<open>Opcodes\<close>

datatype Opcode =
  Op_DIV | Op_DIVI | Op_MOD | Op_MODI | Op_CALL | Op_CMP | Op_JCMP | Op_JMP | Op_RET |
  Op_RETVOID | Op_CONST | Op_NOT | Op_AND | Op_OR | Op_XOR | Op_NEG | Op_ADD | Op_SUB |
  Op_MUL | Op_SRA | Op_SLA | Op_SLL | Op_ANDI | Op_ORI | Op_XORI | Op_ADDI | Op_SUBI |
  Op_MULI | Op_SRAI | Op_SLAI | Op_SLLI | Op_CAST | Op_PHI | Op_ARG | Op_LEN | Op_NEW_ARRAY |
  Op_NEW_ARRAY_IMM | Op_NEW_OBJECT | Op_LOAD_ARRAY | Op_LOAD_ARRAY_IMM | Op_LOAD_OBJECT |
  Op_STORE_ARRAY | Op_STORE_ARRAY_IMM | Op_STORE_OBJECT | Op_NULL_CHECK | Op_ZERO_CHECK |
  Op_NEGATIVE_CHECK | Op_BOUNDS_CHECK | Op_MOVE | Op_INVALID

fun getOpcodeName :: "Opcode \<Rightarrow> (abort, string) res" where
  "getOpcodeName Op_DIV = Ok ''DIV''"
| "getOpcodeName Op_DIVI = Ok ''DIVI''"
| "getOpcodeName Op_MOD = Ok ''MOD''"
| "getOpcodeName Op_MODI = Ok ''MODI''"
| "getOpcodeName Op_CALL = Ok ''CALL''"
| "getOpcodeName Op_CMP = Ok ''CMP''"
| "getOpcodeName Op_JCMP = Ok ''JCMP''"
| "getOpcodeName Op_JMP = Ok ''JMP''"
| "getOpcodeName Op_RET = Ok ''RET''"
| "getOpcodeName Op_RETVOID = Ok ''RETVOID''"
| "getOpcodeName Op_CONST = Ok ''CONST''"
| "getOpcodeName Op_NOT = Ok ''NOT''"
| "getOpcodeName Op_AND = Ok ''AND''"
| "getOpcodeName Op_OR = Ok ''OR''"
| "getOpcodeName Op_XOR = Ok ''XOR''"
| "getOpcodeName Op_NEG = Ok ''NEG''"
| "getOpcodeName Op_ADD = Ok ''ADD''"
| "getOpcodeName Op_SUB = Ok ''SUB''"
| "getOpcodeName Op_MUL = Ok ''MUL''"
| "getOpcodeName Op_SRA = Ok ''SRA''"
| "getOpcodeName Op_SLA = Ok ''SLA''"
| "getOpcodeName Op_SLL = Ok ''SLL''"
| "getOpcodeName Op_ANDI = Ok ''ANDI''"
| "getOpcodeName Op_ORI = Ok ''ORI''"
| "getOpcodeName Op_XORI = Ok ''XORI''"
| "getOpcodeName Op_ADDI = Ok ''ADDI''"
| "getOpcodeName Op_SUBI = Ok ''SUBI''"
| "getOpcodeName Op_MULI = Ok ''MULI''"
| "getOpcodeName Op_SRAI = Ok ''SRAI''"
| "getOpcodeName Op_SLAI = Ok ''SLAI''"
| "getOpcodeName Op_SLLI = Ok ''SLLI''"
| "getOpcodeName Op_CAST = Ok ''CAST''"
| "getOpcodeName Op_PHI = Ok ''PHI''"
| "getOpcodeName Op_ARG = Ok ''ARG''"
| "getOpcodeName Op_LEN = Ok ''LEN''"
| "getOpcodeName Op_NEW_ARRAY = Ok ''NEW_ARRAY''"
| "getOpcodeName Op_NEW_ARRAY_IMM = Ok ''NEW_ARRAY_IMM''"
| "getOpcodeName Op_NEW_OBJECT = Ok ''NEW_OBJECT''"
| "getOpcodeName Op_LOAD_ARRAY = Ok ''LOAD_ARRAY''"
| "getOpcodeName Op_LOAD_ARRAY_IMM = Ok ''LOAD_ARRAY_IMM''"
| "getOpcodeName Op_LOAD_OBJECT = Ok ''LOAD_OBJECT''"
| "getOpcodeName Op_STORE_ARRAY = Ok ''STORE_ARRAY''"
| "getOpcodeName Op_STORE_ARRAY_IMM = Ok ''STORE_ARRAY_IMM''"
| "getOpcodeName Op_STORE_OBJECT = Ok ''STORE_OBJECT''"
| "getOpcodeName Op_NULL_CHECK = Ok ''NULL_CHECK''"
| "getOpcodeName Op_ZERO_CHECK = Ok ''ZERO_CHECK''"
| "getOpcodeName Op_NEGATIVE_CHECK = Ok ''NEGATIVE_CHECK''"
| "getOpcodeName Op_BOUNDS_CHECK = Ok ''BOUNDS_CHECK''"
| "getOpcodeName Op_MOVE = Ok ''MOVE''"
| "getOpcodeName Op_INVALID = UB"

section \<open>Instruction properties\<close>

datatype InstrProp = ARITH | MEM | COMMUTABLE | CF | INPUT | SIDE_EFFECTS

fun prop_bits :: "InstrProp \<Rightarrow> byte" where
  "prop_bits ARITH = 0b1"
| "prop_bits MEM = 0b10"
| "prop_bits COMMUTABLE = 0b100"
| "prop_bits CF = 0b1000"
| "prop_bits INPUT = 0b10000"
| "prop_bits SIDE_EFFECTS = 0b100000"

text \<open>\<open>utils::underlying_logic_or\<close>\<close>

fun underlying_logic_or :: "InstrProp list \<Rightarrow> byte" where
  "underlying_logic_or [] = 0"
| "underlying_logic_or [e] = prop_bits e"
| "underlying_logic_or (e # out) = prop_bits e OR underlying_logic_or out"

section \<open>Condition codes\<close>

datatype CondCode = CC_EQ | CC_NE | CC_LT | CC_LE | CC_GE | CC_GT

fun inverseCondCode :: "CondCode \<Rightarrow> CondCode" where
  "inverseCondCode CC_EQ = CC_NE"
| "inverseCondCode CC_NE = CC_EQ"
| "inverseCondCode CC_LT = CC_GT"
| "inverseCondCode CC_LE = CC_GE"
| "inverseCondCode CC_GE = CC_LE"
| "inverseCondCode CC_GT = CC_LT"

fun getCondCodeName :: "CondCode \<Rightarrow> string" where
  "getCondCodeName CC_EQ = ''EQ''"
| "getCondCodeName CC_NE = ''NE''"
| "getCondCodeName CC_LT = ''LT''"
| "getCondCodeName CC_LE = ''LE''"
| "getCondCodeName CC_GE = ''GE''"
| "getCondCodeName CC_GT = ''GT''"

text \<open>\<open>compare\<close> on the instances the passes use: two values of one ordered type.\<close>

definition compare_values :: "CondCode \<Rightarrow> 'a::linorder \<Rightarrow> 'a \<Rightarrow> (abort, bool) res" where
  "compare_values cc lhs rhs =
     (case cc of
        CC_EQ \<Rightarrow> Ok (lhs = rhs)
      | CC_NE \<Rightarrow> Ok (lhs \<noteq> rhs)
      | CC_LT \<Rightarrow> Ok (lhs < rhs)
      | CC_GE \<Rightarrow> Ok (lhs \<ge> rhs)
      | _ \<Rightarrow> Err AssertionFail)"

section \<open>Analysis flags\<close>

datatype AnalysisFlag = DOM_TREE | LOOP_ANALYSIS | RPO | LINEAR_ORDERING

type_synonym validity_mask = "AnalysisFlag \<Rightarrow> bool"

definition IsAnalysisValid :: "AnalysisFlag \<Rightarrow> validity_mask \<Rightarrow> bool" where
  "IsAnalysisValid a m = m a"

definition SetAnalysisValid :: "AnalysisFlag \<Rightarrow> bool \<Rightarrow> validity_mask \<Rightarrow> validity_mask" where
  "SetAnalysisValid a isValid m = m(a := isValid)"

fun SetInvalid :: "AnalysisFlag list \<Rightarrow> validity_mask \<Rightarrow> validity_mask" where
  "SetInvalid [] m = m"
| "SetInvalid (a # flags) m = SetInvalid flags (SetAnalysisValid a False m)"

section \<open>Lemmas\<close>

lemma array_get_Ok_iff [res_simps]: "array_get xs i = Ok x \<longleftrightarrow> i < length xs \<and> x = xs ! i"
  by (auto simp: array_get_def)

lemma type_number_less: "type_number t < 10 \<longleftrightarrow> t \<noteq> T_INVALID"
  by (cases t) simp_all

text \<open>What the condition codes mean.\<close>

fun cond_holds :: "CondCode \<Rightarrow> 'a::linorder \<Rightarrow> 'a \<Rightarrow> bool" where
  "cond_holds CC_EQ a b = (a = b)"
| "cond_holds CC_NE a b = (a \<noteq> b)"
| "cond_holds CC_LT a b = (a < b)"
| "cond_holds CC_LE a b = (a \<le> b)"
| "cond_holds CC_GE a b = (a \<ge> b)"
| "cond_holds CC_GT a b = (a > b)"

lemma compare_values_Ok: "compare_values cc a b = Ok r \<Longrightarrow> r = cond_holds cc a b"
  by (cases cc) (simp_all add: compare_values_def)

lemma inverseCondCode_swap:
  "cond_holds (inverseCondCode cc) b a = (if cc \<in> {CC_EQ, CC_NE} then \<not> cond_holds cc a b else cond_holds cc a b)"
  by (cases cc) auto

lemma prop_bits_and: "prop_bits p AND prop_bits q \<noteq> 0 \<longleftrightarrow> p = q"
  by (cases p; cases q) simp_all

lemma props_and: "underlying_logic_or ps AND prop_bits p \<noteq> 0 \<longleftrightarrow> p \<in> set ps"
proof (induction ps rule: underlying_logic_or.induct)
  case (3 e f out)
  have "underlying_logic_or (e # f # out) AND prop_bits p
      = (prop_bits e AND prop_bits p) OR (underlying_logic_or (f # out) AND prop_bits p)"
    by (simp add: bit.conj_disj_distrib2)
  with 3 show ?case
    using prop_bits_and [of e p] by (auto simp: or_eq_0_iff)
qed (auto simp: prop_bits_and)

end
