(* ===== verification/JIT_Marker.thy ===== *)
theory JIT_Marker
  imports JIT_Types
begin

text \<open>
  Markers (\<open>ir/marker/marker.h\<close>): a graph hands out at most four markers at a time; a marker is
  the index of its slot in the low two bits and a serial number in the others; a marked
  object holds a serial number per slot.
\<close>

section \<open>Constants\<close>

definition MC_BIT_LENGTH :: nat where "MC_BIT_LENGTH = 2"
definition MC_MAX_MARKERS :: nat where "MC_MAX_MARKERS = 2 ^ MC_BIT_LENGTH"
definition MC_INDEX_MASK :: u32 where "MC_INDEX_MASK = 3"
definition MC_MAX_VALUE :: nat where "MC_MAX_VALUE = 2 ^ (32 - MC_BIT_LENGTH) - 1"
definition MC_UNDEF_VALUE :: u32 where "MC_UNDEF_VALUE = 0"

type_synonym Marker = u32

definition marker_value :: "Marker \<Rightarrow> u32" where
  "marker_value mark = drop_bit MC_BIT_LENGTH mark"

definition marker_slot :: "Marker \<Rightarrow> nat" where
  "marker_slot mark = unat (mark AND MC_INDEX_MASK)"

section \<open>The manager\<close>

record MarkerManager =
  currentIndex :: nat
  markersSlots :: "bool list"

definition MarkerManager_init :: MarkerManager where
  "MarkerManager_init = \<lparr>currentIndex = 0, markersSlots = replicate MC_MAX_MARKERS False\<rparr>"

fun first_free :: "bool list \<Rightarrow> nat \<Rightarrow> nat option" where
  "first_free [] i = None"
| "first_free (s # ss) i = (if \<not> s then Some i else first_free ss (Suc i))"

definition GetNewMarker :: "MarkerManager \<Rightarrow> (abort, Marker \<times> MarkerManager) res" where
  "GetNewMarker m =
     ASSERT (currentIndex m < MC_MAX_VALUE)
       (let m = m\<lparr>currentIndex := currentIndex m + 1\<rparr> in
        case first_free (markersSlots m) 0 of
          Some i \<Rightarrow> Ok (push_bit MC_BIT_LENGTH (of_nat (currentIndex m)) OR of_nat i,
                         m\<lparr>markersSlots := (markersSlots m)[i := True]\<rparr>)
        | None \<Rightarrow> Err AssertionFail)"

definition ReleaseMarker :: "Marker \<Rightarrow> MarkerManager \<Rightarrow> MarkerManager" where
  "ReleaseMarker mark m = m\<lparr>markersSlots := (markersSlots m)[marker_slot mark := False]\<rparr>"

definition GetMarkerIndex :: "MarkerManager \<Rightarrow> nat" where
  "GetMarkerIndex m = currentIndex m"

definition SetMarkerIndex :: "nat \<Rightarrow> MarkerManager \<Rightarrow> (abort, MarkerManager) res" where
  "SetMarkerIndex newIndex m =
     ASSERT (newIndex < MC_MAX_VALUE) (Ok (m\<lparr>currentIndex := max (currentIndex m) newIndex\<rparr>))"

section \<open>Marked objects\<close>

type_synonym markers = "u32 list"

definition Markable_init :: markers where
  "Markable_init = replicate MC_MAX_MARKERS MC_UNDEF_VALUE"

definition SetMarker :: "Marker \<Rightarrow> markers \<Rightarrow> (abort, bool \<times> markers) res" where
  "SetMarker mark ms =
     (let value = marker_value mark; index = marker_slot mark in
      ASSERT (index < length ms)
        (let wasSet = ms ! index \<noteq> value in Ok (wasSet, ms[index := value])))"

definition IsMarkerSet :: "Marker \<Rightarrow> markers \<Rightarrow> (abort, bool) res" where
  "IsMarkerSet mark ms =
     (let value = marker_value mark; index = marker_slot mark in
      ASSERT (index < length ms) (Ok (ms ! index = value)))"

definition ClearMarker :: "Marker \<Rightarrow> markers \<Rightarrow> (abort, markers) res" where
  "ClearMarker mark ms =
     (let index = marker_slot mark in
      ASSERT (index < length ms) (Ok (ms[index := MC_UNDEF_VALUE])))"

section \<open>Fields of a marker\<close>

lemma marker_fields_unat:
  "unat (marker_value mark) = unat mark div 4" "marker_slot mark = unat mark mod 4"
proof -
  have "marker_value mark = mark div 4"
    by (simp add: marker_value_def MC_BIT_LENGTH_def drop_bit_eq_div)
  then show "unat (marker_value mark) = unat mark div 4"
    by (simp add: unat_div_distrib)
  have "mark AND MC_INDEX_MASK = take_bit 2 mark"
    by (simp add: MC_INDEX_MASK_def take_bit_eq_mask mask_eq_exp_minus_1)
  then have "marker_slot mark = take_bit 2 (unat mark)"
    by (simp only: marker_slot_def unsigned_take_bit_eq)
  then show "marker_slot mark = unat mark mod 4" by (simp add: take_bit_eq_mod)
qed

lemma marker_slot_less [simp]: "marker_slot mark < 4"
  by (simp add: marker_fields_unat)

lemma made_marker:
  assumes "n < 2 ^ 30" and "i < 4"
  shows "unat (push_bit MC_BIT_LENGTH (of_nat n) OR of_nat i :: u32) = 4 * n + i"
proof -
  have "push_bit 2 n OR i = push_bit 2 n + i"
  proof (rule disjunctive_add_eq_or [symmetric])
    have "i = take_bit 2 i" using assms(2) by (simp add: take_bit_eq_mod)
    then have "\<not> bit i k" if "2 \<le> k" for k
      using that by (metis bit_take_bit_iff not_less)
    then show "push_bit 2 n AND i = 0"
      by (intro bit_eqI) (auto simp: bit_simps)
  qed
  moreover have "unat (push_bit 2 (of_nat n) :: u32) = push_bit 2 n"
    using assms(1) by (simp only: unsigned_push_bit_eq) (simp add: unat_of_nat push_bit_eq_mult take_bit_eq_mod)
  moreover have "unat (of_nat i :: u32) = i"
    using assms(2) by (simp add: unat_of_nat)
  ultimately show ?thesis
    by (simp add: unsigned_or_eq MC_BIT_LENGTH_def push_bit_eq_mult)
qed

section \<open>Freshness\<close>

lemma first_free_Some:
  "first_free ss k = Some i \<Longrightarrow> k \<le> i \<and> i < k + length ss \<and> \<not> ss ! (i - k)"
proof (induction ss arbitrary: k)
  case (Cons s ss)
  show ?case
  proof (cases s)
    case True
    then have "Suc k \<le> i \<and> i < Suc k + length ss \<and> \<not> ss ! (i - Suc k)" using Cons.IH [of "Suc k"] Cons.prems True by simp
    then show ?thesis by (auto simp: nth_Cons')
  qed (use Cons.prems in auto)
qed simp

lemma first_free_None: "first_free ss k = None \<longleftrightarrow> (\<forall>s \<in> set ss. s)"
  by (induction ss arbitrary: k) auto

text \<open>
  The markers handed out and not released, \<open>L\<close>, are told apart by their slots, which are the
  occupied ones, and no object holds a serial number the manager has not reached.
\<close>

definition manager_ok :: "MarkerManager \<Rightarrow> Marker set \<Rightarrow> bool" where
  "manager_ok m L \<longleftrightarrow>
     length (markersSlots m) = 4 \<and> inj_on marker_slot L
     \<and> (\<forall>i<4. markersSlots m ! i \<longleftrightarrow> i \<in> marker_slot ` L)
     \<and> (\<forall>mark \<in> L. 0 < unat (marker_value mark) \<and> unat (marker_value mark) \<le> currentIndex m)
     \<and> currentIndex m \<le> MC_MAX_VALUE"

definition markers_ok :: "nat \<Rightarrow> markers \<Rightarrow> bool" where
  "markers_ok bound ms \<longleftrightarrow> length ms = 4 \<and> (\<forall>v \<in> set ms. unat v \<le> bound)"

lemma manager_init_ok: "manager_ok MarkerManager_init {}"
  by (auto simp: manager_ok_def MarkerManager_init_def MC_MAX_MARKERS_def MC_BIT_LENGTH_def nth_Cons' less_Suc_eq
      numeral_eq_Suc)

lemma Markable_init_ok: "markers_ok bound Markable_init"
  by (simp add: markers_ok_def Markable_init_def MC_MAX_MARKERS_def MC_BIT_LENGTH_def MC_UNDEF_VALUE_def)

lemma GetNewMarker_fresh:
  assumes "manager_ok m L" and "GetNewMarker m = Ok (mark, m')"
  shows "manager_ok m' (insert mark L)" and "mark \<notin> L"
    and "markers_ok (currentIndex m) ms \<Longrightarrow> IsMarkerSet mark ms = Ok False"
proof -
  let ?n = "Suc (currentIndex m)"
  obtain i where i: "first_free (markersSlots m) 0 = Some i"
    and mark: "mark = push_bit MC_BIT_LENGTH (of_nat ?n) OR of_nat i"
    and m': "m' = m\<lparr>currentIndex := ?n, markersSlots := (markersSlots m)[i := True]\<rparr>" and n: "currentIndex m < MC_MAX_VALUE"
    using assms(2) by (auto simp: GetNewMarker_def Let_def res_simps split: option.splits)
  have len: "length (markersSlots m) = 4" using assms(1) by (simp add: manager_ok_def)
  have i4: "i < 4" and free: "\<not> markersSlots m ! i" using first_free_Some [OF i] len by auto
  have "unat mark = 4 * ?n + i"
    unfolding mark by (rule made_marker) (use n i4 in \<open>simp_all add: MC_MAX_VALUE_def MC_BIT_LENGTH_def\<close>)
  then have fields: "unat (marker_value mark) = ?n" "marker_slot mark = i"
    using i4 unfolding marker_fields_unat by presburger+
  have new: "i \<notin> marker_slot ` L" using assms(1) free i4 by (auto simp: manager_ok_def)
  then show "mark \<notin> L" using fields by auto
  have "\<forall>j<4. (markersSlots m)[i := True] ! j \<longleftrightarrow> j \<in> marker_slot ` insert mark L"
    using assms(1) i4 len fields by (auto simp: manager_ok_def nth_list_update)
  moreover have "inj_on marker_slot (insert mark L)"
    using assms(1) new fields by (auto simp: manager_ok_def)
  moreover have "\<forall>x \<in> insert mark L. 0 < unat (marker_value x) \<and> unat (marker_value x) \<le> ?n"
    using assms(1) fields by (auto simp: manager_ok_def)
  ultimately show "manager_ok m' (insert mark L)"
    using len n unfolding manager_ok_def m' by simp
  show "IsMarkerSet mark ms = Ok False" if "markers_ok (currentIndex m) ms"
  proof -
    have "ms ! i \<noteq> marker_value mark"
    proof
      assume "ms ! i = marker_value mark"
      then have "unat (ms ! i) = ?n" using fields by simp
      with that i4 show False unfolding markers_ok_def by (metis Suc_n_not_le_n nth_mem)
    qed
    with that i4 show ?thesis by (simp add: IsMarkerSet_def fields markers_ok_def)
  qed
qed

lemma ReleaseMarker_ok:
  assumes "manager_ok m L" and "mark \<in> L"
  shows "manager_ok (ReleaseMarker mark m) (L - {mark})"
proof -
  have "j \<in> marker_slot ` (L - {mark}) \<longleftrightarrow> j \<in> marker_slot ` L \<and> j \<noteq> marker_slot mark" for j
    using assms by (auto simp: manager_ok_def inj_on_def)
  with assms show ?thesis
    by (auto simp: manager_ok_def ReleaseMarker_def nth_list_update intro: inj_on_diff)
qed

lemma GetNewMarker_Err_iff:
  assumes "manager_ok m L"
  shows "GetNewMarker m = Err AssertionFail \<longleftrightarrow> currentIndex m = MC_MAX_VALUE \<or> marker_slot ` L = {..<4}"
proof -
  have "first_free (markersSlots m) 0 = None \<longleftrightarrow> (\<forall>i<4. markersSlots m ! i)"
    using assms by (auto simp: first_free_None manager_ok_def set_conv_nth)
  also have "\<dots> \<longleftrightarrow> marker_slot ` L = {..<4}"
    using assms by (auto simp: manager_ok_def)
  finally show ?thesis
    using assms by (auto simp: GetNewMarker_def Let_def ASSERT_def manager_ok_def split: option.splits)
qed

section \<open>Marking\<close>

lemma SetMarker_laws:
  assumes "SetMarker mark ms = Ok (wasSet, ms')"
  shows "IsMarkerSet mark ms' = Ok True" and "IsMarkerSet mark ms = Ok (\<not> wasSet)"
    and "marker_slot other \<noteq> marker_slot mark \<Longrightarrow> IsMarkerSet other ms' = IsMarkerSet other ms"
  using assms by (auto simp: SetMarker_def IsMarkerSet_def Let_def res_simps)

lemma SetMarker_Ok:
  assumes "markers_ok b ms" and "unat (marker_value mark) \<le> b"
  shows "\<exists>w ms'. SetMarker mark ms = Ok (w, ms') \<and> markers_ok b ms'"
  using assms set_update_subset_insert [of ms "marker_slot mark" "marker_value mark"]
  by (auto simp: SetMarker_def Let_def markers_ok_def)

lemma ClearMarker_laws:
  assumes "ClearMarker mark ms = Ok ms'" and "0 < unat (marker_value mark)"
  shows "IsMarkerSet mark ms' = Ok False"
    and "marker_slot other \<noteq> marker_slot mark \<Longrightarrow> IsMarkerSet other ms' = IsMarkerSet other ms"
  using assms by (auto simp: ClearMarker_def IsMarkerSet_def Let_def res_simps MC_UNDEF_VALUE_def)

end
