(* ===== verification/JIT_Live.thy ===== *)
theory JIT_Live
  imports JIT_Marker
begin

text \<open>
  Live ranges, live intervals and value locations: \<open>ir/LiveAnalysisStructs.h\<close>,
  \<open>ir/LiveAnalysisStructs.cpp\<close>, \<open>include/ValueLocation.h\<close> and \<open>include/ArchInfoBase.h\<close>.  A live
  interval is the union of half-open ranges; \<open>AddRange\<close> is called from the end of the program to
  its beginning, so the vector holds the ranges in descending order and \<open>back()\<close> is the earliest.
  Linear numbers and range bounds are \<open>size_t\<close> values that count instructions; they are natural
  numbers here.
\<close>

section \<open>Value locations\<close>

datatype LocationType = LT_REGISTER | LT_STACK | LT_INVALID

definition GetLocationName :: "LocationType \<Rightarrow> string" where
  "GetLocationName type =
     (if type = LT_REGISTER then ''Reg'' else if type = LT_STACK then ''Slot'' else ''Invalid location'')"

definition MAX_REG_NUMBER :: nat where
  "MAX_REG_NUMBER = 2 ^ 16 - 1"

record ValueLocation =
  loc_type :: LocationType
  loc_id :: nat

definition ValueLocation_init :: ValueLocation where
  "ValueLocation_init = \<lparr>loc_type = LT_INVALID, loc_id = 0\<rparr>"

section \<open>Live ranges\<close>

record LiveRange =
  r_begin :: nat
  r_end :: nat

definition INVALID_RANGE :: nat where
  "INVALID_RANGE = 2 ^ 64 - 1"

definition LiveRange_ctor :: "nat \<Rightarrow> nat \<Rightarrow> (abort, LiveRange) res" where
  "LiveRange_ctor b e = ASSERT (b \<le> e) (Ok \<lparr>r_begin = b, r_end = e\<rparr>)"

definition Range_SetBegin :: "nat \<Rightarrow> LiveRange \<Rightarrow> (abort, LiveRange) res" where
  "Range_SetBegin b r = ASSERT (b < r_end r) (Ok (r\<lparr>r_begin := b\<rparr>))"

definition Includes :: "LiveRange \<Rightarrow> LiveRange \<Rightarrow> bool" where
  "Includes r other = (r_begin r \<le> r_begin other \<and> r_end r \<ge> r_end other)"

definition Intersects :: "LiveRange \<Rightarrow> LiveRange \<Rightarrow> bool" where
  "Intersects r other =
     ((r_begin r \<ge> r_begin other \<and> r_begin r < r_end other) \<or>
      (r_begin other \<ge> r_begin r \<and> r_begin other < r_end r))"

definition Range_Union :: "LiveRange \<Rightarrow> LiveRange \<Rightarrow> (abort, LiveRange) res" where
  "Range_Union r other =
     ASSERT (Intersects r other)
       (LiveRange_ctor (min (r_begin r) (r_begin other)) (max (r_end r) (r_end other)))"

definition LeftAdjacent :: "LiveRange \<Rightarrow> LiveRange \<Rightarrow> bool" where
  "LeftAdjacent r other = (r_end r = r_begin other)"

definition range_less :: "LiveRange \<Rightarrow> LiveRange \<Rightarrow> bool" where
  "range_less r other = (r_end r \<le> r_begin other)"

definition range_le :: "LiveRange \<Rightarrow> LiveRange \<Rightarrow> bool" where
  "range_le r other = (r_end r \<le> r_end other)"

section \<open>Live intervals\<close>

record LiveInterval =
  v_ranges :: "LiveRange list"
  v_liveNumber :: nat
  v_instr :: "nat option"
  v_loc :: ValueLocation

definition LIVE_RANGE_STEP :: nat where
  "LIVE_RANGE_STEP = 2"

definition LiveInterval_ctor :: "nat \<Rightarrow> nat option \<Rightarrow> LiveInterval" where
  "LiveInterval_ctor liveNum instr =
     \<lparr>v_ranges = [], v_liveNumber = liveNum, v_instr = instr, v_loc = ValueLocation_init\<rparr>"

definition SetLocation :: "ValueLocation \<Rightarrow> LiveInterval \<Rightarrow> LiveInterval" where
  "SetLocation newLoc v = v\<lparr>v_loc := newLoc\<rparr>"

definition GetUpperRange :: "LiveInterval \<Rightarrow> (abort, LiveRange) res" where
  "GetUpperRange v =
     (if v_ranges v = [] then LiveRange_ctor 0 0
      else LiveRange_ctor (r_begin (last (v_ranges v))) (r_end (hd (v_ranges v))))"

definition GetBegin :: "LiveInterval \<Rightarrow> (abort, nat) res" where
  "GetBegin v = rbind (GetUpperRange v) (\<lambda>r. Ok (r_begin r))"

definition GetEnd :: "LiveInterval \<Rightarrow> (abort, nat) res" where
  "GetEnd v = rbind (GetUpperRange v) (\<lambda>r. Ok (r_end r))"

text \<open>\<open>operator==\<close> of intervals compares the ranges only.\<close>

definition interval_eq :: "LiveInterval \<Rightarrow> LiveInterval \<Rightarrow> bool" where
  "interval_eq v other =
     (length (v_ranges v) = length (v_ranges other) \<and>
      (\<forall>i \<in> set [0..<length (v_ranges v)]. v_ranges v ! i = v_ranges other ! i))"

text \<open>Update of the earliest range.\<close>

definition set_last :: "'a list \<Rightarrow> 'a \<Rightarrow> 'a list" where
  "set_last xs x = xs[length xs - 1 := x]"

definition Interval_SetBegin :: "nat \<Rightarrow> LiveInterval \<Rightarrow> (abort, LiveInterval) res" where
  "Interval_SetBegin b v =
     (if v_ranges v = [] then
        rbind (LiveRange_ctor b (b + LIVE_RANGE_STEP)) (\<lambda>r. Ok (v\<lparr>v_ranges := [r]\<rparr>))
      else
        ASSERT (r_end (last (v_ranges v)) \<ge> b)
          (rbind (Range_SetBegin b (last (v_ranges v))) (\<lambda>r.
           Ok (v\<lparr>v_ranges := set_last (v_ranges v) r\<rparr>))))"

definition AddRange :: "LiveRange \<Rightarrow> LiveInterval \<Rightarrow> (abort, LiveInterval) res" where
  "AddRange rng v =
     (if v_ranges v = [] then Ok (v\<lparr>v_ranges := v_ranges v @ [rng]\<rparr>)
      else
        (let earliest = last (v_ranges v) in
         if LeftAdjacent rng earliest then
           rbind (Range_SetBegin (r_begin rng) earliest) (\<lambda>r. Ok (v\<lparr>v_ranges := set_last (v_ranges v) r\<rparr>))
         else if range_less rng earliest then Ok (v\<lparr>v_ranges := v_ranges v @ [rng]\<rparr>)
         else ASSERT (Includes earliest rng) (Ok v)))"

definition AddRange_bounds :: "nat \<Rightarrow> nat \<Rightarrow> LiveInterval \<Rightarrow> (abort, LiveInterval) res" where
  "AddRange_bounds b e v = rbind (LiveRange_ctor b e) (\<lambda>r. AddRange r v)"

section \<open>Live sets\<close>

type_synonym LiveSet = "nat set"

definition LiveSet_Add :: "nat \<Rightarrow> LiveSet \<Rightarrow> LiveSet" where
  "LiveSet_Add instr s = insert instr s"

definition LiveSet_Remove :: "nat \<Rightarrow> LiveSet \<Rightarrow> bool \<times> LiveSet" where
  "LiveSet_Remove instr s = (instr \<in> s, s - {instr})"

definition LiveSet_Union :: "LiveSet \<Rightarrow> LiveSet \<Rightarrow> LiveSet" where
  "LiveSet_Union other s = s \<union> other"

record BlockInfo =
  bi_liveRange :: LiveRange
  bi_liveIn :: LiveSet

definition BlockInfo_init :: BlockInfo where
  "BlockInfo_init = \<lparr>bi_liveRange = \<lparr>r_begin = 0, r_end = 0\<rparr>, bi_liveIn = {}\<rparr>"

section \<open>What the intervals stand for\<close>

definition points :: "LiveRange \<Rightarrow> nat set" where
  "points r = {r_begin r..<r_end r}"

definition covered :: "LiveInterval \<Rightarrow> nat set" where
  "covered v = (\<Union>r \<in> set (v_ranges v). points r)"

text \<open>
  Well-formed intervals: no empty range, and every range ends before the one added before it
  begins, so ranges are disjoint and not even adjacent.
\<close>

definition ranges_ok :: "LiveRange list \<Rightarrow> bool" where
  "ranges_ok rs \<longleftrightarrow> (\<forall>r \<in> set rs. r_begin r < r_end r) \<and> sorted_wrt (\<lambda>r q. r_end q < r_begin r) rs"

definition interval_ok :: "LiveInterval \<Rightarrow> bool" where
  "interval_ok v \<longleftrightarrow> ranges_ok (v_ranges v)"

lemma Intersects_points:
  assumes "r_begin r < r_end r" and "r_begin q < r_end q"
  shows "Intersects r q \<longleftrightarrow> points r \<inter> points q \<noteq> {}"
proof
  assume "Intersects r q"
  with assms have "max (r_begin r) (r_begin q) \<in> points r \<inter> points q"
    by (auto simp: Intersects_def points_def)
  then show "points r \<inter> points q \<noteq> {}" by blast
qed (auto simp: Intersects_def points_def)

lemma Range_Union_points:
  assumes "r_begin r < r_end r" and "r_begin q < r_end q" and "Range_Union r q = Ok u"
  shows "points u = points r \<union> points q"
  using assms
  by (auto simp: Range_Union_def LiveRange_ctor_def Intersects_def points_def res_simps)

lemma range_less_points:
  assumes "r_begin r < r_end r" and "r_begin q < r_end q"
  shows "range_less r q \<longleftrightarrow> (\<forall>x \<in> points r. \<forall>y \<in> points q. x < y)"
proof
  assume "\<forall>x \<in> points r. \<forall>y \<in> points q. x < y"
  moreover have "r_end r - 1 \<in> points r" "r_begin q \<in> points q"
    using assms by (auto simp: points_def)
  ultimately show "range_less r q" by (fastforce simp: range_less_def)
qed (auto simp: range_less_def points_def)

lemma ranges_ok_snoc:
  "ranges_ok (rs @ [r]) \<longleftrightarrow> ranges_ok rs \<and> r_begin r < r_end r \<and> (\<forall>q \<in> set rs. r_end r < r_begin q)"
  by (auto simp: ranges_ok_def sorted_wrt_append)

lemma set_last_snoc [simp]: "set_last (rs @ [r]) x = rs @ [x]"
  by (simp add: set_last_def)

lemma AddRange_correct:
  assumes "interval_ok v" and "r_begin r < r_end r" and "AddRange r v = Ok w"
  shows "interval_ok w" and "covered w = covered v \<union> points r"
proof -
  have "interval_ok w \<and> covered w = covered v \<union> points r"
  proof (cases "v_ranges v" rule: rev_cases)
    case Nil
    with assms show ?thesis by (auto simp: AddRange_def interval_ok_def ranges_ok_def covered_def)
  next
    case (snoc rs e)
    have ok: "ranges_ok rs" "r_begin e < r_end e" "\<forall>q \<in> set rs. r_end e < r_begin q"
      using assms(1) snoc by (auto simp: interval_ok_def ranges_ok_snoc)
    consider (adj) "w = v\<lparr>v_ranges := rs @ [e\<lparr>r_begin := r_begin r\<rparr>]\<rparr>" "r_end r = r_begin e"
      | (new) "w = v\<lparr>v_ranges := (rs @ [e]) @ [r]\<rparr>" "r_end r < r_begin e" | (old) "w = v" "Includes e r"
      using assms(3) snoc
      by (auto simp: AddRange_def Let_def LeftAdjacent_def range_less_def Range_SetBegin_def res_simps split: if_split_asm)
    then show ?thesis
    proof cases
      case adj
      then show ?thesis using ok assms(2) snoc
        by (fastforce simp: interval_ok_def ranges_ok_snoc covered_def points_def)
    next
      case new
      have "\<forall>q \<in> set (rs @ [e]). r_end r < r_begin q" using ok new(2) by fastforce
      moreover have "ranges_ok (rs @ [e])" using ok by (simp add: ranges_ok_snoc)
      ultimately show ?thesis using new assms(2) snoc
        by (simp add: interval_ok_def ranges_ok_snoc [of "rs @ [e]"] covered_def Un_ac del: append_assoc)
    next
      case old
      then have "points r \<subseteq> covered v" using snoc by (auto simp: Includes_def points_def covered_def)
      then show ?thesis using old assms(1) by auto
    qed
  qed
  then show "interval_ok w" and "covered w = covered v \<union> points r" by blast+
qed

text \<open>\<open>SetBegin\<close> moves the begin of the earliest range.\<close>

lemma SetBegin_correct:
  assumes "interval_ok v" and "v_ranges v \<noteq> []" and "Interval_SetBegin b v = Ok w" and "e = r_end (last (v_ranges v))"
  shows "interval_ok w" and "covered w = (covered v - {..<e}) \<union> {b..<e}"
proof -
  obtain rs r where v: "v_ranges v = rs @ [r]" using assms(2) by (metis rev_exhaust)
  have ok: "ranges_ok rs" "r_begin r < r_end r" "\<forall>q \<in> set rs. r_end r < r_begin q"
    using assms(1) v by (auto simp: interval_ok_def ranges_ok_snoc)
  have w: "w = v\<lparr>v_ranges := rs @ [r\<lparr>r_begin := b\<rparr>]\<rparr>" "b < r_end r"
    using assms(3) v by (auto simp: Interval_SetBegin_def Range_SetBegin_def res_simps)
  show "interval_ok w" using w ok by (simp add: interval_ok_def ranges_ok_snoc)
  show "covered w = (covered v - {..<e}) \<union> {b..<e}"
    using w ok assms(4) v by (fastforce simp: covered_def points_def)
qed

text \<open>The hull of a well-formed interval: from its first point to its last one.\<close>

lemma ranges_ok_bounds:
  assumes "ranges_ok rs" and "r \<in> set rs"
  shows "r_begin (last rs) \<le> r_begin r" and "r_end r \<le> r_end (hd rs)"
proof -
  have "r_begin (last rs) \<le> r_begin r" if "ranges_ok rs" "r \<in> set rs" for rs
    using that
  proof (induction rs rule: rev_induct)
    case (snoc q rs)
    then show ?case by (fastforce simp: ranges_ok_snoc)
  qed simp
  with assms show "r_begin (last rs) \<le> r_begin r" by blast
  show "r_end r \<le> r_end (hd rs)"
    using assms by (cases rs) (fastforce simp: ranges_ok_def)+
qed

lemma upper_range:
  assumes "interval_ok v" and "v_ranges v \<noteq> []"
  shows "GetBegin v = Ok (Min (covered v))" and "GetEnd v = Ok (Suc (Max (covered v)))"
proof -
  let ?rs = "v_ranges v" and ?l = "r_begin (last (v_ranges v))" and ?h = "r_end (hd (v_ranges v))"
  note b = ranges_ok_bounds [OF assms(1) [unfolded interval_ok_def]]
  have ne: "r_begin r < r_end r" if "r \<in> set ?rs" for r
    using assms(1) that by (simp add: interval_ok_def ranges_ok_def)
  have mem: "last ?rs \<in> set ?rs" "hd ?rs \<in> set ?rs" using assms(2) by simp_all
  have le: "?l < ?h" using ne [OF mem(2)] b(1) [OF mem(2)] by simp
  have fin: "finite (covered v)" by (simp add: covered_def points_def)
  have l: "?l \<in> covered v" and h: "?h - 1 \<in> covered v"
    using mem ne [OF mem(1)] ne [OF mem(2)] by (force simp: covered_def points_def)+
  have "?l \<le> x \<and> x \<le> ?h - 1" if "x \<in> covered v" for x
    using that b le by (fastforce simp: covered_def points_def)
  then have "Min (covered v) = ?l" "Max (covered v) = ?h - 1"
    using fin l h by (auto intro!: Min_eqI Max_eqI)
  then show "GetBegin v = Ok (Min (covered v))" and "GetEnd v = Ok (Suc (Max (covered v)))"
    using le assms(2) by (simp_all add: GetBegin_def GetEnd_def GetUpperRange_def LiveRange_ctor_def)
qed

end
