(* ===== verification/JIT_RegAlloc.thy ===== *)
theory JIT_RegAlloc
  imports JIT_Live
begin

text \<open>
  Linear scan register allocation: the register map (\<open>codegen/RegMap.h\<close>) and the scan of the
  live intervals (\<open>codegen/LinearScanRegAlloc.h\<close>, \<open>LinearScanRegAlloc.cpp\<close>).  The vector of
  intervals is a list, a pointer to one its index.  \<open>1 << reg\<close> is an \<open>int\<close>: a shift by 32 or more
  and the subtraction that overflows are \<open>UB\<close>, and the value is sign-extended when it meets the
  64-bit map.  The assertions decide what this component does, so its definitions have the build
  as an argument: \<open>dbg\<close> is true in the debug build, where a failed \<open>ASSERT\<close> ends the program, and
  false with \<open>NDEBUG\<close>, where \<open>ASSERT\<close> is empty.
\<close>

definition CHECK :: "bool \<Rightarrow> bool \<Rightarrow> (abort, 'a) res \<Rightarrow> (abort, 'a) res" where
  "CHECK dbg b r = (if dbg then ASSERT b r else r)"

text \<open>\<open>GetBegin\<close> and \<open>GetEnd\<close> of an interval construct a range, whose constructor asserts.\<close>

definition begin_of :: "bool \<Rightarrow> LiveInterval \<Rightarrow> (abort, nat) res" where
  "begin_of dbg v =
     (if dbg then GetBegin v else Ok (if v_ranges v = [] then 0 else r_begin (last (v_ranges v))))"

definition end_of :: "bool \<Rightarrow> LiveInterval \<Rightarrow> (abort, nat) res" where
  "end_of dbg v =
     (if dbg then GetEnd v else Ok (if v_ranges v = [] then 0 else r_end (hd (v_ranges v))))"

section \<open>The register map\<close>

record RegMap =
  rm_regsCount :: nat
  rm_map :: u64
  rm_fullMap :: u64

definition MAX_REGS_COUNT :: nat where
  "MAX_REGS_COUNT = 64"

definition shift_one :: "nat \<Rightarrow> (abort, u32) res" where
  "shift_one n = (if n < 32 then Ok (push_bit n 1) else UB)"

definition minus_one :: "u32 \<Rightarrow> (abort, u32) res" where
  "minus_one x = (if sint x = - (2 ^ 31) then UB else Ok (x - 1))"

definition RegMap_ctor :: "bool \<Rightarrow> nat \<Rightarrow> (abort, RegMap) res" where
  "RegMap_ctor dbg regsCount =
     rbind
       (if regsCount \<ge> MAX_REGS_COUNT then Ok 0
        else rbind (shift_one regsCount) (\<lambda>b. rbind (minus_one b) (\<lambda>x. Ok (scast (NOT x))))) (\<lambda>full.
     CHECK dbg (regsCount \<le> MAX_REGS_COUNT)
       (Ok \<lparr>rm_regsCount = regsCount, rm_map = 0 - 1, rm_fullMap = full\<rparr>))"

definition IsFull :: "RegMap \<Rightarrow> bool" where
  "IsFull m = (rm_map m = rm_fullMap m)"

text \<open>\<open>__builtin_ffsll\<close>\<close>

definition ffsll :: "u64 \<Rightarrow> nat" where
  "ffsll x = (case find (\<lambda>i. bit x i) [0..<64] of Some i \<Rightarrow> i + 1 | None \<Rightarrow> 0)"

definition AcquireReg :: "RegMap \<Rightarrow> (abort, int \<times> RegMap) res" where
  "AcquireReg m =
     (let reg = int (ffsll (rm_map m)) - 1 in
      if reg \<ge> 0 \<and> reg < int (rm_regsCount m) then
        rbind (shift_one (nat reg)) (\<lambda>b. Ok (reg, m\<lparr>rm_map := rm_map m AND scast (NOT b)\<rparr>))
      else Ok (reg, m))"

definition ReleaseReg :: "bool \<Rightarrow> nat \<Rightarrow> RegMap \<Rightarrow> (abort, RegMap) res" where
  "ReleaseReg dbg reg m =
     CHECK dbg (reg < rm_regsCount m)
       (rbind (shift_one reg) (\<lambda>b. Ok (m\<lparr>rm_map := rm_map m OR scast b\<rparr>)))"

section \<open>The scan\<close>

record LinearScan =
  ls_slotCounter :: nat
  ls_active :: "nat list"
  ls_regMap :: RegMap
  ls_intervals :: "LiveInterval list"

definition LinearScan_ctor :: "bool \<Rightarrow> nat \<Rightarrow> LiveInterval list \<Rightarrow> (abort, LinearScan) res" where
  "LinearScan_ctor dbg regsCount liveIntervals =
     rbind (RegMap_ctor dbg regsCount) (\<lambda>m.
     Ok \<lparr>ls_slotCounter = 0, ls_active = [], ls_regMap = m, ls_intervals = liveIntervals\<rparr>)"

definition set_loc :: "nat \<Rightarrow> ValueLocation \<Rightarrow> LinearScan \<Rightarrow> LinearScan" where
  "set_loc i l s = s\<lparr>ls_intervals := (ls_intervals s)[i := SetLocation l (ls_intervals s ! i)]\<rparr>"

definition loc_of :: "LinearScan \<Rightarrow> nat \<Rightarrow> ValueLocation" where
  "loc_of s i = v_loc (ls_intervals s ! i)"

fun expire_loop :: "bool \<Rightarrow> LiveInterval list \<Rightarrow> LiveInterval \<Rightarrow> nat list \<Rightarrow> RegMap \<Rightarrow> (abort, nat list \<times> RegMap) res" where
  "expire_loop dbg ivs intervals [] m = Ok ([], m)"
| "expire_loop dbg ivs intervals (a # as) m =
     rbind (end_of dbg (ivs ! a)) (\<lambda>e. rbind (begin_of dbg intervals) (\<lambda>b.
     if e > b then Ok (a # as, m)
     else rbind (ReleaseReg dbg (loc_id (v_loc (ivs ! a))) m) (expire_loop dbg ivs intervals as)))"

definition expireOldIntervals :: "bool \<Rightarrow> nat \<Rightarrow> LinearScan \<Rightarrow> (abort, LinearScan) res" where
  "expireOldIntervals dbg i s =
     rbind (expire_loop dbg (ls_intervals s) (ls_intervals s ! i) (ls_active s) (ls_regMap s)) (\<lambda>(active, m).
     Ok (s\<lparr>ls_active := active, ls_regMap := m\<rparr>))"

definition getNextSlot :: "bool \<Rightarrow> LinearScan \<Rightarrow> (abort, nat \<times> LinearScan) res" where
  "getNextSlot dbg s =
     CHECK dbg (ls_slotCounter s < MAX_REG_NUMBER)
       (Ok (ls_slotCounter s, s\<lparr>ls_slotCounter := (ls_slotCounter s + 1) mod 2 ^ 16\<rparr>))"

definition spillToStack :: "bool \<Rightarrow> nat \<Rightarrow> LinearScan \<Rightarrow> (abort, ValueLocation \<times> LinearScan) res" where
  "spillToStack dbg i s =
     (let prevLoc = loc_of s i in
      rbind (getNextSlot dbg s) (\<lambda>(slot, s).
      Ok (prevLoc, set_loc i \<lparr>loc_type = LT_STACK, loc_id = slot\<rparr> s)))"

definition spillAtInterval :: "bool \<Rightarrow> nat \<Rightarrow> LinearScan \<Rightarrow> (abort, LinearScan) res" where
  "spillAtInterval dbg i s =
     (if ls_active s = [] then UB
      else
        (let spilled = last (ls_active s) in
         rbind (end_of dbg (ls_intervals s ! spilled)) (\<lambda>e1. rbind (end_of dbg (ls_intervals s ! i)) (\<lambda>e2.
         if e1 < e2 then rbind (spillToStack dbg i s) (\<lambda>(_, s). Ok s)
         else
           rbind (spillToStack dbg spilled s) (\<lambda>(reg, s).
           CHECK dbg (loc_type reg = LT_REGISTER)
             (let s = set_loc i reg s in Ok (s\<lparr>ls_active := butlast (ls_active s)\<rparr>)))))))"

definition assignToReg :: "bool \<Rightarrow> nat \<Rightarrow> LinearScan \<Rightarrow> (abort, LinearScan) res" where
  "assignToReg dbg i s =
     rbind (AcquireReg (ls_regMap s)) (\<lambda>(reg, m).
     CHECK dbg (reg \<ge> 0)
       (Ok (set_loc i \<lparr>loc_type = LT_REGISTER, loc_id = nat (reg mod 2 ^ 16)\<rparr> (s\<lparr>ls_regMap := m\<rparr>))))"

text \<open>\<open>std::find_if\<close> and \<open>list::insert\<close>\<close>

fun insert_by_end :: "bool \<Rightarrow> LiveInterval list \<Rightarrow> nat \<Rightarrow> nat \<Rightarrow> nat list \<Rightarrow> (abort, nat list) res" where
  "insert_by_end dbg ivs liveEnd i [] = Ok [i]"
| "insert_by_end dbg ivs liveEnd i (a # as) =
     rbind (end_of dbg (ivs ! a)) (\<lambda>e.
     if liveEnd \<le> e then Ok (i # a # as)
     else rbind (insert_by_end dbg ivs liveEnd i as) (\<lambda>as. Ok (a # as)))"

definition addActiveInterval :: "bool \<Rightarrow> nat \<Rightarrow> LinearScan \<Rightarrow> (abort, LinearScan) res" where
  "addActiveInterval dbg i s =
     CHECK dbg (\<not> IsFull (ls_regMap s))
       (rbind (end_of dbg (ls_intervals s ! i)) (\<lambda>liveEnd.
        rbind (insert_by_end dbg (ls_intervals s) liveEnd i (ls_active s)) (\<lambda>active.
        Ok (s\<lparr>ls_active := active\<rparr>))))"

definition allocate_step :: "bool \<Rightarrow> nat \<Rightarrow> LinearScan \<Rightarrow> (abort, LinearScan) res" where
  "allocate_step dbg i s =
     rbind (expireOldIntervals dbg i s) (\<lambda>s.
     if IsFull (ls_regMap s) then spillAtInterval dbg i s
     else rbind (assignToReg dbg i s) (addActiveInterval dbg i))"

fun allocate_all :: "bool \<Rightarrow> nat list \<Rightarrow> LinearScan \<Rightarrow> (abort, LinearScan) res" where
  "allocate_all dbg [] s = Ok s"
| "allocate_all dbg (i # is) s = rbind (allocate_step dbg i s) (allocate_all dbg is)"

text \<open>\<open>LiveIntervals::begin()\<close> is \<open>rbegin()\<close>: the scan starts with the last interval.\<close>

definition allocateAndAssignRegs :: "bool \<Rightarrow> LinearScan \<Rightarrow> (abort, LinearScan) res" where
  "allocateAndAssignRegs dbg s = allocate_all dbg (rev [0..<length (ls_intervals s)]) s"

end
