(* ===== verification/JIT_RegAllocSafe.thy ===== *)
theory JIT_RegAllocSafe
  imports JIT_RegAlloc
begin

text \<open>
  Correctness of the linear scan: what the register map holds, the invariant of the scan, that
  intervals which share a register do not overlap, and that the scan succeeds without spilling when
  the intervals live at one point are fewer than the registers.
\<close>

section \<open>The register map\<close>

definition is_free :: "RegMap \<Rightarrow> nat \<Rightarrow> bool" where
  "is_free m r \<longleftrightarrow> bit (rm_map m) r"

text \<open>A map for at most 30 registers; the bits of no register stay set.\<close>

definition regs_ok :: "nat \<Rightarrow> RegMap \<Rightarrow> bool" where
  "regs_ok n m \<longleftrightarrow>
     n \<le> 30 \<and> rm_regsCount m = n \<and> (\<forall>i < 64. bit (rm_fullMap m) i \<longleftrightarrow> n \<le> i) \<and> (\<forall>i. n \<le> i \<and> i < 64 \<longrightarrow> is_free m i)"

lemma bit_shift_one: "n < 32 \<Longrightarrow> bit (push_bit n 1 :: u32) i \<longleftrightarrow> i = n"
  by (auto simp: bit_simps)

lemma bit_scast_u32: "bit (scast (x :: u32) :: u64) i \<longleftrightarrow> i < 64 \<and> (if i < 32 then bit x i else bit x 31)"
  by (auto simp: bit_simps dest: bit_imp_le_length)

lemma RegMap_ctor_ok:
  assumes "n \<le> 30"
  obtains m where "RegMap_ctor dbg n = Ok m" and "regs_ok n m" and "\<forall>r < n. is_free m r"
proof -
  have "sint (push_bit n 1 :: u32) \<noteq> - (2 ^ 31)"
  proof -
    have "\<not> bit (push_bit n 1 :: u32) 31" using assms by (simp add: bit_simps)
    then have "0 \<le> sint (push_bit n 1 :: u32)" using bit_last_iff [of "push_bit n 1 :: u32"] by simp
    then show ?thesis by simp
  qed
  then have "RegMap_ctor dbg n = Ok \<lparr>rm_regsCount = n, rm_map = 0 - 1, rm_fullMap = scast (NOT (mask n :: u32))\<rparr>" (is "_ = Ok ?m")
    using assms by (simp add: RegMap_ctor_def MAX_REGS_COUNT_def shift_one_def minus_one_def mask_eq_decr_exp CHECK_def)
  moreover have "regs_ok n ?m"
    using assms by (auto simp: regs_ok_def is_free_def bit_scast_u32 bit_simps)
  moreover have "\<forall>r < n. is_free ?m r"
    using assms by (simp add: is_free_def bit_simps)
  ultimately show thesis using that by blast
qed

lemma IsFull_iff: "regs_ok n m \<Longrightarrow> IsFull m \<longleftrightarrow> (\<forall>r < n. \<not> is_free m r)"
proof -
  assume ok: "regs_ok n m"
  have "IsFull m \<longleftrightarrow> (\<forall>i < 64. bit (rm_map m) i = bit (rm_fullMap m) i)"
    unfolding IsFull_def by (auto intro: bit_word_eqI)
  also have "\<dots> \<longleftrightarrow> (\<forall>r < n. \<not> is_free m r)"
    using ok by (auto simp: regs_ok_def is_free_def)
  finally show ?thesis .
qed

lemma find_bit:
  assumes "bit (x :: u64) i" "i < 64"
  obtains j where "find (bit x) [0..<64] = Some j" "bit x j" "j \<le> i"
proof -
  have "find (bit x) [0..<64] \<noteq> None" using assms by (auto simp: find_None_iff)
  then obtain j where j: "find (bit x) [0..<64] = Some j" by blast
  then obtain k where k: "k < 64" "bit x ([0..<64] ! k)" "j = [0..<64] ! k" "\<forall>l<k. \<not> bit x ([0..<64] ! l)"
    by (auto simp: find_Some_iff)
  then have "j = k" "\<forall>l < k. \<not> bit x l" by auto
  with k assms j that show thesis by (metis not_le)
qed

lemma AcquireReg_ok:
  assumes ok: "regs_ok n m" and "\<not> IsFull m"
  obtains r where "r < n" and "is_free m r" and "AcquireReg m = Ok (int r, m\<lparr>rm_map := unset_bit r (rm_map m)\<rparr>)"
proof -
  obtain i where i: "i < n" "is_free m i" using IsFull_iff [OF ok] assms(2) by blast
  then have "bit (rm_map m) i" "i < 64" using ok by (auto simp: is_free_def regs_ok_def)
  then obtain r where r: "find (bit (rm_map m)) [0..<64] = Some r" "bit (rm_map m) r" "r \<le> i"
    by (rule find_bit)
  then have rn: "r < n" "r \<le> 30" using i ok by (auto simp: regs_ok_def)
  have "rm_map m AND scast (NOT (push_bit r 1) :: u32) = unset_bit r (rm_map m)"
    using rn by (intro bit_eqI) (auto simp: bit_scast_u32 bit_simps)
  then have "AcquireReg m = Ok (int r, m\<lparr>rm_map := unset_bit r (rm_map m)\<rparr>)"
    using r rn ok by (simp add: AcquireReg_def ffsll_def Let_def shift_one_def regs_ok_def)
  then show thesis using that rn r by (simp add: is_free_def)
qed

lemma ReleaseReg_ok:
  assumes "regs_ok n m" and "r < n"
  shows "ReleaseReg dbg r m = Ok (m\<lparr>rm_map := set_bit r (rm_map m)\<rparr>)"
proof -
  have "rm_map m OR scast (push_bit r 1 :: u32) = set_bit r (rm_map m)"
    using assms by (intro bit_eqI) (auto simp: bit_scast_u32 bit_simps regs_ok_def)
  then show ?thesis
    using assms by (simp add: ReleaseReg_def CHECK_def shift_one_def regs_ok_def)
qed

lemma regs_ok_bits:
  assumes "regs_ok n m" and "r < n"
  shows "regs_ok n (m\<lparr>rm_map := set_bit r (rm_map m)\<rparr>)" and "regs_ok n (m\<lparr>rm_map := unset_bit r (rm_map m)\<rparr>)"
    and "q < n \<Longrightarrow> is_free (m\<lparr>rm_map := set_bit r (rm_map m)\<rparr>) q \<longleftrightarrow> q = r \<or> is_free m q"
    and "q < n \<Longrightarrow> is_free (m\<lparr>rm_map := unset_bit r (rm_map m)\<rparr>) q \<longleftrightarrow> q \<noteq> r \<and> is_free m q"
  using assms by (auto simp: regs_ok_def is_free_def bit_simps)

text \<open>The register count of the default architecture overflows the constructor's arithmetic.\<close>

lemma RegMap_ctor_31: "RegMap_ctor dbg 31 = UB"
  by (simp add: RegMap_ctor_def MAX_REGS_COUNT_def shift_one_def minus_one_def)

lemma RegMap_ctor_32: "32 \<le> n \<Longrightarrow> n < 64 \<Longrightarrow> RegMap_ctor dbg n = UB"
  by (simp add: RegMap_ctor_def MAX_REGS_COUNT_def shift_one_def)


section \<open>Safety of the scan\<close>

text \<open>
  \<open>B\<close> and \<open>E\<close> are the bounds of the intervals' hulls.  \<open>scanned\<close> have been processed, in this
  order, and \<open>todo\<close> come next.  Two intervals that are given the same register, in whatever
  order, do not overlap; a register marked free is one whose holders have all ended before the
  next interval begins.
\<close>

definition in_reg :: "LiveInterval list \<Rightarrow> nat \<Rightarrow> bool" where
  "in_reg ivs i \<longleftrightarrow> loc_type (v_loc (ivs ! i)) = LT_REGISTER"

definition reg_of :: "LiveInterval list \<Rightarrow> nat \<Rightarrow> nat" where
  "reg_of ivs i = loc_id (v_loc (ivs ! i))"

definition hulls :: "LiveInterval list \<Rightarrow> (nat \<Rightarrow> nat) \<Rightarrow> (nat \<Rightarrow> nat) \<Rightarrow> bool" where
  "hulls ivs B E \<longleftrightarrow> (\<forall>i < length ivs. \<forall>dbg. begin_of dbg (ivs ! i) = Ok (B i) \<and> end_of dbg (ivs ! i) = Ok (E i))"

definition scan_inv ::
    "nat \<Rightarrow> (nat \<Rightarrow> nat) \<Rightarrow> (nat \<Rightarrow> nat) \<Rightarrow> nat list \<Rightarrow> nat list \<Rightarrow> LiveInterval list \<Rightarrow> nat list \<Rightarrow> RegMap \<Rightarrow> bool" where
  "scan_inv n B E scanned todo ivs active m \<longleftrightarrow>
     regs_ok n m \<and> hulls ivs B E \<and>
     distinct (scanned @ todo) \<and> set (scanned @ todo) \<subseteq> {..<length ivs} \<and>
     sorted_wrt (\<lambda>i j. B i \<le> B j) (scanned @ todo) \<and>
     (\<forall>i \<in> set scanned. in_reg ivs i \<longrightarrow> reg_of ivs i < n) \<and>
     sorted_wrt (\<lambda>i j. in_reg ivs i \<and> in_reg ivs j \<and> reg_of ivs i = reg_of ivs j \<longrightarrow> E i \<le> B j) scanned \<and>
     (\<forall>i \<in> set scanned. in_reg ivs i \<and> is_free m (reg_of ivs i) \<longrightarrow> (\<forall>j \<in> set todo. E i \<le> B j)) \<and>
     distinct active \<and> set active \<subseteq> set scanned \<and> inj_on (reg_of ivs) (set active) \<and>
     (\<forall>a \<in> set active. in_reg ivs a \<and> \<not> is_free m (reg_of ivs a) \<and>
        (\<forall>i \<in> set scanned. in_reg ivs i \<and> reg_of ivs i = reg_of ivs a \<longrightarrow> i = a \<or> E i \<le> B a))"

lemma scan_invD:
  assumes "scan_inv n B E scanned todo ivs active m"
  shows "regs_ok n m" and "hulls ivs B E" and "distinct (scanned @ todo)" and "set (scanned @ todo) \<subseteq> {..<length ivs}"
    and "sorted_wrt (\<lambda>i j. B i \<le> B j) (scanned @ todo)"
    and "\<And>i. i \<in> set scanned \<Longrightarrow> in_reg ivs i \<Longrightarrow> reg_of ivs i < n"
    and "sorted_wrt (\<lambda>i j. in_reg ivs i \<and> in_reg ivs j \<and> reg_of ivs i = reg_of ivs j \<longrightarrow> E i \<le> B j) scanned"
    and "\<And>i j. i \<in> set scanned \<Longrightarrow> in_reg ivs i \<Longrightarrow> is_free m (reg_of ivs i) \<Longrightarrow> j \<in> set todo \<Longrightarrow> E i \<le> B j"
    and "distinct active" and "set active \<subseteq> set scanned" and "inj_on (reg_of ivs) (set active)"
    and "\<And>a. a \<in> set active \<Longrightarrow> in_reg ivs a" and "\<And>a. a \<in> set active \<Longrightarrow> \<not> is_free m (reg_of ivs a)"
    and "\<And>a i. a \<in> set active \<Longrightarrow> i \<in> set scanned \<Longrightarrow> in_reg ivs i \<Longrightarrow> reg_of ivs i = reg_of ivs a \<Longrightarrow> i = a \<or> E i \<le> B a"
  using assms unfolding scan_inv_def by blast+

lemma expire_head:
  assumes inv: "scan_inv n B E scanned (c # todo) ivs (a # as) m" and "E a \<le> B c"
  shows "reg_of ivs a < n"
    and "scan_inv n B E scanned (c # todo) ivs as (m\<lparr>rm_map := set_bit (reg_of ivs a) (rm_map m)\<rparr>)"
proof -
  note I = scan_invD [OF inv]
  have a: "a \<in> set scanned" "in_reg ivs a" using I(10,12) by simp_all
  show r: "reg_of ivs a < n" by (rule I(6) [OF a])
  let ?m = "m\<lparr>rm_map := set_bit (reg_of ivs a) (rm_map m)\<rparr>"
  have free: "is_free ?m (reg_of ivs i) \<longleftrightarrow> reg_of ivs i = reg_of ivs a \<or> is_free m (reg_of ivs i)"
    if "i \<in> set scanned" "in_reg ivs i" for i
    using regs_ok_bits(3) [OF I(1) r I(6) [OF that]] .
  have Ba: "B a \<le> B c" using I(5) a(1) by (simp add: sorted_wrt_append)
  have c_first: "B c \<le> B j" if "j \<in> set (c # todo)" for j
    using I(5) that by (auto simp: sorted_wrt_append)
  have "E i \<le> B j" if "i \<in> set scanned" "in_reg ivs i" "is_free ?m (reg_of ivs i)" "j \<in> set (c # todo)" for i j
  proof (cases "reg_of ivs i = reg_of ivs a")
    case True
    then have "E i \<le> B c" using I(14) [of a i] that(1,2) assms(2) Ba by fastforce
    with c_first [OF that(4)] show ?thesis by simp
  next
    case False
    with free that I(8) show ?thesis by blast
  qed
  moreover have "\<not> is_free ?m (reg_of ivs b)" if "b \<in> set as" for b
  proof -
    have b: "b \<in> set scanned" "in_reg ivs b" "b \<noteq> a" using that I(9,10,12) by auto
    then have "reg_of ivs b \<noteq> reg_of ivs a" using that inj_onD [OF I(11), of b a] by auto
    with free [OF b(1,2)] I(13) that show ?thesis by simp
  qed
  ultimately show "scan_inv n B E scanned (c # todo) ivs as ?m"
    using inv regs_ok_bits(1) [OF I(1) r] unfolding scan_inv_def by (auto simp: inj_on_def)
qed

lemma expire_inv:
  assumes "scan_inv n B E scanned (c # todo) ivs active m"
  shows "\<exists>active' m'. expire_loop dbg ivs (ivs ! c) active m = Ok (active', m') \<and> scan_inv n B E scanned (c # todo) ivs active' m'"
  using assms
proof (induction active arbitrary: m)
  case (Cons a as)
  note I = scan_invD [OF Cons.prems]
  have "a < length ivs" "c < length ivs" using I(4,10) by auto
  with I(2) have be: "end_of dbg (ivs ! a) = Ok (E a)" "begin_of dbg (ivs ! c) = Ok (B c)"
    by (simp_all add: hulls_def)
  show ?case
  proof (cases "E a > B c")
    case False
    note H = expire_head [OF Cons.prems]
    show ?thesis
      using Cons.IH [OF H(2)] ReleaseReg_ok [OF I(1) H(1), of dbg] False be by (simp add: reg_of_def)
  qed (use be Cons.prems in simp)
qed simp


lemma scan_inv_step:
  assumes inv: "scan_inv n B E scanned (c # todo) ivs active m"
    and len: "length ivs' = length ivs" and hulls: "hulls ivs' B E"
    and old: "\<And>i. i \<in> set scanned \<Longrightarrow> in_reg ivs' i \<Longrightarrow> in_reg ivs i \<and> reg_of ivs' i = reg_of ivs i"
    and ok: "regs_ok n m'" and free: "\<And>r. r < n \<Longrightarrow> is_free m' r \<Longrightarrow> is_free m r"
    and c: "in_reg ivs' c \<Longrightarrow> reg_of ivs' c < n \<and> \<not> is_free m' (reg_of ivs' c) \<and>
        (\<forall>i \<in> set scanned. in_reg ivs' i \<and> reg_of ivs' i = reg_of ivs' c \<longrightarrow> E i \<le> B c)"
    and act: "distinct active'" "c \<in> set active' \<Longrightarrow> in_reg ivs' c"
    and act': "\<And>a. a \<in> set active' \<Longrightarrow> a \<noteq> c \<Longrightarrow> a \<in> set active \<and> in_reg ivs' a \<and> \<not> is_free m' (reg_of ivs a) \<and>
        (in_reg ivs' c \<longrightarrow> reg_of ivs a \<noteq> reg_of ivs' c)"
  shows "scan_inv n B E (scanned @ [c]) todo ivs' active' m'"
proof -
  note I = scan_invD [OF inv]
  have cn: "c \<notin> set scanned" using I(3) by simp
  have act_old: "a \<in> set active \<and> a \<in> set scanned \<and> in_reg ivs' a \<and> reg_of ivs' a = reg_of ivs a" if "a \<in> set active'" "a \<noteq> c" for a
    using act' [OF that] I(10) old [of a] by auto
  have 1: "\<forall>i \<in> set (scanned @ [c]). in_reg ivs' i \<longrightarrow> reg_of ivs' i < n"
    using old c I(6) by auto
  have 2: "sorted_wrt (\<lambda>i j. in_reg ivs' i \<and> in_reg ivs' j \<and> reg_of ivs' i = reg_of ivs' j \<longrightarrow> E i \<le> B j) (scanned @ [c])"
  proof -
    have "sorted_wrt (\<lambda>i j. in_reg ivs' i \<and> in_reg ivs' j \<and> reg_of ivs' i = reg_of ivs' j \<longrightarrow> E i \<le> B j) scanned"
      by (rule sorted_wrt_mono_rel [OF _ I(7)]) (use old in metis)
    with c show ?thesis by (auto simp: sorted_wrt_append)
  qed
  have 3: "E i \<le> B j" if "i \<in> set (scanned @ [c])" "in_reg ivs' i" "is_free m' (reg_of ivs' i)" "j \<in> set todo" for i j
  proof -
    from that c have "i \<in> set scanned" by auto
    with old [OF this that(2)] that free I(6,8) show ?thesis by auto
  qed
  have 4: "inj_on (reg_of ivs') (set active')"
  proof (rule inj_onI)
    fix a b assume ab: "a \<in> set active'" "b \<in> set active'" "reg_of ivs' a = reg_of ivs' b"
    show "a = b"
    proof (cases "a = c \<or> b = c")
      case True
      with ab act' [of a] act' [of b] act(2) act_old [of a] act_old [of b] show ?thesis by metis
    next
      case False
      with ab act_old [of a] act_old [of b] I(11) show ?thesis by (simp add: inj_on_def)
    qed
  qed
  have 5: "in_reg ivs' a \<and> \<not> is_free m' (reg_of ivs' a) \<and>
      (\<forall>i \<in> set (scanned @ [c]). in_reg ivs' i \<and> reg_of ivs' i = reg_of ivs' a \<longrightarrow> i = a \<or> E i \<le> B a)" if "a \<in> set active'" for a
  proof (cases "a = c")
    case True
    with act(2) that c show ?thesis by auto
  next
    case False
    note a = act' [OF that False] act_old [OF that False]
    have "i = a \<or> E i \<le> B a" if "i \<in> set scanned" "in_reg ivs' i" "reg_of ivs' i = reg_of ivs' a" for i
      using I(14) [of a i] a old [OF that(1,2)] that by auto
    with a show ?thesis by auto
  qed
  show ?thesis
    unfolding scan_inv_def
    using ok hulls 1 2 3 4 5 act(1) I(3,4,5) len act_old by auto
qed


lemma set_loc_simps [simp]:
  "length (ls_intervals (set_loc i l s)) = length (ls_intervals s)"
  "ls_active (set_loc i l s) = ls_active s" "ls_regMap (set_loc i l s) = ls_regMap s"
  by (simp_all add: set_loc_def)

lemma bounds_set_loc [simp]:
  "begin_of dbg (SetLocation l v) = begin_of dbg v" "end_of dbg (SetLocation l v) = end_of dbg v"
  by (simp_all add: SetLocation_def begin_of_def end_of_def GetBegin_def GetEnd_def GetUpperRange_def)

lemma hulls_set_loc: "hulls ivs B E \<Longrightarrow> hulls (ivs[i := SetLocation l (ivs ! i)]) B E"
  by (cases "i < length ivs") (simp_all add: hulls_def nth_list_update)

lemma in_reg_update:
  "i < length ivs \<Longrightarrow> in_reg (ivs[i := SetLocation l v]) j = (if j = i then loc_type l = LT_REGISTER else in_reg ivs j)"
  "i < length ivs \<Longrightarrow> reg_of (ivs[i := SetLocation l v]) j = (if j = i then loc_id l else reg_of ivs j)"
  by (auto simp: in_reg_def reg_of_def SetLocation_def nth_list_update)

definition linear_inv :: "nat \<Rightarrow> (nat \<Rightarrow> nat) \<Rightarrow> (nat \<Rightarrow> nat) \<Rightarrow> nat list \<Rightarrow> nat list \<Rightarrow> LinearScan \<Rightarrow> bool" where
  "linear_inv n B E scanned todo s \<longleftrightarrow> scan_inv n B E scanned todo (ls_intervals s) (ls_active s) (ls_regMap s)"

lemma spill_current:
  assumes inv: "linear_inv n B E scanned (c # todo) s" and r: "spillToStack dbg c s = Ok (l, s')"
  shows "linear_inv n B E (scanned @ [c]) todo s'"
proof -
  note I = scan_invD [OF inv [unfolded linear_inv_def]]
  let ?ivs = "ls_intervals s"
  obtain k where s': "ls_intervals s' = ?ivs[c := SetLocation \<lparr>loc_type = LT_STACK, loc_id = k\<rparr> (?ivs ! c)]"
    "ls_active s' = ls_active s" "ls_regMap s' = ls_regMap s"
    using r by (auto simp: spillToStack_def Let_def getNextSlot_def CHECK_def res_simps set_loc_def split: if_split_asm)
  have c: "c < length ?ivs" "c \<notin> set scanned" "c \<notin> set (ls_active s)" using I(3,4,10) by auto
  show ?thesis
    unfolding linear_inv_def s'
    by (rule scan_inv_step [OF inv [unfolded linear_inv_def] _ hulls_set_loc [OF I(2)] _ I(1)])
      (use c I in \<open>auto simp: in_reg_update\<close>)
qed

lemma steal_register:
  assumes inv: "linear_inv n B E scanned (c # todo) s" and act: "ls_active s = as @ [q]"
    and r: "spillToStack dbg q s = Ok (l, s')"
  shows "loc_type l = LT_REGISTER"
    and "linear_inv n B E (scanned @ [c]) todo ((set_loc c l s')\<lparr>ls_active := as\<rparr>)"
proof -
  note I = scan_invD [OF inv [unfolded linear_inv_def]]
  let ?ivs = "ls_intervals s"
  obtain k where s': "ls_intervals s' = ?ivs[q := SetLocation \<lparr>loc_type = LT_STACK, loc_id = k\<rparr> (?ivs ! q)]"
    "ls_regMap s' = ls_regMap s" and l: "l = v_loc (?ivs ! q)"
    using r by (auto simp: spillToStack_def Let_def getNextSlot_def CHECK_def res_simps set_loc_def loc_of_def split: if_split_asm)
  have q: "q \<in> set scanned" "q \<in> set (ls_active s)" using I(10) act by auto
  have lr: "loc_type l = LT_REGISTER" "loc_id l = reg_of ?ivs q"
    using I(12) [OF q(2)] l by (simp_all add: in_reg_def reg_of_def)
  show "loc_type l = LT_REGISTER" by (rule lr)
  have c: "c < length ?ivs" "c \<notin> set scanned" "q < length ?ivs" "c \<noteq> q" "c \<notin> set as" "q \<notin> set as"
    using I(3,4,9,10) q act by auto
  let ?ivs' = "ls_intervals s'" and ?ivs'' = "ls_intervals (set_loc c l s')"
  have upd: "in_reg ?ivs'' j = (if j = c then True else if j = q then False else in_reg ?ivs j)"
    "reg_of ?ivs'' c = reg_of ?ivs q" "j \<noteq> c \<Longrightarrow> j \<noteq> q \<Longrightarrow> reg_of ?ivs'' j = reg_of ?ivs j" for j
    using c lr by (simp_all add: set_loc_def s' in_reg_update)
  have Bq: "B q \<le> B c" using I(5) q(1) by (simp add: sorted_wrt_append)
  have "scan_inv n B E (scanned @ [c]) todo ?ivs'' as (ls_regMap s)"
  proof (rule scan_inv_step [OF inv [unfolded linear_inv_def] _ _ _ I(1)])
    show "hulls ?ivs'' B E" using hulls_set_loc [OF hulls_set_loc [OF I(2)]] by (simp add: set_loc_def s')
    show "length ?ivs'' = length ?ivs" by (simp add: s')
    show "in_reg ?ivs i \<and> reg_of ?ivs'' i = reg_of ?ivs i" if "i \<in> set scanned" "in_reg ?ivs'' i" for i
      using that c upd by (metis (full_types))
    show "reg_of ?ivs'' c < n \<and> \<not> is_free (ls_regMap s) (reg_of ?ivs'' c) \<and>
        (\<forall>i \<in> set scanned. in_reg ?ivs'' i \<and> reg_of ?ivs'' i = reg_of ?ivs'' c \<longrightarrow> E i \<le> B c)"
    proof (intro conjI ballI impI)
      show "reg_of ?ivs'' c < n" "\<not> is_free (ls_regMap s) (reg_of ?ivs'' c)"
        using I(6) [OF q(1)] I(12,13) [OF q(2)] upd(2) by simp_all
      fix i assume i: "i \<in> set scanned" "in_reg ?ivs'' i \<and> reg_of ?ivs'' i = reg_of ?ivs'' c"
      then have "i \<noteq> q" "i \<noteq> c" using upd(1) [of i] c by auto
      with i upd have "in_reg ?ivs i" "reg_of ?ivs i = reg_of ?ivs q" by auto
      with I(14) [OF q(2) i(1)] \<open>i \<noteq> q\<close> Bq show "E i \<le> B c" by simp
    qed
    show "distinct as" using I(9) act by simp
    fix a assume a: "a \<in> set as" "a \<noteq> c"
    then have "a \<in> set (ls_active s)" "a \<noteq> q" using act c by auto
    moreover from this a I(11) q(2) have "reg_of ?ivs a \<noteq> reg_of ?ivs q" by (auto simp: inj_on_def)
    ultimately show "a \<in> set (ls_active s) \<and> in_reg ?ivs'' a \<and> \<not> is_free (ls_regMap s) (reg_of ?ivs a) \<and>
        (in_reg ?ivs'' c \<longrightarrow> reg_of ?ivs a \<noteq> reg_of ?ivs'' c)"
      using I(12,13) upd a by simp
  qed (use upd in simp_all)
  then show "linear_inv n B E (scanned @ [c]) todo ((set_loc c l s')\<lparr>ls_active := as\<rparr>)"
    by (simp add: linear_inv_def s')
qed


text \<open>Only the order of \<open>active\<close> depends on where the new interval is put.\<close>

lemma insert_by_end_set:
  assumes "insert_by_end dbg ivs e c as = Ok bs"
  shows "set bs = insert c (set as)" and "distinct bs \<longleftrightarrow> c \<notin> set as \<and> distinct as"
proof -
  have "set bs = insert c (set as) \<and> (distinct bs \<longleftrightarrow> c \<notin> set as \<and> distinct as)"
    using assms
    by (induction as arbitrary: bs) (fastforce simp: res_simps split: if_split_asm)+
  then show "set bs = insert c (set as)" and "distinct bs \<longleftrightarrow> c \<notin> set as \<and> distinct as" by blast+
qed

lemma acquire_register:
  assumes inv: "linear_inv n B E scanned (c # todo) s" and free: "\<not> IsFull (ls_regMap s)"
    and r: "rbind (assignToReg dbg c s) (addActiveInterval dbg c) = Ok s'"
  shows "linear_inv n B E (scanned @ [c]) todo s'"
proof -
  note inv' = inv [unfolded linear_inv_def]
  note I = scan_invD [OF inv']
  let ?ivs = "ls_intervals s" and ?m = "ls_regMap s"
  obtain q where q: "q < n" "is_free ?m q" "AcquireReg ?m = Ok (int q, ?m\<lparr>rm_map := unset_bit q (rm_map ?m)\<rparr>)"
    using AcquireReg_ok [OF I(1) free] .
  let ?m' = "?m\<lparr>rm_map := unset_bit q (rm_map ?m)\<rparr>"
  let ?ivs' = "?ivs[c := SetLocation \<lparr>loc_type = LT_REGISTER, loc_id = q\<rparr> (?ivs ! c)]"
  note F = regs_ok_bits(2,4) [OF I(1) q(1)]
  have "n \<le> 30" using I(1) by (simp add: regs_ok_def)
  with q(1) have "nat (int q mod 2 ^ 16) = q" by simp
  then obtain e active where s': "insert_by_end dbg ?ivs' e c (ls_active s) = Ok active"
    "ls_intervals s' = ?ivs'" "ls_regMap s' = ?m'" "ls_active s' = active"
    using r by (auto simp: assignToReg_def addActiveInterval_def CHECK_def q(3) res_simps set_loc_def split: if_split_asm)
  note active = insert_by_end_set [OF s'(1)]
  have c: "c < length ?ivs" "c \<notin> set scanned" "c \<notin> set (ls_active s)" using I(3,4,10) by auto
  have "scan_inv n B E (scanned @ [c]) todo ?ivs' active ?m'"
  proof (rule scan_inv_step [OF inv' _ hulls_set_loc [OF I(2)] _ F(1)])
    show "reg_of ?ivs' c < n \<and> \<not> is_free ?m' (reg_of ?ivs' c) \<and>
        (\<forall>i \<in> set scanned. in_reg ?ivs' i \<and> reg_of ?ivs' i = reg_of ?ivs' c \<longrightarrow> E i \<le> B c)"
      using I(8) c q(1,2) F(2) by (auto simp: in_reg_update)
    show "a \<in> set (ls_active s) \<and> in_reg ?ivs' a \<and> \<not> is_free ?m' (reg_of ?ivs a) \<and>
        (in_reg ?ivs' c \<longrightarrow> reg_of ?ivs a \<noteq> reg_of ?ivs' c)" if "a \<in> set active" "a \<noteq> c" for a
    proof -
      have a: "a \<in> set (ls_active s)" "a \<in> set scanned" using that active I(10) by auto
      then have "reg_of ?ivs a < n" "\<not> is_free ?m (reg_of ?ivs a)" "in_reg ?ivs a" using I(6,12,13) by auto
      with a that c q F show ?thesis by (auto simp: in_reg_update)
    qed
  qed (use c active I F in \<open>auto simp: in_reg_update\<close>)
  then show ?thesis by (simp add: linear_inv_def s')
qed

lemma allocate_step_inv:
  assumes inv: "linear_inv n B E scanned (c # todo) s" and r: "allocate_step dbg c s = Ok s'"
  shows "linear_inv n B E (scanned @ [c]) todo s'"
proof -
  obtain act m where e: "expire_loop dbg (ls_intervals s) (ls_intervals s ! c) (ls_active s) (ls_regMap s) = Ok (act, m)"
    "scan_inv n B E scanned (c # todo) (ls_intervals s) act m"
    using expire_inv [OF inv [unfolded linear_inv_def]] by blast
  let ?s = "s\<lparr>ls_active := act, ls_regMap := m\<rparr>"
  have inv': "linear_inv n B E scanned (c # todo) ?s" using e(2) by (simp add: linear_inv_def)
  have r': "(if IsFull (ls_regMap ?s) then spillAtInterval dbg c ?s
      else rbind (assignToReg dbg c ?s) (addActiveInterval dbg c)) = Ok s'"
    using r e(1) by (simp add: allocate_step_def expireOldIntervals_def)
  show ?thesis
  proof (cases "IsFull (ls_regMap ?s)")
    case False
    with r' show ?thesis by (intro acquire_register [OF inv']) simp_all
  next
    case True
    with r' have sp: "spillAtInterval dbg c ?s = Ok s'" by simp
    then obtain as q where act: "ls_active ?s = as @ [q]"
      by (cases act rule: rev_cases) (simp_all add: spillAtInterval_def)
    from sp consider (cur) l where "spillToStack dbg c ?s = Ok (l, s')"
      | (steal) l s1 where "spillToStack dbg q ?s = Ok (l, s1)" "s' = (set_loc c l s1)\<lparr>ls_active := as\<rparr>"
      using act
      by (auto simp: spillAtInterval_def CHECK_def Let_def res_simps spillToStack_def getNextSlot_def split: if_split_asm)
    then show ?thesis
      using spill_current [OF inv'] steal_register(2) [OF inv' act] by cases auto
  qed
qed

lemma allocate_all_inv:
  "linear_inv n B E scanned todo s \<Longrightarrow> allocate_all dbg todo s = Ok s' \<Longrightarrow> linear_inv n B E (scanned @ todo) [] s'"
proof (induction todo arbitrary: scanned s)
  case (Cons c todo)
  from Cons.prems(2) obtain s1 where s1: "allocate_step dbg c s = Ok s1" "allocate_all dbg todo s1 = Ok s'"
    by (auto simp: res_simps)
  show ?case
    using Cons.IH [OF allocate_step_inv [OF Cons.prems(1) s1(1)] s1(2)] by simp
qed simp


section \<open>The scan succeeds when there are enough registers\<close>

text \<open>
  The intervals that are live where \<open>c\<close> begins.  While nothing has been spilled, the active
  intervals are sorted by their ends and hold exactly the registers that are not free.
\<close>

definition pressure :: "(nat \<Rightarrow> nat) \<Rightarrow> (nat \<Rightarrow> nat) \<Rightarrow> nat \<Rightarrow> nat \<Rightarrow> nat" where
  "pressure B E N c = card {j. j < N \<and> B j \<le> B c \<and> B c < E j}"

definition unspilled :: "nat \<Rightarrow> (nat \<Rightarrow> nat) \<Rightarrow> nat list \<Rightarrow> LiveInterval list \<Rightarrow> nat list \<Rightarrow> RegMap \<Rightarrow> bool" where
  "unspilled n E scanned ivs active m \<longleftrightarrow>
     sorted_wrt (\<lambda>a b. E a \<le> E b) active \<and>
     (\<forall>r < n. \<not> is_free m r \<longrightarrow> r \<in> reg_of ivs ` set active) \<and> (\<forall>i \<in> set scanned. in_reg ivs i)"

lemma expire_unspilled:
  assumes "scan_inv n B E scanned (c # todo) ivs active m" and "unspilled n E scanned ivs active m"
    and "expire_loop dbg ivs (ivs ! c) active m = Ok (active', m')"
  shows "unspilled n E scanned ivs active' m' \<and> (\<forall>a \<in> set active'. B c < E a)"
  using assms
proof (induction active arbitrary: m)
  case Nil
  then show ?case by simp
next
  case (Cons a as)
  note I = scan_invD [OF Cons.prems(1)]
  have "a < length ivs" "c < length ivs" using I(4,10) by auto
  with I(2) have be: "end_of dbg (ivs ! a) = Ok (E a)" "begin_of dbg (ivs ! c) = Ok (B c)"
    by (simp_all add: hulls_def)
  show ?case
  proof (cases "E a > B c")
    case True
    with Cons.prems be show ?thesis by (fastforce simp: unspilled_def)
  next
    case False
    note H = expire_head [OF Cons.prems(1)]
    from False have le: "E a \<le> B c" by simp
    have "unspilled n E scanned ivs as (m\<lparr>rm_map := set_bit (reg_of ivs a) (rm_map m)\<rparr>)"
      using Cons.prems(2) regs_ok_bits(3) [OF I(1) H(1) [OF le]] by (auto simp: unspilled_def)
    moreover have "expire_loop dbg ivs (ivs ! c) as (m\<lparr>rm_map := set_bit (reg_of ivs a) (rm_map m)\<rparr>) = Ok (active', m')"
      using Cons.prems(3) ReleaseReg_ok [OF I(1) H(1) [OF le], of dbg] False be by (simp add: reg_of_def)
    ultimately show ?thesis using Cons.IH [OF H(2) [OF le]] by blast
  qed
qed

lemma insert_by_end_sorted:
  assumes "\<And>a. a \<in> set as \<Longrightarrow> end_of dbg (ivs ! a) = Ok (E a)" and "sorted_wrt (\<lambda>a b. E a \<le> E b) as"
  obtains bs where "insert_by_end dbg ivs (E c) c as = Ok bs" and "sorted_wrt (\<lambda>a b. E a \<le> E b) bs"
proof -
  have "\<exists>bs. insert_by_end dbg ivs (E c) c as = Ok bs \<and> sorted_wrt (\<lambda>a b. E a \<le> E b) bs"
    using assms
  proof (induction as)
    case (Cons a as)
    show ?case
    proof (cases "E c \<le> E a")
      case True
      with Cons.prems show ?thesis by fastforce
    next
      case False
      obtain bs where bs: "insert_by_end dbg ivs (E c) c as = Ok bs" "sorted_wrt (\<lambda>a b. E a \<le> E b) bs"
        using Cons.IH Cons.prems by auto
      with insert_by_end_set(1) [OF bs(1)] False Cons.prems show ?thesis by auto
    qed
  qed simp
  with that show thesis by blast
qed

lemma allocate_step_ok:
  assumes inv: "linear_inv n B E scanned (c # todo) s"
    and un: "unspilled n E scanned (ls_intervals s) (ls_active s) (ls_regMap s)"
    and p: "pressure B E (length (ls_intervals s)) c \<le> (if dbg then n - 1 else n)" and Ec: "B c < E c"
  obtains s' where "allocate_step dbg c s = Ok s'" and "linear_inv n B E (scanned @ [c]) todo s'"
    and "unspilled n E (scanned @ [c]) (ls_intervals s') (ls_active s') (ls_regMap s')"
    and "length (ls_intervals s') = length (ls_intervals s)"
proof -
  let ?ivs = "ls_intervals s"
  obtain act m where e: "expire_loop dbg ?ivs (?ivs ! c) (ls_active s) (ls_regMap s) = Ok (act, m)"
    "scan_inv n B E scanned (c # todo) ?ivs act m"
    using expire_inv [OF inv [unfolded linear_inv_def]] by blast
  note I = scan_invD [OF e(2)]
  have u: "unspilled n E scanned ?ivs act m" "\<And>a. a \<in> set act \<Longrightarrow> B c < E a"
    using expire_unspilled [OF inv [unfolded linear_inv_def] un e(1)] by auto
  have c: "c < length ?ivs" "c \<notin> set act" "c \<notin> set scanned" using I(3,4,10) by auto
  have "insert c (set act) \<subseteq> {j. j < length ?ivs \<and> B j \<le> B c \<and> B c < E j}"
    using c u(2) Ec I(4,5,10) by (auto simp: sorted_wrt_append)
  then have "card (insert c (set act)) \<le> pressure B E (length ?ivs) c"
    unfolding pressure_def by (intro card_mono) simp_all
  with c p have few: "card (set act) < (if dbg then n - 1 else n)" by (simp split: if_split_asm)
  have used: "card {r. r < n \<and> \<not> is_free m r} \<le> card (set act)"
    using u(1) by (intro surj_card_le [where f = "reg_of ?ivs"]) (auto simp: unspilled_def)
  have not_full: "\<not> IsFull m"
  proof
    assume "IsFull m"
    then have "{r. r < n \<and> \<not> is_free m r} = {..<n}" using IsFull_iff [OF I(1)] by auto
    with used few show False by (simp split: if_split_asm)
  qed
  obtain q where q: "q < n" "is_free m q" "AcquireReg m = Ok (int q, m\<lparr>rm_map := unset_bit q (rm_map m)\<rparr>)"
    using AcquireReg_ok [OF I(1) not_full] .
  let ?m = "m\<lparr>rm_map := unset_bit q (rm_map m)\<rparr>"
  let ?ivs' = "?ivs[c := SetLocation \<lparr>loc_type = LT_REGISTER, loc_id = q\<rparr> (?ivs ! c)]"
  note F = regs_ok_bits(2,4) [OF I(1) q(1)]
  have spare: "\<not> IsFull ?m" if dbg
  proof
    assume "IsFull ?m"
    then have "{..<n} - {q} \<subseteq> {r. r < n \<and> \<not> is_free m r}" using IsFull_iff [OF F(1)] F(2) by auto
    then have "card ({..<n} - {q}) \<le> card {r. r < n \<and> \<not> is_free m r}" by (intro card_mono) simp_all
    with used few q that show False by (simp add: card_Diff_singleton)
  qed
  have ends: "end_of dbg (?ivs' ! a) = Ok (E a)" if "a < length ?ivs" for a
    using hulls_set_loc [OF I(2)] that by (simp add: hulls_def)
  obtain bs where bs: "insert_by_end dbg ?ivs' (E c) c act = Ok bs" "sorted_wrt (\<lambda>a b. E a \<le> E b) bs"
  proof (rule insert_by_end_sorted)
    show "end_of dbg (?ivs' ! a) = Ok (E a)" if "a \<in> set act" for a
      using that I(4,10) by (intro ends) auto
    show "sorted_wrt (\<lambda>a b. E a \<le> E b) act" using u(1) by (simp add: unspilled_def)
  qed
  note set_bs = insert_by_end_set(1) [OF bs(1)]
  have "n \<le> 30" using I(1) by (simp add: regs_ok_def)
  with q(1) have small: "nat (int q mod 2 ^ 16) = q" by simp
  let ?s = "s\<lparr>ls_active := bs, ls_regMap := ?m, ls_intervals := ?ivs'\<rparr>"
  have step: "allocate_step dbg c s = Ok ?s"
    using e(1) not_full q(3) spare ends [OF c(1)] bs(1) small
    by (cases dbg) (simp_all add: allocate_step_def expireOldIntervals_def assignToReg_def addActiveInterval_def
      CHECK_def ASSERT_def set_loc_def)
  have "reg_of ?ivs' ` set bs = insert q (reg_of ?ivs ` set act)"
    unfolding set_bs using c by (auto simp: in_reg_update image_iff)
  then have "unspilled n E (scanned @ [c]) ?ivs' bs ?m"
    using u(1) F(2) bs(2) c by (auto simp: unspilled_def in_reg_update)
  then show thesis
    using that [OF step allocate_step_inv [OF inv step]] by simp
qed

lemma allocate_all_ok:
  assumes "linear_inv n B E scanned todo s"
    and "unspilled n E scanned (ls_intervals s) (ls_active s) (ls_regMap s)"
    and "\<And>c. c \<in> set todo \<Longrightarrow> pressure B E (length (ls_intervals s)) c \<le> (if dbg then n - 1 else n) \<and> B c < E c"
  shows "\<exists>s'. allocate_all dbg todo s = Ok s' \<and> (\<forall>i \<in> set (scanned @ todo). in_reg (ls_intervals s') i)"
  using assms
proof (induction todo arbitrary: scanned s)
  case Nil
  then show ?case by (simp add: unspilled_def)
next
  case (Cons c todo)
  obtain s1 where s1: "allocate_step dbg c s = Ok s1" "linear_inv n B E (scanned @ [c]) todo s1"
    "unspilled n E (scanned @ [c]) (ls_intervals s1) (ls_active s1) (ls_regMap s1)"
    "length (ls_intervals s1) = length (ls_intervals s)"
    using allocate_step_ok [OF Cons.prems(1,2)] Cons.prems(3) by (metis list.set_intros(1))
  have "\<exists>s'. allocate_all dbg todo s1 = Ok s' \<and> (\<forall>i \<in> set ((scanned @ [c]) @ todo). in_reg (ls_intervals s') i)"
    using Cons.prems(3) s1(4) by (intro Cons.IH [OF s1(2,3)]) simp
  then show ?case by (simp add: s1(1))
qed


section \<open>The start of the scan\<close>

text \<open>
  The intervals the scan is given: every one well formed and not empty, in the order in which the
  reverse iteration meets them by increasing begin.
\<close>

definition scan_input :: "LiveInterval list \<Rightarrow> bool" where
  "scan_input ivs \<longleftrightarrow>
     (\<forall>v \<in> set ivs. interval_ok v \<and> v_ranges v \<noteq> []) \<and>
     sorted_wrt (\<lambda>v w. Min (covered w) \<le> Min (covered v)) ivs"

definition first_point :: "LiveInterval list \<Rightarrow> nat \<Rightarrow> nat" where
  "first_point ivs i = Min (covered (ivs ! i))"

definition past_point :: "LiveInterval list \<Rightarrow> nat \<Rightarrow> nat" where
  "past_point ivs i = Suc (Max (covered (ivs ! i)))"

lemma scan_input_hulls: "scan_input ivs \<Longrightarrow> hulls ivs (first_point ivs) (past_point ivs)"
  unfolding hulls_def
proof (intro allI impI)
  fix i dbg assume "scan_input ivs" "i < length ivs"
  then have "interval_ok (ivs ! i)" "v_ranges (ivs ! i) \<noteq> []" by (simp_all add: scan_input_def)
  note u = upper_range [OF this]
  moreover from this have "begin_of False (ivs ! i) = GetBegin (ivs ! i)" "end_of False (ivs ! i) = GetEnd (ivs ! i)"
    by (auto simp: begin_of_def end_of_def GetBegin_def GetEnd_def GetUpperRange_def LiveRange_ctor_def res_simps split: if_split_asm)
  ultimately show "begin_of dbg (ivs ! i) = Ok (first_point ivs i) \<and> end_of dbg (ivs ! i) = Ok (past_point ivs i)"
    by (cases dbg) (simp_all add: first_point_def past_point_def begin_of_def end_of_def)
qed

lemma covered_nonempty: "interval_ok v \<Longrightarrow> v_ranges v \<noteq> [] \<Longrightarrow> finite (covered v) \<and> covered v \<noteq> {}"
  by (cases "v_ranges v") (auto simp: covered_def points_def interval_ok_def ranges_ok_def)

lemma covered_hull:
  assumes "scan_input ivs" and "i < length ivs" and "x \<in> covered (ivs ! i)"
  shows "first_point ivs i \<le> x" and "x < past_point ivs i"
proof -
  have "finite (covered (ivs ! i))" by (simp add: covered_def points_def)
  with assms(3) show "first_point ivs i \<le> x" "x < past_point ivs i"
    by (simp_all add: first_point_def past_point_def less_Suc_eq_le)
qed

lemma scan_start:
  assumes "scan_input ivs" and "n \<le> 30"
  obtains s where "LinearScan_ctor dbg n ivs = Ok s" and "ls_intervals s = ivs"
    and "linear_inv n (first_point ivs) (past_point ivs) [] (rev [0..<length ivs]) s"
    and "unspilled n (past_point ivs) [] ivs (ls_active s) (ls_regMap s)"
proof -
  obtain m where m: "RegMap_ctor dbg n = Ok m" "regs_ok n m" "\<forall>r < n. is_free m r"
    using RegMap_ctor_ok [OF assms(2)] .
  have "sorted_wrt (\<lambda>i j. first_point ivs j \<le> first_point ivs i) [0..<length ivs]"
    using assms(1) by (auto simp: scan_input_def sorted_wrt_iff_nth_less first_point_def)
  then show thesis
    using that m scan_input_hulls [OF assms(1)]
    by (simp add: LinearScan_ctor_def linear_inv_def scan_inv_def unspilled_def sorted_wrt_rev atLeast0LessThan)
qed

text \<open>The scan changes nothing of an interval but its location.\<close>

definition ranges_of :: "LinearScan \<Rightarrow> LiveRange list list" where
  "ranges_of s = map v_ranges (ls_intervals s)"

lemma ranges_of_simps [simp]:
  "ranges_of (set_loc i l s) = ranges_of s"
  "ranges_of (s\<lparr>ls_active := act\<rparr>) = ranges_of s"
  "ranges_of (s\<lparr>ls_regMap := m\<rparr>) = ranges_of s"
  "ranges_of (s\<lparr>ls_slotCounter := k\<rparr>) = ranges_of s"
proof -
  have "v_ranges (SetLocation l v) = v_ranges v" for v by (simp add: SetLocation_def)
  then show "ranges_of (set_loc i l s) = ranges_of s"
    by (simp add: ranges_of_def set_loc_def map_update) (metis list_update_id map_update)
qed (simp_all add: ranges_of_def)

lemma spillToStack_ranges: "spillToStack dbg i s = Ok (l, s') \<Longrightarrow> ranges_of s' = ranges_of s"
  by (auto simp: spillToStack_def getNextSlot_def CHECK_def Let_def res_simps split: if_split_asm)

lemma spillAtInterval_ranges: "spillAtInterval dbg i s = Ok s' \<Longrightarrow> ranges_of s' = ranges_of s"
  unfolding spillAtInterval_def Let_def CHECK_def
  by (auto simp: res_simps split: if_split_asm dest!: spillToStack_ranges)

lemma assign_ranges:
  "assignToReg dbg i s = Ok s' \<Longrightarrow> ranges_of s' = ranges_of s"
  "addActiveInterval dbg i s = Ok s' \<Longrightarrow> ranges_of s' = ranges_of s"
  by (auto simp: assignToReg_def addActiveInterval_def CHECK_def res_simps split: if_split_asm)

lemma allocate_step_ranges: "allocate_step dbg i s = Ok s' \<Longrightarrow> ranges_of s' = ranges_of s"
  unfolding allocate_step_def expireOldIntervals_def
  by (auto simp: res_simps split: if_split_asm dest!: spillAtInterval_ranges assign_ranges)

lemma allocate_all_ranges: "allocate_all dbg is s = Ok s' \<Longrightarrow> ranges_of s' = ranges_of s"
  by (induction "is" arbitrary: s) (auto simp: res_simps dest: allocate_step_ranges)

end
