(* ===== verification/JIT_RegAllocOrder.thy ===== *)
theory JIT_RegAllocOrder
  imports JIT_RegAllocSafe
begin

text \<open>
  The scan in the order of the program.  The liveness analyzer appends the intervals by increasing
  live number, and the iteration over the intervals of a graph starts with the last one, so the scan
  meets the intervals by decreasing begin.  Then no active interval ever ends before the next one
  begins, nothing expires, and no register is given to two intervals.
\<close>

definition desc_inv ::
    "nat \<Rightarrow> (nat \<Rightarrow> nat) \<Rightarrow> (nat \<Rightarrow> nat) \<Rightarrow> nat list \<Rightarrow> nat list \<Rightarrow> LinearScan \<Rightarrow> bool" where
  "desc_inv n B E scanned todo s \<longleftrightarrow>
     regs_ok n (ls_regMap s) \<and> hulls (ls_intervals s) B E \<and>
     distinct (scanned @ todo) \<and> set (scanned @ todo) \<subseteq> {..<length (ls_intervals s)} \<and>
     sorted_wrt (\<lambda>i j. B j \<le> B i) (scanned @ todo) \<and> (\<forall>i < length (ls_intervals s). B i < E i) \<and>
     (\<forall>i \<in> set scanned. in_reg (ls_intervals s) i \<longrightarrow>
        reg_of (ls_intervals s) i < n \<and> \<not> is_free (ls_regMap s) (reg_of (ls_intervals s) i)) \<and>
     inj_on (reg_of (ls_intervals s)) {i \<in> set scanned. in_reg (ls_intervals s) i} \<and>
     distinct (ls_active s) \<and> set (ls_active s) \<subseteq> {i \<in> set scanned. in_reg (ls_intervals s) i}"

lemma desc_expire:
  assumes "desc_inv n B E scanned (c # todo) s"
  shows "expireOldIntervals dbg c s = Ok s"
proof -
  have "expire_loop dbg (ls_intervals s) (ls_intervals s ! c) (ls_active s) (ls_regMap s) = Ok (ls_active s, ls_regMap s)"
  proof (cases "ls_active s")
    case (Cons a as)
    with assms have a: "a \<in> set scanned" by (auto simp: desc_inv_def)
    with assms have "a < length (ls_intervals s)" "c < length (ls_intervals s)" "B c \<le> B a" "B a < E a"
      by (auto simp: desc_inv_def sorted_wrt_append)
    with assms Cons show ?thesis by (auto simp: desc_inv_def hulls_def)
  qed simp
  then show ?thesis by (simp add: expireOldIntervals_def)
qed

lemma desc_step:
  assumes inv: "desc_inv n B E scanned (c # todo) s"
    and len: "length (ls_intervals s') = length (ls_intervals s)" and h: "hulls (ls_intervals s') B E"
    and ok: "regs_ok n (ls_regMap s')"
    and old: "\<And>i. i \<in> set scanned \<Longrightarrow> in_reg (ls_intervals s') i \<Longrightarrow>
      in_reg (ls_intervals s) i \<and> reg_of (ls_intervals s') i = reg_of (ls_intervals s) i"
    and free: "\<And>r. r < n \<Longrightarrow> is_free (ls_regMap s') r \<Longrightarrow> is_free (ls_regMap s) r"
    and c: "in_reg (ls_intervals s') c \<Longrightarrow> reg_of (ls_intervals s') c < n \<and>
      \<not> is_free (ls_regMap s') (reg_of (ls_intervals s') c) \<and>
      (\<forall>i \<in> set scanned. in_reg (ls_intervals s') i \<longrightarrow> reg_of (ls_intervals s') i \<noteq> reg_of (ls_intervals s') c)"
    and act: "distinct (ls_active s')" "set (ls_active s') \<subseteq> {i \<in> set (scanned @ [c]). in_reg (ls_intervals s') i}"
  shows "desc_inv n B E (scanned @ [c]) todo s'"
proof -
  have 1: "\<forall>i \<in> set (scanned @ [c]). in_reg (ls_intervals s') i \<longrightarrow>
      reg_of (ls_intervals s') i < n \<and> \<not> is_free (ls_regMap s') (reg_of (ls_intervals s') i)"
    using inv old free c unfolding desc_inv_def by auto
  have "inj_on (reg_of (ls_intervals s')) {i \<in> set (scanned @ [c]). in_reg (ls_intervals s') i}"
  proof (rule inj_onI)
    fix i j assume i: "i \<in> {i \<in> set (scanned @ [c]). in_reg (ls_intervals s') i}"
      and j: "j \<in> {i \<in> set (scanned @ [c]). in_reg (ls_intervals s') i}"
      and e: "reg_of (ls_intervals s') i = reg_of (ls_intervals s') j"
    consider "i = c" "j = c" | "i = c" "j \<in> set scanned" | "i \<in> set scanned" "j = c" | "i \<in> set scanned" "j \<in> set scanned"
      using i j by auto
    then show "i = j"
    proof cases
      case 4
      moreover have "inj_on (reg_of (ls_intervals s)) {i \<in> set scanned. in_reg (ls_intervals s) i}"
        using inv by (simp add: desc_inv_def)
      ultimately show ?thesis using i j e old [of i] old [of j] by (simp add: inj_on_def)
    qed (use i j e c in force)+
  qed
  with inv len h ok 1 act show ?thesis unfolding desc_inv_def by auto
qed

lemma desc_allocate_step:
  assumes inv: "desc_inv n B E scanned (c # todo) s" and r: "allocate_step dbg c s = Ok s'"
  shows "desc_inv n B E (scanned @ [c]) todo s'"
proof -
  let ?ivs = "ls_intervals s" and ?m = "ls_regMap s"
  have I: "regs_ok n ?m" "hulls ?ivs B E" "inj_on (reg_of ?ivs) {i \<in> set scanned. in_reg ?ivs i}"
    "set (ls_active s) \<subseteq> {i \<in> set scanned. in_reg ?ivs i}" "distinct (ls_active s)"
    "\<And>i. i \<in> set scanned \<Longrightarrow> in_reg ?ivs i \<Longrightarrow> reg_of ?ivs i < n \<and> \<not> is_free ?m (reg_of ?ivs i)"
    and c: "c < length ?ivs" "c \<notin> set scanned" "c \<notin> set (ls_active s)"
    and len: "\<And>i. i \<in> set scanned \<Longrightarrow> i < length ?ivs"
    using inv unfolding desc_inv_def by auto
  have r': "(if IsFull ?m then spillAtInterval dbg c s else rbind (assignToReg dbg c s) (addActiveInterval dbg c)) = Ok s'"
    using r by (simp add: allocate_step_def desc_expire [OF inv])
  consider (acquire) "\<not> IsFull ?m"
    | (cur) k where "IsFull ?m" "ls_intervals s' = ?ivs[c := SetLocation \<lparr>loc_type = LT_STACK, loc_id = k\<rparr> (?ivs ! c)]"
        "ls_active s' = ls_active s" "ls_regMap s' = ?m"
    | (steal) q as k where "IsFull ?m" "ls_active s = as @ [q]" "ls_active s' = as" "ls_regMap s' = ?m"
        "ls_intervals s' = ?ivs[q := SetLocation \<lparr>loc_type = LT_STACK, loc_id = k\<rparr> (?ivs ! q),
            c := SetLocation (v_loc (?ivs ! q)) (?ivs[q := SetLocation \<lparr>loc_type = LT_STACK, loc_id = k\<rparr> (?ivs ! q)] ! c)]"
  proof (cases "IsFull ?m")
    case True
    with r' have sp: "spillAtInterval dbg c s = Ok s'" by simp
    then obtain as q where act: "ls_active s = as @ [q]"
      by (cases "ls_active s" rule: rev_cases) (simp_all add: spillAtInterval_def)
    have q: "c \<noteq> q" using act c(3) by auto
    from sp act True cur steal show thesis
      by (auto simp: spillAtInterval_def CHECK_def Let_def res_simps spillToStack_def getNextSlot_def set_loc_def loc_of_def
          split: if_split_asm)
  qed (rule acquire)
  then show ?thesis
  proof cases
    case acquire
    obtain q where q: "q < n" "is_free ?m q" "AcquireReg ?m = Ok (int q, ?m\<lparr>rm_map := unset_bit q (rm_map ?m)\<rparr>)"
      using AcquireReg_ok [OF I(1) acquire] .
    let ?m' = "?m\<lparr>rm_map := unset_bit q (rm_map ?m)\<rparr>"
    let ?ivs' = "?ivs[c := SetLocation \<lparr>loc_type = LT_REGISTER, loc_id = q\<rparr> (?ivs ! c)]"
    note F = regs_ok_bits(2,4) [OF I(1) q(1)]
    have "n \<le> 30" using I(1) by (simp add: regs_ok_def)
    with q(1) have "nat (int q mod 2 ^ 16) = q" by simp
    then obtain e where s': "insert_by_end dbg ?ivs' e c (ls_active s) = Ok (ls_active s')"
      "ls_intervals s' = ?ivs'" "ls_regMap s' = ?m'"
      using r' acquire by (auto simp: assignToReg_def addActiveInterval_def CHECK_def q(3) res_simps set_loc_def split: if_split_asm)
    note active = insert_by_end_set [OF s'(1)]
    show ?thesis
      by (rule desc_step [OF inv])
        (use s' c I hulls_set_loc [OF I(2)] F q active in \<open>auto simp: in_reg_update\<close>)
  next
    case cur
    show ?thesis
      by (rule desc_step [OF inv])
        (use cur c I hulls_set_loc [OF I(2)] in \<open>auto simp: in_reg_update\<close>)
  next
    case steal
    have q: "q \<in> set scanned" "in_reg ?ivs q" "q \<noteq> c" "q < length ?ivs" "q \<notin> set as" "distinct as"
      using steal(2) I(4,5) c(3) len by auto
    have upd: "in_reg (ls_intervals s') j = (if j = c then True else if j = q then False else in_reg ?ivs j)"
      "reg_of (ls_intervals s') c = reg_of ?ivs q" "j \<noteq> c \<Longrightarrow> j \<noteq> q \<Longrightarrow> reg_of (ls_intervals s') j = reg_of ?ivs j" for j
      using q c unfolding steal(5) by (simp_all add: in_reg_update) (simp_all add: in_reg_def reg_of_def)
    have "reg_of ?ivs i \<noteq> reg_of ?ivs q" if "i \<in> set scanned" "in_reg ?ivs i" "i \<noteq> q" for i
      using inj_onD [OF I(3), of i q] that q by auto
    then have cq: "\<forall>i \<in> set scanned. in_reg (ls_intervals s') i \<longrightarrow> reg_of (ls_intervals s') i \<noteq> reg_of (ls_intervals s') c"
      using upd c by (metis (full_types))
    have old: "in_reg ?ivs i \<and> reg_of (ls_intervals s') i = reg_of ?ivs i" if "i \<in> set scanned" "in_reg (ls_intervals s') i" for i
      using upd that c by (metis (full_types))
    have act: "set as \<subseteq> {i \<in> set (scanned @ [c]). in_reg (ls_intervals s') i}"
      using steal(2) q(5) I(4) upd(1) c(2) by fastforce
    have h: "hulls (ls_intervals s') B E" unfolding steal(5) by (intro hulls_set_loc I)
    show ?thesis
      by (rule desc_step [OF inv _ h]) (use steal(3-5) upd(2) q cq old act I(1,6) in simp_all)
  qed
qed


lemma desc_allocate_all:
  "desc_inv n B E scanned todo s \<Longrightarrow> allocate_all dbg todo s = Ok s' \<Longrightarrow> desc_inv n B E (scanned @ todo) [] s'"
proof (induction todo arbitrary: scanned s)
  case (Cons c todo)
  from Cons.prems(2) obtain s1 where s1: "allocate_step dbg c s = Ok s1" "allocate_all dbg todo s1 = Ok s'"
    by (auto simp: res_simps)
  show ?case
    using Cons.IH [OF desc_allocate_step [OF Cons.prems(1) s1(1)] s1(2)] by simp
qed simp

lemma desc_start:
  assumes "scan_input (rev ivs)" and "n \<le> 30"
  obtains s where "LinearScan_ctor dbg n ivs = Ok s" and "ls_intervals s = ivs"
    and "desc_inv n (first_point ivs) (past_point ivs) [] (rev [0..<length ivs]) s"
proof -
  obtain m where m: "RegMap_ctor dbg n = Ok m" "regs_ok n m" "\<forall>r < n. is_free m r"
    using RegMap_ctor_ok [OF assms(2)] .
  have ok: "interval_ok v \<and> v_ranges v \<noteq> []" if "v \<in> set ivs" for v
    using assms(1) that by (simp add: scan_input_def)
  have "hulls ivs (first_point ivs) (past_point ivs)"
  proof -
    have "begin_of dbg v = Ok (Min (covered v)) \<and> end_of dbg v = Ok (Suc (Max (covered v)))" if "v \<in> set ivs" for v dbg
    proof -
      have "scan_input [v]" using ok [OF that] by (simp add: scan_input_def)
      from scan_input_hulls [OF this] show ?thesis by (auto simp: hulls_def first_point_def past_point_def)
    qed
    then show ?thesis by (auto simp: hulls_def first_point_def past_point_def)
  qed
  moreover have "sorted_wrt (\<lambda>i j. first_point ivs i \<le> first_point ivs j) [0..<length ivs]"
  proof -
    have "sorted_wrt (\<lambda>v w. Min (covered v) \<le> Min (covered w)) ivs"
      using assms(1) by (simp add: scan_input_def sorted_wrt_rev)
    then show ?thesis by (auto simp: sorted_wrt_iff_nth_less first_point_def)
  qed
  moreover have "first_point ivs i < past_point ivs i" if "i < length ivs" for i
    using covered_nonempty [of "ivs ! i"] ok [of "ivs ! i"] that by (simp add: first_point_def past_point_def less_Suc_eq_le)
  ultimately show thesis
    using that m by (simp add: LinearScan_ctor_def desc_inv_def sorted_wrt_rev atLeast0LessThan)
qed

lemma desc_distinct:
  assumes "scan_input (rev ivs)" and "n \<le> 30"
    and "rbind (LinearScan_ctor dbg n ivs) (allocateAndAssignRegs dbg) = Ok s"
  shows "length (ls_intervals s) = length ivs"
    and "i < length ivs \<Longrightarrow> in_reg (ls_intervals s) i \<Longrightarrow> reg_of (ls_intervals s) i < n"
    and "inj_on (reg_of (ls_intervals s)) {i. i < length ivs \<and> in_reg (ls_intervals s) i}"
    and "map v_ranges (ls_intervals s) = map v_ranges ivs"
proof -
  obtain s0 where s0: "LinearScan_ctor dbg n ivs = Ok s0" "ls_intervals s0 = ivs"
    and inv0: "desc_inv n (first_point ivs) (past_point ivs) [] (rev [0..<length ivs]) s0"
    using desc_start [OF assms(1,2)] by blast
  with assms(3) have run: "allocate_all dbg (rev [0..<length ivs]) s0 = Ok s"
    by (simp add: allocateAndAssignRegs_def)
  have inv: "desc_inv n (first_point ivs) (past_point ivs) (rev [0..<length ivs]) [] s"
    using desc_allocate_all [OF inv0 run] by simp
  show ranges: "map v_ranges (ls_intervals s) = map v_ranges ivs"
    using allocate_all_ranges [OF run] s0(2) by (simp add: ranges_of_def)
  then show "length (ls_intervals s) = length ivs" by (metis length_map)
  show "i < length ivs \<Longrightarrow> in_reg (ls_intervals s) i \<Longrightarrow> reg_of (ls_intervals s) i < n"
    "inj_on (reg_of (ls_intervals s)) {i. i < length ivs \<and> in_reg (ls_intervals s) i}"
    using inv by (simp_all add: desc_inv_def)
qed

end
