(* ===== verification/JIT_IR.thy ===== *)
theory JIT_IR
  imports JIT_Live
begin

text \<open>
  The objects of the intermediate representation and the def-use edges between instructions:
  \<open>ir/instructions/InstructionBase.h\<close>, \<open>Users.h\<close>, \<open>Input.h\<close>, \<open>Instruction.h\<close>,
  \<open>ir/InstructionBase.cpp\<close> and \<open>ir/Instruction.cpp\<close>.

  Objects live in a heap, a function from addresses to records per class; a pointer is an
  address or \<open>None\<close> for \<open>nullptr\<close>, and every other pointer of the code points to an object.
  Dereferencing \<open>nullptr\<close> is \<open>UB\<close>.  The subclasses of \<open>InstructionBase\<close> are one record with
  the fields of all of them; \<open>i_class\<close> is the class, and a field its class does not have keeps
  its initial value.
\<close>

section \<open>Vectors of pointers\<close>

text \<open>\<open>std::find(...) - begin()\<close>: the length when the element is absent.\<close>

fun index_of :: "'a \<Rightarrow> 'a list \<Rightarrow> nat" where
  "index_of x [] = 0"
| "index_of x (y # ys) = (if y = x then 0 else Suc (index_of x ys))"

text \<open>Find an element, overwrite it with the last one and drop the last one.\<close>

definition swap_remove :: "'a \<Rightarrow> 'a list \<Rightarrow> (abort, 'a list) res" where
  "swap_remove x xs =
     (let iter = index_of x xs in ASSERT (iter \<noteq> length xs) (Ok (butlast (xs[iter := last xs]))))"

definition replace_first :: "'a \<Rightarrow> 'a \<Rightarrow> 'a list \<Rightarrow> (abort, 'a list) res" where
  "replace_first old new xs =
     (let iter = index_of old xs in ASSERT (iter \<noteq> length xs) (Ok (xs[iter := new])))"

lemma index_of_le: "index_of x xs \<le> length xs"
  by (induction xs) auto

lemma index_of_less: "index_of x xs < length xs \<longleftrightarrow> x \<in> set xs"
  by (induction xs) auto

lemma index_of_absent: "index_of x xs \<noteq> length xs \<longleftrightarrow> x \<in> set xs"
  using index_of_le [of x xs] index_of_less [of x xs] by auto

lemma nth_index_of: "x \<in> set xs \<Longrightarrow> xs ! index_of x xs = x"
  by (induction xs) auto

lemma swap_remove_Ok:
  "swap_remove x xs = Ok ys \<longleftrightarrow> x \<in> set xs \<and> ys = butlast (xs[index_of x xs := last xs])"
  by (auto simp: swap_remove_def Let_def res_simps index_of_absent)

lemma replace_first_Ok:
  "replace_first old new xs = Ok ys \<longleftrightarrow> old \<in> set xs \<and> ys = xs[index_of old xs := new]"
  by (auto simp: replace_first_def Let_def res_simps index_of_absent)

section \<open>Objects\<close>

type_synonym iptr = nat
type_synonym bptr = nat
type_synonym lptr = nat
type_synonym gptr = nat

datatype InstrClass =
    BinaryImmInstruction | BinaryRegInstruction | UnaryRegInstruction | LoadImmInstruction
  | StoreImmInstruction | ConstantInstruction | CastInstruction | CompareInstruction
  | CondJumpInstruction | JumpInstruction | RetInstruction | RetVoidInstruction
  | CallInstruction | PhiInstruction | InputArgumentInstruction | LengthInstruction
  | NewArrayInstruction | NewArrayImmInstruction | NewObjectInstruction
  | LoadArrayInstruction | StoreArrayInstruction | BoundsCheckInstruction

record Instr =
  i_class :: InstrClass
  i_id :: nat
  i_opcode :: Opcode
  i_type :: OperandType
  i_prev :: "iptr option"
  i_next :: "iptr option"
  i_parent :: "bptr option"
  i_properties :: byte
  i_linearNumber :: nat
  i_markers :: markers
  i_users :: "iptr list"
  i_inputs :: "iptr option list"
  i_value :: u64
  i_ccode :: CondCode
  i_typeId :: u64
  i_toType :: OperandType
  i_sources :: "bptr list"
  i_callTarget :: nat

definition INVALID_ID :: nat where
  "INVALID_ID = 2 ^ 64 - 1"

text \<open>Subtraction of \<open>size_t\<close> values: it wraps below zero.\<close>

definition size_sub :: "nat \<Rightarrow> nat \<Rightarrow> nat" where
  "size_sub a b = (if b \<le> a then a - b else a + 2 ^ 64 - b)"

lemma size_sub_le [simp]: "b \<le> a \<Longrightarrow> size_sub a b = a - b"
  by (simp add: size_sub_def)

record BBlock =
  b_id :: nat
  b_markers :: markers
  b_preds :: "bptr list"
  b_succs :: "bptr list"
  b_instrsCount :: nat
  b_firstPhi :: "iptr option"
  b_lastPhi :: "iptr option"
  b_firstInst :: "iptr option"
  b_lastInst :: "iptr option"
  b_dominator :: "bptr option"
  b_dominated :: "bptr list"
  b_loop :: "lptr option"
  b_graph :: "gptr option"

record LoopObj =
  l_id :: nat
  l_header :: "bptr option"
  l_backEdges :: "bptr list"
  l_basicBlocks :: "bptr list"
  l_outerLoop :: "lptr option"
  l_innerLoops :: "lptr list"
  l_isIrreducible :: bool
  l_isRoot :: bool

record GraphObj =
  g_id :: nat
  g_markers :: MarkerManager
  g_valid :: validity_mask
  g_firstBlock :: "bptr option"
  g_lastBlock :: "bptr option"
  g_bblocks :: "bptr option list"
  g_unlinkedInstructionsCounter :: nat
  g_rpoBlocks :: "bptr list"
  g_loopTreeRoot :: "lptr option"
  g_currentId :: nat
  g_liveIntervals :: "LiveInterval list"

record heap =
  h_i :: "iptr \<Rightarrow> Instr"
  h_b :: "bptr \<Rightarrow> BBlock"
  h_l :: "lptr \<Rightarrow> LoopObj"
  h_g :: "gptr \<Rightarrow> GraphObj"
  h_new_i :: iptr
  h_new_b :: bptr
  h_new_l :: lptr

type_synonym heap_step = "heap \<Rightarrow> (abort, heap) res"

definition upd_i :: "iptr \<Rightarrow> (Instr \<Rightarrow> Instr) \<Rightarrow> heap \<Rightarrow> heap" where
  "upd_i i f h = h\<lparr>h_i := (h_i h)(i := f (h_i h i))\<rparr>"

definition upd_b :: "bptr \<Rightarrow> (BBlock \<Rightarrow> BBlock) \<Rightarrow> heap \<Rightarrow> heap" where
  "upd_b b f h = h\<lparr>h_b := (h_b h)(b := f (h_b h b))\<rparr>"

definition upd_l :: "lptr \<Rightarrow> (LoopObj \<Rightarrow> LoopObj) \<Rightarrow> heap \<Rightarrow> heap" where
  "upd_l l f h = h\<lparr>h_l := (h_l h)(l := f (h_l h l))\<rparr>"

definition upd_g :: "gptr \<Rightarrow> (GraphObj \<Rightarrow> GraphObj) \<Rightarrow> heap \<Rightarrow> heap" where
  "upd_g g f h = h\<lparr>h_g := (h_g h)(g := f (h_g h g))\<rparr>"

fun deref :: "'p option \<Rightarrow> ('p \<Rightarrow> (abort, 'a) res) \<Rightarrow> (abort, 'a) res" where
  "deref None k = UB"
| "deref (Some p) k = k p"

text \<open>A loop whose body may fail: \<open>for (auto *x : xs) h = step(x, h)\<close>.\<close>

fun for_each :: "('x \<Rightarrow> 's \<Rightarrow> ('e, 's) res) \<Rightarrow> 'x list \<Rightarrow> 's \<Rightarrow> ('e, 's) res" where
  "for_each step [] h = Ok h"
| "for_each step (x # xs) h = rbind (step x h) (for_each step xs)"

section \<open>Instructions\<close>

definition InstructionBase_init :: "InstrClass \<Rightarrow> Opcode \<Rightarrow> OperandType \<Rightarrow> byte \<Rightarrow> Instr" where
  "InstructionBase_init cls opcode type prop =
     \<lparr>i_class = cls, i_id = INVALID_ID, i_opcode = opcode, i_type = type, i_prev = None,
      i_next = None, i_parent = None, i_properties = prop, i_linearNumber = 0,
      i_markers = Markable_init, i_users = [], i_inputs = [], i_value = 0, i_ccode = CC_EQ,
      i_typeId = 0, i_toType = T_INVALID, i_sources = [], i_callTarget = 0\<rparr>"

definition SatisfiesProperty :: "InstrProp \<Rightarrow> Instr \<Rightarrow> bool" where
  "SatisfiesProperty prop i = (i_properties i AND prop_bits prop \<noteq> 0)"

definition IsInputArgument :: "Instr \<Rightarrow> bool" where "IsInputArgument i = (i_opcode i = Op_ARG)"
definition IsPhi :: "Instr \<Rightarrow> bool" where "IsPhi i = (i_opcode i = Op_PHI)"
definition IsCall :: "Instr \<Rightarrow> bool" where "IsCall i = (i_opcode i = Op_CALL)"
definition IsConst :: "Instr \<Rightarrow> bool" where "IsConst i = (i_opcode i = Op_CONST)"
definition IsBranch :: "Instr \<Rightarrow> bool" where "IsBranch i = (i_opcode i = Op_JCMP)"
definition HasInputs :: "Instr \<Rightarrow> bool" where "HasInputs i = SatisfiesProperty INPUT i"
definition HasSideEffects :: "Instr \<Rightarrow> bool" where "HasSideEffects i = SatisfiesProperty SIDE_EFFECTS i"

definition SetProperty :: "byte \<Rightarrow> Instr \<Rightarrow> Instr" where
  "SetProperty prop i = i\<lparr>i_properties := i_properties i OR prop\<rparr>"

subsection \<open>Users\<close>

definition UsersCount :: "Instr \<Rightarrow> nat" where
  "UsersCount i = length (i_users i)"

definition AddUser :: "iptr option \<Rightarrow> Instr \<Rightarrow> (abort, Instr) res" where
  "AddUser user i = (case user of Some u \<Rightarrow> Ok (i\<lparr>i_users := i_users i @ [u]\<rparr>) | None \<Rightarrow> Err AssertionFail)"

definition AddUsers :: "iptr list \<Rightarrow> Instr \<Rightarrow> Instr" where
  "AddUsers instrs i = i\<lparr>i_users := i_users i @ instrs\<rparr>"

definition RemoveUser :: "iptr \<Rightarrow> Instr \<Rightarrow> (abort, Instr) res" where
  "RemoveUser user i = rbind (swap_remove user (i_users i)) (\<lambda>us. Ok (i\<lparr>i_users := us\<rparr>))"

definition ReplaceUser :: "iptr \<Rightarrow> iptr \<Rightarrow> Instr \<Rightarrow> (abort, Instr) res" where
  "ReplaceUser oldInstr newInstr i =
     rbind (replace_first oldInstr newInstr (i_users i)) (\<lambda>us. Ok (i\<lparr>i_users := us\<rparr>))"

definition SetNewUsers :: "iptr list \<Rightarrow> Instr \<Rightarrow> Instr" where
  "SetNewUsers newUsers i = i\<lparr>i_users := newUsers\<rparr>"

text \<open>A method of the object \<open>p\<close> points to, in the heap.\<close>

definition on_instr :: "iptr \<Rightarrow> (Instr \<Rightarrow> (abort, Instr) res) \<Rightarrow> heap_step" where
  "on_instr p f h = rbind (f (h_i h p)) (\<lambda>i. Ok (upd_i p (\<lambda>_. i) h))"

subsection \<open>Inputs\<close>

definition GetInputsCount :: "Instr \<Rightarrow> nat" where
  "GetInputsCount i = length (i_inputs i)"

definition GetInput :: "nat \<Rightarrow> Instr \<Rightarrow> (abort, iptr option) res" where
  "GetInput idx i = ASSERT (idx < length (i_inputs i)) (Ok (i_inputs i ! idx))"

text \<open>\<open>if (input.GetInstruction()) input->AddUser(this)\<close>\<close>

definition add_user_if :: "iptr option \<Rightarrow> iptr \<Rightarrow> heap_step" where
  "add_user_if input this h =
     (case input of Some p \<Rightarrow> on_instr p (AddUser (Some this)) h | None \<Rightarrow> Ok h)"

definition SetInput :: "iptr option \<Rightarrow> nat \<Rightarrow> iptr \<Rightarrow> heap_step" where
  "SetInput newInput idx this h =
     ASSERT (idx < length (i_inputs (h_i h this)))
       (add_user_if newInput this
          (upd_i this (\<lambda>i. i\<lparr>i_inputs := (i_inputs i)[idx := newInput]\<rparr>) h))"

definition ReplaceInput :: "iptr option \<Rightarrow> iptr option \<Rightarrow> Instr \<Rightarrow> (abort, Instr) res" where
  "ReplaceInput oldInput newInput i =
     rbind (replace_first oldInput newInput (i_inputs i)) (\<lambda>ins. Ok (i\<lparr>i_inputs := ins\<rparr>))"

definition AddInput :: "iptr option \<Rightarrow> iptr \<Rightarrow> heap_step" where
  "AddInput newInput this h =
     add_user_if newInput this (upd_i this (\<lambda>i. i\<lparr>i_inputs := i_inputs i @ [newInput]\<rparr>) h)"

definition RemoveUserFromInputs :: "iptr \<Rightarrow> heap_step" where
  "RemoveUserFromInputs this h =
     for_each (\<lambda>idx h. rbind (GetInput idx (h_i h this)) (\<lambda>input.
       deref input (\<lambda>p. on_instr p (RemoveUser this) h)))
       [0..<GetInputsCount (h_i h this)] h"

definition ReplaceInputInUsers :: "iptr option \<Rightarrow> iptr \<Rightarrow> heap_step" where
  "ReplaceInputInUsers newInput this h =
     deref newInput (\<lambda>p.
       if p = this \<and> i_users (h_i h this) \<noteq> [] then UB
       else
         (let users = i_users (h_i h this); h = upd_i p (AddUsers users) h in
          for_each (\<lambda>it h. ASSERT (HasInputs (h_i h it))
              (on_instr it (ReplaceInput (Some this) newInput) h)) users h))"

subsection \<open>Comparisons, jumps and PHI instructions\<close>

definition InverseCondCode :: "Instr \<Rightarrow> Instr" where
  "InverseCondCode i = i\<lparr>i_ccode := inverseCondCode (i_ccode i)\<rparr>"

definition CompareInstruction_Inverse :: "Instr \<Rightarrow> (abort, Instr) res" where
  "CompareInstruction_Inverse i =
     (let i = InverseCondCode i in
      rbind (GetInput 0 i) (\<lambda>in0. rbind (GetInput 1 i) (\<lambda>in1.
      Ok (i\<lparr>i_inputs := (i_inputs i)[0 := in1, 1 := in0]\<rparr>))))"

definition JumpInstruction_GetDestination :: "iptr \<Rightarrow> heap \<Rightarrow> (abort, bptr) res" where
  "JumpInstruction_GetDestination this h =
     (case i_parent (h_i h this) of
        None \<Rightarrow> Err AssertionFail
      | Some b \<Rightarrow> ASSERT (b_succs (h_b h b) \<noteq> []) (Ok (b_succs (h_b h b) ! 0)))"

definition getBranchDestinationImpl :: "nat \<Rightarrow> iptr \<Rightarrow> heap \<Rightarrow> (abort, bptr) res" where
  "getBranchDestinationImpl cmpRes this h =
     (case i_parent (h_i h this) of
        None \<Rightarrow> Err AssertionFail
      | Some b \<Rightarrow> ASSERT (length (b_succs (h_b h b)) = 2) (Ok (b_succs (h_b h b) ! cmpRes)))"

definition CondJump_GetDestination :: "bool \<Rightarrow> iptr \<Rightarrow> heap \<Rightarrow> (abort, bptr) res" where
  "CondJump_GetDestination cmpRes this h =
     (if cmpRes then getBranchDestinationImpl 0 this h else getBranchDestinationImpl 1 this h)"

definition IndexOf :: "bptr \<Rightarrow> Instr \<Rightarrow> nat" where
  "IndexOf inputSource i = index_of inputSource (i_sources i)"

definition GetSourceBasicBlock :: "nat \<Rightarrow> Instr \<Rightarrow> (abort, bptr) res" where
  "GetSourceBasicBlock idx i = ASSERT (idx < length (i_sources i)) (Ok (i_sources i ! idx))"

definition SetSourceBasicBlock :: "bptr \<Rightarrow> nat \<Rightarrow> Instr \<Rightarrow> (abort, Instr) res" where
  "SetSourceBasicBlock inputSource idx i =
     ASSERT (idx < length (i_sources i)) (Ok (i\<lparr>i_sources := (i_sources i)[idx := inputSource]\<rparr>))"

definition ReplaceSourceBasicBlock :: "bptr \<Rightarrow> bptr \<Rightarrow> Instr \<Rightarrow> (abort, Instr) res" where
  "ReplaceSourceBasicBlock inputSource newSource i =
     (let idx = IndexOf inputSource i in
      if idx < length (i_sources i) then Ok (i\<lparr>i_sources := (i_sources i)[idx := newSource]\<rparr>) else UB)"

definition ResolveInput :: "bptr \<Rightarrow> Instr \<Rightarrow> (abort, iptr option) res" where
  "ResolveInput inputSource i = GetInput (IndexOf inputSource i) i"

definition AddPhiInput :: "iptr option \<Rightarrow> bptr \<Rightarrow> iptr \<Rightarrow> heap_step" where
  "AddPhiInput newInput inputSource this h =
     rbind (AddInput newInput this h) (\<lambda>h.
     Ok (upd_i this (\<lambda>i. i\<lparr>i_sources := i_sources i @ [inputSource]\<rparr>) h))"

definition RemovePhiInput :: "bptr \<Rightarrow> Instr \<Rightarrow> (abort, Instr) res" where
  "RemovePhiInput bblock i =
     (let idx = IndexOf bblock i in
      ASSERT (idx < length (i_sources i))
        (if idx < length (i_inputs i) then
           Ok (i\<lparr>i_sources := butlast ((i_sources i)[idx := last (i_sources i)]),
                 i_inputs := butlast ((i_inputs i)[idx := last (i_inputs i)])\<rparr>)
         else UB))"

end
