(* ===== verification/JIT_DefUse.thy ===== *)
theory JIT_DefUse
  imports JIT_IR "HOL-Library.Multiset"
begin

text \<open>
  The def-use edges of the intermediate representation: an instruction's user list holds every
  instruction that has it as an input, once per input.  Adding an input and replacing an
  instruction in its users keep the edges of every definition but the replaced one's.
\<close>

section \<open>Def-use edges\<close>

text \<open>Every input edge is recorded by its definition, as often as it occurs.\<close>

definition def_use_at :: "iptr \<Rightarrow> heap \<Rightarrow> bool" where
  "def_use_at d h \<longleftrightarrow> (\<forall>u. count (mset (i_users (h_i h d))) u = count (mset (i_inputs (h_i h u))) (Some d))"

definition def_use :: "heap \<Rightarrow> bool" where
  "def_use h \<longleftrightarrow> (\<forall>d. def_use_at d h)"

lemma h_i_upd_i [simp]: "h_i (upd_i p f h) = (h_i h)(p := f (h_i h p))"
  by (simp add: upd_i_def)

lemma upd_frame [simp]:
  "h_b (upd_i p f h) = h_b h" "h_l (upd_i p f h) = h_l h" "h_g (upd_i p f h) = h_g h"
  "h_i (upd_b b g h) = h_i h" "h_l (upd_b b g h) = h_l h" "h_g (upd_b b g h) = h_g h"
  "h_b (upd_b b g h) = (h_b h)(b := g (h_b h b))"
  "h_i (upd_l l k h) = h_i h" "h_b (upd_l l k h) = h_b h" "h_g (upd_l l k h) = h_g h"
  "h_l (upd_l l k h) = (h_l h)(l := k (h_l h l))"
  "h_i (upd_g g' m h) = h_i h" "h_b (upd_g g' m h) = h_b h" "h_l (upd_g g' m h) = h_l h"
  "h_g (upd_g g' m h) = (h_g h)(g' := m (h_g h g'))"
  by (simp_all add: upd_i_def upd_b_def upd_l_def upd_g_def)

lemma deref_Ok_iff [res_simps]: "deref p k = Ok x \<longleftrightarrow> (\<exists>q. p = Some q \<and> k q = Ok x)"
  by (cases p) auto

lemma on_instr_Ok_iff [res_simps]:
  "on_instr p f h = Ok h' \<longleftrightarrow> (\<exists>i. f (h_i h p) = Ok i \<and> h' = upd_i p (\<lambda>_. i) h)"
  by (auto simp: on_instr_def res_simps)

lemma add_user_if_Ok:
  "add_user_if input this h = Ok (case input of Some p \<Rightarrow> upd_i p (\<lambda>i. i\<lparr>i_users := i_users i @ [this]\<rparr>) h | None \<Rightarrow> h)"
  by (cases input) (simp_all add: add_user_if_def on_instr_def AddUser_def upd_i_def)

lemma AddInput_def_use:
  assumes "def_use h"
  shows "\<exists>h'. AddInput newInput this h = Ok h' \<and> def_use h' \<and> i_inputs (h_i h' this) = i_inputs (h_i h this) @ [newInput]"
  using assms
  by (cases newInput) (auto simp: AddInput_def add_user_if_Ok def_use_def def_use_at_def)

lemma SetInput_def_use:
  assumes "def_use h" and "idx < length (i_inputs (h_i h this))" and "i_inputs (h_i h this) ! idx = None"
  shows "\<exists>h'. SetInput newInput idx this h = Ok h' \<and> def_use h' \<and> i_inputs (h_i h' this) = (i_inputs (h_i h this))[idx := newInput]"
  using assms
  by (cases newInput) (auto simp: SetInput_def add_user_if_Ok def_use_def def_use_at_def mset_update)

lemma map_replace_first:
  assumes "f old = f new"
  shows "map f (xs[index_of old xs := new]) = map f xs"
  using assms by (induction xs) auto

lemma count_replace_first:
  assumes "old \<in> set xs" and "old \<noteq> new"
  shows "Suc (count (mset (xs[index_of old xs := new])) old) = count (mset xs) old"
  using assms by (induction xs) auto

lemma for_each_append: "for_each step (xs @ ys) h = rbind (for_each step xs h) (for_each step ys)"
proof (induction xs arbitrary: h)
  case (Cons x xs)
  then show ?case by (cases "step x h") simp_all
qed simp

text \<open>The loop of \<open>ReplaceInputInUsers\<close>.\<close>

lemma replace_loop:
  assumes "\<And>u. count (mset (i_inputs (h_i h u))) (Some this) = count (mset us) u"
    and "\<And>u. u \<in> set us \<Longrightarrow> HasInputs (h_i h u)" and "new \<noteq> this"
  shows "\<exists>h'. for_each (\<lambda>it h. ASSERT (HasInputs (h_i h it)) (on_instr it (ReplaceInput (Some this) (Some new)) h)) us h = Ok h'
    \<and> (\<forall>u. h_i h' u = (h_i h u)\<lparr>i_inputs := map (\<lambda>x. if x = Some this then Some new else x) (i_inputs (h_i h u))\<rparr>)
    \<and> h_b h' = h_b h \<and> h_l h' = h_l h \<and> h_g h' = h_g h"
  using assms
proof (induction us arbitrary: h)
  case Nil
  have "map (\<lambda>x. if x = Some this then Some new else x) (i_inputs (h_i h u)) = i_inputs (h_i h u)" for u
    by (rule map_idI) (use Nil.prems(1) [of u] in \<open>auto simp: count_eq_zero_iff\<close>)
  then show ?case by simp
next
  case (Cons u us)
  let ?ins = "i_inputs (h_i h u)" and ?f = "\<lambda>x. if x = Some this then Some new else x"
  have "count (mset ?ins) (Some this) \<noteq> 0" using Cons.prems(1) [of u] by simp
  then have "Some this \<in> set ?ins" by (metis count_eq_zero_iff set_mset_mset)
  then have step: "on_instr u (ReplaceInput (Some this) (Some new)) h =
      Ok (upd_i u (\<lambda>i. i\<lparr>i_inputs := ?ins[index_of (Some this) ?ins := Some new]\<rparr>) h)" (is "_ = Ok ?h")
    by (simp add: on_instr_def ReplaceInput_def replace_first_def index_of_absent upd_i_def)
  have "count (mset (i_inputs (h_i ?h v))) (Some this) = count (mset us) v" for v
    using Cons.prems(1) [of v] Cons.prems(3) count_replace_first [OF \<open>Some this \<in> set ?ins\<close>, of "Some new"]
    by (auto split: if_split_asm)
  moreover have "HasInputs (h_i ?h v)" if "v \<in> set us" for v
    using Cons.prems(2) [of v] Cons.prems(2) [of u] that by (auto simp: HasInputs_def SatisfiesProperty_def)
  ultimately obtain h' where h': "for_each (\<lambda>it h. ASSERT (HasInputs (h_i h it)) (on_instr it (ReplaceInput (Some this) (Some new)) h)) us ?h = Ok h'"
    and ins: "\<forall>v. h_i h' v = (h_i ?h v)\<lparr>i_inputs := map ?f (i_inputs (h_i ?h v))\<rparr>" "h_b h' = h_b ?h" "h_l h' = h_l ?h" "h_g h' = h_g ?h"
    using Cons.IH [of ?h] Cons.prems(3) by blast
  have "map ?f (?ins[index_of (Some this) ?ins := Some new]) = map ?f ?ins"
    by (rule map_replace_first) simp
  with ins h' Cons.prems(2) [of u] step show ?case by (auto intro!: exI [of _ h'])
qed

text \<open>
  Replacing an instruction by another one in all its users: the edges move; only the replaced
  instruction still lists the users that no longer use it.
\<close>

lemma ReplaceInputInUsers_correct:
  assumes "def_use h" and "new \<noteq> this" and "\<And>u. u \<in> set (i_users (h_i h this)) \<Longrightarrow> HasInputs (h_i h u)"
  obtains h' where "ReplaceInputInUsers (Some new) this h = Ok h'"
    and "\<And>u. i_inputs (h_i h' u) = map (\<lambda>x. if x = Some this then Some new else x) (i_inputs (h_i h u))"
    and "\<And>d. d \<noteq> this \<Longrightarrow> def_use_at d h'" and "i_users (h_i h' this) = i_users (h_i h this)"
    and "i_users (h_i h' new) = i_users (h_i h new) @ i_users (h_i h this)"
    and "\<And>u. Some this \<notin> set (i_inputs (h_i h' u))"
    and "\<And>u. h_i h' u = (h_i h u)\<lparr>i_inputs := i_inputs (h_i h' u), i_users := i_users (h_i h' u)\<rparr>"
    and "h_b h' = h_b h" "h_l h' = h_l h" "h_g h' = h_g h"
proof -
  let ?us = "i_users (h_i h this)" and ?f = "\<lambda>x. if x = Some this then Some new else x"
  let ?h = "upd_i new (AddUsers ?us) h"
  have same: "i_inputs (h_i ?h u) = i_inputs (h_i h u)" "HasInputs (h_i ?h u) = HasInputs (h_i h u)" for u
    by (simp_all add: AddUsers_def HasInputs_def SatisfiesProperty_def)
  have "count (mset (i_inputs (h_i ?h u))) (Some this) = count (mset ?us) u" for u
    using assms(1) unfolding same by (simp add: def_use_def def_use_at_def)
  then obtain h' where h': "for_each (\<lambda>it h. ASSERT (HasInputs (h_i h it)) (on_instr it (ReplaceInput (Some this) (Some new)) h)) ?us ?h = Ok h'"
    and ins: "\<forall>u. h_i h' u = (h_i ?h u)\<lparr>i_inputs := map ?f (i_inputs (h_i ?h u))\<rparr>"
    and fr: "h_b h' = h_b ?h" "h_l h' = h_l ?h" "h_g h' = h_g ?h"
    using replace_loop [of ?h this ?us new] assms(2,3) unfolding same by blast
  have ok: "ReplaceInputInUsers (Some new) this h = Ok h'"
    using assms(2) h' by (simp add: ReplaceInputInUsers_def Let_def)
  have inputs: "i_inputs (h_i h' u) = map ?f (i_inputs (h_i h u))" for u
    using ins same(1) by simp
  have users: "i_users (h_i h' d) = (if d = new then i_users (h_i h new) @ ?us else i_users (h_i h d))" for d
    using ins by (simp add: AddUsers_def)
  have cnt: "count (mset (map ?f xs)) (Some d) = (if d = this then 0 else if d = new then count (mset xs) (Some new) + count (mset xs) (Some this)
      else count (mset xs) (Some d))" for xs d
    using assms(2) by (induction xs) auto
  show thesis
  proof (rule that [OF ok inputs])
    show "def_use_at d h'" if "d \<noteq> this" for d
      using assms(1) that by (simp add: def_use_at_def def_use_def users inputs cnt del: mset_map)
    show "Some this \<notin> set (i_inputs (h_i h' u))" for u
      using assms(2) by (auto simp: inputs)
    show "h_i h' u = (h_i h u)\<lparr>i_inputs := i_inputs (h_i h' u), i_users := i_users (h_i h' u)\<rparr>" for u
      using ins by (simp add: AddUsers_def)
  qed (use users assms(2) fr in simp_all)
qed

text \<open>Removing an instruction from its inputs' users.\<close>

lemma count_swap_remove:
  assumes "x \<in> set xs"
  shows "mset (butlast (xs[index_of x xs := last xs])) = mset xs - {#x#}"
proof -
  let ?i = "index_of x xs"
  have i: "?i < length xs" using assms by (simp add: index_of_less)
  then have ne: "xs \<noteq> []" by auto
  have "mset (xs[?i := last xs]) = add_mset (last xs) (mset xs - {#x#})"
    using i assms by (simp add: mset_update nth_index_of)
  moreover have "last (xs[?i := last xs]) = last xs"
    using ne by (simp add: last_list_update)
  ultimately show ?thesis
    using ne by (metis (no_types, lifting) add_mset_remove_trivial append_butlast_last_id list_update_nonempty mset_append mset_single_iff_right
      union_mset_add_mset_right add.right_neutral mset.simps add_mset_add_single)
qed

end
