(* ===== verification/Loops.thy ===== *)
theory Loops
  imports Prelude
begin

text \<open>
  Loops with a body that may fail.  \<open>while_do b c s\<close> runs \<open>c\<close> as long as \<open>b\<close> holds.  A loop that
  never ends and has no observable effect is undefined behaviour in C++ (forward progress), so a
  run that does not end is \<open>UB\<close>; a theorem that gives the value \<open>Ok\<close> says that the loop ends.
\<close>

partial_function (option) while_res ::
    "('s \<Rightarrow> bool) \<Rightarrow> ('s \<Rightarrow> ('e, 's) res) \<Rightarrow> 's \<Rightarrow> ('e, 's) res option" where
  "while_res b c s =
     (if b s then (case c s of Ok t \<Rightarrow> while_res b c t | Err e \<Rightarrow> Some (Err e) | UB \<Rightarrow> Some UB)
      else Some (Ok s))"

definition while_do :: "('s \<Rightarrow> bool) \<Rightarrow> ('s \<Rightarrow> ('e, 's) res) \<Rightarrow> 's \<Rightarrow> ('e, 's) res" where
  "while_do b c s = (case while_res b c s of Some r \<Rightarrow> r | None \<Rightarrow> UB)"

lemma while_do_unfold: "while_do b c s = (if b s then rbind (c s) (while_do b c) else Ok s)"
  unfolding while_do_def [of b c s]
  by (subst while_res.simps) (auto simp: while_do_def split: res.split)

lemma while_do_stop [simp]: "\<not> b s \<Longrightarrow> while_do b c s = Ok s"
  by (subst while_do_unfold) simp

lemma while_do_step: "b s \<Longrightarrow> c s = Ok t \<Longrightarrow> while_do b c s = while_do b c t"
  by (subst while_do_unfold) simp

lemma while_do_fail: "b s \<Longrightarrow> c s = Err e \<Longrightarrow> while_do b c s = Err e"
  by (subst while_do_unfold) simp

text \<open>Total correctness: an invariant and a measure that the body decreases.\<close>

lemma while_do_rule:
  assumes "P s" and "\<And>s. P s \<Longrightarrow> b s \<Longrightarrow> \<exists>t. c s = Ok t \<and> P t \<and> (m t :: nat) < m s"
  obtains t where "while_do b c s = Ok t" and "P t" and "\<not> b t"
proof -
  have "\<exists>t. while_do b c s = Ok t \<and> P t \<and> \<not> b t"
    using assms(1)
  proof (induction "m s" arbitrary: s rule: less_induct)
    case less
    show ?case
    proof (cases "b s")
      case True
      with less.prems assms(2) obtain t where "c s = Ok t" "P t" "m t < m s" by blast
      with less.hyps True show ?thesis by (simp add: while_do_step)
    qed (use less.prems in simp)
  qed
  with that show thesis by blast
qed

text \<open>Partial correctness: an invariant of the body is an invariant of the loop.\<close>

lemma while_res_inv:
  assumes "while_res b c s = Some r" and "r = Ok t" and "P s" and "\<And>s t. P s \<Longrightarrow> b s \<Longrightarrow> c s = Ok t \<Longrightarrow> P t"
  shows "P t \<and> \<not> b t"
proof -
  have "P s \<longrightarrow> r = Ok t \<longrightarrow> P t \<and> \<not> b t"
  proof (rule while_res.raw_induct [where P = "\<lambda>b' c' s r. b' = b \<longrightarrow> c' = c \<longrightarrow> P s \<longrightarrow> r = Ok t \<longrightarrow> P t \<and> \<not> b t", OF _ assms(1), THEN mp, THEN mp], goal_cases)
    case (1 f b' c' s r)
    then show ?case using assms(4) by (auto split: if_split_asm res.split_asm) blast+
  qed simp_all
  with assms show ?thesis by blast
qed

lemma while_do_inv:
  assumes "while_do b c s = Ok t" and "P s" and "\<And>s t. P s \<Longrightarrow> b s \<Longrightarrow> c s = Ok t \<Longrightarrow> P t"
  shows "P t" and "\<not> b t"
  using assms while_res_inv [of b c s "Ok t" t P]
  by (auto simp: while_do_def split: option.split_asm)

end
