(* ===== verification/JIT_Block.thy ===== *)
theory JIT_Block
  imports JIT_DefUse Loops
begin

text \<open>
  Basic blocks (\<open>ir/BasicBlock.h\<close>, \<open>ir/BasicBlock.cpp\<close>), loops (\<open>ir/Loop.h\<close>) and the methods
  of instructions that work on their block (\<open>ir/InstructionBase.cpp\<close>): the edges of the control
  flow graph, and the doubly linked list of a block's instructions, its PHI instructions first.
  A pointer argument that the code asserts to be non-null is an address here.
\<close>

section \<open>Links of an instruction\<close>

definition SetPrevInstruction :: "iptr \<Rightarrow> iptr option \<Rightarrow> heap \<Rightarrow> heap" where
  "SetPrevInstruction this inst = upd_i this (\<lambda>i. i\<lparr>i_prev := inst\<rparr>)"

definition SetNextInstruction :: "iptr \<Rightarrow> iptr option \<Rightarrow> heap \<Rightarrow> heap" where
  "SetNextInstruction this inst = upd_i this (\<lambda>i. i\<lparr>i_next := inst\<rparr>)"

definition SetBasicBlock :: "iptr \<Rightarrow> bptr option \<Rightarrow> heap \<Rightarrow> heap" where
  "SetBasicBlock this bblock = upd_i this (\<lambda>i. i\<lparr>i_parent := bblock\<rparr>)"

text \<open>\<open>if (p) p->SetNextInstruction(...)\<close>\<close>

definition set_next_if :: "iptr option \<Rightarrow> iptr option \<Rightarrow> heap \<Rightarrow> heap" where
  "set_next_if p n h = (case p of Some q \<Rightarrow> SetNextInstruction q n h | None \<Rightarrow> h)"

definition set_prev_if :: "iptr option \<Rightarrow> iptr option \<Rightarrow> heap \<Rightarrow> heap" where
  "set_prev_if p n h = (case p of Some q \<Rightarrow> SetPrevInstruction q n h | None \<Rightarrow> h)"

definition is_phi_at :: "iptr option \<Rightarrow> heap \<Rightarrow> bool" where
  "is_phi_at p h = (case p of Some q \<Rightarrow> IsPhi (h_i h q) | None \<Rightarrow> False)"

section \<open>Blocks\<close>

definition BasicBlock_init :: "gptr \<Rightarrow> BBlock" where
  "BasicBlock_init g =
     \<lparr>b_id = INVALID_ID, b_markers = Markable_init, b_preds = [], b_succs = [], b_instrsCount = 0,
      b_firstPhi = None, b_lastPhi = None, b_firstInst = None, b_lastInst = None,
      b_dominator = None, b_dominated = [], b_loop = None, b_graph = Some g\<rparr>"

definition IsEmpty :: "BBlock \<Rightarrow> bool" where
  "IsEmpty b = (b_instrsCount b = 0)"

definition HasPredecessor :: "bptr \<Rightarrow> BBlock \<Rightarrow> bool" where
  "HasPredecessor bblock b = (index_of bblock (b_preds b) \<noteq> length (b_preds b))"

definition IsFirstInGraph :: "bptr \<Rightarrow> heap \<Rightarrow> (abort, bool) res" where
  "IsFirstInGraph this h =
     deref (b_graph (h_b h this)) (\<lambda>g. Ok (g_firstBlock (h_g h g) = Some this))"

definition IsLastInGraph :: "bptr \<Rightarrow> heap \<Rightarrow> (abort, bool) res" where
  "IsLastInGraph this h =
     deref (b_graph (h_b h this)) (\<lambda>g. Ok (g_lastBlock (h_g h g) = Some this))"

definition EndsWithConditionalJump :: "bptr \<Rightarrow> heap \<Rightarrow> (abort, iptr option) res" where
  "EndsWithConditionalJump this h =
     (case b_lastInst (h_b h this) of
        None \<Rightarrow> Ok None
      | Some instr \<Rightarrow>
          if i_opcode (h_i h instr) \<noteq> Op_JCMP then Ok None
          else ASSERT (length (b_succs (h_b h this)) = 2)
            (case i_prev (h_i h instr) of
               None \<Rightarrow> Err AssertionFail
             | Some p \<Rightarrow> ASSERT (i_opcode (h_i h p) = Op_CMP) (Ok (Some p))))"

definition InverseConditionalBranch :: "bptr \<Rightarrow> heap_step" where
  "InverseConditionalBranch this h =
     rbind (EndsWithConditionalJump this h) (\<lambda>cmp.
     case cmp of
       None \<Rightarrow> Err AssertionFail
     | Some c \<Rightarrow>
         rbind (on_instr c CompareInstruction_Inverse h) (\<lambda>h.
         Ok (upd_b this (\<lambda>b. b\<lparr>b_succs := (b_succs b)[0 := b_succs b ! 1, 1 := b_succs b ! 0]\<rparr>) h)))"

definition IsLoopHeader :: "bptr \<Rightarrow> heap \<Rightarrow> bool" where
  "IsLoopHeader this h =
     (case b_loop (h_b h this) of None \<Rightarrow> False | Some l \<Rightarrow> l_header (h_l h l) = Some this)"

definition Dominates :: "bptr \<Rightarrow> bptr \<Rightarrow> heap \<Rightarrow> (abort, bool) res" where
  "Dominates this other h =
     (if other = this then Ok True
      else rbind
        (while_do (\<lambda>dom. dom \<noteq> None \<and> dom \<noteq> Some this)
          (\<lambda>dom. deref dom (\<lambda>d. Ok (b_dominator (h_b h d)))) (b_dominator (h_b h other)))
        (\<lambda>dom. Ok (dom = Some this)))"

subsection \<open>Edges\<close>

definition on_block :: "bptr \<Rightarrow> (BBlock \<Rightarrow> (abort, BBlock) res) \<Rightarrow> heap_step" where
  "on_block p f h = rbind (f (h_b h p)) (\<lambda>b. Ok (upd_b p (\<lambda>_. b) h))"

definition AddDominatedBlock :: "bptr \<Rightarrow> BBlock \<Rightarrow> BBlock" where
  "AddDominatedBlock bblock b = b\<lparr>b_dominated := b_dominated b @ [bblock]\<rparr>"

definition RemoveDominatedBlock :: "bptr \<Rightarrow> BBlock \<Rightarrow> (abort, BBlock) res" where
  "RemoveDominatedBlock bblock b =
     rbind (swap_remove bblock (b_dominated b)) (\<lambda>bs. Ok (b\<lparr>b_dominated := bs\<rparr>))"

definition AddPredecessor :: "bptr \<Rightarrow> BBlock \<Rightarrow> (abort, BBlock) res" where
  "AddPredecessor bblock b =
     ASSERT (index_of bblock (b_preds b) = length (b_preds b)) (Ok (b\<lparr>b_preds := b_preds b @ [bblock]\<rparr>))"

definition AddSuccessor :: "bptr \<Rightarrow> BBlock \<Rightarrow> (abort, BBlock) res" where
  "AddSuccessor bblock b =
     ASSERT (length (b_succs b) < 2)
       (ASSERT (index_of bblock (b_succs b) = length (b_succs b)) (Ok (b\<lparr>b_succs := b_succs b @ [bblock]\<rparr>)))"

definition RemovePredecessor :: "bptr \<Rightarrow> BBlock \<Rightarrow> (abort, BBlock) res" where
  "RemovePredecessor bblock b =
     rbind (swap_remove bblock (b_preds b)) (\<lambda>bs. Ok (b\<lparr>b_preds := bs\<rparr>))"

definition RemoveSuccessor :: "bptr \<Rightarrow> BBlock \<Rightarrow> (abort, BBlock) res" where
  "RemoveSuccessor bblock b =
     (let it = index_of bblock (b_succs b) in
      ASSERT (it \<noteq> length (b_succs b)) (Ok (b\<lparr>b_succs := take it (b_succs b) @ drop (Suc it) (b_succs b)\<rparr>)))"

definition ReplaceSuccessor :: "bptr \<Rightarrow> bptr \<Rightarrow> BBlock \<Rightarrow> (abort, BBlock) res" where
  "ReplaceSuccessor prevSucc newSucc b =
     rbind (replace_first prevSucc newSucc (b_succs b)) (\<lambda>bs. Ok (b\<lparr>b_succs := bs\<rparr>))"

definition ReplacePredecessor :: "bptr \<Rightarrow> bptr \<Rightarrow> BBlock \<Rightarrow> (abort, BBlock) res" where
  "ReplacePredecessor prevPred newPred b =
     rbind (replace_first prevPred newPred (b_preds b)) (\<lambda>bs. Ok (b\<lparr>b_preds := bs\<rparr>))"

subsection \<open>The instruction list\<close>

definition MoveConstantUnsafe :: "iptr \<Rightarrow> bptr \<Rightarrow> heap_step" where
  "MoveConstantUnsafe instr this h =
     rbind (IsFirstInGraph this h) (\<lambda>first.
     ASSERT first
       (ASSERT (IsConst (h_i h instr))
         (let h = SetNextInstruction instr None h in
          rbind
            (case b_lastInst (h_b h this) of
               None \<Rightarrow>
                 ASSERT (b_firstInst (h_b h this) = None)
                   (let h = SetPrevInstruction instr None h in
                    Ok (upd_b this (\<lambda>b. b\<lparr>b_firstInst := Some instr, b_lastInst := Some instr\<rparr>) h))
             | Some lastInst \<Rightarrow>
                 let h = SetNextInstruction lastInst (Some instr) h;
                     h = SetPrevInstruction instr (Some lastInst) h in
                 Ok (upd_b this (\<lambda>b. b\<lparr>b_lastInst := Some instr\<rparr>) h))
            (\<lambda>h. Ok (upd_b this (\<lambda>b. b\<lparr>b_instrsCount := b_instrsCount b + 1\<rparr>) h)))))"

definition pushPhi :: "iptr \<Rightarrow> bptr \<Rightarrow> heap_step" where
  "pushPhi instr this h =
     ASSERT (IsPhi (h_i h instr))
       (case b_firstPhi (h_b h this) of
          None \<Rightarrow>
            let h = upd_b this (\<lambda>b. b\<lparr>b_firstPhi := Some instr, b_lastPhi := Some instr\<rparr>) h;
                h = SetNextInstruction instr (b_firstInst (h_b h this)) h in
            Ok (set_prev_if (b_firstInst (h_b h this)) (Some instr) h)
        | Some firstPhi \<Rightarrow>
            let h = SetNextInstruction instr (Some firstPhi) h;
                h = SetPrevInstruction firstPhi (Some instr) h in
            Ok (upd_b this (\<lambda>b. b\<lparr>b_firstPhi := Some instr\<rparr>) h))"

definition pushInstruction :: "bool \<Rightarrow> iptr \<Rightarrow> bptr \<Rightarrow> heap_step" where
  "pushInstruction PushBack instr this h =
     ASSERT (i_parent (h_i h instr) = None)
       (ASSERT (i_prev (h_i h instr) = None)
         (let h = SetBasicBlock instr (Some this) h in
          rbind
            (if IsPhi (h_i h instr) then pushPhi instr this h
             else case b_firstInst (h_b h this) of
               None \<Rightarrow>
                 let lastPhi = b_lastPhi (h_b h this);
                     h = SetPrevInstruction instr lastPhi h;
                     h = upd_b this (\<lambda>b. b\<lparr>b_firstInst := Some instr, b_lastInst := Some instr\<rparr>) h in
                 Ok (set_next_if lastPhi (Some instr) h)
             | Some firstInst \<Rightarrow>
                 if PushBack then
                   deref (b_lastInst (h_b h this)) (\<lambda>lastInst.
                     let h = SetPrevInstruction instr (Some lastInst) h;
                         h = SetNextInstruction lastInst (Some instr) h in
                     Ok (upd_b this (\<lambda>b. b\<lparr>b_lastInst := Some instr\<rparr>) h))
                 else
                   let h = SetNextInstruction instr (Some firstInst) h;
                       h = SetPrevInstruction firstInst (Some instr) h in
                   Ok (upd_b this (\<lambda>b. b\<lparr>b_firstInst := Some instr\<rparr>) h))
            (\<lambda>h. Ok (upd_b this (\<lambda>b. b\<lparr>b_instrsCount := b_instrsCount b + 1\<rparr>) h))))"

definition PushForwardInstruction :: "iptr \<Rightarrow> bptr \<Rightarrow> heap_step" where
  "PushForwardInstruction = pushInstruction False"

definition PushBackInstruction :: "iptr \<Rightarrow> bptr \<Rightarrow> heap_step" where
  "PushBackInstruction = pushInstruction True"

definition InsertBefore :: "iptr \<Rightarrow> iptr \<Rightarrow> bptr \<Rightarrow> heap_step" where
  "InsertBefore before target this h =
     ASSERT (i_parent (h_i h target) = None \<and> \<not> IsPhi (h_i h target))
       (ASSERT (i_parent (h_i h before) = Some this)
         (let h = SetBasicBlock target (Some this) h;
              prev = i_prev (h_i h before);
              h = SetPrevInstruction before (Some target) h;
              h = SetPrevInstruction target prev h;
              h = SetNextInstruction target (Some before) h in
          rbind
            (case prev of
               Some p \<Rightarrow> Ok (SetNextInstruction p (Some target) h)
             | None \<Rightarrow>
                 ASSERT (Some before = b_firstInst (h_b h this) \<and> b_firstPhi (h_b h this) = None
                     \<and> b_lastPhi (h_b h this) = None)
                   (Ok (upd_b this (\<lambda>b. b\<lparr>b_firstInst := Some target\<rparr>) h)))
            (\<lambda>h. Ok (upd_b this (\<lambda>b. b\<lparr>b_instrsCount := b_instrsCount b + 1\<rparr>) h))))"

definition InsertAfter :: "iptr \<Rightarrow> iptr \<Rightarrow> bptr \<Rightarrow> heap_step" where
  "InsertAfter after target this h =
     ASSERT (i_parent (h_i h target) = None \<and> \<not> IsPhi (h_i h target))
       (ASSERT (i_parent (h_i h after) = Some this)
         (let h = SetBasicBlock target (Some this) h;
              nxt = i_next (h_i h after);
              h = SetNextInstruction after (Some target) h;
              h = SetPrevInstruction target (Some after) h;
              h = SetNextInstruction target nxt h in
          rbind
            (case nxt of
               Some n \<Rightarrow> Ok (SetPrevInstruction n (Some target) h)
             | None \<Rightarrow>
                 ASSERT (b_lastInst (h_b h this) = Some after)
                   (Ok (upd_b this (\<lambda>b. b\<lparr>b_lastInst := Some target\<rparr>) h)))
            (\<lambda>h. Ok (upd_b this (\<lambda>b. b\<lparr>b_instrsCount := b_instrsCount b + 1\<rparr>) h))))"

definition UnlinkInstruction :: "iptr \<Rightarrow> bptr \<Rightarrow> heap_step" where
  "UnlinkInstruction target this h =
     ASSERT (i_parent (h_i h target) = Some this)
       (let h = SetBasicBlock target None h;
            prev = i_prev (h_i h target);
            nxt = i_next (h_i h target);
            h = SetPrevInstruction target None h;
            h = SetNextInstruction target None h;
            h = set_next_if prev nxt h;
            h = set_prev_if nxt prev h in
        rbind
          (if IsPhi (h_i h target) then
             (if Some target = b_firstPhi (h_b h this) then
                (if Some target = b_lastPhi (h_b h this) then
                   Ok (upd_b this (\<lambda>b. b\<lparr>b_firstPhi := None, b_lastPhi := None\<rparr>) h)
                 else ASSERT (is_phi_at nxt h) (Ok (upd_b this (\<lambda>b. b\<lparr>b_firstPhi := nxt\<rparr>) h)))
              else if Some target = b_lastPhi (h_b h this) then
                ASSERT (is_phi_at prev h) (Ok (upd_b this (\<lambda>b. b\<lparr>b_lastPhi := prev\<rparr>) h))
              else Ok h)
           else
             let h = (if Some target = b_firstInst (h_b h this)
                      then upd_b this (\<lambda>b. b\<lparr>b_firstInst := nxt\<rparr>) h else h) in
             Ok (if Some target = b_lastInst (h_b h this)
                 then upd_b this (\<lambda>b. b\<lparr>b_lastInst := (if is_phi_at prev h then None else prev)\<rparr>) h
                 else h))
          (\<lambda>h. Ok (upd_b this (\<lambda>b. b\<lparr>b_instrsCount := size_sub (b_instrsCount b) 1\<rparr>) h)))"

definition replaceInControlFlow :: "iptr \<Rightarrow> iptr \<Rightarrow> bptr \<Rightarrow> heap_step" where
  "replaceInControlFlow prevInstr newInstr this h =
     ASSERT (i_parent (h_i h prevInstr) = Some this)
       (rbind
         (case i_prev (h_i h prevInstr) of
            Some p \<Rightarrow> InsertAfter p newInstr this h
          | None \<Rightarrow>
              (case i_next (h_i h prevInstr) of
                 Some n \<Rightarrow> InsertBefore n newInstr this h
               | None \<Rightarrow> PushForwardInstruction newInstr this h))
         (UnlinkInstruction prevInstr this))"

definition ReplaceInstruction :: "iptr \<Rightarrow> iptr \<Rightarrow> bptr \<Rightarrow> heap_step" where
  "ReplaceInstruction prevInstr newInstr this h =
     rbind (ReplaceInputInUsers (Some newInstr) prevInstr h)
       (replaceInControlFlow prevInstr newInstr this)"

subsection \<open>Iteration\<close>

text \<open>\<open>for (auto *instr : *this) body\<close>; the iterator reads \<open>next\<close> after the body has run.\<close>

definition block_begin :: "bptr \<Rightarrow> heap \<Rightarrow> iptr option" where
  "block_begin this h =
     (case b_firstPhi (h_b h this) of Some p \<Rightarrow> Some p | None \<Rightarrow> b_firstInst (h_b h this))"

definition iter_from :: "iptr option \<Rightarrow> (iptr \<Rightarrow> heap_step) \<Rightarrow> heap_step" where
  "iter_from start body h =
     rbind
       (while_do (\<lambda>(cur, h). cur \<noteq> None)
         (\<lambda>(cur, h). deref cur (\<lambda>c. rbind (body c h) (\<lambda>h. Ok (i_next (h_i h c), h)))) (start, h))
       (\<lambda>(cur, h). Ok h)"

definition next_phi :: "iptr \<Rightarrow> heap \<Rightarrow> iptr option" where
  "next_phi cur h =
     (case i_next (h_i h cur) of
        None \<Rightarrow> None
      | Some tmp \<Rightarrow> if \<not> IsPhi (h_i h tmp) then None else Some tmp)"

text \<open>\<open>for (auto *phi : this->IteratePhi()) body\<close>\<close>

definition iter_phi :: "bptr \<Rightarrow> (iptr \<Rightarrow> heap_step) \<Rightarrow> heap_step" where
  "iter_phi this body h =
     rbind
       (while_do (\<lambda>(cur, h). cur \<noteq> None)
         (\<lambda>(cur, h). deref cur (\<lambda>c. rbind (body c h) (\<lambda>h. Ok (next_phi c h, h))))
         (b_firstPhi (h_b h this), h))
       (\<lambda>(cur, h). Ok h)"

subsection \<open>Methods of instructions that use the block\<close>

definition isEarlierInBasicBlock :: "iptr \<Rightarrow> iptr \<Rightarrow> heap \<Rightarrow> (abort, bool) res" where
  "isEarlierInBasicBlock this other h =
     (case i_parent (h_i h this) of
        None \<Rightarrow> Err AssertionFail
      | Some b \<Rightarrow>
          ASSERT (i_parent (h_i h other) = Some b)
            (rbind
              (while_do (\<lambda>cur. cur \<noteq> None \<and> cur \<noteq> Some this \<and> cur \<noteq> Some other)
                (\<lambda>cur. deref cur (\<lambda>c. Ok (i_next (h_i h c)))) (block_begin b h))
              (\<lambda>cur. if cur = None then Err AssertionFail else Ok (cur = Some this))))"

definition Instruction_Dominates :: "iptr \<Rightarrow> iptr \<Rightarrow> heap \<Rightarrow> (abort, bool) res" where
  "Instruction_Dominates this other h =
     (if other = this then Ok True
      else if i_parent (h_i h other) = i_parent (h_i h this) then isEarlierInBasicBlock this other h
      else deref (i_parent (h_i h this)) (\<lambda>b.
        case i_parent (h_i h other) of None \<Rightarrow> Err AssertionFail | Some ob \<Rightarrow> Dominates b ob h))"

definition UnlinkFromParent :: "iptr \<Rightarrow> heap_step" where
  "UnlinkFromParent this h =
     (case i_parent (h_i h this) of None \<Rightarrow> Err AssertionFail | Some b \<Rightarrow> UnlinkInstruction this b h)"

definition Instruction_InsertBefore :: "iptr \<Rightarrow> iptr \<Rightarrow> heap_step" where
  "Instruction_InsertBefore before this h =
     (case i_parent (h_i h before) of None \<Rightarrow> Err AssertionFail | Some b \<Rightarrow> InsertBefore before this b h)"

definition Instruction_InsertAfter :: "iptr \<Rightarrow> iptr \<Rightarrow> heap_step" where
  "Instruction_InsertAfter after this h =
     (case i_parent (h_i h after) of None \<Rightarrow> Err AssertionFail | Some b \<Rightarrow> InsertAfter after this b h)"

section \<open>Loops\<close>

definition Loop_init :: "nat \<Rightarrow> bptr option \<Rightarrow> bool \<Rightarrow> bool \<Rightarrow> LoopObj" where
  "Loop_init lid header isIrreducible isRoot =
     \<lparr>l_id = lid, l_header = header, l_backEdges = [], l_basicBlocks = [], l_outerLoop = None,
      l_innerLoops = [], l_isIrreducible = isIrreducible, l_isRoot = isRoot\<rparr>"

definition AddBackEdge :: "bptr \<Rightarrow> LoopObj \<Rightarrow> (abort, LoopObj) res" where
  "AddBackEdge backEdgeSource l =
     ASSERT (index_of backEdgeSource (l_backEdges l) = length (l_backEdges l))
       (Ok (l\<lparr>l_backEdges := l_backEdges l @ [backEdgeSource]\<rparr>))"

definition Loop_AddBasicBlock :: "bptr \<Rightarrow> lptr \<Rightarrow> heap_step" where
  "Loop_AddBasicBlock bblock this h =
     ASSERT (b_loop (h_b h bblock) = None
         \<and> index_of bblock (l_basicBlocks (h_l h this)) = length (l_basicBlocks (h_l h this)))
       (let h = upd_b bblock (\<lambda>b. b\<lparr>b_loop := Some this\<rparr>) h in
        Ok (upd_l this (\<lambda>l. l\<lparr>l_basicBlocks := l_basicBlocks l @ [bblock]\<rparr>) h))"

definition AddInnerLoop :: "lptr \<Rightarrow> LoopObj \<Rightarrow> (abort, LoopObj) res" where
  "AddInnerLoop loop l =
     ASSERT (index_of loop (l_innerLoops l) = length (l_innerLoops l))
       (Ok (l\<lparr>l_innerLoops := l_innerLoops l @ [loop]\<rparr>))"

definition IsIn :: "lptr \<Rightarrow> lptr \<Rightarrow> heap \<Rightarrow> (abort, bool) res" where
  "IsIn other this h =
     rbind
       (while_do (\<lambda>loop. loop \<noteq> None \<and> loop \<noteq> Some other)
         (\<lambda>loop. deref loop (\<lambda>l. Ok (l_outerLoop (h_l h l)))) (l_outerLoop (h_l h this)))
       (\<lambda>loop. Ok (loop = Some other))"

end
