(* ===== verification/JIT_BlockList.thy ===== *)
theory JIT_BlockList
  imports JIT_Block
begin

text \<open>
  The instruction list of a basic block, refined to two HOL lists: the PHI instructions and the
  other instructions.  Every operation of \<open>ir/BasicBlock.cpp\<close> on the linked list is the list
  operation it stands for, changes nothing but links and leaves every other block's list alone
  (\<open>list_op\<close>); where the code's guard is too weak for that, the lemma has a hypothesis, and
  \<open>JIT_Findings\<close> shows what happens without it.
\<close>

section \<open>Segments of a doubly linked list\<close>

definition hd_or :: "'a list \<Rightarrow> 'a option \<Rightarrow> 'a option" where
  "hd_or xs n = (case xs of [] \<Rightarrow> n | x # _ \<Rightarrow> Some x)"

definition last_or :: "'a option \<Rightarrow> 'a list \<Rightarrow> 'a option" where
  "last_or p xs = (if xs = [] then p else Some (last xs))"

lemma hd_or_simps [simp]: "hd_or [] n = n" "hd_or (x # xs) n = Some x" "hd_or (xs @ ys) n = hd_or xs (hd_or ys n)"
  by (simp_all add: hd_or_def split: list.split)

lemma last_or_simps [simp]: "last_or p [] = p" "last_or p (x # xs) = last_or (Some x) xs"
  "last_or p (xs @ ys) = last_or (last_or p xs) ys"
  by (simp_all add: last_or_def)

lemma hd_or_None_iff [simp]: "hd_or xs None = None \<longleftrightarrow> xs = []"
  by (simp add: hd_or_def split: list.split)

lemma last_or_None_iff [simp]: "last_or None xs = None \<longleftrightarrow> xs = []"
  by (simp add: last_or_def)

lemma hd_or_ne [simp]: "xs \<noteq> [] \<Longrightarrow> hd_or xs n = Some (hd xs)"
  by (cases xs) simp_all

lemma last_or_ne [simp]: "xs \<noteq> [] \<Longrightarrow> last_or p xs = Some (last xs)"
  by (simp add: last_or_def)

lemma hd_or_SomeD: "hd_or xs None = Some x \<Longrightarrow> x \<in> set xs"
  by (auto simp: hd_or_def split: list.split_asm)

lemma last_or_SomeD: "last_or None xs = Some x \<Longrightarrow> x \<in> set xs"
  by (auto simp: last_or_def split: if_split_asm)

lemma hd_or2_SomeD: "hd_or xs (hd_or ys None) = Some x \<Longrightarrow> x \<in> set xs \<or> x \<in> set ys"
  using hd_or_SomeD [of "xs @ ys" x] by simp

lemma last_or2_SomeD: "last_or (last_or None xs) ys = Some x \<Longrightarrow> x \<in> set xs \<or> x \<in> set ys"
  using last_or_SomeD [of "xs @ ys" x] by simp

fun dll :: "heap \<Rightarrow> iptr option \<Rightarrow> iptr list \<Rightarrow> iptr option \<Rightarrow> bool" where
  "dll h p [] n = True"
| "dll h p (x # xs) n =
     (i_prev (h_i h x) = p \<and> i_next (h_i h x) = hd_or xs n \<and> dll h (Some x) xs n)"

lemma dll_append [simp]: "dll h p (xs @ ys) n \<longleftrightarrow> dll h p xs (hd_or ys n) \<and> dll h (last_or p xs) ys n"
  by (induction xs arbitrary: p) auto

lemma dll_cong:
  "(\<And>x. x \<in> set xs \<Longrightarrow> i_prev (h_i h x) = i_prev (h_i h' x) \<and> i_next (h_i h x) = i_next (h_i h' x))
     \<Longrightarrow> dll h p xs n = dll h' p xs n"
  by (induction xs arbitrary: p) auto

lemma dll_frame [simp]:
  "dll (upd_b b g h) p xs n = dll h p xs n"
  "dll (upd_l l f h) p xs n = dll h p xs n"
  "dll (SetBasicBlock i y h) p xs n = dll h p xs n"
  "q \<notin> set xs \<Longrightarrow> dll (SetNextInstruction q m h) p xs n = dll h p xs n"
  "q \<notin> set xs \<Longrightarrow> dll (SetPrevInstruction q m h) p xs n = dll h p xs n"
  by (auto intro!: dll_cong simp: SetBasicBlock_def SetNextInstruction_def SetPrevInstruction_def upd_l_def)

lemma dll_frame_if [simp]:
  "(\<And>q. r = Some q \<Longrightarrow> q \<notin> set xs) \<Longrightarrow> dll (set_next_if r m h) p xs n = dll h p xs n"
  "(\<And>q. r = Some q \<Longrightarrow> q \<notin> set xs) \<Longrightarrow> dll (set_prev_if r m h) p xs n = dll h p xs n"
  by (auto simp: set_next_if_def set_prev_if_def split: option.split)

lemma dll_frame_ends [simp]:
  "set xs \<inter> set ys = {} \<Longrightarrow> dll (set_next_if (last_or None ys) m h) p xs n = dll h p xs n"
  "set xs \<inter> set ys = {} \<Longrightarrow> dll (set_prev_if (hd_or ys None) m h) p xs n = dll h p xs n"
  by (subst dll_frame_if; auto dest: hd_or_SomeD last_or_SomeD)+

lemma dll_set_next:
  "distinct xs \<Longrightarrow> dll h p xs n \<Longrightarrow> dll (set_next_if (last_or None xs) m h) p xs m"
proof (induction xs rule: rev_induct)
  case (snoc x xs)
  then show ?case
    by (auto simp: set_next_if_def SetNextInstruction_def intro: dll_cong [THEN iffD1, rotated])
qed simp

lemma dll_set_prev:
  "distinct xs \<Longrightarrow> dll h p xs n \<Longrightarrow> dll (set_prev_if (hd_or xs None) q h) q xs n"
  by (cases xs) (auto simp: set_prev_if_def SetPrevInstruction_def intro: dll_cong [THEN iffD1, rotated])

lemma link_frame [simp]:
  "h_b (SetPrevInstruction i x h) = h_b h" "h_b (SetNextInstruction i x h) = h_b h" "h_b (SetBasicBlock i y h) = h_b h"
  "h_l (SetPrevInstruction i x h) = h_l h" "h_l (SetNextInstruction i x h) = h_l h" "h_l (SetBasicBlock i y h) = h_l h"
  "h_g (SetPrevInstruction i x h) = h_g h" "h_g (SetNextInstruction i x h) = h_g h" "h_g (SetBasicBlock i y h) = h_g h"
  "i_opcode (h_i (SetPrevInstruction i x h) j) = i_opcode (h_i h j)"
  "i_opcode (h_i (SetNextInstruction i x h) j) = i_opcode (h_i h j)"
  "i_opcode (h_i (SetBasicBlock i y h) j) = i_opcode (h_i h j)"
  "i_parent (h_i (SetPrevInstruction i x h) j) = i_parent (h_i h j)"
  "i_parent (h_i (SetNextInstruction i x h) j) = i_parent (h_i h j)"
  "i_parent (h_i (SetBasicBlock i y h) j) = (if j = i then y else i_parent (h_i h j))"
  by (simp_all add: SetPrevInstruction_def SetNextInstruction_def SetBasicBlock_def)

lemma link_frame_if [simp]:
  "h_b (set_prev_if r x h) = h_b h" "h_b (set_next_if r x h) = h_b h"
  "h_l (set_prev_if r x h) = h_l h" "h_l (set_next_if r x h) = h_l h"
  "h_g (set_prev_if r x h) = h_g h" "h_g (set_next_if r x h) = h_g h"
  "i_opcode (h_i (set_prev_if r x h) j) = i_opcode (h_i h j)"
  "i_opcode (h_i (set_next_if r x h) j) = i_opcode (h_i h j)"
  "i_parent (h_i (set_prev_if r x h) j) = i_parent (h_i h j)"
  "i_parent (h_i (set_next_if r x h) j) = i_parent (h_i h j)"
  by (simp_all add: set_prev_if_def set_next_if_def split: option.split)

lemma IsPhi_frame [simp]:
  "IsPhi (h_i (SetPrevInstruction i x h) j) = IsPhi (h_i h j)"
  "IsPhi (h_i (SetNextInstruction i x h) j) = IsPhi (h_i h j)"
  "IsPhi (h_i (SetBasicBlock i y h) j) = IsPhi (h_i h j)"
  "IsPhi (h_i (set_prev_if r x h) j) = IsPhi (h_i h j)"
  "IsPhi (h_i (set_next_if r x h) j) = IsPhi (h_i h j)"
  by (simp_all add: IsPhi_def)

text \<open>Inserting an element between two segments and removing it again.\<close>

lemma dll_insert:
  assumes "dll h p (xs @ ys) n" and "distinct (xs @ t # ys)"
    and "i_prev (h_i h' t) = last_or p xs" and "i_next (h_i h' t) = hd_or ys n"
    and "dll h' p xs (Some t)" and "dll h' (Some t) ys n"
  shows "dll h' p (xs @ t # ys) n"
  using assms by simp

section \<open>The list of a block\<close>

text \<open>The block's instructions are its PHI instructions \<open>phis\<close>, then \<open>insts\<close>.\<close>

definition block_list :: "bptr \<Rightarrow> iptr list \<Rightarrow> iptr list \<Rightarrow> heap \<Rightarrow> bool" where
  "block_list this phis insts h \<longleftrightarrow>
     distinct (phis @ insts) \<and> dll h None (phis @ insts) None \<and>
     b_firstPhi (h_b h this) = hd_or phis None \<and> b_lastPhi (h_b h this) = last_or None phis \<and>
     b_firstInst (h_b h this) = hd_or insts None \<and> b_lastInst (h_b h this) = last_or None insts \<and>
     b_instrsCount (h_b h this) = length (phis @ insts) \<and>
     (\<forall>x \<in> set phis. IsPhi (h_i h x)) \<and> (\<forall>x \<in> set insts. \<not> IsPhi (h_i h x)) \<and>
     (\<forall>x. i_parent (h_i h x) = Some this \<longleftrightarrow> x \<in> set (phis @ insts))"


subsection \<open>What the list operations leave alone\<close>

definition erase_i :: "Instr \<Rightarrow> Instr" where
  "erase_i i = i\<lparr>i_prev := None, i_next := None, i_parent := None\<rparr>"

definition erase_b :: "BBlock \<Rightarrow> BBlock" where
  "erase_b b = b\<lparr>b_firstPhi := None, b_lastPhi := None, b_firstInst := None, b_lastInst := None, b_instrsCount := 0\<rparr>"

text \<open>The heap without the instruction lists.\<close>

definition erase_lists :: "heap \<Rightarrow> heap" where
  "erase_lists h = h\<lparr>h_i := \<lambda>x. erase_i (h_i h x), h_b := \<lambda>x. erase_b (h_b h x)\<rparr>"

lemma erase_lists_link [simp]:
  "erase_lists (SetPrevInstruction i x h) = erase_lists h"
  "erase_lists (SetNextInstruction i x h) = erase_lists h"
  "erase_lists (SetBasicBlock i y h) = erase_lists h"
  "erase_lists (set_prev_if r x h) = erase_lists h"
  "erase_lists (set_next_if r x h) = erase_lists h"
  "(\<And>b. erase_b (f b) = erase_b b) \<Longrightarrow> erase_lists (upd_b b f h) = erase_lists h"
  by (auto simp: erase_lists_def SetPrevInstruction_def SetNextInstruction_def SetBasicBlock_def
      set_prev_if_def set_next_if_def upd_i_def upd_b_def erase_i_def fun_eq_iff split: option.split)

text \<open>Only free instructions and those of the block are touched.\<close>

definition near :: "bptr \<Rightarrow> iptr \<Rightarrow> heap \<Rightarrow> bool" where
  "near this x h \<longleftrightarrow> i_parent (h_i h x) \<in> {Some this, None}"

definition local_to :: "bptr \<Rightarrow> heap \<Rightarrow> heap \<Rightarrow> bool" where
  "local_to this h h' \<longleftrightarrow>
     (\<forall>b. b \<noteq> this \<longrightarrow> h_b h' b = h_b h b) \<and>
     (\<forall>x. \<not> near this x h \<longrightarrow> h_i h' x = h_i h x) \<and>
     (\<forall>x. near this x h \<longrightarrow> near this x h')"

lemma local_to_refl: "local_to this h h"
  by (simp add: local_to_def)

lemma local_to_trans:
  assumes "local_to this h h'" and "local_to this h' h''"
  shows "local_to this h h''"
proof -
  have "near this x h'" if "near this x h" for x using assms(1) that by (simp add: local_to_def)
  moreover have "\<not> near this x h'" "h_i h' x = h_i h x" if "\<not> near this x h" for x
    using assms(1) that by (auto simp: local_to_def near_def)
  ultimately show ?thesis using assms by (auto simp: local_to_def)
qed

lemma local_to_prims:
  "local_to this h (upd_b this f h)"
  "near this q h \<Longrightarrow> local_to this h (SetPrevInstruction q x h)"
  "near this q h \<Longrightarrow> local_to this h (SetNextInstruction q x h)"
  "near this q h \<Longrightarrow> y \<in> {Some this, None} \<Longrightarrow> local_to this h (SetBasicBlock q y h)"
  "(\<And>q. r = Some q \<Longrightarrow> near this q h) \<Longrightarrow> local_to this h (set_prev_if r x h)"
  "(\<And>q. r = Some q \<Longrightarrow> near this q h) \<Longrightarrow> local_to this h (set_next_if r x h)"
  by (auto simp: local_to_def near_def upd_b_def SetPrevInstruction_def SetNextInstruction_def SetBasicBlock_def
      set_prev_if_def set_next_if_def split: option.split)

lemma local_to_block_list:
  assumes "local_to this h h'" and "b \<noteq> this" and "block_list b phis insts h"
  shows "block_list b phis insts h'"
proof -
  have in_b: "i_parent (h_i h x) = Some b \<longleftrightarrow> x \<in> set (phis @ insts)" for x
    using assms(3) by (simp add: block_list_def)
  have far: "i_parent (h_i h x) = Some b \<Longrightarrow> \<not> near this x h" for x
    using assms(2) by (simp add: near_def)
  then have same: "h_i h' x = h_i h x" if "x \<in> set (phis @ insts)" for x
    using assms(1) that by (simp add: in_b local_to_def)
  have stay: "near this x h \<Longrightarrow> near this x h'" for x
    using assms(1) by (simp add: local_to_def)
  have "near this x h \<Longrightarrow> i_parent (h_i h' x) \<noteq> Some b" for x
    using stay [of x] assms(2) by (auto simp: near_def)
  then have par: "i_parent (h_i h' x) = Some b \<longleftrightarrow> i_parent (h_i h x) = Some b" for x
    using assms(1) far [of x] by (cases "near this x h") (auto simp: local_to_def)
  have "dll h' None (phis @ insts) None = dll h None (phis @ insts) None"
    by (rule dll_cong) (simp only: same simp_thms)
  moreover have "h_b h' b = h_b h b" using assms(1,2) by (simp add: local_to_def)
  ultimately show ?thesis
    using assms(3) same unfolding block_list_def par by (simp del: dll_append)
qed

lemma near_frame [simp]:
  "near this x (upd_b b f h) = near this x h"
  "near this x (SetPrevInstruction q v h) = near this x h"
  "near this x (SetNextInstruction q v h) = near this x h"
  "near this x (set_prev_if r v h) = near this x h"
  "near this x (set_next_if r v h) = near this x h"
  "y \<in> {Some this, None} \<Longrightarrow> near this x (SetBasicBlock q y h) = (x = q \<or> near this x h)"
  by (auto simp: near_def)

lemma local_to_steps:
  "local_to this h0 h \<Longrightarrow> local_to this h0 (upd_b this f h)"
  "local_to this h0 h \<Longrightarrow> near this q h \<Longrightarrow> local_to this h0 (SetPrevInstruction q x h)"
  "local_to this h0 h \<Longrightarrow> near this q h \<Longrightarrow> local_to this h0 (SetNextInstruction q x h)"
  "local_to this h0 h \<Longrightarrow> near this q h \<Longrightarrow> y \<in> {Some this, None} \<Longrightarrow> local_to this h0 (SetBasicBlock q y h)"
  "local_to this h0 h \<Longrightarrow> (\<And>q. r = Some q \<Longrightarrow> near this q h) \<Longrightarrow> local_to this h0 (set_prev_if r x h)"
  "local_to this h0 h \<Longrightarrow> (\<And>q. r = Some q \<Longrightarrow> near this q h) \<Longrightarrow> local_to this h0 (set_next_if r x h)"
  by (erule local_to_trans, rule local_to_prims; simp)+

text \<open>An operation that changes the block's list, and nothing else but the links.\<close>

definition list_op :: "bptr \<Rightarrow> heap \<Rightarrow> (abort, heap) res \<Rightarrow> iptr list \<Rightarrow> iptr list \<Rightarrow> bool" where
  "list_op this h r phis insts \<longleftrightarrow>
     (\<exists>h'. r = Ok h' \<and> block_list this phis insts h' \<and> erase_lists h' = erase_lists h \<and> local_to this h h')"

subsection \<open>UnlinkInstruction\<close>

definition unlinked :: "iptr \<Rightarrow> iptr option \<Rightarrow> iptr option \<Rightarrow> heap \<Rightarrow> heap" where
  "unlinked t p n h =
     set_prev_if n p (set_next_if p n (SetNextInstruction t None (SetPrevInstruction t None (SetBasicBlock t None h))))"

lemma unlinked_dll:
  assumes "dll h None (xs @ t # ys) None" and "distinct (xs @ t # ys)"
  shows "dll (unlinked t (last_or None xs) (hd_or ys None) h) None (xs @ ys) None"
proof -
  let ?h = "SetNextInstruction t None (SetPrevInstruction t None (SetBasicBlock t None h))"
  have "dll ?h None xs (Some t)" "dll ?h (Some t) ys None"
    using assms by simp_all
  then show ?thesis
    using assms(2) dll_set_next [of xs ?h None "Some t" "hd_or ys None"]
      dll_set_prev [of ys "set_next_if (last_or None xs) (hd_or ys None) ?h" "Some t" None "last_or None xs"]
    unfolding unlinked_def by (simp add: Int_commute)
qed

lemma unlinked_local:
  assumes "block_list this phis insts h" and "t \<in> set (phis @ insts)"
    and "\<And>q. p = Some q \<Longrightarrow> q \<in> set (phis @ insts)" and "\<And>q. n = Some q \<Longrightarrow> q \<in> set (phis @ insts)"
  shows "local_to this h (unlinked t p n h)"
proof -
  have "near this x h" if "x \<in> set (phis @ insts)" for x
    using assms(1) that by (simp add: block_list_def near_def)
  note nears = this [OF assms(2)] this [OF assms(3)] this [OF assms(4)]
  show ?thesis
    unfolding unlinked_def
    by (intro local_to_steps local_to_refl; simp add: nears)
qed

lemma unlinked_fields:
  "h_b (unlinked t p n h) = h_b h" "IsPhi (h_i (unlinked t p n h) x) = IsPhi (h_i h x)"
  "i_parent (h_i (unlinked t p n h) x) = (if x = t then None else i_parent (h_i h x))"
  "erase_lists (unlinked t p n h) = erase_lists h"
  by (simp_all add: unlinked_def)

lemma links_of:
  assumes "dll h None (xs @ t # ys) None"
  shows "i_prev (h_i h t) = last_or None xs" and "i_next (h_i h t) = hd_or ys None"
  using assms by simp_all

lemma UnlinkInstruction_unfold:
  "UnlinkInstruction t this h =
     ASSERT (i_parent (h_i h t) = Some this)
       (let p = i_prev (h_i h t); n = i_next (h_i h t); h = unlinked t p n h; b = h_b h this in
        rbind
          (if IsPhi (h_i h t) then
             (if Some t = b_firstPhi b then
                (if Some t = b_lastPhi b then Ok (upd_b this (\<lambda>b. b\<lparr>b_firstPhi := None, b_lastPhi := None\<rparr>) h)
                 else ASSERT (is_phi_at n h) (Ok (upd_b this (\<lambda>b. b\<lparr>b_firstPhi := n\<rparr>) h)))
              else if Some t = b_lastPhi b then
                ASSERT (is_phi_at p h) (Ok (upd_b this (\<lambda>b. b\<lparr>b_lastPhi := p\<rparr>) h))
              else Ok h)
           else
             let h = (if Some t = b_firstInst b then upd_b this (\<lambda>b. b\<lparr>b_firstInst := n\<rparr>) h else h) in
             Ok (if Some t = b_lastInst (h_b h this)
                 then upd_b this (\<lambda>b. b\<lparr>b_lastInst := (if is_phi_at p h then None else p)\<rparr>) h else h))
          (\<lambda>h. Ok (upd_b this (\<lambda>b. b\<lparr>b_instrsCount := size_sub (b_instrsCount b) 1\<rparr>) h)))"
  by (simp add: UnlinkInstruction_def unlinked_def Let_def SetBasicBlock_def SetPrevInstruction_def)

lemma hd_or_eq_middle:
  "distinct (xs @ t # ys) \<Longrightarrow> Some t = hd_or (xs @ t # ys) n \<longleftrightarrow> xs = []"
  by (cases xs) auto

lemma last_or_eq_middle:
  "distinct (xs @ t # ys) \<Longrightarrow> Some t = last_or p (xs @ t # ys) \<longleftrightarrow> ys = []"
  by (auto simp: last_or_def split: if_split_asm)

lemma is_phi_at_upd [simp]: "is_phi_at p (upd_b b f h) = is_phi_at p h"
  by (simp add: is_phi_at_def split: option.split)

lemma h_b_upd_b [simp]: "h_b (upd_b b f h) = (h_b h)(b := f (h_b h b))"
  by (simp add: upd_b_def)

lemma upd_b_upd_b [simp]: "upd_b b g (upd_b b f h) = upd_b b (\<lambda>x. g (f x)) h"
  by (simp add: upd_b_def)

lemma upd_b_id [simp]: "upd_b b (\<lambda>x. x) h = h"
  by (simp add: upd_b_def)

lemma Unlink_phi:
  assumes bl: "block_list this (as @ t # bs) insts h"
  shows "list_op this h (UnlinkInstruction t this h) (as @ bs) insts"
proof -
  let ?p = "last_or None as" and ?n = "hd_or (bs @ insts) None"
  let ?h = "unlinked t ?p ?n h"
  have d: "distinct (as @ t # bs)" and dd: "distinct (as @ t # (bs @ insts))"
    and l: "dll h None (as @ t # (bs @ insts)) None"
    using bl by (auto simp: block_list_def)
  have pn: "i_prev (h_i h t) = ?p" "i_next (h_i h t) = ?n"
    using links_of [OF l] by simp_all
  have dll': "dll ?h None (as @ bs @ insts) None"
    using unlinked_dll [OF l dd] by (simp only: append_assoc)
  have loc: "local_to this h ?h"
    by (rule unlinked_local [OF bl]) (auto dest!: hd_or2_SomeD last_or_SomeD)
  have phis: "is_phi_at ?n ?h" if "bs \<noteq> []"
    using bl that by (cases bs) (auto simp: is_phi_at_def unlinked_fields block_list_def)
  have phis': "is_phi_at ?p ?h" if "as \<noteq> []"
    using bl that by (auto simp: is_phi_at_def unlinked_fields block_list_def last_or_def)
  note b = bl [unfolded block_list_def]
  have fl: "Some t = b_firstPhi (h_b h this) \<longleftrightarrow> as = []" "Some t = b_lastPhi (h_b h this) \<longleftrightarrow> bs = []"
    using b hd_or_eq_middle [OF d] last_or_eq_middle [OF d] by simp_all
  have par: "i_parent (h_i h t) = Some this" "IsPhi (h_i h t)"
    using b by simp_all
  define f where "f b = (if as = [] then (if bs = [] then b\<lparr>b_firstPhi := None, b_lastPhi := None\<rparr> else b\<lparr>b_firstPhi := ?n\<rparr>)
      else if bs = [] then b\<lparr>b_lastPhi := ?p\<rparr> else b)" for b :: BBlock
  have "UnlinkInstruction t this h = Ok (upd_b this (\<lambda>b. (f b)\<lparr>b_instrsCount := size_sub (b_instrsCount (f b)) 1\<rparr>) ?h)" (is "_ = Ok ?h'")
    unfolding UnlinkInstruction_unfold Let_def pn unlinked_fields fl
    using phis phis' par by (cases "as = []"; cases "bs = []") (simp_all add: f_def)
  moreover have "block_list this (as @ bs) insts ?h'"
    using b dll' by (auto simp: block_list_def unlinked_fields f_def simp del: dll.simps)
  moreover have "erase_lists ?h' = erase_lists h"
    by (simp add: unlinked_fields erase_b_def f_def)
  moreover have "local_to this h ?h'"
    by (rule local_to_steps loc)+
  ultimately show ?thesis by (simp add: list_op_def)
qed


lemma Unlink_inst:
  assumes bl: "block_list this phis (as @ t # bs) h"
  shows "list_op this h (UnlinkInstruction t this h) phis (as @ bs)"
proof -
  let ?p = "last_or None (phis @ as)" and ?n = "hd_or bs None"
  let ?h = "unlinked t ?p ?n h"
  have d: "distinct (as @ t # bs)" and dd: "distinct ((phis @ as) @ t # bs)"
    and l: "dll h None ((phis @ as) @ t # bs) None"
    using bl by (auto simp: block_list_def)
  have pn: "i_prev (h_i h t) = ?p" "i_next (h_i h t) = ?n"
    using links_of [OF l] by simp_all
  have dll': "dll ?h None (phis @ as @ bs) None"
    using unlinked_dll [OF l dd] by (simp only: append_assoc)
  have loc: "local_to this h ?h"
    by (rule unlinked_local [OF bl]) (auto dest!: hd_or_SomeD last_or2_SomeD)
  note b = bl [unfolded block_list_def]
  have phi: "is_phi_at ?p ?h \<longleftrightarrow> as = [] \<and> phis \<noteq> []"
    using b by (cases "as = []"; cases "phis = []") (auto simp: is_phi_at_def unlinked_fields)
  have fl: "Some t = b_firstInst (h_b h this) \<longleftrightarrow> as = []" "Some t = b_lastInst (h_b h this) \<longleftrightarrow> bs = []"
    using b hd_or_eq_middle [OF d] last_or_eq_middle [OF d] by simp_all
  have par: "i_parent (h_i h t) = Some this" "\<not> IsPhi (h_i h t)"
    using b by simp_all
  define f where "f b = (if bs = [] then (if as = [] then b\<lparr>b_firstInst := ?n, b_lastInst := None\<rparr> else b\<lparr>b_lastInst := ?p\<rparr>)
      else if as = [] then b\<lparr>b_firstInst := ?n\<rparr> else b)" for b :: BBlock
  have "UnlinkInstruction t this h = Ok (upd_b this (\<lambda>b. (f b)\<lparr>b_instrsCount := size_sub (b_instrsCount (f b)) 1\<rparr>) ?h)" (is "_ = Ok ?h'")
    unfolding UnlinkInstruction_unfold Let_def pn unlinked_fields fl
    using phi par fl by (cases "as = []"; cases "bs = []"; cases "phis = []") (simp_all add: f_def unlinked_fields)
  moreover have "block_list this phis (as @ bs) ?h'"
    using b dll' by (auto simp: block_list_def unlinked_fields f_def simp del: dll.simps)
  moreover have "erase_lists ?h' = erase_lists h"
    by (simp add: unlinked_fields erase_b_def f_def)
  moreover have "local_to this h ?h'"
    by (rule local_to_steps loc)+
  ultimately show ?thesis by (simp add: list_op_def)
qed

text \<open>Unlinking an instruction removes it from the block's list.\<close>

lemma UnlinkInstruction_list_op:
  assumes "block_list this phis insts h" and "t \<in> set (phis @ insts)"
  shows "list_op this h (UnlinkInstruction t this h) (remove1 t phis) (remove1 t insts)"
proof (cases "t \<in> set phis")
  case True
  then obtain as bs where "phis = as @ t # bs" by (auto dest: split_list)
  moreover from this assms(1) have "t \<notin> set as" "t \<notin> set insts" by (auto simp: block_list_def)
  ultimately show ?thesis
    using assms(1) Unlink_phi by (simp add: remove1_append remove1_idem)
next
  case False
  with assms(2) obtain as bs where "insts = as @ t # bs" by (auto dest: split_list)
  moreover from this assms(1) have "t \<notin> set as" by (auto simp: block_list_def)
  ultimately show ?thesis
    using assms(1) False Unlink_inst by (simp add: remove1_append remove1_idem)
qed

subsection \<open>Insertions\<close>

lemma dll_inserted:
  assumes "dll h None (xs @ ys) None" and "distinct (xs @ t # ys)"
    and "\<And>x. x \<in> set (xs @ t # ys) \<Longrightarrow>
      i_prev (h_i h' x) = (if x = t then last_or None xs else if hd_or ys None = Some x then Some t else i_prev (h_i h x))"
    and "\<And>x. x \<in> set (xs @ t # ys) \<Longrightarrow>
      i_next (h_i h' x) = (if x = t then hd_or ys None else if last_or None xs = Some x then Some t else i_next (h_i h x))"
  shows "dll h' None (xs @ t # ys) None"
proof -
  have "dll (set_next_if (last_or None xs) (Some t) h) None xs (Some t)"
    using assms(1,2) by (intro dll_set_next) auto
  moreover have "dll h' None xs (Some t) = dll (set_next_if (last_or None xs) (Some t) h) None xs (Some t)"
  proof (rule dll_cong)
    fix x assume x: "x \<in> set xs"
    with assms(2) have "x \<noteq> t" "hd_or ys None \<noteq> Some x" by (auto dest: hd_or_SomeD)
    with x show "i_prev (h_i h' x) = i_prev (h_i (set_next_if (last_or None xs) (Some t) h) x) \<and>
        i_next (h_i h' x) = i_next (h_i (set_next_if (last_or None xs) (Some t) h) x)"
      using assms(3,4) [of x] by (simp add: set_next_if_def SetNextInstruction_def split: option.split)
  qed
  moreover have "dll (set_prev_if (hd_or ys None) (Some t) h) (Some t) ys None"
    using assms(1,2) by (intro dll_set_prev) auto
  moreover have "dll h' (Some t) ys None = dll (set_prev_if (hd_or ys None) (Some t) h) (Some t) ys None"
  proof (rule dll_cong)
    fix x assume x: "x \<in> set ys"
    with assms(2) have "x \<noteq> t" "last_or None xs \<noteq> Some x" by (auto dest: last_or_SomeD)
    with x show "i_prev (h_i h' x) = i_prev (h_i (set_prev_if (hd_or ys None) (Some t) h) x) \<and>
        i_next (h_i h' x) = i_next (h_i (set_prev_if (hd_or ys None) (Some t) h) x)"
      using assms(3,4) [of x] by (simp add: set_prev_if_def SetPrevInstruction_def split: option.split)
  qed
  ultimately show ?thesis
    using assms(3,4) [of t] by simp
qed

text \<open>A free instruction, ready to be inserted.\<close>

definition free_instr :: "iptr \<Rightarrow> heap \<Rightarrow> bool" where
  "free_instr t h \<longleftrightarrow> i_parent (h_i h t) = None \<and> i_prev (h_i h t) = None \<and> i_next (h_i h t) = None"

lemmas link_defs = SetPrevInstruction_def SetNextInstruction_def SetBasicBlock_def
  set_prev_if_def set_next_if_def

lemma list_opI:
  assumes "r = Ok h'" and "block_list this phis insts h'" and "erase_lists h' = erase_lists h" and "local_to this h h'"
  shows "list_op this h r phis insts"
  using assms by (simp add: list_op_def)

lemma block_list_near: "block_list this phis insts h \<Longrightarrow> x \<in> set phis \<or> x \<in> set insts \<Longrightarrow> near this x h"
  by (simp add: block_list_def near_def)

lemma free_near: "free_instr t h \<Longrightarrow> near this t h"
  by (simp add: free_instr_def near_def)

lemma block_list_not_free:
  "block_list this phis insts h \<Longrightarrow> free_instr t h \<Longrightarrow> t \<notin> set phis \<and> t \<notin> set insts"
  unfolding block_list_def free_instr_def by (metis Un_iff option.distinct(1) set_append)

lemma pushPhi_list_op:
  assumes bl: "block_list this phis insts h" and t: "free_instr t h" "IsPhi (h_i h t)"
  shows "list_op this h (pushInstruction pb t this h) (t # phis) insts"
proof -
  let ?n = "hd_or (phis @ insts) None"
  let ?h = "set_prev_if ?n (Some t) (SetNextInstruction t ?n (SetBasicBlock t (Some this) h))"
  note b = bl [unfolded block_list_def] and new = block_list_not_free [OF bl t(1)]
  define f where "f b = (if phis = [] then b\<lparr>b_firstPhi := Some t, b_lastPhi := Some t\<rparr> else b\<lparr>b_firstPhi := Some t\<rparr>)" for b :: BBlock
  have "pushInstruction pb t this h = Ok (upd_b this (\<lambda>b. (f b)\<lparr>b_instrsCount := b_instrsCount (f b) + 1\<rparr>) ?h)" (is "_ = Ok ?h'")
    using b t
    by (cases phis; cases insts)
      (simp_all add: pushInstruction_def pushPhi_def free_instr_def Let_def f_def link_defs upd_i_def upd_b_def IsPhi_def)
  moreover have "block_list this (t # phis) insts ?h'"
  proof -
    have "dll ?h None ([] @ t # (phis @ insts)) None"
      by (rule dll_inserted [of h]) (use b t new in \<open>auto simp: link_defs free_instr_def split: option.split dest: hd_or2_SomeD last_or2_SomeD hd_or_SomeD last_or_SomeD\<close>)
    then show ?thesis
      using b t new by (auto simp: block_list_def f_def simp del: dll.simps)
  qed
  moreover have "erase_lists ?h' = erase_lists h"
    by (simp add: erase_b_def f_def)
  moreover have "local_to this h ?h'"
    by (intro local_to_steps local_to_refl)
      (use free_near [OF t(1)] block_list_near [OF bl] in \<open>auto dest!: hd_or2_SomeD\<close>)
  ultimately show ?thesis by (rule list_opI)
qed

lemma PushBack_list_op:
  assumes bl: "block_list this phis insts h" and t: "free_instr t h" "\<not> IsPhi (h_i h t)"
  shows "list_op this h (PushBackInstruction t this h) phis (insts @ [t])"
proof -
  let ?p = "last_or None (phis @ insts)"
  let ?h = "set_next_if ?p (Some t) (SetPrevInstruction t ?p (SetBasicBlock t (Some this) h))"
  note b = bl [unfolded block_list_def] and new = block_list_not_free [OF bl t(1)]
  define f where "f b = (if insts = [] then b\<lparr>b_firstInst := Some t, b_lastInst := Some t\<rparr> else b\<lparr>b_lastInst := Some t\<rparr>)" for b :: BBlock
  have "PushBackInstruction t this h = Ok (upd_b this (\<lambda>b. (f b)\<lparr>b_instrsCount := b_instrsCount (f b) + 1\<rparr>) ?h)" (is "_ = Ok ?h'")
    using b t
    by (cases "phis = []"; cases "insts = []")
      (simp_all add: PushBackInstruction_def pushInstruction_def free_instr_def Let_def f_def link_defs upd_i_def upd_b_def IsPhi_def)
  moreover have "block_list this phis (insts @ [t]) ?h'"
  proof -
    have "dll ?h None ((phis @ insts) @ t # []) None"
      by (rule dll_inserted [of h]) (use b t new in \<open>auto simp: link_defs free_instr_def split: option.split dest: hd_or2_SomeD last_or2_SomeD hd_or_SomeD last_or_SomeD\<close>)
    then show ?thesis
      using b t new by (auto simp: block_list_def f_def simp del: dll.simps)
  qed
  moreover have "erase_lists ?h' = erase_lists h"
    by (simp add: erase_b_def f_def)
  moreover have "local_to this h ?h'"
    by (intro local_to_steps local_to_refl)
      (use free_near [OF t(1)] block_list_near [OF bl] in \<open>auto dest!: last_or2_SomeD\<close>)
  ultimately show ?thesis by (rule list_opI)
qed

text \<open>
  \<open>PushForwardInstruction\<close> of an instruction that is no PHI works only in a block without
  PHI instructions or without other instructions.
\<close>

lemma PushForward_list_op:
  assumes bl: "block_list this phis insts h" and t: "free_instr t h" "\<not> IsPhi (h_i h t)"
    and ok: "phis = [] \<or> insts = []"
  shows "list_op this h (PushForwardInstruction t this h) phis (t # insts)"
proof (cases "insts = []")
  case True
  have "PushForwardInstruction t this h = PushBackInstruction t this h"
    using bl True t(2)
    by (simp add: PushForwardInstruction_def PushBackInstruction_def pushInstruction_def Let_def block_list_def)
  then show ?thesis using PushBack_list_op [OF bl t] True by simp
next
  case False
  with ok have phis: "phis = []" by simp
  let ?n = "hd_or insts None"
  let ?h = "set_prev_if ?n (Some t) (SetNextInstruction t ?n (SetBasicBlock t (Some this) h))"
  note b = bl [unfolded block_list_def] and new = block_list_not_free [OF bl t(1)]
  have "PushForwardInstruction t this h =
      Ok (upd_b this (\<lambda>b. b\<lparr>b_firstInst := Some t, b_instrsCount := b_instrsCount b + 1\<rparr>) ?h)" (is "_ = Ok ?h'")
    using b t False phis
    by (simp add: PushForwardInstruction_def pushInstruction_def free_instr_def Let_def link_defs upd_i_def upd_b_def IsPhi_def)
  moreover have "block_list this phis (t # insts) ?h'"
  proof -
    have "dll ?h None ([] @ t # insts) None"
      by (rule dll_inserted [of h])
        (use b t new phis False in \<open>auto simp: link_defs free_instr_def\<close>)
    then show ?thesis
      using b t new phis False by (auto simp: block_list_def simp del: dll.simps)
  qed
  moreover have "erase_lists ?h' = erase_lists h"
    by (simp add: erase_b_def)
  moreover have "local_to this h ?h'"
    by (intro local_to_steps local_to_refl)
      (use free_near [OF t(1)] block_list_near [OF bl] in \<open>auto dest!: hd_or_SomeD\<close>)
  ultimately show ?thesis by (rule list_opI)
qed

lemma InsertAfter_list_op:
  assumes bl: "block_list this phis (as @ a # bs) h" and t: "free_instr t h" "\<not> IsPhi (h_i h t)"
  shows "list_op this h (InsertAfter a t this h) phis (as @ a # t # bs)"
proof -
  let ?n = "hd_or bs None"
  let ?h = "set_prev_if ?n (Some t) (SetNextInstruction t ?n (SetPrevInstruction t (Some a)
      (SetNextInstruction a (Some t) (SetBasicBlock t (Some this) h))))"
  note b = bl [unfolded block_list_def] and new = block_list_not_free [OF bl t(1)]
  have l: "dll h None ((phis @ as) @ a # bs) None" "dll h None ((phis @ as @ [a]) @ bs) None"
    using b by simp_all
  have pn: "i_prev (h_i h a) = last_or None (phis @ as)" "i_next (h_i h a) = ?n"
    using links_of [OF l(1)] by simp_all
  have par: "i_parent (h_i h a) = Some this" and at: "a \<noteq> t" "t \<noteq> a"
    using b new by auto
  define f where "f b = (if bs = [] then b\<lparr>b_lastInst := Some t\<rparr> else b)" for b :: BBlock
  have "InsertAfter a t this h = Ok (upd_b this (\<lambda>b. (f b)\<lparr>b_instrsCount := b_instrsCount (f b) + 1\<rparr>) ?h)" (is "_ = Ok ?h'")
    using b t pn(2) at
    by (cases "bs = []") (simp_all add: InsertAfter_def free_instr_def Let_def f_def link_defs upd_i_def upd_b_def par)
  moreover have "block_list this phis (as @ a # t # bs) ?h'"
  proof -
    have "dll ?h None ((phis @ as @ [a]) @ t # bs) None"
      by (rule dll_inserted [OF l(2)])
        (use b t new at pn in \<open>auto simp: link_defs free_instr_def split: option.split dest: hd_or_SomeD\<close>)
    then have "dll ?h None (phis @ as @ a # t # bs) None" by (simp only: append_assoc append.simps)
    then show ?thesis
      using b t new by (auto simp: block_list_def f_def simp del: dll.simps)
  qed
  moreover have "erase_lists ?h' = erase_lists h"
    by (simp add: erase_b_def f_def)
  moreover have "local_to this h ?h'"
    by (intro local_to_steps local_to_refl)
      (use free_near [OF t(1)] block_list_near [OF bl] in \<open>auto dest!: hd_or_SomeD\<close>)
  ultimately show ?thesis by (rule list_opI)
qed

lemma InsertBefore_list_op:
  assumes bl: "block_list this phis (as @ a # bs) h" and t: "free_instr t h" "\<not> IsPhi (h_i h t)"
    and ok: "phis = [] \<or> as \<noteq> []"
  shows "list_op this h (InsertBefore a t this h) phis (as @ t # a # bs)"
proof -
  let ?p = "last_or None (phis @ as)"
  let ?h = "set_next_if ?p (Some t) (SetNextInstruction t (Some a) (SetPrevInstruction t ?p
      (SetPrevInstruction a (Some t) (SetBasicBlock t (Some this) h))))"
  note b = bl [unfolded block_list_def] and new = block_list_not_free [OF bl t(1)]
  have l: "dll h None ((phis @ as) @ a # bs) None"
    using b by simp
  have pn: "i_prev (h_i h a) = ?p"
    using links_of [OF l] by simp
  have par: "i_parent (h_i h a) = Some this" and at: "a \<noteq> t" "t \<noteq> a"
    using b new by auto
  define f where "f b = (if as = [] then b\<lparr>b_firstInst := Some t\<rparr> else b)" for b :: BBlock
  have "InsertBefore a t this h = Ok (upd_b this (\<lambda>b. (f b)\<lparr>b_instrsCount := b_instrsCount (f b) + 1\<rparr>) ?h)" (is "_ = Ok ?h'")
    using b t pn at ok
    by (cases "as = []") (auto simp add: InsertBefore_def free_instr_def Let_def f_def link_defs upd_i_def upd_b_def par)
  moreover have "block_list this phis (as @ t # a # bs) ?h'"
  proof -
    have "dll ?h None ((phis @ as) @ t # a # bs) None"
      by (rule dll_inserted [OF l])
        (use b t new at pn in \<open>auto simp: link_defs free_instr_def split: option.split dest: last_or2_SomeD\<close>)
    then have "dll ?h None (phis @ as @ t # a # bs) None" by (simp only: append_assoc append.simps)
    then show ?thesis
      using b t new ok by (auto simp: block_list_def f_def simp del: dll.simps)
  qed
  moreover have "erase_lists ?h' = erase_lists h"
    by (simp add: erase_b_def f_def)
  moreover have "local_to this h ?h'"
    by (intro local_to_steps local_to_refl)
      (use free_near [OF t(1)] block_list_near [OF bl] in \<open>auto dest!: last_or2_SomeD\<close>)
  ultimately show ?thesis by (rule list_opI)
qed

subsection \<open>Replacement\<close>

lemma list_op_bind:
  assumes "list_op this h r phis insts"
    and "\<And>h'. r = Ok h' \<Longrightarrow> block_list this phis insts h' \<Longrightarrow> list_op this h' (k h') phis' insts'"
  shows "list_op this h (rbind r k) phis' insts'"
  using assms by (fastforce simp: list_op_def intro: local_to_trans)

lemma replaceInControlFlow_list_op:
  assumes bl: "block_list this phis (as @ a # bs) h" and t: "free_instr t h" "\<not> IsPhi (h_i h t)"
    and ok: "phis = [] \<or> as \<noteq> []"
  shows "list_op this h (replaceInControlFlow a t this h) phis (as @ t # bs)"
proof -
  note b = bl [unfolded block_list_def]
  have l: "dll h None ((phis @ as) @ a # bs) None" and par: "i_parent (h_i h a) = Some this"
    using b by simp_all
  have pn: "i_prev (h_i h a) = last_or None (phis @ as)" "i_next (h_i h a) = hd_or bs None"
    using links_of [OF l] by simp_all
  consider as' p where "as = as' @ [p]" | n bs' where "as = []" "phis = []" "bs = n # bs'" | "as = []" "phis = []" "bs = []"
    using ok by (metis neq_Nil_conv rev_exhaust)
  then show ?thesis
  proof cases
    case 1
    have "list_op this h (InsertAfter p t this h) phis (as @ t # a # bs)"
      using InsertAfter_list_op [of this phis as' p "a # bs" h t] bl t 1 by simp
    then show ?thesis
      using pn par 1 by (auto simp: replaceInControlFlow_def intro!: list_op_bind Unlink_inst [of this phis "as' @ [p, t]" a bs, simplified])
  next
    case 2
    have "list_op this h (InsertBefore n t this h) phis ([a] @ t # bs)"
      using InsertBefore_list_op [of this phis "[a]" n bs' h t] bl t 2 by simp
    then show ?thesis
      using pn par 2 by (auto simp: replaceInControlFlow_def intro!: list_op_bind Unlink_inst [of this "[]" "[]", simplified])
  next
    case 3
    have "list_op this h (PushForwardInstruction t this h) phis ([t, a])"
      using PushForward_list_op [OF bl t] 3 by simp
    then show ?thesis
      using pn par 3 by (auto simp: replaceInControlFlow_def intro!: list_op_bind Unlink_inst [of this "[]" "[t]" a "[]", simplified])
  qed
qed


subsection \<open>Iteration\<close>

text \<open>A body that keeps the links visits the instructions of the list in order.\<close>

lemma iter_from_list:
  assumes "dll h p xs None"
    and "\<And>c g g'. c \<in> set xs \<Longrightarrow> body c g = Ok g' \<Longrightarrow> \<forall>x \<in> set xs. i_next (h_i g' x) = i_next (h_i g x)"
    and "dll h p xs None \<Longrightarrow> \<forall>x \<in> set xs. i_next (h_i g x) = i_next (h_i h x)"
  shows "iter_from (hd_or xs None) body g = for_each body xs g"
  using assms
proof (induction xs arbitrary: g p)
  case Nil
  then show ?case by (simp add: iter_from_def)
next
  case (Cons x xs)
  show ?case
  proof (cases "body x g")
    case (Ok g')
    have next': "i_next (h_i g' x) = hd_or xs None"
      using Cons.prems(1,3) Cons.prems(2) [OF _ Ok] by simp
    have "iter_from (hd_or xs None) body g' = for_each body xs g'"
    proof (rule Cons.IH)
      show "dll h (Some x) xs None" using Cons.prems(1) by simp
      show "\<forall>y \<in> set xs. i_next (h_i g' y) = i_next (h_i h y)"
        using Cons.prems(1,3) Cons.prems(2) [OF _ Ok] by simp
      show "\<forall>y \<in> set xs. i_next (h_i f' y) = i_next (h_i f y)" if "c \<in> set xs" "body c f = Ok f'" for c f f'
        using Cons.prems(2) [of c f f'] that by simp
    qed
    then show ?thesis
      using Ok next' by (simp add: iter_from_def while_do_unfold [of _ _ "(Some x, g)"])
  qed (simp_all add: iter_from_def while_do_unfold [of _ _ "(Some x, g)"])
qed

lemma block_begin_list: "block_list this phis insts h \<Longrightarrow> block_begin this h = hd_or (phis @ insts) None"
  by (auto simp: block_list_def block_begin_def hd_or_def split: list.split option.split)

end
