(* ===== verification/JIT_Graph.thy ===== *)
theory JIT_Graph
  imports JIT_BlockList
begin

text \<open>
  The control flow graph: \<open>ir/Graph.h\<close>, \<open>ir/Graph.cpp\<close>, \<open>BasicBlock::SplitAfterInstruction\<close> and
  the pass manager (\<open>ir/PassBase.h\<close>).  A graph keeps its blocks in a vector indexed by block
  identifier; an unlinked block leaves a null entry.  The model's allocator hands out fresh
  addresses.  A loop over a vector that its body does not change is a loop over the vector's
  elements at the start.
\<close>

section \<open>The graph object\<close>

definition Graph_init :: GraphObj where
  "Graph_init =
     \<lparr>g_id = INVALID_ID, g_markers = MarkerManager_init, g_valid = (\<lambda>_. False), g_firstBlock = None,
      g_lastBlock = None, g_bblocks = [], g_unlinkedInstructionsCounter = 0, g_rpoBlocks = [],
      g_loopTreeRoot = None, g_currentId = 0, g_liveIntervals = []\<rparr>"

definition invalidateAfterChangedCFG :: "gptr \<Rightarrow> heap \<Rightarrow> heap" where
  "invalidateAfterChangedCFG this =
     upd_g this (\<lambda>g. g\<lparr>g_valid :=
       SetAnalysisValid LINEAR_ORDERING False (SetAnalysisValid RPO False
         (SetAnalysisValid LOOP_ANALYSIS False (SetAnalysisValid DOM_TREE False (g_valid g))))\<rparr>)"

definition GetBasicBlocksCount :: "GraphObj \<Rightarrow> nat" where
  "GetBasicBlocksCount g = size_sub (length (g_bblocks g)) (g_unlinkedInstructionsCounter g)"

definition GetMaximumBlockId :: "GraphObj \<Rightarrow> u64" where
  "GetMaximumBlockId g = of_nat (length (g_bblocks g)) - 1"

definition FindBasicBlock :: "nat \<Rightarrow> GraphObj \<Rightarrow> (abort, bptr option) res" where
  "FindBasicBlock bid g = ASSERT (bid < length (g_bblocks g)) (Ok (g_bblocks g ! bid))"

definition GetRPO :: "GraphObj \<Rightarrow> (abort, bptr list) res" where
  "GetRPO g = ASSERT (IsAnalysisValid RPO (g_valid g)) (Ok (g_rpoBlocks g))"

definition SetRPO :: "bptr list \<Rightarrow> GraphObj \<Rightarrow> GraphObj" where
  "SetRPO rpo g = g\<lparr>g_rpoBlocks := rpo\<rparr>"

definition SetFirstBasicBlock :: "bptr option \<Rightarrow> gptr \<Rightarrow> heap \<Rightarrow> heap" where
  "SetFirstBasicBlock bblock this h =
     invalidateAfterChangedCFG this (upd_g this (\<lambda>g. g\<lparr>g_firstBlock := bblock\<rparr>) h)"

definition SetLastBasicBlock :: "bptr option \<Rightarrow> gptr \<Rightarrow> heap \<Rightarrow> heap" where
  "SetLastBasicBlock bblock this h =
     invalidateAfterChangedCFG this (upd_g this (\<lambda>g. g\<lparr>g_lastBlock := bblock\<rparr>) h)"

definition non_null :: "bptr option list \<Rightarrow> bptr list" where
  "non_null bs = map the (filter (\<lambda>b. b \<noteq> None) bs)"

definition ForEachBasicBlock :: "gptr \<Rightarrow> (bptr \<Rightarrow> heap_step) \<Rightarrow> heap_step" where
  "ForEachBasicBlock this function h = for_each function (non_null (g_bblocks (h_g h this))) h"

definition CountInstructions :: "gptr \<Rightarrow> heap \<Rightarrow> nat" where
  "CountInstructions this h =
     fold (\<lambda>b counter. counter + b_instrsCount (h_b h b)) (non_null (g_bblocks (h_g h this))) 0"

definition VerifyFirstBlock :: "gptr \<Rightarrow> heap \<Rightarrow> (abort, bool) res" where
  "VerifyFirstBlock this h =
     (case g_firstBlock (h_g h this) of
        None \<Rightarrow> Ok True
      | Some b \<Rightarrow>
          ASSERT (b_firstPhi (h_b h b) = None)
            (ASSERT (b_lastPhi (h_b h b) = None)
              (rbind
                (while_do (\<lambda>(cur, foundConst). cur \<noteq> None)
                  (\<lambda>(cur, foundConst). deref cur (\<lambda>instr.
                     if IsConst (h_i h instr) then Ok (i_next (h_i h instr), True)
                     else if i_opcode (h_i h instr) = Op_ARG
                       then ASSERT (\<not> foundConst) (Ok (i_next (h_i h instr), foundConst))
                     else Err AssertionFail))
                  (block_begin b h, False))
                (\<lambda>_. Ok True))))"

section \<open>Blocks and edges\<close>

definition AddBasicBlock :: "bptr \<Rightarrow> gptr \<Rightarrow> heap \<Rightarrow> heap" where
  "AddBasicBlock bblock this h =
     (let h = upd_b bblock (\<lambda>b. b\<lparr>b_id := length (g_bblocks (h_g h this))\<rparr>) h;
          h = upd_g this (\<lambda>g. g\<lparr>g_bblocks := g_bblocks g @ [Some bblock]\<rparr>) h;
          h = upd_b bblock (\<lambda>b. b\<lparr>b_graph := Some this\<rparr>) h in
      invalidateAfterChangedCFG this h)"

text \<open>\<open>New<BasicBlock>(this)\<close>\<close>

definition new_block :: "gptr \<Rightarrow> heap \<Rightarrow> bptr \<times> heap" where
  "new_block this h =
     (let b = h_new_b h in (b, upd_b b (\<lambda>_. BasicBlock_init this) (h\<lparr>h_new_b := Suc b\<rparr>)))"

definition ConnectBasicBlocks :: "bptr \<Rightarrow> bptr \<Rightarrow> gptr \<Rightarrow> heap_step" where
  "ConnectBasicBlocks lhs rhs this h =
     rbind (on_block lhs (AddSuccessor rhs) h) (\<lambda>h.
     rbind (on_block rhs (AddPredecessor lhs) h) (\<lambda>h.
     Ok (invalidateAfterChangedCFG this h)))"

definition CreateEmptyBasicBlock :: "bool \<Rightarrow> gptr \<Rightarrow> heap \<Rightarrow> (abort, bptr \<times> heap) res" where
  "CreateEmptyBasicBlock isTerminal this h =
     (let (bblock, h) = new_block this h; h = AddBasicBlock bblock this h in
      if isTerminal then
        (let h = (if g_lastBlock (h_g h this) = None
                  then (let (l, h) = new_block this h; h = AddBasicBlock l this h in
                        SetLastBasicBlock (Some l) this h)
                  else h) in
         deref (g_lastBlock (h_g h this)) (\<lambda>l.
           rbind (ConnectBasicBlocks bblock l this h) (\<lambda>h. Ok (bblock, h))))
      else Ok (bblock, h))"

definition FixPHIAfterDisconnect :: "bptr \<Rightarrow> bptr \<Rightarrow> heap_step" where
  "FixPHIAfterDisconnect phiSource phiTarget h =
     ASSERT (HasPredecessor phiSource (h_b h phiTarget))
       (let predsCount = length (b_preds (h_b h phiTarget)) in
        ASSERT (predsCount \<ge> 1)
          (if predsCount = 2 then
             iter_phi phiTarget (\<lambda>phi h.
               ASSERT (GetInputsCount (h_i h phi) = 2)
                 (let idx = IndexOf phiSource (h_i h phi) in
                  ASSERT (idx \<le> 1)
                    (rbind (GetInput (1 - idx) (h_i h phi)) (\<lambda>remainingInput.
                     ASSERT (remainingInput \<noteq> None)
                       (rbind (ReplaceInputInUsers remainingInput phi h) (UnlinkInstruction phi phiTarget)))))) h
           else if predsCount > 2 then
             iter_phi phiTarget (\<lambda>phi. on_instr phi (RemovePhiInput phiSource)) h
           else Ok h))"

definition DisconnectBasicBlocks :: "bptr \<Rightarrow> bptr \<Rightarrow> gptr \<Rightarrow> heap_step" where
  "DisconnectBasicBlocks lhs rhs this h =
     rbind (FixPHIAfterDisconnect lhs rhs h) (\<lambda>h.
     rbind (on_block lhs (RemoveSuccessor rhs) h) (\<lambda>h.
     rbind (on_block rhs (RemovePredecessor lhs) h) (\<lambda>h.
     Ok (invalidateAfterChangedCFG this h))))"

definition InsertBetween :: "bptr \<Rightarrow> bptr \<Rightarrow> bptr \<Rightarrow> heap_step" where
  "InsertBetween bblock pred succ h =
     rbind (on_block pred (ReplaceSuccessor succ bblock) h) (\<lambda>h.
     rbind (on_block bblock (AddPredecessor pred) h) (\<lambda>h.
     rbind (on_block succ (ReplacePredecessor pred bblock) h) (\<lambda>h.
     rbind (on_block bblock (AddSuccessor succ) h) (\<lambda>h.
     if b_firstPhi (h_b h succ) \<noteq> None then
       ASSERT (length (b_preds (h_b h succ)) > 1)
         (iter_phi succ (\<lambda>phi. on_instr phi (ReplaceSourceBasicBlock pred bblock)) h)
     else Ok h))))"

definition AddBasicBlockBefore :: "bptr \<Rightarrow> bptr \<Rightarrow> gptr \<Rightarrow> heap_step" where
  "AddBasicBlockBefore before bblock this h =
     ASSERT (b_graph (h_b h before) = Some this)
       (ASSERT (b_preds (h_b h bblock) = [] \<and> b_succs (h_b h bblock) = [])
         (let h = upd_b bblock (\<lambda>b. b\<lparr>b_graph := Some this\<rparr>) h in
          rbind
            (for_each (\<lambda>b h.
               rbind (on_block b (RemoveSuccessor before) h) (\<lambda>h.
               rbind (on_block b (AddSuccessor bblock) h) (on_block bblock (AddPredecessor b))))
               (b_preds (h_b h before)) h) (\<lambda>h.
          let h = upd_b before (\<lambda>b. b\<lparr>b_preds := []\<rparr>) h in
          rbind (on_block before (AddPredecessor bblock) h) (\<lambda>h.
          rbind (on_block bblock (AddSuccessor before) h) (\<lambda>h.
          Ok (invalidateAfterChangedCFG this h))))))"

definition UnlinkBasicBlockRaw :: "bptr \<Rightarrow> gptr \<Rightarrow> heap_step" where
  "UnlinkBasicBlockRaw bblock this h =
     ASSERT (b_graph (h_b h bblock) = Some this)
       (let bid = b_id (h_b h bblock) in
        ASSERT (bid < length (g_bblocks (h_g h this)) \<and> g_bblocks (h_g h this) ! bid = Some bblock)
          (let h = upd_g this (\<lambda>g. g\<lparr>g_bblocks := (g_bblocks g)[bid := None]\<rparr>) h;
               h = upd_b bblock (\<lambda>b. b\<lparr>b_id := INVALID_ID, b_graph := None\<rparr>) h;
               h = upd_g this (\<lambda>g. g\<lparr>g_unlinkedInstructionsCounter := g_unlinkedInstructionsCounter g + 1\<rparr>) h in
           Ok (invalidateAfterChangedCFG this h)))"

definition removePredecessors :: "bptr \<Rightarrow> heap_step" where
  "removePredecessors bblock h =
     rbind (for_each (\<lambda>b. on_block b (RemoveSuccessor bblock)) (b_preds (h_b h bblock)) h) (\<lambda>h.
     Ok (upd_b bblock (\<lambda>b. b\<lparr>b_preds := []\<rparr>) h))"

definition removeSuccessors :: "bptr \<Rightarrow> heap_step" where
  "removeSuccessors bblock h =
     rbind
       (for_each (\<lambda>b h. rbind (FixPHIAfterDisconnect bblock b h) (on_block b (RemovePredecessor bblock)))
         (b_succs (h_b h bblock)) h) (\<lambda>h.
     Ok (upd_b bblock (\<lambda>b. b\<lparr>b_succs := []\<rparr>) h))"

definition UnlinkBasicBlock :: "bptr \<Rightarrow> gptr \<Rightarrow> heap_step" where
  "UnlinkBasicBlock bblock this h =
     rbind (UnlinkBasicBlockRaw bblock this h) (\<lambda>h.
     if Some bblock \<noteq> g_lastBlock (h_g h this) then
       rbind (removePredecessors bblock h) (removeSuccessors bblock)
     else
       ASSERT (\<forall>pred \<in> set (b_preds (h_b h bblock)). bblock \<notin> set (b_succs (h_b h pred)))
         (ASSERT (\<forall>succ \<in> set (b_succs (h_b h bblock)). bblock \<notin> set (b_preds (h_b h succ)))
           (Ok (upd_b bblock (\<lambda>b. b\<lparr>b_preds := [], b_succs := []\<rparr>) h))))"

definition RemoveUnlinkedBlocks :: "gptr \<Rightarrow> heap_step" where
  "RemoveUnlinkedBlocks this h = Err AssertionFail"

section \<open>Splitting a block\<close>

text \<open>The instructions from \<open>nextInstr\<close> on get the new block as their parent.\<close>

definition move_tail :: "iptr \<Rightarrow> bptr \<Rightarrow> heap_step" where
  "move_tail nextInstr newBBlock =
     iter_from (Some nextInstr) (\<lambda>iter h.
       Ok (upd_b newBBlock (\<lambda>b. b\<lparr>b_instrsCount := b_instrsCount b + 1\<rparr>)
             (SetBasicBlock iter (Some newBBlock) h)))"

text \<open>The loop over the successors runs over the vector as it is after the new edge.\<close>

definition split_edges :: "bptr \<Rightarrow> bptr \<Rightarrow> gptr \<Rightarrow> bool \<Rightarrow> heap_step" where
  "split_edges this newBBlock graph connectAfterSplit h =
     rbind (if connectAfterSplit then ConnectBasicBlocks this newBBlock graph h else Ok h) (\<lambda>h.
     rbind (case b_loop (h_b h this) of
              None \<Rightarrow> Ok h
            | Some l \<Rightarrow> rbind (Loop_AddBasicBlock newBBlock l h) (\<lambda>h.
                Ok (upd_b newBBlock (\<lambda>b. b\<lparr>b_loop := Some l\<rparr>) h))) (\<lambda>h.
     rbind
       (for_each (\<lambda>succ h.
          rbind (on_block succ (RemovePredecessor this) h) (ConnectBasicBlocks newBBlock succ graph))
          (b_succs (h_b h this)) h) (\<lambda>h.
     Ok (upd_b this (\<lambda>b. b\<lparr>b_succs := []\<rparr>) h))))"

definition split_lists :: "bptr \<Rightarrow> bptr \<Rightarrow> iptr \<Rightarrow> iptr \<Rightarrow> heap_step" where
  "split_lists this newBBlock instr nextInstr h =
     (let h = SetNextInstruction instr None h;
          h = SetPrevInstruction nextInstr None h in
      rbind (move_tail nextInstr newBBlock h) (\<lambda>h.
      let h = upd_b this (\<lambda>b. b\<lparr>b_instrsCount := size_sub (b_instrsCount b) (b_instrsCount (h_b h newBBlock))\<rparr>) h in
      if IsPhi (h_i h nextInstr) then
        ASSERT (IsPhi (h_i h instr))
          (let t = h_b h this;
               h = upd_b newBBlock (\<lambda>b. b\<lparr>b_firstPhi := Some nextInstr, b_lastPhi := b_lastPhi t,
                     b_firstInst := b_firstInst t, b_lastInst := b_lastInst t\<rparr>) h in
           Ok (upd_b this (\<lambda>b. b\<lparr>b_lastPhi := Some instr, b_firstInst := None, b_lastInst := None\<rparr>) h))
      else
        (let t = h_b h this;
             h = upd_b newBBlock (\<lambda>b. b\<lparr>b_firstInst := Some nextInstr, b_lastInst := b_lastInst t\<rparr>) h in
         Ok (upd_b this (\<lambda>b. b\<lparr>b_lastInst := Some instr\<rparr>) h))))"

definition SplitAfterInstruction :: "iptr \<Rightarrow> bool \<Rightarrow> bptr \<Rightarrow> heap \<Rightarrow> (abort, bptr \<times> heap) res" where
  "SplitAfterInstruction instr connectAfterSplit this h =
     ASSERT (i_parent (h_i h instr) = Some this)
       (case i_next (h_i h instr) of
          None \<Rightarrow> Err AssertionFail
        | Some nextInstr \<Rightarrow>
            deref (b_graph (h_b h this)) (\<lambda>graph.
              rbind (CreateEmptyBasicBlock False graph h) (\<lambda>(newBBlock, h).
              rbind (split_edges this newBBlock graph connectAfterSplit h) (\<lambda>h.
              rbind (split_lists this newBBlock instr nextInstr h) (\<lambda>h.
              Ok (newBBlock, h))))))"

section \<open>Passes\<close>

text \<open>
  \<open>PassManager::Run\<close>: a pass with a \<open>SET_FLAG\<close> is skipped when its result is still valid, and
  marks it valid when it has run.
\<close>

definition PassManager_Run ::
    "AnalysisFlag option \<Rightarrow> (heap \<Rightarrow> (abort, bool \<times> heap) res) \<Rightarrow> gptr \<Rightarrow> heap \<Rightarrow> (abort, bool \<times> heap) res" where
  "PassManager_Run SET_FLAG Run graph h =
     (case SET_FLAG of
        Some flag \<Rightarrow>
          if IsAnalysisValid flag (g_valid (h_g h graph)) then Ok (True, h)
          else rbind (Run h) (\<lambda>(r, h).
            Ok (r, upd_g graph (\<lambda>g. g\<lparr>g_valid := SetAnalysisValid flag True (g_valid g)\<rparr>) h))
      | None \<Rightarrow> Run h)"

definition PassManager_SetInvalid :: "AnalysisFlag list \<Rightarrow> gptr \<Rightarrow> heap \<Rightarrow> heap" where
  "PassManager_SetInvalid flags graph = upd_g graph (\<lambda>g. g\<lparr>g_valid := SetInvalid flags (g_valid g)\<rparr>)"

end
