(* ===== verification/JIT_CFG.thy ===== *)
theory JIT_CFG
  imports JIT_Graph
begin

text \<open>
  The invariant of the control flow graph (\<open>cfg_ok\<close>) and what every operation of \<open>ir/Graph.cpp\<close>
  does to the set of edges.
\<close>

section \<open>Partial correctness\<close>

text \<open>If it returns, the result satisfies the predicate.\<close>

definition ensures :: "('a \<Rightarrow> bool) \<Rightarrow> ('e, 'a) res \<Rightarrow> bool" where
  "ensures P r \<longleftrightarrow> (\<forall>s. r = Ok s \<longrightarrow> P s)"

lemma ensuresD: "ensures P r \<Longrightarrow> r = Ok s \<Longrightarrow> P s"
  by (simp add: ensures_def)

lemma ensures_simps [simp]: "ensures P (Ok s) = P s" "ensures P (Err e)" "ensures P UB"
  by (simp_all add: ensures_def)

lemma ensures_ASSERT: "(b \<Longrightarrow> ensures P r) \<Longrightarrow> ensures P (ASSERT b r)"
  by (simp add: ASSERT_def)

lemma ensures_bind: "ensures Q r \<Longrightarrow> (\<And>s. Q s \<Longrightarrow> ensures P (f s)) \<Longrightarrow> ensures P (rbind r f)"
  by (cases r) simp_all

lemma ensures_bind_eq: "(\<And>s. r = Ok s \<Longrightarrow> ensures P (f s)) \<Longrightarrow> ensures P (rbind r f)"
  by (cases r) simp_all

lemma ensures_if: "(b \<Longrightarrow> ensures P r) \<Longrightarrow> (\<not> b \<Longrightarrow> ensures P s) \<Longrightarrow> ensures P (if b then r else s)"
  by simp

lemma ensures_deref: "(\<And>q. p = Some q \<Longrightarrow> ensures P (k q)) \<Longrightarrow> ensures P (deref p k)"
  by (cases p) simp_all

lemma ensures_option:
  "(p = None \<Longrightarrow> ensures P r) \<Longrightarrow> (\<And>q. p = Some q \<Longrightarrow> ensures P (k q)) \<Longrightarrow>
     ensures P (case p of None \<Rightarrow> r | Some q \<Rightarrow> k q)"
  by (cases p) simp_all

lemma ensures_while:
  assumes "P s" and "\<And>s. P s \<Longrightarrow> b s \<Longrightarrow> ensures P (c s)"
  shows "ensures (\<lambda>t. P t \<and> \<not> b t) (while_do b c s)"
  using while_do_inv [of b c s _ P] assms by (auto simp: ensures_def)

lemma ensures_for_each:
  assumes "P h" and "\<And>x h. x \<in> set xs \<Longrightarrow> P h \<Longrightarrow> ensures P (step x h)"
  shows "ensures P (for_each step xs h)"
  using assms
proof (induction xs arbitrary: h)
  case (Cons x xs)
  then show ?case by (auto intro!: ensures_bind [where Q = P])
qed simp

lemma ensures_iter_phi:
  assumes "P h" and "\<And>c h. P h \<Longrightarrow> ensures P (body c h)"
  shows "ensures P (iter_phi this body h)"
  unfolding iter_phi_def
  by (rule ensures_bind [OF ensures_while [of "\<lambda>(cur, h). P h"]])
    (use assms in \<open>auto intro!: ensures_deref ensures_bind [where Q = P]\<close>)

lemmas ensures_intros = ensures_ASSERT ensures_if ensures_deref ensures_option ensures_bind_eq

section \<open>Edges\<close>

definition succs_of :: "heap \<Rightarrow> bptr \<Rightarrow> bptr list" where
  "succs_of h a = b_succs (h_b h a)"

definition preds_of :: "heap \<Rightarrow> bptr \<Rightarrow> bptr list" where
  "preds_of h a = b_preds (h_b h a)"

definition edges :: "heap \<Rightarrow> (bptr \<times> bptr) set" where
  "edges h = {(a, b). b \<in> set (succs_of h a)}"

text \<open>
  The invariant of the control flow graph: successors and predecessors describe the same edges,
  there are no parallel edges, and a block has at most two successors.
\<close>

definition cfg_ok :: "heap \<Rightarrow> bool" where
  "cfg_ok h \<longleftrightarrow>
     (\<forall>a b. b \<in> set (succs_of h a) \<longleftrightarrow> a \<in> set (preds_of h b)) \<and>
     (\<forall>a. distinct (succs_of h a) \<and> distinct (preds_of h a) \<and> length (succs_of h a) \<le> 2)"

text \<open>The edges of a heap depend on the two edge lists of every block only.\<close>

definition same_cfg :: "heap \<Rightarrow> heap \<Rightarrow> bool" where
  "same_cfg h h' \<longleftrightarrow> succs_of h' = succs_of h \<and> preds_of h' = preds_of h"

lemma same_cfg_refl [simp]: "same_cfg h h"
  by (simp add: same_cfg_def)

lemma same_cfg_trans: "same_cfg h h' \<Longrightarrow> same_cfg h' h'' \<Longrightarrow> same_cfg h h''"
  by (simp add: same_cfg_def)

lemma same_cfg_edges: "same_cfg h h' \<Longrightarrow> edges h' = edges h"
  by (simp add: same_cfg_def edges_def)

lemma same_cfg_ok: "same_cfg h h' \<Longrightarrow> cfg_ok h' = cfg_ok h"
  by (simp add: same_cfg_def cfg_ok_def)

lemma same_cfg_frame [simp]:
  "same_cfg h (upd_i i f g) = same_cfg h g"
  "same_cfg h (upd_g g' k g) = same_cfg h g"
  "same_cfg h (upd_l l m g) = same_cfg h g"
  "same_cfg h (SetPrevInstruction i x g) = same_cfg h g"
  "same_cfg h (SetNextInstruction i x g) = same_cfg h g"
  "same_cfg h (SetBasicBlock i y g) = same_cfg h g"
  "same_cfg h (set_prev_if r x g) = same_cfg h g"
  "same_cfg h (set_next_if r x g) = same_cfg h g"
  "same_cfg h (invalidateAfterChangedCFG this g) = same_cfg h g"
  by (simp_all add: same_cfg_def succs_of_def preds_of_def fun_eq_iff upd_g_def upd_l_def invalidateAfterChangedCFG_def)

lemma same_cfg_upd_b:
  "(\<And>b. b_succs (f b) = b_succs b \<and> b_preds (f b) = b_preds b) \<Longrightarrow> same_cfg h (upd_b p f g) = same_cfg h g"
  by (auto simp: same_cfg_def succs_of_def preds_of_def fun_eq_iff)

lemma h_g_upd_g [simp]: "h_g (upd_g g k h) = (h_g h)(g := k (h_g h g))"
  by (simp add: upd_g_def)

lemma edge_lists_frame [simp]:
  "succs_of (upd_g g k h) = succs_of h" "preds_of (upd_g g k h) = preds_of h"
  "succs_of (invalidateAfterChangedCFG g h) = succs_of h" "preds_of (invalidateAfterChangedCFG g h) = preds_of h"
  by (simp_all add: succs_of_def preds_of_def fun_eq_iff upd_g_def invalidateAfterChangedCFG_def)

subsection \<open>Changing one edge list\<close>

definition swap_out :: "'a \<Rightarrow> 'a list \<Rightarrow> 'a list" where
  "swap_out x xs = butlast (xs[index_of x xs := last xs])"

lemma set_swap_remove:
  assumes "distinct xs" and "x \<in> set xs"
  shows "set (swap_out x xs) = set xs - {x}" and "distinct (swap_out x xs)"
proof -
  let ?ys = "swap_out x xs"
  have m: "mset ?ys = mset (remove1 x xs)"
    using count_swap_remove [OF assms(2)] by (simp add: swap_out_def)
  show "set ?ys = set xs - {x}"
    using mset_eq_setD [OF m] assms(1) by (simp add: set_remove1_eq)
  show "distinct ?ys"
    using mset_eq_imp_distinct_iff [OF m] assms(1) by simp
qed

lemma set_replace_first:
  assumes "distinct xs" and "x \<in> set xs" and "y \<notin> set xs"
  shows "set (xs[index_of x xs := y]) = insert y (set xs - {x})" and "distinct (xs[index_of x xs := y])"
proof -
  have i: "index_of x xs < length xs" using assms(2) by (simp add: index_of_less)
  show "set (xs[index_of x xs := y]) = insert y (set xs - {x})"
    using set_update_distinct [OF assms(1) i] assms(2) by (simp add: nth_index_of)
  show "distinct (xs[index_of x xs := y])"
    using assms i by (simp add: distinct_list_update)
qed

lemma replace_self: "x \<in> set xs \<Longrightarrow> xs[index_of x xs := x] = xs"
  by (metis list_update_id nth_index_of)

lemma set_erase:
  assumes "distinct xs" and "x \<in> set xs"
  shows "take (index_of x xs) xs @ drop (Suc (index_of x xs)) xs = remove1 x xs"
  using assms by (induction xs) auto

definition mod_succs :: "bptr \<Rightarrow> (bptr list \<Rightarrow> bptr list) \<Rightarrow> heap \<Rightarrow> heap" where
  "mod_succs p f = upd_b p (\<lambda>b. b\<lparr>b_succs := f (b_succs b)\<rparr>)"

definition mod_preds :: "bptr \<Rightarrow> (bptr list \<Rightarrow> bptr list) \<Rightarrow> heap \<Rightarrow> heap" where
  "mod_preds p f = upd_b p (\<lambda>b. b\<lparr>b_preds := f (b_preds b)\<rparr>)"

lemma mod_edges [simp]:
  "succs_of (mod_succs p f h) = (succs_of h)(p := f (succs_of h p))" "preds_of (mod_succs p f h) = preds_of h"
  "preds_of (mod_preds p f h) = (preds_of h)(p := f (preds_of h p))" "succs_of (mod_preds p f h) = succs_of h"
  by (auto simp: succs_of_def preds_of_def mod_succs_def mod_preds_def)

lemma on_block_Ok: "on_block p f h = Ok h' \<longleftrightarrow> (\<exists>b. f (h_b h p) = Ok b \<and> h' = upd_b p (\<lambda>_. b) h)"
  by (auto simp: on_block_def res_simps)

lemma AddSuccessor_Ok:
  "on_block p (AddSuccessor q) h = Ok h' \<longleftrightarrow>
     length (succs_of h p) < 2 \<and> q \<notin> set (succs_of h p) \<and>
     h' = mod_succs p (\<lambda>xs. xs @ [q]) h"
  using index_of_absent [of q "succs_of h p"]
  by (auto simp: on_block_Ok AddSuccessor_def res_simps succs_of_def upd_b_def mod_succs_def)

lemma AddPredecessor_Ok:
  "on_block p (AddPredecessor q) h = Ok h' \<longleftrightarrow>
     q \<notin> set (preds_of h p) \<and> h' = mod_preds p (\<lambda>xs. xs @ [q]) h"
  using index_of_absent [of q "preds_of h p"]
  by (auto simp: on_block_Ok AddPredecessor_def res_simps preds_of_def upd_b_def mod_preds_def swap_out_def)

lemma RemoveSuccessor_Ok:
  "on_block p (RemoveSuccessor q) h = Ok h' \<Longrightarrow> distinct (succs_of h p) \<Longrightarrow>
     q \<in> set (succs_of h p) \<and> h' = mod_succs p (remove1 q) h"
  using index_of_absent [of q "succs_of h p"] set_erase [of "succs_of h p" q]
  by (auto simp: on_block_Ok RemoveSuccessor_def Let_def res_simps succs_of_def upd_b_def mod_succs_def)

lemma RemovePredecessor_Ok:
  "on_block p (RemovePredecessor q) h = Ok h' \<longleftrightarrow>
     q \<in> set (preds_of h p) \<and>
     h' = mod_preds p (swap_out q) h"
  by (auto simp: on_block_Ok RemovePredecessor_def swap_remove_Ok res_simps preds_of_def upd_b_def mod_preds_def swap_out_def)

lemma ReplaceSuccessor_Ok:
  "on_block p (ReplaceSuccessor q r) h = Ok h' \<longleftrightarrow>
     q \<in> set (succs_of h p) \<and> h' = mod_succs p (\<lambda>xs. xs[index_of q xs := r]) h"
  by (auto simp: on_block_Ok ReplaceSuccessor_def replace_first_Ok res_simps succs_of_def upd_b_def mod_succs_def)

lemma ReplacePredecessor_Ok:
  "on_block p (ReplacePredecessor q r) h = Ok h' \<longleftrightarrow>
     q \<in> set (preds_of h p) \<and> h' = mod_preds p (\<lambda>xs. xs[index_of q xs := r]) h"
  by (auto simp: on_block_Ok ReplacePredecessor_def replace_first_Ok res_simps preds_of_def upd_b_def mod_preds_def swap_out_def)

lemma cfg_okD:
  assumes "cfg_ok h"
  shows "b \<in> set (succs_of h a) \<longleftrightarrow> a \<in> set (preds_of h b)"
    and "distinct (succs_of h a)" and "distinct (preds_of h a)" and "length (succs_of h a) \<le> 2"
  using assms by (auto simp: cfg_ok_def)

lemma edges_iff:
  assumes "cfg_ok h"
  shows "(a, b) \<in> edges h \<longleftrightarrow> b \<in> set (succs_of h a)" and "(a, b) \<in> edges h \<longleftrightarrow> a \<in> set (preds_of h b)"
  using cfg_okD(1) [OF assms, of b a] by (auto simp: edges_def)

text \<open>To establish the invariant: say what the new edges are.\<close>

lemma cfg_okI:
  assumes "\<And>a b. b \<in> set (succs_of h a) \<longleftrightarrow> (a, b) \<in> E" and "\<And>a b. a \<in> set (preds_of h b) \<longleftrightarrow> (a, b) \<in> E"
    and "\<And>a. distinct (succs_of h a)" and "\<And>a. distinct (preds_of h a)" and "\<And>a. length (succs_of h a) \<le> 2"
  shows "cfg_ok h" and "edges h = E"
  using assms by (auto simp: cfg_ok_def edges_def)

section \<open>Connecting and disconnecting\<close>

lemma ConnectBasicBlocks_cfg:
  assumes "cfg_ok h" and "ConnectBasicBlocks l r g h = Ok h'"
  shows "cfg_ok h'" and "edges h' = insert (l, r) (edges h)" and "(l, r) \<notin> edges h"
proof -
  obtain h1 h2 where 1: "on_block l (AddSuccessor r) h = Ok h1" and 2: "on_block r (AddPredecessor l) h1 = Ok h2"
    and h': "h' = invalidateAfterChangedCFG g h2"
    using assms(2) by (auto simp: ConnectBasicBlocks_def res_simps)
  have s: "succs_of h' = (succs_of h)(l := succs_of h l @ [r])" "preds_of h' = (preds_of h)(r := preds_of h r @ [l])"
    and new: "r \<notin> set (succs_of h l)" "length (succs_of h l) < 2"
    using 1 2 by (auto simp: AddSuccessor_Ok AddPredecessor_Ok h')
  show "(l, r) \<notin> edges h" "edges h' = insert (l, r) (edges h)"
    using new by (auto simp: edges_def s split: if_split_asm)
  show "cfg_ok h'"
    using assms(1) new cfg_okD(1) [OF assms(1), of r l] by (auto simp: cfg_ok_def s)
qed

lemma ConnectBasicBlocks_total:
  assumes "cfg_ok h" and "(l, r) \<notin> edges h" and "length (succs_of h l) < 2"
  shows "\<exists>h'. ConnectBasicBlocks l r g h = Ok h'"
proof -
  let ?h1 = "mod_succs l (\<lambda>xs. xs @ [r]) h"
  have new: "r \<notin> set (succs_of h l)" "l \<notin> set (preds_of h r)"
    using assms(2) cfg_okD(1) [OF assms(1), of r l] by (auto simp: edges_def)
  have 1: "on_block l (AddSuccessor r) h = Ok ?h1"
    using new assms(3) by (simp add: AddSuccessor_Ok)
  have 2: "on_block r (AddPredecessor l) ?h1 = Ok (mod_preds r (\<lambda>xs. xs @ [l]) ?h1)"
    using new by (simp add: AddPredecessor_Ok)
  show ?thesis
    by (simp add: ConnectBasicBlocks_def 1 2)
qed

text \<open>PHI repair leaves the edges alone.\<close>

lemma on_instr_Ok: "on_instr p f h = Ok h' \<longleftrightarrow> (\<exists>i. f (h_i h p) = Ok i \<and> h' = upd_i p (\<lambda>_. i) h)"
  by (auto simp: on_instr_def res_simps)

lemma deref_Ok: "deref p k = Ok r \<longleftrightarrow> (\<exists>q. p = Some q \<and> k q = Ok r)"
  by (cases p) auto

lemma ReplaceInputInUsers_same_cfg: "same_cfg h0 h \<Longrightarrow> ensures (same_cfg h0) (ReplaceInputInUsers n p h)"
  unfolding ReplaceInputInUsers_def Let_def
  by (intro ensures_intros ensures_for_each)
    (auto intro!: ensures_ASSERT simp: ensures_def on_instr_Ok)

lemma UnlinkInstruction_same_cfg: "same_cfg h0 h \<Longrightarrow> ensures (same_cfg h0) (UnlinkInstruction t p h)"
  unfolding UnlinkInstruction_unfold Let_def unlinked_def
  by (intro ensures_ASSERT ensures_bind [where Q = "same_cfg h0"] ensures_if)
    (simp_all add: same_cfg_upd_b)

lemma on_instr_same_cfg: "same_cfg h0 h \<Longrightarrow> ensures (same_cfg h0) (on_instr p f h)"
  by (auto simp: ensures_def on_instr_Ok)

lemma FixPHI_same_cfg:
  assumes "same_cfg h0 h"
  shows "ensures (same_cfg h0) (FixPHIAfterDisconnect a b h)"
  unfolding FixPHIAfterDisconnect_def Let_def
proof (intro ensures_intros ensures_iter_phi, goal_cases)
  case (2 c ha s sa)
  show ?case
    by (rule UnlinkInstruction_same_cfg, rule ensuresD [OF ReplaceInputInUsers_same_cfg]) (rule 2)+
qed (simp_all add: assms on_instr_same_cfg)

lemma iter_phi_on_instr: "iter_phi b (\<lambda>phi. on_instr phi (f phi)) h = Ok h' \<Longrightarrow> same_cfg h h'"
  using ensures_iter_phi [of "same_cfg h" h "\<lambda>phi. on_instr phi (f phi)" b] on_instr_same_cfg
  by (auto dest: ensuresD)

lemma FixPHI_pred: "FixPHIAfterDisconnect a b h = Ok h' \<Longrightarrow> a \<in> set (preds_of h b)"
  using index_of_absent [of a "preds_of h b"]
  by (auto simp: FixPHIAfterDisconnect_def res_simps HasPredecessor_def preds_of_def)


lemma DisconnectBasicBlocks_cfg:
  assumes "cfg_ok h" and "DisconnectBasicBlocks l r g h = Ok h'"
  shows "cfg_ok h'" and "edges h' = edges h - {(l, r)}" and "(l, r) \<in> edges h"
proof -
  obtain h1 h2 h3 where 0: "FixPHIAfterDisconnect l r h = Ok h1" and 1: "on_block l (RemoveSuccessor r) h1 = Ok h2"
    and 2: "on_block r (RemovePredecessor l) h2 = Ok h3" and h': "h' = invalidateAfterChangedCFG g h3"
    using assms(2) by (auto simp: DisconnectBasicBlocks_def res_simps)
  have same: "succs_of h1 = succs_of h" "preds_of h1 = preds_of h"
    using ensuresD [OF FixPHI_same_cfg [of h h] 0] by (simp_all add: same_cfg_def)
  have h2: "r \<in> set (succs_of h l)" "h2 = mod_succs l (remove1 r) h1"
    using RemoveSuccessor_Ok [OF 1] cfg_okD(2) [OF assms(1)] by (simp_all add: same)
  have h3: "l \<in> set (preds_of h r)" "h3 = mod_preds r (swap_out l) h2"
    using 2 by (simp_all add: RemovePredecessor_Ok h2 same)
  have s: "succs_of h' = (succs_of h)(l := remove1 r (succs_of h l))" "preds_of h' = (preds_of h)(r := swap_out l (preds_of h r))"
    by (simp_all add: h' h2 h3 same)
  note sw = set_swap_remove [OF cfg_okD(3) [OF assms(1)] h3(1)] and d = cfg_okD(2) [OF assms(1), of l]
  show "(l, r) \<in> edges h"
    using h2(1) by (simp add: edges_def)
  have E1: "b \<in> set (succs_of h' a) \<longleftrightarrow> (a, b) \<in> edges h - {(l, r)}" for a b
    using d by (auto simp: s edges_def set_remove1_eq)
  have E2: "a \<in> set (preds_of h' b) \<longleftrightarrow> (a, b) \<in> edges h - {(l, r)}" for a b
    using sw(1) edges_iff(2) [OF assms(1), of a b] by (auto simp: s)
  have E3: "distinct (succs_of h' a)" for a
    using d cfg_okD(2) [OF assms(1), of a] by (simp add: s distinct_remove1)
  have E4: "distinct (preds_of h' a)" for a
    using sw(2) cfg_okD(3) [OF assms(1), of a] by (simp add: s)
  have E5: "length (succs_of h' a) \<le> 2" for a
    using cfg_okD(4) [OF assms(1), of a] by (auto simp: s length_remove1)
  show "cfg_ok h'" "edges h' = edges h - {(l, r)}"
    by (rule cfg_okI [of h' "edges h - {(l, r)}", OF E1 E2 E3 E4 E5])+
qed

section \<open>Inserting blocks on edges\<close>

text \<open>\<open>InsertBetween\<close> splits the edge from \<open>pred\<close> to \<open>succ\<close>.\<close>

lemma InsertBetween_cfg:
  assumes ok: "cfg_ok h" and "InsertBetween b p s h = Ok h'"
  shows "cfg_ok h'" and "edges h' = edges h - {(p, s)} \<union> {(p, b), (b, s)}" and "(p, s) \<in> edges h" and "b \<noteq> s"
proof -
  obtain h1 h2 h3 h4 where 1: "on_block p (ReplaceSuccessor s b) h = Ok h1" and 2: "on_block b (AddPredecessor p) h1 = Ok h2"
    and 3: "on_block s (ReplacePredecessor p b) h2 = Ok h3" and 4: "on_block b (AddSuccessor s) h3 = Ok h4"
    and h': "same_cfg h4 h'"
    using assms(2) by (auto simp: InsertBetween_def res_simps split: if_split_asm dest: iter_phi_on_instr)
  have h1: "s \<in> set (succs_of h p)" "h1 = mod_succs p (\<lambda>xs. xs[index_of s xs := b]) h"
    using 1 by (simp_all add: ReplaceSuccessor_Ok)
  have h2: "p \<notin> set (preds_of h b)" "h2 = mod_preds b (\<lambda>xs. xs @ [p]) h1"
    using 2 by (simp_all add: AddPredecessor_Ok h1)
  have ps: "p \<in> set (preds_of h s)" and nb: "b \<notin> set (succs_of h p)"
    using h1(1) h2(1) cfg_okD(1) [OF ok] by simp_all
  then show bs: "b \<noteq> s" using h1(1) by auto
  show "(p, s) \<in> edges h" using h1(1) by (simp add: edges_def)
  have h3: "h3 = mod_preds s (\<lambda>xs. xs[index_of p xs := b]) h2"
    using 3 by (simp add: ReplacePredecessor_Ok)
  note rs = set_replace_first [OF cfg_okD(2) [OF ok] h1(1) nb]
  have s3: "succs_of h3 = (succs_of h)(p := (succs_of h p)[index_of s (succs_of h p) := b])"
    by (simp add: h1 h2 h3)
  have h4: "length (succs_of h3 b) < 2" "s \<notin> set (succs_of h3 b)" "h4 = mod_succs b (\<lambda>xs. xs @ [s]) h3"
    using 4 by (simp_all add: AddSuccessor_Ok)
  have s4: "succs_of h' = (succs_of h3)(b := succs_of h3 b @ [s])"
    and p4: "preds_of h' = (preds_of h)(b := preds_of h b @ [p], s := (preds_of h s)[index_of p (preds_of h s) := b])"
    using h' bs by (auto simp: same_cfg_def h4 h3 h2 h1)
  have nbs: "p \<noteq> b \<Longrightarrow> b \<notin> set (preds_of h s)"
    using h4(2) cfg_okD(1) [OF ok, of s b] by (simp add: s3)
  let ?E = "edges h - {(p, s)} \<union> {(p, b), (b, s)}"
  have E1: "y \<in> set (succs_of h' x) \<longleftrightarrow> (x, y) \<in> ?E" for x y
    using rs(1) bs by (auto simp: s4 s3 edges_def)
  have E2: "x \<in> set (preds_of h' y) \<longleftrightarrow> (x, y) \<in> ?E" for x y
  proof (cases "p = b")
    case True
    then show ?thesis
      using bs ps edges_iff(2) [OF ok, of x y] by (auto simp: p4 replace_self)
  next
    case False
    then show ?thesis
      using set_replace_first(1) [OF cfg_okD(3) [OF ok] ps nbs] bs edges_iff(2) [OF ok, of x y] by (auto simp: p4)
  qed
  have E3: "distinct (succs_of h' x)" for x
    using rs(2) h4(2) cfg_okD(2) [OF ok, of x] cfg_okD(2) [OF ok, of b] by (auto simp: s4 s3)
  have E4: "distinct (preds_of h' x)" for x
    using h2(1) cfg_okD(3) [OF ok] set_replace_first(2) [OF cfg_okD(3) [OF ok] ps nbs] ps
    by (cases "p = b") (auto simp: p4 replace_self)
  have E5: "length (succs_of h' x) \<le> 2" for x
    using h4(1) cfg_okD(4) [OF ok, of x] by (auto simp: s4 s3)
  show "cfg_ok h'" "edges h' = ?E"
    by (rule cfg_okI [of h' ?E, OF E1 E2 E3 E4 E5])+
qed


text \<open>\<open>AddBasicBlockBefore\<close> redirects every edge into \<open>before\<close> to the new block.\<close>

lemma redirect_loop:
  assumes "for_each (\<lambda>b h. rbind (on_block b (RemoveSuccessor t) h) (\<lambda>h.
      rbind (on_block b (AddSuccessor n) h) (on_block n (AddPredecessor b)))) xs h = Ok h'"
    and "distinct xs" and "\<And>x. distinct (succs_of h x)"
  shows "succs_of h' = (\<lambda>x. if x \<in> set xs then remove1 t (succs_of h x) @ [n] else succs_of h x)"
    and "preds_of h' = (preds_of h)(n := preds_of h n @ xs)"
    and "\<And>x. x \<in> set xs \<Longrightarrow> n \<notin> set (remove1 t (succs_of h x)) \<and> x \<notin> set (preds_of h n) \<and> t \<in> set (succs_of h x)"
proof -
  have "succs_of h' = (\<lambda>x. if x \<in> set xs then remove1 t (succs_of h x) @ [n] else succs_of h x) \<and>
    preds_of h' = (preds_of h)(n := preds_of h n @ xs) \<and>
    (\<forall>x \<in> set xs. n \<notin> set (remove1 t (succs_of h x)) \<and> x \<notin> set (preds_of h n) \<and> t \<in> set (succs_of h x))"
    using assms
  proof (induction xs arbitrary: h)
    case (Cons x xs)
    from Cons.prems(1) obtain h1 h2 h3 where 1: "on_block x (RemoveSuccessor t) h = Ok h1"
      and 2: "on_block x (AddSuccessor n) h1 = Ok h2" and 3: "on_block n (AddPredecessor x) h2 = Ok h3"
      and rest: "for_each (\<lambda>b h. rbind (on_block b (RemoveSuccessor t) h) (\<lambda>h.
        rbind (on_block b (AddSuccessor n) h) (on_block n (AddPredecessor b)))) xs h3 = Ok h'"
      by (auto simp: res_simps)
    have h1: "t \<in> set (succs_of h x)" "h1 = mod_succs x (remove1 t) h"
      using RemoveSuccessor_Ok [OF 1] Cons.prems(3) by simp_all
    have h2: "n \<notin> set (remove1 t (succs_of h x))" "h2 = mod_succs x (\<lambda>xs. xs @ [n]) h1"
      using 2 by (simp_all add: AddSuccessor_Ok h1)
    have h3: "x \<notin> set (preds_of h n)" "h3 = mod_preds n (\<lambda>xs. xs @ [x]) h2"
      using 3 by (simp_all add: AddPredecessor_Ok h2 h1)
    have s3: "succs_of h3 = (succs_of h)(x := remove1 t (succs_of h x) @ [n])" "preds_of h3 = (preds_of h)(n := preds_of h n @ [x])"
      by (simp_all add: h3 h2 h1)
    have d3: "distinct (succs_of h3 y)" for y
      using Cons.prems(3) [of y] Cons.prems(3) [of x] h2(1) by (auto simp: s3 distinct_remove1)
    show ?case
      using Cons.IH [OF rest _ d3] Cons.prems(2) h1(1) h2(1) h3(1)
      by (auto simp: s3 fun_eq_iff split: if_split_asm)
  qed simp
  then show "succs_of h' = (\<lambda>x. if x \<in> set xs then remove1 t (succs_of h x) @ [n] else succs_of h x)"
    and "preds_of h' = (preds_of h)(n := preds_of h n @ xs)"
    and "\<And>x. x \<in> set xs \<Longrightarrow> n \<notin> set (remove1 t (succs_of h x)) \<and> x \<notin> set (preds_of h n) \<and> t \<in> set (succs_of h x)"
    by blast+
qed

lemma AddBasicBlockBefore_lists:
  assumes ok: "cfg_ok h" and "AddBasicBlockBefore t n g h = Ok h'"
  shows "succs_of h' = (\<lambda>x. if x = n then [t] else if t \<in> set (succs_of h x) then remove1 t (succs_of h x) @ [n] else succs_of h x)"
    and "preds_of h' = (preds_of h)(n := preds_of h t, t := [n])"
    and "succs_of h n = []" and "preds_of h n = []"
proof -
  let ?h0 = "upd_b n (\<lambda>b. b\<lparr>b_graph := Some g\<rparr>) h"
  obtain h1 h2 h3 where empty: "preds_of h n = []" "succs_of h n = []"
    and 1: "for_each (\<lambda>b h. rbind (on_block b (RemoveSuccessor t) h) (\<lambda>h.
        rbind (on_block b (AddSuccessor n) h) (on_block n (AddPredecessor b)))) (preds_of ?h0 t) ?h0 = Ok h1"
    and 2: "on_block t (AddPredecessor n) (upd_b t (\<lambda>b. b\<lparr>b_preds := []\<rparr>) h1) = Ok h2"
    and 3: "on_block n (AddSuccessor t) h2 = Ok h3" and h': "h' = invalidateAfterChangedCFG g h3"
    using assms(2) by (auto simp: AddBasicBlockBefore_def Let_def res_simps preds_of_def succs_of_def)
  have 0: "succs_of ?h0 = succs_of h" "preds_of ?h0 = preds_of h"
    using same_cfg_upd_b [of "\<lambda>b. b\<lparr>b_graph := Some g\<rparr>" h n h] by (simp_all add: same_cfg_def)
  have clear: "upd_b t (\<lambda>b. b\<lparr>b_preds := []\<rparr>) h1 = mod_preds t (\<lambda>_. []) h1"
    by (simp add: mod_preds_def)
  have dp: "distinct (preds_of ?h0 t)" and ds: "distinct (succs_of ?h0 x)" for x
    using cfg_okD(2,3) [OF ok] by (simp_all add: 0)
  note L = redirect_loop [OF 1 dp ds, unfolded 0]
  have h2: "h2 = mod_preds t (\<lambda>xs. xs @ [n]) (mod_preds t (\<lambda>_. []) h1)"
    using 2 by (simp add: AddPredecessor_Ok clear)
  have h3: "h3 = mod_succs n (\<lambda>xs. xs @ [t]) h2"
    using 3 by (simp add: AddSuccessor_Ok)
  show "succs_of h n = []" "preds_of h n = []" by (rule empty)+
  show "succs_of h' = (\<lambda>x. if x = n then [t] else if t \<in> set (succs_of h x) then remove1 t (succs_of h x) @ [n] else succs_of h x)"
    using empty cfg_okD(1) [OF ok, of t] cfg_okD(1) [OF ok, of t n] by (auto simp: h' h3 h2 L fun_eq_iff)
  show "preds_of h' = (preds_of h)(n := preds_of h t, t := [n])"
    using empty by (auto simp: h' h3 h2 L)
qed

lemma AddBasicBlockBefore_cfg:
  assumes ok: "cfg_ok h" and r: "AddBasicBlockBefore t n g h = Ok h'"
  shows "cfg_ok h'"
    and "edges h' = {(x, y) \<in> edges h. y \<noteq> t} \<union> {(x, n) |x. (x, t) \<in> edges h} \<union> {(n, t)}"
proof -
  note s = AddBasicBlockBefore_lists [OF ok r]
  let ?E = "{(x, y) \<in> edges h. y \<noteq> t} \<union> {(x, n) |x. (x, t) \<in> edges h} \<union> {(n, t)}"
  have no_n: "n \<notin> set (succs_of h x)" for x
    using cfg_okD(1) [OF ok, of n x] s(4) by simp
  have nt: "(n, y) \<notin> edges h" "(x, n) \<notin> edges h" for x y
    using s(3) no_n by (auto simp: edges_def)
  have E1: "y \<in> set (succs_of h' x) \<longleftrightarrow> (x, y) \<in> ?E" for x y
    using cfg_okD(2) [OF ok, of x] nt(1) [of y] no_n [of x] s(3)
    by (cases "x = n"; cases "t \<in> set (succs_of h x)") (auto simp: s(1) edges_def)
  have E2: "x \<in> set (preds_of h' y) \<longleftrightarrow> (x, y) \<in> ?E" for x y
    using nt edges_iff(2) [OF ok, of x y] edges_iff(2) [OF ok, of x t] by (simp add: s(2)) blast
  have E3: "distinct (succs_of h' x)" for x
    using cfg_okD(2) [OF ok, of x] no_n [of x] by (auto simp: s(1) distinct_remove1 dest: notin_set_remove1)
  have E4: "distinct (preds_of h' x)" for x
    using cfg_okD(3) [OF ok] by (simp add: s(2))
  have E5: "length (succs_of h' x) \<le> 2" for x
    using cfg_okD(4) [OF ok, of x] by (auto simp: s(1) length_remove1)
  show "cfg_ok h'" "edges h' = ?E"
    by (rule cfg_okI [of h' ?E, OF E1 E2 E3 E4 E5])+
qed

section \<open>Unlinking a block\<close>

lemma remove_successor_loop:
  assumes "for_each (\<lambda>p. on_block p (RemoveSuccessor b)) xs h = Ok h'"
    and "distinct xs" and "\<And>x. distinct (succs_of h x)"
  shows "succs_of h' = (\<lambda>x. if x \<in> set xs then remove1 b (succs_of h x) else succs_of h x) \<and> preds_of h' = preds_of h"
  using assms
proof (induction xs arbitrary: h)
  case (Cons x xs)
  from Cons.prems(1) obtain h1 where 1: "on_block x (RemoveSuccessor b) h = Ok h1"
    and rest: "for_each (\<lambda>p. on_block p (RemoveSuccessor b)) xs h1 = Ok h'"
    by (auto simp: res_simps)
  have h1: "h1 = mod_succs x (remove1 b) h"
    using RemoveSuccessor_Ok [OF 1] Cons.prems(3) by simp
  have "distinct (succs_of h1 y)" for y
    using Cons.prems(3) [of y] Cons.prems(3) [of x] by (simp add: h1 distinct_remove1)
  with Cons.IH [OF rest] Cons.prems(2) show ?case by (auto simp: h1 fun_eq_iff)
qed simp

lemma remove_predecessor_loop:
  assumes "for_each (\<lambda>s h. rbind (FixPHIAfterDisconnect b s h) (on_block s (RemovePredecessor b))) xs h = Ok h'"
    and "distinct xs"
  shows "preds_of h' = (\<lambda>x. if x \<in> set xs then swap_out b (preds_of h x) else preds_of h x) \<and> succs_of h' = succs_of h"
  using assms
proof (induction xs arbitrary: h)
  case (Cons x xs)
  from Cons.prems(1) obtain h1 h2 where 1: "FixPHIAfterDisconnect b x h = Ok h1" and 2: "on_block x (RemovePredecessor b) h1 = Ok h2"
    and rest: "for_each (\<lambda>s h. rbind (FixPHIAfterDisconnect b s h) (on_block s (RemovePredecessor b))) xs h2 = Ok h'"
    by (auto simp: res_simps)
  have "succs_of h1 = succs_of h" "preds_of h1 = preds_of h"
    using ensuresD [OF FixPHI_same_cfg [of h h] 1] by (simp_all add: same_cfg_def)
  moreover have "h2 = mod_preds x (swap_out b) h1"
    using 2 by (simp add: RemovePredecessor_Ok)
  ultimately show ?case
    using Cons.IH [OF rest] Cons.prems(2) by (auto simp: fun_eq_iff)
qed simp

lemma removePredecessors_cfg:
  assumes ok: "cfg_ok h" and "removePredecessors b h = Ok h'"
  shows "cfg_ok h'" and "edges h' = {(x, y) \<in> edges h. y \<noteq> b}"
proof -
  obtain h1 where 1: "for_each (\<lambda>p. on_block p (RemoveSuccessor b)) (preds_of h b) h = Ok h1"
    and h': "h' = mod_preds b (\<lambda>_. []) h1"
    using assms(2) by (auto simp: removePredecessors_def res_simps preds_of_def mod_preds_def)
  have s: "succs_of h' = (\<lambda>x. if x \<in> set (preds_of h b) then remove1 b (succs_of h x) else succs_of h x)"
    "preds_of h' = (preds_of h)(b := [])"
    using remove_successor_loop [OF 1 cfg_okD(3,2) [OF ok]] by (simp_all add: h')
  let ?E = "{(x, y) \<in> edges h. y \<noteq> b}"
  have E1: "y \<in> set (succs_of h' x) \<longleftrightarrow> (x, y) \<in> ?E" for x y
    using cfg_okD(2) [OF ok, of x] cfg_okD(1) [OF ok, of b x] by (auto simp: s(1) edges_def set_remove1_eq)
  have E2: "x \<in> set (preds_of h' y) \<longleftrightarrow> (x, y) \<in> ?E" for x y
    using edges_iff(2) [OF ok, of x y] by (auto simp: s(2))
  have E3: "distinct (succs_of h' x)" and E4: "distinct (preds_of h' x)" and E5: "length (succs_of h' x) \<le> 2" for x
    using cfg_okD(2-4) [OF ok, of x] by (auto simp: s distinct_remove1 length_remove1)
  show "cfg_ok h'" "edges h' = ?E"
    by (rule cfg_okI [of h' ?E, OF E1 E2 E3 E4 E5])+
qed

lemma removeSuccessors_cfg:
  assumes ok: "cfg_ok h" and "removeSuccessors b h = Ok h'"
  shows "cfg_ok h'" and "edges h' = {(x, y) \<in> edges h. x \<noteq> b}"
proof -
  obtain h1 where 1: "for_each (\<lambda>s h. rbind (FixPHIAfterDisconnect b s h) (on_block s (RemovePredecessor b))) (succs_of h b) h = Ok h1"
    and h': "h' = mod_succs b (\<lambda>_. []) h1"
    using assms(2) by (auto simp: removeSuccessors_def res_simps succs_of_def mod_succs_def)
  have s: "preds_of h' = (\<lambda>x. if x \<in> set (succs_of h b) then swap_out b (preds_of h x) else preds_of h x)"
    "succs_of h' = (succs_of h)(b := [])"
    using remove_predecessor_loop [OF 1 cfg_okD(2) [OF ok]] by (simp_all add: h')
  have sw: "set (swap_out b (preds_of h x)) = set (preds_of h x) - {b}" "distinct (swap_out b (preds_of h x))"
    if "x \<in> set (succs_of h b)" for x
    using set_swap_remove [OF cfg_okD(3) [OF ok]] that cfg_okD(1) [OF ok] by blast+
  let ?E = "{(x, y) \<in> edges h. x \<noteq> b}"
  have E1: "y \<in> set (succs_of h' x) \<longleftrightarrow> (x, y) \<in> ?E" for x y
    by (auto simp: s(2) edges_def)
  have E2: "x \<in> set (preds_of h' y) \<longleftrightarrow> (x, y) \<in> ?E" for x y
    using edges_iff(2) [OF ok, of x y] sw(1) [of y] cfg_okD(1) [OF ok, of y b] by (auto simp: s(1))
  have E3: "distinct (succs_of h' x)" and E4: "distinct (preds_of h' x)" and E5: "length (succs_of h' x) \<le> 2" for x
    using cfg_okD(2-4) [OF ok, of x] sw(2) [of x] by (auto simp: s)
  show "cfg_ok h'" "edges h' = ?E"
    by (rule cfg_okI [of h' ?E, OF E1 E2 E3 E4 E5])+
qed

lemma UnlinkBasicBlock_cfg:
  assumes ok: "cfg_ok h" and r: "UnlinkBasicBlock b g h = Ok h'" and "g_lastBlock (h_g h g) \<noteq> Some b"
  shows "cfg_ok h'" and "edges h' = {(x, y) \<in> edges h. x \<noteq> b \<and> y \<noteq> b}"
proof -
  obtain h1 where raw: "UnlinkBasicBlockRaw b g h = Ok h1"
    using r by (auto simp: UnlinkBasicBlock_def res_simps)
  have same: "same_cfg h h1" and "g_lastBlock (h_g h1 g) = g_lastBlock (h_g h g)"
    using raw by (auto simp: UnlinkBasicBlockRaw_def Let_def res_simps same_cfg_upd_b invalidateAfterChangedCFG_def)
  with r raw assms(3) obtain h2 where 1: "removePredecessors b h1 = Ok h2" and 2: "removeSuccessors b h2 = Ok h'"
    by (auto simp: UnlinkBasicBlock_def res_simps)
  have "cfg_ok h1" using same_cfg_ok [OF same] ok by simp
  note P = removePredecessors_cfg [OF this 1] and S = removeSuccessors_cfg [OF _ 2]
  show "cfg_ok h'" by (rule S(1) [OF P(1)])
  show "edges h' = {(x, y) \<in> edges h. x \<noteq> b \<and> y \<noteq> b}"
    unfolding S(2) [OF P(1)] P(2) same_cfg_edges [OF same] by blast
qed

end
