(* ===== verification/JIT_Builder.thy ===== *)
theory JIT_Builder
  imports JIT_CFG
begin

text \<open>
  Construction of instructions: the constructors of \<open>ir/instructions/Instruction.h\<close>, the
  \<open>Create\<close> methods of \<open>ir/InstructionBuilder.h\<close> and \<open>Copy\<close> (\<open>ir/InstructionsCopy.cpp\<close>).
  A builder belongs to a graph and is identified with it.  The allocator hands out a fresh
  address; an immediate is the \<open>uint64_t\<close> it is converted to.
\<close>

section \<open>Constructors\<close>

text \<open>\<open>InputsInstruction\<close>: a new object with its inputs; every non-null input gets a user.\<close>

definition new_instr :: "Instr \<Rightarrow> heap \<Rightarrow> (abort, iptr \<times> heap) res" where
  "new_instr i h =
     (let p = h_new_i h; h = upd_i p (\<lambda>_. i) (h\<lparr>h_new_i := Suc p\<rparr>) in
      rbind (for_each (\<lambda>it. add_user_if it p) (i_inputs i) h) (\<lambda>h. Ok (p, h)))"

text \<open>\<open>!p || p->GetType()\<close> satisfies a predicate\<close>

definition null_or_type :: "(OperandType \<Rightarrow> bool) \<Rightarrow> iptr option \<Rightarrow> heap \<Rightarrow> bool" where
  "null_or_type P p h = (case p of None \<Rightarrow> True | Some q \<Rightarrow> P (i_type (h_i h q)))"

definition FixedInputs :: "InstrClass \<Rightarrow> Opcode \<Rightarrow> OperandType \<Rightarrow> iptr option list \<Rightarrow> Instr" where
  "FixedInputs cls opcode type ins = (InstructionBase_init cls opcode type 0)\<lparr>i_inputs := ins\<rparr>"

definition UnaryReg_ctor :: "Opcode \<Rightarrow> OperandType \<Rightarrow> iptr option \<Rightarrow> heap \<Rightarrow> (abort, iptr \<times> heap) res" where
  "UnaryReg_ctor opcode type inp =
     new_instr (FixedInputs UnaryRegInstruction opcode type [inp])"

definition BinaryReg_ctor :: "Opcode \<Rightarrow> OperandType \<Rightarrow> iptr option \<Rightarrow> iptr option \<Rightarrow> heap \<Rightarrow> (abort, iptr \<times> heap) res" where
  "BinaryReg_ctor opcode type in1 in2 =
     new_instr (FixedInputs BinaryRegInstruction opcode type [in1, in2])"

definition Constant_ctor :: "Opcode \<Rightarrow> OperandType \<Rightarrow> u64 \<Rightarrow> heap \<Rightarrow> (abort, iptr \<times> heap) res" where
  "Constant_ctor opcode type val =
     new_instr ((InstructionBase_init ConstantInstruction opcode type 0)\<lparr>i_value := val\<rparr>)"

definition BinaryImm_ctor :: "Opcode \<Rightarrow> OperandType \<Rightarrow> iptr option \<Rightarrow> u64 \<Rightarrow> heap \<Rightarrow> (abort, iptr \<times> heap) res" where
  "BinaryImm_ctor opcode type inp imm =
     new_instr ((FixedInputs BinaryImmInstruction opcode type [inp])\<lparr>i_value := imm\<rparr>)"

definition Compare_ctor :: "Opcode \<Rightarrow> OperandType \<Rightarrow> CondCode \<Rightarrow> iptr option \<Rightarrow> iptr option \<Rightarrow> heap \<Rightarrow> (abort, iptr \<times> heap) res" where
  "Compare_ctor opcode type ccode in1 in2 =
     new_instr ((FixedInputs CompareInstruction opcode type [in1, in2])\<lparr>i_ccode := ccode\<rparr>)"

definition Cast_ctor :: "OperandType \<Rightarrow> OperandType \<Rightarrow> iptr option \<Rightarrow> heap \<Rightarrow> (abort, iptr \<times> heap) res" where
  "Cast_ctor fromType toType inp =
     new_instr ((FixedInputs CastInstruction Op_CAST fromType [inp])\<lparr>i_toType := toType\<rparr>)"

definition Jump_ctor :: "Opcode \<Rightarrow> heap \<Rightarrow> (abort, iptr \<times> heap) res" where
  "Jump_ctor opcode =
     new_instr (InstructionBase_init JumpInstruction opcode T_I64 (underlying_logic_or [CF, SIDE_EFFECTS]))"

definition CondJump_ctor :: "heap \<Rightarrow> (abort, iptr \<times> heap) res" where
  "CondJump_ctor =
     new_instr (InstructionBase_init CondJumpInstruction Op_JCMP T_I64 (underlying_logic_or [CF, SIDE_EFFECTS]))"

definition Ret_ctor :: "OperandType \<Rightarrow> iptr option \<Rightarrow> heap \<Rightarrow> (abort, iptr \<times> heap) res" where
  "Ret_ctor type inp =
     new_instr (FixedInputs RetInstruction Op_RET type [inp])"

definition RetVoid_ctor :: "heap \<Rightarrow> (abort, iptr \<times> heap) res" where
  "RetVoid_ctor =
     new_instr (InstructionBase_init RetVoidInstruction Op_RETVOID T_VOID (underlying_logic_or [CF, SIDE_EFFECTS]))"

definition Phi_ctor :: "OperandType \<Rightarrow> iptr option list \<Rightarrow> bptr list \<Rightarrow> heap \<Rightarrow> (abort, iptr \<times> heap) res" where
  "Phi_ctor type ins sources h =
     ASSERT (length ins = length sources)
       (new_instr ((FixedInputs PhiInstruction Op_PHI type ins)\<lparr>i_sources := sources\<rparr>) h)"

definition InputArgument_ctor :: "OperandType \<Rightarrow> heap \<Rightarrow> (abort, iptr \<times> heap) res" where
  "InputArgument_ctor type =
     new_instr (InstructionBase_init InputArgumentInstruction Op_ARG type 0)"

definition Call_ctor :: "OperandType \<Rightarrow> nat \<Rightarrow> iptr option list \<Rightarrow> heap \<Rightarrow> (abort, iptr \<times> heap) res" where
  "Call_ctor type tgt ins =
     new_instr ((FixedInputs CallInstruction Op_CALL type ins)\<lparr>i_callTarget := tgt\<rparr>)"

definition Length_ctor :: "iptr option \<Rightarrow> heap \<Rightarrow> (abort, iptr \<times> heap) res" where
  "Length_ctor arr h =
     ASSERT (null_or_type (\<lambda>t. t = T_REF) arr h) (new_instr (FixedInputs LengthInstruction Op_LEN T_U64 [arr]) h)"

definition NewArray_ctor :: "iptr option \<Rightarrow> u64 \<Rightarrow> heap \<Rightarrow> (abort, iptr \<times> heap) res" where
  "NewArray_ctor len typeId h =
     ASSERT (null_or_type IsIntegerType len h)
       (new_instr ((FixedInputs NewArrayInstruction Op_NEW_ARRAY T_REF [len])\<lparr>i_typeId := typeId\<rparr>) h)"

definition NewArrayImm_ctor :: "u64 \<Rightarrow> u64 \<Rightarrow> heap \<Rightarrow> (abort, iptr \<times> heap) res" where
  "NewArrayImm_ctor len typeId h =
     ASSERT (len > 0)
       (new_instr ((InstructionBase_init NewArrayImmInstruction Op_NEW_ARRAY_IMM T_REF 0)\<lparr>i_value := len, i_typeId := typeId\<rparr>) h)"

definition NewObject_ctor :: "u64 \<Rightarrow> heap \<Rightarrow> (abort, iptr \<times> heap) res" where
  "NewObject_ctor typeId =
     new_instr ((InstructionBase_init NewObjectInstruction Op_NEW_OBJECT T_REF 0)\<lparr>i_typeId := typeId\<rparr>)"

definition LoadArray_ctor :: "OperandType \<Rightarrow> iptr option \<Rightarrow> iptr option \<Rightarrow> heap \<Rightarrow> (abort, iptr \<times> heap) res" where
  "LoadArray_ctor type arr idx h =
     ASSERT (null_or_type (\<lambda>t. t = T_REF) arr h)
       (ASSERT (null_or_type IsIntegerType idx h)
         (new_instr (FixedInputs LoadArrayInstruction Op_LOAD_ARRAY type [arr, idx]) h))"

definition LoadImm_ctor :: "Opcode \<Rightarrow> OperandType \<Rightarrow> iptr option \<Rightarrow> u64 \<Rightarrow> heap \<Rightarrow> (abort, iptr \<times> heap) res" where
  "LoadImm_ctor opcode type obj offset h =
     ASSERT (opcode = Op_LOAD_ARRAY_IMM \<or> opcode = Op_LOAD_OBJECT)
       (ASSERT (null_or_type (\<lambda>t. t = T_REF) obj h)
         (new_instr ((FixedInputs LoadImmInstruction opcode type [obj])\<lparr>i_value := offset\<rparr>) h))"

definition StoreArray_ctor :: "iptr option \<Rightarrow> iptr option \<Rightarrow> iptr option \<Rightarrow> heap \<Rightarrow> (abort, iptr \<times> heap) res" where
  "StoreArray_ctor arr storedValue idx h =
     ASSERT (null_or_type (\<lambda>t. t = T_REF) arr h)
       (ASSERT (null_or_type IsIntegerType idx h)
         (new_instr (FixedInputs StoreArrayInstruction Op_STORE_ARRAY T_VOID [arr, storedValue, idx]) h))"

definition StoreImm_ctor :: "Opcode \<Rightarrow> iptr option \<Rightarrow> iptr option \<Rightarrow> u64 \<Rightarrow> heap \<Rightarrow> (abort, iptr \<times> heap) res" where
  "StoreImm_ctor opcode obj storedValue offset h =
     ASSERT (opcode = Op_STORE_ARRAY_IMM \<or> opcode = Op_STORE_OBJECT)
       (ASSERT (null_or_type (\<lambda>t. t = T_REF) obj h)
         (new_instr ((FixedInputs StoreImmInstruction opcode T_VOID [obj, storedValue])\<lparr>i_value := offset\<rparr>) h))"

definition BoundsCheck_ctor :: "iptr option \<Rightarrow> iptr option \<Rightarrow> heap \<Rightarrow> (abort, iptr \<times> heap) res" where
  "BoundsCheck_ctor arr idx h =
     ASSERT (null_or_type (\<lambda>t. t = T_REF) arr h)
       (ASSERT (null_or_type IsIntegerType idx h)
         (new_instr (FixedInputs BoundsCheckInstruction Op_BOUNDS_CHECK T_INVALID [arr, idx]) h))"

section \<open>The builder\<close>

definition ARITHM :: byte where
  "ARITHM = underlying_logic_or [InstrProp.ARITH, INPUT]"

definition SIDE_EFFECTS_ARITHM :: byte where
  "SIDE_EFFECTS_ARITHM = underlying_logic_or [InstrProp.ARITH, INPUT, SIDE_EFFECTS]"

definition INPUT_SIDE_EFFECTS :: byte where
  "INPUT_SIDE_EFFECTS = underlying_logic_or [INPUT, SIDE_EFFECTS]"

definition INPUT_MEM :: byte where
  "INPUT_MEM = underlying_logic_or [INPUT, MEM, SIDE_EFFECTS]"

text \<open>\<open>inst->SetId(currentId++)\<close>\<close>

definition number_instr :: "iptr \<Rightarrow> gptr \<Rightarrow> heap \<Rightarrow> heap" where
  "number_instr inst builder h =
     upd_g builder (\<lambda>g. g\<lparr>g_currentId := g_currentId g + 1\<rparr>)
       (upd_i inst (\<lambda>i. i\<lparr>i_id := g_currentId (h_g h builder)\<rparr>) h)"

definition AttachInstruction :: "iptr \<Rightarrow> gptr \<Rightarrow> heap_step" where
  "AttachInstruction inst builder h =
     ASSERT (i_id (h_i h inst) = INVALID_ID) (Ok (number_instr inst builder h))"

definition CREATE_INST :: "(heap \<Rightarrow> (abort, iptr \<times> heap) res) \<Rightarrow> gptr \<Rightarrow> heap \<Rightarrow> (abort, iptr \<times> heap) res" where
  "CREATE_INST ctor builder h = rbind (ctor h) (\<lambda>(inst, h). Ok (inst, number_instr inst builder h))"

definition CREATE_INST_WITH_PROP ::
    "(heap \<Rightarrow> (abort, iptr \<times> heap) res) \<Rightarrow> byte \<Rightarrow> gptr \<Rightarrow> heap \<Rightarrow> (abort, iptr \<times> heap) res" where
  "CREATE_INST_WITH_PROP ctor prop builder h =
     rbind (ctor h) (\<lambda>(inst, h).
     Ok (inst, upd_i inst (SetProperty prop) (number_instr inst builder h)))"

definition PushBackInstructions :: "iptr list \<Rightarrow> bptr \<Rightarrow> heap_step" where
  "PushBackInstructions instructions bblock = for_each (\<lambda>instr. PushBackInstruction instr bblock) instructions"

definition PushForwardInstructions :: "iptr list \<Rightarrow> bptr \<Rightarrow> heap_step" where
  "PushForwardInstructions instructions bblock = for_each (\<lambda>instr. PushForwardInstruction instr bblock) instructions"

definition CREATE_ARITHM :: "Opcode \<Rightarrow> OperandType \<Rightarrow> iptr option \<Rightarrow> iptr option \<Rightarrow> gptr \<Rightarrow> heap \<Rightarrow> (abort, iptr \<times> heap) res" where
  "CREATE_ARITHM opcode type in1 in2 = CREATE_INST_WITH_PROP (BinaryReg_ctor opcode type in1 in2) ARITHM"

definition CREATE_COMMUTABLE_ARITHM :: "Opcode \<Rightarrow> OperandType \<Rightarrow> iptr option \<Rightarrow> iptr option \<Rightarrow> gptr \<Rightarrow> heap \<Rightarrow> (abort, iptr \<times> heap) res" where
  "CREATE_COMMUTABLE_ARITHM opcode type in1 in2 =
     CREATE_INST_WITH_PROP (BinaryReg_ctor opcode type in1 in2) (ARITHM OR prop_bits COMMUTABLE)"

definition CREATE_IMM_INST_WITH_PROP :: "Opcode \<Rightarrow> byte \<Rightarrow> OperandType \<Rightarrow> iptr option \<Rightarrow> u64 \<Rightarrow> gptr \<Rightarrow> heap \<Rightarrow> (abort, iptr \<times> heap) res" where
  "CREATE_IMM_INST_WITH_PROP opcode prop type inp imm = CREATE_INST_WITH_PROP (BinaryImm_ctor opcode type inp imm) prop"

definition CREATE_IMM_INST :: "Opcode \<Rightarrow> OperandType \<Rightarrow> iptr option \<Rightarrow> u64 \<Rightarrow> gptr \<Rightarrow> heap \<Rightarrow> (abort, iptr \<times> heap) res" where
  "CREATE_IMM_INST opcode type inp imm = CREATE_INST_WITH_PROP (BinaryImm_ctor opcode type inp imm) ARITHM"

definition CreateAND :: "OperandType \<Rightarrow> iptr option \<Rightarrow> iptr option \<Rightarrow> gptr \<Rightarrow> heap \<Rightarrow> (abort, iptr \<times> heap) res" where
  "CreateAND =
     CREATE_COMMUTABLE_ARITHM Op_AND"

definition CreateOR :: "OperandType \<Rightarrow> iptr option \<Rightarrow> iptr option \<Rightarrow> gptr \<Rightarrow> heap \<Rightarrow> (abort, iptr \<times> heap) res" where
  "CreateOR =
     CREATE_COMMUTABLE_ARITHM Op_OR"

definition CreateXOR :: "OperandType \<Rightarrow> iptr option \<Rightarrow> iptr option \<Rightarrow> gptr \<Rightarrow> heap \<Rightarrow> (abort, iptr \<times> heap) res" where
  "CreateXOR =
     CREATE_COMMUTABLE_ARITHM Op_XOR"

definition CreateADD :: "OperandType \<Rightarrow> iptr option \<Rightarrow> iptr option \<Rightarrow> gptr \<Rightarrow> heap \<Rightarrow> (abort, iptr \<times> heap) res" where
  "CreateADD =
     CREATE_COMMUTABLE_ARITHM Op_ADD"

definition CreateMUL :: "OperandType \<Rightarrow> iptr option \<Rightarrow> iptr option \<Rightarrow> gptr \<Rightarrow> heap \<Rightarrow> (abort, iptr \<times> heap) res" where
  "CreateMUL =
     CREATE_COMMUTABLE_ARITHM Op_MUL"

definition CreateSUB :: "OperandType \<Rightarrow> iptr option \<Rightarrow> iptr option \<Rightarrow> gptr \<Rightarrow> heap \<Rightarrow> (abort, iptr \<times> heap) res" where
  "CreateSUB =
     CREATE_ARITHM Op_SUB"

definition CreateDIV :: "OperandType \<Rightarrow> iptr option \<Rightarrow> iptr option \<Rightarrow> gptr \<Rightarrow> heap \<Rightarrow> (abort, iptr \<times> heap) res" where
  "CreateDIV type in1 in2 =
     CREATE_INST_WITH_PROP (BinaryReg_ctor Op_DIV type in1 in2) SIDE_EFFECTS_ARITHM"

definition CreateMOD :: "OperandType \<Rightarrow> iptr option \<Rightarrow> iptr option \<Rightarrow> gptr \<Rightarrow> heap \<Rightarrow> (abort, iptr \<times> heap) res" where
  "CreateMOD type in1 in2 =
     CREATE_INST_WITH_PROP (BinaryReg_ctor Op_MOD type in1 in2) SIDE_EFFECTS_ARITHM"

definition CreateSRA :: "OperandType \<Rightarrow> iptr option \<Rightarrow> iptr option \<Rightarrow> gptr \<Rightarrow> heap \<Rightarrow> (abort, iptr \<times> heap) res" where
  "CreateSRA =
     CREATE_ARITHM Op_SRA"

definition CreateSLA :: "OperandType \<Rightarrow> iptr option \<Rightarrow> iptr option \<Rightarrow> gptr \<Rightarrow> heap \<Rightarrow> (abort, iptr \<times> heap) res" where
  "CreateSLA =
     CREATE_ARITHM Op_SLA"

definition CreateSLL :: "OperandType \<Rightarrow> iptr option \<Rightarrow> iptr option \<Rightarrow> gptr \<Rightarrow> heap \<Rightarrow> (abort, iptr \<times> heap) res" where
  "CreateSLL =
     CREATE_ARITHM Op_SLL"

definition CreateANDI :: "OperandType \<Rightarrow> iptr option \<Rightarrow> u64 \<Rightarrow> gptr \<Rightarrow> heap \<Rightarrow> (abort, iptr \<times> heap) res" where
  "CreateANDI =
     CREATE_IMM_INST Op_ANDI"

definition CreateORI :: "OperandType \<Rightarrow> iptr option \<Rightarrow> u64 \<Rightarrow> gptr \<Rightarrow> heap \<Rightarrow> (abort, iptr \<times> heap) res" where
  "CreateORI =
     CREATE_IMM_INST Op_ORI"

definition CreateXORI :: "OperandType \<Rightarrow> iptr option \<Rightarrow> u64 \<Rightarrow> gptr \<Rightarrow> heap \<Rightarrow> (abort, iptr \<times> heap) res" where
  "CreateXORI =
     CREATE_IMM_INST Op_XORI"

definition CreateADDI :: "OperandType \<Rightarrow> iptr option \<Rightarrow> u64 \<Rightarrow> gptr \<Rightarrow> heap \<Rightarrow> (abort, iptr \<times> heap) res" where
  "CreateADDI =
     CREATE_IMM_INST Op_ADDI"

definition CreateSUBI :: "OperandType \<Rightarrow> iptr option \<Rightarrow> u64 \<Rightarrow> gptr \<Rightarrow> heap \<Rightarrow> (abort, iptr \<times> heap) res" where
  "CreateSUBI =
     CREATE_IMM_INST Op_SUBI"

definition CreateMULI :: "OperandType \<Rightarrow> iptr option \<Rightarrow> u64 \<Rightarrow> gptr \<Rightarrow> heap \<Rightarrow> (abort, iptr \<times> heap) res" where
  "CreateMULI =
     CREATE_IMM_INST Op_MULI"

definition CreateDIVI :: "OperandType \<Rightarrow> iptr option \<Rightarrow> u64 \<Rightarrow> gptr \<Rightarrow> heap \<Rightarrow> (abort, iptr \<times> heap) res" where
  "CreateDIVI =
     CREATE_IMM_INST_WITH_PROP Op_DIVI SIDE_EFFECTS_ARITHM"

definition CreateMODI :: "OperandType \<Rightarrow> iptr option \<Rightarrow> u64 \<Rightarrow> gptr \<Rightarrow> heap \<Rightarrow> (abort, iptr \<times> heap) res" where
  "CreateMODI =
     CREATE_IMM_INST_WITH_PROP Op_MODI SIDE_EFFECTS_ARITHM"

definition CreateSRAI :: "OperandType \<Rightarrow> iptr option \<Rightarrow> u64 \<Rightarrow> gptr \<Rightarrow> heap \<Rightarrow> (abort, iptr \<times> heap) res" where
  "CreateSRAI =
     CREATE_IMM_INST Op_SRAI"

definition CreateSLAI :: "OperandType \<Rightarrow> iptr option \<Rightarrow> u64 \<Rightarrow> gptr \<Rightarrow> heap \<Rightarrow> (abort, iptr \<times> heap) res" where
  "CreateSLAI =
     CREATE_IMM_INST Op_SLAI"

definition CreateSLLI :: "OperandType \<Rightarrow> iptr option \<Rightarrow> u64 \<Rightarrow> gptr \<Rightarrow> heap \<Rightarrow> (abort, iptr \<times> heap) res" where
  "CreateSLLI =
     CREATE_IMM_INST Op_SLLI"

definition CreateNOT :: "OperandType \<Rightarrow> iptr option \<Rightarrow> gptr \<Rightarrow> heap \<Rightarrow> (abort, iptr \<times> heap) res" where
  "CreateNOT type inp =
     CREATE_INST_WITH_PROP (UnaryReg_ctor Op_NOT type inp) ARITHM"

definition CreateNEG :: "OperandType \<Rightarrow> iptr option \<Rightarrow> gptr \<Rightarrow> heap \<Rightarrow> (abort, iptr \<times> heap) res" where
  "CreateNEG type inp =
     CREATE_INST_WITH_PROP (UnaryReg_ctor Op_NEG type inp) ARITHM"

definition CreateCONST :: "OperandType \<Rightarrow> u64 \<Rightarrow> gptr \<Rightarrow> heap \<Rightarrow> (abort, iptr \<times> heap) res" where
  "CreateCONST type imm =
     CREATE_INST (Constant_ctor Op_CONST type imm)"

definition CreateCAST :: "OperandType \<Rightarrow> OperandType \<Rightarrow> iptr option \<Rightarrow> gptr \<Rightarrow> heap \<Rightarrow> (abort, iptr \<times> heap) res" where
  "CreateCAST fromType toType inp =
     CREATE_INST_WITH_PROP (Cast_ctor fromType toType inp) (prop_bits INPUT)"

definition CreateCMP :: "OperandType \<Rightarrow> CondCode \<Rightarrow> iptr option \<Rightarrow> iptr option \<Rightarrow> gptr \<Rightarrow> heap \<Rightarrow> (abort, iptr \<times> heap) res" where
  "CreateCMP type ccode in1 in2 =
     CREATE_INST_WITH_PROP (Compare_ctor Op_CMP type ccode in1 in2) INPUT_SIDE_EFFECTS"

definition CreateJCMP :: "gptr \<Rightarrow> heap \<Rightarrow> (abort, iptr \<times> heap) res" where
  "CreateJCMP =
     CREATE_INST CondJump_ctor"

definition CreateJMP :: "gptr \<Rightarrow> heap \<Rightarrow> (abort, iptr \<times> heap) res" where
  "CreateJMP =
     CREATE_INST (Jump_ctor Op_JMP)"

definition CreateRET :: "OperandType \<Rightarrow> iptr option \<Rightarrow> gptr \<Rightarrow> heap \<Rightarrow> (abort, iptr \<times> heap) res" where
  "CreateRET type inp =
     CREATE_INST_WITH_PROP (Ret_ctor type inp) (underlying_logic_or [CF, INPUT, SIDE_EFFECTS])"

definition CreateRETVOID :: "gptr \<Rightarrow> heap \<Rightarrow> (abort, iptr \<times> heap) res" where
  "CreateRETVOID =
     CREATE_INST RetVoid_ctor"

definition CreateCALL :: "OperandType \<Rightarrow> nat \<Rightarrow> iptr option list \<Rightarrow> gptr \<Rightarrow> heap \<Rightarrow> (abort, iptr \<times> heap) res" where
  "CreateCALL type tgt arguments =
     CREATE_INST_WITH_PROP (Call_ctor type tgt arguments) INPUT_SIDE_EFFECTS"

definition CreateLEN :: "iptr option \<Rightarrow> gptr \<Rightarrow> heap \<Rightarrow> (abort, iptr \<times> heap) res" where
  "CreateLEN arr =
     CREATE_INST_WITH_PROP (Length_ctor arr) INPUT_MEM"

definition CreateNEW_ARRAY :: "iptr option \<Rightarrow> u64 \<Rightarrow> gptr \<Rightarrow> heap \<Rightarrow> (abort, iptr \<times> heap) res" where
  "CreateNEW_ARRAY len typeId =
     CREATE_INST_WITH_PROP (NewArray_ctor len typeId) INPUT_MEM"

definition CreateNEW_ARRAY_IMM :: "u64 \<Rightarrow> u64 \<Rightarrow> gptr \<Rightarrow> heap \<Rightarrow> (abort, iptr \<times> heap) res" where
  "CreateNEW_ARRAY_IMM len typeId =
     CREATE_INST_WITH_PROP (NewArrayImm_ctor len typeId) (underlying_logic_or [MEM, SIDE_EFFECTS])"

definition CreateNEW_OBJECT :: "u64 \<Rightarrow> gptr \<Rightarrow> heap \<Rightarrow> (abort, iptr \<times> heap) res" where
  "CreateNEW_OBJECT typeId =
     CREATE_INST_WITH_PROP (NewObject_ctor typeId) (underlying_logic_or [MEM, SIDE_EFFECTS])"

definition CreateLOAD_ARRAY :: "OperandType \<Rightarrow> iptr option \<Rightarrow> iptr option \<Rightarrow> gptr \<Rightarrow> heap \<Rightarrow> (abort, iptr \<times> heap) res" where
  "CreateLOAD_ARRAY type arr idx =
     CREATE_INST_WITH_PROP (LoadArray_ctor type arr idx) INPUT_MEM"

definition CreateLOAD_ARRAY_IMM :: "OperandType \<Rightarrow> iptr option \<Rightarrow> u64 \<Rightarrow> gptr \<Rightarrow> heap \<Rightarrow> (abort, iptr \<times> heap) res" where
  "CreateLOAD_ARRAY_IMM type arr idx =
     CREATE_INST_WITH_PROP (LoadImm_ctor Op_LOAD_ARRAY_IMM type arr idx) INPUT_MEM"

definition CreateLOAD_OBJECT :: "OperandType \<Rightarrow> iptr option \<Rightarrow> u64 \<Rightarrow> gptr \<Rightarrow> heap \<Rightarrow> (abort, iptr \<times> heap) res" where
  "CreateLOAD_OBJECT type obj offset =
     CREATE_INST_WITH_PROP (LoadImm_ctor Op_LOAD_OBJECT type obj offset) INPUT_MEM"

definition CreateSTORE_ARRAY :: "iptr option \<Rightarrow> iptr option \<Rightarrow> iptr option \<Rightarrow> gptr \<Rightarrow> heap \<Rightarrow> (abort, iptr \<times> heap) res" where
  "CreateSTORE_ARRAY arr storedValue idx =
     CREATE_INST_WITH_PROP (StoreArray_ctor arr storedValue idx) INPUT_MEM"

definition CreateSTORE_ARRAY_IMM :: "iptr option \<Rightarrow> iptr option \<Rightarrow> u64 \<Rightarrow> gptr \<Rightarrow> heap \<Rightarrow> (abort, iptr \<times> heap) res" where
  "CreateSTORE_ARRAY_IMM arr storedValue idx =
     CREATE_INST_WITH_PROP (StoreImm_ctor Op_STORE_ARRAY_IMM arr storedValue idx) INPUT_MEM"

definition CreateSTORE_OBJECT :: "iptr option \<Rightarrow> iptr option \<Rightarrow> u64 \<Rightarrow> gptr \<Rightarrow> heap \<Rightarrow> (abort, iptr \<times> heap) res" where
  "CreateSTORE_OBJECT obj storedValue offset =
     CREATE_INST_WITH_PROP (StoreImm_ctor Op_STORE_OBJECT obj storedValue offset) INPUT_MEM"

text \<open>Without inputs, and with inputs and their source blocks.\<close>

definition CreatePHI :: "OperandType \<Rightarrow> gptr \<Rightarrow> heap \<Rightarrow> (abort, iptr \<times> heap) res" where
  "CreatePHI type =
     CREATE_INST_WITH_PROP (Phi_ctor type [] []) (prop_bits INPUT)"

definition CreatePHI_inputs :: "OperandType \<Rightarrow> iptr option list \<Rightarrow> bptr list \<Rightarrow> gptr \<Rightarrow> heap \<Rightarrow> (abort, iptr \<times> heap) res" where
  "CreatePHI_inputs type inputs sources =
     CREATE_INST_WITH_PROP (Phi_ctor type inputs sources) (prop_bits INPUT)"

definition CreateARG :: "OperandType \<Rightarrow> gptr \<Rightarrow> heap \<Rightarrow> (abort, iptr \<times> heap) res" where
  "CreateARG type =
     CREATE_INST (InputArgument_ctor type)"

definition CreateNULL_CHECK :: "iptr option \<Rightarrow> gptr \<Rightarrow> heap \<Rightarrow> (abort, iptr \<times> heap) res" where
  "CreateNULL_CHECK inp =
     CREATE_INST_WITH_PROP (UnaryReg_ctor Op_NULL_CHECK T_INVALID inp) INPUT_SIDE_EFFECTS"

definition CreateZERO_CHECK :: "iptr option \<Rightarrow> gptr \<Rightarrow> heap \<Rightarrow> (abort, iptr \<times> heap) res" where
  "CreateZERO_CHECK inp =
     CREATE_INST_WITH_PROP (UnaryReg_ctor Op_ZERO_CHECK T_INVALID inp) INPUT_SIDE_EFFECTS"

definition CreateNEGATIVE_CHECK :: "iptr option \<Rightarrow> gptr \<Rightarrow> heap \<Rightarrow> (abort, iptr \<times> heap) res" where
  "CreateNEGATIVE_CHECK inp =
     CREATE_INST_WITH_PROP (UnaryReg_ctor Op_NEGATIVE_CHECK T_INVALID inp) INPUT_SIDE_EFFECTS"

definition CreateBOUNDS_CHECK :: "iptr option \<Rightarrow> iptr option \<Rightarrow> gptr \<Rightarrow> heap \<Rightarrow> (abort, iptr \<times> heap) res" where
  "CreateBOUNDS_CHECK arr idx =
     CREATE_INST_WITH_PROP (BoundsCheck_ctor arr idx) INPUT_SIDE_EFFECTS"

definition CreateMOVE :: "iptr option \<Rightarrow> gptr \<Rightarrow> heap \<Rightarrow> (abort, iptr \<times> heap) res" where
  "CreateMOVE inp builder h =
     deref inp (\<lambda>p.
       CREATE_INST_WITH_PROP (UnaryReg_ctor Op_MOVE (i_type (h_i h p)) inp) (prop_bits INPUT) builder h)"

section \<open>Copies\<close>

text \<open>
  The copy of an instruction for a block has the fields of its class and null inputs; the copy
  of a call or a PHI has no inputs yet.
\<close>

definition general_copy ::
    "(heap \<Rightarrow> (abort, iptr \<times> heap) res) \<Rightarrow> byte \<Rightarrow> gptr \<Rightarrow> heap \<Rightarrow> (abort, iptr \<times> heap) res" where
  "general_copy ctor properties graph h =
     rbind (ctor h) (\<lambda>(instr, h).
     rbind (AttachInstruction instr graph h) (\<lambda>h.
     Ok (instr, upd_i instr (SetProperty properties) h)))"

definition Copy_in :: "Instr \<Rightarrow> gptr \<Rightarrow> heap \<Rightarrow> (abort, iptr \<times> heap) res" where
  "Copy_in i g =
     (case i_class i of
        BinaryImmInstruction \<Rightarrow> general_copy (BinaryImm_ctor (i_opcode i) (i_type i) None (i_value i)) (i_properties i) g
      | BinaryRegInstruction \<Rightarrow> general_copy (BinaryReg_ctor (i_opcode i) (i_type i) None None) (i_properties i) g
      | UnaryRegInstruction \<Rightarrow> general_copy (UnaryReg_ctor (i_opcode i) (i_type i) None) (i_properties i) g
      | LoadImmInstruction \<Rightarrow> general_copy (LoadImm_ctor (i_opcode i) (i_type i) None (i_value i)) (i_properties i) g
      | StoreImmInstruction \<Rightarrow> general_copy (StoreImm_ctor (i_opcode i) None None (i_value i)) (i_properties i) g
      | ConstantInstruction \<Rightarrow> CreateCONST (i_type i) (i_value i) g
      | CastInstruction \<Rightarrow> CreateCAST (i_type i) (i_toType i) None g
      | CompareInstruction \<Rightarrow> CreateCMP (i_type i) (i_ccode i) None None g
      | CondJumpInstruction \<Rightarrow> CreateJCMP g
      | JumpInstruction \<Rightarrow> CreateJMP g
      | RetInstruction \<Rightarrow> CreateRET (i_type i) None g
      | RetVoidInstruction \<Rightarrow> CreateRETVOID g
      | CallInstruction \<Rightarrow> CreateCALL (i_type i) (i_callTarget i) [] g
      | PhiInstruction \<Rightarrow> CreatePHI (i_type i) g
      | InputArgumentInstruction \<Rightarrow> CreateARG (i_type i) g
      | LengthInstruction \<Rightarrow> CreateLEN None g
      | NewArrayInstruction \<Rightarrow> CreateNEW_ARRAY None (i_typeId i) g
      | NewArrayImmInstruction \<Rightarrow> CreateNEW_ARRAY_IMM (i_value i) (i_typeId i) g
      | NewObjectInstruction \<Rightarrow> CreateNEW_OBJECT (i_typeId i) g
      | LoadArrayInstruction \<Rightarrow> CreateLOAD_ARRAY (i_type i) None None g
      | StoreArrayInstruction \<Rightarrow> CreateSTORE_ARRAY None None None g
      | BoundsCheckInstruction \<Rightarrow> CreateBOUNDS_CHECK None None g)"

definition Copy :: "iptr \<Rightarrow> bptr \<Rightarrow> heap \<Rightarrow> (abort, iptr \<times> heap) res" where
  "Copy this targetBBlock h = deref (b_graph (h_b h targetBBlock)) (\<lambda>g. Copy_in (h_i h this) g h)"

end
