(* ===== verification/JIT_Traverse.thy ===== *)
theory JIT_Traverse
  imports JIT_CFG
begin

text \<open>
  Depth-first traversal of the control flow graph and its reverse post-order
  (\<open>analysis/Traversals.h\<close>).  The traversal is recursive and marks the blocks; \<open>depth\<close> is the
  number of nested calls the model allows, and running out of it is \<open>UB\<close>, as is exhausting the
  stack.  Every nested call marks one more block, so the number of allocated blocks is enough
  (\<open>DoRPO_correct\<close> has no hypothesis about it).
\<close>

section \<open>Markers of blocks\<close>

definition mark_block :: "Marker \<Rightarrow> bptr \<Rightarrow> heap \<Rightarrow> (abort, bool \<times> heap) res" where
  "mark_block mark b h =
     rbind (SetMarker mark (b_markers (h_b h b))) (\<lambda>(wasSet, ms).
     Ok (wasSet, upd_b b (\<lambda>x. x\<lparr>b_markers := ms\<rparr>) h))"

definition clear_block :: "Marker \<Rightarrow> bptr \<Rightarrow> heap_step" where
  "clear_block mark b h =
     rbind (ClearMarker mark (b_markers (h_b h b))) (\<lambda>ms. Ok (upd_b b (\<lambda>x. x\<lparr>b_markers := ms\<rparr>) h))"

definition block_marked :: "Marker \<Rightarrow> bptr \<Rightarrow> heap \<Rightarrow> (abort, bool) res" where
  "block_marked mark b h = IsMarkerSet mark (b_markers (h_b h b))"

definition new_marker :: "gptr \<Rightarrow> heap \<Rightarrow> (abort, Marker \<times> heap) res" where
  "new_marker g h =
     rbind (GetNewMarker (g_markers (h_g h g))) (\<lambda>(mark, m).
     Ok (mark, upd_g g (\<lambda>x. x\<lparr>g_markers := m\<rparr>) h))"

definition release_marker :: "Marker \<Rightarrow> gptr \<Rightarrow> heap \<Rightarrow> heap" where
  "release_marker mark g = upd_g g (\<lambda>x. x\<lparr>g_markers := ReleaseMarker mark (g_markers x)\<rparr>)"

section \<open>The traversal\<close>

type_synonym 's callback = "bptr \<Rightarrow> 's \<times> heap \<Rightarrow> (abort, 's \<times> heap) res"

fun traverseImpl ::
    "nat \<Rightarrow> Marker \<Rightarrow> 's callback \<Rightarrow> bptr \<Rightarrow> nat \<times> 's \<times> heap \<Rightarrow> (abort, nat \<times> 's \<times> heap) res" where
  "traverseImpl 0 visited callback bblock st = UB"
| "traverseImpl (Suc depth) visited callback bblock (visitedCounter, s, h) =
     rbind (mark_block visited bblock h) (\<lambda>(_, h).
     rbind
       (for_each (\<lambda>succ (visitedCounter, s, h).
          ASSERT (HasPredecessor bblock (h_b h succ))
            (rbind (block_marked visited succ h) (\<lambda>isSet.
             if isSet then Ok (visitedCounter, s, h)
             else traverseImpl depth visited callback succ (visitedCounter, s, h))))
          (b_succs (h_b h bblock)) (Suc visitedCounter, s, h)) (\<lambda>(visitedCounter, s, h).
     rbind (callback bblock (s, h)) (\<lambda>(s, h).
     Ok (visitedCounter, s, h))))"

definition doTraverse :: "'s callback \<Rightarrow> gptr \<Rightarrow> bptr option \<Rightarrow> 's \<times> heap \<Rightarrow> (abort, nat \<times> 's \<times> heap) res" where
  "doTraverse callback graph bblock =
     (\<lambda>(s, h).
       rbind (new_marker graph h) (\<lambda>(visited, h).
       case bblock of
         None \<Rightarrow> Err AssertionFail
       | Some b \<Rightarrow>
           rbind (traverseImpl (h_new_b h) visited callback b (0, s, h)) (\<lambda>(visitedCounter, s, h).
           Ok (visitedCounter, s, release_marker visited graph h))))"

definition Traverse :: "bool \<Rightarrow> 's callback \<Rightarrow> gptr \<Rightarrow> 's \<times> heap \<Rightarrow> (abort, 's \<times> heap) res" where
  "Traverse DoSafe callback graph =
     (\<lambda>(s, h).
       if GetBasicBlocksCount (h_g h graph) = 0 then Ok (s, h)
       else
         rbind (doTraverse callback graph (g_firstBlock (h_g h graph)) (s, h)) (\<lambda>(visitedCounter, s, h).
         if DoSafe then ASSERT (visitedCounter = GetBasicBlocksCount (h_g h graph)) (Ok (s, h))
         else Ok (s, h)))"

definition DoRPO :: "gptr \<Rightarrow> heap \<Rightarrow> (abort, bptr list \<times> heap) res" where
  "DoRPO graph h =
     (if GetBasicBlocksCount (h_g h graph) = 0 then Ok ([], h)
      else
        rbind (Traverse True (\<lambda>bblock (result, h). Ok (result @ [bblock], h)) graph ([], h)) (\<lambda>(result, h).
        ASSERT (length result = GetBasicBlocksCount (h_g h graph)) (Ok (rev result, h))))"

definition RPO_Run :: "gptr \<Rightarrow> heap \<Rightarrow> (abort, bool \<times> heap) res" where
  "RPO_Run graph h =
     rbind (DoRPO graph h) (\<lambda>(rpo, h). Ok (True, upd_g graph (SetRPO rpo) h))"

definition run_RPO :: "gptr \<Rightarrow> heap \<Rightarrow> (abort, bool \<times> heap) res" where
  "run_RPO graph = PassManager_Run (Some RPO) (RPO_Run graph) graph"

section \<open>The traversal on an abstract graph\<close>

text \<open>The same search on a successor function, with the set of visited nodes and the post-order.\<close>

fun dfs :: "nat \<Rightarrow> (bptr \<Rightarrow> bptr list) \<Rightarrow> bptr \<Rightarrow> bptr set \<times> bptr list \<Rightarrow> bptr set \<times> bptr list" where
  "dfs 0 succs b st = st"
| "dfs (Suc depth) succs b (V, l) =
     (let (V, l) = fold (\<lambda>s (V, l). if s \<in> V then (V, l) else dfs depth succs s (V, l)) (succs b) (insert b V, l)
      in (V, l @ [b]))"

definition graph_of :: "(bptr \<Rightarrow> bptr list) \<Rightarrow> (bptr \<times> bptr) set" where
  "graph_of succs = {(a, b). b \<in> set (succs a)}"

text \<open>
  \<open>finished R V l V' l'\<close>: the search has gone from \<open>(V, l)\<close> to \<open>(V', l')\<close>; the new nodes are
  listed once, belong to \<open>R\<close>, and all their successors are visited; an edge of a new node leads to
  an older node, to one that is listed earlier, or closes a cycle.
\<close>

definition finished ::
    "(bptr \<Rightarrow> bptr list) \<Rightarrow> bptr set \<Rightarrow> bptr set \<Rightarrow> bptr list \<Rightarrow> bptr set \<Rightarrow> bptr list \<Rightarrow> bool" where
  "finished succs R V l V' l' \<longleftrightarrow>
     (\<exists>new. l' = l @ new \<and> distinct new \<and> V' = V \<union> set new \<and> V \<inter> set new = {} \<and> set new \<subseteq> R \<and>
       (\<forall>xs x ys. new = xs @ x # ys \<longrightarrow>
          (\<forall>y \<in> set (succs x). y \<in> V' \<and> (y \<in> V \<union> set xs \<or> (y, x) \<in> (graph_of succs)\<^sup>*))))"

lemma finished_refl: "finished succs R V l V l"
  by (simp add: finished_def)

lemma finishedE:
  assumes "finished succs R V l V' l'"
  obtains new where "l' = l @ new" and "distinct new" and "V' = V \<union> set new" and "V \<inter> set new = {}" and "set new \<subseteq> R"
    and "\<forall>xs x ys y. new = xs @ x # ys \<longrightarrow> y \<in> set (succs x) \<longrightarrow> y \<in> V' \<and> (y \<in> V \<union> set xs \<or> (y, x) \<in> (graph_of succs)\<^sup>*)"
  using assms unfolding finished_def by blast

lemma finished_trans:
  assumes "finished succs R V l V1 l1" and "finished succs R V1 l1 V2 l2"
  shows "finished succs R V l V2 l2"
proof -
  obtain n1 where 1: "l1 = l @ n1" "distinct n1" "V1 = V \<union> set n1" "V \<inter> set n1 = {}" "set n1 \<subseteq> R"
    "\<forall>xs x ys y. n1 = xs @ x # ys \<longrightarrow> y \<in> set (succs x) \<longrightarrow> y \<in> V1 \<and> (y \<in> V \<union> set xs \<or> (y, x) \<in> (graph_of succs)\<^sup>*)"
    by (rule finishedE [OF assms(1)])
  obtain n2 where 2: "l2 = l1 @ n2" "distinct n2" "V2 = V1 \<union> set n2" "V1 \<inter> set n2 = {}" "set n2 \<subseteq> R"
    "\<forall>xs x ys y. n2 = xs @ x # ys \<longrightarrow> y \<in> set (succs x) \<longrightarrow> y \<in> V2 \<and> (y \<in> V1 \<union> set xs \<or> (y, x) \<in> (graph_of succs)\<^sup>*)"
    by (rule finishedE [OF assms(2)])
  note a3 = 1(3) and a6 = 1(6) and b3 = 2(3) and b6 = 2(6)
  have "y \<in> V2 \<and> (y \<in> V \<union> set xs \<or> (y, x) \<in> (graph_of succs)\<^sup>*)"
    if "n1 @ n2 = xs @ x # ys" "y \<in> set (succs x)" for xs x ys y
  proof -
    from that(1) consider us where "n1 = xs @ x # us" | us where "xs = n1 @ us" "n2 = us @ x # ys"
      by (auto simp: append_eq_append_conv2 Cons_eq_append_conv append_eq_Cons_conv)
    then show ?thesis
    proof cases
      case 1
      with a6 that(2) have "y \<in> V1 \<and> (y \<in> V \<union> set xs \<or> (y, x) \<in> (graph_of succs)\<^sup>*)" by blast
      with b3 show ?thesis by blast
    next
      case 2
      with b6 that(2) have "y \<in> V2 \<and> (y \<in> V1 \<union> set us \<or> (y, x) \<in> (graph_of succs)\<^sup>*)" by blast
      moreover have "V1 \<union> set us = V \<union> set xs" using a3 2(1) by auto
      ultimately show ?thesis by blast
    qed
  qed
  then show ?thesis
    unfolding finished_def using 1(1-5) 2(1-5) by (intro exI [of _ "n1 @ n2"]) auto
qed


lemma finished_mono: "finished succs R V l V' l' \<Longrightarrow> R \<subseteq> S \<Longrightarrow> finished succs S V l V' l'"
  unfolding finished_def by blast

lemma finished_superset: "finished succs R V l V' l' \<Longrightarrow> V \<subseteq> V'"
  unfolding finished_def by blast

definition reach_from :: "(bptr \<Rightarrow> bptr list) \<Rightarrow> bptr \<Rightarrow> bptr set" where
  "reach_from succs b = {x. (b, x) \<in> (graph_of succs)\<^sup>*}"

lemma reach_from_step: "s \<in> set (succs b) \<Longrightarrow> reach_from succs s \<subseteq> reach_from succs b"
  by (auto simp: reach_from_def graph_of_def intro: converse_rtrancl_into_rtrancl)

lemma finished_close:
  assumes f: "finished succs (reach_from succs b) (insert b V) l V' l'" and "b \<notin> V" and "set (succs b) \<subseteq> V'"
  shows "finished succs (reach_from succs b) V l V' (l' @ [b])"
proof -
  obtain n where n: "l' = l @ n" "distinct n" "V' = insert b V \<union> set n" "insert b V \<inter> set n = {}" "set n \<subseteq> reach_from succs b"
    "\<forall>xs x ys y. n = xs @ x # ys \<longrightarrow> y \<in> set (succs x) \<longrightarrow> y \<in> V' \<and> (y \<in> insert b V \<union> set xs \<or> (y, x) \<in> (graph_of succs)\<^sup>*)"
    by (rule finishedE [OF f])
  have "y \<in> V' \<and> (y \<in> V \<union> set xs \<or> (y, x) \<in> (graph_of succs)\<^sup>*)"
    if "n @ [b] = xs @ x # ys" "y \<in> set (succs x)" for xs x ys y
  proof (cases ys rule: rev_cases)
    case Nil
    with that have "x = b" "xs = n" by auto
    with that(2) assms(3) n(3) show ?thesis by auto
  next
    case (snoc zs z)
    with that(1) have x: "n = xs @ x # zs" by simp
    then have "(b, x) \<in> (graph_of succs)\<^sup>*" using n(5) by (auto simp: reach_from_def)
    with n(6) x that(2) show ?thesis by blast
  qed
  moreover have "b \<in> reach_from succs b" by (simp add: reach_from_def)
  ultimately show ?thesis
    unfolding finished_def using n(1-5) assms(2) by (intro exI [of _ "n @ [b]"]) auto
qed

lemma dfs_finished:
  assumes "finite U" and "\<And>x. x \<in> U \<Longrightarrow> set (succs x) \<subseteq> U" and "b \<in> U" and "b \<notin> V" and "card (U - V) \<le> depth"
    and "dfs depth succs b (V, l) = (V', l')"
  shows "finished succs (reach_from succs b) V l V' l' \<and> b \<in> V' \<and> (\<exists>pre. l' = pre @ [b])"
  using assms(3-6)
proof (induction depth arbitrary: b V l V' l')
  case 0
  with assms(1) show ?case by auto
next
  case (Suc depth)
  let ?step = "\<lambda>s (V, l). if s \<in> V then (V, l) else dfs depth succs s (V, l)"
  have loop: "finished succs (reach_from succs b) V1 l1 V2 l2 \<and> set ss \<subseteq> V2"
    if "set ss \<subseteq> set (succs b)" "insert b V \<subseteq> V1" "fold ?step ss (V1, l1) = (V2, l2)" for ss V1 l1 V2 l2
    using that
  proof (induction ss arbitrary: V1 l1)
    case Nil
    then show ?case by (simp add: finished_refl)
  next
    case (Cons s ss)
    obtain Va la where a: "?step s (V1, l1) = (Va, la)" by force
    have "finished succs (reach_from succs b) V1 l1 Va la \<and> s \<in> Va"
    proof (cases "s \<in> V1")
      case True
      with a show ?thesis by (auto simp: finished_refl)
    next
      case False
      have s: "s \<in> set (succs b)" "s \<in> U" using Cons.prems(1) assms(2) Suc.prems(1) by auto
      have "U - V1 \<subseteq> (U - V) - {b}" using Cons.prems(2) by auto
      then have "card (U - V1) \<le> card ((U - V) - {b})" using assms(1) by (intro card_mono) auto
      also have "\<dots> \<le> depth" using Suc.prems(1-3) assms(1) by (simp add: card_Diff_singleton)
      finally have "card (U - V1) \<le> depth" .
      moreover have "dfs depth succs s (V1, l1) = (Va, la)" using a False by simp
      ultimately have "finished succs (reach_from succs s) V1 l1 Va la \<and> s \<in> Va"
        using Suc.IH [OF s(2) False] by blast
      then show ?thesis using finished_mono [OF _ reach_from_step [of s succs b, OF s(1)]] by blast
    qed
    then have 1: "finished succs (reach_from succs b) V1 l1 Va la" and s: "s \<in> Va" by blast+
    have "finished succs (reach_from succs b) Va la V2 l2 \<and> set ss \<subseteq> V2"
    proof (rule Cons.IH)
      show "insert b V \<subseteq> Va" using Cons.prems(2) finished_superset [OF 1] by blast
      show "fold ?step ss (Va, la) = (V2, l2)" using Cons.prems(3) by (simp only: fold.simps comp_apply a)
    qed (use Cons.prems(1) in simp)
    then have 2: "finished succs (reach_from succs b) Va la V2 l2" and ss: "set ss \<subseteq> V2" by blast+
    show ?case using finished_trans [OF 1 2] ss s finished_superset [OF 2] by auto
  qed
  obtain V2 l2 where f: "fold ?step (succs b) (insert b V, l) = (V2, l2)" by force
  then have res: "V' = V2" "l' = l2 @ [b]" using Suc.prems(4) by (simp_all add: Let_def)
  note L = loop [OF subset_refl subset_refl f]
  have "finished succs (reach_from succs b) V l V2 (l2 @ [b])"
    using L Suc.prems(2) by (intro finished_close) auto
  moreover have "b \<in> V2" using L finished_superset by blast
  ultimately show ?case by (simp add: res)
qed

text \<open>A search from scratch lists exactly the reachable nodes, each once, the start last.\<close>

lemma dfs_reachable:
  assumes "finite U" and "\<And>x. x \<in> U \<Longrightarrow> set (succs x) \<subseteq> U" and "b \<in> U" and "card U \<le> depth"
    and "dfs depth succs b ({}, []) = (V', l')"
  shows "set l' = reach_from succs b" and "distinct l'" and "V' = set l'" and "\<exists>pre. l' = pre @ [b]"
    and "\<And>xs x ys y. l' = xs @ x # ys \<Longrightarrow> y \<in> set (succs x) \<Longrightarrow> y \<in> set xs \<or> (y, x) \<in> (graph_of succs)\<^sup>*"
proof -
  note D = dfs_finished [OF assms(1,2,3) _ _ assms(5)]
  have D': "finished succs (reach_from succs b) {} [] V' l'" "b \<in> V'" "\<exists>pre. l' = pre @ [b]"
    using D assms(4) by auto
  obtain "distinct l'" and V: "V' = set l'" "set l' \<subseteq> reach_from succs b"
    and e: "\<forall>xs x ys y. l' = xs @ x # ys \<longrightarrow> y \<in> set (succs x) \<longrightarrow> y \<in> V' \<and> (y \<in> set xs \<or> (y, x) \<in> (graph_of succs)\<^sup>*)"
    using finishedE [OF D'(1)] by (metis append_Nil sup_bot_left)
  then show "distinct l'" by simp
  show "V' = set l'" "\<exists>pre. l' = pre @ [b]" using V D'(3) by auto
  show "y \<in> set xs \<or> (y, x) \<in> (graph_of succs)\<^sup>*" if "l' = xs @ x # ys" "y \<in> set (succs x)" for xs x ys y
    using e that by blast
  have "x \<in> V'" if "(b, x) \<in> (graph_of succs)\<^sup>*" for x
    using that
  proof (induction rule: rtrancl_induct)
    case (step y z)
    then have "y \<in> set l'" using V by simp
    then obtain xs ys where "l' = xs @ y # ys" by (auto dest: split_list)
    with e step.hyps(2) show ?case by (auto simp: graph_of_def)
  qed (rule D'(2))
  then show "set l' = reach_from succs b" using V by (auto simp: reach_from_def)
qed


lemma dfs_superset: "V \<subseteq> fst (dfs depth succs b (V, l))"
proof (induction depth arbitrary: b V l)
  case (Suc depth)
  have "V1 \<subseteq> fst (fold (\<lambda>s (V, l). if s \<in> V then (V, l) else dfs depth succs s (V, l)) ss (V1, l1))" for ss V1 l1
  proof (induction ss arbitrary: V1 l1)
    case (Cons s ss)
    obtain Va la where a: "(if s \<in> V1 then (V1, l1) else dfs depth succs s (V1, l1)) = (Va, la)" by force
    then have "V1 \<subseteq> Va" using Suc.IH [of V1 s l1] by (auto split: if_split_asm)
    with Cons.IH [of Va la] a show ?case by auto
  qed simp
  from this [of "insert b V" "succs b" l] show ?case by (auto simp: split_beta Let_def)
qed simp

section \<open>The traversal of the heap refines the abstract one\<close>

definition visits :: "Marker \<Rightarrow> (bptr \<Rightarrow> bptr list) \<Rightarrow> bptr set \<Rightarrow> heap \<Rightarrow> bool" where
  "visits visited succs V h \<longleftrightarrow>
     cfg_ok h \<and> succs_of h = succs \<and> (\<forall>b. block_marked visited b h = Ok (b \<in> V))"

lemma SetMarker_of_Ok:
  assumes "IsMarkerSet mark ms = Ok w"
  shows "SetMarker mark ms = Ok (\<not> w, ms[marker_slot mark := marker_value mark])"
  using assms by (auto simp: IsMarkerSet_def SetMarker_def Let_def res_simps)

lemma IsMarkerSet_after:
  assumes "IsMarkerSet mark ms = Ok w"
  shows "IsMarkerSet mark (ms[marker_slot mark := marker_value mark]) = Ok True"
  using assms by (auto simp: IsMarkerSet_def Let_def res_simps)

lemma mark_block_visits:
  assumes "visits visited succs V h"
  obtains h' where "mark_block visited b h = Ok (b \<notin> V, h')" and "visits visited succs (insert b V) h'"
    and "h' = upd_b b (\<lambda>x. x\<lparr>b_markers := b_markers (h_b h' b)\<rparr>) h"
proof -
  have m: "IsMarkerSet visited (b_markers (h_b h c)) = Ok (c \<in> V)" for c
    using assms by (simp add: visits_def block_marked_def)
  let ?ms = "(b_markers (h_b h b))[marker_slot visited := marker_value visited]"
  let ?h = "upd_b b (\<lambda>x. x\<lparr>b_markers := ?ms\<rparr>) h"
  have same: "same_cfg h ?h" by (simp add: same_cfg_upd_b)
  show thesis
  proof (rule that [of ?h])
    show "mark_block visited b h = Ok (b \<notin> V, ?h)"
      by (simp add: mark_block_def SetMarker_of_Ok [OF m])
    show "visits visited succs (insert b V) ?h"
      using assms same_cfg_ok [OF same] same m IsMarkerSet_after [OF m]
      by (auto simp: visits_def same_cfg_def block_marked_def)
  qed simp
qed

text \<open>
  What a traversal asks of its callback: it appends the block to the list it builds, and keeps
  the marks and the edges the traversal relies on.
\<close>

locale traversal_client =
  fixes callback :: "bptr list callback"
    and visited :: Marker
    and inv :: "bptr list \<Rightarrow> heap \<Rightarrow> bool"
  assumes mark_inv: "inv l h \<Longrightarrow> mark_block visited b h = Ok (w, h') \<Longrightarrow> inv l h'"
    and callback_step: "inv l h \<Longrightarrow> visits visited succs V h \<Longrightarrow>
      \<exists>h'. callback b (l, h) = Ok (l @ [b], h') \<and> inv (l @ [b]) h' \<and> visits visited succs V h'"
begin

lemma traverse_refines:
  assumes "finite U" and "\<And>x. x \<in> U \<Longrightarrow> set (succs x) \<subseteq> U"
    and "inv l h" and "visits visited succs V h" and "b \<in> U" and "b \<notin> V" and "card (U - V) \<le> depth"
    and "dfs depth succs b (V, l) = (V', l')"
  shows "\<exists>h'. traverseImpl depth visited callback b (c, l, h) = Ok (c + length l' - length l, l', h') \<and>
    length l \<le> length l' \<and> inv l' h' \<and> visits visited succs V' h'"
  using assms(3-)
proof (induction depth arbitrary: b V l h c V' l')
  case 0
  with assms(1) show ?case by auto
next
  case (Suc depth)
  let ?step = "\<lambda>s (V, l). if s \<in> V then (V, l) else dfs depth succs s (V, l)"
  let ?body = "\<lambda>succ (visitedCounter, s, h).
      ASSERT (HasPredecessor b (h_b h succ))
        (rbind (block_marked visited succ h) (\<lambda>isSet.
         if isSet then Ok (visitedCounter, s, h)
         else traverseImpl depth visited callback succ (visitedCounter, s, h)))"
  have loop: "\<exists>h2. for_each ?body ss (c1, l1, h1) = Ok (c1 + length l2 - length l1, l2, h2) \<and>
      length l1 \<le> length l2 \<and> inv l2 h2 \<and> visits visited succs V2 h2"
    if "set ss \<subseteq> set (succs b)" "insert b V \<subseteq> V1" "fold ?step ss (V1, l1) = (V2, l2)" "inv l1 h1" "visits visited succs V1 h1"
    for ss V1 l1 V2 l2 h1 c1
    using that
  proof (induction ss arbitrary: V1 l1 h1 c1)
    case Nil
    then show ?case by simp
  next
    case (Cons s ss)
    obtain Va la where a: "?step s (V1, l1) = (Va, la)" by force
    have s: "s \<in> set (succs b)" "s \<in> U" using Cons.prems(1) assms(2) Suc.prems(3) by auto
    have "HasPredecessor b (h_b h1 s)"
      using Cons.prems(5) s(1) cfg_okD(1) [of h1 s b]
      by (auto simp: visits_def HasPredecessor_def preds_of_def index_of_absent)
    moreover have "block_marked visited s h1 = Ok (s \<in> V1)" using Cons.prems(5) by (simp add: visits_def)
    ultimately have body: "?body s (c1, l1, h1) =
        (if s \<in> V1 then Ok (c1, l1, h1) else traverseImpl depth visited callback s (c1, l1, h1))"
      by simp
    have "\<exists>ha. ?body s (c1, l1, h1) = Ok (c1 + length la - length l1, la, ha) \<and>
        length l1 \<le> length la \<and> inv la ha \<and> visits visited succs Va ha \<and> V1 \<subseteq> Va"
    proof (cases "s \<in> V1")
      case True
      with a body Cons.prems show ?thesis by auto
    next
      case False
      have "U - V1 \<subseteq> (U - V) - {b}" using Cons.prems(2) by auto
      then have "card (U - V1) \<le> card ((U - V) - {b})" using assms(1) by (intro card_mono) auto
      also have "\<dots> \<le> depth" using Suc.prems(3-5) assms(1) by (simp add: card_Diff_singleton)
      finally have "card (U - V1) \<le> depth" .
      moreover have dl: "dfs depth succs s (V1, l1) = (Va, la)" using a False by simp
      ultimately show ?thesis
        using Suc.IH [OF Cons.prems(4,5) s(2) False _ dl, of c1] dfs_superset [of V1 depth succs s l1] False body by simp
    qed
    then obtain ha where ha: "?body s (c1, l1, h1) = Ok (c1 + length la - length l1, la, ha)"
      "length l1 \<le> length la" "inv la ha" "visits visited succs Va ha" "V1 \<subseteq> Va"
      by blast
    have "\<exists>h2. for_each ?body ss (c1 + length la - length l1, la, ha) =
        Ok (c1 + length la - length l1 + length l2 - length la, l2, h2) \<and> length la \<le> length l2 \<and> inv l2 h2 \<and> visits visited succs V2 h2"
    proof (rule Cons.IH [OF _ _ _ ha(3,4)])
      show "fold ?step ss (Va, la) = (V2, l2)" using Cons.prems(3) by (simp only: fold.simps comp_apply a)
    qed (use Cons.prems(1,2) ha(5) in auto)
    then show ?case using ha(1,2) by auto
  qed
  obtain h1 where h1: "mark_block visited b h = Ok (b \<notin> V, h1)" "visits visited succs (insert b V) h1"
    using mark_block_visits [OF Suc.prems(2)] by metis
  have inv1: "inv l h1" by (rule mark_inv [OF Suc.prems(1) h1(1)])
  have sb: "b_succs (h_b h1 b) = succs b" using h1(2) by (auto simp: visits_def succs_of_def)
  obtain V2 l2 where f: "fold ?step (succs b) (insert b V, l) = (V2, l2)" by force
  obtain h2 where h2: "for_each ?body (succs b) (Suc c, l, h1) = Ok (Suc c + length l2 - length l, l2, h2)"
    "length l \<le> length l2" "inv l2 h2" "visits visited succs V2 h2"
    using loop [OF subset_refl subset_refl f inv1 h1(2)] by blast
  obtain h3 where h3: "callback b (l2, h2) = Ok (l2 @ [b], h3)" "inv (l2 @ [b]) h3" "visits visited succs V2 h3"
    using callback_step [OF h2(3,4)] by blast
  have res: "V' = V2" "l' = l2 @ [b]" using Suc.prems(6) f by (simp_all add: Let_def)
  show ?case
    using h1(1) sb h2(1,2) h3 by (simp add: res)
qed

end


section \<open>The reverse post-order\<close>

text \<open>
  Markers in order: the manager has \<open>L\<close> in use, every block has four slots and no serial number
  the manager has not reached.
\<close>

definition marks_ok :: "gptr \<Rightarrow> Marker set \<Rightarrow> heap \<Rightarrow> bool" where
  "marks_ok graph L h \<longleftrightarrow>
     manager_ok (g_markers (h_g h graph)) L \<and>
     (\<forall>b. markers_ok (currentIndex (g_markers (h_g h graph))) (b_markers (h_b h b)))"

definition erase_marks :: "heap \<Rightarrow> heap" where
  "erase_marks h =
     h\<lparr>h_b := \<lambda>b. (h_b h b)\<lparr>b_markers := []\<rparr>, h_g := \<lambda>g. (h_g h g)\<lparr>g_markers := MarkerManager_init\<rparr>\<rparr>"

lemma erase_marks_upd [simp]:
  "erase_marks (upd_b b (\<lambda>x. x\<lparr>b_markers := ms\<rparr>) h) = erase_marks h"
  "erase_marks (upd_g g (\<lambda>x. x\<lparr>g_markers := m\<rparr>) h) = erase_marks h"
  "erase_marks (upd_g g (\<lambda>x. x\<lparr>g_markers := k x\<rparr>) h) = erase_marks h"
  by (auto simp: erase_marks_def upd_b_def upd_g_def fun_eq_iff)

lemma erase_marksD:
  assumes "erase_marks h' = erase_marks h"
  shows "succs_of h' = succs_of h" and "preds_of h' = preds_of h" and "h_i h' = h_i h" and "h_l h' = h_l h"
    and "h_new_b h' = h_new_b h" and "g_bblocks (h_g h' g) = g_bblocks (h_g h g)"
    and "g_unlinkedInstructionsCounter (h_g h' g) = g_unlinkedInstructionsCounter (h_g h g)"
    and "g_firstBlock (h_g h' g) = g_firstBlock (h_g h g)" and "g_valid (h_g h' g) = g_valid (h_g h g)"
proof -
  have "h_b (erase_marks h') b = h_b (erase_marks h) b" "h_g (erase_marks h') g = h_g (erase_marks h) g" for b g
    using assms by simp_all
  then have eq: "(h_b h' b)\<lparr>b_markers := []\<rparr> = (h_b h b)\<lparr>b_markers := []\<rparr>"
    "(h_g h' g)\<lparr>g_markers := MarkerManager_init\<rparr> = (h_g h g)\<lparr>g_markers := MarkerManager_init\<rparr>" for b g
    by (simp_all add: erase_marks_def)
  have b: "b_succs (h_b h' b) = b_succs (h_b h b)" "b_preds (h_b h' b) = b_preds (h_b h b)" for b
    using arg_cong [OF eq(1), of b_succs b] arg_cong [OF eq(1), of b_preds b] by simp_all
  show "succs_of h' = succs_of h" "preds_of h' = preds_of h"
    using b by (simp_all add: succs_of_def preds_of_def fun_eq_iff)
  show "g_bblocks (h_g h' g) = g_bblocks (h_g h g)"
    "g_unlinkedInstructionsCounter (h_g h' g) = g_unlinkedInstructionsCounter (h_g h g)"
    "g_firstBlock (h_g h' g) = g_firstBlock (h_g h g)" "g_valid (h_g h' g) = g_valid (h_g h g)"
    using arg_cong [OF eq(2), of g_bblocks g] arg_cong [OF eq(2), of g_unlinkedInstructionsCounter g]
      arg_cong [OF eq(2), of g_firstBlock g] arg_cong [OF eq(2), of g_valid g] by simp_all
  show "h_i h' = h_i h" "h_l h' = h_l h" "h_new_b h' = h_new_b h"
    using arg_cong [OF assms, of h_i] arg_cong [OF assms, of h_l] arg_cong [OF assms, of h_new_b]
    by (simp_all add: erase_marks_def)
qed

lemma cfg_ok_erase: "erase_marks h' = erase_marks h \<Longrightarrow> cfg_ok h' = cfg_ok h"
  by (rule same_cfg_ok) (simp add: same_cfg_def erase_marksD(1,2) [of h' h])

lemma new_marker_ok:
  assumes "marks_ok graph L h" and "new_marker graph h = Ok (mark, h')"
  shows "marks_ok graph (insert mark L) h'" and "mark \<notin> L" and "erase_marks h' = erase_marks h"
    and "block_marked mark b h' = Ok False" and "unat (marker_value mark) \<le> currentIndex (g_markers (h_g h' graph))"
proof -
  obtain m where m: "GetNewMarker (g_markers (h_g h graph)) = Ok (mark, m)" and h': "h' = upd_g graph (\<lambda>x. x\<lparr>g_markers := m\<rparr>) h"
    using assms(2) by (auto simp: new_marker_def res_simps)
  note F = GetNewMarker_fresh [OF _ m]
  have M: "manager_ok (g_markers (h_g h graph)) L" "markers_ok (currentIndex (g_markers (h_g h graph))) (b_markers (h_b h b))" for b
    using assms(1) by (simp_all add: marks_ok_def)
  have le: "currentIndex (g_markers (h_g h graph)) \<le> currentIndex m"
    using m by (auto simp: GetNewMarker_def Let_def res_simps split: option.splits)
  show "marks_ok graph (insert mark L) h'"
    using F(1) [OF M(1)] M(2) le by (fastforce simp: marks_ok_def h' markers_ok_def)
  show "mark \<notin> L" by (rule F(2) [OF M(1)])
  show "erase_marks h' = erase_marks h" by (simp add: h')
  show "block_marked mark b h' = Ok False"
    using F(3) [OF M(1) M(2)] by (simp add: block_marked_def h')
  show "unat (marker_value mark) \<le> currentIndex (g_markers (h_g h' graph))"
    using F(1) [OF M(1)] by (simp add: h' manager_ok_def)
qed

lemma release_marker_ok:
  assumes "marks_ok graph (insert mark L) h" and "mark \<notin> L"
  shows "marks_ok graph L (release_marker mark graph h)" and "erase_marks (release_marker mark graph h) = erase_marks h"
  using assms ReleaseMarker_ok [of "g_markers (h_g h graph)" "insert mark L" mark]
  by (auto simp: marks_ok_def release_marker_def ReleaseMarker_def)

lemma mark_block_ok:
  assumes "marks_ok graph L h" and "mark \<in> L"
  shows "\<exists>w h'. mark_block mark b h = Ok (w, h') \<and> marks_ok graph L h' \<and> erase_marks h' = erase_marks h"
proof -
  have "unat (marker_value mark) \<le> currentIndex (g_markers (h_g h graph))"
    using assms by (simp add: marks_ok_def manager_ok_def)
  then obtain w ms where ms: "SetMarker mark (b_markers (h_b h b)) = Ok (w, ms)" "markers_ok (currentIndex (g_markers (h_g h graph))) ms"
    using SetMarker_Ok assms(1) by (metis marks_ok_def)
  with assms(1) show ?thesis
    by (auto simp: mark_block_def marks_ok_def)
qed

interpretation rpo_client: traversal_client "\<lambda>bblock (result, h). Ok (result @ [bblock], h)" visited
    "\<lambda>_ h. marks_ok graph L h \<and> erase_marks h = erase_marks h0 \<and> visited \<in> L" for visited graph L h0
proof
  fix l h b w h'
  assume "marks_ok graph L h \<and> erase_marks h = erase_marks h0 \<and> visited \<in> L" and "mark_block visited b h = Ok (w, h')"
  then show "marks_ok graph L h' \<and> erase_marks h' = erase_marks h0 \<and> visited \<in> L"
    using mark_block_ok [of graph L h visited b] by auto
qed auto


text \<open>
  The blocks of a graph: every edge stays within the allocated blocks.
\<close>

definition edges_allocated :: "heap \<Rightarrow> bool" where
  "edges_allocated h \<longleftrightarrow> (\<forall>(a, b) \<in> edges h. b < h_new_b h)"

definition reachable_blocks :: "bptr \<Rightarrow> heap \<Rightarrow> bptr set" where
  "reachable_blocks first h = {b. (first, b) \<in> (edges h)\<^sup>*}"

lemma graph_of_edges: "graph_of (succs_of h) = edges h"
  by (simp add: graph_of_def edges_def)

text \<open>
  What a traversal with a new marker does: it fails to get a marker, or lists the reachable blocks
  in post-order.
\<close>

definition post_order :: "bptr \<Rightarrow> heap \<Rightarrow> bptr list \<Rightarrow> bool" where
  "post_order first h l \<longleftrightarrow>
     set l = reachable_blocks first h \<and> distinct l \<and> (\<exists>pre. l = pre @ [first]) \<and>
     (\<forall>xs x ys y. l = xs @ x # ys \<longrightarrow> (x, y) \<in> edges h \<longrightarrow> y \<in> set xs \<or> (y, x) \<in> (edges h)\<^sup>*)"

lemma abstract_post_order:
  assumes "edges_allocated h" and "first < h_new_b h"
  obtains l where "dfs (h_new_b h) (succs_of h) first ({}, []) = (set l, l)" and "post_order first h l"
proof -
  obtain V l where d: "dfs (h_new_b h) (succs_of h) first ({}, []) = (V, l)" by force
  note R = dfs_reachable [of "{..<h_new_b h}", OF _ _ _ _ d]
  have "x < h_new_b h \<Longrightarrow> set (succs_of h x) \<subseteq> {..<h_new_b h}" for x
    using assms(1) by (auto simp: edges_allocated_def edges_def)
  then have "V = set l" "post_order first h l"
    using R assms(2) by (auto simp: post_order_def reach_from_def reachable_blocks_def graph_of_edges edges_def [of h])
  with d that show thesis by simp
qed

lemma erase_edges: "erase_marks h' = erase_marks h \<Longrightarrow> edges h' = edges h"
  by (simp add: edges_def erase_marksD(1) [of h' h])

lemma doTraverse_rpo:
  assumes "cfg_ok h" and "edges_allocated h" and "first < h_new_b h" and "marks_ok graph L h"
    and "new_marker graph h = Ok (mark, h1)"
  obtains l h' where "doTraverse (\<lambda>bblock (result, h). Ok (result @ [bblock], h)) graph (Some first) ([], h) = Ok (length l, l, h')"
    and "post_order first h l" and "marks_ok graph L h'" and "erase_marks h' = erase_marks h"
proof -
  note N = new_marker_ok [OF assms(4,5)]
  obtain l where l: "dfs (h_new_b h) (succs_of h) first ({}, []) = (set l, l)" "post_order first h l"
    using abstract_post_order [OF assms(2,3)] .
  note E = erase_marksD [OF N(3)]
  have v: "visits mark (succs_of h) {} h1"
    using assms(1) N(4) cfg_ok_erase [OF N(3)] E(1) by (simp add: visits_def)
  have succs: "set (succs_of h x) \<subseteq> {..<h_new_b h}" if "x \<in> {..<h_new_b h}" for x
    using assms(2) that by (auto simp: edges_allocated_def edges_def)
  have d: "dfs (h_new_b h1) (succs_of h) first ({}, []) = (set l, l)" using l(1) E(5) by simp
  obtain h2 where h2: "traverseImpl (h_new_b h1) mark (\<lambda>bblock (result, h). Ok (result @ [bblock], h)) first (0, [], h1) = Ok (length l, l, h2)"
    "marks_ok graph (insert mark L) h2" "erase_marks h2 = erase_marks h1"
    using rpo_client.traverse_refines [where U = "{..<h_new_b h}" and visited = mark and graph = graph and L = "insert mark L"
        and ?h0.0 = h1 and c = 0, OF _ succs _ v _ _ _ d] N(1) assms(3) E(5) by auto
  note R = release_marker_ok [OF h2(2) N(2)]
  have "doTraverse (\<lambda>bblock (result, h). Ok (result @ [bblock], h)) graph (Some first) ([], h) =
      Ok (length l, l, release_marker mark graph h2)"
    using assms(5) h2(1) by (simp add: doTraverse_def)
  then show thesis using that l(2) R h2(3) N(3) by simp
qed

text \<open>
  \<open>DoRPO\<close> returns the reverse post-order when every block of the graph is reachable, and stops the
  program otherwise.
\<close>

lemma DoRPO_correct:
  assumes "cfg_ok h" and "edges_allocated h" and "first < h_new_b h" and "marks_ok graph L h"
    and "new_marker graph h \<noteq> Err AssertionFail" and "g_firstBlock (h_g h graph) = Some first"
    and "GetBasicBlocksCount (h_g h graph) > 0"
  obtains l h' where "post_order first h l" and "marks_ok graph L h'" and "erase_marks h' = erase_marks h"
    and "DoRPO graph h =
      (if card (reachable_blocks first h) = GetBasicBlocksCount (h_g h graph) then Ok (rev l, h') else Err AssertionFail)"
proof -
  have "\<exists>mark h1. new_marker graph h = Ok (mark, h1)"
  proof (cases "GetNewMarker (g_markers (h_g h graph))")
    case (Err e)
    with assms(5) show ?thesis by (cases e) (simp add: new_marker_def)
  qed (auto simp: new_marker_def GetNewMarker_def ASSERT_def Let_def split: if_split_asm option.splits)
  then obtain mark h1 where m: "new_marker graph h = Ok (mark, h1)" by blast
  obtain l h' where l: "doTraverse (\<lambda>bblock (result, h). Ok (result @ [bblock], h)) graph (Some first) ([], h) = Ok (length l, l, h')"
    "post_order first h l" "marks_ok graph L h'" "erase_marks h' = erase_marks h"
    using doTraverse_rpo [OF assms(1-4) m] .
  have "length l = card (reachable_blocks first h)"
    using l(2) distinct_card [of l] by (simp add: post_order_def)
  moreover have "GetBasicBlocksCount (h_g h' graph) = GetBasicBlocksCount (h_g h graph)"
    using erase_marksD(6,7) [OF l(4), of graph] by (simp add: GetBasicBlocksCount_def)
  ultimately have "DoRPO graph h =
      (if card (reachable_blocks first h) = GetBasicBlocksCount (h_g h graph) then Ok (rev l, h') else Err AssertionFail)"
    using assms(6,7) l(1) by (simp add: DoRPO_def Traverse_def ASSERT_def)
  with l that show thesis by blast
qed

end
