(* ===== verification/JIT_Peephole.thy ===== *)
theory JIT_Peephole
  imports JIT_Builder JIT_Traverse
begin

text \<open>
  Constant folding (\<open>optimization/ConstantFolding.cpp\<close>) and the peephole pass
  (\<open>optimization/Peephole.cpp\<close>).  A pass is given its graph; \<open>GetInstructionBuilder()\<close> of a graph is
  identified with the graph.
\<close>

text \<open>A loop over a block's instructions that carries a state besides the heap.\<close>

definition iter_with ::
    "iptr option \<Rightarrow> (iptr \<Rightarrow> 's \<times> heap \<Rightarrow> (abort, 's \<times> heap) res) \<Rightarrow> 's \<times> heap \<Rightarrow> (abort, 's \<times> heap) res" where
  "iter_with start body st =
     rbind
       (while_do (\<lambda>(cur, s, h). cur \<noteq> None)
         (\<lambda>(cur, s, h). deref cur (\<lambda>c. rbind (body c (s, h)) (\<lambda>(s, h). Ok (i_next (h_i h c), s, h))))
         (start, st))
       (\<lambda>(cur, st). Ok st)"

definition IsConst_at :: "iptr option \<Rightarrow> heap \<Rightarrow> (abort, bool) res" where
  "IsConst_at p h = deref p (\<lambda>i. Ok (IsConst (h_i h i)))"

definition opcode_at :: "iptr option \<Rightarrow> heap \<Rightarrow> (abort, Opcode) res" where
  "opcode_at p h = deref p (\<lambda>i. Ok (i_opcode (h_i h i)))"

text \<open>\<open>input->AsConst()->GetValue()\<close>\<close>

definition const_value :: "iptr option \<Rightarrow> heap \<Rightarrow> (abort, u64) res" where
  "const_value p h = deref p (\<lambda>i. ASSERT (IsConst (h_i h i)) (Ok (i_value (h_i h i))))"

definition remove_user :: "iptr option \<Rightarrow> iptr \<Rightarrow> heap_step" where
  "remove_user p instr h = deref p (\<lambda>i. on_instr i (RemoveUser instr) h)"

definition add_user :: "iptr option \<Rightarrow> iptr \<Rightarrow> heap_step" where
  "add_user p instr h = deref p (\<lambda>i. on_instr i (AddUser (Some instr)) h)"

definition replace_user :: "iptr option \<Rightarrow> iptr \<Rightarrow> iptr \<Rightarrow> heap_step" where
  "replace_user p oldInstr newInstr h = deref p (\<lambda>i. on_instr i (ReplaceUser oldInstr newInstr) h)"

section \<open>Constant folding\<close>

definition ReplaceWithConst :: "iptr \<Rightarrow> iptr \<Rightarrow> heap_step" where
  "ReplaceWithConst instr targetConst h =
     rbind (ReplaceInputInUsers (Some targetConst) instr h) (\<lambda>h.
     deref (i_parent (h_i h instr)) (\<lambda>bblock.
     rbind (UnlinkInstruction instr bblock h) (\<lambda>h.
     deref (b_graph (h_b h bblock)) (\<lambda>graph.
     case g_firstBlock (h_g h graph) of
       None \<Rightarrow> Err AssertionFail
     | Some firstBlock \<Rightarrow> PushBackInstruction targetConst firstBlock h))))"

definition getInstructionBuilder :: "iptr \<Rightarrow> heap \<Rightarrow> (abort, gptr) res" where
  "getInstructionBuilder instr h =
     deref (i_parent (h_i h instr)) (\<lambda>bblock. deref (b_graph (h_b h bblock)) Ok)"

text \<open>The part the three methods share: fold when both inputs are constants.\<close>

definition fold_consts ::
    "(OperandType \<Rightarrow> u64 \<Rightarrow> u64 \<Rightarrow> (abort, u64) res) \<Rightarrow> iptr \<Rightarrow> heap \<Rightarrow> (abort, bool \<times> heap) res" where
  "fold_consts op instr h =
     rbind (GetInput 0 (h_i h instr)) (\<lambda>input1.
     rbind (GetInput 1 (h_i h instr)) (\<lambda>input2.
     rbind (IsConst_at input1 h) (\<lambda>c1.
     rbind (if c1 then IsConst_at input2 h else Ok False) (\<lambda>both.
     if both then
       rbind (const_value input1 h) (\<lambda>v1.
       rbind (const_value input2 h) (\<lambda>v2.
       rbind (op (i_type (h_i h instr)) v1 v2) (\<lambda>value.
       rbind (getInstructionBuilder instr h) (\<lambda>builder.
       rbind (CreateCONST (i_type (h_i h instr)) value builder h) (\<lambda>(newInstr, h).
       rbind (remove_user input1 instr h) (\<lambda>h.
       rbind (remove_user input2 instr h) (\<lambda>h.
       rbind (ReplaceWithConst instr newInstr h) (\<lambda>h. Ok (True, h)))))))))
     else Ok (False, h)))))"

definition Fold_ProcessAND :: "iptr \<Rightarrow> heap \<Rightarrow> (abort, bool \<times> heap) res" where
  "Fold_ProcessAND instr h =
     ASSERT (i_opcode (h_i h instr) = Op_AND) (fold_consts (\<lambda>_ v1 v2. Ok (v1 AND v2)) instr h)"

text \<open>A shift of an \<open>int64_t\<close> by 64 or more is undefined.\<close>

definition sra_value :: "OperandType \<Rightarrow> u64 \<Rightarrow> u64 \<Rightarrow> (abort, u64) res" where
  "sra_value type v1 v2 =
     (if unat v2 < 64 then Ok (signed_drop_bit (unat v2) (ToSigned v1 type)) else UB)"

definition Fold_ProcessSRA :: "iptr \<Rightarrow> heap \<Rightarrow> (abort, bool \<times> heap) res" where
  "Fold_ProcessSRA instr h =
     ASSERT (i_opcode (h_i h instr) = Op_SRA) (fold_consts sra_value instr h)"

definition Fold_ProcessSUB :: "iptr \<Rightarrow> heap \<Rightarrow> (abort, bool \<times> heap) res" where
  "Fold_ProcessSUB instr h =
     ASSERT (i_opcode (h_i h instr) = Op_SUB) (fold_consts (\<lambda>_ v1 v2. Ok (v1 - v2)) instr h)"

section \<open>Peepholes\<close>

definition replaceWithoutNewInstr :: "iptr \<Rightarrow> iptr option \<Rightarrow> heap_step" where
  "replaceWithoutNewInstr instr replacedInstr h =
     rbind (ReplaceInputInUsers replacedInstr instr h) (\<lambda>h.
     deref (i_parent (h_i h instr)) (\<lambda>bblock.
     rbind (UnlinkInstruction instr bblock h) (\<lambda>h.
     rbind (GetInput 0 (h_i h instr)) (\<lambda>in0. rbind (remove_user in0 instr h) (\<lambda>h.
     rbind (GetInput 1 (h_i h instr)) (\<lambda>in1. remove_user in1 instr h))))))"

definition parent_ReplaceInstruction :: "iptr \<Rightarrow> iptr \<Rightarrow> heap_step" where
  "parent_ReplaceInstruction instr newInstr h =
     deref (i_parent (h_i h instr)) (\<lambda>bblock. ReplaceInstruction instr newInstr bblock h)"

definition tryConstantAND :: "iptr \<Rightarrow> iptr option \<Rightarrow> iptr option \<Rightarrow> heap \<Rightarrow> (abort, bool \<times> heap) res" where
  "tryConstantAND instr checked second h =
     rbind (IsConst_at checked h) (\<lambda>c.
     if c then
       deref checked (\<lambda>inputInstr.
       ASSERT (i_type (h_i h inputInstr) = i_type (h_i h instr))
         (if i_value (h_i h inputInstr) = 0 then
            rbind (replaceWithoutNewInstr instr (Some inputInstr) h) (\<lambda>h. Ok (True, h))
          else
            rbind (GetMaxValue (i_type (h_i h instr))) (\<lambda>maxValue.
            if i_value (h_i h inputInstr) = maxValue then
              rbind (replaceWithoutNewInstr instr second h) (\<lambda>h. Ok (True, h))
            else Ok (False, h))))
     else Ok (False, h))"

definition tryANDAfterNOT :: "iptr \<Rightarrow> gptr \<Rightarrow> heap \<Rightarrow> (abort, bool \<times> heap) res" where
  "tryANDAfterNOT instr graph h =
     rbind (GetInput 0 (h_i h instr)) (\<lambda>input1.
     rbind (GetInput 1 (h_i h instr)) (\<lambda>input2.
     deref input1 (\<lambda>i1. deref input2 (\<lambda>i2.
     if i_opcode (h_i h i1) = Op_NOT \<and> i_opcode (h_i h i2) = Op_NOT
         \<and> UsersCount (h_i h i1) = 1 \<and> UsersCount (h_i h i2) = 1 then
       rbind (GetInput 0 (h_i h i1)) (\<lambda>not1Arg.
       rbind (GetInput 0 (h_i h i2)) (\<lambda>not2Arg.
       rbind (CreateOR (i_type (h_i h instr)) not1Arg not2Arg graph h) (\<lambda>(orInstr, h).
       rbind (replace_user not1Arg i1 orInstr h) (\<lambda>h.
       rbind (replace_user not2Arg i2 orInstr h) (\<lambda>h.
       deref (i_parent (h_i h instr)) (\<lambda>bblock.
       rbind (UnlinkInstruction i1 bblock h) (\<lambda>h.
       rbind (UnlinkInstruction i2 bblock h) (\<lambda>h.
       rbind (InsertBefore instr orInstr bblock h) (\<lambda>h.
       rbind (CreateNOT (i_type (h_i h instr)) (Some orInstr) graph h) (\<lambda>(notInstr, h).
       rbind (add_user (Some orInstr) notInstr h) (\<lambda>h.
       rbind (remove_user input1 instr h) (\<lambda>h.
       rbind (remove_user input2 instr h) (\<lambda>h.
       rbind (parent_ReplaceInstruction instr notInstr h) (\<lambda>h.
       Ok (True, h)))))))))))))))
     else Ok (False, h)))))"

definition tryANDRepeatedArgs :: "iptr \<Rightarrow> heap \<Rightarrow> (abort, bool \<times> heap) res" where
  "tryANDRepeatedArgs instr h =
     rbind (GetInput 0 (h_i h instr)) (\<lambda>input1.
     rbind (GetInput 1 (h_i h instr)) (\<lambda>input2.
     if input1 = input2 then rbind (replaceWithoutNewInstr instr input1 h) (\<lambda>h. Ok (True, h))
     else Ok (False, h)))"

definition trySequencedSRA :: "iptr \<Rightarrow> gptr \<Rightarrow> heap \<Rightarrow> (abort, bool \<times> heap) res" where
  "trySequencedSRA instr graph h =
     rbind (GetInput 0 (h_i h instr)) (\<lambda>base.
     deref base (\<lambda>b.
     if i_opcode (h_i h b) = Op_SRA then
       rbind (GetInput 0 (h_i h b)) (\<lambda>base2.
       rbind (GetInput 1 (h_i h instr)) (\<lambda>offset1.
       rbind (GetInput 1 (h_i h b)) (\<lambda>offset2.
       rbind (CreateADD (i_type (h_i h instr)) offset1 offset2 graph h) (\<lambda>(addInstr, h).
       rbind (replace_user offset1 instr addInstr h) (\<lambda>h.
       rbind (add_user offset2 addInstr h) (\<lambda>h.
       deref (i_parent (h_i h instr)) (\<lambda>bblock.
       rbind (InsertBefore instr addInstr bblock h) (\<lambda>h.
       rbind (on_instr b (RemoveUser instr) h) (\<lambda>h.
       rbind (GetInput 0 (h_i h instr)) (\<lambda>in0.
       rbind (on_instr instr (ReplaceInput in0 base2) h) (\<lambda>h.
       rbind (on_instr instr (ReplaceInput offset1 (Some addInstr)) h) (\<lambda>h.
       rbind (add_user base2 instr h) (\<lambda>h.
       rbind (add_user (Some addInstr) instr h) (\<lambda>h. Ok (True, h)))))))))))))))
     else if i_opcode (h_i h b) = Op_SRAI then
       rbind (GetInput 0 (h_i h b)) (\<lambda>base2.
       rbind (GetInput 1 (h_i h instr)) (\<lambda>offset1.
       rbind (CreateADDI (i_type (h_i h instr)) offset1 (i_value (h_i h b)) graph h) (\<lambda>(addInstr, h).
       rbind (replace_user offset1 instr addInstr h) (\<lambda>h.
       deref (i_parent (h_i h instr)) (\<lambda>bblock.
       rbind (InsertBefore instr addInstr bblock h) (\<lambda>h.
       rbind (on_instr b (RemoveUser instr) h) (\<lambda>h.
       rbind (GetInput 0 (h_i h instr)) (\<lambda>in0.
       rbind (on_instr instr (ReplaceInput in0 base2) h) (\<lambda>h.
       rbind (on_instr instr (ReplaceInput offset1 (Some addInstr)) h) (\<lambda>h.
       rbind (add_user base2 instr h) (\<lambda>h.
       rbind (add_user (Some addInstr) instr h) (\<lambda>h. Ok (True, h)))))))))))))
     else Ok (False, h)))"

definition trySRAZero :: "iptr \<Rightarrow> heap \<Rightarrow> (abort, bool \<times> heap) res" where
  "trySRAZero instr h =
     rbind (GetInput 0 (h_i h instr)) (\<lambda>input1.
     rbind (GetInput 1 (h_i h instr)) (\<lambda>input2.
     deref input1 (\<lambda>i1.
     if IsConst (h_i h i1) \<and> i_value (h_i h i1) = 0 then
       rbind (replaceWithoutNewInstr instr input1 h) (\<lambda>h. Ok (True, h))
     else
       deref input2 (\<lambda>i2.
       if IsConst (h_i h i2) \<and> i_value (h_i h i2) = 0 then
         rbind (replaceWithoutNewInstr instr input1 h) (\<lambda>h. Ok (True, h))
       else Ok (False, h)))))"

definition trySUBAfterNEG :: "iptr \<Rightarrow> iptr option \<Rightarrow> iptr option \<Rightarrow> gptr \<Rightarrow> heap \<Rightarrow> (abort, bool \<times> heap) res" where
  "trySUBAfterNEG instr checked second graph h =
     deref checked (\<lambda>typedInput.
     if i_opcode (h_i h typedInput) = Op_NEG then
       rbind (GetInput 0 (h_i h typedInput)) (\<lambda>positiveValueInput.
       rbind (CreateADD (i_type (h_i h instr)) positiveValueInput second graph h) (\<lambda>(newInstr, h).
       rbind (add_user positiveValueInput newInstr h) (\<lambda>h.
       rbind (parent_ReplaceInstruction instr newInstr h) (\<lambda>h.
       rbind (remove_user checked instr h) (\<lambda>h.
       rbind (replace_user second instr newInstr h) (\<lambda>h. Ok (True, h)))))))
     else Ok (False, h))"

text \<open>
  The two halves of \<open>trySUBAfterADD\<close>: \<open>(v1 + v0) - v0\<close>, and \<open>v0 - (v1 + v0)\<close>.
\<close>

definition SUB_of_ADD :: "iptr \<Rightarrow> gptr \<Rightarrow> heap \<Rightarrow> (abort, bool \<times> heap) res" where
  "SUB_of_ADD instr graph h =
     rbind (GetInput 0 (h_i h instr)) (\<lambda>instrInput1.
     rbind (GetInput 1 (h_i h instr)) (\<lambda>instrInput2.
     deref instrInput1 (\<lambda>typed.
     if i_opcode (h_i h typed) = Op_ADD then
       rbind (GetInput 0 (h_i h typed)) (\<lambda>input1.
       rbind (GetInput 1 (h_i h typed)) (\<lambda>input2.
       let newInstr = (if instrInput2 = input1 then input2
                       else if instrInput2 = input2 then input1 else None) in
       if newInstr \<noteq> None then
         rbind (replaceWithoutNewInstr instr newInstr h) (\<lambda>h. Ok (True, h))
       else Ok (False, h)))
     else if i_opcode (h_i h typed) = Op_ADDI then
       rbind (GetInput 0 (h_i h typed)) (\<lambda>input1.
       if input1 = instrInput2 then
         rbind (CreateCONST (i_type (h_i h instr)) (i_value (h_i h typed)) graph h) (\<lambda>(constInstr, h).
         rbind (on_instr typed (RemoveUser instr) h) (\<lambda>h.
         rbind (ReplaceWithConst instr constInstr h) (\<lambda>h. Ok (True, h))))
       else Ok (False, h))
     else Ok (False, h))))"

definition SUB_from_ADD :: "iptr \<Rightarrow> gptr \<Rightarrow> heap \<Rightarrow> (abort, bool \<times> heap) res" where
  "SUB_from_ADD instr graph h =
     rbind (GetInput 0 (h_i h instr)) (\<lambda>instrInput1.
     rbind (GetInput 1 (h_i h instr)) (\<lambda>instrInput2.
     deref instrInput2 (\<lambda>typed.
     if i_opcode (h_i h typed) = Op_ADD then
       rbind (GetInput 0 (h_i h typed)) (\<lambda>input1.
       rbind (GetInput 1 (h_i h typed)) (\<lambda>input2.
       case (if instrInput1 = input1 then input2
             else if instrInput1 = input2 then input1 else None) of
         Some userInstr \<Rightarrow>
           rbind (CreateNEG (i_type (h_i h instr)) (Some userInstr) graph h) (\<lambda>(negInstr, h).
           rbind (add_user (Some userInstr) negInstr h) (\<lambda>h.
           rbind (remove_user instrInput1 instr h) (\<lambda>h.
           rbind (remove_user instrInput2 instr h) (\<lambda>h.
           rbind (parent_ReplaceInstruction instr negInstr h) (\<lambda>h. Ok (True, h))))))
       | None \<Rightarrow> Ok (False, h)))
     else if i_opcode (h_i h typed) = Op_ADDI then
       rbind (GetInput 0 (h_i h typed)) (\<lambda>input1.
       if input1 = instrInput1 then
         rbind (CreateCONST (i_type (h_i h instr)) (- i_value (h_i h typed)) graph h) (\<lambda>(constInstr, h).
         rbind (on_instr typed (RemoveUser instr) h) (\<lambda>h.
         rbind (ReplaceWithConst instr constInstr h) (\<lambda>h. Ok (True, h))))
       else Ok (False, h))
     else Ok (False, h))))"

definition trySUBAfterADD :: "iptr \<Rightarrow> gptr \<Rightarrow> heap \<Rightarrow> (abort, bool \<times> heap) res" where
  "trySUBAfterADD instr graph h =
     rbind (SUB_of_ADD instr graph h) (\<lambda>(applied, h).
     if applied then Ok (True, h) else SUB_from_ADD instr graph h)"

definition trySUBZero :: "iptr \<Rightarrow> gptr \<Rightarrow> heap \<Rightarrow> (abort, bool \<times> heap) res" where
  "trySUBZero instr graph h =
     rbind (GetInput 0 (h_i h instr)) (\<lambda>input1.
     rbind (GetInput 1 (h_i h instr)) (\<lambda>input2.
     deref input1 (\<lambda>i1.
     if IsConst (h_i h i1) \<and> i_value (h_i h i1) = 0 then
       deref input2 (\<lambda>i2.
       rbind (CreateNEG (i_type (h_i h i2)) input2 graph h) (\<lambda>(negInstr, h).
       rbind (remove_user input1 instr h) (\<lambda>h.
       rbind (replace_user input2 instr negInstr h) (\<lambda>h.
       rbind (parent_ReplaceInstruction instr negInstr h) (\<lambda>h. Ok (True, h))))))
     else
       deref input2 (\<lambda>i2.
       if IsConst (h_i h i2) \<and> i_value (h_i h i2) = 0 then
         rbind (replaceWithoutNewInstr instr input1 h) (\<lambda>h. Ok (True, h))
       else Ok (False, h)))))"

definition trySUBRepeatedArgs :: "iptr \<Rightarrow> gptr \<Rightarrow> heap \<Rightarrow> (abort, bool \<times> heap) res" where
  "trySUBRepeatedArgs instr graph h =
     rbind (GetInput 0 (h_i h instr)) (\<lambda>input1.
     rbind (GetInput 1 (h_i h instr)) (\<lambda>input2.
     if input1 = input2 then
       rbind (CreateCONST (i_type (h_i h instr)) 0 graph h) (\<lambda>(constZero, h).
       rbind (ReplaceWithConst instr constZero h) (\<lambda>h. Ok (True, h)))
     else Ok (False, h)))"

text \<open>The rewrites are tried in order until one applies.\<close>

fun first_applied :: "(heap \<Rightarrow> (abort, bool \<times> heap) res) list \<Rightarrow> heap \<Rightarrow> (abort, bool \<times> heap) res" where
  "first_applied [] h = Ok (False, h)"
| "first_applied (f # fs) h =
     rbind (f h) (\<lambda>(applied, h). if applied then Ok (True, h) else first_applied fs h)"

definition with_inputs ::
    "iptr \<Rightarrow> (iptr option \<Rightarrow> iptr option \<Rightarrow> heap \<Rightarrow> (abort, 'a) res) \<Rightarrow> heap \<Rightarrow> (abort, 'a) res" where
  "with_inputs instr k h =
     rbind (GetInput 0 (h_i h instr)) (\<lambda>input1. rbind (GetInput 1 (h_i h instr)) (\<lambda>input2. k input1 input2 h))"

definition ProcessAND :: "gptr \<Rightarrow> iptr \<Rightarrow> heap \<Rightarrow> (abort, bool \<times> heap) res" where
  "ProcessAND graph instr h =
     ASSERT (i_opcode (h_i h instr) = Op_AND)
       (first_applied
         [Fold_ProcessAND instr, tryANDRepeatedArgs instr, tryANDAfterNOT instr graph,
          with_inputs instr (\<lambda>input1 input2. tryConstantAND instr input1 input2),
          with_inputs instr (\<lambda>input1 input2. tryConstantAND instr input2 input1)] h)"

definition ProcessSRA :: "gptr \<Rightarrow> iptr \<Rightarrow> heap \<Rightarrow> (abort, bool \<times> heap) res" where
  "ProcessSRA graph instr h =
     ASSERT (i_opcode (h_i h instr) = Op_SRA)
       (first_applied [Fold_ProcessSRA instr, trySRAZero instr] h)"

definition ProcessSUB :: "gptr \<Rightarrow> iptr \<Rightarrow> heap \<Rightarrow> (abort, bool \<times> heap) res" where
  "ProcessSUB graph instr h =
     ASSERT (i_opcode (h_i h instr) = Op_SUB)
       (first_applied
         [Fold_ProcessSUB instr, trySUBRepeatedArgs instr graph, trySUBZero instr graph,
          trySUBAfterADD instr graph,
          with_inputs instr (\<lambda>input1 input2. trySUBAfterNEG instr input2 input1 graph)] h)"

definition Process :: "gptr \<Rightarrow> iptr \<Rightarrow> heap \<Rightarrow> (abort, bool \<times> heap) res" where
  "Process graph instr h =
     (case i_opcode (h_i h instr) of
        Op_AND \<Rightarrow> ProcessAND graph instr h
      | Op_SRA \<Rightarrow> ProcessSRA graph instr h
      | Op_SUB \<Rightarrow> ProcessSUB graph instr h
      | _ \<Rightarrow> Ok (False, h))"

definition Peephole_Run :: "gptr \<Rightarrow> heap \<Rightarrow> (abort, bool \<times> heap) res" where
  "Peephole_Run graph h =
     rbind (run_RPO graph h) (\<lambda>(_, h).
     rbind (GetRPO (h_g h graph)) (\<lambda>rpo.
     for_each (\<lambda>bblock (applied, h).
       iter_with (block_begin bblock h)
         (\<lambda>instr (applied, h). rbind (Process graph instr h) (\<lambda>(a, h). Ok (applied \<or> a, h))) (applied, h))
       rpo (False, h)))"

end
