(* ===== verification/JIT_Build.thy ===== *)
theory JIT_Build
  imports JIT_Builder
begin

text \<open>
  What the builder makes: the fields of every created instruction (\<open>Create_built\<close>), its def-use
  edges (\<open>new_instr_def_use\<close>), and copies that keep every field but the links
  (\<open>Copy_in_correct\<close>).
\<close>

section \<open>What the constructors build\<close>

lemma add_user_loop:
  "for_each (\<lambda>it. add_user_if it p) ins h =
     Ok (h\<lparr>h_i := \<lambda>q. (h_i h q)\<lparr>i_users := i_users (h_i h q) @ replicate (count (mset ins) (Some q)) p\<rparr>\<rparr>)"
proof (induction ins arbitrary: h)
  case (Cons it ins)
  have "replicate n p @ [p] = [p] @ replicate n p" for n
    by (simp add: replicate_append_same)
  then show ?case
    by (cases it) (auto simp: add_user_if_Ok [of None] add_user_if_Ok [of "Some _"] Cons.IH upd_i_def fun_eq_iff intro!: arg_cong [where f = "\<lambda>f. h\<lparr>h_i := f\<rparr>"])
qed simp

text \<open>A new object: at a fresh address, with the given fields; its inputs have one more user.\<close>

lemma new_instr_Ok:
  "new_instr i h =
     (let p = h_new_i h; n = (\<lambda>q. replicate (count (mset (i_inputs i)) (Some q)) p) in
      Ok (p, h\<lparr>h_new_i := Suc p,
        h_i := \<lambda>q. if q = p then i\<lparr>i_users := i_users i @ n p\<rparr> else (h_i h q)\<lparr>i_users := i_users (h_i h q) @ n q\<rparr>\<rparr>))"
  by (auto simp: new_instr_def Let_def add_user_loop upd_i_def fun_eq_iff intro!: arg_cong [where f = "\<lambda>f. h\<lparr>h_new_i := Suc (h_new_i h), h_i := f\<rparr>"])

text \<open>The def-use edges of a heap with a fresh address.\<close>

definition fresh_at :: "iptr \<Rightarrow> heap \<Rightarrow> bool" where
  "fresh_at p h \<longleftrightarrow> i_inputs (h_i h p) = [] \<and> i_users (h_i h p) = []"

lemma new_instr_def_use:
  assumes "def_use h" and "fresh_at (h_new_i h) h" and "i_users i = []" and "new_instr i h = Ok (p, h')"
  shows "def_use h'"
proof -
  have p: "p = h_new_i h" and n: "h_i h' = (\<lambda>q. if q = p then i\<lparr>i_users := i_users i @ replicate (count (mset (i_inputs i)) (Some p)) p\<rparr>
      else (h_i h q)\<lparr>i_users := i_users (h_i h q) @ replicate (count (mset (i_inputs i)) (Some q)) p\<rparr>)"
    using assms(4) by (auto simp: new_instr_Ok Let_def)
  have du: "count (mset (i_users (h_i h d))) u = count (mset (i_inputs (h_i h u))) (Some d)" for d u
    using assms(1) by (simp add: def_use_def def_use_at_def)
  have z: "count (mset (i_users (h_i h d))) p = 0" "count (mset (i_inputs (h_i h u))) (Some p) = 0" for d u
    using du [of d p] du [of p u] assms(2) p by (simp_all add: fresh_at_def)
  have r: "count (mset (replicate k p)) u = (if u = p then k else 0)" for k u
    by (induction k) auto
  have "count (mset (i_users (h_i h' d))) u = count (mset (i_inputs (h_i h' u))) (Some d)" for d u
    using assms(3) du [of d u] z by (simp add: n r)
  then show ?thesis by (simp add: def_use_def def_use_at_def)
qed

section \<open>Copies\<close>

text \<open>What the builder makes of each class: opcode, type, properties and the number of inputs.\<close>

definition built :: "Instr \<Rightarrow> bool" where
  "built i \<longleftrightarrow>
     (let n = length (i_inputs i); op = i_opcode i; t = i_type i; ps = i_properties i in
      (case i_class i of
        BinaryImmInstruction \<Rightarrow> n = 1
      | BinaryRegInstruction \<Rightarrow> n = 2
      | UnaryRegInstruction \<Rightarrow> n = 1
      | LoadImmInstruction \<Rightarrow> n = 1 \<and> (op = Op_LOAD_ARRAY_IMM \<or> op = Op_LOAD_OBJECT)
      | StoreImmInstruction \<Rightarrow> n = 2 \<and> t = T_VOID \<and> (op = Op_STORE_ARRAY_IMM \<or> op = Op_STORE_OBJECT)
      | ConstantInstruction \<Rightarrow> n = 0 \<and> op = Op_CONST \<and> ps = 0
      | CastInstruction \<Rightarrow> n = 1 \<and> op = Op_CAST \<and> ps = prop_bits INPUT
      | CompareInstruction \<Rightarrow> n = 2 \<and> op = Op_CMP \<and> ps = INPUT_SIDE_EFFECTS
      | CondJumpInstruction \<Rightarrow> n = 0 \<and> op = Op_JCMP \<and> t = T_I64 \<and> ps = underlying_logic_or [CF, SIDE_EFFECTS]
      | JumpInstruction \<Rightarrow> n = 0 \<and> op = Op_JMP \<and> t = T_I64 \<and> ps = underlying_logic_or [CF, SIDE_EFFECTS]
      | RetInstruction \<Rightarrow> n = 1 \<and> op = Op_RET \<and> ps = underlying_logic_or [CF, INPUT, SIDE_EFFECTS]
      | RetVoidInstruction \<Rightarrow> n = 0 \<and> op = Op_RETVOID \<and> t = T_VOID \<and> ps = underlying_logic_or [CF, SIDE_EFFECTS]
      | CallInstruction \<Rightarrow> op = Op_CALL \<and> ps = INPUT_SIDE_EFFECTS
      | PhiInstruction \<Rightarrow> op = Op_PHI \<and> ps = prop_bits INPUT
      | InputArgumentInstruction \<Rightarrow> n = 0 \<and> op = Op_ARG \<and> ps = 0
      | LengthInstruction \<Rightarrow> n = 1 \<and> op = Op_LEN \<and> t = T_U64 \<and> ps = INPUT_MEM
      | NewArrayInstruction \<Rightarrow> n = 1 \<and> op = Op_NEW_ARRAY \<and> t = T_REF \<and> ps = INPUT_MEM
      | NewArrayImmInstruction \<Rightarrow> n = 0 \<and> op = Op_NEW_ARRAY_IMM \<and> t = T_REF \<and> ps = underlying_logic_or [MEM, SIDE_EFFECTS] \<and> i_value i > 0
      | NewObjectInstruction \<Rightarrow> n = 0 \<and> op = Op_NEW_OBJECT \<and> t = T_REF \<and> ps = underlying_logic_or [MEM, SIDE_EFFECTS]
      | LoadArrayInstruction \<Rightarrow> n = 2 \<and> op = Op_LOAD_ARRAY \<and> ps = INPUT_MEM
      | StoreArrayInstruction \<Rightarrow> n = 3 \<and> op = Op_STORE_ARRAY \<and> t = T_VOID \<and> ps = INPUT_MEM
      | BoundsCheckInstruction \<Rightarrow> n = 2 \<and> op = Op_BOUNDS_CHECK \<and> t = T_INVALID \<and> ps = INPUT_SIDE_EFFECTS) \<and>
      (i_class i \<notin> {BinaryImmInstruction, LoadImmInstruction, StoreImmInstruction, ConstantInstruction, NewArrayImmInstruction} \<longrightarrow> i_value i = 0) \<and>
      (i_class i \<noteq> CompareInstruction \<longrightarrow> i_ccode i = CC_EQ) \<and>
      (i_class i \<noteq> CastInstruction \<longrightarrow> i_toType i = T_INVALID) \<and>
      (i_class i \<noteq> CallInstruction \<longrightarrow> i_callTarget i = 0) \<and>
      (i_class i \<notin> {NewArrayInstruction, NewArrayImmInstruction, NewObjectInstruction} \<longrightarrow> i_typeId i = 0))"

lemmas ctor_defs = UnaryReg_ctor_def BinaryReg_ctor_def Constant_ctor_def BinaryImm_ctor_def Compare_ctor_def
  Cast_ctor_def Jump_ctor_def CondJump_ctor_def Ret_ctor_def RetVoid_ctor_def Phi_ctor_def InputArgument_ctor_def
  Call_ctor_def Length_ctor_def NewArray_ctor_def NewArrayImm_ctor_def NewObject_ctor_def LoadArray_ctor_def
  LoadImm_ctor_def StoreArray_ctor_def StoreImm_ctor_def BoundsCheck_ctor_def

lemmas create_defs = CreateCONST_def CreateCAST_def CreateCMP_def CreateJCMP_def CreateJMP_def CreateRET_def
  CreateRETVOID_def CreateCALL_def CreateLEN_def CreateNEW_ARRAY_def CreateNEW_ARRAY_IMM_def CreateNEW_OBJECT_def
  CreateLOAD_ARRAY_def CreateSTORE_ARRAY_def CreatePHI_def CreateARG_def CreateBOUNDS_CHECK_def
  CREATE_INST_def CREATE_INST_WITH_PROP_def

text \<open>
  The copy of a built instruction has all its fields but the links: no users, no block, null
  inputs (none at all for calls and PHIs), the next number of the builder.
\<close>

definition blank_copy :: "Instr \<Rightarrow> nat \<Rightarrow> Instr" where
  "blank_copy i n =
     i\<lparr>i_id := n, i_prev := None, i_next := None, i_parent := None, i_linearNumber := 0,
       i_markers := Markable_init, i_users := [], i_sources := [],
       i_inputs := (if i_class i \<in> {CallInstruction, PhiInstruction} then [] else map (\<lambda>_. None) (i_inputs i))\<rparr>"

lemma new_instr_blank:
  assumes "set (i_inputs i) \<subseteq> {None}"
  shows "new_instr i h = Ok (h_new_i h, upd_i (h_new_i h) (\<lambda>_. i) (h\<lparr>h_new_i := Suc (h_new_i h)\<rparr>))"
proof -
  have "count (mset (i_inputs i)) (Some q) = 0" for q
    using assms by (auto simp: count_eq_zero_iff)
  then show ?thesis by (auto simp: new_instr_Ok Let_def upd_i_def fun_eq_iff intro!: arg_cong [where f = "\<lambda>f. h\<lparr>h_new_i := Suc (h_new_i h), h_i := f\<rparr>"])
qed

lemma upd_i_twice: "upd_i p f (upd_i p g h) = upd_i p (\<lambda>x. f (g x)) h"
  by (simp add: upd_i_def)

lemma upd_i_upd_g: "upd_i p f (upd_g g k h) = upd_g g k (upd_i p f h)"
  by (simp add: upd_i_def upd_g_def)

lemma number_blank:
  "number_instr p g (upd_i p (\<lambda>_. i) h) =
     upd_g g (\<lambda>g. g\<lparr>g_currentId := g_currentId g + 1\<rparr>) (upd_i p (\<lambda>_. i\<lparr>i_id := g_currentId (h_g h g)\<rparr>) h)"
  by (simp add: number_instr_def upd_i_twice)

lemma create_blank:
  assumes "set (i_inputs i) \<subseteq> {None}" and "i\<lparr>i_id := n, i_properties := i_properties i OR prop\<rparr> = j" and "n = g_currentId (h_g h g)"
    and "i_id i = INVALID_ID"
  shows "rbind (new_instr i h) (\<lambda>(p, h). rbind (AttachInstruction p g h) (\<lambda>h. Ok (p, upd_i p (SetProperty prop) h))) =
      Ok (h_new_i h, upd_g g (\<lambda>g. g\<lparr>g_currentId := g_currentId g + 1\<rparr>)
        (upd_i (h_new_i h) (\<lambda>_. j) (h\<lparr>h_new_i := Suc (h_new_i h)\<rparr>)))"
    and "rbind (new_instr i h) (\<lambda>(p, h). Ok (p, upd_i p (SetProperty prop) (number_instr p g h))) =
      Ok (h_new_i h, upd_g g (\<lambda>g. g\<lparr>g_currentId := g_currentId g + 1\<rparr>)
        (upd_i (h_new_i h) (\<lambda>_. j) (h\<lparr>h_new_i := Suc (h_new_i h)\<rparr>)))"
    and "prop = 0 \<Longrightarrow> rbind (new_instr i h) (\<lambda>(p, h). Ok (p, number_instr p g h)) =
      Ok (h_new_i h, upd_g g (\<lambda>g. g\<lparr>g_currentId := g_currentId g + 1\<rparr>)
        (upd_i (h_new_i h) (\<lambda>_. j) (h\<lparr>h_new_i := Suc (h_new_i h)\<rparr>)))"
  using assms
  by (auto simp: new_instr_blank AttachInstruction_def number_blank upd_i_upd_g upd_i_twice SetProperty_def)

lemma blank_inputs:
  "length xs = 0 \<Longrightarrow> map (\<lambda>_. None) xs = []"
  "length xs = Suc 0 \<Longrightarrow> map (\<lambda>_. None) xs = [None]"
  "length xs = 2 \<Longrightarrow> map (\<lambda>_. None) xs = [None, None]"
  "length xs = 3 \<Longrightarrow> map (\<lambda>_. None) xs = [None, None, None]"
  by (simp_all add: map_replicate_const numeral_2_eq_2 numeral_3_eq_3)

lemma Copy_in_correct:
  assumes "built i"
  shows "Copy_in i g h =
    Ok (h_new_i h, upd_g g (\<lambda>g. g\<lparr>g_currentId := g_currentId g + 1\<rparr>)
      (upd_i (h_new_i h) (\<lambda>_. blank_copy i (g_currentId (h_g h g))) (h\<lparr>h_new_i := Suc (h_new_i h)\<rparr>)))"
  using assms
  by (cases i; cases "i_class i")
    (simp_all add: Copy_in_def general_copy_def create_defs ctor_defs null_or_type_def,
     simp_all add: create_blank [OF _ refl refl] FixedInputs_def InstructionBase_init_def built_def Let_def blank_copy_def blank_inputs)


text \<open>Every instruction the builder makes is built, so it can be copied.\<close>

lemma rbind_ASSERT: "rbind (ASSERT b r) f = ASSERT b (rbind r f)"
  by (simp add: ASSERT_def)

lemma create_result:
  assumes "rbind (new_instr i h) (\<lambda>(inst, h). Ok (inst, upd_i inst (SetProperty prop) (number_instr inst g h))) = Ok (p, h')"
  shows "\<exists>us. h_i h' p = i\<lparr>i_users := us, i_id := g_currentId (h_g h g), i_properties := i_properties i OR prop\<rparr>"
  using assms by (auto simp: new_instr_Ok Let_def number_instr_def SetProperty_def)

lemma create_result0:
  assumes "rbind (new_instr i h) (\<lambda>(inst, h). Ok (inst, number_instr inst g h)) = Ok (p, h')"
  shows "\<exists>us. h_i h' p = i\<lparr>i_users := us, i_id := g_currentId (h_g h g)\<rparr>"
  using assms by (auto simp: new_instr_Ok Let_def number_instr_def SetProperty_def)

lemmas builder_defs = create_defs CREATE_ARITHM_def CREATE_COMMUTABLE_ARITHM_def CREATE_IMM_INST_def
  CREATE_IMM_INST_WITH_PROP_def CreateLOAD_ARRAY_IMM_def CreateLOAD_OBJECT_def CreateSTORE_ARRAY_IMM_def
  CreateSTORE_OBJECT_def CreatePHI_inputs_def CreateNOT_def CreateNEG_def CreateDIV_def CreateMOD_def
  CreateNULL_CHECK_def CreateZERO_CHECK_def CreateNEGATIVE_CHECK_def

lemma Create_built:
  "CREATE_ARITHM op t a b g h = Ok (p, h') \<Longrightarrow> built (h_i h' p)"
  "CREATE_COMMUTABLE_ARITHM op t a b g h = Ok (p, h') \<Longrightarrow> built (h_i h' p)"
  "CREATE_IMM_INST op t a imm g h = Ok (p, h') \<Longrightarrow> built (h_i h' p)"
  "CREATE_IMM_INST_WITH_PROP op ps t a imm g h = Ok (p, h') \<Longrightarrow> built (h_i h' p)"
  "CreateDIV t a b g h = Ok (p, h') \<Longrightarrow> built (h_i h' p)"
  "CreateMOD t a b g h = Ok (p, h') \<Longrightarrow> built (h_i h' p)"
  "CreateNOT t a g h = Ok (p, h') \<Longrightarrow> built (h_i h' p)"
  "CreateNEG t a g h = Ok (p, h') \<Longrightarrow> built (h_i h' p)"
  "CreateCONST t imm g h = Ok (p, h') \<Longrightarrow> built (h_i h' p)"
  "CreateCAST t t' a g h = Ok (p, h') \<Longrightarrow> built (h_i h' p)"
  "CreateCMP t cc a b g h = Ok (p, h') \<Longrightarrow> built (h_i h' p)"
  "CreateJCMP g h = Ok (p, h') \<Longrightarrow> built (h_i h' p)"
  "CreateJMP g h = Ok (p, h') \<Longrightarrow> built (h_i h' p)"
  "CreateRET t a g h = Ok (p, h') \<Longrightarrow> built (h_i h' p)"
  "CreateRETVOID g h = Ok (p, h') \<Longrightarrow> built (h_i h' p)"
  "CreateCALL t tgt ins g h = Ok (p, h') \<Longrightarrow> built (h_i h' p)"
  "CreateLEN a g h = Ok (p, h') \<Longrightarrow> built (h_i h' p)"
  "CreateNEW_ARRAY a ty g h = Ok (p, h') \<Longrightarrow> built (h_i h' p)"
  "CreateNEW_ARRAY_IMM len ty g h = Ok (p, h') \<Longrightarrow> built (h_i h' p)"
  "CreateNEW_OBJECT ty g h = Ok (p, h') \<Longrightarrow> built (h_i h' p)"
  "CreateLOAD_ARRAY t a b g h = Ok (p, h') \<Longrightarrow> built (h_i h' p)"
  "CreateLOAD_ARRAY_IMM t a imm g h = Ok (p, h') \<Longrightarrow> built (h_i h' p)"
  "CreateLOAD_OBJECT t a imm g h = Ok (p, h') \<Longrightarrow> built (h_i h' p)"
  "CreateSTORE_ARRAY a b c g h = Ok (p, h') \<Longrightarrow> built (h_i h' p)"
  "CreateSTORE_ARRAY_IMM a b imm g h = Ok (p, h') \<Longrightarrow> built (h_i h' p)"
  "CreateSTORE_OBJECT a b imm g h = Ok (p, h') \<Longrightarrow> built (h_i h' p)"
  "CreatePHI t g h = Ok (p, h') \<Longrightarrow> built (h_i h' p)"
  "CreatePHI_inputs t ins srcs g h = Ok (p, h') \<Longrightarrow> built (h_i h' p)"
  "CreateARG t g h = Ok (p, h') \<Longrightarrow> built (h_i h' p)"
  "CreateNULL_CHECK a g h = Ok (p, h') \<Longrightarrow> built (h_i h' p)"
  "CreateZERO_CHECK a g h = Ok (p, h') \<Longrightarrow> built (h_i h' p)"
  "CreateNEGATIVE_CHECK a g h = Ok (p, h') \<Longrightarrow> built (h_i h' p)"
  "CreateBOUNDS_CHECK a b g h = Ok (p, h') \<Longrightarrow> built (h_i h' p)"
  by (auto simp: builder_defs ctor_defs rbind_ASSERT ASSERT_Ok_iff simp del: rbind.simps
      dest!: create_result create_result0)
    (simp_all add: built_def FixedInputs_def InstructionBase_init_def)

end
