(* ===== verification/JIT_PeepholeCorrect.thy ===== *)
theory JIT_PeepholeCorrect
  imports JIT_Peephole JIT_Build
begin

text \<open>
  The rewrites of the peephole pass preserve the values of all instructions.  A valuation gives
  every instruction a 64-bit value; it is \<open>valid\<close> when the value of every arithmetic instruction
  is the one its inputs determine, in the width of its type.  After a rewrite every instruction
  reads the same operand values as before, and the new instructions compute what they replace
  (\<open>Process_keeps_values\<close> of \<open>JIT_PeepholeValues\<close>).
\<close>

section \<open>What the list operations leave alone\<close>

definition links_off :: "Instr \<Rightarrow> Instr" where
  "links_off i = i\<lparr>i_prev := None, i_next := None, i_parent := None\<rparr>"

definition same_body :: "heap \<Rightarrow> heap \<Rightarrow> bool" where
  "same_body h0 h \<longleftrightarrow> (\<forall>x. links_off (h_i h x) = links_off (h_i h0 x)) \<and> h_new_i h = h_new_i h0"

lemma same_body_refl [simp]: "same_body h h"
  by (simp add: same_body_def)

lemma same_body_frame [simp]:
  "same_body h (upd_b b f g) = same_body h g"
  "same_body h (upd_g g' k g) = same_body h g"
  "same_body h (SetPrevInstruction i x g) = same_body h g"
  "same_body h (SetNextInstruction i x g) = same_body h g"
  "same_body h (SetBasicBlock i y g) = same_body h g"
  "same_body h (set_prev_if r x g) = same_body h g"
  "same_body h (set_next_if r x g) = same_body h g"
proof -
  have upd: "same_body h (upd_i p f g) = same_body h g" if "\<And>i. links_off (f i) = links_off i" for p f
  proof -
    have "links_off (h_i (upd_i p f g) x) = links_off (h_i g x)" for x using that by simp
    then show ?thesis by (simp add: same_body_def upd_i_def)
  qed
  show "same_body h (SetPrevInstruction i x g) = same_body h g" "same_body h (SetNextInstruction i x g) = same_body h g"
    "same_body h (SetBasicBlock i y g) = same_body h g" for i
    by (simp_all add: SetPrevInstruction_def SetNextInstruction_def SetBasicBlock_def upd links_off_def)
  then show "same_body h (set_prev_if r x g) = same_body h g" "same_body h (set_next_if r x g) = same_body h g"
    by (simp_all add: set_prev_if_def set_next_if_def split: option.split)
qed (simp_all add: same_body_def upd_b_def upd_g_def)

lemma same_bodyD:
  assumes "same_body h0 h"
  shows "i_inputs (h_i h x) = i_inputs (h_i h0 x)" "i_users (h_i h x) = i_users (h_i h0 x)"
    "i_opcode (h_i h x) = i_opcode (h_i h0 x)" "i_type (h_i h x) = i_type (h_i h0 x)" "i_value (h_i h x) = i_value (h_i h0 x)"
    "h_new_i h = h_new_i h0"
proof -
  have l: "links_off (h_i h x) = links_off (h_i h0 x)" and "h_new_i h = h_new_i h0"
    using assms by (simp_all add: same_body_def)
  then show "h_new_i h = h_new_i h0" by simp
  show "i_inputs (h_i h x) = i_inputs (h_i h0 x)" "i_users (h_i h x) = i_users (h_i h0 x)"
    "i_opcode (h_i h x) = i_opcode (h_i h0 x)" "i_type (h_i h x) = i_type (h_i h0 x)" "i_value (h_i h x) = i_value (h_i h0 x)"
    using arg_cong [OF l, of i_inputs] arg_cong [OF l, of i_users] arg_cong [OF l, of i_opcode]
      arg_cong [OF l, of i_type] arg_cong [OF l, of i_value] by (simp_all add: links_off_def)
qed

lemma UnlinkInstruction_body: "same_body h0 h \<Longrightarrow> ensures (same_body h0) (UnlinkInstruction t p h)"
  unfolding UnlinkInstruction_unfold Let_def unlinked_def
  by (intro ensures_ASSERT ensures_bind [where Q = "same_body h0"] ensures_if) simp_all

lemma InsertBefore_body: "same_body h0 h \<Longrightarrow> ensures (same_body h0) (InsertBefore a t p h)"
  unfolding InsertBefore_def Let_def
  by (intro ensures_ASSERT ensures_bind [where Q = "same_body h0"] ensures_option) simp_all

lemma InsertAfter_body: "same_body h0 h \<Longrightarrow> ensures (same_body h0) (InsertAfter a t p h)"
  unfolding InsertAfter_def Let_def
  by (intro ensures_ASSERT ensures_bind [where Q = "same_body h0"] ensures_option) simp_all

lemma pushInstruction_body: "same_body h0 h \<Longrightarrow> ensures (same_body h0) (pushInstruction back t p h)"
  unfolding pushInstruction_def pushPhi_def Let_def
  by (intro ensures_ASSERT ensures_bind [where Q = "same_body h0"] ensures_option ensures_if ensures_deref) simp_all

lemma replaceInControlFlow_body: "same_body h0 h \<Longrightarrow> ensures (same_body h0) (replaceInControlFlow a t p h)"
  unfolding replaceInControlFlow_def PushForwardInstruction_def
  by (intro ensures_ASSERT ensures_bind [where Q = "same_body h0"] ensures_option
      InsertAfter_body InsertBefore_body pushInstruction_body UnlinkInstruction_body)

lemmas body_steps =
  UnlinkInstruction_body [OF same_body_refl, THEN ensuresD] InsertBefore_body [OF same_body_refl, THEN ensuresD]
  pushInstruction_body [OF same_body_refl, THEN ensuresD] replaceInControlFlow_body [OF same_body_refl, THEN ensuresD]

section \<open>Replacing an instruction in its users\<close>

definition subst_in :: "iptr \<Rightarrow> iptr \<Rightarrow> iptr option list \<Rightarrow> iptr option list" where
  "subst_in old new ins = map (\<lambda>x. if x = Some old then Some new else x) ins"

text \<open>The fields a rewrite must keep: all but the links, the users and the inputs.\<close>

definition kernel :: "Instr \<Rightarrow> Instr" where
  "kernel i = i\<lparr>i_prev := None, i_next := None, i_parent := None, i_users := [], i_inputs := []\<rparr>"

lemma kernel_upd [simp]:
  "kernel (i\<lparr>i_inputs := xs\<rparr>) = kernel i" "kernel (i\<lparr>i_users := us\<rparr>) = kernel i"
  by (simp_all add: kernel_def)

lemma links_off_kernel: "links_off i = links_off j \<Longrightarrow> kernel i = kernel j"
proof -
  have "kernel i = (links_off i)\<lparr>i_users := [], i_inputs := []\<rparr>" for i
    by (simp add: kernel_def links_off_def)
  then show "links_off i = links_off j \<Longrightarrow> kernel i = kernel j" by simp
qed

lemma same_body_kernel: "same_body h0 h \<Longrightarrow> kernel (h_i h x) = kernel (h_i h0 x)"
  by (rule links_off_kernel) (simp add: same_body_def)

lemma kernel_fields:
  "i_opcode (kernel i) = i_opcode i" "i_type (kernel i) = i_type i" "i_value (kernel i) = i_value i"
  by (simp_all add: kernel_def)

lemma replace_loop_inputs:
  assumes "for_each (\<lambda>it h. ASSERT (HasInputs (h_i h it)) (on_instr it (ReplaceInput (Some this) (Some new)) h)) us h = Ok h'"
    and "\<And>u. count (mset (i_inputs (h_i h u))) (Some this) = count (mset us) u" and "new \<noteq> this"
  shows "i_inputs (h_i h' u) = subst_in this new (i_inputs (h_i h u)) \<and> i_users (h_i h' u) = i_users (h_i h u) \<and>
    kernel (h_i h' u) = kernel (h_i h u) \<and> i_parent (h_i h' u) = i_parent (h_i h u) \<and> h_new_i h' = h_new_i h"
  using assms(1,2)
proof (induction us arbitrary: h)
  case Nil
  have "subst_in this new (i_inputs (h_i h u)) = i_inputs (h_i h u)"
    unfolding subst_in_def by (rule map_idI) (use Nil.prems(2) [of u] in \<open>auto simp: count_eq_zero_iff\<close>)
  with Nil.prems(1) show ?case by simp
next
  case (Cons v us)
  let ?ins = "i_inputs (h_i h v)"
  let ?h = "upd_i v (\<lambda>i. i\<lparr>i_inputs := ?ins[index_of (Some this) ?ins := Some new]\<rparr>) h"
  have "count (mset ?ins) (Some this) \<noteq> 0" using Cons.prems(2) [of v] by simp
  then have mem: "Some this \<in> set ?ins" by (metis count_eq_zero_iff set_mset_mset)
  have "on_instr v (ReplaceInput (Some this) (Some new)) h = Ok ?h"
    using mem by (simp add: on_instr_def ReplaceInput_def replace_first_def index_of_absent upd_i_def)
  with Cons.prems(1) have rest: "for_each (\<lambda>it h. ASSERT (HasInputs (h_i h it)) (on_instr it (ReplaceInput (Some this) (Some new)) h)) us ?h = Ok h'"
    by (auto simp: res_simps)
  have "count (mset (i_inputs (h_i ?h u))) (Some this) = count (mset us) u" for u
    using Cons.prems(2) [of u] assms(3) count_replace_first [OF mem, of "Some new"] by (auto split: if_split_asm)
  note IH = Cons.IH [OF rest this]
  have "map (\<lambda>x. if x = Some this then Some new else x) (?ins[index_of (Some this) ?ins := Some new])
      = map (\<lambda>x. if x = Some this then Some new else x) ?ins"
    by (rule map_replace_first) simp
  then have "subst_in this new (?ins[index_of (Some this) ?ins := Some new]) = subst_in this new ?ins"
    by (simp add: subst_in_def)
  with IH show ?case by (auto simp: upd_i_def)
qed

lemma ReplaceInputInUsers_inputs:
  assumes "def_use_at this h" and "ReplaceInputInUsers (Some new) this h = Ok h'"
  shows "i_inputs (h_i h' u) = subst_in this new (i_inputs (h_i h u))"
    and "kernel (h_i h' u) = kernel (h_i h u)" and "h_new_i h' = h_new_i h" and "i_parent (h_i h' u) = i_parent (h_i h u)"
    and "new \<noteq> this \<Longrightarrow> i_users (h_i h' this) = i_users (h_i h this)"
proof -
  have "i_inputs (h_i h' u) = subst_in this new (i_inputs (h_i h u)) \<and> kernel (h_i h' u) = kernel (h_i h u) \<and>
      h_new_i h' = h_new_i h \<and> i_parent (h_i h' u) = i_parent (h_i h u) \<and>
      (new \<noteq> this \<longrightarrow> i_users (h_i h' this) = i_users (h_i h this))"
  proof (cases "new = this")
    case True
    with assms(2) have us: "i_users (h_i h this) = []" and h': "h' = upd_i this (AddUsers []) h"
      by (auto simp: ReplaceInputInUsers_def split: if_split_asm)
    have "AddUsers [] (h_i h this) = h_i h this" using us by (cases "h_i h this") (simp add: AddUsers_def)
    then have "h' = h" by (simp add: h' upd_i_def)
    moreover have "subst_in this this ins = ins" for ins by (simp add: subst_in_def map_idI)
    ultimately show ?thesis using True by simp
  next
    case False
    let ?us = "i_users (h_i h this)" and ?h = "upd_i new (AddUsers (i_users (h_i h this))) h"
    have same: "i_inputs (h_i ?h u) = i_inputs (h_i h u)" "kernel (h_i ?h u) = kernel (h_i h u)"
      "i_parent (h_i ?h u) = i_parent (h_i h u)" "h_new_i ?h = h_new_i h" for u
      by (simp_all add: AddUsers_def) (simp add: upd_i_def)
    have "count (mset (i_inputs (h_i ?h u))) (Some this) = count (mset ?us) u" for u
      using assms(1) unfolding same by (simp add: def_use_at_def)
    moreover have "for_each (\<lambda>it h. ASSERT (HasInputs (h_i h it)) (on_instr it (ReplaceInput (Some this) (Some new)) h)) ?us ?h = Ok h'"
      using assms(2) False by (simp add: ReplaceInputInUsers_def Let_def)
    ultimately show ?thesis
      using replace_loop_inputs [of this new ?us ?h h' u] replace_loop_inputs [of this new ?us ?h h' this] False same
      by (simp add: AddUsers_def)
  qed
  then show "i_inputs (h_i h' u) = subst_in this new (i_inputs (h_i h u))"
    and "kernel (h_i h' u) = kernel (h_i h u)" and "h_new_i h' = h_new_i h" and "i_parent (h_i h' u) = i_parent (h_i h u)"
    and "new \<noteq> this \<Longrightarrow> i_users (h_i h' this) = i_users (h_i h this)"
    by blast+
qed


section \<open>The effect of a rewrite\<close>

type_synonym desc = "Opcode \<times> OperandType \<times> u64 \<times> iptr option list"

definition describe :: "Instr \<Rightarrow> desc" where
  "describe i = (i_opcode i, i_type i, i_value i, i_inputs i)"

definition core_same :: "heap \<Rightarrow> heap \<Rightarrow> bool" where
  "core_same h h' \<longleftrightarrow>
     h_new_i h' = h_new_i h \<and> (\<forall>u. kernel (h_i h' u) = kernel (h_i h u) \<and> i_inputs (h_i h' u) = i_inputs (h_i h u))"

lemma describe_core:
  "kernel i = kernel j \<Longrightarrow> i_inputs i = i_inputs j \<Longrightarrow> describe i = describe j"
  using kernel_fields [of i] kernel_fields [of j] by (simp add: describe_def)

lemma core_same_trans: "core_same h h1 \<Longrightarrow> core_same h1 h2 \<Longrightarrow> core_same h h2"
  by (simp add: core_same_def)

lemma same_body_core: "same_body h h' \<Longrightarrow> core_same h h' \<and> i_users (h_i h' d) = i_users (h_i h d)"
  by (simp add: core_same_def same_body_kernel same_bodyD)

text \<open>Operations on user lists.\<close>

lemma on_instr_users:
  assumes "on_instr p f h = Ok h'" and "\<And>i j. f i = Ok j \<Longrightarrow> \<exists>us. j = i\<lparr>i_users := us\<rparr>"
  shows "core_same h h' \<and> (p \<noteq> d \<longrightarrow> i_users (h_i h' d) = i_users (h_i h d))"
proof -
  obtain us where "h' = upd_i p (\<lambda>_. (h_i h p)\<lparr>i_users := us\<rparr>) h"
    using assms by (auto simp: on_instr_Ok)
  then show ?thesis by (auto simp: core_same_def upd_i_def)
qed

lemma user_ops:
  "RemoveUser u i = Ok j \<Longrightarrow> \<exists>us. j = i\<lparr>i_users := us\<rparr>"
  "AddUser v i = Ok j \<Longrightarrow> \<exists>us. j = i\<lparr>i_users := us\<rparr>"
  "ReplaceUser u w i = Ok j \<Longrightarrow> \<exists>us. j = i\<lparr>i_users := us\<rparr>"
  by (auto simp: RemoveUser_def AddUser_def ReplaceUser_def res_simps split: option.splits)

lemma user_steps:
  "on_instr p (RemoveUser u) h = Ok h' \<Longrightarrow> core_same h h' \<and> (p \<noteq> d \<longrightarrow> i_users (h_i h' d) = i_users (h_i h d))"
  "remove_user q u h = Ok h' \<Longrightarrow> core_same h h' \<and> (q \<noteq> Some d \<longrightarrow> i_users (h_i h' d) = i_users (h_i h d))"
  "add_user q u h = Ok h' \<Longrightarrow> core_same h h' \<and> (q \<noteq> Some d \<longrightarrow> i_users (h_i h' d) = i_users (h_i h d))"
  "replace_user q u w h = Ok h' \<Longrightarrow> core_same h h' \<and> (q \<noteq> Some d \<longrightarrow> i_users (h_i h' d) = i_users (h_i h d))"
proof -
  have R: "on_instr p (RemoveUser u) h = Ok h' \<Longrightarrow> core_same h h' \<and> (p \<noteq> d \<longrightarrow> i_users (h_i h' d) = i_users (h_i h d))"
    and A: "on_instr p (AddUser (Some u)) h = Ok h' \<Longrightarrow> core_same h h' \<and> (p \<noteq> d \<longrightarrow> i_users (h_i h' d) = i_users (h_i h d))"
    and P: "on_instr p (ReplaceUser u w) h = Ok h' \<Longrightarrow> core_same h h' \<and> (p \<noteq> d \<longrightarrow> i_users (h_i h' d) = i_users (h_i h d))" for p
    by (erule on_instr_users, erule user_ops)+
  show "on_instr p (RemoveUser u) h = Ok h' \<Longrightarrow> core_same h h' \<and> (p \<noteq> d \<longrightarrow> i_users (h_i h' d) = i_users (h_i h d))" for p
    by (rule R)
  show "core_same h h' \<and> (q \<noteq> Some d \<longrightarrow> i_users (h_i h' d) = i_users (h_i h d))" if "remove_user q u h = Ok h'"
    using that R [of "the q"] by (cases q) (simp_all add: remove_user_def)
  show "core_same h h' \<and> (q \<noteq> Some d \<longrightarrow> i_users (h_i h' d) = i_users (h_i h d))" if "add_user q u h = Ok h'"
    using that A [of "the q"] by (cases q) (simp_all add: add_user_def)
  show "core_same h h' \<and> (q \<noteq> Some d \<longrightarrow> i_users (h_i h' d) = i_users (h_i h d))" if "replace_user q u w h = Ok h'"
    using that P [of "the q"] by (cases q) (simp_all add: replace_user_def)
qed

text \<open>A heap that has grown by the instructions \<open>ds\<close>; the users of \<open>d\<close> are still complete.\<close>

definition grown :: "iptr \<Rightarrow> desc list \<Rightarrow> heap \<Rightarrow> heap \<Rightarrow> bool" where
  "grown d ds h h' \<longleftrightarrow>
     d < h_new_i h \<and> def_use_at d h' \<and> h_new_i h' = h_new_i h + length ds \<and>
     (\<forall>u < h_new_i h. kernel (h_i h' u) = kernel (h_i h u) \<and> i_inputs (h_i h' u) = i_inputs (h_i h u)) \<and>
     (\<forall>k < length ds. describe (h_i h' (h_new_i h + k)) = ds ! k) \<and>
     (\<forall>u \<ge> h_new_i h'. i_inputs (h_i h' u) = [])"

definition subst_desc :: "iptr \<Rightarrow> iptr \<Rightarrow> desc \<Rightarrow> desc" where
  "subst_desc d target = (\<lambda>(op, t, v, ins). (op, t, v, subst_in d target ins))"

text \<open>The whole effect: the new instructions are there, and \<open>target\<close> has taken the place of \<open>d\<close>.\<close>

definition rewritten :: "iptr \<Rightarrow> iptr \<Rightarrow> desc list \<Rightarrow> heap \<Rightarrow> heap \<Rightarrow> bool" where
  "rewritten d target ds h h' \<longleftrightarrow>
     h_new_i h' = h_new_i h + length ds \<and>
     (\<forall>u < h_new_i h. kernel (h_i h' u) = kernel (h_i h u) \<and> i_inputs (h_i h' u) = subst_in d target (i_inputs (h_i h u))) \<and>
     (\<forall>k < length ds. describe (h_i h' (h_new_i h + k)) = subst_desc d target (ds ! k)) \<and>
     (\<forall>u \<ge> h_new_i h'. i_inputs (h_i h' u) = [])"

definition fresh_above :: "heap \<Rightarrow> bool" where
  "fresh_above h \<longleftrightarrow> (\<forall>u \<ge> h_new_i h. i_inputs (h_i h u) = [])"

lemma grown_refl: "d < h_new_i h \<Longrightarrow> def_use_at d h \<Longrightarrow> fresh_above h \<Longrightarrow> grown d [] h h"
  by (simp add: grown_def fresh_above_def)

lemma grown_same:
  assumes "grown d ds h h1" and "core_same h1 h2" and "i_users (h_i h2 d) = i_users (h_i h1 d)"
  shows "grown d ds h h2"
  using assms describe_core unfolding grown_def core_same_def def_use_at_def by metis

lemma grown_create:
  assumes g: "grown d ds h h1" and new: "new_instr i h1 = Ok (p, h2)"
    and h3: "h_new_i h3 = h_new_i h2" "h_i h3 = (h_i h2)(p := j)" "describe j = describe (h_i h2 p)"
    and d: "Some d \<notin> set (i_inputs i)"
  shows "p = h_new_i h1 \<and> grown d (ds @ [describe i]) h h3"
proof -
  let ?n = "h_new_i h1" and ?ins = "i_inputs i"
  have p: "p = ?n" and h2: "h_new_i h2 = Suc ?n" "h_i h2 = (\<lambda>q. if q = p then i\<lparr>i_users := i_users i @ replicate (count (mset ?ins) (Some p)) p\<rparr>
      else (h_i h1 q)\<lparr>i_users := i_users (h_i h1 q) @ replicate (count (mset ?ins) (Some q)) p\<rparr>)"
    using new by (auto simp: new_instr_Ok Let_def)
  have G: "h_new_i h1 = h_new_i h + length ds" "i_inputs (h_i h1 p) = []" "d < h_new_i h" and dn: "d \<noteq> p"
    using g p by (auto simp: grown_def)
  have z: "count (mset ?ins) (Some d) = 0" using d by (simp add: count_eq_zero_iff)
  have dj: "describe j = describe i" using h3(3) h2(2) by (simp add: describe_def)
  then have ij: "i_inputs j = ?ins" by (simp add: describe_def)
  have old: "kernel (h_i h3 u) = kernel (h_i h1 u)" "i_inputs (h_i h3 u) = i_inputs (h_i h1 u)" if "u \<noteq> p" for u
    using that h3(2) h2(2) by simp_all
  have ud: "i_users (h_i h3 d) = i_users (h_i h1 d)" using dn h3(2) h2(2) z by simp
  have "def_use_at d h3"
    unfolding def_use_at_def
  proof
    fix u
    have "count (mset (i_users (h_i h1 d))) u = count (mset (i_inputs (h_i h1 u))) (Some d)"
      using g by (simp add: grown_def def_use_at_def)
    then have c: "count (mset (i_users (h_i h3 d))) u = count (mset (i_inputs (h_i h1 u))) (Some d)" by (simp only: ud)
    show "count (mset (i_users (h_i h3 d))) u = count (mset (i_inputs (h_i h3 u))) (Some d)"
    proof (cases "u = p")
      case True
      then have "i_inputs (h_i h3 u) = ?ins" using h3(2) ij by simp
      then show ?thesis unfolding c using True G(2) z by simp
    next
      case False
      then show ?thesis unfolding c by (simp add: old)
    qed
  qed
  moreover have "describe (h_i h3 (h_new_i h + k)) = (ds @ [describe i]) ! k" if "k < Suc (length ds)" for k
  proof (cases "k = length ds")
    case True
    then show ?thesis using G(1) p h3(2) dj by simp
  next
    case False
    with that G(1) p have u: "h_new_i h + k \<noteq> p" "k < length ds" by auto
    then have "describe (h_i h3 (h_new_i h + k)) = describe (h_i h1 (h_new_i h + k))"
      by (intro describe_core old)
    with g u show ?thesis by (simp add: grown_def nth_append)
  qed
  ultimately have "grown d (ds @ [describe i]) h h3"
    using g h3(1) h2(1) old G p unfolding grown_def by (auto simp: Suc_le_eq)
  with p show ?thesis by simp
qed

text \<open>The instructions the rewrites create.\<close>

lemma created:
  assumes g: "grown d ds h h1"
  shows "CreateCONST t v builder h1 = Ok (p, h2) \<Longrightarrow> p = h_new_i h1 \<and> grown d (ds @ [(Op_CONST, t, v, [])]) h h2"
    and "CreateOR t a b builder h1 = Ok (p, h2) \<Longrightarrow> Some d \<notin> {a, b} \<Longrightarrow> p = h_new_i h1 \<and> grown d (ds @ [(Op_OR, t, 0, [a, b])]) h h2"
    and "CreateADD t a b builder h1 = Ok (p, h2) \<Longrightarrow> Some d \<notin> {a, b} \<Longrightarrow> p = h_new_i h1 \<and> grown d (ds @ [(Op_ADD, t, 0, [a, b])]) h h2"
    and "CreateNOT t a builder h1 = Ok (p, h2) \<Longrightarrow> Some d \<noteq> a \<Longrightarrow> p = h_new_i h1 \<and> grown d (ds @ [(Op_NOT, t, 0, [a])]) h h2"
    and "CreateNEG t a builder h1 = Ok (p, h2) \<Longrightarrow> Some d \<noteq> a \<Longrightarrow> p = h_new_i h1 \<and> grown d (ds @ [(Op_NEG, t, 0, [a])]) h h2"
proof -
  have num: "h_new_i (number_instr p builder h) = h_new_i h"
    "h_i (number_instr p builder h) = (h_i h)(p := (h_i h p)\<lparr>i_id := g_currentId (h_g h builder)\<rparr>)" for p h
    by (simp_all add: number_instr_def upd_g_def) (simp add: upd_i_def)
  have plain: "p = h_new_i h1 \<and> grown d (ds @ [describe i]) h h2"
    if "rbind (new_instr i h1) (\<lambda>(inst, h). Ok (inst, number_instr inst builder h)) = Ok (p, h2)" "Some d \<notin> set (i_inputs i)" for i
  proof -
    from that(1) obtain h' where h': "new_instr i h1 = Ok (p, h')" "h2 = number_instr p builder h'" by (auto simp: res_simps)
    show ?thesis
      by (rule grown_create [where j = "(h_i h' p)\<lparr>i_id := g_currentId (h_g h' builder)\<rparr>", OF g h'(1) _ _ _ that(2)])
        (simp_all add: h'(2) num describe_def)
  qed
  have props: "p = h_new_i h1 \<and> grown d (ds @ [describe i]) h h2"
    if "rbind (new_instr i h1) (\<lambda>(inst, h). Ok (inst, upd_i inst (SetProperty ps) (number_instr inst builder h))) = Ok (p, h2)"
      "Some d \<notin> set (i_inputs i)" for i ps
  proof -
    from that(1) obtain h' where h': "new_instr i h1 = Ok (p, h')" "h2 = upd_i p (SetProperty ps) (number_instr p builder h')"
      by (auto simp: res_simps)
    have "h_i h2 = (h_i h')(p := SetProperty ps ((h_i h' p)\<lparr>i_id := g_currentId (h_g h' builder)\<rparr>))"
      "h_new_i h2 = h_new_i h'"
      by (simp_all add: h'(2) num) (simp add: upd_i_def num)
    then show ?thesis
      by (intro grown_create [where j = "SetProperty ps ((h_i h' p)\<lparr>i_id := g_currentId (h_g h' builder)\<rparr>)", OF g h'(1) _ _ _ that(2)])
        (simp_all add: describe_def SetProperty_def)
  qed
  show "CreateCONST t v builder h1 = Ok (p, h2) \<Longrightarrow> p = h_new_i h1 \<and> grown d (ds @ [(Op_CONST, t, v, [])]) h h2"
    using plain [of "(InstructionBase_init ConstantInstruction Op_CONST t 0)\<lparr>i_value := v\<rparr>"]
    by (simp add: CreateCONST_def CREATE_INST_def Constant_ctor_def describe_def InstructionBase_init_def)
  show "CreateOR t a b builder h1 = Ok (p, h2) \<Longrightarrow> Some d \<notin> {a, b} \<Longrightarrow> p = h_new_i h1 \<and> grown d (ds @ [(Op_OR, t, 0, [a, b])]) h h2"
    using props [of "FixedInputs BinaryRegInstruction Op_OR t [a, b]"]
    by (simp add: CreateOR_def CREATE_COMMUTABLE_ARITHM_def CREATE_INST_WITH_PROP_def BinaryReg_ctor_def describe_def InstructionBase_init_def FixedInputs_def)
  show "CreateADD t a b builder h1 = Ok (p, h2) \<Longrightarrow> Some d \<notin> {a, b} \<Longrightarrow> p = h_new_i h1 \<and> grown d (ds @ [(Op_ADD, t, 0, [a, b])]) h h2"
    using props [of "FixedInputs BinaryRegInstruction Op_ADD t [a, b]"]
    by (simp add: CreateADD_def CREATE_COMMUTABLE_ARITHM_def CREATE_INST_WITH_PROP_def BinaryReg_ctor_def describe_def InstructionBase_init_def FixedInputs_def)
  show "CreateNOT t a builder h1 = Ok (p, h2) \<Longrightarrow> Some d \<noteq> a \<Longrightarrow> p = h_new_i h1 \<and> grown d (ds @ [(Op_NOT, t, 0, [a])]) h h2"
    using props [of "FixedInputs UnaryRegInstruction Op_NOT t [a]"]
    by (simp add: CreateNOT_def CREATE_INST_WITH_PROP_def UnaryReg_ctor_def describe_def InstructionBase_init_def FixedInputs_def)
  show "CreateNEG t a builder h1 = Ok (p, h2) \<Longrightarrow> Some d \<noteq> a \<Longrightarrow> p = h_new_i h1 \<and> grown d (ds @ [(Op_NEG, t, 0, [a])]) h h2"
    using props [of "FixedInputs UnaryRegInstruction Op_NEG t [a]"]
    by (simp add: CreateNEG_def CREATE_INST_WITH_PROP_def UnaryReg_ctor_def describe_def InstructionBase_init_def FixedInputs_def)
qed

lemma rewritten_same:
  assumes "rewritten d t ds h h1" and "core_same h1 h2"
  shows "rewritten d t ds h h2"
  using assms describe_core unfolding rewritten_def core_same_def by metis

lemma grown_replace:
  assumes g: "grown d ds h h1" and r: "ReplaceInputInUsers (Some t) d h1 = Ok h2"
  shows "rewritten d t ds h h2"
proof -
  have "def_use_at d h1" using g by (simp add: grown_def)
  note R = ReplaceInputInUsers_inputs [OF this r]
  have "describe (h_i h2 u) = subst_desc d t (describe (h_i h1 u))" for u
    using R(1,2) [of u] kernel_fields [of "h_i h1 u"] kernel_fields [of "h_i h2 u"]
    by (simp add: describe_def subst_desc_def)
  moreover have "subst_in d t [] = []" by (simp add: subst_in_def)
  ultimately show ?thesis
    using g R unfolding grown_def rewritten_def by simp
qed


lemma body_core:
  "UnlinkInstruction t b h = Ok h' \<Longrightarrow> core_same h h' \<and> i_users (h_i h' d) = i_users (h_i h d)"
  "InsertBefore a t b h = Ok h' \<Longrightarrow> core_same h h' \<and> i_users (h_i h' d) = i_users (h_i h d)"
  "PushBackInstruction t b h = Ok h' \<Longrightarrow> core_same h h' \<and> i_users (h_i h' d) = i_users (h_i h d)"
  "replaceInControlFlow a t b h = Ok h' \<Longrightarrow> core_same h h' \<and> i_users (h_i h' d) = i_users (h_i h d)"
proof -
  note B = same_body_core [OF body_steps(1)] same_body_core [OF body_steps(2)] same_body_core [OF body_steps(3)]
    same_body_core [OF body_steps(4)]
  show "UnlinkInstruction t b h = Ok h' \<Longrightarrow> core_same h h' \<and> i_users (h_i h' d) = i_users (h_i h d)"
    "InsertBefore a t b h = Ok h' \<Longrightarrow> core_same h h' \<and> i_users (h_i h' d) = i_users (h_i h d)"
    "replaceInControlFlow a t b h = Ok h' \<Longrightarrow> core_same h h' \<and> i_users (h_i h' d) = i_users (h_i h d)"
    by (rule B, assumption)+
  show "PushBackInstruction t b h = Ok h' \<Longrightarrow> core_same h h' \<and> i_users (h_i h' d) = i_users (h_i h d)"
    unfolding PushBackInstruction_def by (rule B(3))
qed

lemma replace_ops:
  assumes "grown d ds h h1"
  shows "ReplaceWithConst d t h1 = Ok h2 \<Longrightarrow> rewritten d t ds h h2"
    and "replaceWithoutNewInstr d (Some t) h1 = Ok h2 \<Longrightarrow> rewritten d t ds h h2"
    and "parent_ReplaceInstruction d t h1 = Ok h2 \<Longrightarrow> rewritten d t ds h h2"
proof -
  note R = grown_replace [OF assms] and S = rewritten_same
  show "rewritten d t ds h h2" if "ReplaceWithConst d t h1 = Ok h2"
  proof -
    from that obtain h3 h4 b f where "ReplaceInputInUsers (Some t) d h1 = Ok h3" "UnlinkInstruction d b h3 = Ok h4"
      "PushBackInstruction t f h4 = Ok h2"
      by (auto simp: ReplaceWithConst_def res_simps split: option.splits)
    then show ?thesis using R S body_core by metis
  qed
  show "rewritten d t ds h h2" if "replaceWithoutNewInstr d (Some t) h1 = Ok h2"
  proof -
    from that obtain h3 h4 h5 b q r where "ReplaceInputInUsers (Some t) d h1 = Ok h3" "UnlinkInstruction d b h3 = Ok h4"
      "remove_user q d h4 = Ok h5" "remove_user r d h5 = Ok h2"
      by (auto simp: replaceWithoutNewInstr_def res_simps)
    then show ?thesis using R S body_core user_steps by metis
  qed
  show "rewritten d t ds h h2" if "parent_ReplaceInstruction d t h1 = Ok h2"
  proof -
    from that obtain h3 b where "ReplaceInputInUsers (Some t) d h1 = Ok h3" "replaceInControlFlow d t b h3 = Ok h2"
      by (auto simp: parent_ReplaceInstruction_def ReplaceInstruction_def res_simps)
    then show ?thesis using R S body_core by metis
  qed
qed


section \<open>Values\<close>

fun width :: "OperandType \<Rightarrow> nat" where
  "width T_I8 = 8"
| "width T_U8 = 8"
| "width T_I16 = 16"
| "width T_U16 = 16"
| "width T_I32 = 32"
| "width T_U32 = 32"
| "width _ = 64"

text \<open>A value of a type, as its bit pattern extended with zeros.\<close>

definition norm :: "OperandType \<Rightarrow> u64 \<Rightarrow> u64" where
  "norm t v = take_bit (width t) v"

definition unary :: "(u64 \<Rightarrow> u64) \<Rightarrow> OperandType \<Rightarrow> u64 option list \<Rightarrow> u64 option" where
  "unary f t ins = (case ins of [Some a] \<Rightarrow> Some (norm t (f a)) | _ \<Rightarrow> None)"

definition binary :: "(u64 \<Rightarrow> u64 \<Rightarrow> u64) \<Rightarrow> OperandType \<Rightarrow> u64 option list \<Rightarrow> u64 option" where
  "binary f t ins = (case ins of [Some a, Some b] \<Rightarrow> Some (norm t (f a b)) | _ \<Rightarrow> None)"

text \<open>What an arithmetic instruction computes from the values of its inputs.\<close>

definition arith :: "Opcode \<Rightarrow> OperandType \<Rightarrow> u64 \<Rightarrow> u64 option list \<Rightarrow> u64 option" where
  "arith op t v ins =
     (case op of
        Op_CONST \<Rightarrow> Some (norm t v)
      | Op_NOT \<Rightarrow> unary (\<lambda>a. NOT a) t ins
      | Op_NEG \<Rightarrow> unary (\<lambda>a. - a) t ins
      | Op_AND \<Rightarrow> binary (\<lambda>a b. a AND b) t ins
      | Op_OR \<Rightarrow> binary (\<lambda>a b. a OR b) t ins
      | Op_ADD \<Rightarrow> binary (\<lambda>a b. a + b) t ins
      | Op_SUB \<Rightarrow> binary (\<lambda>a b. a - b) t ins
      | Op_ADDI \<Rightarrow> unary (\<lambda>a. a + v) t ins
      | Op_SRA \<Rightarrow> binary (\<lambda>a b. signed_drop_bit (unat b) (signed_take_bit (width t - 1) a)) t ins
      | _ \<Rightarrow> None)"

fun desc_value :: "(iptr \<Rightarrow> u64) \<Rightarrow> desc \<Rightarrow> u64 option" where
  "desc_value \<rho> (op, t, v, ins) = arith op t v (map (map_option \<rho>) ins)"

text \<open>The inputs an arithmetic instruction must have.\<close>

fun desc_typed :: "(iptr \<Rightarrow> OperandType) \<Rightarrow> desc \<Rightarrow> bool" where
  "desc_typed \<tau> (op, t, v, ins) \<longleftrightarrow>
     (op \<in> {Op_NOT, Op_NEG, Op_ADDI} \<longrightarrow> (\<exists>a. ins = [Some a] \<and> \<tau> a = t)) \<and>
     (op \<in> {Op_AND, Op_OR, Op_ADD, Op_SUB} \<longrightarrow> (\<exists>a b. ins = [Some a, Some b] \<and> \<tau> a = t \<and> \<tau> b = t)) \<and>
     (op = Op_SRA \<longrightarrow> (\<exists>a b. ins = [Some a, Some b] \<and> \<tau> a = t))"

definition type_in :: "heap \<Rightarrow> iptr \<Rightarrow> OperandType" where
  "type_in h p = i_type (h_i h p)"

definition valid_at :: "(iptr \<Rightarrow> u64) \<Rightarrow> heap \<Rightarrow> iptr \<Rightarrow> bool" where
  "valid_at \<rho> h x \<longleftrightarrow>
     desc_value \<rho> (describe (h_i h x)) \<in> {None, Some (\<rho> x)} \<and> norm (type_in h x) (\<rho> x) = \<rho> x \<and>
     desc_typed (type_in h) (describe (h_i h x)) \<and>
     (\<forall>q. Some q \<in> set (i_inputs (h_i h x)) \<longrightarrow> q < h_new_i h)"

definition valid :: "(iptr \<Rightarrow> u64) \<Rightarrow> heap \<Rightarrow> bool" where
  "valid \<rho> h \<longleftrightarrow> (\<forall>x < h_new_i h. valid_at \<rho> h x)"

text \<open>Every instruction reads the operand values it read before.\<close>

definition same_operands :: "(iptr \<Rightarrow> u64) \<Rightarrow> heap \<Rightarrow> (iptr \<Rightarrow> u64) \<Rightarrow> heap \<Rightarrow> bool" where
  "same_operands \<rho> h \<rho>' h' \<longleftrightarrow>
     (\<forall>u < h_new_i h. \<rho>' u = \<rho> u \<and> kernel (h_i h' u) = kernel (h_i h u) \<and>
        map (map_option \<rho>') (i_inputs (h_i h' u)) = map (map_option \<rho>) (i_inputs (h_i h u)))"

text \<open>The valuation of the heap after the new instructions: \<open>vs\<close> are their values.\<close>

definition extend :: "(iptr \<Rightarrow> u64) \<Rightarrow> iptr \<Rightarrow> u64 list \<Rightarrow> iptr \<Rightarrow> u64" where
  "extend \<rho> n vs x = (if x < n then \<rho> x else vs ! (x - n))"

definition extend_type :: "heap \<Rightarrow> desc list \<Rightarrow> iptr \<Rightarrow> OperandType" where
  "extend_type h ds x = (if x < h_new_i h then type_in h x else fst (snd (ds ! (x - h_new_i h))))"

definition replacement :: "(iptr \<Rightarrow> u64) \<Rightarrow> iptr \<Rightarrow> iptr \<Rightarrow> desc list \<Rightarrow> u64 list \<Rightarrow> heap \<Rightarrow> bool" where
  "replacement \<rho> d t ds vs h \<longleftrightarrow>
     length vs = length ds \<and> t < h_new_i h + length ds \<and>
     extend \<rho> (h_new_i h) vs t = \<rho> d \<and> extend_type h ds t = type_in h d \<and>
     (\<forall>k < length ds. case ds ! k of (op, ty, v, ins) \<Rightarrow>
        desc_value (extend \<rho> (h_new_i h) vs) (ds ! k) \<in> {None, Some (vs ! k)} \<and> norm ty (vs ! k) = vs ! k \<and>
        desc_typed (extend_type h ds) (ds ! k) \<and> (\<forall>q. Some q \<in> set ins \<longrightarrow> q < h_new_i h + length ds))"

lemma map_subst_in:
  "f t = f d \<Longrightarrow> map (map_option f) (subst_in d t ins) = map (map_option f) ins"
  by (auto simp: subst_in_def)

lemma desc_typed_subst:
  assumes "desc_typed \<tau> D" and "\<tau> t = \<tau> d"
  shows "desc_typed \<tau> (subst_desc d t D)"
  using assms by (cases D) (auto simp: subst_desc_def subst_in_def)

lemma desc_typed_cong:
  assumes "desc_typed \<tau> (op, t, v, ins)" and "\<And>q. Some q \<in> set ins \<Longrightarrow> \<tau>' q = \<tau> q"
  shows "desc_typed \<tau>' (op, t, v, ins)"
  using assms by auto

lemma rewritten_valid:
  assumes v: "valid \<rho> h" and d: "d < h_new_i h" and r: "rewritten d t ds h h'" and rep: "replacement \<rho> d t ds vs h"
  defines "\<rho>' \<equiv> extend \<rho> (h_new_i h) vs"
  shows "valid \<rho>' h'" and "same_operands \<rho> h \<rho>' h'"
proof -
  let ?n = "h_new_i h"
  have R: "h_new_i h' = ?n + length ds" "\<And>u. u < ?n \<Longrightarrow> kernel (h_i h' u) = kernel (h_i h u)"
    "\<And>u. u < ?n \<Longrightarrow> i_inputs (h_i h' u) = subst_in d t (i_inputs (h_i h u))"
    "\<And>k. k < length ds \<Longrightarrow> describe (h_i h' (?n + k)) = subst_desc d t (ds ! k)"
    using r by (auto simp: rewritten_def)
  have old: "\<rho>' x = \<rho> x" if "x < ?n" for x using that by (simp add: \<rho>'_def extend_def)
  have td: "\<rho>' t = \<rho>' d" "t < h_new_i h'" using rep old [OF d] R(1) by (auto simp: replacement_def \<rho>'_def)
  have ty: "type_in h' x = extend_type h ds x" if "x < ?n + length ds" for x
  proof (cases "x < ?n")
    case True
    then show ?thesis using kernel_fields(2) R(2) by (metis extend_type_def type_in_def)
  next
    case False
    then have "describe (h_i h' x) = subst_desc d t (ds ! (x - ?n))" using R(4) [of "x - ?n"] that by simp
    then show ?thesis using False by (cases "ds ! (x - ?n)") (simp add: describe_def subst_desc_def extend_type_def type_in_def)
  qed
  have tyd: "type_in h' t = type_in h' d"
    using rep d td(2) R(1) ty [of t] ty [of d] by (simp add: replacement_def extend_type_def)
  have bound: "q < h_new_i h'" if "Some q \<in> set (subst_in d t ins)" "\<And>q. Some q \<in> set ins \<Longrightarrow> q < h_new_i h'" for q ins
    using that td(2) by (auto simp: subst_in_def split: if_split_asm)
  have "valid_at \<rho>' h' x" if x: "x < h_new_i h'" for x
  proof (cases "x < ?n")
    case True
    then have vx: "valid_at \<rho> h x" using v by (simp add: valid_def)
    have fields: "i_opcode (h_i h' x) = i_opcode (h_i h x)" "i_type (h_i h' x) = i_type (h_i h x)" "i_value (h_i h' x) = i_value (h_i h x)"
      using kernel_fields R(2) [OF True] by metis+
    have D: "describe (h_i h' x) = subst_desc d t (describe (h_i h x))"
      by (simp add: describe_def subst_desc_def fields R(3) [OF True])
    have ins: "q < ?n" if "Some q \<in> set (i_inputs (h_i h x))" for q using vx that by (simp add: valid_at_def)
    have m: "map (map_option \<rho>') (i_inputs (h_i h x)) = map (map_option \<rho>) (i_inputs (h_i h x))"
    proof (rule map_cong [OF refl])
      show "map_option \<rho>' q = map_option \<rho> q" if "q \<in> set (i_inputs (h_i h x))" for q
        by (cases q) (use that ins old in \<open>simp_all\<close>)
    qed
    have "desc_value \<rho>' (describe (h_i h' x)) = desc_value \<rho> (describe (h_i h x))"
      unfolding D by (simp add: describe_def subst_desc_def map_subst_in [OF td(1)] m)
    moreover have "desc_typed (type_in h') (describe (h_i h x))"
      unfolding describe_def
    proof (rule desc_typed_cong)
      show "desc_typed (type_in h) (i_opcode (h_i h x), i_type (h_i h x), i_value (h_i h x), i_inputs (h_i h x))"
        using vx by (simp add: valid_at_def describe_def)
      show "type_in h' q = type_in h q" if "Some q \<in> set (i_inputs (h_i h x))" for q
        using ins [OF that] ty [of q] by (simp add: extend_type_def)
    qed
    then have "desc_typed (type_in h') (describe (h_i h' x))"
      unfolding D by (rule desc_typed_subst [OF _ tyd])
    moreover have "norm (type_in h' x) (\<rho>' x) = \<rho>' x"
      using vx True ty [of x] by (simp add: valid_at_def extend_type_def old)
    moreover have "q < h_new_i h'" if "Some q \<in> set (i_inputs (h_i h' x))" for q
      using that ins R(1) bound unfolding R(3) [OF True] by (metis trans_less_add1)
    ultimately show ?thesis
      using vx unfolding valid_at_def old [OF True] by metis
  next
    case False
    define k where "k = x - ?n"
    have k: "k < length ds" "x = ?n + k" using False x R(1) by (auto simp: k_def)
    obtain op T c ins where dk: "ds ! k = (op, T, c, ins)" by (cases "ds ! k")
    have D: "describe (h_i h' x) = subst_desc d t (ds ! k)" using R(4) k by simp
    have K: "desc_value \<rho>' (ds ! k) \<in> {None, Some (vs ! k)}" "norm T (vs ! k) = vs ! k"
      "desc_typed (extend_type h ds) (ds ! k)" "\<And>q. Some q \<in> set ins \<Longrightarrow> q < h_new_i h'"
      using rep k(1) dk R(1) by (auto simp: replacement_def \<rho>'_def)
    have vk: "\<rho>' x = vs ! k" using k by (simp add: \<rho>'_def extend_def)
    have tx: "type_in h' x = T" using x ty [of x] R(1) False dk by (simp add: extend_type_def k_def)
    have ix: "i_inputs (h_i h' x) = subst_in d t ins" using D dk by (simp add: describe_def subst_desc_def)
    have "desc_value \<rho>' (describe (h_i h' x)) = desc_value \<rho>' (ds ! k)"
      unfolding D dk by (simp add: subst_desc_def map_subst_in [OF td(1)])
    moreover have "desc_typed (type_in h') (ds ! k)"
      unfolding dk using K(3) [unfolded dk] by (rule desc_typed_cong) (use K(4) ty R(1) in simp)
    then have "desc_typed (type_in h') (describe (h_i h' x))"
      unfolding D by (rule desc_typed_subst [OF _ tyd])
    moreover have "q < h_new_i h'" if "Some q \<in> set (i_inputs (h_i h' x))" for q
      using that bound K(4) unfolding ix by blast
    ultimately show ?thesis
      using K(1,2) unfolding valid_at_def vk tx by metis
  qed
  then show "valid \<rho>' h'" by (simp add: valid_def)
  have "map (map_option \<rho>') (i_inputs (h_i h' u)) = map (map_option \<rho>) (i_inputs (h_i h u))" if "u < ?n" for u
    unfolding R(3) [OF that] map_subst_in [OF td(1)]
  proof (rule map_cong [OF refl])
    show "map_option \<rho>' q = map_option \<rho> q" if "q \<in> set (i_inputs (h_i h u))" for q
      by (cases q) (use v \<open>u < ?n\<close> that old in \<open>simp_all add: valid_def valid_at_def\<close>)
  qed
  then show "same_operands \<rho> h \<rho>' h'"
    using R(2) old by (simp add: same_operands_def)
qed

end
