(* ===== verification/JIT_PeepholeValues.thy ===== *)
theory JIT_PeepholeValues
  imports JIT_PeepholeCorrect
begin

text \<open>
  Each rewrite of the peephole pass either leaves the heap as it is or replaces its instruction
  by one with the same value: \<open>Process_keeps_values\<close> collects them.
\<close>

section \<open>Outcomes\<close>

text \<open>
  An instruction a rewrite may start from: its users are recorded, and neither it nor its
  operands read it.
\<close>

definition rewritable :: "iptr \<Rightarrow> heap \<Rightarrow> bool" where
  "rewritable d h \<longleftrightarrow>
     d < h_new_i h \<and> def_use_at d h \<and> fresh_above h \<and> Some d \<notin> set (i_inputs (h_i h d)) \<and>
     (\<forall>q. Some q \<in> set (i_inputs (h_i h d)) \<longrightarrow> Some d \<notin> set (i_inputs (h_i h q)))"

definition outcome :: "(iptr \<Rightarrow> u64) \<Rightarrow> iptr \<Rightarrow> heap \<Rightarrow> heap \<Rightarrow> bool" where
  "outcome \<rho> d h h' \<longleftrightarrow> (\<exists>t ds vs. rewritten d t ds h h' \<and> replacement \<rho> d t ds vs h)"

definition rewrite_sound ::
    "(iptr \<Rightarrow> u64) \<Rightarrow> iptr \<Rightarrow> heap \<Rightarrow> (heap \<Rightarrow> (abort, bool \<times> heap) res) \<Rightarrow> bool" where
  "rewrite_sound \<rho> d h f \<longleftrightarrow> (\<forall>applied h'. f h = Ok (applied, h') \<longrightarrow> (if applied then outcome \<rho> d h h' else h' = h))"

lemma rewrite_soundI:
  "(\<And>h'. f h = Ok (True, h') \<Longrightarrow> outcome \<rho> d h h') \<Longrightarrow> (\<And>h'. f h = Ok (False, h') \<Longrightarrow> h' = h) \<Longrightarrow> rewrite_sound \<rho> d h f"
  unfolding rewrite_sound_def by (metis (full_types))

lemma rewrite_sound_cong: "rewrite_sound \<rho> d h g \<Longrightarrow> f h = g h \<Longrightarrow> rewrite_sound \<rho> d h f"
  by (simp add: rewrite_sound_def)

lemma rewrite_sound_first_applied:
  "(\<And>f. f \<in> set fs \<Longrightarrow> rewrite_sound \<rho> d h f) \<Longrightarrow> rewrite_sound \<rho> d h (first_applied fs)"
proof (induction fs)
  case Nil
  then show ?case by (simp add: rewrite_sound_def)
next
  case (Cons f fs)
  then have "rewrite_sound \<rho> d h f" "rewrite_sound \<rho> d h (first_applied fs)" by simp_all
  then show ?case by (auto simp: rewrite_sound_def res_simps split: if_split_asm)
qed

lemma outcomeI: "rewritten d t ds h h' \<Longrightarrow> replacement \<rho> d t ds vs h \<Longrightarrow> outcome \<rho> d h h'"
  by (auto simp: outcome_def)

lemma outcome_valid:
  assumes "valid \<rho> h" and "d < h_new_i h" and "outcome \<rho> d h h'"
  shows "\<exists>\<rho>'. valid \<rho>' h' \<and> same_operands \<rho> h \<rho>' h'"
  using rewritten_valid [OF assms(1,2)] assms(3) unfolding outcome_def by blast

text \<open>The steps between the creation of the new instructions and the replacement.\<close>

lemma grown_steps:
  assumes g: "grown d ds h h1"
  shows "on_instr p (RemoveUser u) h1 = Ok h2 \<Longrightarrow> p \<noteq> d \<Longrightarrow> grown d ds h h2"
    and "remove_user q u h1 = Ok h2 \<Longrightarrow> q \<noteq> Some d \<Longrightarrow> grown d ds h h2"
    and "add_user q u h1 = Ok h2 \<Longrightarrow> q \<noteq> Some d \<Longrightarrow> grown d ds h h2"
    and "replace_user q u w h1 = Ok h2 \<Longrightarrow> q \<noteq> Some d \<Longrightarrow> grown d ds h h2"
    and "UnlinkInstruction t b h1 = Ok h2 \<Longrightarrow> grown d ds h h2"
    and "InsertBefore a t b h1 = Ok h2 \<Longrightarrow> grown d ds h h2"
proof -
  note same = grown_same [OF g]
  show "on_instr p (RemoveUser u) h1 = Ok h2 \<Longrightarrow> p \<noteq> d \<Longrightarrow> grown d ds h h2"
    using same user_steps(1) by metis
  show "remove_user q u h1 = Ok h2 \<Longrightarrow> q \<noteq> Some d \<Longrightarrow> grown d ds h h2"
    using same user_steps(2) by metis
  show "add_user q u h1 = Ok h2 \<Longrightarrow> q \<noteq> Some d \<Longrightarrow> grown d ds h h2"
    using same user_steps(3) by metis
  show "replace_user q u w h1 = Ok h2 \<Longrightarrow> q \<noteq> Some d \<Longrightarrow> grown d ds h h2"
    using same user_steps(4) by metis
  show "UnlinkInstruction t b h1 = Ok h2 \<Longrightarrow> grown d ds h h2"
    using same body_core(1) by metis
  show "InsertBefore a t b h1 = Ok h2 \<Longrightarrow> grown d ds h h2"
    using same body_core(2) by metis
qed

lemma grown_new: "grown d ds h h1 \<Longrightarrow> d \<noteq> h_new_i h1" "grown d ds h h1 \<Longrightarrow> h_new_i h1 = h_new_i h + length ds"
  by (auto simp: grown_def)

lemma grown_type:
  "grown d ds h h1 \<Longrightarrow> u < h_new_i h \<Longrightarrow> i_type (h_i h1 u) = i_type (h_i h u)"
  using kernel_fields(2) unfolding grown_def by metis

section \<open>Replacements\<close>

lemma norm_norm [simp]: "norm t (norm t v) = norm t v"
  by (simp add: norm_def)

lemma norm_of: "norm t v = w \<Longrightarrow> norm t w = w"
  by (auto simp: norm_def)

lemma replacement_none:
  "t < h_new_i h \<Longrightarrow> d < h_new_i h \<Longrightarrow> \<rho> t = \<rho> d \<Longrightarrow> type_in h t = type_in h d \<Longrightarrow> replacement \<rho> d t [] [] h"
  by (simp add: replacement_def extend_def extend_type_def)

lemma replacement_const:
  assumes "norm (type_in h d) v = \<rho> d" and "d < h_new_i h"
  shows "replacement \<rho> d (h_new_i h) [(Op_CONST, type_in h d, v, [])] [\<rho> d] h"
  using assms norm_of [OF assms(1)] by (auto simp: replacement_def extend_def extend_type_def arith_def)

lemma replacement_unary:
  assumes "op = Op_NEG" and "a < h_new_i h" and "type_in h a = type_in h d"
    and "norm (type_in h d) (- \<rho> a) = \<rho> d"
  shows "replacement \<rho> d (h_new_i h) [(op, type_in h d, 0, [Some a])] [\<rho> d] h"
  using assms norm_of [OF assms(4)] by (auto simp: replacement_def extend_def extend_type_def arith_def unary_def)

lemma replacement_ADD:
  assumes "a < h_new_i h" and "b < h_new_i h" and "type_in h a = type_in h d" and "type_in h b = type_in h d"
    and "norm (type_in h d) (\<rho> a + \<rho> b) = \<rho> d"
  shows "replacement \<rho> d (h_new_i h) [(Op_ADD, type_in h d, 0, [Some a, Some b])] [\<rho> d] h"
  using assms norm_of [OF assms(5)] by (auto simp: replacement_def extend_def extend_type_def arith_def binary_def)

lemma replacement_OR_NOT:
  assumes "a < h_new_i h" and "b < h_new_i h" and "type_in h a = type_in h d" and "type_in h b = type_in h d"
    and "norm (type_in h d) (NOT (norm (type_in h d) (\<rho> a OR \<rho> b))) = \<rho> d"
  shows "replacement \<rho> d (Suc (h_new_i h))
     [(Op_OR, type_in h d, 0, [Some a, Some b]), (Op_NOT, type_in h d, 0, [Some (h_new_i h)])]
     [norm (type_in h d) (\<rho> a OR \<rho> b), \<rho> d] h"
  using assms norm_of [OF assms(5)]
  by (auto simp: replacement_def extend_def extend_type_def arith_def binary_def unary_def less_Suc_eq nth_Cons')

section \<open>Operands\<close>

text \<open>What a valid heap says of the instructions the rewrites look at.\<close>

lemma valid_norm: "valid \<rho> h \<Longrightarrow> x < h_new_i h \<Longrightarrow> norm (type_in h x) (\<rho> x) = \<rho> x"
  by (simp add: valid_def valid_at_def)

lemma valid_const:
  "valid \<rho> h \<Longrightarrow> x < h_new_i h \<Longrightarrow> IsConst (h_i h x) \<Longrightarrow> \<rho> x = norm (type_in h x) (i_value (h_i h x))"
  by (auto simp: valid_def valid_at_def describe_def IsConst_def arith_def type_in_def)

lemma arith_at:
  "arith Op_NOT t v [Some x] = Some (norm t (NOT x))"
  "arith Op_NEG t v [Some x] = Some (norm t (- x))"
  "arith Op_ADDI t v [Some x] = Some (norm t (x + v))"
  "arith Op_AND t v [Some x, Some y] = Some (norm t (x AND y))"
  "arith Op_ADD t v [Some x, Some y] = Some (norm t (x + y))"
  "arith Op_SUB t v [Some x, Some y] = Some (norm t (x - y))"
  "arith Op_SRA t v [Some x, Some y] = Some (norm t (signed_drop_bit (unat y) (signed_take_bit (width t - 1) x)))"
  by (simp_all add: arith_def unary_def binary_def)

lemma valid_unary:
  assumes "valid \<rho> h" and "x < h_new_i h" and "i_opcode (h_i h x) \<in> {Op_NOT, Op_NEG, Op_ADDI}"
  obtains a where "i_inputs (h_i h x) = [Some a]" "a < h_new_i h" "type_in h a = type_in h x"
    "i_opcode (h_i h x) = Op_NOT \<Longrightarrow> \<rho> x = norm (type_in h x) (NOT (\<rho> a))"
    "i_opcode (h_i h x) = Op_NEG \<Longrightarrow> \<rho> x = norm (type_in h x) (- \<rho> a)"
    "i_opcode (h_i h x) = Op_ADDI \<Longrightarrow> \<rho> x = norm (type_in h x) (\<rho> a + i_value (h_i h x))"
proof -
  have v: "valid_at \<rho> h x" using assms by (simp add: valid_def)
  then obtain a where a: "i_inputs (h_i h x) = [Some a]" "type_in h a = type_in h x"
    using assms(3) unfolding valid_at_def describe_def desc_typed.simps type_in_def [symmetric] by blast
  from v a(1) have val: "arith (i_opcode (h_i h x)) (type_in h x) (i_value (h_i h x)) [Some (\<rho> a)] \<in> {None, Some (\<rho> x)}"
      "a < h_new_i h"
    by (simp_all add: valid_at_def describe_def type_in_def)
  show thesis
    by (rule that [OF a(1) val(2) a(2)])
      (use val(1) in \<open>simp_all only: arith_at insert_iff empty_iff option.simps simp_thms\<close>)
qed

lemma valid_binary:
  assumes "valid \<rho> h" and "x < h_new_i h" and "i_opcode (h_i h x) \<in> {Op_AND, Op_ADD, Op_SUB, Op_SRA}"
  obtains a b where "i_inputs (h_i h x) = [Some a, Some b]" "a < h_new_i h" "b < h_new_i h" "type_in h a = type_in h x"
    "i_opcode (h_i h x) \<noteq> Op_SRA \<Longrightarrow> type_in h b = type_in h x"
    "i_opcode (h_i h x) = Op_AND \<Longrightarrow> \<rho> x = norm (type_in h x) (\<rho> a AND \<rho> b)"
    "i_opcode (h_i h x) = Op_ADD \<Longrightarrow> \<rho> x = norm (type_in h x) (\<rho> a + \<rho> b)"
    "i_opcode (h_i h x) = Op_SUB \<Longrightarrow> \<rho> x = norm (type_in h x) (\<rho> a - \<rho> b)"
    "i_opcode (h_i h x) = Op_SRA \<Longrightarrow> \<rho> x = norm (type_in h x)
       (signed_drop_bit (unat (\<rho> b)) (signed_take_bit (width (type_in h x) - 1) (\<rho> a)))"
proof -
  have v: "valid_at \<rho> h x" using assms by (simp add: valid_def)
  then obtain a b where ab: "i_inputs (h_i h x) = [Some a, Some b]" "type_in h a = type_in h x"
      "i_opcode (h_i h x) \<noteq> Op_SRA \<Longrightarrow> type_in h b = type_in h x"
    using assms(3) unfolding valid_at_def describe_def desc_typed.simps type_in_def [symmetric] by blast
  from v ab(1) have val: "arith (i_opcode (h_i h x)) (type_in h x) (i_value (h_i h x)) [Some (\<rho> a), Some (\<rho> b)]
      \<in> {None, Some (\<rho> x)}" "a < h_new_i h" "b < h_new_i h"
    by (simp_all add: valid_at_def describe_def type_in_def)
  show thesis
    by (rule that [OF ab(1) val(2,3) ab(2,3)])
      (use val(1) in \<open>simp_all only: arith_at insert_iff empty_iff option.simps simp_thms\<close>)
qed

section \<open>Rewrites that reuse an operand\<close>

lemma rewritable_grown: "rewritable d h \<Longrightarrow> grown d [] h h"
  by (simp add: rewritable_def grown_refl)

lemma outcome_reuse:
  assumes "rewritable d h" and "replaceWithoutNewInstr d (Some t) h = Ok h'"
    and "t < h_new_i h" and "\<rho> t = \<rho> d" and "type_in h t = type_in h d"
  shows "outcome \<rho> d h h'"
  using replace_ops(2) [OF rewritable_grown [OF assms(1)] assms(2)] assms
  by (intro outcomeI) (auto intro: replacement_none simp: rewritable_def)

lemma outcome_const:
  assumes "grown d [(Op_CONST, type_in h d, v, [])] h h1" and "ReplaceWithConst d (h_new_i h) h1 = Ok h'"
    and "norm (type_in h d) v = \<rho> d"
  shows "outcome \<rho> d h h'"
  using replace_ops(1) [OF assms(1,2)] assms(1,3)
  by (intro outcomeI) (auto intro: replacement_const simp: grown_def)

lemma outcome_NEG:
  assumes "grown d [(Op_NEG, type_in h d, 0, [Some a])] h h1" and "parent_ReplaceInstruction d (h_new_i h) h1 = Ok h'"
    and "a < h_new_i h" and "type_in h a = type_in h d" and "norm (type_in h d) (- \<rho> a) = \<rho> d"
  shows "outcome \<rho> d h h'"
  using replace_ops(3) [OF assms(1,2)] replacement_unary [OF refl assms(3-5)] by (rule outcomeI)

lemma outcome_ADD:
  assumes "grown d [(Op_ADD, type_in h d, 0, [Some a, Some b])] h h1" and "parent_ReplaceInstruction d (h_new_i h) h1 = Ok h2"
    and "core_same h2 h'"
    and "a < h_new_i h" "b < h_new_i h" and "type_in h a = type_in h d" "type_in h b = type_in h d"
    and "norm (type_in h d) (\<rho> a + \<rho> b) = \<rho> d"
  shows "outcome \<rho> d h h'"
  using rewritten_same [OF replace_ops(3) [OF assms(1,2)] assms(3)] replacement_ADD [OF assms(4-8)] by (rule outcomeI)

lemma norm_0 [simp]: "norm t 0 = 0"
  by (simp add: norm_def)

lemma norm_add: "norm t (norm t x + norm t y) = norm t (x + y)"
  unfolding norm_def by transfer (simp add: take_bit_add)

lemma norm_minus: "norm t (- norm t x) = norm t (- x)"
proof -
  have "norm t (- y) = norm t (norm t (NOT y) + norm t 1)" for y
    by (simp only: norm_add) (simp add: minus_eq_not_plus_1)
  moreover have "norm t (NOT (norm t x)) = norm t (NOT x)" by (simp add: norm_def take_bit_not_take_bit)
  ultimately show ?thesis by metis
qed

lemma norm_diff: "norm t (norm t x - norm t y) = norm t (x - y)"
proof -
  have "norm t (norm t x + (- norm t y)) = norm t (norm t x + norm t (- norm t y))"
    by (metis norm_add norm_norm)
  also have "\<dots> = norm t (x + - y)" by (simp only: norm_minus norm_add)
  finally show ?thesis by simp
qed

lemma norm_diff_left: "norm t (norm t x - y) = norm t (x - y)"
  by (metis norm_diff norm_norm)

lemma norm_diff_right: "norm t (x - norm t y) = norm t (x - y)"
  by (metis norm_diff norm_norm)

lemma norm_add_left: "norm t (norm t x + y) = norm t (x + y)"
  by (metis norm_add norm_norm)

lemma norm_and: "norm t (x AND norm t y) = norm t (x AND y)" "norm t (norm t x AND y) = norm t (x AND y)"
  by (auto simp: norm_def bit_simps intro: bit_eqI)

lemma norm_not: "norm t (NOT (norm t x)) = norm t (NOT x)"
  by (auto simp: norm_def bit_simps intro: bit_eqI)

lemma trySUBZero_sound:
  assumes v: "valid \<rho> h" and r: "rewritable d h" and opc: "i_opcode (h_i h d) = Op_SUB"
  shows "rewrite_sound \<rho> d h (trySUBZero d graph)"
proof -
  have d: "d < h_new_i h" using r by (simp add: rewritable_def)
  obtain a b where ins: "i_inputs (h_i h d) = [Some a, Some b]" "a < h_new_i h" "b < h_new_i h"
    and ty: "type_in h a = type_in h d" "type_in h b = type_in h d"
    and val: "\<rho> d = norm (type_in h d) (\<rho> a - \<rho> b)"
    using valid_binary [OF v d] opc by (metis Opcode.distinct insert_iff)
  have ab: "a \<noteq> d" "b \<noteq> d" using r ins by (auto simp: rewritable_def)
  have get: "GetInput 0 (h_i h d) = Ok (Some a)" "GetInput (Suc 0) (h_i h d) = Ok (Some b)"
    using ins by (simp_all add: GetInput_def ASSERT_def)
  show ?thesis
  proof (rule rewrite_soundI)
    fix h'
    assume run: "trySUBZero d graph h = Ok (True, h')"
    show "outcome \<rho> d h h'"
    proof (cases "IsConst (h_i h a) \<and> i_value (h_i h a) = 0")
      case True
      then have z: "\<rho> a = 0" using valid_const [OF v ins(2)] by simp
      from True run obtain t h1 h2 h3 where s: "CreateNEG (i_type (h_i h b)) (Some b) graph h = Ok (t, h1)"
          "remove_user (Some a) d h1 = Ok h2" "replace_user (Some b) d t h2 = Ok h3" "parent_ReplaceInstruction d t h3 = Ok h'"
        by (auto simp: trySUBZero_def get res_simps)
      from created(5) [OF rewritable_grown [OF r] s(1)] ab ty
      have t: "t = h_new_i h" and g: "grown d [(Op_NEG, type_in h d, 0, [Some b])] h h1" by (auto simp: type_in_def)
      have "grown d [(Op_NEG, type_in h d, 0, [Some b])] h h3"
        using grown_steps(2) [OF g s(2)] grown_steps(4) [OF _ s(3)] ab by blast
      then show ?thesis
        using outcome_NEG [OF _ s(4) [unfolded t] ins(3) ty(2)] val z by simp
    next
      case False
      with run have "IsConst (h_i h b) \<and> i_value (h_i h b) = 0" "replaceWithoutNewInstr d (Some a) h = Ok h'"
        by (auto simp: trySUBZero_def get res_simps split: if_split_asm)
      moreover have "\<rho> a = \<rho> d"
        using val calculation(1) valid_const [OF v ins(3)] valid_norm [OF v ins(2)] ty by simp
      ultimately show ?thesis using outcome_reuse [OF r _ ins(2)] ty by blast
    qed
  next
    show "h' = h" if "trySUBZero d graph h = Ok (False, h')" for h'
      using that by (auto simp: trySUBZero_def res_simps split: if_split_asm)
  qed
qed


lemma trySUBRepeatedArgs_sound:
  assumes v: "valid \<rho> h" and r: "rewritable d h" and opc: "i_opcode (h_i h d) = Op_SUB"
  shows "rewrite_sound \<rho> d h (trySUBRepeatedArgs d graph)"
proof (rule rewrite_soundI)
  have d: "d < h_new_i h" using r by (simp add: rewritable_def)
  obtain a b where ins: "i_inputs (h_i h d) = [Some a, Some b]"
    and val: "\<rho> d = norm (type_in h d) (\<rho> a - \<rho> b)"
    using valid_binary [OF v d] opc by (metis insert_iff)
  fix h'
  assume "trySUBRepeatedArgs d graph h = Ok (True, h')"
  then obtain t h1 where s: "a = b" "CreateCONST (type_in h d) 0 graph h = Ok (t, h1)" "ReplaceWithConst d t h1 = Ok h'"
    using ins by (auto simp: trySUBRepeatedArgs_def GetInput_def res_simps type_in_def split: if_split_asm)
  from created(1) [OF rewritable_grown [OF r] s(2)] show "outcome \<rho> d h h'"
    using s(1,3) val by (intro outcome_const [of d h 0 h1]) simp_all
next
  show "h' = h" if "trySUBRepeatedArgs d graph h = Ok (False, h')" for h'
    using that by (auto simp: trySUBRepeatedArgs_def res_simps split: if_split_asm)
qed

lemma SUB_of_ADD_sound:
  assumes v: "valid \<rho> h" and r: "rewritable d h" and opc: "i_opcode (h_i h d) = Op_SUB"
  shows "rewrite_sound \<rho> d h (SUB_of_ADD d graph)"
proof (rule rewrite_soundI)
  have d: "d < h_new_i h" using r by (simp add: rewritable_def)
  obtain a b where ins: "i_inputs (h_i h d) = [Some a, Some b]" "a < h_new_i h" "b < h_new_i h"
    and ty: "type_in h a = type_in h d" "type_in h b = type_in h d"
    and val: "\<rho> d = norm (type_in h d) (\<rho> a - \<rho> b)"
    using valid_binary [OF v d] opc by (metis Opcode.distinct insert_iff)
  have ab: "a \<noteq> d" "b \<noteq> d" using r ins by (auto simp: rewritable_def)
  have get: "GetInput 0 (h_i h d) = Ok (Some a)" "GetInput (Suc 0) (h_i h d) = Ok (Some b)"
    using ins by (simp_all add: GetInput_def ASSERT_def)
  fix h'
  assume run: "SUB_of_ADD d graph h = Ok (True, h')"
  show "outcome \<rho> d h h'"
  proof (cases "i_opcode (h_i h a) = Op_ADD")
    case True
    obtain x y where xy: "i_inputs (h_i h a) = [Some x, Some y]" "x < h_new_i h" "y < h_new_i h"
      and tx: "type_in h x = type_in h d" "type_in h y = type_in h d"
      and va: "\<rho> a = norm (type_in h d) (\<rho> x + \<rho> y)"
      using valid_binary [OF v ins(2)] True ty(1) by (metis Opcode.distinct insert_iff)
    have "GetInput 0 (h_i h a) = Ok (Some x)" "GetInput (Suc 0) (h_i h a) = Ok (Some y)"
      using xy by (simp_all add: GetInput_def ASSERT_def)
    with run True have w: "(b = x \<and> replaceWithoutNewInstr d (Some y) h = Ok h') \<or>
        (b = y \<and> replaceWithoutNewInstr d (Some x) h = Ok h')"
      by (auto simp: SUB_of_ADD_def get res_simps split: if_split_asm)
    have "\<rho> d = norm (type_in h d) (\<rho> x + \<rho> y - \<rho> b)" by (simp add: val va norm_diff_left)
    then have "b = x \<Longrightarrow> \<rho> y = \<rho> d" "b = y \<Longrightarrow> \<rho> x = \<rho> d"
      using valid_norm [OF v xy(2)] valid_norm [OF v xy(3)] tx by simp_all
    with w show ?thesis using outcome_reuse [OF r] xy tx by metis
  next
    case False
    with run have c: "i_opcode (h_i h a) = Op_ADDI"
      by (auto simp: SUB_of_ADD_def get res_simps split: if_split_asm)
    obtain x where x: "i_inputs (h_i h a) = [Some x]" and va: "\<rho> a = norm (type_in h d) (\<rho> x + i_value (h_i h a))"
      using valid_unary [OF v ins(2)] c ty(1) by (metis Opcode.distinct insert_iff)
    have "GetInput 0 (h_i h a) = Ok (Some x)" using x by (simp add: GetInput_def ASSERT_def)
    with run c obtain t h1 h2 where s: "x = b" "CreateCONST (type_in h d) (i_value (h_i h a)) graph h = Ok (t, h1)"
        "on_instr a (RemoveUser d) h1 = Ok h2" "ReplaceWithConst d t h2 = Ok h'"
      by (auto simp: SUB_of_ADD_def get deref_Ok type_in_def rbind_Ok_iff simp del: on_instr_Ok_iff split: if_split_asm)
    from created(1) [OF rewritable_grown [OF r] s(2)]
    have t: "t = h_new_i h" and g: "grown d [(Op_CONST, type_in h d, i_value (h_i h a), [])] h h1" by simp_all
    have "norm (type_in h d) (i_value (h_i h a)) = \<rho> d" by (simp add: val va s(1) norm_diff_left)
    then show ?thesis using outcome_const [OF grown_steps(1) [OF g s(3) ab(1)] s(4) [unfolded t]] by simp
  qed
next
  show "h' = h" if "SUB_of_ADD d graph h = Ok (False, h')" for h'
    using that by (auto simp: SUB_of_ADD_def Let_def rbind_Ok_iff deref_Ok split: if_split_asm)
qed

lemma SUB_from_ADD_sound:
  assumes v: "valid \<rho> h" and r: "rewritable d h" and opc: "i_opcode (h_i h d) = Op_SUB"
  shows "rewrite_sound \<rho> d h (SUB_from_ADD d graph)"
proof (rule rewrite_soundI)
  have d: "d < h_new_i h" using r by (simp add: rewritable_def)
  obtain a b where ins: "i_inputs (h_i h d) = [Some a, Some b]" "a < h_new_i h" "b < h_new_i h"
    and ty: "type_in h a = type_in h d" "type_in h b = type_in h d"
    and val: "\<rho> d = norm (type_in h d) (\<rho> a - \<rho> b)"
    using valid_binary [OF v d] opc by (metis Opcode.distinct insert_iff)
  have ab: "a \<noteq> d" "b \<noteq> d" using r ins by (auto simp: rewritable_def)
  have get: "GetInput 0 (h_i h d) = Ok (Some a)" "GetInput (Suc 0) (h_i h d) = Ok (Some b)"
    using ins by (simp_all add: GetInput_def ASSERT_def)
  fix h'
  assume run: "SUB_from_ADD d graph h = Ok (True, h')"
  show "outcome \<rho> d h h'"
  proof (cases "i_opcode (h_i h b) = Op_ADD")
    case True
    obtain x y where xy: "i_inputs (h_i h b) = [Some x, Some y]" "x < h_new_i h" "y < h_new_i h"
      and tx: "type_in h x = type_in h d" "type_in h y = type_in h d"
      and vb: "\<rho> b = norm (type_in h d) (\<rho> x + \<rho> y)"
      using valid_binary [OF v ins(3)] True ty(2) by (metis Opcode.distinct insert_iff)
    have nd: "x \<noteq> d" "y \<noteq> d" using r ins(1) xy(1) by (auto simp: rewritable_def)
    have "GetInput 0 (h_i h b) = Ok (Some x)" "GetInput (Suc 0) (h_i h b) = Ok (Some y)"
      using xy by (simp_all add: GetInput_def ASSERT_def)
    note get_b = this
    define u where "u = (if a = x then y else x)"
    from run True get_b have u: "(a = x \<and> u = y) \<or> (a = y \<and> u = x)"
      by (auto simp: SUB_from_ADD_def get rbind_Ok_iff deref_Ok u_def split: if_split_asm)
    from run True get_b obtain t h1 h2 h3 h4 where
        s: "CreateNEG (type_in h d) (Some u) graph h = Ok (t, h1)" "add_user (Some u) t h1 = Ok h2"
        "remove_user (Some a) d h2 = Ok h3" "remove_user (Some b) d h3 = Ok h4" "parent_ReplaceInstruction d t h4 = Ok h'"
      by (auto simp: SUB_from_ADD_def get rbind_Ok_iff deref_Ok type_in_def u_def split: if_split_asm)
    have un: "u \<noteq> d" "u < h_new_i h" "type_in h u = type_in h d" using u nd xy tx by auto
    from created(5) [OF rewritable_grown [OF r] s(1)] un
    have t: "t = h_new_i h" and g: "grown d [(Op_NEG, type_in h d, 0, [Some u])] h h1" by auto
    have "grown d [(Op_NEG, type_in h d, 0, [Some u])] h h2" using grown_steps(3) [OF g s(2)] un by simp
    then have g4: "grown d [(Op_NEG, type_in h d, 0, [Some u])] h h4"
      using grown_steps(2) [OF _ s(3)] grown_steps(2) [OF _ s(4)] ab by blast
    have "\<rho> d = norm (type_in h d) (\<rho> a - (\<rho> x + \<rho> y))" by (simp add: val vb norm_diff_right)
    with u have "norm (type_in h d) (- \<rho> u) = \<rho> d" by auto
    then show ?thesis using outcome_NEG [OF g4 s(5) [unfolded t] un(2,3)] by simp
  next
    case False
    with run have c: "i_opcode (h_i h b) = Op_ADDI"
      by (auto simp: SUB_from_ADD_def get res_simps split: if_split_asm)
    obtain x where x: "i_inputs (h_i h b) = [Some x]" and vb: "\<rho> b = norm (type_in h d) (\<rho> x + i_value (h_i h b))"
      using valid_unary [OF v ins(3)] c ty(2) by (metis Opcode.distinct insert_iff)
    have "GetInput 0 (h_i h b) = Ok (Some x)" using x by (simp add: GetInput_def ASSERT_def)
    with run c obtain t h1 h2 where s: "x = a" "CreateCONST (type_in h d) (- i_value (h_i h b)) graph h = Ok (t, h1)"
        "on_instr b (RemoveUser d) h1 = Ok h2" "ReplaceWithConst d t h2 = Ok h'"
      by (auto simp: SUB_from_ADD_def get deref_Ok type_in_def rbind_Ok_iff simp del: on_instr_Ok_iff split: if_split_asm)
    from created(1) [OF rewritable_grown [OF r] s(2)]
    have t: "t = h_new_i h" and g: "grown d [(Op_CONST, type_in h d, - i_value (h_i h b), [])] h h1" by simp_all
    have "norm (type_in h d) (- i_value (h_i h b)) = \<rho> d" by (simp add: val vb s(1) norm_diff_right)
    then show ?thesis using outcome_const [OF grown_steps(1) [OF g s(3) ab(2)] s(4) [unfolded t]] by simp
  qed
next
  show "h' = h" if "SUB_from_ADD d graph h = Ok (False, h')" for h'
    using that by (auto simp: SUB_from_ADD_def Let_def rbind_Ok_iff deref_Ok split: if_split_asm option.split_asm)
qed

lemma trySUBAfterADD_sound:
  assumes "valid \<rho> h" and "rewritable d h" and "i_opcode (h_i h d) = Op_SUB"
  shows "rewrite_sound \<rho> d h (trySUBAfterADD d graph)"
  using SUB_of_ADD_sound [OF assms, of graph] SUB_from_ADD_sound [OF assms, of graph]
  by (auto simp: trySUBAfterADD_def rewrite_sound_def rbind_Ok_iff split: if_split_asm)

lemma trySUBAfterNEG_sound:
  assumes v: "valid \<rho> h" and r: "rewritable d h" and opc: "i_opcode (h_i h d) = Op_SUB"
  shows "rewrite_sound \<rho> d h (with_inputs d (\<lambda>input1 input2. trySUBAfterNEG d input2 input1 graph))"
proof (rule rewrite_soundI)
  have d: "d < h_new_i h" using r by (simp add: rewritable_def)
  obtain a b where ins: "i_inputs (h_i h d) = [Some a, Some b]" "a < h_new_i h" "b < h_new_i h"
    and ty: "type_in h a = type_in h d" "type_in h b = type_in h d"
    and val: "\<rho> d = norm (type_in h d) (\<rho> a - \<rho> b)"
    using valid_binary [OF v d] opc by (metis Opcode.distinct insert_iff)
  have ab: "a \<noteq> d" "b \<noteq> d" using r ins by (auto simp: rewritable_def)
  have get: "GetInput 0 (h_i h d) = Ok (Some a)" "GetInput (Suc 0) (h_i h d) = Ok (Some b)"
    using ins by (simp_all add: GetInput_def ASSERT_def)
  fix h'
  assume run: "with_inputs d (\<lambda>input1 input2. trySUBAfterNEG d input2 input1 graph) h = Ok (True, h')"
  then have c: "i_opcode (h_i h b) = Op_NEG"
    by (auto simp: with_inputs_def trySUBAfterNEG_def get split: if_split_asm)
  obtain x where x: "i_inputs (h_i h b) = [Some x]" "x < h_new_i h" "type_in h x = type_in h d"
    and vb: "\<rho> b = norm (type_in h d) (- \<rho> x)"
    using valid_unary [OF v ins(3)] c ty(2) by (metis Opcode.distinct insert_iff)
  have nd: "x \<noteq> d" using r ins(1) x(1) by (auto simp: rewritable_def)
  have "GetInput 0 (h_i h b) = Ok (Some x)" using x(1) by (simp add: GetInput_def ASSERT_def)
  with run c obtain t h1 h2 h3 h4 where s: "CreateADD (type_in h d) (Some x) (Some a) graph h = Ok (t, h1)"
      "add_user (Some x) t h1 = Ok h2" "parent_ReplaceInstruction d t h2 = Ok h3" "remove_user (Some b) d h3 = Ok h4"
      "replace_user (Some a) d t h4 = Ok h'"
    by (auto simp: with_inputs_def trySUBAfterNEG_def get rbind_Ok_iff type_in_def)
  from created(3) [OF rewritable_grown [OF r] s(1)] nd ab
  have t: "t = h_new_i h" and g: "grown d [(Op_ADD, type_in h d, 0, [Some x, Some a])] h h1" by auto
  have g2: "grown d [(Op_ADD, type_in h d, 0, [Some x, Some a])] h h2" using grown_steps(3) [OF g s(2)] nd by simp
  have "core_same h3 h'" using core_same_trans user_steps(2) [OF s(4)] user_steps(4) [OF s(5)] by blast
  moreover have "\<rho> d = norm (type_in h d) (\<rho> a - (- \<rho> x))" by (simp only: val vb norm_diff_right)
  then have "norm (type_in h d) (\<rho> x + \<rho> a) = \<rho> d" by (simp add: add.commute)
  ultimately show "outcome \<rho> d h h'"
    using outcome_ADD [OF g2 s(3) [unfolded t]] x ins ty by blast
next
  show "h' = h" if "with_inputs d (\<lambda>input1 input2. trySUBAfterNEG d input2 input1 graph) h = Ok (False, h')" for h'
    using that by (auto simp: with_inputs_def trySUBAfterNEG_def rbind_Ok_iff deref_Ok split: if_split_asm)
qed

section \<open>Constant folding\<close>

lemma fold_consts_sound:
  assumes v: "valid \<rho> h" and r: "rewritable d h"
    and ins: "i_inputs (h_i h d) = [Some a, Some b]" "a < h_new_i h" "b < h_new_i h"
    and op: "\<And>w. IsConst (h_i h a) \<Longrightarrow> IsConst (h_i h b) \<Longrightarrow>
      op (type_in h d) (i_value (h_i h a)) (i_value (h_i h b)) = Ok w \<Longrightarrow> norm (type_in h d) w = \<rho> d"
  shows "rewrite_sound \<rho> d h (fold_consts op d)"
proof (rule rewrite_soundI)
  have ab: "a \<noteq> d" "b \<noteq> d" using r ins by (auto simp: rewritable_def)
  have get: "GetInput 0 (h_i h d) = Ok (Some a)" "GetInput (Suc 0) (h_i h d) = Ok (Some b)"
    using ins by (simp_all add: GetInput_def ASSERT_def)
  fix h'
  assume "fold_consts op d h = Ok (True, h')"
  then obtain w builder t h1 h2 h3 where c: "IsConst (h_i h a)" "IsConst (h_i h b)"
      "op (type_in h d) (i_value (h_i h a)) (i_value (h_i h b)) = Ok w"
    and s: "CreateCONST (type_in h d) w builder h = Ok (t, h1)" "remove_user (Some a) d h1 = Ok h2"
      "remove_user (Some b) d h2 = Ok h3" "ReplaceWithConst d t h3 = Ok h'"
    by (auto simp: fold_consts_def get rbind_Ok_iff IsConst_at_def const_value_def type_in_def ASSERT_Ok_iff split: if_split_asm)
  from created(1) [OF rewritable_grown [OF r] s(1)]
  have t: "t = h_new_i h" and g: "grown d [(Op_CONST, type_in h d, w, [])] h h1" by simp_all
  have "grown d [(Op_CONST, type_in h d, w, [])] h h3"
    using grown_steps(2) [OF g s(2)] grown_steps(2) [OF _ s(3)] ab by blast
  then show "outcome \<rho> d h h'" using outcome_const s(4) op [OF c] t by blast
next
  show "h' = h" if "fold_consts op d h = Ok (False, h')" for h'
    using that by (auto simp: fold_consts_def rbind_Ok_iff split: if_split_asm)
qed

lemma Fold_ProcessAND_sound:
  assumes v: "valid \<rho> h" and r: "rewritable d h" and opc: "i_opcode (h_i h d) = Op_AND"
  shows "rewrite_sound \<rho> d h (Fold_ProcessAND d)"
proof -
  have d: "d < h_new_i h" using r by (simp add: rewritable_def)
  obtain a b where ins: "i_inputs (h_i h d) = [Some a, Some b]" "a < h_new_i h" "b < h_new_i h"
    and ty: "type_in h a = type_in h d" "type_in h b = type_in h d"
    and val: "\<rho> d = norm (type_in h d) (\<rho> a AND \<rho> b)"
    using valid_binary [OF v d] opc by (metis Opcode.distinct insert_iff)
  have "rewrite_sound \<rho> d h (fold_consts (\<lambda>_ v1 v2. Ok (v1 AND v2)) d)"
    by (rule fold_consts_sound [OF v r ins])
      (use valid_const [OF v ins(2)] valid_const [OF v ins(3)] in \<open>auto simp: val ty norm_and\<close>)
  then show ?thesis by (simp add: rewrite_sound_def Fold_ProcessAND_def opc ASSERT_def)
qed

lemma Fold_ProcessSUB_sound:
  assumes v: "valid \<rho> h" and r: "rewritable d h" and opc: "i_opcode (h_i h d) = Op_SUB"
  shows "rewrite_sound \<rho> d h (Fold_ProcessSUB d)"
proof -
  have d: "d < h_new_i h" using r by (simp add: rewritable_def)
  obtain a b where ins: "i_inputs (h_i h d) = [Some a, Some b]" "a < h_new_i h" "b < h_new_i h"
    and ty: "type_in h a = type_in h d" "type_in h b = type_in h d"
    and val: "\<rho> d = norm (type_in h d) (\<rho> a - \<rho> b)"
    using valid_binary [OF v d] opc by (metis Opcode.distinct insert_iff)
  have "rewrite_sound \<rho> d h (fold_consts (\<lambda>_ v1 v2. Ok (v1 - v2)) d)"
    by (rule fold_consts_sound [OF v r ins])
      (use valid_const [OF v ins(2)] valid_const [OF v ins(3)] in \<open>auto simp: val ty norm_diff\<close>)
  then show ?thesis by (simp add: rewrite_sound_def Fold_ProcessSUB_def opc ASSERT_def)
qed

text \<open>Constants as the front end stores them: extended to 64 bits by the sign of their type.\<close>

definition signed_type :: "OperandType \<Rightarrow> bool" where
  "signed_type t \<longleftrightarrow> t \<in> {T_I8, T_I16, T_I32, T_I64}"

definition canonical :: "OperandType \<Rightarrow> u64 \<Rightarrow> bool" where
  "canonical t v \<longleftrightarrow> (if signed_type t then signed_take_bit (width t - 1) v = v else norm t v = v)"

definition canonical_consts :: "iptr \<Rightarrow> heap \<Rightarrow> bool" where
  "canonical_consts d h \<longleftrightarrow>
     (\<forall>q. Some q \<in> set (i_inputs (h_i h d)) \<longrightarrow> IsConst (h_i h q) \<longrightarrow> canonical (type_in h q) (i_value (h_i h q)))"

lemma signed_take_bit_full: "signed_take_bit 63 (v :: u64) = v"
proof (rule bit_word_eqI)
  fix n assume "n < LENGTH(64)"
  then have "min 63 n = n" "n < 64" by simp_all
  then show "bit (signed_take_bit 63 v) n = bit v n" by (simp add: bit_signed_take_bit_iff)
qed

lemma ToSigned_canonical:
  assumes "canonical t v"
  shows "ToSigned v t = signed_take_bit (width t - 1) (norm t v)"
proof (cases t)
  case T_U8
  then show ?thesis by (auto simp: ToSigned_def norm_def bit_simps intro!: bit_word_eqI)
next
  case T_U16
  then show ?thesis by (auto simp: ToSigned_def norm_def bit_simps intro!: bit_word_eqI)
next
  case T_U32
  then show ?thesis by (auto simp: ToSigned_def norm_def bit_simps intro!: bit_word_eqI)
qed (use assms in \<open>auto simp: canonical_def signed_type_def ToSigned_def norm_def signed_take_bit_take_bit signed_take_bit_full\<close>)

lemma norm_small:
  assumes "unat v < 64"
  shows "norm t v = v"
proof -
  have "(2 :: nat) ^ 8 \<le> 2 ^ width t" by (intro power_increasing) (cases t; simp)+
  with assms have "take_bit (width t) (unat v) = unat v" by (intro take_bit_nat_eq_self) simp
  then show ?thesis unfolding norm_def by (metis unsigned_take_bit_eq word_unat_eq_iff)
qed

lemma Fold_ProcessSRA_sound:
  assumes v: "valid \<rho> h" and r: "rewritable d h" and opc: "i_opcode (h_i h d) = Op_SRA"
    and can: "canonical_consts d h"
  shows "rewrite_sound \<rho> d h (Fold_ProcessSRA d)"
proof -
  have d: "d < h_new_i h" using r by (simp add: rewritable_def)
  obtain a b where ins: "i_inputs (h_i h d) = [Some a, Some b]" "a < h_new_i h" "b < h_new_i h"
    and ty: "type_in h a = type_in h d"
    and val: "\<rho> d = norm (type_in h d)
       (signed_drop_bit (unat (\<rho> b)) (signed_take_bit (width (type_in h d) - 1) (\<rho> a)))"
    using valid_binary [OF v d] opc by (metis Opcode.distinct insert_iff)
  have "rewrite_sound \<rho> d h (fold_consts sra_value d)"
  proof (rule fold_consts_sound [OF v r ins])
    fix w assume c: "IsConst (h_i h a)" "IsConst (h_i h b)"
      and w: "sra_value (type_in h d) (i_value (h_i h a)) (i_value (h_i h b)) = Ok w"
    from can ins(1) c have "canonical (type_in h d) (i_value (h_i h a))" "canonical (type_in h b) (i_value (h_i h b))"
      by (auto simp: canonical_consts_def simp flip: ty)
    with w have "w = signed_drop_bit (unat (norm (type_in h b) (i_value (h_i h b))))
        (signed_take_bit (width (type_in h d) - 1) (norm (type_in h d) (i_value (h_i h a))))"
      by (auto simp: sra_value_def ToSigned_canonical norm_small split: if_split_asm)
    then show "norm (type_in h d) w = \<rho> d"
      using valid_const [OF v ins(2) c(1)] valid_const [OF v ins(3) c(2)] by (simp add: val ty)
  qed
  then show ?thesis by (simp add: rewrite_sound_def Fold_ProcessSRA_def opc ASSERT_def)
qed

section \<open>Conjunctions and shifts\<close>

lemma tryANDRepeatedArgs_sound:
  assumes v: "valid \<rho> h" and r: "rewritable d h" and opc: "i_opcode (h_i h d) = Op_AND"
  shows "rewrite_sound \<rho> d h (tryANDRepeatedArgs d)"
proof (rule rewrite_soundI)
  have d: "d < h_new_i h" using r by (simp add: rewritable_def)
  obtain a b where ins: "i_inputs (h_i h d) = [Some a, Some b]" "a < h_new_i h" "b < h_new_i h"
    and ty: "type_in h a = type_in h d" "type_in h b = type_in h d"
    and val: "\<rho> d = norm (type_in h d) (\<rho> a AND \<rho> b)"
    using valid_binary [OF v d] opc by (metis Opcode.distinct insert_iff)
  fix h'
  assume "tryANDRepeatedArgs d h = Ok (True, h')"
  then have s: "a = b" "replaceWithoutNewInstr d (Some a) h = Ok h'"
    using ins by (auto simp: tryANDRepeatedArgs_def GetInput_def rbind_Ok_iff ASSERT_Ok_iff split: if_split_asm)
  have "\<rho> a = \<rho> d" using valid_norm [OF v ins(2)] ty val s(1) by simp
  then show "outcome \<rho> d h h'" using outcome_reuse [OF r s(2) ins(2) _ ty(1)] by simp
next
  show "h' = h" if "tryANDRepeatedArgs d h = Ok (False, h')" for h'
    using that by (auto simp: tryANDRepeatedArgs_def rbind_Ok_iff split: if_split_asm)
qed

lemma max_value_mask:
  assumes "GetMaxValue t = Ok m" and "\<not> signed_type t" and "m \<noteq> 0"
  shows "norm t (x AND m) = norm t x"
proof -
  have "m = mask (width t)"
    using assms
    by (cases t) (auto simp: GetMaxValue_def ASSERT_def array_get_def maxValues_def signed_type_def mask_eq_exp_minus_1)
  then show ?thesis by (simp add: norm_def take_bit_eq_mask and.assoc)
qed

text \<open>
  The greatest value of a signed type is not neutral for conjunction, though the pass takes it for
  neutral: it clears the sign bit.
\<close>

lemma signed_max_not_neutral:
  "GetMaxValue T_I32 = Ok 0x7fffffff \<and> norm T_I32 (0x80000000 AND 0x7fffffff) \<noteq> norm T_I32 0x80000000"
  by (simp add: GetMaxValue_def ASSERT_def array_get_def maxValues_def norm_def)

text \<open>So the conjunctions of a signed type with that constant are left out.\<close>

definition no_signed_max :: "iptr \<Rightarrow> heap \<Rightarrow> bool" where
  "no_signed_max d h \<longleftrightarrow> signed_type (type_in h d) \<longrightarrow>
     (\<forall>c. Some c \<in> set (i_inputs (h_i h d)) \<longrightarrow> IsConst (h_i h c) \<longrightarrow> GetMaxValue (type_in h d) \<noteq> Ok (i_value (h_i h c)))"

lemma tryConstantAND_outcome:
  assumes v: "valid \<rho> h" and r: "rewritable d h"
    and sgn: "signed_type (type_in h d) \<Longrightarrow> IsConst (h_i h c) \<Longrightarrow> GetMaxValue (type_in h d) \<noteq> Ok (i_value (h_i h c))"
    and c: "c < h_new_i h" "type_in h c = type_in h d" and x: "x < h_new_i h" "type_in h x = type_in h d"
    and val: "\<rho> d = norm (type_in h d) (\<rho> x AND \<rho> c)"
    and run: "tryConstantAND d (Some c) (Some x) h = Ok (True, h')"
  shows "outcome \<rho> d h h'"
proof -
  have k: "IsConst (h_i h c)" using run by (auto simp: tryConstantAND_def IsConst_at_def split: if_split_asm)
  note vc = valid_const [OF v c(1) k]
  show ?thesis
  proof (cases "i_value (h_i h c) = 0")
    case True
    with k run have "replaceWithoutNewInstr d (Some c) h = Ok h'"
      by (auto simp: tryConstantAND_def IsConst_at_def rbind_Ok_iff ASSERT_Ok_iff)
    moreover have "\<rho> c = \<rho> d" using True vc val by simp
    ultimately show ?thesis using outcome_reuse [OF r _ c(1) _ c(2)] by blast
  next
    case False
    with k run obtain m where "GetMaxValue (type_in h d) = Ok m" "i_value (h_i h c) = m"
        "replaceWithoutNewInstr d (Some x) h = Ok h'"
      by (auto simp: tryConstantAND_def IsConst_at_def rbind_Ok_iff ASSERT_Ok_iff type_in_def split: if_split_asm)
    moreover have "\<not> signed_type (type_in h d)"
      using sgn k calculation(1,2) by blast
    moreover note sgn = this
    have "\<rho> x = \<rho> d"
      using max_value_mask [OF calculation(1) sgn, of "\<rho> x"] False calculation(2) vc val valid_norm [OF v x(1)] c(2) x(2)
      by (simp add: norm_and)
    ultimately show ?thesis using outcome_reuse [OF r _ x(1) _ x(2)] by blast
  qed
qed

lemma tryConstantAND_sound:
  assumes v: "valid \<rho> h" and r: "rewritable d h" and opc: "i_opcode (h_i h d) = Op_AND"
    and sgn: "no_signed_max d h"
  shows "rewrite_sound \<rho> d h (with_inputs d (\<lambda>input1 input2. tryConstantAND d input1 input2))"
    and "rewrite_sound \<rho> d h (with_inputs d (\<lambda>input1 input2. tryConstantAND d input2 input1))"
proof -
  have d: "d < h_new_i h" using r by (simp add: rewritable_def)
  obtain a b where ins: "i_inputs (h_i h d) = [Some a, Some b]" "a < h_new_i h" "b < h_new_i h"
    and ty: "type_in h a = type_in h d" "type_in h b = type_in h d"
    and val: "\<rho> d = norm (type_in h d) (\<rho> a AND \<rho> b)"
    using valid_binary [OF v d] opc by (metis Opcode.distinct insert_iff)
  have get: "GetInput 0 (h_i h d) = Ok (Some a)" "GetInput (Suc 0) (h_i h d) = Ok (Some b)"
    using ins by (simp_all add: GetInput_def ASSERT_def)
  have no: "h' = h" if "tryConstantAND d p q h = Ok (False, h')" for p q h'
    using that by (auto simp: tryConstantAND_def rbind_Ok_iff deref_Ok ASSERT_Ok_iff split: if_split_asm)
  have val': "\<rho> d = norm (type_in h d) (\<rho> b AND \<rho> a)" by (simp add: val and.commute)
  have max: "GetMaxValue (type_in h d) \<noteq> Ok (i_value (h_i h c))"
    if "signed_type (type_in h d)" "IsConst (h_i h c)" "c = a \<or> c = b" for c
    using sgn that ins(1) by (auto simp: no_signed_max_def)
  show "rewrite_sound \<rho> d h (with_inputs d (\<lambda>input1 input2. tryConstantAND d input1 input2))"
    by (rule rewrite_soundI)
      (auto simp: with_inputs_def get no intro: tryConstantAND_outcome [OF v r max ins(2) ty(1) ins(3) ty(2) val'])
  show "rewrite_sound \<rho> d h (with_inputs d (\<lambda>input1 input2. tryConstantAND d input2 input1))"
    by (rule rewrite_soundI)
      (auto simp: with_inputs_def get no intro: tryConstantAND_outcome [OF v r max ins(3) ty(2) ins(2) ty(1) val])
qed

lemma trySRAZero_sound:
  assumes v: "valid \<rho> h" and r: "rewritable d h" and opc: "i_opcode (h_i h d) = Op_SRA"
  shows "rewrite_sound \<rho> d h (trySRAZero d)"
proof (rule rewrite_soundI)
  have d: "d < h_new_i h" using r by (simp add: rewritable_def)
  obtain a b where ins: "i_inputs (h_i h d) = [Some a, Some b]" "a < h_new_i h" "b < h_new_i h"
    and ty: "type_in h a = type_in h d"
    and val: "\<rho> d = norm (type_in h d)
       (signed_drop_bit (unat (\<rho> b)) (signed_take_bit (width (type_in h d) - 1) (\<rho> a)))"
    using valid_binary [OF v d] opc by (metis Opcode.distinct insert_iff)
  have get: "GetInput 0 (h_i h d) = Ok (Some a)" "GetInput (Suc 0) (h_i h d) = Ok (Some b)"
    using ins by (simp_all add: GetInput_def ASSERT_def)
  fix h'
  assume run: "trySRAZero d h = Ok (True, h')"
  then have s: "replaceWithoutNewInstr d (Some a) h = Ok h'"
    and z: "(IsConst (h_i h a) \<and> i_value (h_i h a) = 0) \<or> (IsConst (h_i h b) \<and> i_value (h_i h b) = 0)"
    by (auto simp: trySRAZero_def get rbind_Ok_iff split: if_split_asm)
  have keep: "norm (type_in h d) (signed_take_bit (width (type_in h d) - 1) x) = norm (type_in h d) x" for x
    unfolding norm_def by (rule take_bit_signed_take_bit) (cases "type_in h d"; simp)
  have "\<rho> a = 0 \<or> \<rho> b = 0" using z valid_const [OF v ins(2)] valid_const [OF v ins(3)] by auto
  then have "\<rho> a = \<rho> d" using val keep valid_norm [OF v ins(2)] ty by (auto simp del: signed_take_bit_Suc)
  then show "outcome \<rho> d h h'" using outcome_reuse [OF r s ins(2) _ ty] by simp
next
  show "h' = h" if "trySRAZero d h = Ok (False, h')" for h'
    using that by (auto simp: trySRAZero_def rbind_Ok_iff deref_Ok split: if_split_asm)
qed

lemma tryANDAfterNOT_sound:
  assumes v: "valid \<rho> h" and r: "rewritable d h" and opc: "i_opcode (h_i h d) = Op_AND"
  shows "rewrite_sound \<rho> d h (tryANDAfterNOT d graph)"
proof (rule rewrite_soundI)
  have d: "d < h_new_i h" using r by (simp add: rewritable_def)
  obtain a b where ins: "i_inputs (h_i h d) = [Some a, Some b]" "a < h_new_i h" "b < h_new_i h"
    and ty: "type_in h a = type_in h d" "type_in h b = type_in h d"
    and val: "\<rho> d = norm (type_in h d) (\<rho> a AND \<rho> b)"
    using valid_binary [OF v d] opc by (metis Opcode.distinct insert_iff)
  have ab: "a \<noteq> d" "b \<noteq> d" using r ins by (auto simp: rewritable_def)
  have get: "GetInput 0 (h_i h d) = Ok (Some a)" "GetInput (Suc 0) (h_i h d) = Ok (Some b)"
    using ins by (simp_all add: GetInput_def ASSERT_def)
  fix h'
  assume run: "tryANDAfterNOT d graph h = Ok (True, h')"
  then have c: "i_opcode (h_i h a) = Op_NOT" "i_opcode (h_i h b) = Op_NOT"
    by (auto simp: tryANDAfterNOT_def get split: if_split_asm)
  obtain x where x: "i_inputs (h_i h a) = [Some x]" "x < h_new_i h" "type_in h x = type_in h d"
    and va: "\<rho> a = norm (type_in h d) (NOT (\<rho> x))"
    using valid_unary [OF v ins(2)] c ty by (metis Opcode.distinct insert_iff)
  obtain y where y: "i_inputs (h_i h b) = [Some y]" "y < h_new_i h" "type_in h y = type_in h d"
    and vb: "\<rho> b = norm (type_in h d) (NOT (\<rho> y))"
    using valid_unary [OF v ins(3)] c ty by (metis Opcode.distinct insert_iff)
  have nd: "x \<noteq> d" "y \<noteq> d" using r ins(1) x(1) y(1) by (auto simp: rewritable_def)
  have "GetInput 0 (h_i h a) = Ok (Some x)" "GetInput 0 (h_i h b) = Ok (Some y)"
    using x(1) y(1) by (simp_all add: GetInput_def ASSERT_def)
  with run c obtain p t h1 h2 h3 h4 h5 h6 bb T h7 h8 h9 h10 where
    s: "CreateOR (type_in h d) (Some x) (Some y) graph h = Ok (p, h1)"
      "replace_user (Some x) a p h1 = Ok h2" "replace_user (Some y) b p h2 = Ok h3"
      "UnlinkInstruction a bb h3 = Ok h4" "UnlinkInstruction b bb h4 = Ok h5" "InsertBefore d p bb h5 = Ok h6"
    and T: "T = i_type (h_i h6 d)" and s2: "CreateNOT T (Some p) graph h6 = Ok (t, h7)"
      "add_user (Some p) t h7 = Ok h8" "remove_user (Some a) d h8 = Ok h9" "remove_user (Some b) d h9 = Ok h10"
      "parent_ReplaceInstruction d t h10 = Ok h'"
    by (auto simp: tryANDAfterNOT_def get rbind_Ok_iff deref_Ok type_in_def split: if_split_asm)
  let ?or = "(Op_OR, type_in h d, 0, [Some x, Some y])"
  from created(2) [OF rewritable_grown [OF r] s(1)] nd
  have p: "p = h_new_i h" and g1: "grown d [?or] h h1" by auto
  have "grown d [?or] h h3"
    using grown_steps(4) [OF g1 s(2)] grown_steps(4) [OF _ s(3)] nd by blast
  then have g6: "grown d [?or] h h6"
    using grown_steps(5) [OF _ s(4)] grown_steps(5) [OF _ s(5)] grown_steps(6) [OF _ s(6)] by blast
  have Td: "T = type_in h d" using grown_type [OF g6 d] T by (simp add: type_in_def)
  have pd: "p \<noteq> d" using d p by simp
  from created(5) [OF g6] created(4) [OF g6 s2(1)] pd Td p grown_new(2) [OF g6]
  have t: "t = Suc (h_new_i h)" and g7: "grown d [?or, (Op_NOT, type_in h d, 0, [Some (h_new_i h)])] h h7" by auto
  have "grown d [?or, (Op_NOT, type_in h d, 0, [Some (h_new_i h)])] h h10"
    using grown_steps(3) [OF g7 s2(2)] grown_steps(2) [OF _ s2(3)] grown_steps(2) [OF _ s2(4)] pd ab by blast
  from replace_ops(3) [OF this s2(5)] t
  have "rewritten d (Suc (h_new_i h)) [?or, (Op_NOT, type_in h d, 0, [Some (h_new_i h)])] h h'" by simp
  moreover have "norm (type_in h d) (NOT (norm (type_in h d) (\<rho> x OR \<rho> y))) = \<rho> d"
    by (simp add: val va vb norm_not norm_and)
  ultimately show "outcome \<rho> d h h'"
    using replacement_OR_NOT [OF x(2) y(2) x(3) y(3)] by (intro outcomeI)
next
  show "h' = h" if "tryANDAfterNOT d graph h = Ok (False, h')" for h'
    using that by (auto simp: tryANDAfterNOT_def rbind_Ok_iff deref_Ok split: if_split_asm)
qed

section \<open>The pass on one instruction\<close>

text \<open>
  What the rewrites assume of the constants: a conjunction of a signed type does not read the
  greatest value of the type, and the constants a shift reads are stored in their canonical form.
\<close>

definition well_typed_for :: "iptr \<Rightarrow> heap \<Rightarrow> bool" where
  "well_typed_for d h \<longleftrightarrow>
     (i_opcode (h_i h d) = Op_AND \<longrightarrow> no_signed_max d h) \<and>
     (i_opcode (h_i h d) = Op_SRA \<longrightarrow> canonical_consts d h)"

lemma Process_sound:
  assumes v: "valid \<rho> h" and r: "rewritable d h" and w: "well_typed_for d h"
  shows "rewrite_sound \<rho> d h (Process graph d)"
proof -
  have AND: "rewrite_sound \<rho> d h (ProcessAND graph d)" if c: "i_opcode (h_i h d) = Op_AND"
  proof (rule rewrite_sound_cong)
    have sgn: "no_signed_max d h" using w c by (simp add: well_typed_for_def)
    show "rewrite_sound \<rho> d h (first_applied [Fold_ProcessAND d, tryANDRepeatedArgs d, tryANDAfterNOT d graph,
        with_inputs d (\<lambda>input1 input2. tryConstantAND d input1 input2),
        with_inputs d (\<lambda>input1 input2. tryConstantAND d input2 input1)])"
      by (rule rewrite_sound_first_applied)
        (use Fold_ProcessAND_sound [OF v r c] tryANDRepeatedArgs_sound [OF v r c] tryANDAfterNOT_sound [OF v r c]
          tryConstantAND_sound [OF v r c sgn] in auto)
  qed (simp add: ProcessAND_def c ASSERT_def)
  have SRA: "rewrite_sound \<rho> d h (ProcessSRA graph d)" if c: "i_opcode (h_i h d) = Op_SRA"
  proof (rule rewrite_sound_cong)
    have can: "canonical_consts d h" using w c by (simp add: well_typed_for_def)
    show "rewrite_sound \<rho> d h (first_applied [Fold_ProcessSRA d, trySRAZero d])"
      by (rule rewrite_sound_first_applied)
        (use Fold_ProcessSRA_sound [OF v r c can] trySRAZero_sound [OF v r c] in auto)
  qed (simp add: ProcessSRA_def c ASSERT_def)
  have SUB: "rewrite_sound \<rho> d h (ProcessSUB graph d)" if c: "i_opcode (h_i h d) = Op_SUB"
  proof (rule rewrite_sound_cong)
    show "rewrite_sound \<rho> d h (first_applied [Fold_ProcessSUB d, trySUBRepeatedArgs d graph, trySUBZero d graph,
        trySUBAfterADD d graph, with_inputs d (\<lambda>input1 input2. trySUBAfterNEG d input2 input1 graph)])"
      by (rule rewrite_sound_first_applied)
        (use Fold_ProcessSUB_sound [OF v r c] trySUBRepeatedArgs_sound [OF v r c] trySUBZero_sound [OF v r c]
          trySUBAfterADD_sound [OF v r c] trySUBAfterNEG_sound [OF v r c] in auto)
  qed (simp add: ProcessSUB_def c ASSERT_def)
  consider "i_opcode (h_i h d) = Op_AND" | "i_opcode (h_i h d) = Op_SRA" | "i_opcode (h_i h d) = Op_SUB"
    | "i_opcode (h_i h d) \<notin> {Op_AND, Op_SRA, Op_SUB}" by blast
  then show ?thesis
  proof cases
    case 4
    then have "Process graph d h = Ok (False, h)" by (simp add: Process_def split: Opcode.split)
    then show ?thesis by (simp add: rewrite_sound_def)
  qed (rule rewrite_sound_cong, erule AND SRA SUB, simp add: Process_def)+
qed

lemma Process_keeps_values:
  assumes "valid \<rho> h" and "rewritable d h" and "well_typed_for d h" and "Process graph d h = Ok (applied, h')"
  shows "if applied then \<exists>\<rho>'. valid \<rho>' h' \<and> same_operands \<rho> h \<rho>' h' else h' = h"
  using Process_sound [OF assms(1-3), of graph] outcome_valid [OF assms(1)] assms(2,4)
  by (auto simp: rewrite_sound_def rewritable_def)

end
