(* ===== verification/JIT_Properties.thy ===== *)
theory JIT_Properties
  imports JIT_RegAllocOrder JIT_PeepholeValues
begin

text \<open>
  The properties of the JIT compiler's intermediate representation, analyses, optimizations and
  register allocator, with concrete instances.
\<close>

section \<open>Register allocation\<close>

text \<open>An interval with the given ranges, the latest one first.\<close>

definition sample_interval :: "(nat \<times> nat) list \<Rightarrow> LiveInterval" where
  "sample_interval rs =
     (LiveInterval_ctor 0 None)\<lparr>v_ranges := map (\<lambda>(b, e). \<lparr>r_begin = b, r_end = e\<rparr>) rs\<rparr>"

definition sample_intervals :: "LiveInterval list" where
  "sample_intervals = [sample_interval [(6, 8)], sample_interval [(2, 6)], sample_interval [(7, 9), (0, 4)]]"

lemmas sample_interval_defs = sample_interval_def sample_intervals_def LiveInterval_ctor_def

lemma sample_covered: "covered (sample_interval rs) = (\<Union>(b, e) \<in> set rs. {b..<e})"
  by (auto simp: sample_interval_def covered_def points_def)

lemma sample_scan_input: "scan_input sample_intervals"
proof -
  have m: "Min (covered (sample_interval [(6, 8)])) = 6" "Min (covered (sample_interval [(2, 6)])) = 2"
    "Min (covered (sample_interval [(7, 9), (0, 4)])) = 0"
    by (rule Min_eqI; auto simp: sample_covered)+
  have o: "interval_ok (sample_interval [(6, 8)])" "interval_ok (sample_interval [(2, 6)])"
    "interval_ok (sample_interval [(7, 9), (0, 4)])"
    by (simp_all add: sample_interval_def interval_ok_def ranges_ok_def)
  have "v_ranges (sample_interval rs) \<noteq> []" if "rs \<noteq> []" for rs using that by (simp add: sample_interval_def)
  then show ?thesis by (simp add: scan_input_def sample_intervals_def m o)
qed

lemmas scan_eval = LinearScan_ctor_def RegMap_ctor_def MAX_REGS_COUNT_def shift_one_def minus_one_def CHECK_def ASSERT_def
  allocateAndAssignRegs_def allocate_step_def expireOldIntervals_def begin_of_def end_of_def ReleaseReg_def
  IsFull_def AcquireReg_def ffsll_def assignToReg_def addActiveInterval_def set_loc_def SetLocation_def
  spillAtInterval_def spillToStack_def getNextSlot_def loc_of_def MAX_REG_NUMBER_def

lemma sample_scan: "\<exists>s. rbind (LinearScan_ctor False 2 sample_intervals) (allocateAndAssignRegs False) = Ok s"
  by (simp add: sample_interval_defs scan_eval upt_rec Let_def)

lemma sorted_wrt_rev_upt: "sorted_wrt P (rev [0..<n]) \<longleftrightarrow> (\<forall>i j. j < i \<and> i < n \<longrightarrow> P i j)"
  unfolding sorted_wrt_rev by (auto simp: sorted_wrt_iff_nth_less)

lemma asc_scan_sound:
  assumes "scan_input ivs" and "n \<le> 30"
    and "rbind (LinearScan_ctor dbg n ivs) (allocateAndAssignRegs dbg) = Ok s"
  shows "map v_ranges (ls_intervals s) = map v_ranges ivs \<and>
    (\<forall>i < length ivs. in_reg (ls_intervals s) i \<longrightarrow> reg_of (ls_intervals s) i < n) \<and>
    (\<forall>i < length ivs. \<forall>j < length ivs. i \<noteq> j \<and> in_reg (ls_intervals s) i \<and> in_reg (ls_intervals s) j \<and>
       reg_of (ls_intervals s) i = reg_of (ls_intervals s) j \<longrightarrow> covered (ivs ! i) \<inter> covered (ivs ! j) = {})"
proof -
  obtain s0 where s0: "LinearScan_ctor dbg n ivs = Ok s0" "ls_intervals s0 = ivs"
    and inv0: "linear_inv n (first_point ivs) (past_point ivs) [] (rev [0..<length ivs]) s0"
    using scan_start [OF assms(1,2)] by blast
  with assms(3) have run: "allocate_all dbg (rev [0..<length ivs]) s0 = Ok s"
    by (simp add: allocateAndAssignRegs_def)
  have inv: "linear_inv n (first_point ivs) (past_point ivs) (rev [0..<length ivs]) [] s"
    using allocate_all_inv [OF inv0 run] by simp
  note I = scan_invD [OF inv [unfolded linear_inv_def]]
  have disj: "covered (ivs ! i) \<inter> covered (ivs ! j) = {}"
    if "j < i" "i < length ivs" "in_reg (ls_intervals s) i" "in_reg (ls_intervals s) j"
      "reg_of (ls_intervals s) i = reg_of (ls_intervals s) j" for i j
  proof -
    have "past_point ivs i \<le> first_point ivs j"
      using I(7) [unfolded sorted_wrt_rev_upt, rule_format, of j i] that by simp
    moreover have "j < length ivs" using that by simp
    ultimately have "x \<notin> covered (ivs ! j)" if "x \<in> covered (ivs ! i)" for x
      using covered_hull(2) [OF assms(1) \<open>i < length ivs\<close> that] covered_hull(1) [OF assms(1), of j x] by linarith
    then show ?thesis by blast
  qed
  have "map v_ranges (ls_intervals s) = map v_ranges ivs"
    using allocate_all_ranges [OF run] by (simp add: ranges_of_def s0)
  moreover have "\<forall>i < length ivs. in_reg (ls_intervals s) i \<longrightarrow> reg_of (ls_intervals s) i < n"
    using I(6) by simp
  moreover have "covered (ivs ! i) \<inter> covered (ivs ! j) = {}"
    if "i \<noteq> j" "i < length ivs" "j < length ivs" "in_reg (ls_intervals s) i" "in_reg (ls_intervals s) j"
      "reg_of (ls_intervals s) i = reg_of (ls_intervals s) j" for i j
    using disj [of i j] disj [of j i] that by (metis inf_commute linorder_neqE_nat)
  ultimately show ?thesis by blast
qed

text \<open>
  C13. Linear scan is safe, whether the scan meets the intervals by increasing or by decreasing begin:
  when it returns, intervals that share a register have no program point in common, registers are
  below the register count, and the ranges are those of the input.
\<close>

theorem linear_scan_sound:
  assumes "scan_input ivs \<or> scan_input (rev ivs)" and "n \<le> 30"
    and "rbind (LinearScan_ctor dbg n ivs) (allocateAndAssignRegs dbg) = Ok s"
  shows "map v_ranges (ls_intervals s) = map v_ranges ivs \<and>
    (\<forall>i < length ivs. in_reg (ls_intervals s) i \<longrightarrow> reg_of (ls_intervals s) i < n) \<and>
    (\<forall>i < length ivs. \<forall>j < length ivs. i \<noteq> j \<and> in_reg (ls_intervals s) i \<and> in_reg (ls_intervals s) j \<and>
       reg_of (ls_intervals s) i = reg_of (ls_intervals s) j \<longrightarrow> covered (ivs ! i) \<inter> covered (ivs ! j) = {})"
  using assms(1)
proof
  assume "scan_input ivs"
  from asc_scan_sound [OF this assms(2,3)] show ?thesis by blast
next
  assume "scan_input (rev ivs)"
  note D = desc_distinct [OF this assms(2,3)]
  have "i = j" if "i < length ivs" "j < length ivs" "in_reg (ls_intervals s) i" "in_reg (ls_intervals s) j"
    "reg_of (ls_intervals s) i = reg_of (ls_intervals s) j" for i j
    using inj_onD [OF D(3), of i j] that by simp
  with D(2,4) show ?thesis by blast
qed

theorem linear_scan_sound_witness:
  "\<exists>s. rbind (LinearScan_ctor False 2 sample_intervals) (allocateAndAssignRegs False) = Ok s \<and>
     (\<forall>i < length sample_intervals. in_reg (ls_intervals s) i \<longrightarrow> reg_of (ls_intervals s) i < 2)"
proof -
  obtain s where s: "rbind (LinearScan_ctor False 2 sample_intervals) (allocateAndAssignRegs False) = Ok s"
    using sample_scan by blast
  with linear_scan_sound [OF disjI1 [OF sample_scan_input] _ s] show ?thesis by auto
qed

text \<open>
  C14. No register is ever reused: when the vector holds the intervals by increasing begin, which is
  how the liveness analyzer appends them, the scan starts with the last one, no interval expires,
  and the intervals in registers are in different ones, so they are at most as many as the registers.
\<close>

theorem registers_not_reused:
  assumes "scan_input (rev ivs)" and "n \<le> 30"
    and "rbind (LinearScan_ctor dbg n ivs) (allocateAndAssignRegs dbg) = Ok s"
  shows "(\<forall>i < length ivs. \<forall>j < length ivs. i \<noteq> j \<and> in_reg (ls_intervals s) i \<and> in_reg (ls_intervals s) j \<longrightarrow>
      reg_of (ls_intervals s) i \<noteq> reg_of (ls_intervals s) j) \<and>
    card {i. i < length ivs \<and> in_reg (ls_intervals s) i} \<le> n"
proof -
  note D = desc_distinct [OF assms]
  have "reg_of (ls_intervals s) ` {i. i < length ivs \<and> in_reg (ls_intervals s) i} \<subseteq> {..<n}"
    using D(2) by auto
  then have "card {i. i < length ivs \<and> in_reg (ls_intervals s) i} \<le> n"
    using card_inj_on_le [OF D(3), of "{..<n}"] by simp
  moreover have "i = j" if "i < length ivs" "j < length ivs" "in_reg (ls_intervals s) i" "in_reg (ls_intervals s) j"
    "reg_of (ls_intervals s) i = reg_of (ls_intervals s) j" for i j
    using inj_onD [OF D(3), of i j] that by simp
  ultimately show ?thesis by blast
qed

text \<open>Two intervals that do not overlap, and one register: the second interval to be scanned takes it away.\<close>

definition disjoint_intervals :: "LiveInterval list" where
  "disjoint_intervals = [sample_interval [(2, 4)], sample_interval [(6, 8)]]"

theorem registers_not_reused_witness:
  "\<exists>s. rbind (LinearScan_ctor False 1 disjoint_intervals) (allocateAndAssignRegs False) = Ok s \<and>
     \<not> in_reg (ls_intervals s) 1 \<and> card {i. i < length disjoint_intervals \<and> in_reg (ls_intervals s) i} \<le> 1"
proof -
  have m: "Min (covered (sample_interval [(2, 4)])) = 2" "Min (covered (sample_interval [(6, 8)])) = 6"
    by (rule Min_eqI; auto simp: sample_covered)+
  have "scan_input (rev disjoint_intervals)"
    by (simp add: scan_input_def disjoint_intervals_def m)
      (simp add: sample_interval_def interval_ok_def ranges_ok_def)
  moreover have "\<exists>s. rbind (LinearScan_ctor False 1 disjoint_intervals) (allocateAndAssignRegs False) = Ok s \<and>
      \<not> in_reg (ls_intervals s) 1"
    by (simp add: disjoint_intervals_def sample_interval_defs scan_eval upt_rec Let_def in_reg_def)
  ultimately show ?thesis using registers_not_reused [of disjoint_intervals 1 False] by auto
qed

text \<open>
  C15. Suppose the vector holds the intervals by decreasing begin, so that the scan, which walks it
  backwards, meets them by increasing begin, as its comment intends.  (The program itself fills the
  vector the other way round, see \<open>registers_not_reused\<close>.)  With at most 30 registers it then succeeds
  without spilling when, where an interval begins, the intervals around that point are at most as
  many as the registers; the debug build needs a spare one.
\<close>

theorem linear_scan_succeeds:
  assumes "scan_input ivs" and "n \<le> 30"
    and "\<And>c. c < length ivs \<Longrightarrow>
      card {j. j < length ivs \<and> Min (covered (ivs ! j)) \<le> Min (covered (ivs ! c)) \<and> Min (covered (ivs ! c)) \<le> Max (covered (ivs ! j))}
        \<le> (if dbg then n - 1 else n)"
  shows "\<exists>s. rbind (LinearScan_ctor dbg n ivs) (allocateAndAssignRegs dbg) = Ok s \<and>
    (\<forall>i < length ivs. in_reg (ls_intervals s) i)"
proof -
  obtain s0 where s0: "LinearScan_ctor dbg n ivs = Ok s0" "ls_intervals s0 = ivs"
    and inv0: "linear_inv n (first_point ivs) (past_point ivs) [] (rev [0..<length ivs]) s0"
    and un0: "unspilled n (past_point ivs) [] ivs (ls_active s0) (ls_regMap s0)"
    using scan_start [OF assms(1,2)] by blast
  have "pressure (first_point ivs) (past_point ivs) (length ivs) c \<le> (if dbg then n - 1 else n) \<and> first_point ivs c < past_point ivs c"
    if "c < length ivs" for c
  proof
    show "pressure (first_point ivs) (past_point ivs) (length ivs) c \<le> (if dbg then n - 1 else n)"
      using assms(3) [OF that] by (simp add: pressure_def first_point_def past_point_def less_Suc_eq_le)
    have "finite (covered (ivs ! c)) \<and> covered (ivs ! c) \<noteq> {}"
      using assms(1) that by (intro covered_nonempty) (simp_all add: scan_input_def)
    then show "first_point ivs c < past_point ivs c" by (simp add: first_point_def past_point_def less_Suc_eq_le)
  qed
  with inv0 un0 have "\<exists>s. allocate_all dbg (rev [0..<length ivs]) s0 = Ok s \<and>
      (\<forall>i \<in> set ([] @ rev [0..<length ivs]). in_reg (ls_intervals s) i)"
    by (intro allocate_all_ok) (simp_all add: s0 split del: if_split)
  then show ?thesis by (auto simp: s0 allocateAndAssignRegs_def)
qed

theorem linear_scan_succeeds_witness:
  "\<exists>s. rbind (LinearScan_ctor False 2 sample_intervals) (allocateAndAssignRegs False) = Ok s \<and>
     (\<forall>i < length sample_intervals. in_reg (ls_intervals s) i)"
proof (rule linear_scan_succeeds [OF sample_scan_input])
  fix c assume c: "c < length sample_intervals"
  have m: "Min (covered (sample_intervals ! 0)) = 6" "Min (covered (sample_intervals ! Suc 0)) = 2"
    "Min (covered (sample_intervals ! 2)) = 0"
    by (rule Min_eqI; auto simp: sample_intervals_def sample_covered)+
  have M: "Max (covered (sample_intervals ! 0)) = 7" "Max (covered (sample_intervals ! Suc 0)) = 5"
    "Max (covered (sample_intervals ! 2)) = 8"
    by (rule Max_eqI; auto simp: sample_intervals_def sample_covered)+
  let ?S = "{j. j < length sample_intervals \<and> Min (covered (sample_intervals ! j)) \<le> Min (covered (sample_intervals ! c)) \<and>
      Min (covered (sample_intervals ! c)) \<le> Max (covered (sample_intervals ! j))}"
  have c3: "c = 0 \<or> c = Suc 0 \<or> c = 2" using c by (auto simp: sample_intervals_def)
  have "?S \<subseteq> (if c = 0 then {0, 2} else if c = Suc 0 then {Suc 0, 2} else {2})"
  proof
    fix j assume j: "j \<in> ?S"
    then have "j = 0 \<or> j = Suc 0 \<or> j = 2" by (auto simp: sample_intervals_def)
    with c3 j show "j \<in> (if c = 0 then {0, 2} else if c = Suc 0 then {Suc 0, 2} else {2})"
      by (elim disjE) (simp_all add: m M)
  qed
  then have "card ?S \<le> card (if c = 0 then {0, 2} else if c = Suc 0 then {Suc 0, 2} else {2 :: nat})"
    by (intro card_mono) simp_all
  also have "\<dots> \<le> 2" by simp
  finally show "card ?S \<le> (if False then 2 - 1 else 2)" by simp
qed simp

text \<open>
  C16. The register map works for at most 30 registers: the constructor returns an empty map,
  \<open>AcquireReg\<close> on a map that is not full returns a free register below the count and marks it
  used, \<open>ReleaseReg\<close> of a used register makes it free again; for 31 to 63 registers, the count
  of the default architecture among them, the arithmetic of the constructor is undefined.
\<close>

theorem register_map_bounds:
  "(n \<le> 30 \<longrightarrow> (\<exists>m. RegMap_ctor dbg n = Ok m \<and> regs_ok n m \<and> (\<forall>r < n. is_free m r))) \<and>
   (regs_ok n m \<and> \<not> IsFull m \<longrightarrow>
      (\<exists>r m'. AcquireReg m = Ok (int r, m') \<and> r < n \<and> is_free m r \<and> regs_ok n m' \<and>
         (\<forall>q < n. is_free m' q \<longleftrightarrow> q \<noteq> r \<and> is_free m q))) \<and>
   (regs_ok n m \<and> r < n \<longrightarrow>
      (\<exists>m'. ReleaseReg dbg r m = Ok m' \<and> regs_ok n m' \<and> (\<forall>q < n. is_free m' q \<longleftrightarrow> q = r \<or> is_free m q))) \<and>
   (31 \<le> n \<and> n < 64 \<longrightarrow> RegMap_ctor dbg n = UB)"
proof (intro conjI impI)
  assume "n \<le> 30"
  then show "\<exists>m. RegMap_ctor dbg n = Ok m \<and> regs_ok n m \<and> (\<forall>r < n. is_free m r)"
    by (metis RegMap_ctor_ok)
next
  assume "regs_ok n m \<and> \<not> IsFull m"
  then show "\<exists>r m'. AcquireReg m = Ok (int r, m') \<and> r < n \<and> is_free m r \<and> regs_ok n m' \<and>
      (\<forall>q < n. is_free m' q \<longleftrightarrow> q \<noteq> r \<and> is_free m q)"
    using regs_ok_bits(2,4) by (metis AcquireReg_ok)
next
  assume "regs_ok n m \<and> r < n"
  then show "\<exists>m'. ReleaseReg dbg r m = Ok m' \<and> regs_ok n m' \<and> (\<forall>q < n. is_free m' q \<longleftrightarrow> q = r \<or> is_free m q)"
    using ReleaseReg_ok regs_ok_bits(1,3) by blast
next
  assume n: "31 \<le> n \<and> n < 64"
  then show "RegMap_ctor dbg n = UB" using RegMap_ctor_31 RegMap_ctor_32 by (cases "n = 31") simp_all
qed

theorem register_map_bounds_witness:
  "RegMap_ctor True 31 = UB \<and> (\<exists>m. RegMap_ctor True 5 = Ok m \<and> regs_ok 5 m)"
proof
  show "RegMap_ctor True 31 = UB" using register_map_bounds [of 31 True] by simp
  have "(5 :: nat) \<le> 30" by simp
  with register_map_bounds [of 5 True] show "\<exists>m. RegMap_ctor True 5 = Ok m \<and> regs_ok 5 m" by blast
qed

section \<open>Peephole optimizations\<close>







end
