(* ===== verification/JIT_IRProperties.thy ===== *)
theory JIT_IRProperties
  imports JIT_BlockList JIT_Build JIT_Traverse
begin

text \<open>
  The properties of the intermediate representation: the instruction lists of blocks, the edges
  between blocks, the def-use edges, copies of instructions, markers and the traversal.
\<close>

section \<open>A small heap\<close>

text \<open>Four blocks without edges, free constants, one graph.\<close>

definition sample_heap :: heap where
  "sample_heap =
     \<lparr>h_i = \<lambda>_. InstructionBase_init ConstantInstruction Op_CONST T_I32 0, h_b = \<lambda>_. BasicBlock_init 0,
      h_l = \<lambda>_. Loop_init 0 None False False, h_g = \<lambda>_. Graph_init, h_new_i = 8, h_new_b = 4, h_new_l = 0\<rparr>"

lemma sample_heap_sel [simp]:
  "h_i sample_heap p = InstructionBase_init ConstantInstruction Op_CONST T_I32 0" "h_b sample_heap b = BasicBlock_init 0"
  "h_g sample_heap g = Graph_init" "h_new_i sample_heap = 8" "h_new_b sample_heap = 4"
  by (simp_all add: sample_heap_def)

section \<open>Instruction lists\<close>

text \<open>The operations on the instructions of a block, and the lists they stand for.\<close>

datatype edit =
    Push_front iptr | Push_back iptr | Insert_after iptr iptr | Insert_before iptr iptr
  | Replace iptr iptr | Unlink iptr

fun apply_edit :: "edit \<Rightarrow> bptr \<Rightarrow> heap_step" where
  "apply_edit (Push_front t) = PushForwardInstruction t"
| "apply_edit (Push_back t) = PushBackInstruction t"
| "apply_edit (Insert_after a t) = InsertAfter a t"
| "apply_edit (Insert_before a t) = InsertBefore a t"
| "apply_edit (Replace a t) = replaceInControlFlow a t"
| "apply_edit (Unlink t) = UnlinkInstruction t"

fun edited :: "bool \<Rightarrow> edit \<Rightarrow> iptr list \<times> iptr list \<Rightarrow> iptr list \<times> iptr list" where
  "edited phi (Push_front t) (ps, xs) = (if phi then (t # ps, xs) else (ps, t # xs))"
| "edited phi (Push_back t) (ps, xs) = (if phi then (t # ps, xs) else (ps, xs @ [t]))"
| "edited phi (Insert_after a t) (ps, xs) = (ps, takeWhile (\<lambda>x. x \<noteq> a) xs @ a # t # tl (dropWhile (\<lambda>x. x \<noteq> a) xs))"
| "edited phi (Insert_before a t) (ps, xs) = (ps, takeWhile (\<lambda>x. x \<noteq> a) xs @ t # dropWhile (\<lambda>x. x \<noteq> a) xs)"
| "edited phi (Replace a t) (ps, xs) = (ps, takeWhile (\<lambda>x. x \<noteq> a) xs @ t # tl (dropWhile (\<lambda>x. x \<noteq> a) xs))"
| "edited phi (Unlink t) (ps, xs) = (remove1 t ps, remove1 t xs)"

text \<open>
  When an operation works: the anchor is no PHI instruction of the block and, for an insertion
  before it, not the first of the other instructions behind PHI instructions.
\<close>

fun permitted :: "bool \<Rightarrow> edit \<Rightarrow> iptr list \<times> iptr list \<Rightarrow> bool" where
  "permitted phi (Push_front t) (ps, xs) = (phi \<or> ps = [] \<or> xs = [])"
| "permitted phi (Push_back t) (ps, xs) = True"
| "permitted phi (Insert_after a t) (ps, xs) = (\<not> phi \<and> a \<in> set xs)"
| "permitted phi (Insert_before a t) (ps, xs) = (\<not> phi \<and> a \<in> set xs \<and> (ps = [] \<or> hd xs \<noteq> a))"
| "permitted phi (Replace a t) (ps, xs) = (\<not> phi \<and> a \<in> set xs \<and> (ps = [] \<or> hd xs \<noteq> a))"
| "permitted phi (Unlink t) (ps, xs) = (t \<in> set (ps @ xs))"

fun new_of :: "edit \<Rightarrow> iptr option" where
  "new_of (Push_front t) = Some t"
| "new_of (Push_back t) = Some t"
| "new_of (Insert_after a t) = Some t"
| "new_of (Insert_before a t) = Some t"
| "new_of (Replace a t) = Some t"
| "new_of (Unlink t) = None"

lemma split_at:
  assumes "a \<in> set xs"
  obtains as bs where "xs = as @ a # bs" "takeWhile (\<lambda>x. x \<noteq> a) xs = as" "dropWhile (\<lambda>x. x \<noteq> a) xs = a # bs"
    "as = [] \<longrightarrow> hd xs = a"
proof -
  obtain as bs where s: "xs = as @ a # bs" "a \<notin> set as" using split_list_first [OF assms] by blast
  then have "takeWhile (\<lambda>x. x \<noteq> a) xs = as" "dropWhile (\<lambda>x. x \<noteq> a) xs = a # bs"
    by (auto simp: takeWhile_append dropWhile_append)
  with s show thesis by (intro that) auto
qed

lemma edit_list_op:
  assumes "block_list this phis insts h" and "permitted phi e (phis, insts)"
    and "\<And>t. new_of e = Some t \<Longrightarrow> free_instr t h \<and> (IsPhi (h_i h t) \<longleftrightarrow> phi)"
  shows "list_op this h (apply_edit e this h) (fst (edited phi e (phis, insts))) (snd (edited phi e (phis, insts)))"
proof (cases e)
  case (Push_front t)
  then show ?thesis
    using assms pushPhi_list_op [OF assms(1), of t] PushForward_list_op [OF assms(1), of t]
    by (cases phi) (auto simp: PushForwardInstruction_def)
next
  case (Push_back t)
  then show ?thesis
    using assms pushPhi_list_op [OF assms(1), of t] PushBack_list_op [OF assms(1), of t]
    by (cases phi) (auto simp: PushBackInstruction_def)
next
  case (Insert_after a t)
  with assms(2) have "a \<in> set insts" by simp
  then obtain as bs where "insts = as @ a # bs" "takeWhile (\<lambda>x. x \<noteq> a) insts = as" "dropWhile (\<lambda>x. x \<noteq> a) insts = a # bs"
    by (rule split_at)
  with Insert_after assms InsertAfter_list_op [of this phis as a bs h t] show ?thesis by simp
next
  case (Insert_before a t)
  with assms(2) have "a \<in> set insts" by simp
  then obtain as bs where "insts = as @ a # bs" "takeWhile (\<lambda>x. x \<noteq> a) insts = as" "dropWhile (\<lambda>x. x \<noteq> a) insts = a # bs"
    "as = [] \<longrightarrow> hd insts = a"
    by (rule split_at)
  note sp = this
  have "phis = [] \<or> as \<noteq> []" using assms(2) Insert_before sp(4) by auto
  with sp Insert_before assms InsertBefore_list_op [of this phis as a bs h t] show ?thesis by simp
next
  case (Replace a t)
  with assms(2) have "a \<in> set insts" by simp
  then obtain as bs where "insts = as @ a # bs" "takeWhile (\<lambda>x. x \<noteq> a) insts = as" "dropWhile (\<lambda>x. x \<noteq> a) insts = a # bs"
    "as = [] \<longrightarrow> hd insts = a"
    by (rule split_at)
  note sp = this
  have "phis = [] \<or> as \<noteq> []" using assms(2) Replace sp(4) by auto
  with sp Replace assms replaceInControlFlow_list_op [of this phis as a bs h t] show ?thesis by simp
next
  case (Unlink t)
  then show ?thesis using assms UnlinkInstruction_list_op [OF assms(1), of t] by simp
qed

text \<open>
  C18. The linked instruction lists of a block refine two lists, the PHI instructions and the
  others: every permitted operation returns, its effect is that of the list operation, links,
  ends and count stay consistent, nothing else of the heap changes, and other blocks keep their
  lists.  Permitted are all operations of a block but three, which the code gets wrong or does not
  offer: inserting before or replacing the first instruction behind PHI instructions, putting an
  ordinary instruction in front of a block that has instructions of both kinds, and inserting next to or
  replacing a PHI instruction.
\<close>

theorem instruction_list_refinement:
  assumes "block_list this phis insts h" and "permitted phi e (phis, insts)"
    and "\<And>t. new_of e = Some t \<Longrightarrow> free_instr t h \<and> (IsPhi (h_i h t) \<longleftrightarrow> phi)"
  shows "\<exists>h'. apply_edit e this h = Ok h' \<and>
    block_list this (fst (edited phi e (phis, insts))) (snd (edited phi e (phis, insts))) h' \<and>
    erase_lists h' = erase_lists h \<and>
    (\<forall>b ps xs. b \<noteq> this \<longrightarrow> block_list b ps xs h \<longrightarrow> block_list b ps xs h')"
  using edit_list_op [OF assms] local_to_block_list unfolding list_op_def by blast

lemma sample_block_list: "block_list b [] [] sample_heap"
  by (simp add: block_list_def BasicBlock_init_def InstructionBase_init_def)

theorem instruction_list_refinement_witness:
  "\<exists>h'. apply_edit (Push_back 1) 0 sample_heap = Ok h' \<and> block_list 0 [] [1] h'"
proof -
  have "free_instr 1 sample_heap \<and> \<not> IsPhi (h_i sample_heap 1)"
    by (simp add: free_instr_def InstructionBase_init_def IsPhi_def)
  then show ?thesis
    using instruction_list_refinement [OF sample_block_list [of 0], of False "Push_back 1"] by auto
qed

section \<open>Control flow\<close>

text \<open>
  The operations that change edges.  A new block is one the allocator returns: no block refers to
  it.  The last block of the graph keeps its edges when it is unlinked, so it is not.
\<close>

inductive cfg_step :: "gptr \<Rightarrow> heap \<Rightarrow> heap \<Rightarrow> bool" for g where
  new: "new_block g h = (b, h') \<Longrightarrow> succs_of h b = [] \<Longrightarrow> preds_of h b = [] \<Longrightarrow> cfg_step g h h'"
| add: "cfg_step g h (AddBasicBlock b g h)"
| connect: "ConnectBasicBlocks l r g h = Ok h' \<Longrightarrow> cfg_step g h h'"
| disconnect: "DisconnectBasicBlocks l r g h = Ok h' \<Longrightarrow> cfg_step g h h'"
| between: "InsertBetween b p s h = Ok h' \<Longrightarrow> cfg_step g h h'"
| before: "AddBasicBlockBefore t n g h = Ok h' \<Longrightarrow> cfg_step g h h'"
| unlink: "UnlinkBasicBlock b g h = Ok h' \<Longrightarrow> g_lastBlock (h_g h g) \<noteq> Some b \<Longrightarrow> cfg_step g h h'"

inductive_cases cfg_stepE: "cfg_step g h h'"

lemma new_block_cfg: "new_block g h = (b, h') \<Longrightarrow> succs_of h b = [] \<Longrightarrow> preds_of h b = [] \<Longrightarrow> same_cfg h h'"
  by (auto simp: new_block_def Let_def same_cfg_def succs_of_def preds_of_def BasicBlock_init_def fun_eq_iff)

lemma AddBasicBlock_cfg: "same_cfg h (AddBasicBlock b g h)"
  by (simp add: AddBasicBlock_def Let_def same_cfg_upd_b)

lemma cfg_step_ok: "cfg_step g h h' \<Longrightarrow> cfg_ok h \<Longrightarrow> cfg_ok h'"
proof (induction rule: cfg_step.induct)
  case (new h b h')
  then show ?case using same_cfg_ok [OF new_block_cfg] by blast
next
  case (add h b)
  then show ?case using same_cfg_ok [OF AddBasicBlock_cfg] by blast
qed (blast intro: ConnectBasicBlocks_cfg(1) DisconnectBasicBlocks_cfg(1) InsertBetween_cfg(1) AddBasicBlockBefore_cfg(1)
  UnlinkBasicBlock_cfg(1))+

text \<open>
  C19. The invariant of the edges: in every heap reached by creating and adding blocks, connecting,
  disconnecting, inserting a block between two or before one, and unlinking a block that is not the
  last one, successor and predecessor lists describe the same edges, without duplicates, and no block
  has more than two successors.
\<close>

theorem cfg_invariant:
  assumes "(cfg_step g)\<^sup>*\<^sup>* h h'" and "cfg_ok h"
  shows "cfg_ok h'"
  using assms by (induction rule: rtranclp_induct) (blast intro: cfg_step_ok)+

lemma sample_cfg: "cfg_ok sample_heap" "edges sample_heap = {}"
  by (auto simp: cfg_ok_def edges_def succs_of_def preds_of_def BasicBlock_init_def)

theorem cfg_invariant_witness:
  "\<exists>h1 h2. ConnectBasicBlocks 0 1 0 sample_heap = Ok h1 \<and> ConnectBasicBlocks 0 2 0 h1 = Ok h2 \<and> cfg_ok h2"
proof -
  have s: "length (succs_of sample_heap 0) < 2" by (simp add: succs_of_def BasicBlock_init_def)
  obtain h1 where h1: "ConnectBasicBlocks 0 1 0 sample_heap = Ok h1"
    using ConnectBasicBlocks_total [OF sample_cfg(1), of 0 1 0] s sample_cfg(2) by auto
  note C = ConnectBasicBlocks_cfg [OF sample_cfg(1) h1]
  have "succs_of h1 0 = [1]"
    using h1 by (auto simp: ConnectBasicBlocks_def res_simps AddSuccessor_Ok AddPredecessor_Ok succs_of_def [of sample_heap] BasicBlock_init_def)
  then obtain h2 where h2: "ConnectBasicBlocks 0 2 0 h1 = Ok h2"
    using ConnectBasicBlocks_total [OF C(1), of 0 2 0] C(2) sample_cfg(2) by auto
  have "(cfg_step 0)\<^sup>*\<^sup>* sample_heap h2"
    using cfg_step.connect [OF h1] cfg_step.connect [OF h2] by (blast intro: rtranclp.intros)
  from cfg_invariant [OF this sample_cfg(1)] h1 h2 show ?thesis by blast
qed

text \<open>
  C20. The effect of each operation on the set of edges.
\<close>

theorem cfg_edges:
  assumes "cfg_ok h"
  shows "(ConnectBasicBlocks l r g h = Ok h' \<longrightarrow> edges h' = insert (l, r) (edges h) \<and> (l, r) \<notin> edges h) \<and>
    (DisconnectBasicBlocks l r g h = Ok h' \<longrightarrow> edges h' = edges h - {(l, r)} \<and> (l, r) \<in> edges h) \<and>
    (InsertBetween b l r h = Ok h' \<longrightarrow> edges h' = edges h - {(l, r)} \<union> {(l, b), (b, r)} \<and> (l, r) \<in> edges h) \<and>
    (AddBasicBlockBefore r b g h = Ok h' \<longrightarrow>
       edges h' = {(x, y) \<in> edges h. y \<noteq> r} \<union> {(x, b) |x. (x, r) \<in> edges h} \<union> {(b, r)}) \<and>
    (UnlinkBasicBlock b g h = Ok h' \<and> g_lastBlock (h_g h g) \<noteq> Some b \<longrightarrow>
       edges h' = {(x, y) \<in> edges h. x \<noteq> b \<and> y \<noteq> b}) \<and>
    ((l, r) \<notin> edges h \<and> length (succs_of h l) < 2 \<longrightarrow> (\<exists>h'. ConnectBasicBlocks l r g h = Ok h'))"
proof (intro conjI impI)
  show "edges h' = insert (l, r) (edges h)" "(l, r) \<notin> edges h" if "ConnectBasicBlocks l r g h = Ok h'"
    by (rule ConnectBasicBlocks_cfg [OF assms that])+
  show "edges h' = edges h - {(l, r)}" "(l, r) \<in> edges h" if "DisconnectBasicBlocks l r g h = Ok h'"
    by (rule DisconnectBasicBlocks_cfg [OF assms that])+
  show "edges h' = edges h - {(l, r)} \<union> {(l, b), (b, r)}" "(l, r) \<in> edges h" if "InsertBetween b l r h = Ok h'"
    by (rule InsertBetween_cfg [OF assms that])+
  show "edges h' = {(x, y) \<in> edges h. y \<noteq> r} \<union> {(x, b) |x. (x, r) \<in> edges h} \<union> {(b, r)}"
    if "AddBasicBlockBefore r b g h = Ok h'"
    by (rule AddBasicBlockBefore_cfg(2) [OF assms that])
  show "edges h' = {(x, y) \<in> edges h. x \<noteq> b \<and> y \<noteq> b}"
    if "UnlinkBasicBlock b g h = Ok h' \<and> g_lastBlock (h_g h g) \<noteq> Some b"
    using that by (intro UnlinkBasicBlock_cfg(2) [OF assms, of b g]) simp_all
  show "\<exists>h'. ConnectBasicBlocks l r g h = Ok h'" if "(l, r) \<notin> edges h \<and> length (succs_of h l) < 2"
    using that by (intro ConnectBasicBlocks_total [OF assms]) simp_all
qed

theorem cfg_edges_witness:
  "\<exists>h'. ConnectBasicBlocks 0 1 0 sample_heap = Ok h' \<and> edges h' = {(0, 1)}"
proof -
  have "length (succs_of sample_heap 0) < 2" by (simp add: succs_of_def BasicBlock_init_def)
  then obtain h' where "ConnectBasicBlocks 0 1 0 sample_heap = Ok h'"
    using cfg_edges [OF sample_cfg(1), of 0 1 0 sample_heap] sample_cfg(2) by blast
  then show ?thesis using cfg_edges [OF sample_cfg(1), of 0 1 0 h'] sample_cfg(2) by auto
qed

section \<open>Def-use edges\<close>

text \<open>
  C21. \<open>ReplaceInputInUsers\<close> moves the def-use edges of an instruction to another one: every
  input that was the instruction becomes the new one, the users of every other instruction match
  the inputs again, nobody reads the replaced instruction, and only its own user list is stale.
\<close>

theorem replace_input_in_users:
  assumes "def_use h" and "new \<noteq> this" and "\<And>u. u \<in> set (i_users (h_i h this)) \<Longrightarrow> HasInputs (h_i h u)"
  shows "\<exists>h'. ReplaceInputInUsers (Some new) this h = Ok h' \<and>
    (\<forall>u. i_inputs (h_i h' u) = map (\<lambda>x. if x = Some this then Some new else x) (i_inputs (h_i h u))) \<and>
    (\<forall>d. d \<noteq> this \<longrightarrow> def_use_at d h') \<and>
    (\<forall>u. Some this \<notin> set (i_inputs (h_i h' u))) \<and>
    i_users (h_i h' this) = i_users (h_i h this) \<and>
    i_users (h_i h' new) = i_users (h_i h new) @ i_users (h_i h this)"
proof -
  obtain h' where h': "ReplaceInputInUsers (Some new) this h = Ok h'"
    "\<And>u. i_inputs (h_i h' u) = map (\<lambda>x. if x = Some this then Some new else x) (i_inputs (h_i h u))"
    "\<And>d. d \<noteq> this \<Longrightarrow> def_use_at d h'" "i_users (h_i h' this) = i_users (h_i h this)"
    "i_users (h_i h' new) = i_users (h_i h new) @ i_users (h_i h this)" "\<And>u. Some this \<notin> set (i_inputs (h_i h' u))"
    by (rule ReplaceInputInUsers_correct [OF assms]) (simp, metis)
  then show ?thesis by blast
qed

lemma sample_def_use: "def_use sample_heap"
  by (simp add: def_use_def def_use_at_def InstructionBase_init_def)

text \<open>A negation of instruction 0, at address 8.\<close>

definition sample_neg :: heap where
  "sample_neg = (case CreateNEG T_I32 (Some 0) 0 sample_heap of Ok (p, h) \<Rightarrow> h | _ \<Rightarrow> sample_heap)"

lemma sample_neg_run: "CreateNEG T_I32 (Some 0) 0 sample_heap = Ok (8, sample_neg)"
  by (simp add: sample_neg_def CreateNEG_def CREATE_INST_WITH_PROP_def UnaryReg_ctor_def new_instr_Ok Let_def)

lemma sample_neg_sel [simp]:
  "h_new_i sample_neg = 9"
  "h_i sample_neg 8 = (FixedInputs UnaryRegInstruction Op_NEG T_I32 [Some 0])\<lparr>i_id := 0, i_properties := ARITHM\<rparr>"
  "q \<noteq> 8 \<Longrightarrow> h_i sample_neg q = (InstructionBase_init ConstantInstruction Op_CONST T_I32 0)\<lparr>i_users := if q = 0 then [8] else []\<rparr>"
  by (simp_all add: sample_neg_def CreateNEG_def CREATE_INST_WITH_PROP_def UnaryReg_ctor_def new_instr_Ok Let_def
      number_instr_def SetProperty_def upd_g_def FixedInputs_def InstructionBase_init_def Graph_init_def)
    (simp_all add: upd_i_def upd_g_def)

lemma sample_neg_links:
  "i_users (h_i sample_neg q) = (if q = 0 then [8] else [])" "i_inputs (h_i sample_neg q) = (if q = 8 then [Some 0] else [])"
  by (cases "q = 8"; simp add: FixedInputs_def InstructionBase_init_def)+

lemma sample_neg_def_use: "def_use sample_neg"
  by (auto simp: def_use_def def_use_at_def sample_neg_links)

theorem replace_input_in_users_witness:
  "\<exists>h'. ReplaceInputInUsers (Some 1) 0 sample_neg = Ok h' \<and> i_inputs (h_i h' 8) = [Some 1]"
proof -
  have "HasInputs (h_i sample_neg u)" if "u \<in> set (i_users (h_i sample_neg 0))" for u
    using that by (auto simp: sample_neg_links HasInputs_def SatisfiesProperty_def ARITHM_def split: if_split_asm)
  from replace_input_in_users [OF sample_neg_def_use _ this, of 1] show ?thesis
    by (fastforce simp: sample_neg_links)
qed

section \<open>Copies\<close>

text \<open>
  C23. Copying through the dispatch of the instruction classes is the generic copy: at a new address
  and with the next number of the target builder, the same opcode, type, properties, immediates and
  conditions, null inputs (none for calls and PHI instructions), no users, no neighbours and no block.
\<close>

theorem copy_equivalence:
  assumes "built i"
  shows "Copy_in i g h =
    Ok (h_new_i h, upd_g g (\<lambda>x. x\<lparr>g_currentId := g_currentId x + 1\<rparr>)
      (upd_i (h_new_i h) (\<lambda>_. blank_copy i (g_currentId (h_g h g))) (h\<lparr>h_new_i := Suc (h_new_i h)\<rparr>)))"
  by (rule Copy_in_correct [OF assms])

theorem copy_equivalence_witness:
  "\<exists>h'. Copy_in (h_i sample_neg 8) 0 sample_neg = Ok (9, h') \<and> i_opcode (h_i h' 9) = Op_NEG \<and> i_inputs (h_i h' 9) = [None]"
proof -
  have b: "built (h_i sample_neg 8)"
    using Create_built(8) [OF sample_neg_run] .
  show ?thesis
    using copy_equivalence [OF b, of 0 sample_neg]
    by (simp add: blank_copy_def upd_g_def FixedInputs_def InstructionBase_init_def)
qed

section \<open>Markers and traversals\<close>

text \<open>
  C24. A new marker is fresh: no marker in use shares its slot, no block carries it, and releasing it
  frees its slot.  Setting a marker on a block, or clearing it, is seen by that marker and by no marker
  of another slot.  A new marker is refused when four markers are in use or the serial numbers are
  exhausted.
\<close>

theorem marker_fresh:
  assumes "manager_ok m L"
  shows "(GetNewMarker m = Ok (mark, m') \<longrightarrow>
      manager_ok m' (insert mark L) \<and> mark \<notin> L \<and>
      (markers_ok (currentIndex m) ms \<longrightarrow> IsMarkerSet mark ms = Ok False) \<and>
      manager_ok (ReleaseMarker mark m') L) \<and>
    (SetMarker mark ms = Ok (wasSet, ms') \<longrightarrow>
      IsMarkerSet mark ms' = Ok True \<and> IsMarkerSet mark ms = Ok (\<not> wasSet) \<and>
      (\<forall>other. marker_slot other \<noteq> marker_slot mark \<longrightarrow> IsMarkerSet other ms' = IsMarkerSet other ms)) \<and>
    (ClearMarker mark ms = Ok ms'' \<and> mark \<in> L \<longrightarrow>
      IsMarkerSet mark ms'' = Ok False \<and>
      (\<forall>other. marker_slot other \<noteq> marker_slot mark \<longrightarrow> IsMarkerSet other ms'' = IsMarkerSet other ms)) \<and>
    (GetNewMarker m = Err AssertionFail \<longleftrightarrow> currentIndex m = MC_MAX_VALUE \<or> marker_slot ` L = {..<4})"
proof (intro conjI impI)
  assume n: "GetNewMarker m = Ok (mark, m')"
  note F = GetNewMarker_fresh [OF assms n]
  show "manager_ok m' (insert mark L)" "mark \<notin> L" by (rule F(1,2))+
  show "IsMarkerSet mark ms = Ok False" if "markers_ok (currentIndex m) ms" by (rule F(3) [OF that])
  show "manager_ok (ReleaseMarker mark m') L"
    using ReleaseMarker_ok [OF F(1), of mark] F(2) by simp
next
  assume s: "SetMarker mark ms = Ok (wasSet, ms')"
  show "IsMarkerSet mark ms' = Ok True" "IsMarkerSet mark ms = Ok (\<not> wasSet)"
    "\<forall>other. marker_slot other \<noteq> marker_slot mark \<longrightarrow> IsMarkerSet other ms' = IsMarkerSet other ms"
    using SetMarker_laws [OF s] by blast+
next
  assume "ClearMarker mark ms = Ok ms'' \<and> mark \<in> L"
  then have c: "ClearMarker mark ms = Ok ms''" "0 < unat (marker_value mark)"
    using assms by (simp_all add: manager_ok_def)
  show "IsMarkerSet mark ms'' = Ok False"
    "\<forall>other. marker_slot other \<noteq> marker_slot mark \<longrightarrow> IsMarkerSet other ms'' = IsMarkerSet other ms"
    using ClearMarker_laws [OF c] by blast+
qed (rule GetNewMarker_Err_iff [OF assms])

lemma first_marker: "\<exists>mark m. GetNewMarker MarkerManager_init = Ok (mark, m)"
proof -
  have "replicate MC_MAX_MARKERS False = [False, False, False, False]"
    by (simp add: MC_MAX_MARKERS_def MC_BIT_LENGTH_def numeral_eq_Suc)
  moreover have "0 < MC_MAX_VALUE" by (simp add: MC_MAX_VALUE_def MC_BIT_LENGTH_def)
  ultimately show ?thesis by (simp add: GetNewMarker_def MarkerManager_init_def ASSERT_def Let_def)
qed

theorem marker_fresh_witness:
  "\<exists>mark m. GetNewMarker MarkerManager_init = Ok (mark, m) \<and> manager_ok m {mark} \<and> manager_ok (ReleaseMarker mark m) {}"
proof -
  obtain mark m where n: "GetNewMarker MarkerManager_init = Ok (mark, m)"
    using first_marker by blast
  from marker_fresh [OF manager_init_ok, of mark m] n show ?thesis by auto
qed

text \<open>
  C25. Reverse post-order: with a consistent control flow graph and a marker to spare, the traversal
  ends, changes nothing but markers, and returns the reachable blocks, each once, from the first
  block on, an edge against the order only from a block to one it is reachable from; it stops the
  program exactly when a block of the graph is not reachable.
\<close>

theorem rpo_correct:
  assumes "cfg_ok h" and "edges_allocated h" and "first < h_new_b h" and "marks_ok graph L h"
    and "new_marker graph h \<noteq> Err AssertionFail" and "g_firstBlock (h_g h graph) = Some first"
    and "GetBasicBlocksCount (h_g h graph) > 0"
  shows "\<exists>l h'. set l = reachable_blocks first h \<and> distinct l \<and> hd (rev l) = first \<and>
    (\<forall>xs x ys y. l = xs @ x # ys \<longrightarrow> (x, y) \<in> edges h \<longrightarrow> y \<in> set xs \<or> (y, x) \<in> (edges h)\<^sup>*) \<and>
    erase_marks h' = erase_marks h \<and>
    DoRPO graph h =
      (if card (reachable_blocks first h) = GetBasicBlocksCount (h_g h graph) then Ok (rev l, h') else Err AssertionFail)"
proof -
  obtain l h' where l: "post_order first h l" "erase_marks h' = erase_marks h"
    and r: "DoRPO graph h =
      (if card (reachable_blocks first h) = GetBasicBlocksCount (h_g h graph) then Ok (rev l, h') else Err AssertionFail)"
    using DoRPO_correct [OF assms] by metis
  have "set l = reachable_blocks first h \<and> distinct l \<and> hd (rev l) = first \<and>
    (\<forall>xs x ys y. l = xs @ x # ys \<longrightarrow> (x, y) \<in> edges h \<longrightarrow> y \<in> set xs \<or> (y, x) \<in> (edges h)\<^sup>*)"
    using l(1) unfolding post_order_def by auto
  with l(2) r show ?thesis by blast
qed

text \<open>One block in the graph.\<close>

definition sample_graph :: heap where
  "sample_graph = SetFirstBasicBlock (Some 0) 0 (AddBasicBlock 0 0 sample_heap)"

theorem rpo_correct_witness: "\<exists>h'. DoRPO 0 sample_graph = Ok ([0], h')"
proof -
  have same: "same_cfg sample_heap sample_graph"
    by (simp add: sample_graph_def SetFirstBasicBlock_def AddBasicBlock_def Let_def same_cfg_upd_b)
  have c: "cfg_ok sample_graph" "edges sample_graph = {}"
    using same_cfg_ok [OF same] same_cfg_edges [OF same] sample_cfg by simp_all
  have f: "g_firstBlock (h_g sample_graph 0) = Some 0" "h_new_b sample_graph = 4" "GetBasicBlocksCount (h_g sample_graph 0) = 1"
    "g_markers (h_g sample_graph 0) = MarkerManager_init" "b_markers (h_b sample_graph b) = Markable_init" for b
    by (simp_all add: sample_graph_def SetFirstBasicBlock_def AddBasicBlock_def Let_def invalidateAfterChangedCFG_def
        GetBasicBlocksCount_def Graph_init_def BasicBlock_init_def)
      (simp_all add: upd_b_def upd_g_def)
  have m: "marks_ok 0 {} sample_graph"
    by (simp add: marks_ok_def f manager_init_ok Markable_init_ok)
  have n: "new_marker 0 sample_graph \<noteq> Err AssertionFail"
    using first_marker by (auto simp: new_marker_def f)
  have reach: "reachable_blocks 0 sample_graph = {0}" by (auto simp: reachable_blocks_def c)
  have "edges_allocated sample_graph" by (simp add: edges_allocated_def c)
  from rpo_correct [OF c(1) this _ m n f(1)] f reach
  obtain l h' where l: "set l = {0}" "distinct l" "DoRPO 0 sample_graph = Ok (rev l, h')"
    by auto
  then have "length l = 1" using distinct_card [of l] by simp
  with l(1) have "l = [0]" by (cases l) auto
  with l show ?thesis by simp
qed

section \<open>Live ranges\<close>

text \<open>
  C26. Adding a range to an interval, from the end of the program to its start: the ranges stay
  disjoint, not adjacent and ordered, the covered points are those of the interval and of the
  range, and the hull is the first and the last point.
\<close>

theorem live_ranges:
  assumes "interval_ok v" and "r_begin r < r_end r"
  shows "(AddRange r v = Ok w \<longrightarrow> interval_ok w \<and> covered w = covered v \<union> points r) \<and>
    (v_ranges v \<noteq> [] \<longrightarrow> GetBegin v = Ok (Min (covered v)) \<and> GetEnd v = Ok (Suc (Max (covered v)))) \<and>
    (v_ranges v \<noteq> [] \<and> Interval_SetBegin b v = Ok w \<longrightarrow>
      interval_ok w \<and> covered w = (covered v - {..<r_end (last (v_ranges v))}) \<union> {b..<r_end (last (v_ranges v))})"
  using AddRange_correct [OF assms] upper_range [OF assms(1)] SetBegin_correct [OF assms(1) _ _ refl] by blast

theorem live_ranges_witness:
  "\<exists>w. AddRange \<lparr>r_begin = 2, r_end = 4\<rparr> (LiveInterval_ctor 0 None) = Ok w \<and> covered w = {2..<4}"
proof -
  have "interval_ok (LiveInterval_ctor 0 None)" "covered (LiveInterval_ctor 0 None) = {}"
    by (simp_all add: interval_ok_def ranges_ok_def covered_def LiveInterval_ctor_def)
  with live_ranges [of "LiveInterval_ctor 0 None" "\<lparr>r_begin = 2, r_end = 4\<rparr>"] show ?thesis
    by (auto simp: AddRange_def LiveInterval_ctor_def points_def)
qed

end
