(* ===== verification/JIT_Findings.thy ===== *)
theory JIT_Findings
  imports JIT_Properties JIT_IRProperties
begin

text \<open>
  Behaviour of the JIT compiler that is not what the code is meant to do: theorems that show it.
\<close>

section \<open>Branches\<close>

text \<open>
  C27. \<open>InverseConditionalBranch\<close> exchanges the successors, exchanges the operands of the
  comparison and replaces its condition by the mirrored one.  For EQ and NE the new condition is
  the negated one, as the exchange of the successors requires; for the four orderings the two
  mirrorings cancel, the condition is unchanged, and the branch goes the wrong way.
\<close>

theorem inverse_branch:
  assumes "EndsWithConditionalJump this h = Ok (Some c)" and "i_inputs (h_i h c) = [p, q]"
    and "InverseConditionalBranch this h = Ok h'" and "b_succs (h_b h this) = [s, t]"
  shows "b_succs (h_b h' this) = [t, s] \<and> i_inputs (h_i h' c) = [q, p] \<and>
    (\<forall>a b. cond_holds (i_ccode (h_i h' c)) b a =
       (if i_ccode (h_i h c) \<in> {CC_EQ, CC_NE} then \<not> cond_holds (i_ccode (h_i h c)) a b
        else cond_holds (i_ccode (h_i h c)) a b))"
proof -
  let ?i = "(h_i h c)\<lparr>i_ccode := inverseCondCode (i_ccode (h_i h c)), i_inputs := [q, p]\<rparr>"
  have "CompareInstruction_Inverse (h_i h c) = Ok ?i"
    using assms(2) by (simp add: CompareInstruction_Inverse_def InverseCondCode_def GetInput_def ASSERT_def Let_def)
  then have "h' = upd_b this (\<lambda>b. b\<lparr>b_succs := (b_succs b)[0 := b_succs b ! 1, 1 := b_succs b ! 0]\<rparr>) (upd_i c (\<lambda>_. ?i) h)"
    using assms(1,3) by (simp add: InverseConditionalBranch_def on_instr_def)
  with assms(4) show ?thesis by (simp add: inverseCondCode_swap)
qed

text \<open>A block that ends with the jump on \<open>p < q\<close>.\<close>

definition sample_branch :: heap where
  "sample_branch = sample_heap
     \<lparr>h_i := (\<lambda>p. if p = 2 then (FixedInputs CompareInstruction Op_CMP T_I32 [Some 0, Some 1])\<lparr>i_ccode := CC_LT\<rparr>
        else if p = 3 then (InstructionBase_init CondJumpInstruction Op_JCMP T_VOID 0)\<lparr>i_prev := Some 2\<rparr>
        else InstructionBase_init ConstantInstruction Op_CONST T_I32 0),
      h_b := \<lambda>_. (BasicBlock_init 0)\<lparr>b_lastInst := Some 3, b_succs := [1, 2]\<rparr>\<rparr>"

theorem inverse_branch_witness:
  "\<exists>h'. InverseConditionalBranch 0 sample_branch = Ok h' \<and> b_succs (h_b h' 0) = [2, 1] \<and>
     cond_holds (i_ccode (h_i h' 2)) (5 :: int) 3 = cond_holds CC_LT (3 :: int) 5"
proof -
  have e: "EndsWithConditionalJump 0 sample_branch = Ok (Some 2)" "i_inputs (h_i sample_branch 2) = [Some 0, Some 1]"
    "b_succs (h_b sample_branch 0) = [1, 2]" "i_ccode (h_i sample_branch 2) = CC_LT"
    by (simp_all add: EndsWithConditionalJump_def sample_branch_def FixedInputs_def InstructionBase_init_def ASSERT_def)
  obtain h' where h': "InverseConditionalBranch 0 sample_branch = Ok h'"
    by (simp add: InverseConditionalBranch_def e on_instr_def CompareInstruction_Inverse_def InverseCondCode_def GetInput_def
        ASSERT_def Let_def)
  have "\<forall>a b :: int. cond_holds (i_ccode (h_i h' 2)) b a = cond_holds CC_LT a b" "b_succs (h_b h' 0) = [2, 1]"
    using inverse_branch [OF e(1,2) h' e(3), where 'a = int] e(4) by simp_all
  with h' show ?thesis by blast
qed

section \<open>Instruction lists\<close>

text \<open>
  Inserting before the first instruction behind PHI instructions passes the assertions, but the
  block still starts its instructions with the old first one: the inserted instruction is in the
  chain of links and in the count, but not between the first and the last instruction, so the
  block is no list of instructions any more.
\<close>

theorem insert_before_first_lost:
  assumes "block_list this (p # phis) (a # insts) h" and "free_instr t h" and "\<not> IsPhi (h_i h t)"
  shows "\<exists>h'. InsertBefore a t this h = Ok h' \<and> b_firstInst (h_b h' this) = Some a \<and>
    i_prev (h_i h' a) = Some t \<and> i_parent (h_i h' t) = Some this \<and>
    (\<forall>ps xs. \<not> block_list this ps xs h')"
proof -
  note b = assms(1) [unfolded block_list_def]
  have l: "dll h None ((p # phis) @ a # insts) None" and par: "i_parent (h_i h a) = Some this"
    using b by simp_all
  have pn: "i_prev (h_i h a) = Some (last (p # phis))" using links_of [OF l] by simp
  have t: "t \<notin> set (p # phis)" "t \<notin> set (a # insts)" using block_list_not_free [OF assms(1,2)] by simp_all
  let ?q = "last (p # phis)"
  have q: "?q \<in> set (p # phis)" "?q \<noteq> a" "a \<noteq> t" "?q \<noteq> t" using b t last_in_set [of "p # phis"] by auto
  let ?h = "SetNextInstruction ?q (Some t) (SetNextInstruction t (Some a) (SetPrevInstruction t (Some ?q)
      (SetPrevInstruction a (Some t) (SetBasicBlock t (Some this) h))))"
  let ?h' = "upd_b this (\<lambda>b. b\<lparr>b_instrsCount := b_instrsCount b + 1\<rparr>) ?h"
  have run: "InsertBefore a t this h = Ok ?h'"
    using assms(2,3) par pn q by (simp add: InsertBefore_def free_instr_def link_defs Let_def ASSERT_def upd_i_def)
  have f: "b_firstInst (h_b ?h' this) = Some a" "b_lastPhi (h_b ?h' this) = Some ?q"
    using b by (simp_all add: link_defs)
  have i: "i_prev (h_i ?h' a) = Some t" "i_parent (h_i ?h' t) = Some this"
    using q by (simp_all add: link_defs)
  have "\<not> block_list this ps xs ?h'" for ps xs
  proof
    assume bl: "block_list this ps xs ?h'"
    then have "hd_or xs None = Some a" "last_or None ps = Some ?q" using f by (simp_all add: block_list_def)
    then obtain ys zs where "xs = a # ys" "ps = zs @ [?q]"
      by (metis hd_or_simps(1) hd_or_simps(2) last_or_None_iff last_or_ne list.exhaust option.distinct(1) option.inject append_butlast_last_id)
    with bl have "dll ?h' None (zs @ [?q] @ a # ys) None" by (simp add: block_list_def)
    then have "i_prev (h_i ?h' a) = Some ?q" using links_of(1) [of ?h' "zs @ [?q]" a ys] by simp
    with i q show False by simp
  qed
  with run f i show ?thesis by blast
qed

text \<open>A block with a PHI instruction and one other instruction.\<close>

definition sample_phi :: heap where
  "sample_phi = sample_heap
     \<lparr>h_i := (\<lambda>p. if p = 0 then (InstructionBase_init PhiInstruction Op_PHI T_I32 0)\<lparr>i_next := Some 1, i_parent := Some 0\<rparr>
        else if p = 1 then (InstructionBase_init ConstantInstruction Op_CONST T_I32 0)\<lparr>i_prev := Some 0, i_parent := Some 0\<rparr>
        else InstructionBase_init ConstantInstruction Op_CONST T_I32 0),
      h_b := \<lambda>_. (BasicBlock_init 0)\<lparr>b_firstPhi := Some 0, b_lastPhi := Some 0, b_firstInst := Some 1, b_lastInst := Some 1,
        b_instrsCount := 2\<rparr>\<rparr>"

theorem insert_before_first_lost_witness:
  "\<exists>h'. InsertBefore 1 2 0 sample_phi = Ok h' \<and> (\<forall>ps xs. \<not> block_list 0 ps xs h')"
proof -
  have "block_list 0 [0] [1] sample_phi"
    by (auto simp: block_list_def sample_phi_def InstructionBase_init_def BasicBlock_init_def IsPhi_def split: if_split_asm)
  moreover have "free_instr 2 sample_phi" "\<not> IsPhi (h_i sample_phi 2)"
    by (simp_all add: free_instr_def sample_phi_def InstructionBase_init_def IsPhi_def)
  ultimately show ?thesis using insert_before_first_lost by blast
qed

section \<open>Register allocation\<close>

text \<open>
  The debug build never lets an interval use the last free register: \<open>addActiveInterval\<close>
  asserts that the map is not full after the register was taken from it.
\<close>

theorem last_register_asserts:
  assumes "regs_ok n (ls_regMap s)" and "is_free (ls_regMap s) r" and "r < n"
    and "\<And>q. q < n \<Longrightarrow> is_free (ls_regMap s) q \<Longrightarrow> q = r"
  shows "rbind (assignToReg True i s) (addActiveInterval True i) = Err AssertionFail \<and>
    (\<exists>s'. assignToReg False i s = Ok s' \<and> (i < length (ls_intervals s) \<longrightarrow> in_reg (ls_intervals s') i))"
proof -
  have "\<not> IsFull (ls_regMap s)" using IsFull_iff [OF assms(1)] assms(2,3) by blast
  from AcquireReg_ok [OF assms(1) this] obtain q
    where q: "q < n" "is_free (ls_regMap s) q" "AcquireReg (ls_regMap s) = Ok (int q, (ls_regMap s)\<lparr>rm_map := unset_bit q (rm_map (ls_regMap s))\<rparr>)"
    by blast
  let ?m = "(ls_regMap s)\<lparr>rm_map := unset_bit q (rm_map (ls_regMap s))\<rparr>"
  have "IsFull ?m"
    using IsFull_iff [OF regs_ok_bits(2) [OF assms(1) q(1)]] regs_ok_bits(4) [OF assms(1) q(1)] assms(4) q(1,2) by blast
  with q(3) have "rbind (assignToReg True i s) (addActiveInterval True i) = Err AssertionFail"
    by (simp add: assignToReg_def addActiveInterval_def CHECK_def ASSERT_def)
  moreover have "\<exists>s'. assignToReg False i s = Ok s' \<and> (i < length (ls_intervals s) \<longrightarrow> in_reg (ls_intervals s') i)"
    using q(3) by (simp add: assignToReg_def CHECK_def in_reg_def set_loc_def SetLocation_def)
  ultimately show ?thesis by blast
qed

theorem last_register_asserts_witness:
  "\<exists>s. LinearScan_ctor True 1 sample_intervals = Ok s \<and>
     rbind (assignToReg True 2 s) (addActiveInterval True 2) = Err AssertionFail"
proof -
  obtain m where m: "RegMap_ctor True 1 = Ok m" "regs_ok 1 m" "\<forall>r < 1. is_free m r"
    using RegMap_ctor_ok [of 1] by auto
  let ?s = "\<lparr>ls_slotCounter = 0, ls_active = [], ls_regMap = m, ls_intervals = sample_intervals\<rparr>"
  have "LinearScan_ctor True 1 sample_intervals = Ok ?s" using m(1) by (simp add: LinearScan_ctor_def)
  moreover have "rbind (assignToReg True 2 ?s) (addActiveInterval True 2) = Err AssertionFail"
    using last_register_asserts [of 1 ?s 0 2] m(2,3) by simp
  ultimately show ?thesis by blast
qed

text \<open>
  In the release build, \<open>spillAtInterval\<close> gives the register of the interval it spills to the
  new interval without entering that one in the active list; when the list runs empty this way
  while the register is still taken, the next interval reads the end of an empty list.
\<close>

theorem spill_loses_active:
  assumes "ls_active s = [a]" and "a < length (ls_intervals s)" and "i < length (ls_intervals s)"
    and "end_of False (ls_intervals s ! a) = Ok e1" and "end_of False (ls_intervals s ! i) = Ok e2" and "e2 \<le> e1"
  shows "\<exists>s'. spillAtInterval False i s = Ok s' \<and> ls_active s' = [] \<and> ls_regMap s' = ls_regMap s \<and>
    loc_of s' i = loc_of s a \<and> spillAtInterval False k s' = UB"
  using assms
  by (cases "i = a")
    (simp_all add: spillAtInterval_def spillToStack_def getNextSlot_def CHECK_def Let_def loc_of_def set_loc_def SetLocation_def)

theorem spill_loses_active_witness:
  "\<exists>s s'. rbind (LinearScan_ctor False 1 [sample_interval [(5, 6)], sample_interval [(2, 4)], sample_interval [(0, 10)]])
       (allocate_all False [2]) = Ok s \<and>
     spillAtInterval False 1 s = Ok s' \<and> spillAtInterval False 0 s' = UB"
proof -
  let ?ivs = "[sample_interval [(5, 6)], sample_interval [(2, 4)], sample_interval [(0, 10)]]"
  obtain s where s: "rbind (LinearScan_ctor False 1 ?ivs) (allocate_all False [2]) = Ok s" "ls_active s = [2]"
    "ls_intervals s = ?ivs[2 := SetLocation \<lparr>loc_type = LT_REGISTER, loc_id = 0\<rparr> (?ivs ! 2)]"
    by (simp add: sample_interval_defs scan_eval upt_rec Let_def)
  have "end_of False (ls_intervals s ! 2) = Ok 10" "end_of False (ls_intervals s ! 1) = Ok 4"
    by (simp_all add: s end_of_def sample_interval_defs SetLocation_def)
  with spill_loses_active [OF s(2), of 1 10 4 0] s show ?thesis by auto
qed

end
