(* ===== verification/JIT_DSU.thy ===== *)
theory JIT_DSU
  imports JIT_IR
begin

text \<open>
  The disjoint sets of the dominator tree builder: \<open>analysis/DSU.h\<close>, \<open>analysis/DSU.cpp\<close>.
  \<open>universum\<close> links a block to an ancestor in the depth-first tree, \<open>labels\<close> keeps a block with
  the least semidominator on the links taken so far.  The object refers to the vectors \<open>labels\<close>
  and \<open>sdoms\<close> of the builder; the builder's record extends this one, so both see the same
  vectors.  \<open>ids\<close> reads the identifier of a block.  \<open>compressUniversum\<close> recurses once per link;
  \<open>depth\<close> bounds the recursion by the number of blocks, which is enough on a forest, and a deeper
  recursion never ends.
\<close>

section \<open>Operations\<close>

record DSU =
  universum :: "bptr option list"
  labels :: "bptr option list"
  sdoms :: "nat list"

definition DSU_ctor :: "'a DSU_scheme \<Rightarrow> 'a DSU_scheme" where
  "DSU_ctor d = d\<lparr>universum := replicate (length (labels d)) None\<rparr>"

definition GetSize :: "'a DSU_scheme \<Rightarrow> nat" where
  "GetSize d = length (universum d)"

definition getUniversum :: "nat \<Rightarrow> 'a DSU_scheme \<Rightarrow> (abort, bptr option) res" where
  "getUniversum i d = ASSERT (i < length (universum d)) (Ok (universum d ! i))"

definition setUniversum :: "nat \<Rightarrow> bptr option \<Rightarrow> 'a DSU_scheme \<Rightarrow> (abort, 'a DSU_scheme) res" where
  "setUniversum i bblock d =
     ASSERT (i < length (universum d)) (Ok (d\<lparr>universum := (universum d)[i := bblock]\<rparr>))"

definition getSemiDominator :: "(bptr \<Rightarrow> nat) \<Rightarrow> bptr option \<Rightarrow> 'a DSU_scheme \<Rightarrow> (abort, nat) res" where
  "getSemiDominator ids bblock d =
     (case bblock of
        None \<Rightarrow> Err AssertionFail
      | Some b \<Rightarrow> ASSERT (ids b < length (sdoms d)) (Ok (sdoms d ! ids b)))"

definition getLabel :: "(bptr \<Rightarrow> nat) \<Rightarrow> bptr option \<Rightarrow> 'a DSU_scheme \<Rightarrow> (abort, bptr option) res" where
  "getLabel ids bblock d =
     (case bblock of
        None \<Rightarrow> Err AssertionFail
      | Some b \<Rightarrow> ASSERT (ids b < length (labels d)) (Ok (labels d ! ids b)))"

definition setLabel :: "(bptr \<Rightarrow> nat) \<Rightarrow> bptr \<Rightarrow> bptr option \<Rightarrow> 'a DSU_scheme \<Rightarrow> (abort, 'a DSU_scheme) res" where
  "setLabel ids bblock lbl d =
     ASSERT (lbl \<noteq> None \<and> ids bblock < length (labels d))
       (Ok (d\<lparr>labels := (labels d)[ids bblock := lbl]\<rparr>))"

fun compressUniversum :: "nat \<Rightarrow> (bptr \<Rightarrow> nat) \<Rightarrow> bptr \<Rightarrow> 'a DSU_scheme \<Rightarrow> (abort, 'a DSU_scheme) res" where
  "compressUniversum 0 ids bblock d = UB"
| "compressUniversum (Suc depth) ids bblock d =
     rbind (getUniversum (ids bblock) d) (\<lambda>anc.
     case anc of
       None \<Rightarrow> Err AssertionFail
     | Some anc \<Rightarrow>
         rbind (getUniversum (ids anc) d) (\<lambda>up.
         if up = None then Ok d
         else
           rbind (compressUniversum depth ids anc d) (\<lambda>d.
           rbind (getLabel ids (Some bblock) d) (\<lambda>minForBBlock.
           rbind (getLabel ids (Some anc) d) (\<lambda>minForAnc.
           rbind (getSemiDominator ids minForAnc d) (\<lambda>sAnc.
           rbind (getSemiDominator ids minForBBlock d) (\<lambda>sBBlock.
           rbind (if sAnc < sBBlock then setLabel ids bblock minForAnc d else Ok d) (\<lambda>d.
           rbind (getUniversum (ids anc) d) (\<lambda>up.
           setUniversum (ids bblock) up d)))))))))"

definition Find :: "(bptr \<Rightarrow> nat) \<Rightarrow> bptr option \<Rightarrow> 'a DSU_scheme \<Rightarrow> (abort, bptr option \<times> 'a DSU_scheme) res" where
  "Find ids bblock d =
     (case bblock of
        None \<Rightarrow> Err AssertionFail
      | Some b \<Rightarrow>
          ASSERT (ids b < GetSize d)
            (rbind (getUniversum (ids b) d) (\<lambda>up.
             if up = None then Ok (Some b, d)
             else
               rbind (compressUniversum (GetSize d) ids b d) (\<lambda>d.
               rbind (getLabel ids (Some b) d) (\<lambda>l. Ok (l, d))))))"

definition Unite :: "(bptr \<Rightarrow> nat) \<Rightarrow> bptr \<Rightarrow> bptr option \<Rightarrow> 'a DSU_scheme \<Rightarrow> (abort, 'a DSU_scheme) res" where
  "Unite ids target parent d = setUniversum (ids target) parent d"

section \<open>The forest that the object stands for\<close>

text \<open>
  \<open>P\<close> maps a block to the block it was united with; \<open>rank\<close> decreases along \<open>P\<close>.  \<open>chain P b xs a\<close>:
  \<open>xs\<close> are the blocks from \<open>b\<close> up to and without \<open>a\<close>.
\<close>

fun chain :: "(bptr \<rightharpoonup> bptr) \<Rightarrow> bptr \<Rightarrow> bptr list \<Rightarrow> bptr \<Rightarrow> bool" where
  "chain P b [] a \<longleftrightarrow> b = a"
| "chain P b (x # xs) a \<longleftrightarrow> x = b \<and> (\<exists>c. P b = Some c \<and> chain P c xs a)"

lemma chain_append: "chain P b (xs @ ys) a \<longleftrightarrow> (\<exists>c. chain P b xs c \<and> chain P c ys a)"
  by (induction xs arbitrary: b) auto

lemma chain_root: "chain P b xs a \<Longrightarrow> P a = None \<Longrightarrow> chain P b ys a' \<Longrightarrow> P a' = None \<Longrightarrow> xs = ys \<and> a = a'"
proof (induction xs arbitrary: b ys)
  case Nil
  then show ?case by (cases ys) auto
next
  case (Cons x xs)
  then show ?case by (cases ys) auto
qed

definition sdom_of :: "(bptr \<Rightarrow> nat) \<Rightarrow> 'a DSU_scheme \<Rightarrow> bptr \<Rightarrow> nat" where
  "sdom_of ids d b = sdoms d ! ids b"

definition least_on :: "(bptr \<Rightarrow> nat) \<Rightarrow> 'a DSU_scheme \<Rightarrow> bptr \<Rightarrow> bptr list \<Rightarrow> bool" where
  "least_on ids d l xs \<longleftrightarrow> l \<in> set xs \<and> (\<forall>x \<in> set xs. sdom_of ids d l \<le> sdom_of ids d x)"

text \<open>
  \<open>linked\<close>: the entries of a block that is not a root.  \<open>dsu_ok\<close>: the object represents the forest
  \<open>P\<close> on the blocks \<open>U\<close>.
\<close>

definition linked :: "(bptr \<Rightarrow> nat) \<Rightarrow> (bptr \<rightharpoonup> bptr) \<Rightarrow> 'a DSU_scheme \<Rightarrow> bptr \<Rightarrow> bool" where
  "linked ids P d b \<longleftrightarrow>
     (\<exists>a xs l. universum d ! ids b = Some a \<and> chain P b xs a \<and> xs \<noteq> [] \<and>
        labels d ! ids b = Some l \<and> least_on ids d l xs)"

definition dsu_ok ::
    "(bptr \<Rightarrow> nat) \<Rightarrow> bptr set \<Rightarrow> (bptr \<rightharpoonup> bptr) \<Rightarrow> (bptr \<Rightarrow> nat) \<Rightarrow> 'a DSU_scheme \<Rightarrow> bool" where
  "dsu_ok ids U P rank d \<longleftrightarrow>
     inj_on ids U \<and> length (labels d) = length (universum d) \<and> length (sdoms d) = length (universum d) \<and>
     (\<forall>b \<in> U. ids b < length (universum d) \<and> rank b < length (universum d)) \<and>
     (\<forall>b p. P b = Some p \<longrightarrow> b \<in> U \<and> p \<in> U \<and> rank p < rank b) \<and>
     (\<forall>b \<in> U. if P b = None then universum d ! ids b = None \<and> labels d ! ids b = Some b
               else linked ids P d b)"

lemma chain_in:
  assumes "dsu_ok ids U P rank d" and "chain P b xs a" and "b \<in> U"
  shows "set xs \<subseteq> U" and "a \<in> U" and "rank a + length xs \<le> rank b"
proof -
  have 1: "\<forall>b p. P b = Some p \<longrightarrow> b \<in> U \<and> p \<in> U \<and> rank p < rank b"
    using assms(1) by (simp add: dsu_ok_def)
  have "set xs \<subseteq> U \<and> a \<in> U \<and> rank a + length xs \<le> rank b"
    using assms(2,3)
  proof (induction xs arbitrary: b)
    case (Cons x xs)
    from Cons.prems(1) obtain c where c: "x = b" "P b = Some c" "chain P c xs a" by auto
    with 1 have "c \<in> U" "rank c < rank b" by blast+
    with Cons.IH [OF c(3)] Cons.prems(2) c(1) show ?case by auto
  qed simp
  then show "set xs \<subseteq> U" and "a \<in> U" and "rank a + length xs \<le> rank b" by blast+
qed

text \<open>Every block has a chain to a root.\<close>

lemma chain_exists:
  assumes "dsu_ok ids U P rank d" and "b \<in> U"
  obtains xs r where "chain P b xs r" and "P r = None" and "r \<in> U"
proof -
  have 1: "\<forall>b p. P b = Some p \<longrightarrow> b \<in> U \<and> p \<in> U \<and> rank p < rank b"
    using assms(1) by (simp add: dsu_ok_def)
  have "\<exists>xs r. chain P b xs r \<and> P r = None \<and> r \<in> U"
    using assms(2)
  proof (induction "rank b" arbitrary: b rule: less_induct)
    case less
    show ?case
    proof (cases "P b")
      case None
      with less.prems have "chain P b [] b \<and> P b = None \<and> b \<in> U" by simp
      then show ?thesis by blast
    next
      case (Some c)
      with 1 have "rank c < rank b" "c \<in> U" by blast+
      from less.hyps [OF this] obtain xs r where "chain P c xs r" "P r = None" "r \<in> U" by blast
      with Some have "chain P b (b # xs) r \<and> P r = None \<and> r \<in> U" by simp
      then show ?thesis by blast
    qed
  qed
  with that show thesis by blast
qed

section \<open>Path compression\<close>

lemma least_on_cong: "sdoms d' = sdoms d \<Longrightarrow> least_on ids d' = least_on ids d"
  by (simp add: least_on_def sdom_of_def fun_eq_iff)

lemma linkedD:
  assumes "dsu_ok ids U P rank d" and "b \<in> U" and "P b \<noteq> None"
  obtains a xs l where "universum d ! ids b = Some a" and "chain P b xs a" and "xs \<noteq> []"
    and "labels d ! ids b = Some l" and "least_on ids d l xs"
proof -
  have "linked ids P d b"
    using assms unfolding dsu_ok_def by (metis (full_types))
  with that show thesis unfolding linked_def by blast
qed

lemma rootD:
  assumes "dsu_ok ids U P rank d" and "b \<in> U" and "P b = None"
  shows "universum d ! ids b = None" and "labels d ! ids b = Some b"
  using assms unfolding dsu_ok_def by fastforce+

lemma dsu_index:
  assumes "dsu_ok ids U P rank d" and "b \<in> U"
  shows "ids b < length (universum d)" and "ids b < length (labels d)" and "ids b < length (sdoms d)"
    and "rank b < length (universum d)"
  using assms unfolding dsu_ok_def by auto

text \<open>A block may be linked to any of its ancestors, with the least block in between as its label.\<close>

lemma dsu_relink:
  assumes "dsu_ok ids U P rank d" and "b \<in> U" and "P b \<noteq> None"
    and "chain P b xs r" and "xs \<noteq> []" and "least_on ids d l xs"
  shows "dsu_ok ids U P rank (d\<lparr>universum := (universum d)[ids b := Some r], labels := (labels d)[ids b := Some l]\<rparr>)"
    (is "dsu_ok ids U P rank ?d")
proof -
  have inj: "inj_on ids U" using assms(1) by (simp add: dsu_ok_def)
  have other: "universum ?d ! ids x = universum d ! ids x \<and> labels ?d ! ids x = labels d ! ids x" if "x \<in> U" "x \<noteq> b" for x
  proof -
    have "ids b \<noteq> ids x" using inj_onD [OF inj _ that(1) assms(2)] that(2) by metis
    then show ?thesis by simp
  qed
  have "linked ids P ?d b"
    unfolding linked_def using assms(4,5,6) dsu_index [OF assms(1,2)] by (auto simp: least_on_def sdom_of_def)
  moreover have "linked ids P ?d x" if "x \<in> U" "x \<noteq> b" "P x \<noteq> None" for x
  proof -
    have "least_on ids ?d = least_on ids d" by (rule least_on_cong) simp
    then show ?thesis
      using linkedD [OF assms(1) that(1,3)] other [OF that(1,2)] unfolding linked_def by metis
  qed
  ultimately have "\<forall>x \<in> U. if P x = None then universum ?d ! ids x = None \<and> labels ?d ! ids x = Some x else linked ids P ?d x"
    using rootD [OF assms(1)] other assms(3) by (metis (no_types, lifting))
  then show ?thesis
    using assms(1) unfolding dsu_ok_def by auto
qed

lemma least_on_append:
  assumes "least_on ids d l xs" and "least_on ids d m ys"
  shows "least_on ids d (if sdom_of ids d m < sdom_of ids d l then m else l) (xs @ ys)"
  using assms by (fastforce simp: least_on_def)

text \<open>\<open>below\<close>: the entries of the blocks of a higher rank are as before.\<close>

definition unchanged_above :: "(bptr \<Rightarrow> nat) \<Rightarrow> bptr set \<Rightarrow> (bptr \<Rightarrow> nat) \<Rightarrow> nat \<Rightarrow> 'a DSU_scheme \<Rightarrow> 'a DSU_scheme \<Rightarrow> bool" where
  "unchanged_above ids U rank n d d' \<longleftrightarrow>
     (\<forall>x \<in> U. n < rank x \<longrightarrow> universum d' ! ids x = universum d ! ids x \<and> labels d' ! ids x = labels d ! ids x)"

definition compressed ::
    "(bptr \<Rightarrow> nat) \<Rightarrow> bptr set \<Rightarrow> (bptr \<rightharpoonup> bptr) \<Rightarrow> (bptr \<Rightarrow> nat) \<Rightarrow> bptr \<Rightarrow> 'a DSU_scheme \<Rightarrow> 'a DSU_scheme \<Rightarrow> bool" where
  "compressed ids U P rank b d d' \<longleftrightarrow>
     dsu_ok ids U P rank d' \<and> sdoms d' = sdoms d \<and> DSU.more d' = DSU.more d \<and>
     (\<exists>r. universum d' ! ids b = Some r \<and> P r = None) \<and> unchanged_above ids U rank (rank b) d d'"

lemma compressUniversum_correct:
  assumes "dsu_ok ids U P rank d" and "b \<in> U" and "P b \<noteq> None" and "rank b < depth"
  shows "\<exists>d'. compressUniversum depth ids b d = Ok d' \<and> compressed ids U P rank b d d'"
  using assms
proof (induction depth arbitrary: b d)
  case (Suc depth)
  obtain a xs l where a: "universum d ! ids b = Some a" "chain P b xs a" "xs \<noteq> []"
    "labels d ! ids b = Some l" "least_on ids d l xs"
    by (rule linkedD [OF Suc.prems(1-3)])
  note aU = chain_in(2) [OF Suc.prems(1) a(2) Suc.prems(2)]
  have up: "getUniversum (ids b) d = Ok (Some a)" "getUniversum (ids a) d = Ok (universum d ! ids a)"
    using a(1) dsu_index [OF Suc.prems(1)] Suc.prems(2) aU by (simp_all add: getUniversum_def)
  show ?case
  proof (cases "P a")
    case None
    then have "universum d ! ids a = None" using rootD [OF Suc.prems(1) aU] by blast
    then show ?thesis
      using Suc.prems(1) a(1) None up by (auto simp: compressed_def unchanged_above_def)
  next
    case (Some p)
    have rank: "rank a < rank b"
      using chain_in(3) [OF Suc.prems(1) a(2) Suc.prems(2)] a(3) by (cases xs) auto
    then have "rank a < depth" "P a \<noteq> None" using Suc.prems(4) Some by simp_all
    from Suc.IH [OF Suc.prems(1) aU this(2,1)] obtain d1 where d1: "compressUniversum depth ids a d = Ok d1"
      "compressed ids U P rank a d d1" by blast
    note c = d1(2) [unfolded compressed_def]
    have ok1: "dsu_ok ids U P rank d1" and sd: "sdoms d1 = sdoms d" and more: "DSU.more d1 = DSU.more d" using c by simp_all
    obtain r where r: "universum d1 ! ids a = Some r" "P r = None" using c by blast
    have b1: "universum d1 ! ids b = Some a" "labels d1 ! ids b = Some l"
      using c rank Suc.prems(2) a(1,4) by (simp_all add: unchanged_above_def)
    obtain ys m where m: "chain P a ys r" "ys \<noteq> []" "labels d1 ! ids a = Some m" "least_on ids d1 m ys"
      using linkedD [OF ok1 aU] Some r(1) by (metis option.inject option.distinct(1))
    note idx = dsu_index [OF ok1 Suc.prems(2)] dsu_index [OF ok1 aU]
    let ?l = "if sdom_of ids d1 m < sdom_of ids d1 l then m else l"
    let ?d = "d1\<lparr>universum := (universum d1)[ids b := Some r], labels := (labels d1)[ids b := Some ?l]\<rparr>"
    have mU: "m \<in> U" "l \<in> U"
      using m(4) chain_in(1) [OF ok1 m(1) aU] a(5) chain_in(1) [OF Suc.prems(1) a(2) Suc.prems(2)]
      by (auto simp: least_on_def)
    have ch: "chain P b (xs @ ys) r" using a(2) m(1) by (auto simp: chain_append)
    have le: "least_on ids d1 ?l (xs @ ys)"
      using least_on_append [OF _ m(4)] a(5) least_on_cong [OF sd] by metis
    have ok: "dsu_ok ids U P rank ?d"
      using dsu_relink [OF ok1 Suc.prems(2,3) ch _ le] a(3) by simp
    have not_root: "universum d ! ids a \<noteq> None"
      using linkedD [OF Suc.prems(1) aU] Some by (metis option.distinct(1))
    have same: "d1\<lparr>universum := u, labels := (labels d1)[ids b := Some l]\<rparr> = d1\<lparr>universum := u\<rparr>" for u
    proof -
      have "(labels d1)[ids b := Some l] = labels d1" using b1(2) by (metis list_update_id)
      then show ?thesis by (cases d1) simp
    qed
    have run: "compressUniversum (Suc depth) ids b d = Ok ?d"
      using up not_root d1(1) b1 r(1) m(3) idx dsu_index(3) [OF ok1 mU(1)] dsu_index(3) [OF ok1 mU(2)]
      by (auto simp: getLabel_def getSemiDominator_def setLabel_def getUniversum_def setUniversum_def sdom_of_def same)
    have "inj_on ids U" using ok1 by (simp add: dsu_ok_def)
    then have "x \<in> U \<Longrightarrow> rank b < rank x \<Longrightarrow> ids b \<noteq> ids x" for x
      using Suc.prems(2) by (metis inj_onD less_irrefl)
    then have "compressed ids U P rank b d ?d"
      using ok sd more r(2) idx c rank
      by (auto simp: compressed_def unchanged_above_def)
    with run show ?thesis by blast
  qed
qed simp

section \<open>The operations on the forest\<close>

text \<open>
  \<open>Find\<close> returns the block itself at a root, and otherwise a block with the least semidominator
  on the path from the block up to and without the root of its tree.
\<close>

lemma Find_correct:
  assumes "dsu_ok ids U P rank d" and "b \<in> U"
  obtains l d' xs r where "Find ids (Some b) d = Ok (Some l, d')" and "dsu_ok ids U P rank d'"
    and "sdoms d' = sdoms d" and "DSU.more d' = DSU.more d" and "chain P b xs r" and "P r = None"
    and "if P b = None then l = b else least_on ids d l xs"
proof -
  note idx = dsu_index [OF assms]
  obtain xs r where xs: "chain P b xs r" "P r = None" by (rule chain_exists [OF assms])
  show thesis
  proof (cases "P b")
    case None
    then have "Find ids (Some b) d = Ok (Some b, d)"
      using rootD(1) [OF assms] idx by (simp add: Find_def getUniversum_def GetSize_def)
    from that [OF this assms(1) refl refl xs] None show thesis by simp
  next
    case (Some p)
    then have nr: "P b \<noteq> None" by simp
    obtain d' where d': "compressUniversum (GetSize d) ids b d = Ok d'" "compressed ids U P rank b d d'"
      using compressUniversum_correct [OF assms nr] idx(4) unfolding GetSize_def by blast
    have ok: "dsu_ok ids U P rank d'" and same: "sdoms d' = sdoms d" "DSU.more d' = DSU.more d"
      using d'(2) by (simp_all add: compressed_def)
    obtain ys l where l: "chain P b ys r" "labels d' ! ids b = Some l" "least_on ids d' l ys"
    proof -
      obtain a zs m where z: "universum d' ! ids b = Some a" "chain P b zs a" "labels d' ! ids b = Some m" "least_on ids d' m zs"
        by (rule linkedD [OF ok assms(2) nr])
      moreover have "P a = None" using d'(2) z(1) by (auto simp: compressed_def)
      ultimately show thesis using that chain_root [OF xs z(2)] by blast
    qed
    obtain a where "universum d ! ids b = Some a" by (rule linkedD [OF assms nr])
    then have "Find ids (Some b) d = Ok (Some l, d')"
      using idx d'(1) l(2) dsu_index [OF ok assms(2)] by (simp add: Find_def getUniversum_def getLabel_def GetSize_def)
    from that [OF this ok same l(1) xs(2)] l(3) nr least_on_cong [OF same(1)] show thesis by simp
  qed
qed

lemma chain_extend: "chain P b xs a \<Longrightarrow> P c = None \<Longrightarrow> chain (P(c \<mapsto> p)) b xs a"
  by (induction xs arbitrary: b) auto

lemma chain_not_root: "chain P b xs a \<Longrightarrow> x \<in> set xs \<Longrightarrow> P x \<noteq> None"
  by (induction xs arbitrary: b) auto

lemma Unite_correct:
  assumes "dsu_ok ids U P rank d" and "b \<in> U" and "P b = None" and "p \<in> U" and "rank p < rank b"
  obtains d' where "Unite ids b (Some p) d = Ok d'" and "dsu_ok ids U (P(b \<mapsto> p)) rank d'"
    and "sdoms d' = sdoms d" and "DSU.more d' = DSU.more d"
proof -
  let ?d = "d\<lparr>universum := (universum d)[ids b := Some p]\<rparr>"
  have inj: "inj_on ids U" using assms(1) by (simp add: dsu_ok_def)
  have neq: "ids b \<noteq> ids x" if "x \<in> U" "x \<noteq> b" for x
    using inj_onD [OF inj _ that(1) assms(2)] that(2) by metis
  have sd: "least_on ids ?d = least_on ids d" by (rule least_on_cong) simp
  have "universum ?d ! ids b = Some p \<and> chain (P(b \<mapsto> p)) b [b] p \<and> [b] \<noteq> [] \<and> labels ?d ! ids b = Some b \<and> least_on ids ?d b [b]"
    using dsu_index [OF assms(1,2)] rootD(2) [OF assms(1-3)] by (simp add: least_on_def)
  then have "linked ids (P(b \<mapsto> p)) ?d b"
    unfolding linked_def by blast
  moreover have "linked ids (P(b \<mapsto> p)) ?d x" if x: "x \<in> U" "x \<noteq> b" "P x \<noteq> None" for x
  proof -
    obtain a xs l where a: "universum d ! ids x = Some a" "chain P x xs a" "xs \<noteq> []" "labels d ! ids x = Some l" "least_on ids d l xs"
      by (rule linkedD [OF assms(1) x(1,3)])
    then show ?thesis
      unfolding linked_def sd using neq [OF x(1,2)] chain_extend [OF a(2) assms(3)] by auto
  qed
  ultimately have "\<forall>x \<in> U. if (P(b \<mapsto> p)) x = None then universum ?d ! ids x = None \<and> labels ?d ! ids x = Some x
      else linked ids (P(b \<mapsto> p)) ?d x"
    using rootD [OF assms(1)] neq by auto
  then have "dsu_ok ids U (P(b \<mapsto> p)) rank ?d"
    using assms unfolding dsu_ok_def by auto
  moreover have "Unite ids b (Some p) d = Ok ?d"
    using dsu_index [OF assms(1,2)] by (simp add: Unite_def setUniversum_def)
  ultimately show thesis using that by simp
qed

text \<open>The semidominator of a root may change.\<close>

lemma dsu_ok_root_sdom:
  assumes "dsu_ok ids U P rank d" and "b \<in> U" and "P b = None"
  shows "dsu_ok ids U P rank (d\<lparr>sdoms := (sdoms d)[ids b := n]\<rparr>)" (is "dsu_ok ids U P rank ?d")
proof -
  have inj: "inj_on ids U" using assms(1) by (simp add: dsu_ok_def)
  have "linked ids P ?d x" if x: "x \<in> U" "P x \<noteq> None" for x
  proof -
    obtain a xs l where a: "universum d ! ids x = Some a" "chain P x xs a" "xs \<noteq> []" "labels d ! ids x = Some l" "least_on ids d l xs"
      by (rule linkedD [OF assms(1) x])
    have "ids b \<noteq> ids y" if "y \<in> set xs" for y
      using chain_not_root [OF a(2) that] chain_in(1) [OF assms(1) a(2) x(1)] that inj assms(2,3)
      by (metis inj_onD subsetD)
    then have "\<forall>y \<in> set xs. sdom_of ids ?d y = sdom_of ids d y" by (simp add: sdom_of_def)
    with a(5) have "least_on ids ?d l xs" unfolding least_on_def by metis
    with a show ?thesis unfolding linked_def by auto
  qed
  then have "\<forall>x \<in> U. if P x = None then universum ?d ! ids x = None \<and> labels ?d ! ids x = Some x else linked ids P ?d x"
    using rootD [OF assms(1)] by auto
  then show ?thesis
    using assms(1) unfolding dsu_ok_def by auto
qed

text \<open>Blocks that are not linked yet.\<close>

lemma dsu_ok_start:
  assumes "inj_on ids U" and "length (labels d) = n" and "length (sdoms d) = n"
    and "\<And>b. b \<in> U \<Longrightarrow> ids b < n \<and> rank b < n \<and> labels d ! ids b = Some b"
  shows "dsu_ok ids U (\<lambda>_. None) rank (DSU_ctor d)"
  using assms by (auto simp: dsu_ok_def DSU_ctor_def)

end
