(* ===== verification/JIT_DomTree.thy ===== *)
theory JIT_DomTree
  imports JIT_DSU JIT_CFG
begin

text \<open>
  The dominator tree builder: \<open>analysis/DomTree.h\<close>, \<open>analysis/DomTree.cpp\<close>, an implementation of
  the algorithm of Lengauer and Tarjan.  The builder's record extends the record of the disjoint
  sets, which refer to its vectors \<open>labels\<close> and \<open>sdoms\<close>.  \<open>dfsTraverse\<close> numbers one more block on
  every call and asserts that the number is less than the number of blocks, so the recursion depth
  of one more than that number is never exceeded.
\<close>

section \<open>The builder\<close>

record DominatorInfo =
  dominator :: "bptr option"
  dominated :: "bptr list"

definition DominatorInfo_init :: DominatorInfo where
  "DominatorInfo_init = \<lparr>dominator = None, dominated = []\<rparr>"

record DomTreeBuilder = DSU +
  lastNumber :: int
  idoms :: "bptr option list"
  sdomsSet :: "bptr list list"
  orderedBBlocks :: "bptr option list"
  bblocksParents :: "bptr option list"

definition DomTreeBuilder_init :: DomTreeBuilder where
  "DomTreeBuilder_init =
     \<lparr>universum = [], labels = [], sdoms = [], lastNumber = 0, idoms = [], sdomsSet = [],
      orderedBBlocks = [], bblocksParents = []\<rparr>"

definition block_id :: "heap \<Rightarrow> bptr \<Rightarrow> nat" where
  "block_id h b = b_id (h_b h b)"

text \<open>\<open>std::vector::resize\<close>\<close>

definition resize :: "nat \<Rightarrow> 'a \<Rightarrow> 'a list \<Rightarrow> 'a list" where
  "resize n x xs = take n xs @ replicate (n - length xs) x"

definition builder_size :: "DomTreeBuilder \<Rightarrow> nat" where
  "builder_size d = length (idoms d)"

definition getImmDominator :: "nat \<Rightarrow> DomTreeBuilder \<Rightarrow> (abort, bptr option) res" where
  "getImmDominator i d = ASSERT (i < length (idoms d)) (Ok (idoms d ! i))"

definition setImmDominator :: "nat \<Rightarrow> bptr option \<Rightarrow> DomTreeBuilder \<Rightarrow> (abort, DomTreeBuilder) res" where
  "setImmDominator i bblock d = ASSERT (i < length (idoms d)) (Ok (d\<lparr>idoms := (idoms d)[i := bblock]\<rparr>))"

definition setSemiDomNumber :: "(bptr \<Rightarrow> nat) \<Rightarrow> bptr \<Rightarrow> nat \<Rightarrow> DomTreeBuilder \<Rightarrow> (abort, DomTreeBuilder) res" where
  "setSemiDomNumber ids bblock visitNumber d =
     ASSERT (ids bblock < length (sdoms d)) (Ok (d\<lparr>sdoms := (sdoms d)[ids bblock := visitNumber]\<rparr>))"

definition getSemiDoms :: "(bptr \<Rightarrow> nat) \<Rightarrow> bptr \<Rightarrow> DomTreeBuilder \<Rightarrow> (abort, bptr list) res" where
  "getSemiDoms ids bblock d = ASSERT (ids bblock < length (sdomsSet d)) (Ok (sdomsSet d ! ids bblock))"

definition getOrderedBlock :: "nat \<Rightarrow> DomTreeBuilder \<Rightarrow> (abort, bptr option) res" where
  "getOrderedBlock visitNumber d =
     ASSERT (visitNumber < length (orderedBBlocks d)) (Ok (orderedBBlocks d ! visitNumber))"

definition setOrderedBlock :: "nat \<Rightarrow> bptr \<Rightarrow> DomTreeBuilder \<Rightarrow> (abort, DomTreeBuilder) res" where
  "setOrderedBlock visitNumber bblock d =
     ASSERT (visitNumber < length (orderedBBlocks d))
       (Ok (d\<lparr>orderedBBlocks := (orderedBBlocks d)[visitNumber := Some bblock]\<rparr>))"

definition getBlockDFOParent :: "(bptr \<Rightarrow> nat) \<Rightarrow> bptr \<Rightarrow> DomTreeBuilder \<Rightarrow> (abort, bptr option) res" where
  "getBlockDFOParent ids bblock d =
     ASSERT (ids bblock < length (bblocksParents d)) (Ok (bblocksParents d ! ids bblock))"

definition setBlockDFOParent :: "(bptr \<Rightarrow> nat) \<Rightarrow> bptr \<Rightarrow> bptr \<Rightarrow> DomTreeBuilder \<Rightarrow> (abort, DomTreeBuilder) res" where
  "setBlockDFOParent ids child parent d =
     ASSERT (ids child < length (bblocksParents d))
       (Ok (d\<lparr>bblocksParents := (bblocksParents d)[ids child := Some parent]\<rparr>))"

definition registerSemiDom :: "(bptr \<Rightarrow> nat) \<Rightarrow> bptr \<Rightarrow> DomTreeBuilder \<Rightarrow> (abort, DomTreeBuilder) res" where
  "registerSemiDom ids bblock d =
     rbind (getSemiDominator ids (Some bblock) d) (\<lambda>semiDomNumber.
     rbind (getOrderedBlock semiDomNumber d) (\<lambda>ord.
     deref ord (\<lambda>s.
       ASSERT (ids s < length (sdomsSet d))
         (Ok (d\<lparr>sdomsSet := (sdomsSet d)[ids s := sdomsSet d ! ids s @ [bblock]]\<rparr>)))))"

section \<open>The algorithm\<close>

definition resetStructs :: "gptr \<Rightarrow> DomTreeBuilder \<times> heap \<Rightarrow> (abort, DomTreeBuilder \<times> heap) res" where
  "resetStructs graph =
     (\<lambda>(d, h).
       rbind (ForEachBasicBlock graph (\<lambda>b h. Ok (upd_b b (\<lambda>b. b\<lparr>b_dominated := [], b_dominator := None\<rparr>) h)) h) (\<lambda>h.
       let bblocksCount = unat (GetMaximumBlockId (h_g h graph) + 1) in
       Ok (DSU_ctor (d\<lparr>lastNumber := - 1, sdoms := resize bblocksCount INVALID_ID (sdoms d),
             sdomsSet := resize bblocksCount [] (sdomsSet d), idoms := resize bblocksCount None (idoms d),
             labels := resize bblocksCount None (labels d),
             orderedBBlocks := resize bblocksCount None (orderedBBlocks d),
             bblocksParents := resize bblocksCount None (bblocksParents d)\<rparr>), h)))"

fun dfsTraverse :: "nat \<Rightarrow> heap \<Rightarrow> bptr \<Rightarrow> DomTreeBuilder \<Rightarrow> (abort, DomTreeBuilder) res" where
  "dfsTraverse 0 h bblock d = UB"
| "dfsTraverse (Suc depth) h bblock d =
     (let ids = block_id h; d = d\<lparr>lastNumber := lastNumber d + 1\<rparr> in
      ASSERT (lastNumber d < int (builder_size d))
        (ASSERT (ids bblock < length (labels d))
          (let d = d\<lparr>labels := (labels d)[ids bblock := Some bblock]\<rparr> in
           rbind (setSemiDomNumber ids bblock (nat (lastNumber d)) d) (\<lambda>d.
           rbind (setOrderedBlock (nat (lastNumber d)) bblock d) (\<lambda>d.
           for_each (\<lambda>succ d.
             rbind (getLabel ids (Some succ) d) (\<lambda>l.
             if l = None then rbind (setBlockDFOParent ids succ bblock d) (dfsTraverse depth h succ)
             else Ok d)) (b_succs (h_b h bblock)) d)))))"

text \<open>One round of the loop of \<open>computeSDoms\<close>: predecessors, links, dominated blocks.\<close>

definition sdom_from_pred :: "heap \<Rightarrow> bptr \<Rightarrow> bptr \<Rightarrow> DomTreeBuilder \<Rightarrow> (abort, DomTreeBuilder) res" where
  "sdom_from_pred h currentBlock pred d =
     rbind (Find (block_id h) (Some pred) d) (\<lambda>(nodeWithMinLabel, d).
     rbind (getSemiDominator (block_id h) (Some currentBlock) d) (\<lambda>s.
     rbind (getSemiDominator (block_id h) nodeWithMinLabel d) (\<lambda>m.
     setSemiDomNumber (block_id h) currentBlock (min s m) d)))"

definition sdom_link :: "heap \<Rightarrow> bptr \<Rightarrow> DomTreeBuilder \<Rightarrow> (abort, DomTreeBuilder) res" where
  "sdom_link h currentBlock d =
     rbind (registerSemiDom (block_id h) currentBlock d) (\<lambda>d.
     rbind (getBlockDFOParent (block_id h) currentBlock d) (\<lambda>p.
     Unite (block_id h) currentBlock p d))"

definition idom_of_dominatee :: "heap \<Rightarrow> bptr \<Rightarrow> DomTreeBuilder \<Rightarrow> (abort, DomTreeBuilder) res" where
  "idom_of_dominatee h dominatee d =
     rbind (Find (block_id h) (Some dominatee) d) (\<lambda>(minSDom, d).
     let dominateeId = block_id h dominatee in
     rbind (getSemiDominator (block_id h) minSDom d) (\<lambda>m.
     rbind (getSemiDominator (block_id h) (Some dominatee) d) (\<lambda>s.
     if m = s then rbind (getOrderedBlock s d) (\<lambda>ord. setImmDominator dominateeId ord d)
     else setImmDominator dominateeId minSDom d)))"

definition computeSDoms_step :: "heap \<Rightarrow> nat \<Rightarrow> DomTreeBuilder \<Rightarrow> (abort, DomTreeBuilder) res" where
  "computeSDoms_step h i d =
     rbind (getOrderedBlock i d) (\<lambda>ord.
     deref ord (\<lambda>currentBlock.
       rbind (for_each (sdom_from_pred h currentBlock) (b_preds (h_b h currentBlock)) d) (\<lambda>d.
       rbind (if i > 0 then sdom_link h currentBlock d else Ok d) (\<lambda>d.
       rbind (getSemiDoms (block_id h) currentBlock d) (\<lambda>dominatees.
       for_each (idom_of_dominatee h) dominatees d)))))"

definition computeSDoms :: "heap \<Rightarrow> DomTreeBuilder \<Rightarrow> (abort, DomTreeBuilder) res" where
  "computeSDoms h d = for_each (computeSDoms_step h) (rev [0..<builder_size d]) d"

text \<open>
  \<open>computeIDoms<InPlace>\<close>: in place the blocks get their dominators, otherwise the vector \<open>doms\<close>
  does.
\<close>

definition set_idom ::
    "bool \<Rightarrow> bptr \<Rightarrow> bptr \<Rightarrow> DominatorInfo list \<times> heap \<Rightarrow> (abort, DominatorInfo list \<times> heap) res" where
  "set_idom InPlace currentBlock immDom =
     (\<lambda>(doms, h).
       if InPlace then
         Ok (doms, upd_b immDom (AddDominatedBlock currentBlock)
                     (upd_b currentBlock (\<lambda>b. b\<lparr>b_dominator := Some immDom\<rparr>) h))
       else
         ASSERT (block_id h currentBlock < length doms \<and> block_id h immDom < length doms)
           (let doms = doms[block_id h currentBlock := (doms ! block_id h currentBlock)\<lparr>dominator := Some immDom\<rparr>];
                doms = doms[block_id h immDom := (doms ! block_id h immDom)
                         \<lparr>dominated := dominated (doms ! block_id h immDom) @ [currentBlock]\<rparr>] in
            Ok (doms, h)))"

definition computeIDoms_step ::
    "bool \<Rightarrow> nat \<Rightarrow> DomTreeBuilder \<times> DominatorInfo list \<times> heap \<Rightarrow>
       (abort, DomTreeBuilder \<times> DominatorInfo list \<times> heap) res" where
  "computeIDoms_step InPlace i =
     (\<lambda>(d, doms, h).
       rbind (getOrderedBlock i d) (\<lambda>ord.
       deref ord (\<lambda>currentBlock.
         let currentBlockId = block_id h currentBlock in
         rbind (getImmDominator currentBlockId d) (\<lambda>idom.
         rbind (getSemiDominator (block_id h) (Some currentBlock) d) (\<lambda>s.
         rbind (getOrderedBlock s d) (\<lambda>sdom.
         rbind (if idom \<noteq> sdom
                then deref idom (\<lambda>b. rbind (getImmDominator (block_id h b) d) (\<lambda>up. setImmDominator currentBlockId up d))
                else Ok d) (\<lambda>d.
         rbind (getImmDominator currentBlockId d) (\<lambda>immDom.
         deref immDom (\<lambda>immDom.
           rbind (set_idom InPlace currentBlock immDom (doms, h)) (\<lambda>(doms, h).
           Ok (d, doms, h)))))))))))"

definition computeIDoms ::
    "bool \<Rightarrow> DomTreeBuilder \<times> DominatorInfo list \<times> heap \<Rightarrow> (abort, DomTreeBuilder \<times> DominatorInfo list \<times> heap) res" where
  "computeIDoms InPlace =
     (\<lambda>(d, doms, h). for_each (computeIDoms_step InPlace) [1..<builder_size d] (d, doms, h))"

definition build ::
    "bool \<Rightarrow> gptr \<Rightarrow> DomTreeBuilder \<times> DominatorInfo list \<times> heap \<Rightarrow>
       (abort, DomTreeBuilder \<times> DominatorInfo list \<times> heap) res" where
  "build InPlace graph =
     (\<lambda>(d, doms, h).
       if GetBasicBlocksCount (h_g h graph) = 0 then Ok (d, doms, h)
       else
         rbind (resetStructs graph (d, h)) (\<lambda>(d, h).
         case g_firstBlock (h_g h graph) of
           None \<Rightarrow> Err AssertionFail
         | Some b \<Rightarrow>
             rbind (dfsTraverse (Suc (builder_size d)) h b d) (\<lambda>d.
             ASSERT (lastNumber d = int (GetBasicBlocksCount (h_g h graph)) - 1)
               (rbind (computeSDoms h d) (\<lambda>d. computeIDoms InPlace (d, doms, h))))))"

definition DomTree_Run :: "gptr \<Rightarrow> heap \<Rightarrow> (abort, bool \<times> heap) res" where
  "DomTree_Run graph h =
     rbind (build True graph (DomTreeBuilder_init, [], h)) (\<lambda>(d, doms, h). Ok (True, h))"

definition run_DomTree :: "gptr \<Rightarrow> heap \<Rightarrow> (abort, bool \<times> heap) res" where
  "run_DomTree graph = PassManager_Run (Some DOM_TREE) (DomTree_Run graph) graph"

definition DomTree_Build :: "gptr \<Rightarrow> heap \<Rightarrow> (abort, DominatorInfo list \<times> heap) res" where
  "DomTree_Build graph h =
     rbind (build False graph (DomTreeBuilder_init, [], h)) (\<lambda>(d, doms, h). Ok (doms, h))"

end
