(* ===== verification/JIT_DomTreeProperties.thy ===== *)
theory JIT_DomTreeProperties
  imports JIT_DomTree
begin

text \<open>
  What the disjoint sets and the dominator tree builder do: \<open>Find\<close> returns a least semidominator on
  the path to the root, the builder never ends on a graph with an unlinked block, and on the graph
  \<open>cross_heap\<close> it returns a wrong dominator.
\<close>

section \<open>Disjoint sets\<close>

text \<open>
  C29. The compressed forest keeps its meaning: \<open>Find\<close> returns the block itself at a root, otherwise
  a block with the least semidominator on the path to the root, and changes neither the forest nor
  the semidominators; \<open>Unite\<close> hangs a root below another block.
\<close>

theorem dsu_correct:
  assumes "dsu_ok ids U P rank d" and "b \<in> U"
  shows "(\<exists>l d' xs r. Find ids (Some b) d = Ok (Some l, d') \<and> dsu_ok ids U P rank d' \<and> sdoms d' = sdoms d \<and>
      chain P b xs r \<and> P r = None \<and> (if P b = None then l = b else least_on ids d l xs)) \<and>
    (\<forall>p \<in> U. P b = None \<and> rank p < rank b \<longrightarrow>
      (\<exists>d'. Unite ids b (Some p) d = Ok d' \<and> dsu_ok ids U (P(b \<mapsto> p)) rank d' \<and> sdoms d' = sdoms d))"
proof (intro conjI ballI impI)
  show "\<exists>l d' xs r. Find ids (Some b) d = Ok (Some l, d') \<and> dsu_ok ids U P rank d' \<and> sdoms d' = sdoms d \<and>
      chain P b xs r \<and> P r = None \<and> (if P b = None then l = b else least_on ids d l xs)"
    by (rule Find_correct [OF assms]) blast
  fix p assume p: "p \<in> U" "P b = None \<and> rank p < rank b"
  then show "\<exists>d'. Unite ids b (Some p) d = Ok d' \<and> dsu_ok ids U (P(b \<mapsto> p)) rank d' \<and> sdoms d' = sdoms d"
    by (auto intro: Unite_correct [OF assms])
qed

text \<open>A chain of three blocks, the middle one with the least semidominator.\<close>

definition sample_dsu :: DSU where
  "sample_dsu =
     \<lparr>universum = [None, Some 0, Some 1], labels = [Some 0, Some 1, Some 2], sdoms = [7, 3, 5]\<rparr>"

definition sample_forest :: "bptr \<rightharpoonup> bptr" where
  "sample_forest = [1 \<mapsto> 0, 2 \<mapsto> 1]"

lemma sample_dsu_ok: "dsu_ok id {0, 1, 2} sample_forest id sample_dsu"
proof -
  have "linked id sample_forest sample_dsu 1" "linked id sample_forest sample_dsu 2"
    unfolding linked_def
    by (rule exI [of _ 0], rule exI [of _ "[1]"], rule exI [of _ 1], simp add: sample_dsu_def sample_forest_def least_on_def)
      (rule exI [of _ 1], rule exI [of _ "[2]"], rule exI [of _ 2], simp add: sample_dsu_def sample_forest_def least_on_def)
  then show ?thesis
    by (auto simp: dsu_ok_def sample_dsu_def sample_forest_def split: if_split_asm)
qed

theorem dsu_correct_witness:
  "\<exists>d'. Find id (Some 2) sample_dsu = Ok (Some 1, d') \<and> sdoms d' = sdoms sample_dsu"
proof -
  obtain l d' xs r where f: "Find id (Some 2) sample_dsu = Ok (Some l, d')" "sdoms d' = sdoms sample_dsu"
    "chain sample_forest 2 xs r" "sample_forest r = None" "least_on id sample_dsu l xs"
    using dsu_correct [OF sample_dsu_ok, of 2] by (auto simp: sample_forest_def)
  have "chain sample_forest 2 [2, 1] 0" "sample_forest 0 = None" by (simp_all add: sample_forest_def)
  from chain_root [OF f(3,4) this] have "xs = [2, 1]" by simp
  with f(5) have "l = 1" by (auto simp: least_on_def sdom_of_def sample_dsu_def)
  with f show ?thesis by blast
qed

section \<open>Unlinked blocks\<close>

text \<open>The blocks in depth-first order fill a prefix of the vector.\<close>

definition numbered :: "nat \<Rightarrow> DomTreeBuilder \<Rightarrow> bool" where
  "numbered n d \<longleftrightarrow>
     length (orderedBBlocks d) = n \<and> length (idoms d) = n \<and> - 1 \<le> lastNumber d \<and>
     (\<forall>i < n. lastNumber d < int i \<longrightarrow> orderedBBlocks d ! i = None)"

lemma dfsTraverse_numbered:
  assumes "numbered n d"
  shows "ensures (numbered n) (dfsTraverse depth h b d)"
  using assms
proof (induction depth arbitrary: b d)
  case (Suc depth)
  let ?d = "d\<lparr>lastNumber := lastNumber d + 1\<rparr>"
  have keep: "ensures (numbered n) (setSemiDomNumber ids x k e)" "ensures (numbered n) (setBlockDFOParent ids x y e)"
    "numbered n (e\<lparr>labels := ls\<rparr>)" if "numbered n e" for ids x y k e ls
    using that by (auto simp: numbered_def setSemiDomNumber_def setBlockDFOParent_def intro!: ensures_ASSERT)
  have visit: "ensures (numbered n) (rbind (setBlockDFOParent (block_id h) succ b e) (dfsTraverse depth h succ))"
    if "numbered n e" for succ e
    by (rule ensures_bind [OF keep(2) [OF that] Suc.IH])
  have loop: "ensures (numbered n) (for_each (\<lambda>succ d.
             rbind (getLabel (block_id h) (Some succ) d) (\<lambda>l.
             if l = None then rbind (setBlockDFOParent (block_id h) succ b d) (dfsTraverse depth h succ)
             else Ok d)) ss e)" if "numbered n e" for ss e
    by (rule ensures_for_each, rule that, rule ensures_bind_eq) (simp add: visit)
  have order: "ensures (numbered n) (setOrderedBlock (nat (lastNumber ?d)) b e)"
    if "numbered n (e\<lparr>lastNumber := lastNumber d\<rparr>)" "lastNumber e = lastNumber ?d" for e
    using that by (auto simp: numbered_def setOrderedBlock_def nth_list_update intro!: ensures_ASSERT)
  let ?Q = "\<lambda>e. numbered n (e\<lparr>lastNumber := lastNumber d\<rparr>) \<and> lastNumber e = lastNumber ?d"
  let ?e = "?d\<lparr>labels := (labels ?d)[block_id h b := Some b]\<rparr>"
  have number: "ensures ?Q (setSemiDomNumber (block_id h) b (nat (lastNumber ?e)) ?e)"
    using Suc.prems by (auto simp: setSemiDomNumber_def numbered_def intro!: ensures_ASSERT)
  have order': "ensures (numbered n) (rbind (setOrderedBlock (nat (lastNumber e)) b e)
      (for_each (\<lambda>succ d.
             rbind (getLabel (block_id h) (Some succ) d) (\<lambda>l.
             if l = None then rbind (setBlockDFOParent (block_id h) succ b d) (dfsTraverse depth h succ)
             else Ok d)) (b_succs (h_b h b))))" if "?Q e" for e
    using ensures_bind [OF order loop, of e] that by simp
  show ?case
    unfolding dfsTraverse.simps Let_def
    by (intro ensures_ASSERT, rule ensures_bind [OF number order'])
qed simp

text \<open>
  The builder needs a graph without unlinked blocks: when a block has been unlinked, its number
  stays free and the builder dereferences the null pointer it finds there, unless an assertion
  stops it before.
\<close>

theorem dom_tree_no_unlinked:
  assumes "DomTree_Run graph h = Ok r" and "length (g_bblocks (h_g h graph)) < 2 ^ 64"
    and "g_unlinkedInstructionsCounter (h_g h graph) \<le> length (g_bblocks (h_g h graph))"
    and "GetBasicBlocksCount (h_g h graph) \<noteq> 0"
  shows "g_unlinkedInstructionsCounter (h_g h graph) = 0"
proof -
  let ?n = "length (g_bblocks (h_g h graph))"
  have reset: "h_g h' = h_g h \<and> numbered ?n d" if "resetStructs graph (DomTreeBuilder_init, h) = Ok (d, h')" for d h'
  proof -
    have "ensures (\<lambda>g. h_g g = h_g h)
        (ForEachBasicBlock graph (\<lambda>b h. Ok (upd_b b (\<lambda>b. b\<lparr>b_dominated := [], b_dominator := None\<rparr>) h)) h)"
      unfolding ForEachBasicBlock_def by (rule ensures_for_each) (auto simp: upd_b_def)
    moreover have "unat (GetMaximumBlockId (h_g h graph) + 1) = ?n"
      using assms(2) by (simp add: GetMaximumBlockId_def unsigned_of_nat take_bit_nat_eq_self)
    ultimately show ?thesis
      using that by (auto simp: resetStructs_def res_simps Let_def ensures_def numbered_def DSU_ctor_def resize_def
          DomTreeBuilder_init_def)
  qed
  obtain d0 h1 b d1 d2 where s: "resetStructs graph (DomTreeBuilder_init, h) = Ok (d0, h1)"
    "dfsTraverse (Suc (builder_size d0)) h1 b d0 = Ok d1"
    "lastNumber d1 = int (GetBasicBlocksCount (h_g h1 graph)) - 1" "computeSDoms h1 d1 = Ok d2"
    using assms(1,4) by (auto simp: DomTree_Run_def build_def res_simps split: option.split_asm)
  have n: "numbered ?n d1" and g: "h_g h1 = h_g h"
    using dfsTraverse_numbered [THEN ensuresD, OF _ s(2)] reset [OF s(1)] by blast+
  have "?n > 0" using assms(3,4) by (auto simp: GetBasicBlocksCount_def)
  then have "rev [0..<?n] = (?n - 1) # rev [0..<?n - 1]"
    by (cases ?n) auto
  then have "orderedBBlocks d1 ! (?n - 1) \<noteq> None"
    using s(4) n by (auto simp: computeSDoms_def builder_size_def numbered_def computeSDoms_step_def getOrderedBlock_def res_simps)
  then have "int (?n - 1) \<le> lastNumber d1" using n \<open>?n > 0\<close> unfolding numbered_def by (meson diff_less zero_less_one not_le)
  with s(3) g assms(3,4) show ?thesis by (auto simp: GetBasicBlocksCount_def)
qed

section \<open>A wrong dominator\<close>

text \<open>\<open>a\<close> dominates \<open>b\<close> when every path from the first block to \<open>b\<close> goes through \<open>a\<close>.\<close>

definition on_every_path :: "heap \<Rightarrow> bptr \<Rightarrow> bptr \<Rightarrow> bptr \<Rightarrow> bool" where
  "on_every_path h first a b \<longleftrightarrow> a = first \<or> (first, b) \<notin> {(x, y) \<in> edges h. x \<noteq> a \<and> y \<noteq> a}\<^sup>*"

text \<open>Block 4 is reached through 0, 1, 3 and through 0, 2.\<close>

definition cross_heap :: heap where
  "cross_heap =
     \<lparr>h_i = (\<lambda>_. InstructionBase_init UnaryRegInstruction Op_NEG T_I32 0),
      h_b = (\<lambda>b. (BasicBlock_init 0)\<lparr>b_id := b,
         b_succs := (if b = 0 then [1, 2] else if b = 1 then [2, 3] else if b = 2 then [3, 4] else if b = 3 then [4] else []),
         b_preds := (if b = 1 then [0] else if b = 2 then [0, 1] else if b = 3 then [1, 2] else if b = 4 then [2, 3] else [])\<rparr>),
      h_l = (\<lambda>_. Loop_init 0 None False False),
      h_g = (\<lambda>_. Graph_init\<lparr>g_firstBlock := Some 0, g_bblocks := map Some [0, 1, 2, 3, 4]\<rparr>),
      h_new_i = 0, h_new_b = 5, h_new_l = 0\<rparr>"


definition cross_start :: DomTreeBuilder where
  "cross_start =
     \<lparr>universum = [None, None, None, None, None], labels = [None, None, None, None, None],
      sdoms = [INVALID_ID, INVALID_ID, INVALID_ID, INVALID_ID, INVALID_ID], lastNumber = - 1,
      idoms = [None, None, None, None, None], sdomsSet = [[], [], [], [], []], orderedBBlocks = [None, None, None, None, None],
      bblocksParents = [None, None, None, None, None]\<rparr>"

definition cross_numbered :: DomTreeBuilder where
  "cross_numbered =
     \<lparr>universum = [None, None, None, None, None], labels = [Some 0, Some 1, Some 2, Some 3, Some 4],
      sdoms = [0, 1, 2, 3, 4], lastNumber = 4,
      idoms = [None, None, None, None, None], sdomsSet = [[], [], [], [], []], orderedBBlocks = [Some 0, Some 1, Some 2, Some 3, Some 4],
      bblocksParents = [None, Some 0, Some 1, Some 2, Some 3]\<rparr>"

lemma replicate5: "replicate 5 x = [x, x, x, x, x]"
  by (simp add: numeral_eq_Suc)

lemma cross_reset: "\<exists>h. resetStructs 0 (DomTreeBuilder_init, cross_heap) =
  Ok (cross_start, h) \<and> block_id h = id \<and> succs_of h = succs_of cross_heap
   \<and> preds_of h = preds_of cross_heap \<and> h_g h = h_g cross_heap"
  by (simp add: resetStructs_def ForEachBasicBlock_def cross_heap_def non_null_def DomTreeBuilder_init_def DSU_ctor_def resize_def GetMaximumBlockId_def
     upd_b_def block_id_def fun_eq_iff succs_of_def preds_of_def Let_def replicate5 cross_start_def)

lemma cross_dfs:
  assumes "block_id h = id" "succs_of h = succs_of cross_heap"
  shows "dfsTraverse 6 h 0 cross_start =
    Ok cross_numbered"
proof -
  have six: "(6 :: nat) = Suc (Suc (Suc (Suc (Suc (Suc 0)))))" by simp
  have "b_succs (h_b h b) = (if b = 0 then [1, 2] else if b = 1 then [2, 3] else if b = 2 then [3, 4] else if b = 3 then [4] else [])" for b
    using assms(2) by (simp add: succs_of_def cross_heap_def fun_eq_iff)
  then show ?thesis
    using assms(1) by (simp add: six Let_def builder_size_def setSemiDomNumber_def setOrderedBlock_def getLabel_def setBlockDFOParent_def
        cross_start_def cross_numbered_def)
qed

lemma cross_sdoms:
  assumes "block_id h = id" "preds_of h = preds_of cross_heap"
  shows "\<exists>d. computeSDoms h cross_numbered = Ok d \<and> idoms d = [None, Some 0, Some 0, Some 2, Some 2] \<and> sdoms d = [0, 0, 0, 1, 2]
      \<and> orderedBBlocks d = [Some 0, Some 1, Some 2, Some 3, Some 4]"
proof -
  have five: "rev [0..<5] = [4, 3, 2, 1, 0 :: nat]" by (simp add: upt_rec)
  have f: "(5 :: nat) = Suc (Suc (Suc (Suc (Suc 0))))" by simp
  have "b_preds (h_b h b) = (if b = 1 then [0] else if b = 2 then [0, 1] else if b = 3 then [1, 2] else if b = 4 then [2, 3] else [])" for b
    using assms(2) by (simp add: preds_of_def cross_heap_def fun_eq_iff)
  then show ?thesis
    using assms(1) by (simp add: computeSDoms_def builder_size_def five computeSDoms_step_def getOrderedBlock_def sdom_from_pred_def Find_def GetSize_def
      getUniversum_def getSemiDominator_def setSemiDomNumber_def sdom_link_def registerSemiDom_def getBlockDFOParent_def Unite_def setUniversum_def
      getSemiDoms_def idom_of_dominatee_def getLabel_def setLabel_def setImmDominator_def Let_def f cross_numbered_def)
qed


lemma cross_run: "\<exists>h'. DomTree_Run 0 cross_heap = Ok (True, h') \<and> b_dominator (h_b h' 4) = Some 2"
proof -
  obtain h where h: "resetStructs 0 (DomTreeBuilder_init, cross_heap) =
      Ok (cross_start, h)" "block_id h = id" "succs_of h = succs_of cross_heap"
    "preds_of h = preds_of cross_heap" "h_g h = h_g cross_heap"
    using cross_reset by blast
  obtain d where d: "computeSDoms h cross_numbered = Ok d" "idoms d = [None, Some 0, Some 0, Some 2, Some 2]"
    "sdoms d = [0, 0, 0, 1, 2]" "orderedBBlocks d = [Some 0, Some 1, Some 2, Some 3, Some 4]"
    using cross_sdoms [OF h(2,4)] by blast
  have ids: "b_id (h_b h b) = b" for b using h(2) by (simp add: block_id_def fun_eq_iff)
  have size: "builder_size cross_start = 5" "lastNumber cross_numbered = 4" "builder_size d = 5"
    using d(2) by (simp_all add: builder_size_def cross_start_def cross_numbered_def)
  have four: "[Suc 0..<5] = [1, 2, 3, 4]" by (simp add: upt_rec)
  have graph: "GetBasicBlocksCount (h_g cross_heap 0) = 5" "g_firstBlock (h_g cross_heap 0) = Some 0"
    by (simp_all add: cross_heap_def GetBasicBlocksCount_def Graph_init_def)
  show "\<exists>h'. DomTree_Run 0 cross_heap = Ok (True, h') \<and> b_dominator (h_b h' 4) = Some 2"
    using h(1) cross_dfs [OF h(2,3)] d ids
    by (simp del: dfsTraverse.simps add: size DomTree_Run_def build_def graph h(5) computeIDoms_def four computeIDoms_step_def getOrderedBlock_def
        getImmDominator_def getSemiDominator_def setImmDominator_def set_idom_def Let_def upd_b_def AddDominatedBlock_def block_id_def)
qed

theorem dom_tree_no_unlinked_witness:
  "(\<exists>r. DomTree_Run 0 cross_heap = Ok r) \<and> g_unlinkedInstructionsCounter (h_g cross_heap 0) = 0"
proof -
  obtain r where r: "DomTree_Run 0 cross_heap = Ok r" using cross_run by blast
  moreover have "length (g_bblocks (h_g cross_heap 0)) < 2 ^ 64"
    "g_unlinkedInstructionsCounter (h_g cross_heap 0) \<le> length (g_bblocks (h_g cross_heap 0))" "GetBasicBlocksCount (h_g cross_heap 0) \<noteq> 0"
    by (simp_all add: cross_heap_def Graph_init_def GetBasicBlocksCount_def)
  ultimately show ?thesis using dom_tree_no_unlinked by blast
qed

text \<open>
  C31. On the graph \<open>cross_heap\<close> the builder returns 2 as the dominator of 4, but the path through 0, 1
  and 3 avoids 2: the dominatees of a block are looked up after the block was linked to its parent,
  so \<open>Find\<close> takes the block's own semidominator into the minimum.
\<close>

theorem dom_tree_wrong:
  "\<exists>h'. DomTree_Run 0 cross_heap = Ok (True, h') \<and> Dominates 2 4 h' = Ok True \<and> \<not> on_every_path cross_heap 0 2 4"
proof -
  have "\<exists>h'. DomTree_Run 0 cross_heap = Ok (True, h') \<and> b_dominator (h_b h' 4) = Some 2"
    by (rule cross_run)
  moreover have "Dominates 2 4 h' = Ok True" if "b_dominator (h_b h' 4) = Some 2" for h'
    using that by (simp add: Dominates_def)
  moreover have "\<not> on_every_path cross_heap 0 2 4"
  proof -
    have "(0, 1) \<in> {(x, y) \<in> edges cross_heap. x \<noteq> 2 \<and> y \<noteq> 2}" "(1, 3) \<in> {(x, y) \<in> edges cross_heap. x \<noteq> 2 \<and> y \<noteq> 2}"
      "(3, 4) \<in> {(x, y) \<in> edges cross_heap. x \<noteq> 2 \<and> y \<noteq> 2}"
      by (simp_all add: edges_def succs_of_def cross_heap_def)
    then have "(0, 4) \<in> {(x, y) \<in> edges cross_heap. x \<noteq> 2 \<and> y \<noteq> 2}\<^sup>*"
      by (meson converse_rtrancl_into_rtrancl rtrancl.rtrancl_refl)
    then show ?thesis by (simp add: on_every_path_def)
  qed
  ultimately show ?thesis by blast
qed

end
