(* ===== verification/JIT_DCE.thy ===== *)
theory JIT_DCE
  imports JIT_Traverse JIT_Peephole
begin

text \<open>
  Dead code elimination: \<open>optimization/DCE.h\<close>, \<open>optimization/DCE.cpp\<close>.  Instructions with side
  effects and, transitively, their inputs are marked alive; the other instructions of the visited
  blocks are unlinked.  \<open>markAlive\<close> recurses from an instruction to its inputs; an instruction that
  was marked before ends the recursion, so one call more than there are instructions is the
  deepest nesting, and running out of \<open>depth\<close> is \<open>UB\<close>.  The log messages are left out.
\<close>

section \<open>The pass\<close>

definition mark_instr :: "Marker \<Rightarrow> iptr \<Rightarrow> heap \<Rightarrow> (abort, bool \<times> heap) res" where
  "mark_instr mark p h =
     rbind (SetMarker mark (i_markers (h_i h p))) (\<lambda>(wasSet, ms).
     Ok (wasSet, upd_i p (\<lambda>i. i\<lparr>i_markers := ms\<rparr>) h))"

definition instr_marked :: "Marker \<Rightarrow> iptr \<Rightarrow> heap \<Rightarrow> (abort, bool) res" where
  "instr_marked mark p h = IsMarkerSet mark (i_markers (h_i h p))"

fun markAlive :: "nat \<Rightarrow> Marker \<Rightarrow> iptr option \<Rightarrow> heap_step" where
  "markAlive 0 aliveMarker instr h = UB"
| "markAlive (Suc depth) aliveMarker instr h =
     (case instr of
        None \<Rightarrow> Err AssertionFail
      | Some p \<Rightarrow>
          rbind (mark_instr aliveMarker p h) (\<lambda>(wasSet, h).
          if HasInputs (h_i h p) \<and> wasSet then
            for_each (\<lambda>i h. rbind (GetInput i (h_i h p)) (\<lambda>input. markAlive depth aliveMarker input h))
              [0..<GetInputsCount (h_i h p)] h
          else Ok h))"

text \<open>\<open>removeDead\<close>\<close>

definition removeDead :: "iptr list \<Rightarrow> heap_step" where
  "removeDead = for_each (\<lambda>instr h. deref (i_parent (h_i h instr)) (\<lambda>b. UnlinkInstruction instr b h))"

definition mark_phase :: "Marker \<Rightarrow> bptr list \<Rightarrow> heap_step" where
  "mark_phase aliveMarker rpo h =
     for_each (\<lambda>bblock h.
       iter_from (block_begin bblock h)
         (\<lambda>instr h. if HasSideEffects (h_i h instr) then markAlive (Suc (h_new_i h)) aliveMarker (Some instr) h else Ok h) h)
       rpo h"

definition collect_phase :: "Marker \<Rightarrow> bptr list \<Rightarrow> heap \<Rightarrow> (abort, iptr list \<times> heap) res" where
  "collect_phase aliveMarker rpo h =
     for_each (\<lambda>bblock (deadInstrs, h).
       iter_with (block_begin bblock h)
         (\<lambda>instr (deadInstrs, h). rbind (instr_marked aliveMarker instr h) (\<lambda>alive.
            Ok (if \<not> alive then deadInstrs @ [instr] else deadInstrs, h))) (deadInstrs, h))
       rpo ([], h)"

definition DCE_Run :: "gptr \<Rightarrow> heap \<Rightarrow> (abort, bool \<times> heap) res" where
  "DCE_Run graph h =
     rbind (new_marker graph h) (\<lambda>(aliveMarker, h).
     rbind (run_RPO graph h) (\<lambda>(_, h).
     rbind (GetRPO (h_g h graph)) (\<lambda>rpo.
     rbind (mark_phase aliveMarker rpo h) (\<lambda>h.
     rbind (collect_phase aliveMarker rpo h) (\<lambda>(deadInstrs, h).
     rbind (removeDead deadInstrs h) (\<lambda>h.
     Ok (deadInstrs \<noteq> [], h)))))))"

section \<open>Live instructions\<close>

definition inputs_of :: "heap \<Rightarrow> iptr \<Rightarrow> iptr set" where
  "inputs_of h p = (if HasInputs (h_i h p) then {q. Some q \<in> set (i_inputs (h_i h p))} else {})"

text \<open>What an instruction needs: its inputs, their inputs and so on.\<close>

definition needs :: "heap \<Rightarrow> (iptr \<times> iptr) set" where
  "needs h = {(p, q). q \<in> inputs_of h p}\<^sup>*"

text \<open>Every input is an allocated instruction.\<close>

definition inputs_ok :: "heap \<Rightarrow> bool" where
  "inputs_ok h \<longleftrightarrow>
     (\<forall>p. HasInputs (h_i h p) \<longrightarrow> (\<forall>x \<in> set (i_inputs (h_i h p)). \<exists>q. x = Some q \<and> q < h_new_i h))"

definition erase_imarks :: "heap \<Rightarrow> heap" where
  "erase_imarks h = h\<lparr>h_i := \<lambda>p. (h_i h p)\<lparr>i_markers := []\<rparr>\<rparr>"

lemma erase_imarks_upd [simp]: "erase_imarks (upd_i p (\<lambda>i. i\<lparr>i_markers := ms\<rparr>) h) = erase_imarks h"
  by (auto simp: erase_imarks_def upd_i_def fun_eq_iff)

lemma erase_imarksD:
  assumes "erase_imarks h' = erase_imarks h"
  shows "h_b h' = h_b h" and "h_g h' = h_g h" and "h_new_i h' = h_new_i h" and "HasInputs (h_i h' p) = HasInputs (h_i h p)"
    and "i_inputs (h_i h' p) = i_inputs (h_i h p)" and "i_next (h_i h' p) = i_next (h_i h p)"
    and "i_prev (h_i h' p) = i_prev (h_i h p)" and "i_parent (h_i h' p) = i_parent (h_i h p)"
    and "IsPhi (h_i h' p) = IsPhi (h_i h p)" and "HasSideEffects (h_i h' p) = HasSideEffects (h_i h p)"
proof -
  have eq: "(h_i h' p)\<lparr>i_markers := []\<rparr> = (h_i h p)\<lparr>i_markers := []\<rparr>" for p
    using arg_cong [OF assms, of "\<lambda>h. h_i h p"] by (simp add: erase_imarks_def)
  show "h_b h' = h_b h" "h_g h' = h_g h" "h_new_i h' = h_new_i h"
    using arg_cong [OF assms, of h_b] arg_cong [OF assms, of h_g] arg_cong [OF assms, of h_new_i]
    by (simp_all add: erase_imarks_def)
  have sel: "i_properties (h_i h' p) = i_properties (h_i h p)" "i_opcode (h_i h' p) = i_opcode (h_i h p)"
    using arg_cong [OF eq, of i_properties p] arg_cong [OF eq, of i_opcode p] by simp_all
  show "HasInputs (h_i h' p) = HasInputs (h_i h p)" "HasSideEffects (h_i h' p) = HasSideEffects (h_i h p)"
    "IsPhi (h_i h' p) = IsPhi (h_i h p)"
    using sel by (simp_all add: HasInputs_def HasSideEffects_def SatisfiesProperty_def IsPhi_def)
  show "i_inputs (h_i h' p) = i_inputs (h_i h p)" "i_next (h_i h' p) = i_next (h_i h p)"
    "i_prev (h_i h' p) = i_prev (h_i h p)" "i_parent (h_i h' p) = i_parent (h_i h p)"
    using arg_cong [OF eq, of i_inputs p] arg_cong [OF eq, of i_next p] arg_cong [OF eq, of i_prev p]
      arg_cong [OF eq, of i_parent p] by simp_all
qed

lemma erase_imarks_inputs_of: "erase_imarks h' = erase_imarks h \<Longrightarrow> inputs_of h' = inputs_of h"
  by (simp add: inputs_of_def erase_imarksD(4,5) [of h' h] fun_eq_iff)

lemma erase_imarks_needs: "erase_imarks h' = erase_imarks h \<Longrightarrow> needs h' = needs h"
  by (simp add: needs_def erase_imarks_inputs_of [of h' h])

lemma erase_imarks_inputs_ok: "erase_imarks h' = erase_imarks h \<Longrightarrow> inputs_ok h' = inputs_ok h"
  by (simp add: inputs_ok_def erase_imarksD(3,4,5) [of h' h])

text \<open>\<open>M\<close> is the set of marked instructions; \<open>h0\<close> is the heap without the marks.\<close>

definition alive :: "Marker \<Rightarrow> heap \<Rightarrow> iptr set \<Rightarrow> heap \<Rightarrow> bool" where
  "alive mark h0 M h \<longleftrightarrow> erase_imarks h = erase_imarks h0 \<and> (\<forall>p. instr_marked mark p h = Ok (p \<in> M))"

lemma mark_instr_alive:
  assumes "alive mark h0 M h"
  obtains h' where "mark_instr mark p h = Ok (p \<notin> M, h')" and "alive mark h0 (insert p M) h'"
proof -
  have m: "IsMarkerSet mark (i_markers (h_i h q)) = Ok (q \<in> M)" for q
    using assms by (simp add: alive_def instr_marked_def)
  let ?ms = "(i_markers (h_i h p))[marker_slot mark := marker_value mark]"
  show thesis
  proof (rule that [of "upd_i p (\<lambda>i. i\<lparr>i_markers := ?ms\<rparr>) h"])
    show "mark_instr mark p h = Ok (p \<notin> M, upd_i p (\<lambda>i. i\<lparr>i_markers := ?ms\<rparr>) h)"
      by (simp add: mark_instr_def SetMarker_of_Ok [OF m])
    show "alive mark h0 (insert p M) (upd_i p (\<lambda>i. i\<lparr>i_markers := ?ms\<rparr>) h)"
      using assms m IsMarkerSet_after [OF m] by (auto simp: alive_def instr_marked_def h_i_upd_i)
  qed
qed

text \<open>A set that contains the inputs of the members that are not in \<open>M\<close>.\<close>

definition closed_above :: "heap \<Rightarrow> iptr set \<Rightarrow> iptr set \<Rightarrow> bool" where
  "closed_above h M M' \<longleftrightarrow> (\<forall>x \<in> M' - M. inputs_of h x \<subseteq> M')"

definition grows :: "heap \<Rightarrow> iptr set \<Rightarrow> iptr set \<Rightarrow> iptr set \<Rightarrow> bool" where
  "grows h R M M' \<longleftrightarrow> M \<subseteq> M' \<and> M' \<subseteq> M \<union> {q. \<exists>r \<in> R. (r, q) \<in> needs h} \<and> closed_above h M M'"

lemma grows_refl: "grows h R M M"
  by (simp add: grows_def closed_above_def)

lemma grows_trans: "grows h R M M1 \<Longrightarrow> grows h R M1 M2 \<Longrightarrow> grows h R M M2"
  unfolding grows_def closed_above_def by blast

lemma grows_mono: "grows h R M M' \<Longrightarrow> (\<And>r. r \<in> R \<Longrightarrow> \<exists>s \<in> S. (s, r) \<in> needs h) \<Longrightarrow> grows h S M M'"
  unfolding grows_def needs_def
proof (elim conjE, intro conjI subsetI)
  let ?E = "{(p, q). q \<in> inputs_of h p}\<^sup>*"
  fix q assume mono: "\<And>r. r \<in> R \<Longrightarrow> \<exists>s \<in> S. (s, r) \<in> ?E" and "M' \<subseteq> M \<union> {q. \<exists>r \<in> R. (r, q) \<in> ?E}" "q \<in> M'"
  then consider "q \<in> M" | r where "r \<in> R" "(r, q) \<in> ?E" by blast
  then show "q \<in> M \<union> {q. \<exists>s \<in> S. (s, q) \<in> ?E}"
  proof cases
    case 2
    from mono [OF this(1)] obtain s where "s \<in> S" "(s, r) \<in> ?E" by blast
    with 2(2) show ?thesis by (blast intro: rtrancl_trans)
  qed simp
qed blast


lemma markAlive_correct:
  assumes "inputs_ok h0" and "alive mark h0 M h" and "p < h_new_i h0" and "card ({..<h_new_i h0} - M) < depth"
  shows "\<exists>h' M'. markAlive depth mark (Some p) h = Ok h' \<and> alive mark h0 M' h' \<and> p \<in> M' \<and> grows h0 {p} M M'"
  using assms(2-)
proof (induction depth arbitrary: p M h)
  case (Suc depth)
  let ?U = "{..<h_new_i h0}"
  let ?body = "\<lambda>i h. rbind (GetInput i (h_i h p)) (\<lambda>input. markAlive depth mark input h)"
  obtain h1 where h1: "mark_instr mark p h = Ok (p \<notin> M, h1)" "alive mark h0 (insert p M) h1"
    by (rule mark_instr_alive [OF Suc.prems(1)])
  have E: "erase_imarks g = erase_imarks h0" if "alive mark h0 N g" for N g
    using that by (simp add: alive_def)
  show ?case
  proof (cases "HasInputs (h_i h0 p) \<and> p \<notin> M")
    case False
    have "closed_above h0 M (insert p M)"
      using False by (auto simp: closed_above_def inputs_of_def)
    then have g: "grows h0 {p} M (insert p M)" by (auto simp: grows_def needs_def)
    have "(HasInputs (h_i h1 p) \<and> p \<notin> M) = False" using False erase_imarksD(4) [OF E [OF h1(2)]] by simp
    then have "markAlive (Suc depth) mark (Some p) h = Ok h1"
      by (simp only: markAlive.simps option.case h1(1) rbind.simps prod.case if_False)
    then show ?thesis using g h1(2) insertI1 by (intro exI conjI)
  next
    case True
    let ?ins = "i_inputs (h_i h0 p)"
    have inputs: "\<exists>q. ?ins ! i = Some q \<and> q \<in> ?U \<and> q \<in> inputs_of h0 p" if "i < length ?ins" for i
    proof -
      have "?ins ! i \<in> set ?ins" using that by simp
      moreover from this obtain q where "?ins ! i = Some q" "q < h_new_i h0"
        using assms(1) True unfolding inputs_ok_def by blast
      ultimately show ?thesis using True by (simp add: inputs_of_def)
    qed
    have loop: "\<exists>h2 M2. for_each ?body is g = Ok h2 \<and> alive mark h0 M2 h2 \<and> grows h0 (inputs_of h0 p) N M2 \<and>
        (\<forall>i \<in> set is. the (?ins ! i) \<in> M2)"
      if "alive mark h0 N g" "insert p M \<subseteq> N" "set is \<subseteq> {..<length ?ins}" for "is" N g
      using that
    proof (induction "is" arbitrary: N g)
      case Nil
      then show ?case by (auto intro: grows_refl)
    next
      case (Cons i "is")
      obtain q where q: "?ins ! i = Some q" "q \<in> ?U" "q \<in> inputs_of h0 p" using inputs [of i] Cons.prems(3) by auto
      have get: "GetInput i (h_i g p) = Ok (Some q)"
        using Cons.prems(3) q(1) erase_imarksD(5) [OF E [OF Cons.prems(1)]] by (simp add: GetInput_def)
      have "?U - N \<subseteq> (?U - M) - {p}" using Cons.prems(2) by auto
      then have "card (?U - N) \<le> card ((?U - M) - {p})" by (intro card_mono) auto
      also have "\<dots> < card (?U - M)" using Suc.prems(2) True by (intro card_Diff1_less) auto
      finally have "card (?U - N) < depth" using Suc.prems(3) by simp
      with q(2) obtain h2 M2 where h2: "markAlive depth mark (Some q) g = Ok h2" "alive mark h0 M2 h2" "q \<in> M2" "grows h0 {q} N M2"
        using Suc.IH [OF Cons.prems(1)] by blast
      have "insert p M \<subseteq> M2" using Cons.prems(2) h2(4) by (auto simp: grows_def)
      from Cons.IH [OF h2(2) this] Cons.prems(3) obtain h3 M3 where h3: "for_each ?body is h2 = Ok h3" "alive mark h0 M3 h3"
        "grows h0 (inputs_of h0 p) M2 M3" "\<forall>i \<in> set is. the (?ins ! i) \<in> M3" by auto
      have "grows h0 (inputs_of h0 p) N M2"
        by (rule grows_mono [OF h2(4)]) (use q(3) in \<open>auto simp: needs_def\<close>)
      from grows_trans [OF this h3(3)] have "grows h0 (inputs_of h0 p) N M3" .
      moreover have "q \<in> M3" using h2(3) h3(3) by (auto simp: grows_def)
      ultimately show ?case using get h2(1) h3 q(1) by auto
    qed
    obtain h2 M2 where h2: "for_each ?body [0..<length ?ins] h1 = Ok h2" "alive mark h0 M2 h2"
      "grows h0 (inputs_of h0 p) (insert p M) M2" "\<forall>i \<in> set [0..<length ?ins]. the (?ins ! i) \<in> M2"
    proof -
      have "set [0..<length ?ins] \<subseteq> {..<length ?ins}" by auto
      from loop [OF h1(2) subset_refl this] that show thesis by blast
    qed
    have "(p, q) \<in> needs h0" if "r \<in> inputs_of h0 p" "(r, q) \<in> needs h0" for r q
      using that unfolding needs_def by (meson converse_rtrancl_into_rtrancl case_prodI mem_Collect_eq)
    moreover have "(p, p) \<in> needs h0" by (simp add: needs_def)
    ultimately have "M2 \<subseteq> M \<union> {q. \<exists>r \<in> {p}. (r, q) \<in> needs h0}" using h2(3) unfolding grows_def by blast
    moreover have "inputs_of h0 p \<subseteq> M2"
      using h2(4) by (force simp: inputs_of_def in_set_conv_nth split: if_split_asm)
    ultimately have "grows h0 {p} M M2"
      using h2(3) unfolding grows_def closed_above_def by blast
    moreover have "markAlive (Suc depth) mark (Some p) h = Ok h2"
      using h1(1) h2(1) True erase_imarksD(4,5) [OF E [OF h1(2)]] by (simp add: GetInputsCount_def)
    moreover have "p \<in> M2" using h2(3) by (simp add: grows_def)
    ultimately show ?thesis using h2(2) by blast
  qed
qed simp

section \<open>The phases\<close>

lemma mark_instr_erase: "mark_instr mark p h = Ok (w, h') \<Longrightarrow> erase_imarks h' = erase_imarks h"
  by (auto simp: mark_instr_def res_simps)

lemma markAlive_erase: "ensures (\<lambda>h'. erase_imarks h' = erase_imarks h) (markAlive depth mark q h)"
proof (induction depth arbitrary: q h)
  case (Suc depth)
  let ?body = "\<lambda>p i h. rbind (GetInput i (h_i h p)) (\<lambda>input. markAlive depth mark input h)"
  have loop: "ensures (\<lambda>h'. erase_imarks h' = erase_imarks h) (for_each (?body p) is g)"
    if "erase_imarks g = erase_imarks h" for p "is" g
    by (rule ensures_for_each, rule that, rule ensures_bind_eq) (metis Suc.IH)
  show ?case
    by (auto simp: split_beta intro!: ensures_option ensures_bind_eq ensures_if loop dest!: mark_instr_erase split: if_splits)
qed simp

declare markAlive.simps [simp del]

text \<open>A block's list of instructions, whatever the marks.\<close>

lemma erase_imarks_begin: "erase_imarks h = erase_imarks h0 \<Longrightarrow> block_begin b h = block_begin b h0"
  by (simp add: block_begin_def erase_imarksD(1) [of h h0] cong: option.case_cong)

lemma iter_block:
  assumes "block_list b phis insts h0" and "erase_imarks h = erase_imarks h0"
    and "\<And>c g g'. body c g = Ok g' \<Longrightarrow> erase_imarks g' = erase_imarks g"
  shows "iter_from (block_begin b h) body h = for_each body (phis @ insts) h"
proof -
  have "dll h0 None (phis @ insts) None" using assms(1) by (simp add: block_list_def)
  from iter_from_list [OF this, of body h] show ?thesis
    using erase_imarks_begin [OF assms(2)] block_begin_list [OF assms(1)] erase_imarksD(6) [OF assms(2)]
      erase_imarksD(6) [OF assms(3)] by simp
qed

definition roots :: "heap \<Rightarrow> iptr set \<Rightarrow> iptr set" where
  "roots h X = {x \<in> X. HasSideEffects (h_i h x)}"

definition mark_body :: "Marker \<Rightarrow> iptr \<Rightarrow> heap_step" where
  "mark_body mark instr h =
     (if HasSideEffects (h_i h instr) then markAlive (Suc (h_new_i h)) mark (Some instr) h else Ok h)"

lemma mark_list:
  assumes "inputs_ok h0" and "alive mark h0 M h" and "set xs \<subseteq> {..<h_new_i h0}"
  shows "\<exists>h' M'. for_each (mark_body mark) xs h = Ok h' \<and> alive mark h0 M' h' \<and> grows h0 (roots h0 (set xs)) M M' \<and>
    roots h0 (set xs) \<subseteq> M'"
  using assms(2,3)
proof (induction xs arbitrary: M h)
  case Nil
  then show ?case by (auto intro: grows_refl simp: roots_def)
next
  case (Cons x xs)
  have e: "erase_imarks h = erase_imarks h0" using Cons.prems(1) by (simp add: alive_def)
  have "\<exists>h1 M1. mark_body mark x h = Ok h1 \<and> alive mark h0 M1 h1 \<and> grows h0 (roots h0 {x}) M M1 \<and> roots h0 {x} \<subseteq> M1"
  proof (cases "HasSideEffects (h_i h0 x)")
    case True
    have "card ({..<h_new_i h0} - M) \<le> card {..<h_new_i h0}" by (rule card_mono) auto
    then have c: "card ({..<h_new_i h0} - M) < Suc (h_new_i h0)" by simp
    have "roots h0 {x} = {x}" using True by (auto simp: roots_def)
    then show ?thesis
      using markAlive_correct [OF assms(1) Cons.prems(1) _ c, of x] Cons.prems(2) True erase_imarksD(3,10) [OF e]
      by (auto simp: mark_body_def)
  next
    case False
    then show ?thesis
      using Cons.prems(1) erase_imarksD(10) [OF e] by (auto simp: mark_body_def roots_def intro: grows_refl)
  qed
  then obtain h1 M1 where 1: "mark_body mark x h = Ok h1" "alive mark h0 M1 h1" "grows h0 (roots h0 {x}) M M1" "roots h0 {x} \<subseteq> M1"
    by blast
  obtain h2 M2 where 2: "for_each (mark_body mark) xs h1 = Ok h2" "alive mark h0 M2 h2" "grows h0 (roots h0 (set xs)) M1 M2"
    "roots h0 (set xs) \<subseteq> M2"
    using Cons.IH [OF 1(2)] Cons.prems(2) by auto
  have sub: "roots h0 {x} \<subseteq> roots h0 (set (x # xs))" "roots h0 (set xs) \<subseteq> roots h0 (set (x # xs))" 
    by (auto simp: roots_def)
  have refl: "(r, r) \<in> needs h0" for r by (simp add: needs_def)
  have "grows h0 (roots h0 (set (x # xs))) M M2"
    by (rule grows_trans [OF grows_mono [OF 1(3)] grows_mono [OF 2(3)]]) (use sub refl in blast)+
  moreover have "roots h0 (set (x # xs)) \<subseteq> M2"
    using 1(4) 2(3,4) by (auto simp: roots_def grows_def)
  ultimately show ?case using 1(1) 2(1,2) by auto
qed

text \<open>The instructions of the blocks \<open>bs\<close>, listed by \<open>L\<close>.\<close>

definition block_instrs :: "(bptr \<Rightarrow> iptr list \<times> iptr list) \<Rightarrow> bptr \<Rightarrow> iptr list" where
  "block_instrs L b = fst (L b) @ snd (L b)"

definition listed :: "bptr set \<Rightarrow> (bptr \<Rightarrow> iptr list \<times> iptr list) \<Rightarrow> heap \<Rightarrow> bool" where
  "listed B L h \<longleftrightarrow> (\<forall>b \<in> B. block_list b (fst (L b)) (snd (L b)) h)"

lemma mark_phase_lists:
  assumes "listed (set rpo) L h0" and "erase_imarks h = erase_imarks h0"
  shows "mark_phase mark rpo h = for_each (mark_body mark) (concat (map (block_instrs L) rpo)) h"
  using assms
proof (induction rpo arbitrary: h)
  case Nil
  then show ?case by (simp add: mark_phase_def)
next
  case (Cons b rpo)
  have body: "erase_imarks g' = erase_imarks g" if "mark_body mark c g = Ok g'" for c g g'
    using that ensuresD [OF markAlive_erase] by (auto simp: mark_body_def split: if_split_asm)
  have "block_list b (fst (L b)) (snd (L b)) h0" using Cons.prems(1) by (simp add: listed_def)
  from iter_block [OF this Cons.prems(2), of "mark_body mark", OF body]
  have b: "iter_from (block_begin b h) (mark_body mark) h = for_each (mark_body mark) (block_instrs L b) h"
    by (simp add: block_instrs_def)
  have "listed (set rpo) L h0" using Cons.prems(1) by (simp add: listed_def)
  note IH = Cons.IH [OF this]
  have eq: "mark_body mark = (\<lambda>instr h. if HasSideEffects (h_i h instr) then markAlive (Suc (h_new_i h)) mark (Some instr) h else Ok h)"
    by (simp add: mark_body_def fun_eq_iff)
  show ?case
  proof (cases "for_each (mark_body mark) (block_instrs L b) h")
    case (Ok h1)
    have "erase_imarks h1 = erase_imarks h0"
      using ensures_for_each [of "\<lambda>g. erase_imarks g = erase_imarks h0" h "block_instrs L b" "mark_body mark"] Ok body Cons.prems(2)
      by (auto simp: ensures_def)
    from IH [OF this] show ?thesis
      using b Ok unfolding mark_phase_def eq [symmetric] by (simp add: for_each_append)
  qed (use b in \<open>simp_all add: mark_phase_def eq [symmetric] for_each_append\<close>)
qed

definition live :: "heap \<Rightarrow> iptr set \<Rightarrow> iptr set" where
  "live h X = {q. \<exists>r \<in> roots h X. (r, q) \<in> needs h}"

lemma live_inputs: "p \<in> live h X \<Longrightarrow> inputs_of h p \<subseteq> live h X"
  unfolding live_def needs_def by (blast intro: rtrancl_into_rtrancl)

lemma mark_phase_live:
  assumes "inputs_ok h0" and "listed (set rpo) L h0" and "alive mark h0 {} h"
    and "\<And>b. b \<in> set rpo \<Longrightarrow> set (block_instrs L b) \<subseteq> {..<h_new_i h0}"
  obtains h' where "mark_phase mark rpo h = Ok h'" and "alive mark h0 (live h0 (\<Union>b \<in> set rpo. set (block_instrs L b))) h'"
proof -
  let ?xs = "concat (map (block_instrs L) rpo)"
  have e: "erase_imarks h = erase_imarks h0" using assms(3) by (simp add: alive_def)
  have "set ?xs \<subseteq> {..<h_new_i h0}" using assms(4) by auto
  from mark_list [OF assms(1,3) this] obtain h' M' where h': "for_each (mark_body mark) ?xs h = Ok h'" "alive mark h0 M' h'"
    "grows h0 (roots h0 (set ?xs)) {} M'" "roots h0 (set ?xs) \<subseteq> M'" by blast
  have "q \<in> M'" if "(r, q) \<in> needs h0" "r \<in> M'" for r q
    using that unfolding needs_def
    by (induction rule: rtrancl_induct) (use h'(3) in \<open>auto simp: grows_def closed_above_def\<close>)
  then have "M' = live h0 (set ?xs)"
    using h'(3,4) by (auto simp: live_def grows_def)
  then show thesis
    using that h'(1,2) mark_phase_lists [OF assms(2) e] by simp
qed

lemma iter_with_pure:
  assumes "dll h p xs None" and "\<And>c s. c \<in> set xs \<Longrightarrow> body c (s, h) = Ok (f c s, h)"
  shows "iter_with (hd_or xs None) body (s, h) = Ok (fold f xs s, h)"
  using assms
proof (induction xs arbitrary: p s)
  case Nil
  then show ?case by (simp add: iter_with_def)
next
  case (Cons x xs)
  have "iter_with (hd_or xs None) body (f x s, h) = Ok (fold f xs (f x s), h)"
    by (rule Cons.IH) (use Cons.prems in auto)
  moreover have "i_next (h_i h x) = hd_or xs None" using Cons.prems(1) by simp
  ultimately show ?case
    using Cons.prems(2) [of x] by (simp add: iter_with_def while_do_unfold [of _ _ "(Some x, s, h)"])
qed

definition dead_of :: "iptr set \<Rightarrow> iptr list \<Rightarrow> iptr list" where
  "dead_of M xs = filter (\<lambda>x. x \<notin> M) xs"

lemma collect_fold: "fold (\<lambda>x ds. if x \<notin> M then ds @ [x] else ds) xs ds = ds @ dead_of M xs"
  by (induction xs arbitrary: ds) (simp_all add: dead_of_def)

lemma block_list_imarks:
  assumes "block_list b phis insts h0" and "erase_imarks h = erase_imarks h0"
  shows "block_list b phis insts h"
proof -
  have "dll h p xs n = dll h0 p xs n" for p xs n
    by (induction xs arbitrary: p) (simp_all add: erase_imarksD(6,7) [OF assms(2)])
  then show ?thesis
    using assms(1) by (simp add: block_list_def erase_imarksD(1,8,9) [OF assms(2)])
qed

lemma collect_phase_dead:
  assumes "listed (set rpo) L h" and "\<And>p. instr_marked mark p h = Ok (p \<in> M)"
  shows "collect_phase mark rpo h = Ok (dead_of M (concat (map (block_instrs L) rpo)), h)"
proof -
  let ?step = "\<lambda>bblock (deadInstrs, h).
       iter_with (block_begin bblock h)
         (\<lambda>instr (deadInstrs, h). rbind (instr_marked mark instr h) (\<lambda>alive.
            Ok (if \<not> alive then deadInstrs @ [instr] else deadInstrs, h))) (deadInstrs, h)"
  have block: "?step b (ds, h) = Ok (ds @ dead_of M (block_instrs L b), h)" if "b \<in> set rpo" for b ds
  proof -
    have l: "block_list b (fst (L b)) (snd (L b)) h" using assms(1) that by (simp add: listed_def)
    then have "dll h None (block_instrs L b) None" by (simp add: block_list_def block_instrs_def)
    from iter_with_pure [OF this, of _ "\<lambda>x ds. if x \<notin> M then ds @ [x] else ds" ds] show ?thesis
      using assms(2) by (simp add: block_begin_list [OF l] block_instrs_def collect_fold dead_of_def)
  qed
  have "for_each ?step bs (ds, h) = Ok (ds @ dead_of M (concat (map (block_instrs L) bs)), h)" if "set bs \<subseteq> set rpo" for bs ds
    using that
  proof (induction bs arbitrary: ds)
    case (Cons b bs)
    then show ?case using block [of b ds] by (simp add: dead_of_def)
  qed (simp add: dead_of_def)
  from this [of rpo "[]"] show ?thesis by (simp add: collect_phase_def)
qed

text \<open>Removing instructions from their lists.\<close>

definition without :: "iptr set \<Rightarrow> (bptr \<Rightarrow> iptr list \<times> iptr list) \<Rightarrow> bptr \<Rightarrow> iptr list \<times> iptr list" where
  "without D L b = (filter (\<lambda>x. x \<notin> D) (fst (L b)), filter (\<lambda>x. x \<notin> D) (snd (L b)))"

lemma block_instrs_without: "block_instrs (without D L) b = filter (\<lambda>x. x \<notin> D) (block_instrs L b)"
  by (simp add: block_instrs_def without_def)

lemma removeDead_lists:
  assumes "listed B L h" and "distinct ds" and "\<And>d. d \<in> set ds \<Longrightarrow> \<exists>b \<in> B. d \<in> set (block_instrs L b)"
  shows "\<exists>h'. removeDead ds h = Ok h' \<and> listed B (without (set ds) L) h' \<and> erase_lists h' = erase_lists h"
  using assms
proof (induction ds arbitrary: L h)
  case Nil
  then show ?case by (simp add: removeDead_def without_def listed_def)
next
  case (Cons d ds)
  obtain b where b: "b \<in> B" "d \<in> set (block_instrs L b)" using Cons.prems(3) by auto
  have l: "block_list b (fst (L b)) (snd (L b)) h" using Cons.prems(1) b(1) by (simp add: listed_def)
  then have par: "i_parent (h_i h d) = Some b" using b(2) by (simp add: block_list_def block_instrs_def)
  obtain h1 where h1: "UnlinkInstruction d b h = Ok h1" "block_list b (remove1 d (fst (L b))) (remove1 d (snd (L b))) h1"
    "erase_lists h1 = erase_lists h" "local_to b h h1"
    using UnlinkInstruction_list_op [OF l] b(2) by (auto simp: list_op_def block_instrs_def)
  have dist: "distinct (fst (L b))" "distinct (snd (L b))" using l by (simp_all add: block_list_def)
  have "block_list c (fst (without {d} L c)) (snd (without {d} L c)) h1" if "c \<in> B" for c
  proof (cases "c = b")
    case True
    then show ?thesis
      using h1(2) dist by (simp add: without_def distinct_remove1_removeAll removeAll_filter_not_eq)
        (metis (mono_tags, lifting) filter_cong)
  next
    case False
    have c: "block_list c (fst (L c)) (snd (L c)) h" using Cons.prems(1) that by (simp add: listed_def)
    then have "i_parent (h_i h d) = Some c \<longleftrightarrow> d \<in> set (block_instrs L c)"
      unfolding block_list_def block_instrs_def by blast
    then have "d \<notin> set (block_instrs L c)" using par False by simp
    then have "without {d} L c = L c"
      by (auto simp: without_def block_instrs_def prod_eq_iff filter_id_conv)
    then show ?thesis using local_to_block_list [OF h1(4) False c] by simp
  qed
  then have "listed B (without {d} L) h1" by (simp add: listed_def)
  moreover have "\<exists>c \<in> B. x \<in> set (block_instrs (without {d} L) c)" if "x \<in> set ds" for x
    using Cons.prems(2,3) that by (fastforce simp: block_instrs_without)
  ultimately obtain h2 where h2: "removeDead ds h1 = Ok h2" "listed B (without (set ds) (without {d} L)) h2" "erase_lists h2 = erase_lists h1"
    using Cons.IH Cons.prems(2) by (metis distinct.simps(2))
  have "without (set ds) (without {d} L) = without (set (d # ds)) L"
    by (auto simp: without_def fun_eq_iff intro!: filter_cong)
  then show ?case
    using h1(1,3) h2 par by (simp add: removeDead_def)
qed

section \<open>The pass as a whole\<close>

text \<open>What the reverse post-order analysis gives to the pass.\<close>

definition rpo_ready :: "gptr \<Rightarrow> bptr \<Rightarrow> Marker set \<Rightarrow> heap \<Rightarrow> bool" where
  "rpo_ready graph first L h \<longleftrightarrow>
     cfg_ok h \<and> edges_allocated h \<and> first < h_new_b h \<and> marks_ok graph L h \<and>
     g_firstBlock (h_g h graph) = Some first \<and> GetBasicBlocksCount (h_g h graph) > 0 \<and>
     (if IsAnalysisValid RPO (g_valid (h_g h graph))
      then distinct (g_rpoBlocks (h_g h graph)) \<and> set (g_rpoBlocks (h_g h graph)) = reachable_blocks first h
      else card (reachable_blocks first h) = GetBasicBlocksCount (h_g h graph))"

lemma h_new_upd_g [simp]: "h_new_i (upd_g g f h) = h_new_i h" "h_new_b (upd_g g f h) = h_new_b h"
  by (simp_all add: upd_g_def)

lemma run_RPO_correct:
  assumes "rpo_ready graph first L h"
    and "IsAnalysisValid RPO (g_valid (h_g h graph)) \<or> new_marker graph h \<noteq> Err AssertionFail"
  obtains h' rpo where "run_RPO graph h = Ok (True, h')" and "GetRPO (h_g h' graph) = Ok rpo"
    and "distinct rpo" and "set rpo = reachable_blocks first h" and "h_i h' = h_i h" and "h_new_i h' = h_new_i h"
    and "\<And>b. (h_b h' b)\<lparr>b_markers := []\<rparr> = (h_b h b)\<lparr>b_markers := []\<rparr>"
proof (cases "IsAnalysisValid RPO (g_valid (h_g h graph))")
  case True
  then show thesis
    using that [of h "g_rpoBlocks (h_g h graph)"] assms(1)
    by (simp add: rpo_ready_def run_RPO_def PassManager_Run_def GetRPO_def)
next
  case False
  note R = assms(1) [unfolded rpo_ready_def] and f = False
  have nm: "new_marker graph h \<noteq> Err AssertionFail" using assms(2) False by simp
  obtain l h1 where l: "post_order first h l" "erase_marks h1 = erase_marks h"
    "DoRPO graph h = (if card (reachable_blocks first h) = GetBasicBlocksCount (h_g h graph) then Ok (rev l, h1) else Err AssertionFail)"
    using DoRPO_correct [of h first graph L] R nm by metis
  let ?h = "upd_g graph (\<lambda>g. g\<lparr>g_valid := SetAnalysisValid RPO True (g_valid g)\<rparr>) (upd_g graph (SetRPO (rev l)) h1)"
  have run: "run_RPO graph h = Ok (True, ?h)"
    using l(3) R False by (simp add: run_RPO_def PassManager_Run_def RPO_Run_def)
  have "(h_b h1 b)\<lparr>b_markers := []\<rparr> = (h_b h b)\<lparr>b_markers := []\<rparr>" for b
    using arg_cong [OF l(2), of "\<lambda>h. h_b h b"] by (simp add: erase_marks_def)
  moreover have "h_new_i h1 = h_new_i h" using arg_cong [OF l(2), of h_new_i] by (simp add: erase_marks_def)
  moreover have "GetRPO (h_g ?h graph) = Ok (rev l)"
    by (simp add: GetRPO_def IsAnalysisValid_def SetAnalysisValid_def SetRPO_def h_g_upd_g)
  ultimately show thesis
    using that [OF run, of "rev l"] l(1) erase_marksD(3) [OF l(2)] by (simp add: post_order_def)
qed

lemma block_list_markers:
  assumes "block_list b phis insts h" and "h_i h' = h_i h" and "(h_b h' b)\<lparr>b_markers := []\<rparr> = (h_b h b)\<lparr>b_markers := []\<rparr>"
  shows "block_list b phis insts h'"
proof -
  have "dll h' p xs n = dll h p xs n" for p xs n
    by (induction xs arbitrary: p) (simp_all add: assms(2))
  moreover have "b_firstPhi (h_b h' b) = b_firstPhi (h_b h b)" "b_lastPhi (h_b h' b) = b_lastPhi (h_b h b)"
    "b_firstInst (h_b h' b) = b_firstInst (h_b h b)" "b_lastInst (h_b h' b) = b_lastInst (h_b h b)"
    "b_instrsCount (h_b h' b) = b_instrsCount (h_b h b)"
    using arg_cong [OF assms(3), of b_firstPhi] arg_cong [OF assms(3), of b_lastPhi] arg_cong [OF assms(3), of b_firstInst]
      arg_cong [OF assms(3), of b_lastInst] arg_cong [OF assms(3), of b_instrsCount] by simp_all
  ultimately show ?thesis
    using assms(1,2) by (simp add: block_list_def)
qed

text \<open>
  The input of the pass: the lists \<open>L\<close> of the reachable blocks, allocated inputs, and instructions
  that carry no serial number the marker manager has not reached.
\<close>

definition dce_ready :: "gptr \<Rightarrow> bptr \<Rightarrow> (bptr \<Rightarrow> iptr list \<times> iptr list) \<Rightarrow> heap \<Rightarrow> bool" where
  "dce_ready graph first L h \<longleftrightarrow>
     listed (reachable_blocks first h) L h \<and> inputs_ok h \<and>
     (\<forall>b \<in> reachable_blocks first h. set (block_instrs L b) \<subseteq> {..<h_new_i h}) \<and>
     (\<forall>p. markers_ok (currentIndex (g_markers (h_g h graph))) (i_markers (h_i h p)))"

definition instrs_in :: "bptr set \<Rightarrow> (bptr \<Rightarrow> iptr list \<times> iptr list) \<Rightarrow> iptr set" where
  "instrs_in B L = (\<Union>b \<in> B. set (block_instrs L b))"

lemma DCE_Run_correct:
  assumes "rpo_ready graph first Lm h" and "dce_ready graph first L h"
    and "new_marker graph h = Ok (mark, h1)"
    and "IsAnalysisValid RPO (g_valid (h_g h graph)) \<or> new_marker graph h1 \<noteq> Err AssertionFail"
    and "X = instrs_in (reachable_blocks first h) L"
  shows "\<exists>h'. DCE_Run graph h = Ok (\<not> X \<subseteq> live h X, h') \<and>
    listed (reachable_blocks first h) (without (X - live h X) L) h' \<and>
    (\<forall>p. i_inputs (h_i h' p) = i_inputs (h_i h p))"
proof -
  note D = assms(2) [unfolded dce_ready_def]
  have R: "rpo_ready graph first (insert mark Lm) h1"
    and h1: "h_i h1 = h_i h" "h_new_i h1 = h_new_i h" "reachable_blocks first h1 = reachable_blocks first h"
      "\<And>b. h_b h1 b = h_b h b" "g_valid (h_g h1 graph) = g_valid (h_g h graph)"
  proof -
    obtain m where m: "GetNewMarker (g_markers (h_g h graph)) = Ok (mark, m)" and e: "h1 = upd_g graph (\<lambda>x. x\<lparr>g_markers := m\<rparr>) h"
      using assms(3) by (auto simp: new_marker_def res_simps)
    show s: "h_i h1 = h_i h" "h_new_i h1 = h_new_i h" "reachable_blocks first h1 = reachable_blocks first h"
      "\<And>b. h_b h1 b = h_b h b" "g_valid (h_g h1 graph) = g_valid (h_g h graph)"
      by (simp_all add: e reachable_blocks_def edges_def succs_of_def h_g_upd_g)
    have "marks_ok graph (insert mark Lm) h1"
      using new_marker_ok(1) [OF _ assms(3)] assms(1) by (simp add: rpo_ready_def)
    moreover have "cfg_ok h1 = cfg_ok h" by (simp add: e cfg_ok_def succs_of_def preds_of_def)
    ultimately show "rpo_ready graph first (insert mark Lm) h1"
      using assms(1) s(3) by (simp add: rpo_ready_def e h_g_upd_g edges_allocated_def edges_def succs_of_def GetBasicBlocksCount_def)
  qed
  have fresh: "IsMarkerSet mark (i_markers (h_i h p)) = Ok False" for p
  proof -
    obtain m where m: "GetNewMarker (g_markers (h_g h graph)) = Ok (mark, m)"
      using assms(3) by (auto simp: new_marker_def res_simps)
    have "manager_ok (g_markers (h_g h graph)) Lm" using assms(1) by (simp add: rpo_ready_def marks_ok_def)
    from GetNewMarker_fresh(3) [OF this m] D show ?thesis by blast
  qed
  obtain h2 rpo where h2: "run_RPO graph h1 = Ok (True, h2)" "GetRPO (h_g h2 graph) = Ok rpo" "distinct rpo"
    "set rpo = reachable_blocks first h" "h_i h2 = h_i h" "h_new_i h2 = h_new_i h"
    "\<And>b. (h_b h2 b)\<lparr>b_markers := []\<rparr> = (h_b h b)\<lparr>b_markers := []\<rparr>"
    using run_RPO_correct [OF R] assms(4) h1 by metis
  have X: "(\<Union>b \<in> set rpo. set (block_instrs L b)) = X" by (simp add: assms(5) instrs_in_def h2(4))
  have same: "inputs_of h2 = inputs_of h" by (simp add: inputs_of_def h2(5) fun_eq_iff)
  have live: "live h2 X = live h X" by (simp add: live_def roots_def needs_def same h2(5))
  have l2: "listed (set rpo) L h2"
    using D h2(4) block_list_markers [OF _ h2(5,7)] by (simp add: listed_def)
  have "alive mark h2 {} h2" using fresh by (simp add: alive_def instr_marked_def h2(5))
  moreover have "inputs_ok h2" using D by (simp add: inputs_ok_def h2(5,6))
  moreover have "set (block_instrs L b) \<subseteq> {..<h_new_i h2}" if "b \<in> set rpo" for b
    using D that by (simp add: h2(4,6))
  ultimately obtain h3 where h3: "mark_phase mark rpo h2 = Ok h3" "alive mark h2 (live h X) h3"
    using mark_phase_live [OF _ l2, of mark h2] X live by metis
  have e3: "erase_imarks h3 = erase_imarks h2" using h3(2) by (simp add: alive_def)
  have l3: "listed (set rpo) L h3" using l2 block_list_imarks [OF _ e3] by (simp add: listed_def)
  let ?dead = "dead_of (live h X) (concat (map (block_instrs L) rpo))"
  have c: "collect_phase mark rpo h3 = Ok (?dead, h3)"
    using collect_phase_dead [OF l3] h3(2) by (simp add: alive_def)
  have set_dead: "set ?dead = X - live h X" using X by (auto simp: dead_of_def)
  have "distinct (concat (map (block_instrs L) bs))" if "set bs \<subseteq> set rpo" "distinct bs" for bs
    using that
  proof (induction bs)
    case (Cons b bs)
    have own: "i_parent (h_i h3 x) = Some c \<longleftrightarrow> x \<in> set (block_instrs L c)" "distinct (block_instrs L c)" if "c \<in> set rpo" for c x
      using l3 that unfolding listed_def block_list_def block_instrs_def by blast+
    have "set (block_instrs L b) \<inter> set (block_instrs L c) = {}" if "c \<in> set bs" for c
    proof -
      have "c \<in> set rpo" "b \<in> set rpo" "c \<noteq> b" using Cons.prems that by auto
      then show ?thesis using own(1) by (metis (no_types, lifting) disjoint_iff option.inject)
    qed
    with Cons own(2) [of b] show ?case by auto
  qed simp
  then have "distinct ?dead" using h2(3) by (simp add: dead_of_def)
  with removeDead_lists [OF l3 this] set_dead X obtain h4 where h4: "removeDead ?dead h3 = Ok h4"
    "listed (set rpo) (without (X - live h X) L) h4" "erase_lists h4 = erase_lists h3"
    by (metis (no_types, lifting) DiffD1 UN_E)
  have "i_inputs (h_i h4 p) = i_inputs (h_i h p)" for p
  proof -
    have "h_i (erase_lists h4) p = h_i (erase_lists h3) p" using h4(3) by simp
    then have "i_inputs (h_i h4 p) = i_inputs (h_i h3 p)"
      by (simp add: erase_lists_def erase_i_def) (metis Instr.ext_inject Instr.surjective Instr.update_convs(5,6,7))
    then show ?thesis using erase_imarksD(5) [OF e3, of p] by (simp add: h2(5))
  qed
  moreover have "?dead \<noteq> [] \<longleftrightarrow> \<not> X \<subseteq> live h X" using set_dead by (metis Diff_eq_empty_iff set_empty)
  then have "DCE_Run graph h = Ok (\<not> X \<subseteq> live h X, h4)"
    using assms(3) h2(1,2) h3(1) c h4(1) by (simp add: DCE_Run_def)
  ultimately show ?thesis using h4(2) h2(4) by auto
qed

end
