(* ===== verification/JIT_OptProperties.thy ===== *)
theory JIT_OptProperties
  imports JIT_DCE JIT_IRProperties
begin

text \<open>
  The properties of the optimisation passes other than the peephole pass.
\<close>

section \<open>Dead code elimination\<close>

text \<open>
  C28. Dead code elimination keeps, in every reachable block and in order, exactly the instructions
  that an instruction with side effects needs, directly or through other instructions; it reports
  whether it removed any, changes no input, and leaves no use of a removed instruction behind.
\<close>

theorem dce_correct:
  assumes "rpo_ready graph first Lm h" and "dce_ready graph first L h"
    and "new_marker graph h = Ok (mark, h1)"
    and "IsAnalysisValid RPO (g_valid (h_g h graph)) \<or> new_marker graph h1 \<noteq> Err AssertionFail"
    and "X = instrs_in (reachable_blocks first h) L"
  shows "\<exists>h'. DCE_Run graph h = Ok (\<not> X \<subseteq> live h X, h') \<and>
    (\<forall>b \<in> reachable_blocks first h.
       block_list b (filter (\<lambda>p. p \<in> live h X) (fst (L b))) (filter (\<lambda>p. p \<in> live h X) (snd (L b))) h') \<and>
    (\<forall>p. i_inputs (h_i h' p) = i_inputs (h_i h p)) \<and>
    (\<forall>p \<in> live h X. inputs_of h p \<subseteq> live h X)"
proof -
  obtain h' where h': "DCE_Run graph h = Ok (\<not> X \<subseteq> live h X, h')"
    "listed (reachable_blocks first h) (without (X - live h X) L) h'" "\<forall>p. i_inputs (h_i h' p) = i_inputs (h_i h p)"
    using DCE_Run_correct [OF assms] by blast
  have "block_list b (filter (\<lambda>p. p \<in> live h X) (fst (L b))) (filter (\<lambda>p. p \<in> live h X) (snd (L b))) h'"
    if "b \<in> reachable_blocks first h" for b
  proof -
    have "set (fst (L b)) \<subseteq> X" "set (snd (L b)) \<subseteq> X"
      using that by (auto simp: assms(5) instrs_in_def block_instrs_def)
    then have "without (X - live h X) L b = (filter (\<lambda>p. p \<in> live h X) (fst (L b)), filter (\<lambda>p. p \<in> live h X) (snd (L b)))"
      by (auto simp: without_def intro!: filter_cong)
    with h'(2) that show ?thesis unfolding listed_def by (metis fst_conv snd_conv)
  qed
  then show ?thesis using h'(1,3) live_inputs by blast
qed

text \<open>A block with a constant nobody uses and a return.\<close>

definition sample_dce :: heap where
  "sample_dce = sample_graph
     \<lparr>h_i := (h_i sample_graph)
        (1 := (h_i sample_graph 1)\<lparr>i_parent := Some 0, i_next := Some 2\<rparr>,
         2 := (InstructionBase_init RetVoidInstruction Op_RETVOID T_VOID (underlying_logic_or [CF, SIDE_EFFECTS]))
              \<lparr>i_parent := Some 0, i_prev := Some 1\<rparr>),
      h_b := (h_b sample_graph)(0 := (h_b sample_graph 0)\<lparr>b_firstInst := Some 1, b_lastInst := Some 2, b_instrsCount := 2\<rparr>)\<rparr>"

theorem dce_correct_witness: "\<exists>h'. DCE_Run 0 sample_dce = Ok (True, h') \<and> block_list 0 [] [2] h'"
proof -
  let ?L = "\<lambda>_ :: bptr. ([], [1, 2] :: iptr list)"
  have s: "succs_of sample_dce b = []" "preds_of sample_dce b = []" "h_new_i sample_dce = 8" for b
    by (simp_all add: sample_dce_def sample_graph_def succs_of_def preds_of_def SetFirstBasicBlock_def AddBasicBlock_def Let_def
        invalidateAfterChangedCFG_def upd_g_def BasicBlock_init_def) (simp add: upd_b_def)
  then have c: "cfg_ok sample_dce" "edges sample_dce = {}" by (simp_all add: cfg_ok_def edges_def)
  have f: "g_firstBlock (h_g sample_dce 0) = Some 0" "h_new_b sample_dce = 4" "GetBasicBlocksCount (h_g sample_dce 0) = 1"
    "g_markers (h_g sample_dce 0) = MarkerManager_init" "b_markers (h_b sample_dce b) = Markable_init"
    "i_markers (h_i sample_dce p) = Markable_init" for b p
    by (simp_all add: sample_dce_def sample_graph_def SetFirstBasicBlock_def AddBasicBlock_def Let_def invalidateAfterChangedCFG_def
        GetBasicBlocksCount_def Graph_init_def BasicBlock_init_def InstructionBase_init_def)
      (simp_all add: upd_b_def upd_g_def)
  have m: "marks_ok 0 {} sample_dce" by (simp add: marks_ok_def f manager_init_ok Markable_init_ok)
  have reach: "reachable_blocks 0 sample_dce = {0}" by (auto simp: reachable_blocks_def c)
  have valid: "\<not> IsAnalysisValid RPO (g_valid (h_g sample_dce 0))"
    by (simp add: sample_dce_def sample_graph_def SetFirstBasicBlock_def AddBasicBlock_def Let_def invalidateAfterChangedCFG_def
        IsAnalysisValid_def SetAnalysisValid_def Graph_init_def)
  have R: "rpo_ready 0 0 {} sample_dce"
    using c m f reach s valid by (simp add: rpo_ready_def edges_allocated_def)
  have i: "h_i sample_dce 2 = (InstructionBase_init RetVoidInstruction Op_RETVOID T_VOID (underlying_logic_or [CF, SIDE_EFFECTS]))
      \<lparr>i_parent := Some 0, i_prev := Some 1\<rparr>"
    "h_i sample_dce 1 = (InstructionBase_init ConstantInstruction Op_CONST T_I32 0)\<lparr>i_parent := Some 0, i_next := Some 2\<rparr>"
    "p \<noteq> 1 \<Longrightarrow> p \<noteq> 2 \<Longrightarrow> h_i sample_dce p = InstructionBase_init ConstantInstruction Op_CONST T_I32 0" for p
    by (simp_all add: sample_dce_def sample_graph_def SetFirstBasicBlock_def AddBasicBlock_def Let_def invalidateAfterChangedCFG_def)
  have b: "b_firstInst (h_b sample_dce 0) = Some 1" "b_lastInst (h_b sample_dce 0) = Some 2" "b_instrsCount (h_b sample_dce 0) = 2"
    "b_firstPhi (h_b sample_dce 0) = None" "b_lastPhi (h_b sample_dce 0) = None"
    by (simp_all add: sample_dce_def sample_graph_def SetFirstBasicBlock_def AddBasicBlock_def Let_def invalidateAfterChangedCFG_def
        BasicBlock_init_def)
  have "i_parent (h_i sample_dce x) = Some 0 \<longleftrightarrow> x \<in> {1, 2}" for x
    using i by (cases "x = 1"; cases "x = 2") (simp_all add: InstructionBase_init_def)
  then have l: "block_list 0 [] [1, 2] sample_dce"
    by (simp del: One_nat_def add: block_list_def i b InstructionBase_init_def IsPhi_def)
  have inputs: "\<not> HasInputs (h_i sample_dce p)" for p
    using i by (cases "p = 1"; cases "p = 2")
      (simp_all add: HasInputs_def SatisfiesProperty_def InstructionBase_init_def)
  have D: "dce_ready 0 0 ?L sample_dce"
    using l inputs by (simp add: dce_ready_def listed_def reach inputs_ok_def block_instrs_def s f Markable_init_ok)
  have effects: "HasSideEffects (h_i sample_dce 2)" "\<not> HasSideEffects (h_i sample_dce 1)"
    by (simp_all del: One_nat_def add: i HasSideEffects_def SatisfiesProperty_def InstructionBase_init_def)
  have live: "live sample_dce {1, 2} = {2}"
    using inputs effects by (auto simp: live_def roots_def needs_def inputs_of_def)
  obtain mark h1 where n: "new_marker 0 sample_dce = Ok (mark, h1)"
    using first_marker by (auto simp: new_marker_def f res_simps)
  have X: "{1, 2} = instrs_in (reachable_blocks 0 sample_dce) ?L"
    by (simp add: reach instrs_in_def block_instrs_def)
  have "new_marker 0 h1 \<noteq> Err AssertionFail"
  proof -
    obtain k where k: "GetNewMarker MarkerManager_init = Ok (mark, k)" "h1 = upd_g 0 (\<lambda>x. x\<lparr>g_markers := k\<rparr>) sample_dce"
      using n by (auto simp: new_marker_def f res_simps)
    have ok: "manager_ok k {mark}" using GetNewMarker_fresh(1) [OF manager_init_ok k(1)] by simp
    have "card (marker_slot ` {mark}) = 1" by simp
    then have "marker_slot ` {mark} \<noteq> {..<4}" by (metis card_lessThan numeral_eq_one_iff semiring_norm(83))
    moreover have "currentIndex k = 1"
      using k(1) by (auto simp: GetNewMarker_def MarkerManager_init_def Let_def res_simps ASSERT_def split: if_splits option.splits)
    ultimately show ?thesis using GetNewMarker_Err_iff [OF ok]
      by (simp add: k(2) new_marker_def res_simps h_g_upd_g MC_MAX_VALUE_def MC_BIT_LENGTH_def)
  qed
  with dce_correct [OF R D n _ X] live reach show ?thesis by auto
qed

end
