(* ===== verification/JIT_LoopAnalyzer.thy ===== *)
theory JIT_LoopAnalyzer
  imports JIT_DomTree JIT_Traverse
begin

text \<open>
  The loop analyzer: \<open>analysis/LoopAnalyzer.h\<close>, \<open>analysis/LoopAnalyzer.cpp\<close>.  A depth-first search
  finds the back edges, a backward search from their sources collects the blocks of a reducible
  loop, and the loops without an outer loop go below a root loop.  Both searches mark the blocks
  they enter, so the number of allocated blocks bounds the nesting of their calls; running out of
  \<open>depth\<close> is \<open>UB\<close>.
\<close>

section \<open>The analyzer\<close>

record LoopAnalyzer =
  greyMarker :: Marker
  blackMarker :: Marker
  blockId :: nat
  dfsBlocks :: "bptr option list"
  loops :: "lptr list"

definition LoopAnalyzer_init :: LoopAnalyzer where
  "LoopAnalyzer_init = \<lparr>greyMarker = 0, blackMarker = 0, blockId = 0, dfsBlocks = [], loops = []\<rparr>"

type_synonym loop_state = "LoopAnalyzer \<times> heap"
type_synonym loop_step = "loop_state \<Rightarrow> (abort, loop_state) res"

text \<open>\<open>graph->New<Loop>(...)\<close>\<close>

definition new_loop :: "LoopObj \<Rightarrow> heap \<Rightarrow> lptr \<times> heap" where
  "new_loop l h = (let p = h_new_l h in (p, upd_l p (\<lambda>_. l) (h\<lparr>h_new_l := Suc p\<rparr>)))"

definition on_loop :: "lptr \<Rightarrow> (LoopObj \<Rightarrow> (abort, LoopObj) res) \<Rightarrow> heap_step" where
  "on_loop p f h = rbind (f (h_l h p)) (\<lambda>l. Ok (upd_l p (\<lambda>_. l) h))"

definition loop_resetStructs :: "gptr \<Rightarrow> loop_step" where
  "loop_resetStructs graph =
     (\<lambda>(a, h).
       let n = GetBasicBlocksCount (h_g h graph);
           a = a\<lparr>blockId := 0, dfsBlocks := resize n None (dfsBlocks a), loops := []\<rparr> in
       rbind (new_marker graph h) (\<lambda>(grey, h).
       rbind (new_marker graph h) (\<lambda>(black, h).
       Ok (a\<lparr>greyMarker := grey, blackMarker := black\<rparr>, h))))"

definition isLoopIrreducible :: "bptr \<Rightarrow> bptr \<Rightarrow> heap \<Rightarrow> (abort, bool) res" where
  "isLoopIrreducible header backEdgeSource h = rbind (Dominates header backEdgeSource h) (\<lambda>d. Ok (\<not> d))"

definition addLoopInfo :: "bptr \<Rightarrow> bptr \<Rightarrow> loop_step" where
  "addLoopInfo header backEdgeSource =
     (\<lambda>(a, h).
       case b_loop (h_b h header) of
         None \<Rightarrow>
           rbind (isLoopIrreducible header backEdgeSource h) (\<lambda>irreducible.
           let (loop, h) = new_loop (Loop_init (length (loops a)) (Some header) irreducible False) h in
           rbind (Loop_AddBasicBlock header loop h) (\<lambda>h.
           rbind (on_loop loop (AddBackEdge backEdgeSource) h) (\<lambda>h.
           Ok (a\<lparr>loops := loops a @ [loop]\<rparr>, upd_b header (\<lambda>b. b\<lparr>b_loop := Some loop\<rparr>) h))))
       | Some loop \<Rightarrow>
           rbind (on_loop loop (AddBackEdge backEdgeSource) h) (\<lambda>h.
           rbind (isLoopIrreducible header backEdgeSource h) (\<lambda>irreducible.
           Ok (a, if irreducible then upd_l loop (\<lambda>l. l\<lparr>l_isIrreducible := True\<rparr>) h else h))))"

fun dfsBackEdgesSearch :: "nat \<Rightarrow> bptr \<Rightarrow> loop_step" where
  "dfsBackEdgesSearch 0 bblock st = UB"
| "dfsBackEdgesSearch (Suc depth) bblock (a, h) =
     rbind (mark_block (greyMarker a) bblock h) (\<lambda>(_, h).
     rbind
       (for_each (\<lambda>succ (a, h).
          rbind (block_marked (greyMarker a) succ h) (\<lambda>grey.
          if grey then addLoopInfo succ bblock (a, h)
          else rbind (block_marked (blackMarker a) succ h) (\<lambda>black.
            if \<not> black then dfsBackEdgesSearch depth succ (a, h) else Ok (a, h))))
          (b_succs (h_b h bblock)) (a, h)) (\<lambda>(a, h).
     rbind (clear_block (greyMarker a) bblock h) (\<lambda>h.
     rbind (mark_block (blackMarker a) bblock h) (\<lambda>(_, h).
     if blockId a < length (dfsBlocks a)
     then Ok (a\<lparr>dfsBlocks := (dfsBlocks a)[blockId a := Some bblock], blockId := Suc (blockId a)\<rparr>, h)
     else UB))))"

definition collectBackEdges :: "gptr \<Rightarrow> loop_step" where
  "collectBackEdges graph =
     (\<lambda>(a, h).
       case g_firstBlock (h_g h graph) of
         None \<Rightarrow> Err AssertionFail
       | Some b \<Rightarrow>
           rbind (dfsBackEdgesSearch (h_new_b h) b (a, h)) (\<lambda>(a, h).
           ASSERT (blockId a = GetBasicBlocksCount (h_g h graph)) (Ok (a, h))))"

section \<open>Blocks of the loops\<close>

text \<open>A nested call returns at once on a marked block, so one call more than there are blocks is needed.\<close>

fun dfsPopulateLoops :: "nat \<Rightarrow> Marker \<Rightarrow> lptr \<Rightarrow> bptr \<Rightarrow> heap_step" where
  "dfsPopulateLoops 0 black loop bblock h = UB"
| "dfsPopulateLoops (Suc depth) black loop bblock h =
     rbind (block_marked black bblock h) (\<lambda>marked.
     if marked then Ok h
     else
       rbind (mark_block black bblock h) (\<lambda>(_, h).
       rbind
         (case b_loop (h_b h bblock) of
            None \<Rightarrow> Loop_AddBasicBlock bblock loop h
          | Some blockLoop \<Rightarrow>
              if l_id (h_l h blockLoop) \<noteq> l_id (h_l h loop) \<and> l_outerLoop (h_l h blockLoop) = None
              then on_loop loop (AddInnerLoop blockLoop) (upd_l blockLoop (\<lambda>l. l\<lparr>l_outerLoop := Some loop\<rparr>) h)
              else Ok h) (\<lambda>h.
       for_each (dfsPopulateLoops depth black loop) (b_preds (h_b h bblock)) h)))"

definition populateReducibleLoop :: "gptr \<Rightarrow> lptr \<Rightarrow> loop_step" where
  "populateReducibleLoop graph loop =
     (\<lambda>(a, h).
       rbind (new_marker graph h) (\<lambda>(black, h).
       deref (l_header (h_l h loop)) (\<lambda>header.
         rbind (mark_block black header h) (\<lambda>(_, h).
         rbind (for_each (dfsPopulateLoops (Suc (h_new_b h)) black loop) (l_backEdges (h_l h loop)) h) (\<lambda>h.
         Ok (a\<lparr>blackMarker := black\<rparr>, release_marker black graph h))))))"

definition populate_block :: "gptr \<Rightarrow> bptr \<Rightarrow> loop_step" where
  "populate_block graph bblock =
     (\<lambda>(a, h).
       case b_loop (h_b h bblock) of
         None \<Rightarrow> Ok (a, h)
       | Some loop \<Rightarrow>
           if l_header (h_l h loop) \<noteq> Some bblock then Ok (a, h)
           else if l_isIrreducible (h_l h loop) then
             Ok (a, fold (\<lambda>backEdgeSource h.
                   if b_loop (h_b h backEdgeSource) = None
                   then upd_b backEdgeSource (\<lambda>b. b\<lparr>b_loop := Some loop\<rparr>) h else h)
                 (l_backEdges (h_l h loop)) h)
           else populateReducibleLoop graph loop (a, h))"

definition populateLoops :: "gptr \<Rightarrow> loop_step" where
  "populateLoops graph =
     (\<lambda>(a, h). for_each (\<lambda>bblock st. deref bblock (\<lambda>b. populate_block graph b st)) (dfsBlocks a) (a, h))"

definition buildLoopTree :: "gptr \<Rightarrow> loop_step" where
  "buildLoopTree graph =
     (\<lambda>(a, h).
       let (rootLoop, h) = new_loop (Loop_init (length (loops a)) None False True) h;
           a = a\<lparr>loops := loops a @ [rootLoop]\<rparr> in
       rbind
         (for_each (\<lambda>bblock h. deref bblock (\<lambda>b.
            case b_loop (h_b h b) of
              None \<Rightarrow> Loop_AddBasicBlock b rootLoop h
            | Some loop \<Rightarrow>
                if l_outerLoop (h_l h loop) = None
                then on_loop rootLoop (AddInnerLoop loop) (upd_l loop (\<lambda>l. l\<lparr>l_outerLoop := Some rootLoop\<rparr>) h)
                else Ok h)) (dfsBlocks a) h) (\<lambda>h.
       Ok (a, upd_g graph (\<lambda>g. g\<lparr>g_loopTreeRoot := Some rootLoop\<rparr>) h)))"

definition LoopAnalyzer_Run :: "gptr \<Rightarrow> heap \<Rightarrow> (abort, bool \<times> heap) res" where
  "LoopAnalyzer_Run graph h =
     (if GetBasicBlocksCount (h_g h graph) = 0 then Ok (True, h)
      else
        rbind (loop_resetStructs graph (LoopAnalyzer_init, h)) (\<lambda>(a, h).
        rbind (run_DomTree graph h) (\<lambda>(_, h).
        rbind (collectBackEdges graph (a, h)) (\<lambda>(a, h).
        let h = release_marker (blackMarker a) graph (release_marker (greyMarker a) graph h) in
        rbind (populateLoops graph (a, h)) (\<lambda>(a, h).
        rbind (buildLoopTree graph (a, h)) (\<lambda>(a, h).
        Ok (True, h)))))))"

definition run_LoopAnalyzer :: "gptr \<Rightarrow> heap \<Rightarrow> (abort, bool \<times> heap) res" where
  "run_LoopAnalyzer graph = PassManager_Run (Some LOOP_ANALYSIS) (LoopAnalyzer_Run graph) graph"

end
