(* ===== verification/JIT_GraphChecker.thy ===== *)
theory JIT_GraphChecker
  imports JIT_DomTree JIT_Traverse
begin

text \<open>
  The graph checker: \<open>analysis/GraphChecker.h\<close>, \<open>analysis/GraphChecker.cpp\<close>.  A check that fails
  stops the program; a check that passes returns \<open>Ok ()\<close>.
\<close>

section \<open>Instructions\<close>

definition VerifyPhiBasicBlocks :: "iptr \<Rightarrow> heap \<Rightarrow> (abort, unit) res" where
  "VerifyPhiBasicBlocks phi h =
     (case i_parent (h_i h phi) of
        None \<Rightarrow> Err AssertionFail
      | Some bblock \<Rightarrow>
          let preds = b_preds (h_b h bblock); sources = i_sources (h_i h phi) in
          ASSERT (length sources = GetInputsCount (h_i h phi))
            (ASSERT (length sources = length preds)
              (rbind
                (for_each (\<lambda>pred sourcesMask.
                    let it = index_of pred sources in
                    ASSERT (it \<noteq> length sources) (Ok (sourcesMask[it := True])))
                  preds (replicate (length sources) False)) (\<lambda>sourcesMask.
               ASSERT (\<forall>i \<in> set sourcesMask. i) (Ok ())))))"

definition verifyBlockStructure :: "bptr \<Rightarrow> iptr \<Rightarrow> heap \<Rightarrow> (abort, unit) res" where
  "verifyBlockStructure bblock instr h =
     (let b = h_b h bblock; i = h_i h instr in
      ASSERT
        (if b_firstPhi b \<noteq> None then Some instr \<noteq> b_firstPhi b \<longrightarrow> i_prev i \<noteq> None
         else Some instr \<noteq> b_firstInst b \<longrightarrow> i_prev i \<noteq> None)
        (if Some instr = b_lastInst b \<or> b_lastInst b = None \<and> Some instr = b_lastPhi b
         then ASSERT (i_next i = None) (Ok ())
         else ASSERT (i_next i \<noteq> None) (Ok ())))"

text \<open>The loop over the inputs stops at the first one that has the instruction as a user.\<close>

fun find_using_input :: "gptr option \<Rightarrow> iptr \<Rightarrow> iptr option list \<Rightarrow> heap \<Rightarrow> (abort, bool) res" where
  "find_using_input graph instr [] h = Ok False"
| "find_using_input graph instr (input # inputs) h =
     (case input of
        None \<Rightarrow> Err AssertionFail
      | Some p \<Rightarrow>
          case i_parent (h_i h p) of
            None \<Rightarrow> Err AssertionFail
          | Some b \<Rightarrow>
              ASSERT (b_graph (h_b h b) = graph)
                (if instr \<in> set (i_users (h_i h p)) then Ok True else find_using_input graph instr inputs h))"

definition verifyDFG :: "iptr \<Rightarrow> heap \<Rightarrow> (abort, unit) res" where
  "verifyDFG instr h =
     rbind
       (if HasInputs (h_i h instr) then
          deref (i_parent (h_i h instr)) (\<lambda>b.
            rbind (find_using_input (b_graph (h_b h b)) instr (i_inputs (h_i h instr)) h) (\<lambda>found.
            ASSERT found (Ok ())))
        else Ok ()) (\<lambda>_.
     for_each (\<lambda>user _.
         ASSERT (HasInputs (h_i h user)) (ASSERT (Some instr \<in> set (i_inputs (h_i h user))) (Ok ())))
       (i_users (h_i h instr)) ())"

section \<open>Blocks\<close>

definition verifyInstruction :: "bptr \<Rightarrow> bool \<Rightarrow> iptr \<Rightarrow> heap \<Rightarrow> (abort, unit) res" where
  "verifyInstruction bblock blockNotFirst instr h =
     ASSERT (blockNotFirst \<longrightarrow> \<not> IsConst (h_i h instr) \<and> i_opcode (h_i h instr) \<noteq> Op_ARG)
       (rbind (verifyBlockStructure bblock instr h) (\<lambda>_.
        rbind (if IsPhi (h_i h instr) then VerifyPhiBasicBlocks instr h else Ok ()) (\<lambda>_.
        verifyDFG instr h)))"

definition VerifyControlAndDataFlowGraphs :: "bptr \<Rightarrow> heap \<Rightarrow> (abort, unit) res" where
  "VerifyControlAndDataFlowGraphs bblock h =
     (let b = h_b h bblock;
          instr = (if b_firstPhi b \<noteq> None then b_firstPhi b else b_firstInst b) in
      if instr = None then
        ASSERT (b_lastPhi b = None) (ASSERT (b_lastInst b = None) (Ok ()))
      else
        rbind (IsFirstInGraph bblock h) (\<lambda>isFirst.
        rbind
          (while_do (\<lambda>(instr, counter). instr \<noteq> None)
            (\<lambda>(instr, counter). deref instr (\<lambda>i.
               rbind (verifyInstruction bblock (\<not> isFirst) i h) (\<lambda>_.
               Ok (i_next (h_i h i), Suc counter))))
            (instr, 0)) (\<lambda>(instr, counter).
        ASSERT (b_instrsCount b = counter) (Ok ()))))"

section \<open>Graphs\<close>

definition GraphChecker_Run :: "gptr \<Rightarrow> heap \<Rightarrow> (abort, bool \<times> heap) res" where
  "GraphChecker_Run graph h =
     rbind (for_each (\<lambda>b _. VerifyControlAndDataFlowGraphs b h) (non_null (g_bblocks (h_g h graph))) ()) (\<lambda>_.
     rbind (Traverse True (\<lambda>bblock st. Ok st) graph ((), h)) (\<lambda>(_, h).
     rbind (VerifyFirstBlock graph h) (\<lambda>ok. ASSERT ok (Ok (True, h)))))"

definition run_GraphChecker :: "gptr \<Rightarrow> heap \<Rightarrow> (abort, bool \<times> heap) res" where
  "run_GraphChecker graph = PassManager_Run None (GraphChecker_Run graph) graph"

definition sameBasicBlocks :: "bptr list \<Rightarrow> bptr list \<Rightarrow> heap \<Rightarrow> (abort, bool) res" where
  "sameBasicBlocks lhs rhs h =
     ASSERT (length lhs = length rhs)
       (ASSERT (sort_key (\<lambda>b. b_id (h_b h b)) lhs = sort_key (\<lambda>b. b_id (h_b h b)) rhs) (Ok True))"

definition VerifyDomTree :: "gptr \<Rightarrow> heap_step" where
  "VerifyDomTree graph h =
     (if \<not> IsAnalysisValid DOM_TREE (g_valid (h_g h graph)) then Ok h
      else
        rbind (DomTree_Build graph h) (\<lambda>(doms, h).
        ForEachBasicBlock graph (\<lambda>bblock h.
          if b_id (h_b h bblock) < length doms then
            (let info = doms ! b_id (h_b h bblock) in
             ASSERT (dominator info = b_dominator (h_b h bblock))
               (rbind (sameBasicBlocks (dominated info) (b_dominated (h_b h bblock)) h) (\<lambda>same.
                ASSERT same (Ok h))))
          else UB) h))"

end
