(* ===== verification/JIT_LinearOrdering.thy ===== *)
theory JIT_LinearOrdering
  imports JIT_LoopAnalyzer JIT_GraphChecker JIT_Builder
begin

text \<open>
  The linear order of the blocks: \<open>analysis/LinearOrdering.h\<close>, \<open>analysis/LinearOrdering.cpp\<close>.  A block
  follows its predecessors that are not its back edge sources; a conditional jump is inverted, or a
  block with a jump is inserted, so that the false branch comes next.  \<open>queueCond\<close> calls itself after
  an inversion; \<open>queueCond_call\<close> is one activation of it, and the value \<open>None\<close> of \<open>queueCond\<close> is a
  recursion that never ends, which \<open>orderBlocks\<close> turns into undefined behaviour.
\<close>

section \<open>The pass\<close>

record LinearOrdering =
  visitedMarker :: Marker
  cfgChanged :: bool
  remainedBlocks :: "bptr list"

definition isVisited :: "Marker \<Rightarrow> bptr \<Rightarrow> heap \<Rightarrow> (abort, bool) res" where
  "isVisited visited bblock h = block_marked visited bblock h"

text \<open>\<open>std::any_of\<close> with a predicate that may fail.\<close>

fun any_of :: "('x \<Rightarrow> (abort, bool) res) \<Rightarrow> 'x list \<Rightarrow> (abort, bool) res" where
  "any_of P [] = Ok False"
| "any_of P (x # xs) = rbind (P x) (\<lambda>b. if b then Ok True else any_of P xs)"

definition unvisitedForwardEdgesExist :: "Marker \<Rightarrow> bptr \<Rightarrow> heap \<Rightarrow> (abort, bool) res" where
  "unvisitedForwardEdgesExist visited bblock h =
     deref (b_loop (h_b h bblock)) (\<lambda>loop.
       if l_isIrreducible (h_l h loop) then Ok False
       else
         (let preds = b_preds (h_b h bblock) in
          if \<not> IsLoopHeader bblock h then
            any_of (\<lambda>pred. rbind (isVisited visited pred h) (\<lambda>v. Ok (\<not> v))) preds
          else
            any_of (\<lambda>pred. rbind (Dominates bblock pred h) (\<lambda>d.
              if d then Ok False else rbind (isVisited visited pred h) (\<lambda>v. Ok (\<not> v)))) preds))"

definition mustInverseCondition :: "Marker \<Rightarrow> bptr \<Rightarrow> heap \<Rightarrow> (abort, bool) res" where
  "mustInverseCondition visited bblock h =
     (case b_loop (h_b h bblock) of
        None \<Rightarrow> Err AssertionFail
      | Some loop \<Rightarrow>
          ASSERT (length (b_succs (h_b h bblock)) = 2)
            (let trueBranch = b_succs (h_b h bblock) ! 0; falseBranch = b_succs (h_b h bblock) ! 1 in
             rbind (isVisited visited trueBranch h) (\<lambda>tv.
             if tv then Ok False
             else
               rbind (isVisited visited falseBranch h) (\<lambda>fv.
               if fv then Ok True
               else if b_loop (h_b h falseBranch) \<noteq> Some loop \<and> b_loop (h_b h trueBranch) = Some loop then Ok True
               else
                 rbind (unvisitedForwardEdgesExist visited falseBranch h) (\<lambda>fe.
                 if \<not> fe then Ok False
                 else rbind (unvisitedForwardEdgesExist visited trueBranch h) (\<lambda>te. Ok (\<not> te)))))))"

text \<open>The position of the first queued block whose loop contains the block's loop.\<close>

fun insert_pos :: "lptr \<Rightarrow> bptr list \<Rightarrow> heap \<Rightarrow> (abort, nat) res" where
  "insert_pos loop [] h = Ok 0"
| "insert_pos loop (b # bs) h =
     (case b_loop (h_b h b) of
        None \<Rightarrow> Err AssertionFail
      | Some other \<Rightarrow>
          rbind (IsIn other loop h) (\<lambda>inside.
          if inside then Ok 0 else rbind (insert_pos loop bs h) (\<lambda>n. Ok (Suc n))))"

definition addIntoQueue :: "bptr \<Rightarrow> LinearOrdering \<Rightarrow> heap \<Rightarrow> (abort, LinearOrdering) res" where
  "addIntoQueue bblock ord h =
     rbind (isVisited (visitedMarker ord) bblock h) (\<lambda>v.
     rbind (if v then Ok True else unvisitedForwardEdgesExist (visitedMarker ord) bblock h) (\<lambda>skip.
     if skip then Ok ord
     else
       (case b_loop (h_b h bblock) of
          None \<Rightarrow> Err AssertionFail
        | Some loop \<Rightarrow>
            rbind (insert_pos loop (remainedBlocks ord) h) (\<lambda>n.
            Ok (ord\<lparr>remainedBlocks := take n (remainedBlocks ord) @ bblock # drop n (remainedBlocks ord)\<rparr>)))))"

definition insertJmpBlock :: "bptr \<Rightarrow> bptr \<Rightarrow> gptr \<Rightarrow> heap \<Rightarrow> (abort, bptr \<times> heap) res" where
  "insertJmpBlock pred succ graph h =
     (let isTerminal = (Some succ = g_lastBlock (h_g h graph)) in
      rbind (CreateEmptyBasicBlock isTerminal graph h) (\<lambda>(newBlock, h).
      rbind (CreateJMP graph h) (\<lambda>(jmp, h).
      rbind (PushBackInstruction jmp newBlock h) (\<lambda>h.
      deref (b_loop (h_b h pred)) (\<lambda>loop.
        rbind (Loop_AddBasicBlock newBlock loop h) (\<lambda>h.
        rbind (InsertBetween newBlock pred succ h) (\<lambda>h.
        Ok (newBlock, h))))))))"

text \<open>One activation of \<open>queueCond\<close>: whether it ends in a call of itself, and the state then.\<close>

definition queueCond_call :: "gptr \<Rightarrow> bptr \<Rightarrow> LinearOrdering \<times> heap \<Rightarrow> (abort, bool \<times> LinearOrdering \<times> heap) res" where
  "queueCond_call graph bblock = (\<lambda>(ord, h).
     (case b_loop (h_b h bblock) of
        None \<Rightarrow> Err AssertionFail
      | Some loop \<Rightarrow>
          ASSERT (length (b_succs (h_b h bblock)) = 2)
            (let trueBranch = b_succs (h_b h bblock) ! 0; falseBranch = b_succs (h_b h bblock) ! 1 in
             rbind (isVisited (visitedMarker ord) falseBranch h) (\<lambda>fv.
             rbind (if fv then isVisited (visitedMarker ord) trueBranch h else Ok False) (\<lambda>both.
             if both then
               rbind (insertJmpBlock bblock falseBranch graph h) (\<lambda>(newBlock, h).
               Ok (False, ord\<lparr>cfgChanged := True, remainedBlocks := newBlock # remainedBlocks ord\<rparr>, h))
             else
               rbind (mustInverseCondition (visitedMarker ord) bblock h) (\<lambda>inverse.
               if inverse then
                 rbind (InverseConditionalBranch bblock h) (\<lambda>h. Ok (True, ord, h))
               else
                 rbind
                   (if b_loop (h_b h falseBranch) \<noteq> Some loop then addIntoQueue falseBranch ord h
                    else Ok (ord\<lparr>remainedBlocks := falseBranch # remainedBlocks ord\<rparr>)) (\<lambda>ord.
                 rbind (addIntoQueue trueBranch ord h) (\<lambda>ord. Ok (False, ord, h)))))))))"

partial_function (option) queueCond :: "gptr \<Rightarrow> bptr \<Rightarrow> LinearOrdering \<times> heap \<Rightarrow> (abort, LinearOrdering \<times> heap) res option" where
  "queueCond graph bblock st =
     (case queueCond_call graph bblock st of
        Ok (again, st) \<Rightarrow> if again then queueCond graph bblock st else Some (Ok st)
      | Err e \<Rightarrow> Some (Err e)
      | UB \<Rightarrow> Some UB)"

text \<open>One round of the loop of \<open>orderBlocks\<close>.\<close>

definition order_step ::
    "gptr \<Rightarrow> bptr list \<times> LinearOrdering \<times> heap \<Rightarrow> (abort, bptr list \<times> LinearOrdering \<times> heap) res" where
  "order_step graph =
     (\<lambda>(newOrder, ord, h).
       case remainedBlocks ord of
         [] \<Rightarrow> UB
       | bblock # rest \<Rightarrow>
           rbind (isVisited (visitedMarker ord) bblock h) (\<lambda>v.
           ASSERT (\<not> v)
             (let ord = ord\<lparr>remainedBlocks := rest\<rparr> in
              rbind (mark_block (visitedMarker ord) bblock h) (\<lambda>(_, h).
              let newOrder = newOrder @ [bblock]; succs = b_succs (h_b h bblock) in
              if length succs = 1 then
                rbind (isVisited (visitedMarker ord) (succs ! 0) h) (\<lambda>sv.
                rbind (if sv then Ok True else unvisitedForwardEdgesExist (visitedMarker ord) (succs ! 0) h) (\<lambda>skip.
                Ok (newOrder, if skip then ord else ord\<lparr>remainedBlocks := succs ! 0 # remainedBlocks ord\<rparr>, h)))
              else if length succs = 2 then
                rbind (case queueCond graph bblock (ord, h) of Some r \<Rightarrow> r | None \<Rightarrow> UB) (\<lambda>(ord, h). Ok (newOrder, ord, h))
              else Ok (newOrder, ord, h)))))"

text \<open>The queue starts with the first block; a null first block fails the assertion of the first round.\<close>

definition orderBlocks :: "gptr \<Rightarrow> heap \<Rightarrow> (abort, bptr list \<times> LinearOrdering \<times> heap) res" where
  "orderBlocks graph h =
     rbind (new_marker graph h) (\<lambda>(visited, h).
     case g_firstBlock (h_g h graph) of
       None \<Rightarrow> Err AssertionFail
     | Some first \<Rightarrow>
         rbind
           (while_do (\<lambda>(newOrder, ord, h). remainedBlocks ord \<noteq> []) (order_step graph)
             ([], \<lparr>visitedMarker = visited, cfgChanged = False, remainedBlocks = [first]\<rparr>, h)) (\<lambda>(newOrder, ord, h).
         Ok (newOrder, ord\<lparr>visitedMarker := 0\<rparr>, release_marker visited graph h)))"

definition setNewOrder :: "bptr list \<Rightarrow> gptr \<Rightarrow> heap \<Rightarrow> heap" where
  "setNewOrder newOrder graph h =
     upd_g graph (\<lambda>g. g\<lparr>g_bblocks := map Some newOrder, g_unlinkedInstructionsCounter := 0\<rparr>)
       (fold (\<lambda>i h. upd_b (newOrder ! i) (\<lambda>b. b\<lparr>b_id := i\<rparr>) h) [0..<length newOrder] h)"

definition postOrder :: "gptr \<Rightarrow> heap_step" where
  "postOrder graph h =
     rbind (run_GraphChecker graph h) (\<lambda>(ok, h). ASSERT ok (Ok (PassManager_SetInvalid [DOM_TREE, RPO] graph h)))"

definition LinearOrdering_Run :: "gptr \<Rightarrow> heap \<Rightarrow> (abort, bool \<times> heap) res" where
  "LinearOrdering_Run graph h =
     rbind (run_DomTree graph h) (\<lambda>(_, h).
     rbind (run_LoopAnalyzer graph h) (\<lambda>(_, h).
     rbind (orderBlocks graph h) (\<lambda>(newOrder, ord, h).
     let h = setNewOrder newOrder graph h in
     rbind (if cfgChanged ord then postOrder graph h else Ok h) (\<lambda>h. Ok (True, h)))))"

definition run_LinearOrdering :: "gptr \<Rightarrow> heap \<Rightarrow> (abort, bool \<times> heap) res" where
  "run_LinearOrdering graph = PassManager_Run (Some LINEAR_ORDERING) (LinearOrdering_Run graph) graph"

end
