(* ===== verification/JIT_BranchElim.thy ===== *)
theory JIT_BranchElim
  imports JIT_GraphChecker JIT_Traverse JIT_Peephole
begin

text \<open>
  Branch elimination: \<open>optimization/BranchElimination.h\<close>, \<open>optimization/BranchElimination.cpp\<close>.  A
  conditional jump whose comparison is decided at compile time is removed with the edge that is
  never taken, and the blocks that became unreachable are unlinked.  The log messages are left out.
\<close>

section \<open>Comparisons\<close>

datatype CmpResult = CR_FALSE | CR_TRUE | CR_UNDEFINED

text \<open>The comparison of two pointers in \<open>input0 == input1\<close> is on the instructions they point to.\<close>

definition evaluateComparison :: "iptr \<Rightarrow> heap \<Rightarrow> (abort, CmpResult) res" where
  "evaluateComparison instr h =
     (let condCode = i_ccode (h_i h instr) in
      rbind (GetInput 0 (h_i h instr)) (\<lambda>input0.
      rbind (GetInput 1 (h_i h instr)) (\<lambda>input1.
      if input0 = input1 then
        if condCode = CC_GE \<or> condCode = CC_EQ then Ok CR_TRUE else Ok CR_FALSE
      else
        rbind (IsConst_at input0 h) (\<lambda>c0.
        rbind (if c0 then IsConst_at input1 h else Ok False) (\<lambda>c1.
        if c0 \<and> c1 then
          rbind (const_value input0 h) (\<lambda>v0. rbind (const_value input1 h) (\<lambda>v1.
          rbind (compare_values condCode v0 v1) (\<lambda>r. Ok (if r then CR_TRUE else CR_FALSE))))
        else Ok CR_UNDEFINED)))))"

section \<open>Edges\<close>

definition removeEdge :: "iptr \<Rightarrow> bool \<Rightarrow> gptr \<Rightarrow> heap_step" where
  "removeEdge instr cmpRes graph h =
     (case i_next (h_i h instr) of
        None \<Rightarrow> Err AssertionFail
      | Some jcmp \<Rightarrow>
          ASSERT (i_opcode (h_i h jcmp) = Op_JCMP)
            (let bblock = i_parent (h_i h jcmp) in
             rbind (CondJump_GetDestination (\<not> cmpRes) jcmp h) (\<lambda>removeBlock.
             ASSERT (b_preds (h_b h removeBlock) \<noteq> [])
               (deref bblock (\<lambda>b.
                 rbind (UnlinkInstruction jcmp b h) (\<lambda>h.
                 rbind (UnlinkInstruction instr b h) (\<lambda>h.
                 DisconnectBasicBlocks b removeBlock graph h)))))))"

definition propagateConstsInCond :: "gptr \<Rightarrow> heap \<Rightarrow> (abort, bool \<times> heap) res" where
  "propagateConstsInCond graph h =
     for_each (\<lambda>bblock (removed, h).
       rbind (EndsWithConditionalJump bblock h) (\<lambda>cmp.
       case cmp of
         None \<Rightarrow> Ok (removed, h)
       | Some c \<Rightarrow>
           rbind (evaluateComparison c h) (\<lambda>eval.
           if eval \<noteq> CR_UNDEFINED then
             rbind (removeEdge c (eval = CR_TRUE) graph h) (\<lambda>h. Ok (True, h))
           else Ok (removed, h))))
       (non_null (g_bblocks (h_g h graph))) (False, h)"

definition doMarkPhase :: "gptr \<Rightarrow> heap \<Rightarrow> (abort, Marker \<times> heap) res" where
  "doMarkPhase graph h =
     rbind (new_marker graph h) (\<lambda>(liveMarker, h).
     rbind
       (Traverse False (\<lambda>bblock (rpo, h). rbind (mark_block liveMarker bblock h) (\<lambda>(_, h). Ok (rpo @ [bblock], h)))
         graph ([], h)) (\<lambda>(rpo, h).
     ASSERT (length rpo < GetBasicBlocksCount (h_g h graph))
       (Ok (liveMarker, upd_g graph (SetRPO (rev rpo)) h))))"

text \<open>
  \<open>removeUnreachable\<close>: disconnecting a live successor erases it from the vector that the loop iterates
  over, which invalidates the loop's iterators; going on with them is undefined.
\<close>

definition disconnect_live_succs :: "bptr \<Rightarrow> Marker \<Rightarrow> heap_step" where
  "disconnect_live_succs bblock liveMarker h =
     for_each (\<lambda>succ h.
       rbind (block_marked liveMarker succ h) (\<lambda>live.
       if live then
         deref (b_graph (h_b h bblock)) (\<lambda>g. rbind (DisconnectBasicBlocks bblock succ g h) (\<lambda>h. UB))
       else Ok h)) (b_succs (h_b h bblock)) h"

definition all_preds_dead :: "bptr \<Rightarrow> Marker \<Rightarrow> heap \<Rightarrow> (abort, bool) res" where
  "all_preds_dead bblock liveMarker h =
     for_each (\<lambda>b ok. if ok then rbind (block_marked liveMarker b h) (\<lambda>m. Ok (\<not> m)) else Ok False)
       (b_preds (h_b h bblock)) True"

definition removeUnreachable :: "bptr \<Rightarrow> Marker \<Rightarrow> bool \<Rightarrow> heap_step" where
  "removeUnreachable bblock liveMarker fixDomTree h =
     rbind (all_preds_dead bblock liveMarker h) (\<lambda>dead.
     ASSERT dead
       (rbind (disconnect_live_succs bblock liveMarker h) (\<lambda>h.
        rbind
          (if fixDomTree then
             (case b_dominator (h_b h bblock) of
                None \<Rightarrow> Err AssertionFail
              | Some idom \<Rightarrow>
                  rbind (block_marked liveMarker idom h) (\<lambda>live.
                  if live then on_block idom (RemoveDominatedBlock bblock) h else Ok h))
           else Ok h) (\<lambda>h.
        deref (b_graph (h_b h bblock)) (\<lambda>g. UnlinkBasicBlockRaw bblock g h)))))"

section \<open>The pass\<close>

definition postElimination :: "bool \<Rightarrow> gptr \<Rightarrow> heap_step" where
  "postElimination domTreeValid graph h =
     rbind (run_GraphChecker graph h) (\<lambda>(ok, h).
     ASSERT ok
       (let h = PassManager_SetInvalid [LOOP_ANALYSIS] graph h in
        Ok (upd_g graph (\<lambda>g. g\<lparr>g_valid :=
              SetAnalysisValid RPO True (SetAnalysisValid DOM_TREE domTreeValid (g_valid g))\<rparr>) h)))"

definition BranchElimination_Run :: "gptr \<Rightarrow> heap \<Rightarrow> (abort, bool \<times> heap) res" where
  "BranchElimination_Run graph h =
     (let domTreeValid = IsAnalysisValid DOM_TREE (g_valid (h_g h graph)) in
      rbind (propagateConstsInCond graph h) (\<lambda>(removed, h).
      if \<not> removed then Ok (False, h)
      else
        rbind (doMarkPhase graph h) (\<lambda>(liveMarker, h).
        rbind (ForEachBasicBlock graph (\<lambda>b h.
                 rbind (block_marked liveMarker b h) (\<lambda>live.
                 if \<not> live then removeUnreachable b liveMarker domTreeValid h else Ok h)) h) (\<lambda>h.
        rbind (postElimination domTreeValid graph h) (\<lambda>h.
        Ok (True, release_marker liveMarker graph h))))))"

end
