(* ===== verification/JIT_AnalysisProperties.thy ===== *)
theory JIT_AnalysisProperties
  imports JIT_LinearOrdering JIT_BranchElim JIT_IRProperties
begin

text \<open>
  Properties of the graph checker and of the linear order of the blocks.
\<close>

section \<open>The check of a PHI instruction\<close>

lemma index_of_nth: "distinct xs \<Longrightarrow> i < length xs \<Longrightarrow> index_of (xs ! i) xs = i"
  by (induction xs arbitrary: i) (auto simp: nth_Cons' less_Suc_eq_0_disj)

lemma phi_mask:
  assumes "length found = length sources"
  shows "for_each (\<lambda>pred sourcesMask.
      let it = index_of pred sources in
      ASSERT (it \<noteq> length sources) (Ok (sourcesMask[it := True]))) preds found =
    (if set preds \<subseteq> set sources
     then Ok (map (\<lambda>i. found ! i \<or> i \<in> (\<lambda>p. index_of p sources) ` set preds) [0..<length found])
     else Err AssertionFail)"
  using assms
proof (induction preds arbitrary: found)
  case Nil
  then show ?case by simp (metis map_nth)
next
  case (Cons p preds)
  show ?case
  proof (cases "p \<in> set sources")
    case True
    then have k: "index_of p sources < length sources" by (simp add: index_of_less)
    have "map (\<lambda>i. found[index_of p sources := True] ! i \<or> i \<in> (\<lambda>p. index_of p sources) ` set preds) [0..<length found] =
        map (\<lambda>i. found ! i \<or> i \<in> (\<lambda>p. index_of p sources) ` set (p # preds)) [0..<length found]"
      using k Cons.prems by (auto simp: nth_list_update)
    with Cons.IH [of "found[index_of p sources := True]"] Cons.prems True k show ?thesis by (simp add: ASSERT_def)
  next
    case False
    then have "index_of p sources = length sources" by (metis index_of_absent)
    with False show ?thesis by (simp add: ASSERT_def)
  qed
qed

lemma phi_loop:
  "rbind (for_each (\<lambda>pred sourcesMask.
      let it = index_of pred sources in
      ASSERT (it \<noteq> length sources) (Ok (sourcesMask[it := True]))) preds (replicate (length sources) False))
    (\<lambda>sourcesMask. ASSERT (\<forall>i \<in> set sourcesMask. i) (Ok ())) =
    (if set preds \<subseteq> set sources \<and> (\<forall>i < length sources. i \<in> (\<lambda>p. index_of p sources) ` set preds)
     then Ok () else Err AssertionFail)"
  unfolding phi_mask [OF length_replicate] by (auto simp: ASSERT_def)

lemma all_found_iff:
  assumes "length sources = length preds"
  shows "set preds \<subseteq> set sources \<and> (\<forall>i < length sources. i \<in> (\<lambda>p. index_of p sources) ` set preds) \<longleftrightarrow>
    distinct sources \<and> mset sources = mset preds"
proof
  assume a: "set preds \<subseteq> set sources \<and> (\<forall>i < length sources. i \<in> (\<lambda>p. index_of p sources) ` set preds)"
  then have "{..<length preds} \<subseteq> (\<lambda>p. index_of p sources) ` set preds" using assms by auto
  then have "length preds \<le> card (set preds)"
    by (metis List.finite_set card_image_le card_lessThan card_mono finite_imageI order_trans)
  then have d: "distinct preds" by (metis card_distinct card_length le_antisym)
  then have "card (set preds) = length sources" using assms by (simp add: distinct_card)
  moreover have "card (set preds) \<le> card (set sources)" using a by (simp add: card_mono)
  ultimately have c: "card (set sources) = length sources" using card_length [of sources] by simp
  have "set preds = set sources" using a c assms d by (intro card_subset_eq) (simp_all add: distinct_card)
  with d c card_distinct [OF c] show "distinct sources \<and> mset sources = mset preds"
    by (simp add: set_eq_iff_mset_eq_distinct)
next
  assume a: "distinct sources \<and> mset sources = mset preds"
  then have s: "set sources = set preds" by (metis set_mset_mset)
  moreover have "i \<in> (\<lambda>p. index_of p sources) ` set preds" if "i < length sources" for i
    using that a s index_of_nth [of sources i] nth_mem [of i sources] by (metis image_eqI)
  ultimately show "set preds \<subseteq> set sources \<and> (\<forall>i < length sources. i \<in> (\<lambda>p. index_of p sources) ` set preds)"
    by simp
qed

text \<open>
  C32. The check of a PHI instruction passes exactly when it has one input per source and its sources
  are the predecessors of its block, each once; otherwise it stops the program.
\<close>

theorem phi_check:
  "VerifyPhiBasicBlocks phi h =
    (if \<exists>b. i_parent (h_i h phi) = Some b \<and> length (i_sources (h_i h phi)) = length (i_inputs (h_i h phi)) \<and>
         distinct (i_sources (h_i h phi)) \<and> mset (i_sources (h_i h phi)) = mset (b_preds (h_b h b))
     then Ok () else Err AssertionFail)"
proof (cases "i_parent (h_i h phi)")
  case None
  then show ?thesis by (simp add: VerifyPhiBasicBlocks_def)
next
  case (Some b)
  let ?s = "i_sources (h_i h phi)" and ?p = "b_preds (h_b h b)"
  show ?thesis
  proof (cases "length ?s = length (i_inputs (h_i h phi)) \<and> length ?s = length ?p")
    case False
    moreover have "mset ?s = mset ?p \<Longrightarrow> length ?s = length ?p" by (rule mset_eq_length)
    ultimately have "\<not> (length ?s = length (i_inputs (h_i h phi)) \<and> distinct ?s \<and> mset ?s = mset ?p)" by blast
    moreover have "VerifyPhiBasicBlocks phi h = Err AssertionFail"
      using Some False by (cases "length ?s = length (i_inputs (h_i h phi))")
        (simp_all add: VerifyPhiBasicBlocks_def Let_def ASSERT_def GetInputsCount_def)
    ultimately show ?thesis using Some by simp
  next
    case True
    then have l: "length ?s = length ?p" by simp
    have "VerifyPhiBasicBlocks phi h =
        (if set ?p \<subseteq> set ?s \<and> (\<forall>i < length ?s. i \<in> (\<lambda>p. index_of p ?s) ` set ?p) then Ok () else Err AssertionFail)"
      using True unfolding VerifyPhiBasicBlocks_def Some option.case Let_def GetInputsCount_def phi_loop [unfolded Let_def]
      by (simp add: ASSERT_def)
    with all_found_iff [OF l] True Some show ?thesis by simp
  qed
qed

section \<open>The linear order\<close>

text \<open>
  A block that ends with a comparison and a conditional jump out of its loop: neither successor has
  been visited, \<open>inner\<close> is in the block's loop and has an unvisited predecessor, \<open>outer\<close> is in
  another loop and has none.
\<close>

definition break_point :: "Marker \<Rightarrow> bptr \<Rightarrow> bptr \<Rightarrow> bptr \<Rightarrow> heap \<Rightarrow> bool" where
  "break_point visited bblock inner outer h \<longleftrightarrow>
     bblock \<noteq> inner \<and> inner \<noteq> outer \<and>
     (\<exists>loop l c. b_loop (h_b h bblock) = Some loop \<and> b_loop (h_b h inner) = Some loop \<and> b_loop (h_b h outer) \<noteq> Some loop \<and>
        b_lastInst (h_b h bblock) = Some l \<and> i_opcode (h_i h l) = Op_JCMP \<and> i_prev (h_i h l) = Some c \<and>
        i_opcode (h_i h c) = Op_CMP \<and> 2 \<le> length (i_inputs (h_i h c))) \<and>
     b_succs (h_b h bblock) \<in> {[inner, outer], [outer, inner]} \<and>
     isVisited visited inner h = Ok False \<and> isVisited visited outer h = Ok False \<and>
     unvisitedForwardEdgesExist visited inner h = Ok True \<and> unvisitedForwardEdgesExist visited outer h = Ok False"

text \<open>What the search for unvisited predecessors reads.\<close>

definition order_view :: "heap \<Rightarrow> bptr \<Rightarrow> BBlock" where
  "order_view h b = (h_b h b)\<lparr>b_succs := []\<rparr>"

lemma order_viewD:
  assumes "order_view h' = order_view h"
  shows "b_loop (h_b h' b) = b_loop (h_b h b)" and "b_preds (h_b h' b) = b_preds (h_b h b)"
    and "b_dominator (h_b h' b) = b_dominator (h_b h b)" and "b_markers (h_b h' b) = b_markers (h_b h b)"
    and "b_lastInst (h_b h' b) = b_lastInst (h_b h b)"
  using fun_cong [OF assms, of b]
  by (simp_all add: order_view_def) (metis BBlock.ext_inject BBlock.surjective BBlock.update_convs)+

lemma order_view_same:
  assumes "order_view h' = order_view h" and "h_l h' = h_l h"
  shows "isVisited visited b h' = isVisited visited b h"
    and "unvisitedForwardEdgesExist visited b h' = unvisitedForwardEdgesExist visited b h"
proof -
  note v = order_viewD [OF assms(1)]
  have "isVisited visited x h' = isVisited visited x h" for x
    by (simp add: isVisited_def block_marked_def v)
  moreover have "Dominates x y h' = Dominates x y h" for x y by (simp add: Dominates_def v)
  moreover have "IsLoopHeader x h' = IsLoopHeader x h" for x by (simp add: IsLoopHeader_def v assms(2) split: option.split)
  ultimately show "isVisited visited b h' = isVisited visited b h"
    "unvisitedForwardEdgesExist visited b h' = unvisitedForwardEdgesExist visited b h"
    by (simp_all add: unvisitedForwardEdgesExist_def v assms(2) Let_def cong: if_cong)
qed

lemma break_point_inverse:
  assumes "break_point visited bblock inner outer h"
  obtains h' where "InverseConditionalBranch bblock h = Ok h'" and "break_point visited bblock inner outer h'"
proof -
  obtain loop l c where b: "b_loop (h_b h bblock) = Some loop" "b_loop (h_b h inner) = Some loop"
    "b_loop (h_b h outer) \<noteq> Some loop" "b_lastInst (h_b h bblock) = Some l" "i_opcode (h_i h l) = Op_JCMP"
    "i_prev (h_i h l) = Some c" "i_opcode (h_i h c) = Op_CMP" "2 \<le> length (i_inputs (h_i h c))"
    and s: "b_succs (h_b h bblock) \<in> {[inner, outer], [outer, inner]}"
    using assms unfolding break_point_def by blast
  let ?c = "(InverseCondCode (h_i h c))\<lparr>i_inputs := (i_inputs (h_i h c))[0 := i_inputs (h_i h c) ! 1, 1 := i_inputs (h_i h c) ! 0]\<rparr>"
  have inv: "CompareInstruction_Inverse (h_i h c) = Ok ?c"
    using b(8) by (cases "i_inputs (h_i h c)"; cases "tl (i_inputs (h_i h c))") (simp_all add: CompareInstruction_Inverse_def GetInput_def InverseCondCode_def ASSERT_def Let_def)
  let ?h = "upd_b bblock (\<lambda>x. x\<lparr>b_succs := (b_succs x)[0 := b_succs x ! 1, 1 := b_succs x ! 0]\<rparr>) (upd_i c (\<lambda>_. ?c) h)"
  have "length (b_succs (h_b h bblock)) = 2" using s by auto
  then have run: "InverseConditionalBranch bblock h = Ok ?h"
    using b inv by (simp add: InverseConditionalBranch_def EndsWithConditionalJump_def on_instr_def ASSERT_def)
  have view: "order_view ?h = order_view h" "h_l ?h = h_l h"
    by (auto simp: order_view_def fun_eq_iff upd_b_def upd_i_def)
  have "i_opcode (h_i ?h l) = Op_JCMP" "i_prev (h_i ?h l) = Some c" "i_opcode (h_i ?h c) = Op_CMP" "2 \<le> length (i_inputs (h_i ?h c))"
    using b by (auto simp: upd_i_def InverseCondCode_def)
  moreover have "b_succs (h_b ?h bblock) \<in> {[inner, outer], [outer, inner]}" using s by (auto simp: upd_b_def)
  ultimately have "break_point visited bblock inner outer ?h"
    using assms b unfolding break_point_def order_view_same [OF view] order_viewD [OF view(1)] by blast
  with run that show thesis by blast
qed

lemma break_point_must_inverse:
  assumes "break_point visited bblock inner outer h"
  shows "mustInverseCondition visited bblock h = Ok True"
proof -
  have s: "b_succs (h_b h bblock) \<in> {[inner, outer], [outer, inner]}" using assms by (simp add: break_point_def)
  with assms show ?thesis by (auto simp: break_point_def mustInverseCondition_def ASSERT_def Let_def)
qed

text \<open>An activation at such a block inverts the condition and calls itself at such a block again.\<close>

lemma break_point_call:
  assumes "break_point (visitedMarker ord) bblock inner outer h"
  obtains h' where "InverseConditionalBranch bblock h = Ok h'" and "queueCond_call graph bblock (ord, h) = Ok (True, ord, h')"
    and "break_point (visitedMarker ord) bblock inner outer h'"
proof -
  obtain loop where loop: "b_loop (h_b h bblock) = Some loop" using assms by (auto simp: break_point_def)
  have s: "b_succs (h_b h bblock) \<in> {[inner, outer], [outer, inner]}" using assms by (simp add: break_point_def)
  then have len: "length (b_succs (h_b h bblock)) = 2" by auto
  have "isVisited (visitedMarker ord) (b_succs (h_b h bblock) ! 1) h = Ok False"
    using s assms by (auto simp: break_point_def)
  moreover obtain h' where "InverseConditionalBranch bblock h = Ok h'" "break_point (visitedMarker ord) bblock inner outer h'"
    using break_point_inverse [OF assms] .
  ultimately show thesis
    using loop len break_point_must_inverse [OF assms] by (intro that) (simp_all add: queueCond_call_def ASSERT_def Let_def)
qed

lemma break_point_never_returns:
  assumes "queueCond graph bblock st = Some r" and "break_point (visitedMarker (fst st)) bblock inner outer (snd st)"
  shows False
proof -
  have "break_point (visitedMarker (fst st)) bblock inner outer (snd st) \<longrightarrow> False"
    using assms(1)
  proof (rule queueCond.raw_induct [rotated, where P = "\<lambda>g b st r. break_point (visitedMarker (fst st)) b inner outer (snd st) \<longrightarrow> False"], intro impI)
    fix f :: "gptr \<Rightarrow> bptr \<Rightarrow> LinearOrdering \<times> heap \<Rightarrow> (abort, LinearOrdering \<times> heap) res option" and g b st r
    assume IH: "\<And>g b st r. f g b st = Some r \<Longrightarrow> break_point (visitedMarker (fst st)) b inner outer (snd st) \<longrightarrow> False"
      and r: "(case queueCond_call g b st of Ok (again, st) \<Rightarrow> if again then f g b st else Some (Ok st)
        | Err e \<Rightarrow> Some (Err e) | UB \<Rightarrow> Some UB) = Some r"
      and p: "break_point (visitedMarker (fst st)) b inner outer (snd st)"
    obtain h' where "queueCond_call g b st = Ok (True, fst st, h')" "break_point (visitedMarker (fst st)) b inner outer h'"
      using break_point_call [OF p] by (metis prod.collapse)
    with IH [of g b "(fst st, h')"] r show False by simp
  qed
  with assms(2) show False by blast
qed

text \<open>
  C30. Take a block with two unvisited branches, one that leaves the loop of the block and is ready,
  and one that stays in the loop and waits for a predecessor that has not been visited.  Whichever of
  them is the false branch, \<open>queueCond\<close> inverts the condition and calls itself in the same situation:
  the recursion never ends.
\<close>

theorem linear_order_diverges:
  assumes "break_point (visitedMarker ord) bblock inner outer h"
  shows "queueCond graph bblock (ord, h) = None \<and> (\<exists>h'. InverseConditionalBranch bblock h = Ok h' \<and>
    queueCond_call graph bblock (ord, h) = Ok (True, ord, h') \<and> break_point (visitedMarker ord) bblock inner outer h')"
  using break_point_never_returns [of graph bblock "(ord, h)" _ inner outer] break_point_call [OF assms] assms
  by (metis fst_conv not_Some_eq snd_conv)

text \<open>
  The blocks of \<open>while (...) { if (...) { if (...) break; } else ...; ... }\<close>: the loop is 1, 2, 3, 4, its
  header is 1, the branches of the first condition are 3 and 2, they meet in 4, and 3 leaves the loop
  to 5.  \<open>V\<close> are the blocks that have been visited.
\<close>

definition break_block :: "bptr set \<Rightarrow> bptr \<Rightarrow> BBlock" where
  "break_block V b = (BasicBlock_init 0)
     \<lparr>b_markers := (if b \<in> V then [1, 0, 0, 0] else [0, 0, 0, 0]),
      b_succs := (if b = 0 then [1] else if b = 1 then [2, 3] else if b = 2 then [4] else if b = 3 then [4, 5]
        else if b = 4 then [1] else []),
      b_preds := (if b = 1 then [0, 4] else if b = 4 then [2, 3] else if b = 5 then [3] else if b = 0 then [] else [1]),
      b_dominator := (if b = 0 then None else if b = 1 then Some 0 else if b = 5 then Some 3 else Some 1),
      b_loop := (if b = 0 \<or> b = 5 then Some 0 else Some 1), b_lastInst := Some 1\<rparr>"

definition break_loop :: "MarkerManager \<Rightarrow> bptr set \<Rightarrow> heap" where
  "break_loop m V =
     \<lparr>h_i = (\<lambda>p. if p = 1 then (InstructionBase_init CondJumpInstruction Op_JCMP T_VOID 0)\<lparr>i_prev := Some 0\<rparr>
        else (InstructionBase_init CompareInstruction Op_CMP T_I32 0)\<lparr>i_inputs := [None, None]\<rparr>),
      h_b = break_block V,
      h_l = (\<lambda>l. if l = 1 then (Loop_init 0 (Some 1) False False)\<lparr>l_outerLoop := Some 0\<rparr> else Loop_init 1 None False True),
      h_g = (\<lambda>_. Graph_init)(0 := Graph_init\<lparr>g_firstBlock := Some 0, g_markers := m\<rparr>), h_new_i = 2, h_new_b = 6, h_new_l = 2\<rparr>"

lemma first_marker_value:
  "GetNewMarker MarkerManager_init = Ok (4, \<lparr>currentIndex = 1, markersSlots = [True, False, False, False]\<rparr>)"
proof -
  have "replicate MC_MAX_MARKERS False = [False, False, False, False]"
    by (simp add: MC_MAX_MARKERS_def MC_BIT_LENGTH_def numeral_eq_Suc)
  moreover have "0 < MC_MAX_VALUE" by (simp add: MC_MAX_VALUE_def MC_BIT_LENGTH_def)
  ultimately show ?thesis
    by (simp add: GetNewMarker_def MarkerManager_init_def ASSERT_def Let_def MC_BIT_LENGTH_def)
qed

lemma marker_4: "marker_value 4 = 1" "marker_slot 4 = 0"
  by (simp add: marker_value_def MC_BIT_LENGTH_def) (simp add: marker_fields_unat)

lemma break_loop_marks:
  "isVisited 4 b (break_loop m V) = Ok (b \<in> V)"
  "mark_block 4 b (break_loop m V) = Ok (b \<notin> V, break_loop m (insert b V))"
  by (auto simp: isVisited_def block_marked_def mark_block_def IsMarkerSet_def SetMarker_def marker_4 break_loop_def break_block_def
      ASSERT_def Let_def upd_b_def fun_eq_iff)

lemma break_loop_forward:
  "unvisitedForwardEdgesExist 4 1 (break_loop m {0}) = Ok False"
  "unvisitedForwardEdgesExist 4 2 (break_loop m {0, 1}) = Ok False"
  "unvisitedForwardEdgesExist 4 3 (break_loop m {0, 1}) = Ok False"
  "unvisitedForwardEdgesExist 4 4 (break_loop m {0, 1, 3}) = Ok True"
  "unvisitedForwardEdgesExist 4 5 (break_loop m {0, 1, 3}) = Ok False"
proof -
  have f: "b_loop (h_b (break_loop m V) b) = (if b = 0 \<or> b = 5 then Some 0 else Some 1)"
    "b_preds (h_b (break_loop m V) b) =
      (if b = 1 then [0, 4] else if b = 4 then [2, 3] else if b = 5 then [3] else if b = 0 then [] else [1])"
    "l_isIrreducible (h_l (break_loop m V) l) = False" "l_header (h_l (break_loop m V) l) = (if l = 1 then Some 1 else None)"
    "Dominates 1 0 (break_loop m V) = Ok False" "Dominates 1 4 (break_loop m V) = Ok True" for b V l
    by (simp_all add: break_loop_def break_block_def Loop_init_def Dominates_def)
  show "unvisitedForwardEdgesExist 4 1 (break_loop m {0}) = Ok False"
    "unvisitedForwardEdgesExist 4 2 (break_loop m {0, 1}) = Ok False"
    "unvisitedForwardEdgesExist 4 3 (break_loop m {0, 1}) = Ok False"
    "unvisitedForwardEdgesExist 4 4 (break_loop m {0, 1, 3}) = Ok True"
    "unvisitedForwardEdgesExist 4 5 (break_loop m {0, 1, 3}) = Ok False"
    by (simp_all del: One_nat_def add: unvisitedForwardEdgesExist_def f IsLoopHeader_def break_loop_marks)
qed

text \<open>The order of these six blocks is never found: the recursion starts at block 3.\<close>

theorem linear_order_diverges_witness:
  "queueCond 0 3 (\<lparr>visitedMarker = 4, cfgChanged = False, remainedBlocks = [2]\<rparr>,
      break_loop \<lparr>currentIndex = 1, markersSlots = [True, False, False, False]\<rparr> {0, 1, 3}) = None \<and>
   orderBlocks 0 (break_loop MarkerManager_init {}) = UB"
proof -
  let ?m = "\<lparr>currentIndex = 1, markersSlots = [True, False, False, False]\<rparr>"
  let ?ord = "\<lambda>q. \<lparr>visitedMarker = 4, cfgChanged = False, remainedBlocks = q\<rparr>"
  have f: "b_succs (h_b (break_loop m V) b) =
      (if b = 0 then [1] else if b = 1 then [2, 3] else if b = 2 then [4] else if b = 3 then [4, 5] else if b = 4 then [1] else [])"
    "b_loop (h_b (break_loop m V) b) = (if b = 0 \<or> b = 5 then Some 0 else Some 1)"
    "b_lastInst (h_b (break_loop m V) b) = Some 1" "h_new_b (break_loop m V) = 6" "IsIn 1 1 (break_loop m V) = Ok False" for m V b
    by (simp_all add: break_loop_def break_block_def IsIn_def Loop_init_def while_do_unfold)
  have new: "new_marker 0 (break_loop MarkerManager_init {}) = Ok (4, break_loop ?m {})"
    by (simp add: new_marker_def break_loop_def Graph_init_def first_marker_value upd_g_def fun_eq_iff)
  have r0: "order_step 0 ([], ?ord [0], break_loop ?m {}) = Ok ([0], ?ord [1], break_loop ?m {0})"
    by (simp del: One_nat_def add: order_step_def break_loop_marks f break_loop_forward ASSERT_def Let_def)
  have must: "mustInverseCondition 4 1 (break_loop ?m {0, 1}) = Ok False"
    by (simp del: One_nat_def add: mustInverseCondition_def f break_loop_marks break_loop_forward ASSERT_def Let_def)
  have "queueCond_call 0 1 (?ord [], break_loop ?m {0, 1}) = Ok (False, ?ord [3, 2], break_loop ?m {0, 1})"
    by (simp del: One_nat_def add: queueCond_call_def must f break_loop_marks break_loop_forward addIntoQueue_def ASSERT_def Let_def)
  then have "queueCond 0 1 (?ord [], break_loop ?m {0, 1}) = Some (Ok (?ord [3, 2], break_loop ?m {0, 1}))"
    by (subst queueCond.simps) simp
  then have r1: "order_step 0 ([0], ?ord [1], break_loop ?m {0}) = Ok ([0, 1], ?ord [3, 2], break_loop ?m {0, 1})"
    by (simp del: One_nat_def add: order_step_def break_loop_marks f ASSERT_def Let_def insert_commute)
  have i: "i_opcode (h_i (break_loop ?m V) 1) = Op_JCMP" "i_prev (h_i (break_loop ?m V) 1) = Some 0"
    "i_opcode (h_i (break_loop ?m V) 0) = Op_CMP" "i_inputs (h_i (break_loop ?m V) 0) = [None, None]" for V
    by (simp_all add: break_loop_def InstructionBase_init_def)
  have "break_point (visitedMarker (?ord [2])) 3 4 5 (break_loop ?m {0, 1, 3})"
    unfolding break_point_def by (simp del: One_nat_def add: f i break_loop_marks break_loop_forward)
  from linear_order_diverges [OF this, of 0]
  have none: "queueCond 0 3 (?ord [2], break_loop ?m {0, 1, 3}) = None" by blast
  then have r2: "order_step 0 ([0, 1], ?ord [3, 2], break_loop ?m {0, 1}) = UB"
    by (simp del: One_nat_def add: order_step_def break_loop_marks f ASSERT_def Let_def insert_commute)
  have first: "g_firstBlock (h_g (break_loop ?m {}) 0) = Some 0" by (simp add: break_loop_def Graph_init_def)
  let ?loop = "while_do (\<lambda>(newOrder, ord, h). remainedBlocks ord \<noteq> []) (order_step 0)"
  have "?loop ([0, 1], ?ord [3, 2], break_loop ?m {0, 1}) = UB" by (subst while_do_unfold) (simp del: One_nat_def add: r2)
  then have "?loop ([0], ?ord [1], break_loop ?m {0}) = UB" by (subst while_do_unfold) (simp del: One_nat_def add: r1)
  then have "?loop ([], ?ord [0], break_loop ?m {}) = UB" by (subst while_do_unfold) (simp del: One_nat_def add: r0)
  then show ?thesis using none by (simp del: One_nat_def add: orderBlocks_def new first)
qed

end
