(* ===== verification/JIT_BuilderCalls.thy ===== *)
theory JIT_BuilderCalls
  imports JIT_IRProperties
begin

text \<open>
  The \<open>Create\<close> functions of \<open>ir/InstructionBuilder.h\<close> against one specification: what a call asks
  for (\<open>builder_call\<close>), and which properties an opcode carries wherever it is made
  (\<open>opcode_props\<close>).  Later passes rely on these properties: dead code elimination starts at the
  instructions with side effects and follows the inputs of those that have the property INPUT.
\<close>

section \<open>The specification\<close>

text \<open>\<open>builder_call f op ty ins\<close>: the call \<open>f\<close> asks for opcode \<open>op\<close>, type \<open>ty\<close> and inputs \<open>ins\<close>.\<close>

inductive builder_call ::
    "(gptr \<Rightarrow> heap \<Rightarrow> (abort, iptr \<times> heap) res) \<Rightarrow> Opcode \<Rightarrow> (heap \<Rightarrow> OperandType) \<Rightarrow> iptr option list \<Rightarrow> bool" where
  AND: "builder_call (CreateAND t a b) Op_AND (\<lambda>_. t) [a, b]"
| OR: "builder_call (CreateOR t a b) Op_OR (\<lambda>_. t) [a, b]"
| XOR: "builder_call (CreateXOR t a b) Op_XOR (\<lambda>_. t) [a, b]"
| ADD: "builder_call (CreateADD t a b) Op_ADD (\<lambda>_. t) [a, b]"
| MUL: "builder_call (CreateMUL t a b) Op_MUL (\<lambda>_. t) [a, b]"
| SUB: "builder_call (CreateSUB t a b) Op_SUB (\<lambda>_. t) [a, b]"
| DIV: "builder_call (CreateDIV t a b) Op_DIV (\<lambda>_. t) [a, b]"
| MOD: "builder_call (CreateMOD t a b) Op_MOD (\<lambda>_. t) [a, b]"
| SRA: "builder_call (CreateSRA t a b) Op_SRA (\<lambda>_. t) [a, b]"
| SLA: "builder_call (CreateSLA t a b) Op_SLA (\<lambda>_. t) [a, b]"
| SLL: "builder_call (CreateSLL t a b) Op_SLL (\<lambda>_. t) [a, b]"
| ANDI: "builder_call (CreateANDI t a imm) Op_ANDI (\<lambda>_. t) [a]"
| ORI: "builder_call (CreateORI t a imm) Op_ORI (\<lambda>_. t) [a]"
| XORI: "builder_call (CreateXORI t a imm) Op_XORI (\<lambda>_. t) [a]"
| ADDI: "builder_call (CreateADDI t a imm) Op_ADDI (\<lambda>_. t) [a]"
| SUBI: "builder_call (CreateSUBI t a imm) Op_SUBI (\<lambda>_. t) [a]"
| MULI: "builder_call (CreateMULI t a imm) Op_MULI (\<lambda>_. t) [a]"
| DIVI: "builder_call (CreateDIVI t a imm) Op_DIVI (\<lambda>_. t) [a]"
| MODI: "builder_call (CreateMODI t a imm) Op_MODI (\<lambda>_. t) [a]"
| SRAI: "builder_call (CreateSRAI t a imm) Op_SRAI (\<lambda>_. t) [a]"
| SLAI: "builder_call (CreateSLAI t a imm) Op_SLAI (\<lambda>_. t) [a]"
| SLLI: "builder_call (CreateSLLI t a imm) Op_SLLI (\<lambda>_. t) [a]"
| NOT: "builder_call (CreateNOT t a) Op_NOT (\<lambda>_. t) [a]"
| NEG: "builder_call (CreateNEG t a) Op_NEG (\<lambda>_. t) [a]"
| CONST: "builder_call (CreateCONST t imm) Op_CONST (\<lambda>_. t) []"
| CAST: "builder_call (CreateCAST t to a) Op_CAST (\<lambda>_. t) [a]"
| CMP: "builder_call (CreateCMP t cc a b) Op_CMP (\<lambda>_. t) [a, b]"
| JCMP: "builder_call CreateJCMP Op_JCMP (\<lambda>_. T_I64) []"
| JMP: "builder_call CreateJMP Op_JMP (\<lambda>_. T_I64) []"
| RET: "builder_call (CreateRET t a) Op_RET (\<lambda>_. t) [a]"
| RETVOID: "builder_call CreateRETVOID Op_RETVOID (\<lambda>_. T_VOID) []"
| CALL: "builder_call (CreateCALL t callee ins) Op_CALL (\<lambda>_. t) ins"
| LEN: "builder_call (CreateLEN a) Op_LEN (\<lambda>_. T_U64) [a]"
| NEW_ARRAY: "builder_call (CreateNEW_ARRAY a ty) Op_NEW_ARRAY (\<lambda>_. T_REF) [a]"
| NEW_ARRAY_IMM: "builder_call (CreateNEW_ARRAY_IMM imm ty) Op_NEW_ARRAY_IMM (\<lambda>_. T_REF) []"
| NEW_OBJECT: "builder_call (CreateNEW_OBJECT ty) Op_NEW_OBJECT (\<lambda>_. T_REF) []"
| LOAD_ARRAY: "builder_call (CreateLOAD_ARRAY t a b) Op_LOAD_ARRAY (\<lambda>_. t) [a, b]"
| LOAD_ARRAY_IMM: "builder_call (CreateLOAD_ARRAY_IMM t a imm) Op_LOAD_ARRAY_IMM (\<lambda>_. t) [a]"
| LOAD_OBJECT: "builder_call (CreateLOAD_OBJECT t a imm) Op_LOAD_OBJECT (\<lambda>_. t) [a]"
| STORE_ARRAY: "builder_call (CreateSTORE_ARRAY a b c) Op_STORE_ARRAY (\<lambda>_. T_VOID) [a, b, c]"
| STORE_ARRAY_IMM: "builder_call (CreateSTORE_ARRAY_IMM a b imm) Op_STORE_ARRAY_IMM (\<lambda>_. T_VOID) [a, b]"
| STORE_OBJECT: "builder_call (CreateSTORE_OBJECT a b imm) Op_STORE_OBJECT (\<lambda>_. T_VOID) [a, b]"
| PHI: "builder_call (CreatePHI t) Op_PHI (\<lambda>_. t) []"
| PHI_inputs: "builder_call (CreatePHI_inputs t ins srcs) Op_PHI (\<lambda>_. t) ins"
| ARG: "builder_call (CreateARG t) Op_ARG (\<lambda>_. t) []"
| NULL_CHECK: "builder_call (CreateNULL_CHECK a) Op_NULL_CHECK (\<lambda>_. T_INVALID) [a]"
| ZERO_CHECK: "builder_call (CreateZERO_CHECK a) Op_ZERO_CHECK (\<lambda>_. T_INVALID) [a]"
| NEGATIVE_CHECK: "builder_call (CreateNEGATIVE_CHECK a) Op_NEGATIVE_CHECK (\<lambda>_. T_INVALID) [a]"
| BOUNDS_CHECK: "builder_call (CreateBOUNDS_CHECK a b) Op_BOUNDS_CHECK (\<lambda>_. T_INVALID) [a, b]"
| MOVE: "builder_call (CreateMOVE (Some p)) Op_MOVE (\<lambda>h. i_type (h_i h p)) [Some p]"

text \<open>The properties an opcode stands for, one property at a time.\<close>

definition memory_opcodes :: "Opcode set" where
  "memory_opcodes = {Op_LEN, Op_NEW_ARRAY, Op_NEW_ARRAY_IMM, Op_NEW_OBJECT, Op_LOAD_ARRAY, Op_LOAD_ARRAY_IMM, Op_LOAD_OBJECT,
     Op_STORE_ARRAY, Op_STORE_ARRAY_IMM, Op_STORE_OBJECT}"

definition opcode_has :: "Opcode \<Rightarrow> InstrProp \<Rightarrow> bool" where
  "opcode_has op prop = (case prop of
     CF \<Rightarrow> op \<in> {Op_JMP, Op_JCMP, Op_RET, Op_RETVOID}
   | COMMUTABLE \<Rightarrow> op \<in> {Op_AND, Op_OR, Op_XOR, Op_ADD, Op_MUL}
   | MEM \<Rightarrow> op \<in> memory_opcodes
   | INPUT \<Rightarrow> op \<notin> {Op_CONST, Op_ARG, Op_JMP, Op_JCMP, Op_RETVOID, Op_NEW_ARRAY_IMM, Op_NEW_OBJECT}
   | SIDE_EFFECTS \<Rightarrow> op \<in> memory_opcodes \<union> {Op_DIV, Op_MOD, Op_DIVI, Op_MODI, Op_CMP, Op_CALL, Op_JMP, Op_JCMP, Op_RET,
       Op_RETVOID, Op_NULL_CHECK, Op_ZERO_CHECK, Op_NEGATIVE_CHECK, Op_BOUNDS_CHECK}
   | InstrProp.ARITH \<Rightarrow> op \<in> {Op_AND, Op_OR, Op_XOR, Op_ADD, Op_MUL, Op_SUB, Op_DIV, Op_MOD, Op_SRA, Op_SLA, Op_SLL,
       Op_ANDI, Op_ORI, Op_XORI, Op_ADDI, Op_SUBI, Op_MULI, Op_DIVI, Op_MODI, Op_SRAI, Op_SLAI, Op_SLLI, Op_NOT, Op_NEG})"

section \<open>The links of a new instruction\<close>

lemma satisfies_or: "(a OR b) AND prop_bits q \<noteq> 0 \<longleftrightarrow> a AND prop_bits q \<noteq> 0 \<or> b AND prop_bits q \<noteq> 0" for a b :: byte
  by (simp add: bit.conj_disj_distrib2 or_eq_0_iff)

text \<open>Everything but opcode, type, inputs and properties: address, number, users, other objects.\<close>

definition linked_in :: "gptr \<Rightarrow> heap \<Rightarrow> iptr \<Rightarrow> heap \<Rightarrow> bool" where
  "linked_in g h p h' \<longleftrightarrow> p = h_new_i h \<and> h_new_i h' = Suc p \<and> i_id (h_i h' p) = g_currentId (h_g h g) \<and>
     g_currentId (h_g h' g) = g_currentId (h_g h g) + 1 \<and> h_b h' = h_b h \<and>
     (\<forall>q. q \<noteq> p \<longrightarrow> h_i h' q = (h_i h q)
        \<lparr>i_users := i_users (h_i h q) @ replicate (count (mset (i_inputs (h_i h' p))) (Some q)) p\<rparr>) \<and>
     (def_use h \<and> fresh_at p h \<longrightarrow> def_use h')"

definition made_as :: "Instr \<Rightarrow> byte \<Rightarrow> iptr \<Rightarrow> heap \<Rightarrow> bool" where
  "made_as i prop p h' \<longleftrightarrow> (\<exists>us n. h_i h' p = i\<lparr>i_users := us, i_id := n, i_properties := i_properties i OR prop\<rparr>)"

lemma create_links:
  assumes "rbind (new_instr i h) (\<lambda>(inst, h). Ok (inst, upd_i inst (SetProperty prop) (number_instr inst g h))) = Ok (p, h')"
    and "i_users i = []"
  shows "linked_in g h p h' \<and> made_as i prop p h'"
proof -
  obtain h1 where n: "new_instr i h = Ok (p, h1)" and h': "h' = upd_i p (SetProperty prop) (number_instr p g h1)"
    using assms(1) by (auto simp: new_instr_Ok Let_def)
  have p: "p = h_new_i h" and h1: "h1 = h\<lparr>h_new_i := Suc p,
        h_i := \<lambda>q. if q = p then i\<lparr>i_users := replicate (count (mset (i_inputs i)) (Some q)) p\<rparr>
                   else (h_i h q)\<lparr>i_users := i_users (h_i h q) @ replicate (count (mset (i_inputs i)) (Some q)) p\<rparr>\<rparr>"
    using n by (auto simp: new_instr_Ok Let_def assms(2) fun_eq_iff intro!: arg_cong [where f = "\<lambda>f. h\<lparr>h_new_i := Suc (h_new_i h), h_i := f\<rparr>"])
  have same: "i_inputs (h_i h' q) = i_inputs (h_i h1 q)" "i_users (h_i h' q) = i_users (h_i h1 q)" for q
    by (simp_all add: h' number_instr_def SetProperty_def upd_g_def)
  have "def_use h'" if "def_use h" "fresh_at p h"
    using new_instr_def_use [OF that(1) that(2) [unfolded p] assms(2) n]
    by (simp add: def_use_def def_use_at_def same)
  moreover have "made_as i prop p h'"
    unfolding made_as_def by (intro exI) (simp add: h' h1 number_instr_def SetProperty_def upd_g_def)
  ultimately show ?thesis
    by (simp add: linked_in_def) (simp add: h' h1 p number_instr_def SetProperty_def upd_g_def upd_i_def)
qed

lemma create_links0:
  assumes "rbind (new_instr i h) (\<lambda>(inst, h). Ok (inst, number_instr inst g h)) = Ok (p, h')" and "i_users i = []"
  shows "linked_in g h p h' \<and> made_as i 0 p h'"
proof (rule create_links [OF _ assms(2)])
  have "SetProperty 0 = (\<lambda>i. i)" by (simp add: SetProperty_def fun_eq_iff)
  then show "rbind (new_instr i h) (\<lambda>(inst, h). Ok (inst, upd_i inst (SetProperty 0) (number_instr inst g h))) = Ok (p, h')"
    using assms(1) by (simp add: upd_i_def)
qed

lemmas create_call_defs = builder_defs CreateAND_def CreateOR_def CreateXOR_def CreateADD_def CreateMUL_def CreateSUB_def CreateSRA_def
  CreateSLA_def CreateSLL_def CreateANDI_def CreateORI_def CreateXORI_def CreateADDI_def
  CreateSUBI_def CreateMULI_def CreateDIVI_def CreateMODI_def CreateSRAI_def CreateSLAI_def
  CreateSLLI_def CreateMOVE_def

lemma no_users: "i_users (FixedInputs cls op t ins) = []" "i_users (InstructionBase_init cls op t ps) = []"
  by (simp_all add: FixedInputs_def InstructionBase_init_def)

text \<open>Made as asked: the links, the opcode, the type, the inputs and the properties of the opcode.\<close>

definition made_right :: "Opcode \<Rightarrow> OperandType \<Rightarrow> iptr option list \<Rightarrow> gptr \<Rightarrow> heap \<Rightarrow> iptr \<Rightarrow> heap \<Rightarrow> bool" where
  "made_right op t ins g h p h' \<longleftrightarrow> linked_in g h p h' \<and> i_opcode (h_i h' p) = op \<and> i_type (h_i h' p) = t \<and>
     i_inputs (h_i h' p) = ins \<and> (\<forall>q. SatisfiesProperty q (h_i h' p) \<longleftrightarrow> opcode_has op q)"

lemma made_rightI:
  assumes "linked_in g h p h' \<and> made_as i prop p h'" and "i_opcode i = op" and "i_type i = t" and "i_inputs i = ins"
    and "\<forall>q. (i_properties i OR prop) AND prop_bits q \<noteq> 0 \<longleftrightarrow> opcode_has op q"
  shows "made_right op t ins g h p h'"
proof -
  obtain us n where "h_i h' p = i\<lparr>i_users := us, i_id := n, i_properties := i_properties i OR prop\<rparr>"
    using assms(1) by (auto simp: made_as_def)
  then have "i_opcode (h_i h' p) = op" "i_type (h_i h' p) = t" "i_inputs (h_i h' p) = ins"
    "\<forall>q. SatisfiesProperty q (h_i h' p) \<longleftrightarrow> opcode_has op q"
    using assms(2-4) assms(5) [rule_format] by (simp_all add: SatisfiesProperty_def)
  with assms(1) show ?thesis by (simp only: made_right_def simp_thms)
qed

lemmas create_right = create_links [THEN made_rightI] create_links0 [THEN made_rightI]

lemma all_props: "(\<forall>q. P q) \<longleftrightarrow> P InstrProp.ARITH \<and> P MEM \<and> P COMMUTABLE \<and> P CF \<and> P INPUT \<and> P SIDE_EFFECTS"
  by (intro iffI allI; (elim conjE)?) (simp_all add: InstrProp.induct [of P])

lemmas made_fields = FixedInputs_def InstructionBase_init_def all_props opcode_has_def memory_opcodes_def
  ARITHM_def SIDE_EFFECTS_ARITHM_def INPUT_SIDE_EFFECTS_def INPUT_MEM_def

lemma builder_call_made:
  assumes "builder_call f op ty ins" and "f g h = Ok (p, h')"
  shows "made_right op (ty h) ins g h p h'"
  using assms
  by cases (simp add: create_call_defs ctor_defs rbind_ASSERT ASSERT_Ok_iff del: rbind.simps,
      (elim conjE)?, erule create_right; simp add: made_fields)+

section \<open>The property\<close>

text \<open>
  C22. Every \<open>Create\<close> function that returns has made one instruction, at a new address, with the
  opcode, type and inputs of the call, with exactly the properties its opcode has wherever it is made,
  and with the next number of the builder; each input has gained one user for each time it is an
  input, every other object is as before, and the def-use edges are those of the inputs.
\<close>

theorem builder_creates:
  assumes "builder_call f op ty ins" and "f g h = Ok (p, h')"
  shows "i_opcode (h_i h' p) = op \<and> i_type (h_i h' p) = ty h \<and> i_inputs (h_i h' p) = ins
    \<and> (\<forall>prop. SatisfiesProperty prop (h_i h' p) \<longleftrightarrow> opcode_has op prop) \<and> linked_in g h p h'"
  using builder_call_made [OF assms] by (simp only: made_right_def simp_thms)

theorem builder_creates_witness:
  "\<exists>h'. CreateDIV T_I32 (Some 0) (Some 1) 0 sample_heap = Ok (8, h') \<and> i_users (h_i h' 1) = [8]
     \<and> SatisfiesProperty SIDE_EFFECTS (h_i h' 8) \<and> \<not> SatisfiesProperty COMMUTABLE (h_i h' 8)"
proof -
  obtain p h' where r: "CreateDIV T_I32 (Some 0) (Some 1) 0 sample_heap = Ok (p, h')"
    by (auto simp: CreateDIV_def CREATE_INST_WITH_PROP_def BinaryReg_ctor_def new_instr_Ok Let_def)
  note c = builder_creates [OF DIV r]
  then have p: "p = 8" by (simp add: linked_in_def sample_heap_def)
  moreover have "i_users (h_i h' 1) = [8]"
    using c p by (simp add: linked_in_def sample_heap_def InstructionBase_init_def)
  moreover have "SatisfiesProperty SIDE_EFFECTS (h_i h' 8)" "\<not> SatisfiesProperty COMMUTABLE (h_i h' 8)"
    using c p by (simp_all only: opcode_has_def InstrProp.case) simp_all
  ultimately show ?thesis using r by blast
qed

end
