(* ===== verification/JIT_CheckElim.thy ===== *)
theory JIT_CheckElim
  imports JIT_GraphChecker JIT_Peephole
begin

text \<open>
  Check elimination: \<open>optimization/CheckElimination.h\<close>, \<open>optimization/CheckElimination.cpp\<close>.  A check
  that an equal check of the same values dominates is unlinked.  Unlinking changes no user list, so
  the loops over the users run over the list as it is at the start.  The log messages are left out.
\<close>

section \<open>The pass\<close>

text \<open>A redundant user is removed from its block.\<close>

definition unlink_user :: "iptr \<Rightarrow> heap_step" where
  "unlink_user user h = deref (i_parent (h_i h user)) (\<lambda>b. UnlinkInstruction user b h)"

definition is_redundant :: "iptr \<Rightarrow> iptr \<Rightarrow> heap \<Rightarrow> (abort, bool) res" where
  "is_redundant check user h =
     (if user \<noteq> check \<and> i_opcode (h_i h user) = i_opcode (h_i h check)
      then Instruction_Dominates check user h else Ok False)"

definition singleInputCheckDominates :: "iptr \<Rightarrow> iptr \<Rightarrow> heap \<Rightarrow> (abort, bool \<times> heap) res" where
  "singleInputCheckDominates check checkedValue h =
     ASSERT (GetInputsCount (h_i h check) = 1)
       (for_each (\<lambda>user (removed, h).
          rbind (is_redundant check user h) (\<lambda>redundant.
          if redundant then rbind (unlink_user user h) (\<lambda>h. Ok (True, h)) else Ok (removed, h)))
          (i_users (h_i h checkedValue)) (False, h))"

definition boundsCheckDominates :: "iptr \<Rightarrow> iptr \<Rightarrow> iptr \<Rightarrow> heap \<Rightarrow> (abort, bool \<times> heap) res" where
  "boundsCheckDominates check ref idx h =
     ASSERT (GetInputsCount (h_i h check) = 2)
       (for_each (\<lambda>user (removed, h).
          rbind (is_redundant check user h) (\<lambda>redundant.
          if redundant then
            ASSERT (HasInputs (h_i h user))
              (rbind (GetInput 0 (h_i h user)) (\<lambda>input0.
               ASSERT (input0 = Some ref)
                 (rbind (GetInput 1 (h_i h user)) (\<lambda>input1.
                  if input1 = Some idx then rbind (unlink_user user h) (\<lambda>h. Ok (True, h))
                  else Ok (removed, h)))))
          else Ok (removed, h)))
          (i_users (h_i h ref)) (False, h))"

definition checked_input :: "nat \<Rightarrow> (OperandType \<Rightarrow> bool) \<Rightarrow> iptr \<Rightarrow> heap \<Rightarrow> (abort, iptr) res" where
  "checked_input i ok instr h =
     rbind (GetInput i (h_i h instr)) (\<lambda>input.
     case input of
       None \<Rightarrow> Err AssertionFail
     | Some p \<Rightarrow> ASSERT (ok (i_type (h_i h p))) (Ok p))"

definition tryRemoveCheck :: "iptr \<Rightarrow> heap \<Rightarrow> (abort, bool \<times> heap) res" where
  "tryRemoveCheck instr h =
     (let i = h_i h instr in
      if i_opcode i = Op_NULL_CHECK then
        ASSERT (HasInputs i) (ASSERT (GetInputsCount i = 1)
          (rbind (checked_input 0 (\<lambda>t. t = T_REF) instr h) (\<lambda>input. singleInputCheckDominates instr input h)))
      else if i_opcode i = Op_ZERO_CHECK \<or> i_opcode i = Op_NEGATIVE_CHECK then
        ASSERT (HasInputs i) (ASSERT (GetInputsCount i = 1)
          (rbind (checked_input 0 IsIntegerType instr h) (\<lambda>input. singleInputCheckDominates instr input h)))
      else if i_opcode i = Op_BOUNDS_CHECK then
        ASSERT (HasInputs i) (ASSERT (GetInputsCount i = 2)
          (rbind (checked_input 0 (\<lambda>t. t = T_REF) instr h) (\<lambda>ref.
           rbind (checked_input 1 IsIntegerType instr h) (\<lambda>idx.
           boundsCheckDominates instr ref idx h))))
      else Ok (False, h))"

definition CheckElimination_Run :: "gptr \<Rightarrow> heap \<Rightarrow> (abort, bool \<times> heap) res" where
  "CheckElimination_Run graph h =
     rbind (run_RPO graph h) (\<lambda>(_, h).
     rbind (run_DomTree graph h) (\<lambda>(_, h).
     rbind (GetRPO (h_g h graph)) (\<lambda>rpo.
     rbind
       (for_each (\<lambda>bblock (removed, h).
          iter_with (b_firstInst (h_b h bblock))
            (\<lambda>current (removed, h). rbind (tryRemoveCheck current h) (\<lambda>(r, h). Ok (removed \<or> r, h))) (removed, h))
          rpo (False, h)) (\<lambda>(removed, h).
     if removed then rbind (run_GraphChecker graph h) (\<lambda>(ok, h). ASSERT ok (Ok (True, h)))
     else Ok (False, h)))))"

end
