(* ===== verification/JIT_Compiler.thy ===== *)
theory JIT_Compiler
  imports JIT_Builder JIT_Graph
begin

text \<open>
  The compiler and copies of graphs: \<open>include/CompilerOptions.h\<close>, \<open>ir/Compiler.h\<close>,
  \<open>ir/Compiler.cpp\<close>, \<open>ir/GraphTranslationHelper.h\<close>, \<open>ir/GraphCopyHelper.cpp\<close> and
  \<open>BasicBlock::Copy\<close>.  A hash map is an association list with the pairs in the order of their
  insertion.  The builder of a graph is the counter of that graph; a graph that is created with the
  builder of another one takes over its counter and gives it back when the copy is complete.
  \<open>dfoCopy\<close> copies one more block on every call; \<open>depth\<close> bounds its nesting by the number of
  allocated blocks of the source.
\<close>

section \<open>The compiler\<close>

record CompilerOptions =
  MaxCalleeInstrs :: nat
  MaxInstrsAfterInlining :: nat

definition CompilerOptions_init :: CompilerOptions where
  "CompilerOptions_init = \<lparr>MaxCalleeInstrs = 25, MaxInstrsAfterInlining = 250\<rparr>"

text \<open>\<open>c_new_g\<close> is the next free address of a graph.\<close>

record Compiler =
  functionsGraphs :: "gptr list"
  options :: CompilerOptions
  c_new_g :: gptr

definition CreateNewGraph :: "Compiler \<times> heap \<Rightarrow> gptr \<times> Compiler \<times> heap" where
  "CreateNewGraph =
     (\<lambda>(c, h).
       let g = c_new_g c; n = length (functionsGraphs c) in
       (g, c\<lparr>functionsGraphs := functionsGraphs c @ [g], c_new_g := Suc g\<rparr>,
        upd_g g (\<lambda>_. Graph_init\<lparr>g_id := n\<rparr>) h))"

definition GetFunction :: "nat \<Rightarrow> Compiler \<Rightarrow> gptr option" where
  "GetFunction functionId c =
     (if functionId \<ge> length (functionsGraphs c) then None else Some (functionsGraphs c ! functionId))"

definition DeleteFunctionGraph :: "nat \<Rightarrow> Compiler \<Rightarrow> bool \<times> Compiler" where
  "DeleteFunctionGraph functionId c =
     (if functionId \<ge> length (functionsGraphs c) then (False, c)
      else (True, c\<lparr>functionsGraphs := take functionId (functionsGraphs c) @ drop (Suc functionId) (functionsGraphs c)\<rparr>))"

section \<open>The translation\<close>

record GraphTranslationHelper =
  origToCopy :: "(nat \<times> iptr) list"
  copyToOrig :: "(nat \<times> iptr) list"
  blocksToCopy :: "(nat \<times> bptr) list"

definition GraphTranslationHelper_init :: GraphTranslationHelper where
  "GraphTranslationHelper_init = \<lparr>origToCopy = [], copyToOrig = [], blocksToCopy = []\<rparr>"

definition Verify :: "nat \<Rightarrow> GraphTranslationHelper \<Rightarrow> bool" where
  "Verify instructionsCount t =
     (instructionsCount = length (origToCopy t) \<and> instructionsCount = length (copyToOrig t))"

definition InsertInstructionsPair ::
    "iptr \<Rightarrow> iptr \<Rightarrow> heap \<Rightarrow> GraphTranslationHelper \<Rightarrow> (abort, GraphTranslationHelper) res" where
  "InsertInstructionsPair origInstr copyInstr h t =
     (let o_id = i_id (h_i h origInstr); c_id = i_id (h_i h copyInstr) in
      ASSERT (map_of (origToCopy t) o_id = None)
        (ASSERT (map_of (copyToOrig t) c_id = None)
          (Ok (t\<lparr>origToCopy := origToCopy t @ [(o_id, copyInstr)],
                 copyToOrig := copyToOrig t @ [(c_id, origInstr)]\<rparr>))))"

definition translateImpl :: "(nat \<times> 'v) list \<Rightarrow> nat \<Rightarrow> (abort, 'v) res" where
  "translateImpl mapping key =
     (case map_of mapping key of None \<Rightarrow> Err AssertionFail | Some v \<Rightarrow> Ok v)"

definition ToCopy :: "iptr option \<Rightarrow> heap \<Rightarrow> GraphTranslationHelper \<Rightarrow> (abort, iptr) res" where
  "ToCopy origInstr h t =
     (case origInstr of None \<Rightarrow> Err AssertionFail | Some i \<Rightarrow> translateImpl (origToCopy t) (i_id (h_i h i)))"

definition ToOrig :: "iptr \<Rightarrow> heap \<Rightarrow> GraphTranslationHelper \<Rightarrow> (abort, iptr) res" where
  "ToOrig copyInstr h t = translateImpl (copyToOrig t) (i_id (h_i h copyInstr))"

definition ToCopy_block :: "bptr \<Rightarrow> heap \<Rightarrow> GraphTranslationHelper \<Rightarrow> (abort, bptr) res" where
  "ToCopy_block origBlock h t = translateImpl (blocksToCopy t) (b_id (h_b h origBlock))"

section \<open>Copies of blocks and graphs\<close>

type_synonym copy_state = "GraphTranslationHelper \<times> heap"

text \<open>A loop over the instructions of a block with a state.\<close>

definition iter_state ::
    "iptr option \<Rightarrow> (iptr \<Rightarrow> 's \<times> heap \<Rightarrow> (abort, 's \<times> heap) res) \<Rightarrow> 's \<times> heap \<Rightarrow> (abort, 's \<times> heap) res" where
  "iter_state start body st =
     rbind
       (while_do (\<lambda>(cur, s, h). cur \<noteq> None)
         (\<lambda>(cur, s, h). deref cur (\<lambda>c. rbind (body c (s, h)) (\<lambda>(s, h). Ok (i_next (h_i h c), s, h))))
         (start, st))
       (\<lambda>(cur, st). Ok st)"

definition copyInstruction :: "bptr \<Rightarrow> iptr \<Rightarrow> copy_state \<Rightarrow> (abort, copy_state) res" where
  "copyInstruction targetBlock orig =
     (\<lambda>(t, h).
       rbind (Copy orig targetBlock h) (\<lambda>(copy, h).
       rbind (PushBackInstruction copy targetBlock h) (\<lambda>h.
       rbind (InsertInstructionsPair orig copy h t) (\<lambda>t. Ok (t, h)))))"

definition BasicBlock_Copy :: "bptr \<Rightarrow> gptr \<Rightarrow> copy_state \<Rightarrow> (abort, bptr \<times> copy_state) res" where
  "BasicBlock_Copy this targetGraph =
     (\<lambda>(t, h).
       rbind (CreateEmptyBasicBlock False targetGraph h) (\<lambda>(result, h).
       if \<not> IsEmpty (h_b h this) then
         rbind (iter_state (block_begin this h) (copyInstruction result) (t, h)) (\<lambda>(t, h).
         ASSERT (b_firstInst (h_b h result) \<noteq> None) (ASSERT (b_lastInst (h_b h result) \<noteq> None) (Ok (result, t, h))))
       else Ok (result, t, h)))"

text \<open>The map \<open>visited\<close> of the helper is \<open>v\<close>.\<close>

fun dfoCopy ::
    "nat \<Rightarrow> gptr \<Rightarrow> gptr \<Rightarrow> bptr option \<Rightarrow> (nat \<times> bptr) list \<times> copy_state \<Rightarrow>
       (abort, (nat \<times> bptr) list \<times> copy_state) res" where
  "dfoCopy 0 source tgt currentBBlock st = UB"
| "dfoCopy (Suc depth) source tgt currentBBlock (v, t, h) =
     (case currentBBlock of
        None \<Rightarrow> Err AssertionFail
      | Some current \<Rightarrow>
          ASSERT (map_of v (b_id (h_b h current)) = None)
            (rbind (BasicBlock_Copy current tgt (t, h)) (\<lambda>(bblockCopy, t, h).
             let cid = b_id (h_b h current);
                 t = (if map_of (blocksToCopy t) cid = None
                      then t\<lparr>blocksToCopy := blocksToCopy t @ [(cid, bblockCopy)]\<rparr> else t);
                 h = (if Some current = g_firstBlock (h_g h source) then SetFirstBasicBlock (Some bblockCopy) tgt h else h);
                 h = (if Some current = g_lastBlock (h_g h source) then SetLastBasicBlock (Some bblockCopy) tgt h else h);
                 v = v @ [(cid, bblockCopy)] in
             for_each (\<lambda>succ (v, t, h).
               case map_of v (b_id (h_b h succ)) of
                 Some succCopy \<Rightarrow>
                   rbind (ConnectBasicBlocks bblockCopy succCopy tgt h) (\<lambda>h. Ok (v, t, h))
               | None \<Rightarrow>
                   rbind (dfoCopy depth source tgt (Some succ) (v, t, h)) (\<lambda>(v, t, h).
                   case map_of v (b_id (h_b h succ)) of
                     None \<Rightarrow> UB
                   | Some succCopy \<Rightarrow> rbind (ConnectBasicBlocks bblockCopy succCopy tgt h) (\<lambda>h. Ok (v, t, h))))
               (b_succs (h_b h current)) (v, t, h))))"

text \<open>The inputs of a copied instruction are the copies of the inputs of its original.\<close>

definition fix_inputs :: "GraphTranslationHelper \<Rightarrow> iptr \<Rightarrow> heap_step" where
  "fix_inputs t instr h =
     rbind (ToOrig instr h t) (\<lambda>origInstr.
     let inputs = [0..<GetInputsCount (h_i h origInstr)];
         input = (\<lambda>i h. rbind (GetInput i (h_i h origInstr)) (\<lambda>inp. ToCopy inp h t)) in
     if IsCall (h_i h origInstr) then
       ASSERT (IsCall (h_i h instr))
         (for_each (\<lambda>i h. rbind (input i h) (\<lambda>c. AddInput (Some c) instr h)) inputs h)
     else if IsPhi (h_i h origInstr) then
       ASSERT (IsPhi (h_i h instr))
         (for_each (\<lambda>i h. rbind (input i h) (\<lambda>c.
            rbind (GetSourceBasicBlock i (h_i h origInstr)) (\<lambda>s. rbind (ToCopy_block s h t) (\<lambda>s.
            AddPhiInput (Some c) s instr h)))) inputs h)
     else if HasInputs (h_i h origInstr) then
       ASSERT (HasInputs (h_i h instr))
         (for_each (\<lambda>i h. rbind (input i h) (\<lambda>c. SetInput (Some c) i instr h)) inputs h)
     else Ok h)"

definition fixDFG :: "gptr \<Rightarrow> GraphTranslationHelper \<Rightarrow> heap_step" where
  "fixDFG tgt t h =
     ASSERT (Verify (CountInstructions tgt h) t)
       (ForEachBasicBlock tgt (\<lambda>bblock h. iter_from (block_begin bblock h) (fix_inputs t) h) h)"

definition CreateCopy :: "gptr \<Rightarrow> gptr \<Rightarrow> heap_step" where
  "CreateCopy source copyTarget h =
     ASSERT (GetBasicBlocksCount (h_g h copyTarget) = 0)
       (rbind (dfoCopy (Suc (h_new_b h)) source copyTarget (g_firstBlock (h_g h source))
                ([], GraphTranslationHelper_init, h)) (\<lambda>(v, t, h).
        ASSERT (GetBasicBlocksCount (h_g h copyTarget) = GetBasicBlocksCount (h_g h source))
          (fixDFG copyTarget t h)))"

text \<open>\<open>CopyGraph(source, builder)\<close> with the builder of the graph \<open>builder\<close>.\<close>

definition CopyGraph :: "gptr \<Rightarrow> gptr \<Rightarrow> Compiler \<times> heap \<Rightarrow> (abort, gptr \<times> Compiler \<times> heap) res" where
  "CopyGraph source builder st =
     (let (copy, c, h) = CreateNewGraph st;
          h = upd_g copy (\<lambda>g. g\<lparr>g_currentId := g_currentId (h_g h builder)\<rparr>) h in
      rbind (CreateCopy source copy h) (\<lambda>h.
      Ok (copy, c, upd_g builder (\<lambda>g. g\<lparr>g_currentId := g_currentId (h_g h copy)\<rparr>) h)))"

end
