(* ===== verification/JIT_EmptyBlocks.thy ===== *)
theory JIT_EmptyBlocks
  imports JIT_CFG
begin

text \<open>
  Removal of empty blocks: \<open>optimization/EmptyBlocksRemoval.h\<close>,
  \<open>optimization/EmptyBlocksRemoval.cpp\<close>.  The predecessors of an empty block are connected to its
  only successor; without a successor the branch to the block is removed.  The log message is left
  out.
\<close>

section \<open>The pass\<close>

text \<open>The successor loses the block as a predecessor, and its PHI instructions get the new source.\<close>

definition detach_successor :: "bptr \<Rightarrow> bptr \<Rightarrow> heap_step" where
  "detach_successor bblock successorToSet h =
     rbind (on_block successorToSet (RemovePredecessor bblock) h) (\<lambda>h.
     if b_firstPhi (h_b h successorToSet) \<noteq> None then
       ASSERT (length (b_preds (h_b h bblock)) = 1)
         (iter_phi successorToSet
            (\<lambda>phi. on_instr phi (ReplaceSourceBasicBlock bblock (b_preds (h_b h bblock) ! 0))) h)
     else Ok h)"

definition relink_pred :: "bptr \<Rightarrow> bptr option \<Rightarrow> bptr \<Rightarrow> heap_step" where
  "relink_pred bblock successorToSet pred h =
     (let succs = b_succs (h_b h pred) in
      ASSERT (succs \<noteq> [] \<and> length succs \<le> 2)
        (case successorToSet of
           None \<Rightarrow>
             rbind
               (if length succs = 2 then
                  (case b_lastInst (h_b h pred) of
                     None \<Rightarrow> Err AssertionFail
                   | Some jcmp \<Rightarrow>
                       ASSERT (IsBranch (h_i h jcmp))
                         (case i_prev (h_i h jcmp) of
                            None \<Rightarrow> Err AssertionFail
                          | Some cmp \<Rightarrow>
                              ASSERT (i_opcode (h_i h cmp) = Op_CMP)
                                (rbind (UnlinkInstruction jcmp pred h) (UnlinkInstruction cmp pred))))
                else Ok h)
               (on_block pred (RemoveSuccessor bblock))
         | Some s \<Rightarrow>
             rbind (on_block s (AddPredecessor pred) h) (on_block pred (ReplaceSuccessor bblock s))))"

definition RemoveIfEmpty :: "bptr \<Rightarrow> heap \<Rightarrow> (abort, bool \<times> heap) res" where
  "RemoveIfEmpty bblock h =
     rbind (if \<not> IsEmpty (h_b h bblock) then Ok True
            else rbind (IsFirstInGraph bblock h) (\<lambda>isFirst. if isFirst then Ok True else IsLastInGraph bblock h)) (\<lambda>keep.
     if keep then Ok (False, h)
     else
       rbind
         (if b_succs (h_b h bblock) = [] then Ok (None, h)
          else ASSERT (length (b_succs (h_b h bblock)) = 1)
            (let s = b_succs (h_b h bblock) ! 0 in
             rbind (detach_successor bblock s h) (\<lambda>h. Ok (Some s, h)))) (\<lambda>(successorToSet, h).
       rbind (for_each (relink_pred bblock successorToSet) (b_preds (h_b h bblock)) h) (\<lambda>h.
       let h = upd_b bblock (\<lambda>b. b\<lparr>b_preds := [], b_succs := []\<rparr>) h in
       deref (b_graph (h_b h bblock)) (\<lambda>g.
         rbind (UnlinkBasicBlock bblock g h) (\<lambda>h. Ok (True, h))))))"

definition EmptyBlocksRemoval_Run :: "gptr \<Rightarrow> heap \<Rightarrow> (abort, bool \<times> heap) res" where
  "EmptyBlocksRemoval_Run graph h =
     rbind
       (for_each (\<lambda>bblock (wasRemoved, h).
          rbind (RemoveIfEmpty bblock h) (\<lambda>(removed, h). Ok (wasRemoved \<or> removed, h)))
         (non_null (g_bblocks (h_g h graph))) (False, h)) (\<lambda>(wasRemoved, h).
     if wasRemoved then Ok (True, PassManager_SetInvalid [DOM_TREE, LOOP_ANALYSIS, RPO] graph h)
     else Ok (False, h))"

end
