(* ===== verification/JIT_Inlining.thy ===== *)
theory JIT_Inlining
  imports JIT_Compiler JIT_EmptyBlocks JIT_GraphChecker
begin

text \<open>
  Inlining of calls: \<open>optimization/Inlining.h\<close>, \<open>optimization/Inlining.cpp\<close>.  The callee is copied,
  its arguments and its return value are connected to the caller's instructions, and its blocks are
  put between the halves of the block with the call.  The copy shares the builder of the caller, so
  the instructions created for it count in the caller.  The log messages are left out.
\<close>

section \<open>Feasibility\<close>

definition InliningPass_ctor :: "Compiler \<Rightarrow> (abort, nat \<times> nat) res" where
  "InliningPass_ctor c =
     (let maxCalleeInstrs = MaxCalleeInstrs (options c);
          maxInstrsAfterInlining = MaxInstrsAfterInlining (options c) in
      ASSERT (maxCalleeInstrs < maxInstrsAfterInlining) (Ok (maxCalleeInstrs, maxInstrsAfterInlining)))"

definition canInlineFunction ::
    "nat \<times> nat \<Rightarrow> gptr \<Rightarrow> iptr \<Rightarrow> nat \<Rightarrow> Compiler \<Rightarrow> heap \<Rightarrow> gptr option" where
  "canInlineFunction limits graph call callerInstrsCount c h =
     (case GetFunction (i_callTarget (h_i h call)) c of
        None \<Rightarrow> None
      | Some callee \<Rightarrow>
          let instrsCount = (if callee \<noteq> graph then CountInstructions callee h else callerInstrsCount) in
          if instrsCount \<ge> fst limits then None
          else if callerInstrsCount + instrsCount \<ge> snd limits then None
          else Some callee)"

section \<open>Data flow\<close>

definition propagateArguments :: "iptr \<Rightarrow> gptr \<Rightarrow> heap_step" where
  "propagateArguments call callee h =
     (case g_firstBlock (h_g h callee) of
        None \<Rightarrow> Err AssertionFail
      | Some bblock \<Rightarrow>
          rbind
            (for_each (\<lambda>arg (argInstr, h).
               case argInstr of
                 None \<Rightarrow> Err AssertionFail
               | Some a \<Rightarrow>
                   ASSERT (i_opcode (h_i h a) = Op_ARG)
                     (let nextInstr = i_next (h_i h a) in
                      rbind (ReplaceInputInUsers arg a h) (\<lambda>h. Ok (nextInstr, h))))
               (i_inputs (h_i h call)) (b_firstInst (h_b h bblock), h)) (\<lambda>(_, h). Ok h))"

definition removeVoidReturns :: "gptr \<Rightarrow> heap_step" where
  "removeVoidReturns callee h =
     deref (g_lastBlock (h_g h callee)) (\<lambda>lastBlock.
       for_each (\<lambda>bblock h. deref (b_lastInst (h_b h bblock)) (\<lambda>lastInstr.
         ASSERT (i_opcode (h_i h lastInstr) = Op_RETVOID) (UnlinkInstruction lastInstr bblock h)))
         (b_preds (h_b h lastBlock)) h)"

text \<open>The return instruction at the end of a block.\<close>

definition return_of :: "bptr \<Rightarrow> heap \<Rightarrow> (abort, iptr) res" where
  "return_of pred h =
     (case b_lastInst (h_b h pred) of
        None \<Rightarrow> Err AssertionFail
      | Some instr \<Rightarrow> ASSERT (i_opcode (h_i h instr) = Op_RET) (Ok instr))"

definition propagateReturnValue :: "iptr \<Rightarrow> gptr \<Rightarrow> bptr \<Rightarrow> gptr \<Rightarrow> heap_step" where
  "propagateReturnValue call callee postCallBlock graph h =
     (case g_lastBlock (h_g h callee) of
        None \<Rightarrow> Err AssertionFail
      | Some lastBlock \<Rightarrow>
          ASSERT (b_preds (h_b h lastBlock) \<noteq> [])
            (if i_type (h_i h call) = T_VOID then removeVoidReturns callee h
             else
               (let lastBlockPreds = b_preds (h_b h lastBlock) in
                rbind
                  (if length lastBlockPreds > 1 then
                     rbind (CreatePHI (i_type (h_i h call)) graph h) (\<lambda>(phi, h).
                     rbind
                       (for_each (\<lambda>pred h.
                          rbind (return_of pred h) (\<lambda>retInstr.
                          rbind (GetInput 0 (h_i h retInstr)) (\<lambda>phiInput.
                          rbind (AddPhiInput phiInput pred phi h) (\<lambda>h.
                          rbind (deref phiInput (\<lambda>p. on_instr p (RemoveUser retInstr) h)) (\<lambda>h.
                          UnlinkInstruction retInstr pred h))))) lastBlockPreds h) (\<lambda>h.
                     rbind (PushForwardInstruction phi postCallBlock h) (\<lambda>h. Ok (Some phi, h))))
                   else
                     ASSERT (length lastBlockPreds = 1)
                       (let pred = lastBlockPreds ! 0 in
                        rbind (return_of pred h) (\<lambda>retInstr.
                        rbind (GetInput 0 (h_i h retInstr)) (\<lambda>input.
                        rbind (deref input (\<lambda>p. on_instr p (RemoveUser retInstr) h)) (\<lambda>h.
                        rbind (UnlinkInstruction retInstr pred h) (\<lambda>h. Ok (input, h)))))))
                  (\<lambda>(newInputForUsers, h). ReplaceInputInUsers newInputForUsers call h))))"

section \<open>Control flow\<close>

definition moveConstants :: "gptr \<Rightarrow> gptr \<Rightarrow> heap_step" where
  "moveConstants callee graph h =
     (case g_firstBlock (h_g h callee) of
        None \<Rightarrow> Err AssertionFail
      | Some calleeFirst \<Rightarrow>
          case g_firstBlock (h_g h graph) of
            None \<Rightarrow> Err AssertionFail
          | Some firstBlock \<Rightarrow>
              rbind
                (while_do (\<lambda>(instr, h). case instr of None \<Rightarrow> False | Some i \<Rightarrow> IsConst (h_i h i))
                  (\<lambda>(instr, h). deref instr (\<lambda>i.
                     let prev = i_prev (h_i h i) in
                     rbind (MoveConstantUnsafe i firstBlock h) (\<lambda>h. Ok (prev, h))))
                  (b_lastInst (h_b h calleeFirst), h)) (\<lambda>(_, h). Ok h))"

definition removeFirstBlock :: "gptr \<Rightarrow> heap_step" where
  "removeFirstBlock callee h =
     (case g_firstBlock (h_g h callee) of
        None \<Rightarrow> Err AssertionFail
      | Some calleeFirstBlock \<Rightarrow>
          let succs = b_succs (h_b h calleeFirstBlock) in
          ASSERT (length succs = 1)
            (rbind (UnlinkBasicBlock calleeFirstBlock callee h) (\<lambda>h.
             let h = SetFirstBasicBlock (Some (succs ! 0)) callee h in
             Ok (upd_b (succs ! 0) (\<lambda>b. b\<lparr>b_preds := []\<rparr>) h))))"

definition relinkBasicBlocks :: "gptr \<Rightarrow> gptr \<Rightarrow> heap_step" where
  "relinkBasicBlocks callerGraph calleeGraph h =
     ForEachBasicBlock calleeGraph (\<lambda>bblock h.
       rbind (IsLastInGraph bblock h) (\<lambda>isLast.
       Ok (if \<not> isLast then AddBasicBlock bblock callerGraph h else h))) h"

definition inlineReadyGraph :: "gptr \<Rightarrow> bptr \<Rightarrow> bptr \<Rightarrow> gptr \<Rightarrow> heap_step" where
  "inlineReadyGraph callee callBlock postCallBlock graph h =
     rbind (moveConstants callee graph h) (\<lambda>h.
     rbind (removeFirstBlock callee h) (\<lambda>h.
     deref (b_graph (h_b h callBlock)) (\<lambda>callerGraph.
     rbind (relinkBasicBlocks callerGraph callee h) (\<lambda>h.
     deref (g_firstBlock (h_g h callee)) (\<lambda>calleeFirst.
     rbind (ConnectBasicBlocks callBlock calleeFirst graph h) (\<lambda>h.
     case g_lastBlock (h_g h callee) of
       None \<Rightarrow> Err AssertionFail
     | Some lastBlock \<Rightarrow>
         ASSERT (IsEmpty (h_b h lastBlock) \<and> b_preds (h_b h lastBlock) \<noteq> [])
           (for_each (\<lambda>prevLast h.
              rbind (on_block prevLast (ReplaceSuccessor lastBlock postCallBlock) h) (\<lambda>h.
              on_block postCallBlock (AddPredecessor prevLast) h)) (b_preds (h_b h lastBlock)) h))))))) "

definition doInlining :: "iptr \<Rightarrow> gptr \<Rightarrow> gptr \<Rightarrow> heap_step" where
  "doInlining call callee graph h =
     rbind (SetMarkerIndex (currentIndex (g_markers (h_g h callee))) (g_markers (h_g h graph))) (\<lambda>m.
     let h = upd_g graph (\<lambda>g. g\<lparr>g_markers := m\<rparr>) h in
     deref (i_parent (h_i h call)) (\<lambda>callBlock.
       rbind (SplitAfterInstruction call False callBlock h) (\<lambda>(postCallBlock, h).
       rbind (propagateArguments call callee h) (\<lambda>h.
       rbind (propagateReturnValue call callee postCallBlock graph h) (\<lambda>h.
       rbind (RemoveUserFromInputs call h) (\<lambda>h.
       rbind (UnlinkInstruction call callBlock h) (\<lambda>h.
       inlineReadyGraph callee callBlock postCallBlock graph h)))))))"

definition postInlining :: "gptr \<Rightarrow> heap_step" where
  "postInlining graph h =
     rbind (run_GraphChecker graph h) (\<lambda>(ok, h).
     ASSERT ok
       (let h = PassManager_SetInvalid [DOM_TREE, LOOP_ANALYSIS, RPO] graph h in
        rbind (PassManager_Run None (EmptyBlocksRemoval_Run graph) graph h) (\<lambda>(_, h).
        rbind (run_GraphChecker graph h) (\<lambda>(ok, h). ASSERT ok (Ok h)))))"

section \<open>The pass\<close>

type_synonym inline_state = "(nat \<times> bool \<times> Compiler) \<times> heap"

definition inline_instr :: "nat \<times> nat \<Rightarrow> gptr \<Rightarrow> iptr \<Rightarrow> inline_state \<Rightarrow> (abort, inline_state) res" where
  "inline_instr limits graph instr =
     (\<lambda>((count, inlined, c), h).
       if \<not> IsCall (h_i h instr) then Ok ((count, inlined, c), h)
       else
         (case canInlineFunction limits graph instr count c h of
            None \<Rightarrow> Ok ((count, inlined, c), h)
          | Some calleeGraph \<Rightarrow>
              rbind (CopyGraph calleeGraph graph (c, h)) (\<lambda>(copyGraph, c, h).
              rbind (doInlining instr copyGraph graph h) (\<lambda>h.
              rbind (postInlining graph h) (\<lambda>h.
              Ok ((CountInstructions graph h, True, c), h))))))"

definition Inlining_Run :: "gptr \<Rightarrow> Compiler \<times> heap \<Rightarrow> (abort, bool \<times> Compiler \<times> heap) res" where
  "Inlining_Run graph =
     (\<lambda>(c, h).
       rbind (InliningPass_ctor c) (\<lambda>limits.
       rbind (run_RPO graph h) (\<lambda>(_, h).
       let instructions_count = CountInstructions graph h in
       if instructions_count \<ge> snd limits then Ok (False, c, h)
       else
         rbind (GetRPO (h_g h graph)) (\<lambda>rpo.
         rbind
           (for_each (\<lambda>bblock (s, h). iter_state (block_begin bblock h) (inline_instr limits graph) (s, h))
             rpo ((instructions_count, False, c), h)) (\<lambda>((_, inlined, c), h).
         Ok (inlined, c, h))))))"

end
