(* ===== verification/JIT_Liveness.thy ===== *)
theory JIT_Liveness
  imports JIT_LinearOrdering JIT_Peephole
begin

text \<open>
  The liveness analyzer: \<open>analysis/LivenessAnalyzer.h\<close>, \<open>analysis/LivenessAnalyzer.cpp\<close>, and the
  intervals of a graph (\<open>class LiveIntervals\<close> of \<open>ir/LiveAnalysisStructs.h\<close>), which are found by the
  linear number of their instruction.  The blocks are walked from the last one to the first.  A live
  set is an unordered set; the loop over it extends one interval for every element, and the intervals
  are different, so the order does not matter and the model takes the ascending one.
\<close>

section \<open>The intervals of a graph\<close>

definition AddLiveInterval :: "nat \<Rightarrow> iptr \<Rightarrow> gptr \<Rightarrow> heap \<Rightarrow> (abort, nat \<times> heap) res" where
  "AddLiveInterval liveNum instr graph h =
     (let n = length (g_liveIntervals (h_g h graph));
          h = upd_i instr (\<lambda>i. i\<lparr>i_linearNumber := n\<rparr>) h in
      deref (i_parent (h_i h instr)) (\<lambda>b. deref (b_graph (h_b h b)) (\<lambda>_.
        Ok (n, upd_g graph (\<lambda>g. g\<lparr>g_liveIntervals := g_liveIntervals g @ [LiveInterval_ctor liveNum (Some instr)]\<rparr>) h))))"

text \<open>The result is the index of the interval.\<close>

definition GetLiveIntervals :: "iptr option \<Rightarrow> gptr \<Rightarrow> heap \<Rightarrow> (abort, nat) res" where
  "GetLiveIntervals instr graph h =
     (case instr of
        None \<Rightarrow> Err AssertionFail
      | Some i \<Rightarrow>
          let n = i_linearNumber (h_i h i) in
          ASSERT (n < length (g_liveIntervals (h_g h graph)))
            (ASSERT (v_instr (g_liveIntervals (h_g h graph) ! n) = Some i) (Ok n)))"

definition Clear :: "gptr \<Rightarrow> heap \<Rightarrow> heap" where
  "Clear graph = upd_g graph (\<lambda>g. g\<lparr>g_liveIntervals := []\<rparr>)"

definition on_interval :: "nat \<Rightarrow> (LiveInterval \<Rightarrow> (abort, LiveInterval) res) \<Rightarrow> gptr \<Rightarrow> heap_step" where
  "on_interval n f graph h =
     rbind (f (g_liveIntervals (h_g h graph) ! n)) (\<lambda>v.
     Ok (upd_g graph (\<lambda>g. g\<lparr>g_liveIntervals := (g_liveIntervals g)[n := v]\<rparr>) h))"

section \<open>The analyzer\<close>

record LivenessAnalyzer =
  linearOrderedBlocks :: "BlockInfo list"
  la_rangeBegin :: nat

type_synonym live_state = "LivenessAnalyzer \<times> heap"

definition getBlockInfo :: "bptr \<Rightarrow> live_state \<Rightarrow> (abort, BlockInfo) res" where
  "getBlockInfo bblock =
     (\<lambda>(a, h). ASSERT (b_id (h_b h bblock) < length (linearOrderedBlocks a))
        (Ok (linearOrderedBlocks a ! b_id (h_b h bblock))))"

definition orderInstructions :: "bptr \<Rightarrow> nat \<Rightarrow> gptr \<Rightarrow> heap \<Rightarrow> (abort, nat \<times> heap) res" where
  "orderInstructions bblock rangeBegin graph h =
     rbind (iter_phi bblock (\<lambda>instr h. rbind (AddLiveInterval rangeBegin instr graph h) (\<lambda>(_, h). Ok h)) h) (\<lambda>h.
     rbind
       (iter_with (b_firstInst (h_b h bblock))
          (\<lambda>instr (range, h).
             let range = range + LIVE_RANGE_STEP in
             rbind (AddLiveInterval range instr graph h) (\<lambda>(_, h). Ok (range, h)))
          (rangeBegin, h)) (\<lambda>(range, h).
     Ok (range + LIVE_RANGE_STEP, h)))"

definition initBlocksInfo :: "gptr \<Rightarrow> live_state \<Rightarrow> (abort, live_state) res" where
  "initBlocksInfo graph =
     (\<lambda>(a, h).
       rbind
         (for_each (\<lambda>b (a, h).
            rbind (orderInstructions b (la_rangeBegin a) graph h) (\<lambda>(rangeEnd, h).
            rbind (LiveRange_ctor (la_rangeBegin a) rangeEnd) (\<lambda>r.
            Ok (a\<lparr>linearOrderedBlocks := linearOrderedBlocks a @ [\<lparr>bi_liveRange = r, bi_liveIn = {}\<rparr>],
                  la_rangeBegin := rangeEnd\<rparr>, h))))
            (non_null (g_bblocks (h_g h graph))) (a, h)) (\<lambda>(a, h).
       ASSERT (length (linearOrderedBlocks a) = GetBasicBlocksCount (h_g h graph)) (Ok (a, h))))"

text \<open>The inputs of the PHI instructions of \<open>succ\<close> on the edge from \<open>bblock\<close>.\<close>

definition phi_inputs :: "bptr \<Rightarrow> bptr \<Rightarrow> LiveSet \<Rightarrow> heap \<Rightarrow> (abort, LiveSet) res" where
  "phi_inputs bblock succ liveSet h =
     rbind
       (while_do (\<lambda>(phi, s). phi \<noteq> None)
         (\<lambda>(phi, s). deref phi (\<lambda>p.
            rbind (ResolveInput bblock (h_i h p)) (\<lambda>input.
            case input of
              None \<Rightarrow> Err AssertionFail
            | Some i \<Rightarrow> Ok (next_phi p h, LiveSet_Add i s))))
         (b_firstPhi (h_b h succ), liveSet)) (\<lambda>(phi, s). Ok s)"

definition calculateInitialLiveSet :: "bptr \<Rightarrow> LiveSet \<Rightarrow> live_state \<Rightarrow> (abort, LiveSet) res" where
  "calculateInitialLiveSet bblock liveSet =
     (\<lambda>(a, h).
       for_each (\<lambda>succ s.
         rbind (getBlockInfo succ (a, h)) (\<lambda>info. phi_inputs bblock succ (LiveSet_Union (bi_liveIn info) s) h))
         (b_succs (h_b h bblock)) liveSet)"

text \<open>One instruction of the backward walk.\<close>

definition live_inputs :: "iptr \<Rightarrow> nat \<Rightarrow> nat \<Rightarrow> gptr \<Rightarrow> LiveSet \<times> heap \<Rightarrow> (abort, LiveSet \<times> heap) res" where
  "live_inputs instr blockRangeBegin liveNumber graph =
     (\<lambda>(liveSet, h).
       for_each (\<lambda>i (liveSet, h).
         rbind (GetInput i (h_i h instr)) (\<lambda>input.
         case input of
           None \<Rightarrow> Err AssertionFail
         | Some p \<Rightarrow>
             rbind (GetLiveIntervals (Some p) graph h) (\<lambda>n.
             rbind (on_interval n (AddRange_bounds blockRangeBegin liveNumber) graph h) (\<lambda>h.
             Ok (LiveSet_Add p liveSet, h)))))
         [0..<GetInputsCount (h_i h instr)] (liveSet, h))"

definition live_instr :: "nat \<Rightarrow> gptr \<Rightarrow> iptr \<Rightarrow> LiveSet \<times> heap \<Rightarrow> (abort, LiveSet \<times> heap) res" where
  "live_instr blockRangeBegin graph instr =
     (\<lambda>(liveSet, h).
       rbind (GetLiveIntervals (Some instr) graph h) (\<lambda>n.
       let liveNumber = v_liveNumber (g_liveIntervals (h_g h graph) ! n) in
       rbind (on_interval n (Interval_SetBegin liveNumber) graph h) (\<lambda>h.
       let liveSet = snd (LiveSet_Remove instr liveSet) in
       if \<not> HasInputs (h_i h instr) then Ok (liveSet, h)
       else live_inputs instr blockRangeBegin liveNumber graph (liveSet, h))))"

definition calculateLiveRanges :: "gptr \<Rightarrow> nat \<Rightarrow> live_state \<Rightarrow> (abort, live_state) res" where
  "calculateLiveRanges graph bid =
     (\<lambda>(a, h).
       rbind (FindBasicBlock bid (h_g h graph)) (\<lambda>found.
       case found of
         None \<Rightarrow> Err AssertionFail
       | Some bblock \<Rightarrow>
           let info = linearOrderedBlocks a ! bid; blockRange = bi_liveRange info in
           rbind (calculateInitialLiveSet bblock (bi_liveIn info) (a, h)) (\<lambda>liveSet.
           rbind
             (for_each (\<lambda>instr h. rbind (GetLiveIntervals (Some instr) graph h) (\<lambda>n. on_interval n (AddRange blockRange) graph h))
               (sorted_list_of_set liveSet) h) (\<lambda>h.
           rbind
             (while_do (\<lambda>(instr, liveSet, h). case instr of None \<Rightarrow> False | Some i \<Rightarrow> \<not> IsPhi (h_i h i))
               (\<lambda>(instr, liveSet, h). deref instr (\<lambda>i.
                  rbind (live_instr (r_begin blockRange) graph i (liveSet, h)) (\<lambda>(liveSet, h).
                  Ok (i_prev (h_i h i), liveSet, h))))
               (b_lastInst (h_b h bblock), liveSet, h)) (\<lambda>(instr, liveSet, h).
           rbind
             (while_do (\<lambda>(phi, s). phi \<noteq> None)
               (\<lambda>(phi, s). deref phi (\<lambda>p. Ok (next_phi p h, snd (LiveSet_Remove p s))))
               (b_firstPhi (h_b h bblock), liveSet)) (\<lambda>(_, liveSet).
           Ok (a\<lparr>linearOrderedBlocks := (linearOrderedBlocks a)[bid := info\<lparr>bi_liveIn := liveSet\<rparr>]\<rparr>, h)))))))"

definition LivenessAnalyzer_Run :: "gptr \<Rightarrow> heap \<Rightarrow> (abort, bool \<times> heap) res" where
  "LivenessAnalyzer_Run graph h =
     rbind (run_LoopAnalyzer graph h) (\<lambda>(_, h).
     rbind (run_LinearOrdering graph h) (\<lambda>(_, h).
     let h = Clear graph h in
     rbind (initBlocksInfo graph (\<lparr>linearOrderedBlocks = [], la_rangeBegin = 0\<rparr>, h)) (\<lambda>(a, h).
     rbind (for_each (calculateLiveRanges graph) (rev [0..<length (linearOrderedBlocks a)]) (a, h)) (\<lambda>(a, h).
     Ok (True, h)))))"

definition run_LivenessAnalyzer :: "gptr \<Rightarrow> heap \<Rightarrow> (abort, bool \<times> heap) res" where
  "run_LivenessAnalyzer graph = PassManager_Run None (LivenessAnalyzer_Run graph) graph"

end
