(* ===== verification/JIT_RegAllocPhi.thy ===== *)
theory JIT_RegAllocPhi
  imports JIT_Liveness JIT_RegAlloc
begin

text \<open>
  The rest of the linear scan allocator (\<open>codegen/LinearScanRegAlloc.cpp\<close>): moves for the inputs of
  PHI instructions that ended up in other locations, critical edges, and the checker
  (\<open>codegen/RegAllocChecker.cpp\<close>).  These definitions are those of the debug build.
\<close>

definition isCriticalEdge :: "bptr \<Rightarrow> bptr \<Rightarrow> heap \<Rightarrow> bool" where
  "isCriticalEdge bblock pred h = (length (b_preds (h_b h bblock)) > 1 \<and> length (b_succs (h_b h pred)) > 1)"

definition breakCriticalEdge :: "bptr \<Rightarrow> bptr \<Rightarrow> gptr \<Rightarrow> heap \<Rightarrow> (abort, bptr \<times> heap) res" where
  "breakCriticalEdge bblock pred graph h =
     rbind (CreateEmptyBasicBlock False graph h) (\<lambda>(newBlock, h).
     rbind (InsertBetween newBlock pred bblock h) (\<lambda>h.
     deref (b_loop (h_b h pred)) (\<lambda>loop.
       rbind (Loop_AddBasicBlock newBlock loop h) (\<lambda>h. Ok (newBlock, h)))))"

type_synonym phi_state = "bptr option \<times> bool \<times> heap"

text \<open>One PHI instruction: \<open>insertInto\<close> is the block for the moves on the edge from \<open>pred\<close>.\<close>

definition insert_block :: "bptr \<Rightarrow> bptr \<Rightarrow> gptr \<Rightarrow> phi_state \<Rightarrow> (abort, bptr \<times> bool \<times> heap) res" where
  "insert_block bblock pred graph =
     (\<lambda>(insertInto, insertedNew, h).
       case insertInto of
         None \<Rightarrow> rbind (breakCriticalEdge bblock pred graph h) (\<lambda>(b, h). Ok (b, True, h))
       | Some b \<Rightarrow> Ok (b, insertedNew, h))"

definition resolve_phi :: "bptr \<Rightarrow> bptr \<Rightarrow> gptr \<Rightarrow> iptr \<Rightarrow> phi_state \<Rightarrow> (abort, phi_state) res" where
  "resolve_phi bblock pred graph phi =
     (\<lambda>(insertInto, insertedNew, h).
       rbind (GetLiveIntervals (Some phi) graph h) (\<lambda>phiInfo.
       let idx = IndexOf pred (h_i h phi) in
       rbind (GetInput idx (h_i h phi)) (\<lambda>input.
       rbind (GetLiveIntervals input graph h) (\<lambda>inputInfo.
       let ivs = g_liveIntervals (h_g h graph); loc = v_loc (ivs ! phiInfo) in
       if v_loc (ivs ! inputInfo) = loc then Ok (insertInto, insertedNew, h)
       else
         rbind (CreateMOVE input graph h) (\<lambda>(move, h).
         rbind (insert_block bblock pred graph (insertInto, insertedNew, h)) (\<lambda>(b, insertedNew, h).
         rbind (PushBackInstruction move b h) (\<lambda>h.
         rbind (SetInput (Some move) idx phi h) (\<lambda>h.
         rbind (deref input (\<lambda>p. on_instr p (RemoveUser phi) h)) (\<lambda>h.
         rbind (AddLiveInterval INVALID_RANGE move graph h) (\<lambda>(liveInt, h).
         rbind (on_interval liveInt (\<lambda>v. Ok (SetLocation loc v)) graph h) (\<lambda>h.
         Ok (Some b, insertedNew, h))))))))))))"

text \<open>The loop over the PHI instructions of \<open>bblock\<close> with a state.\<close>

definition iter_phi_with ::
    "bptr \<Rightarrow> (iptr \<Rightarrow> phi_state \<Rightarrow> (abort, phi_state) res) \<Rightarrow> phi_state \<Rightarrow> (abort, phi_state) res" where
  "iter_phi_with this body st =
     rbind
       (while_do (\<lambda>(cur, st). cur \<noteq> None)
         (\<lambda>(cur, st). deref cur (\<lambda>c. rbind (body c st) (\<lambda>(i, n, h). Ok (next_phi c h, i, n, h))))
         (b_firstPhi (h_b (snd (snd st)) this), st)) (\<lambda>(cur, st). Ok st)"

text \<open>The loop over the predecessors reads the vector, in which an edge split replaces an element.\<close>

definition resolvePhis :: "bptr \<Rightarrow> gptr \<Rightarrow> heap \<Rightarrow> (abort, bool \<times> heap) res" where
  "resolvePhis bblock graph h =
     ASSERT (b_firstPhi (h_b h bblock) \<noteq> None \<and> length (b_preds (h_b h bblock)) > 1)
       (for_each (\<lambda>i (insertedNew, h).
          let pred = b_preds (h_b h bblock) ! i;
              insertInto = (if isCriticalEdge bblock pred h then None else Some pred) in
          rbind (iter_phi_with bblock (resolve_phi bblock pred graph) (insertInto, insertedNew, h)) (\<lambda>(_, insertedNew, h).
          Ok (insertedNew, h)))
          [0..<length (b_preds (h_b h bblock))] (False, h))"

text \<open>
  Splitting an edge appends a block to the vector that \<open>fixPhis\<close> iterates over, which invalidates the
  end iterator of the loop; going on with the loop is undefined.
\<close>

definition fixPhis :: "gptr \<Rightarrow> heap \<Rightarrow> (abort, bool \<times> heap) res" where
  "fixPhis graph h =
     for_each (\<lambda>b (insertedNew, h).
       if b_firstPhi (h_b h b) \<noteq> None then
         rbind (resolvePhis b graph h) (\<lambda>(r, h). if r then UB else Ok (insertedNew \<or> r, h))
       else Ok (insertedNew, h))
       (non_null (g_bblocks (h_g h graph))) (False, h)"

section \<open>The checker\<close>

definition verifyPhiInputs :: "iptr \<Rightarrow> heap \<Rightarrow> (abort, unit) res" where
  "verifyPhiInputs phi h =
     deref (i_parent (h_i h phi)) (\<lambda>b. deref (b_graph (h_b h b)) (\<lambda>g.
       rbind (VerifyPhiBasicBlocks phi h) (\<lambda>_.
       rbind (GetLiveIntervals (Some phi) g h) (\<lambda>n.
       let loc = v_loc (g_liveIntervals (h_g h g) ! n) in
       for_each (\<lambda>i _.
         rbind (GetInput i (h_i h phi)) (\<lambda>input.
         rbind (GetLiveIntervals input g h) (\<lambda>m.
         ASSERT (v_loc (g_liveIntervals (h_g h g) ! m) = loc) (Ok ()))))
         [0..<GetInputsCount (h_i h phi)] ()))))"

definition RegAllocChecker_Run :: "gptr \<Rightarrow> heap \<Rightarrow> (abort, bool) res" where
  "RegAllocChecker_Run graph h =
     rbind
       (for_each (\<lambda>b _.
          rbind
            (while_do (\<lambda>(phi, u). phi \<noteq> None)
              (\<lambda>(phi, u). deref phi (\<lambda>p. rbind (verifyPhiInputs p h) (\<lambda>_. Ok (next_phi p h, ()))))
              (b_firstPhi (h_b h b), ())) (\<lambda>_. Ok ()))
          (non_null (g_bblocks (h_g h graph))) ()) (\<lambda>_. Ok True)"

section \<open>The pass\<close>

text \<open>
  \<open>regsCount\<close> is the number of registers of the architecture; the scan works on the intervals of the
  graph.
\<close>

definition LinearScanRegAlloc_Run :: "nat \<Rightarrow> gptr \<Rightarrow> heap \<Rightarrow> (abort, bool \<times> heap) res" where
  "LinearScanRegAlloc_Run regsCount graph h =
     rbind (run_LivenessAnalyzer graph h) (\<lambda>(_, h).
     rbind (LinearScan_ctor True regsCount (g_liveIntervals (h_g h graph))) (\<lambda>s.
     rbind (allocateAndAssignRegs True s) (\<lambda>s.
     let h = upd_g graph (\<lambda>g. g\<lparr>g_liveIntervals := ls_intervals s\<rparr>) h in
     rbind (fixPhis graph h) (\<lambda>(insertedNew, h).
     let h = (if insertedNew then PassManager_SetInvalid [DOM_TREE, RPO, LINEAR_ORDERING] graph h else h) in
     rbind (RegAllocChecker_Run graph h) (\<lambda>ok. ASSERT ok (Ok (True, h)))))))"

end
