(* ===== verification/DC_Tree.thy ===== *)
theory DC_Tree
  imports Loops
begin

text \<open>
  The derivative calculator (\<open>src/Derivative-Calculator-main\<close>): types, machine and expression tree
  (\<open>include/backend.h\<close>, the node functions of \<open>src/backend.cpp\<close>).  A tree is a set of nodes allocated
  with \<open>calloc\<close>; the model keeps the nodes by address, forgets a freed node, and makes an access to
  null or to a freed node \<open>UB\<close>.  The operations on \<open>double\<close>, the bits a union shows when another
  member is read, the success of \<open>calloc\<close> and the order in which the compiler evaluates the
  arguments of a call are the argument \<open>'d machine\<close>.
\<close>

section \<open>Types\<close>

datatype dc_error = AssertFailed

datatype Types = NUM_T | VAR_T | OP_T

datatype Operations =
    UNKNOWN | ADD | SUB | DIV | MUL | SQR | POW | SIN | COS | TG | CTG | ARCCOS | ARCSIN | LN | LOG
  | OPEN_BR | CLOSE_BR | TERMINATION_SYM

type_synonym ptr = nat

text \<open>A pointer to the name of a variable: its address and the text there, which nothing changes.\<close>

datatype cstr = CStr (c_addr: nat) (c_text: string)

datatype 'd Values = dbl_val 'd | op_val Operations | var_name "cstr option"

record 'd TreeNode =
  t_type :: Types
  t_parent :: "ptr option"
  t_left :: "ptr option"
  t_right :: "ptr option"
  t_value :: "'d Values"

record 'd machine =
  m_of_int :: "int \<Rightarrow> 'd"
  m_ACCURACY :: 'd
  m_add :: "'d \<Rightarrow> 'd \<Rightarrow> 'd"
  m_sub :: "'d \<Rightarrow> 'd \<Rightarrow> 'd"
  m_mul :: "'d \<Rightarrow> 'd \<Rightarrow> 'd"
  m_div :: "'d \<Rightarrow> 'd \<Rightarrow> 'd"
  m_pow :: "'d \<Rightarrow> 'd \<Rightarrow> 'd"
  m_sin :: "'d \<Rightarrow> 'd"
  m_cos :: "'d \<Rightarrow> 'd"
  m_log :: "'d \<Rightarrow> 'd"
  m_abs :: "'d \<Rightarrow> 'd"
  m_le :: "'d \<Rightarrow> 'd \<Rightarrow> bool"
  m_less :: "'d \<Rightarrow> 'd \<Rightarrow> bool"
  m_dbl_of_op :: "Operations \<Rightarrow> 'd"
  m_dbl_of_ptr :: "cstr option \<Rightarrow> 'd"
  m_op_of_dbl :: "'d \<Rightarrow> Operations"
  m_op_of_ptr :: "cstr option \<Rightarrow> Operations"
  m_calloc_ok :: "nat \<Rightarrow> bool"
  m_left_first :: bool
  m_copies_conversions :: bool
  m_union_as_pointer :: bool

text \<open>
  Members of the union.  Reading another member than the one written gives its bits; bits
  that are no enumerator stand for \<open>UNKNOWN\<close>, as no comparison tells them apart.  A name read from another member is an
  arbitrary pointer, which the code would go on to use.
\<close>

fun as_dbl :: "'d machine \<Rightarrow> 'd Values \<Rightarrow> 'd" where
  "as_dbl M (dbl_val d) = d"
| "as_dbl M (op_val x) = m_dbl_of_op M x"
| "as_dbl M (var_name s) = m_dbl_of_ptr M s"

fun as_op :: "'d machine \<Rightarrow> 'd Values \<Rightarrow> Operations" where
  "as_op M (dbl_val d) = m_op_of_dbl M d"
| "as_op M (op_val x) = x"
| "as_op M (var_name s) = m_op_of_ptr M s"

fun as_name :: "'d Values \<Rightarrow> (dc_error, cstr option) res" where
  "as_name (var_name s) = Ok s"
| "as_name _ = UB"

section \<open>The state of the program\<close>

text \<open>
  What the program writes to \<open>output.tex\<close>: fixed prose is named, not copied, and a number is
  kept as the value that is formatted.  A file for Graphviz has a line per node and per edge.
\<close>

datatype 'd Piece =
    Text string | Dbl 'd | Decimal int | Phrase nat | Header | Introduction | Opening | Farewell
  | Maclaurin_text int | Ending

datatype 'd Dot =
    Dot_number ptr 'd | Dot_operation ptr string | Dot_variable ptr string | Dot_edge ptr ptr

record 'd world =
  w_nodes :: "ptr \<Rightarrow> 'd TreeNode option"
  w_next :: nat
  w_phrases :: nat
  w_out :: "'d Piece list"
  w_graph :: "('d \<times> 'd) list"
  w_dots :: "'d Dot list list"
  w_system :: "string list"

text \<open>A LaTeX command: the name after a backslash.\<close>

definition tex :: "string \<Rightarrow> string" where
  "tex s = CHR 0x5C # s"

type_synonym ('d, 'a) op = "'d world \<Rightarrow> (dc_error, 'a \<times> 'd world) res"

definition ret :: "'a \<Rightarrow> ('d, 'a) op" where
  "ret a w = Ok (a, w)"

definition seqw :: "('d, 'a) op \<Rightarrow> ('a \<Rightarrow> ('d, 'b) op) \<Rightarrow> ('d, 'b) op" where
  "seqw m f w = rbind (m w) (\<lambda>(a, w'). f a w')"

text \<open>The value of an expression that only reads the state.\<close>

definition readw :: "('d world \<Rightarrow> (dc_error, 'a) res) \<Rightarrow> ('d, 'a) op" where
  "readw r w = rbind (r w) (\<lambda>a. Ok (a, w))"

definition assertw :: "bool \<Rightarrow> ('d, 'a) op \<Rightarrow> ('d, 'a) op" where
  "assertw b m w = (if b then m w else Err AssertFailed)"

text \<open>A loop with fixed bounds: the body runs for every element of the list.\<close>

fun each_w :: "('i \<Rightarrow> 'a \<Rightarrow> ('d, 'a) op) \<Rightarrow> 'i list \<Rightarrow> 'a \<Rightarrow> ('d, 'a) op" where
  "each_w body [] a = ret a"
| "each_w body (i # is) a = seqw (body i a) (each_w body is)"

definition printw :: "'d Piece list \<Rightarrow> ('d, unit) op" where
  "printw ps w = Ok ((), w\<lparr>w_out := w_out w @ ps\<rparr>)"

definition node_at :: "'d world \<Rightarrow> ptr option \<Rightarrow> (dc_error, 'd TreeNode) res" where
  "node_at w p =
     (case p of None \<Rightarrow> UB | Some a \<Rightarrow> (case w_nodes w a of None \<Rightarrow> UB | Some n \<Rightarrow> Ok n))"

definition set_node :: "ptr option \<Rightarrow> 'd TreeNode \<Rightarrow> ('d, unit) op" where
  "set_node p n w =
     rbind (node_at w p) (\<lambda>_. Ok ((), w\<lparr>w_nodes := (w_nodes w)(the p \<mapsto> n)\<rparr>))"

definition free :: "ptr option \<Rightarrow> ('d, unit) op" where
  "free p w =
     (if p = None then Ok ((), w)
      else rbind (node_at w p) (\<lambda>_. Ok ((), w\<lparr>w_nodes := (w_nodes w)(the p := None)\<rparr>)))"

text \<open>\<open>calloc\<close> of a node, and the assignment of the fields that follows it.\<close>

definition new_node :: "'d machine \<Rightarrow> 'd TreeNode \<Rightarrow> ('d, ptr option) op" where
  "new_node M n w =
     (if m_calloc_ok M (w_next w)
      then Ok (Some (w_next w), w\<lparr>w_nodes := (w_nodes w)(w_next w \<mapsto> n), w_next := Suc (w_next w)\<rparr>)
      else Ok (None, w\<lparr>w_next := Suc (w_next w)\<rparr>))"

lemma ret_apply [simp]: "ret a w = Ok (a, w)"
  by (simp add: ret_def)

lemma seqw_Ok: "m w = Ok (a, w') \<Longrightarrow> seqw m f w = f a w'"
  by (simp add: seqw_def)

lemma seqw_UB: "m w = UB \<Longrightarrow> seqw m f w = UB"
  by (simp add: seqw_def)

lemma seqw_Err: "m w = Err e \<Longrightarrow> seqw m f w = Err e"
  by (simp add: seqw_def)

lemma seqw_ret [simp]: "seqw (ret a) f = f a"
  by (simp add: seqw_def fun_eq_iff)

lemma seqw_readw [simp]: "seqw (readw r) f w = rbind (r w) (\<lambda>a. f a w)"
  by (simp add: seqw_def readw_def) (cases "r w"; simp)

lemma assertw_True [simp]: "assertw True m = m"
  by (simp add: assertw_def fun_eq_iff)

lemma node_at_Some: "node_at w (Some a) = (case w_nodes w a of None \<Rightarrow> UB | Some n \<Rightarrow> Ok n)"
  by (simp add: node_at_def)

lemma node_at_OkD: "node_at w p = Ok n \<Longrightarrow> \<exists>a. p = Some a \<and> w_nodes w a = Some n"
  by (auto simp: node_at_def split: option.splits)

section \<open>Nodes\<close>

text \<open>The member a constructor call writes; the bytes of the others are zero.\<close>

fun init_value :: "Types \<Rightarrow> 'd \<Rightarrow> Operations \<Rightarrow> cstr option \<Rightarrow> 'd Values" where
  "init_value NUM_T d x s = dbl_val d"
| "init_value VAR_T d x s = var_name s"
| "init_value OP_T d x s = op_val x"

definition CreateNode ::
    "'d machine \<Rightarrow> Types \<Rightarrow> 'd \<Rightarrow> Operations \<Rightarrow> cstr option \<Rightarrow> ptr option \<Rightarrow> ptr option \<Rightarrow> ('d, ptr option) op" where
  "CreateNode M type dbl x name left_child right_child =
     new_node M \<lparr>t_type = type, t_parent = None, t_left = left_child, t_right = right_child,
       t_value = init_value type dbl x name\<rparr>"

definition CreateDigitNode :: "'d machine \<Rightarrow> 'd \<Rightarrow> ('d, ptr option) op" where
  "CreateDigitNode M dbl =
     new_node M \<lparr>t_type = NUM_T, t_parent = None, t_left = None, t_right = None, t_value = dbl_val dbl\<rparr>"

text \<open>The copy of a node shares the children of the node.\<close>

definition CopyNode :: "'d machine \<Rightarrow> ptr option \<Rightarrow> ('d, ptr option) op" where
  "CopyNode M node_to_cpy w =
     (if m_calloc_ok M (w_next w)
      then rbind (node_at w node_to_cpy) (\<lambda>n. new_node M n w)
      else Ok (None, w\<lparr>w_next := Suc (w_next w)\<rparr>))"

text \<open>
  \<open>TransformNode\<close> has no return statement although it is declared to return a pointer; no caller uses
  the value, and the model is that of the build of the Makefile, which does not optimise.
\<close>

definition TransformNode ::
    "'d machine \<Rightarrow> ptr option \<Rightarrow> Types \<Rightarrow> 'd \<Rightarrow> cstr option \<Rightarrow> ('d, unit) op" where
  "TransformNode M node type dbl name =
     seqw (readw (\<lambda>w. node_at w node)) (\<lambda>n.
     seqw (set_node node (n\<lparr>t_type := type, t_value := (if type = NUM_T then dbl_val dbl else var_name name)\<rparr>)) (\<lambda>_.
     seqw (free (t_left n)) (\<lambda>_.
     seqw (free (t_right n)) (\<lambda>_.
     seqw (readw (\<lambda>w. node_at w node)) (\<lambda>m.
     set_node node (m\<lparr>t_left := None, t_right := None\<rparr>))))))"

text \<open>The depth is the number of nested calls the recursion may make.\<close>

fun DestructTree :: "nat \<Rightarrow> ptr option \<Rightarrow> ('d, ptr option) op" where
  "DestructTree 0 root = (\<lambda>w. UB)"
| "DestructTree (Suc depth) root =
     seqw (readw (\<lambda>w. node_at w root)) (\<lambda>n.
     seqw (if t_left n = None then ret None else DestructTree depth (t_left n)) (\<lambda>_.
     seqw (readw (\<lambda>w. node_at w root)) (\<lambda>n'.
     seqw (if t_right n' = None then ret None else DestructTree depth (t_right n')) (\<lambda>_.
     seqw (readw (\<lambda>w. node_at w root)) (\<lambda>m.
     seqw (set_node root (m\<lparr>t_value := var_name None\<rparr>)) (\<lambda>_.
     seqw (free root) (\<lambda>_. ret None)))))))"

text \<open>The macros of \<open>dsl.h\<close> that create an operation: both arguments of the call may have effects.\<close>

definition both :: "'d machine \<Rightarrow> ('d, 'a) op \<Rightarrow> ('d, 'b) op \<Rightarrow> ('d, 'a \<times> 'b) op" where
  "both M l r =
     (if m_left_first M then seqw l (\<lambda>a. seqw r (\<lambda>b. ret (a, b)))
      else seqw r (\<lambda>b. seqw l (\<lambda>a. ret (a, b))))"

definition OPERATION ::
    "'d machine \<Rightarrow> Operations \<Rightarrow> ('d, ptr option) op \<Rightarrow> ('d, ptr option) op \<Rightarrow> ('d, ptr option) op" where
  "OPERATION M x L R = seqw (both M L R) (\<lambda>(l, r). CreateNode M OP_T (m_of_int M 0) x None l r)"

section \<open>Expressions and the trees that hold them\<close>

datatype 'd expr = Num 'd | Var cstr | Unary Operations "'d expr" | Binary Operations "'d expr" "'d expr"

fun leaf :: "'d expr \<Rightarrow> bool" where
  "leaf (Num d) = True"
| "leaf (Var s) = True"
| "leaf _ = False"

fun height :: "'d expr \<Rightarrow> nat" where
  "height (Num d) = 0"
| "height (Var s) = 0"
| "height (Unary x r) = Suc (height r)"
| "height (Binary x l r) = Suc (max (height l) (height r))"

definition node_is :: "'d world \<Rightarrow> ptr option \<Rightarrow> Types \<Rightarrow> 'd Values \<Rightarrow> bool" where
  "node_is w p type v = (case node_at w p of Ok n \<Rightarrow> t_type n = type \<and> t_value n = v | _ \<Rightarrow> False)"

definition left_of :: "'d world \<Rightarrow> ptr option \<Rightarrow> ptr option" where
  "left_of w p = (case node_at w p of Ok n \<Rightarrow> t_left n | _ \<Rightarrow> None)"

definition right_of :: "'d world \<Rightarrow> ptr option \<Rightarrow> ptr option" where
  "right_of w p = (case node_at w p of Ok n \<Rightarrow> t_right n | _ \<Rightarrow> None)"

text \<open>The node at \<open>p\<close> is the root of a tree for an expression; nodes may be shared.\<close>

fun tree_at :: "'d world \<Rightarrow> ptr option \<Rightarrow> 'd expr \<Rightarrow> bool" where
  "tree_at w p (Num d) = (node_is w p NUM_T (dbl_val d) \<and> left_of w p = None \<and> right_of w p = None)"
| "tree_at w p (Var s) = (node_is w p VAR_T (var_name (Some s)) \<and> left_of w p = None \<and> right_of w p = None)"
| "tree_at w p (Unary x r) = (node_is w p OP_T (op_val x) \<and> left_of w p = None \<and> tree_at w (right_of w p) r)"
| "tree_at w p (Binary x l r) =
     (node_is w p OP_T (op_val x) \<and> tree_at w (left_of w p) l \<and> tree_at w (right_of w p) r)"

lemma node_isD: "node_is w p type v \<Longrightarrow> \<exists>n. node_at w p = Ok n \<and> t_type n = type \<and> t_value n = v"
  by (auto simp: node_is_def split: res.splits)

lemma left_ofI [simp]: "node_at w p = Ok n \<Longrightarrow> left_of w p = t_left n"
  by (simp add: left_of_def)

lemma right_ofI [simp]: "node_at w p = Ok n \<Longrightarrow> right_of w p = t_right n"
  by (simp add: right_of_def)

lemma node_isI [simp]: "node_at w p = Ok n \<Longrightarrow> node_is w p type v \<longleftrightarrow> t_type n = type \<and> t_value n = v"
  by (simp add: node_is_def)

lemma tree_at_node: "tree_at w p t \<Longrightarrow> \<exists>a n. p = Some a \<and> node_at w p = Ok n \<and> w_nodes w a = Some n"
  by (cases t) (auto dest!: node_isD dest: node_at_OkD)

lemma tree_at_None [simp]: "\<not> tree_at w None t"
  using tree_at_node [of w None t] by auto

text \<open>The tree of an operation has the node, and the shape of its children.\<close>

lemma tree_at_cases:
  assumes "tree_at w p t"
  obtains n where "node_at w p = Ok n"
    and "\<And>d. t = Num d \<Longrightarrow> t_type n = NUM_T \<and> t_value n = dbl_val d \<and> t_left n = None \<and> t_right n = None"
    and "\<And>s. t = Var s \<Longrightarrow> t_type n = VAR_T \<and> t_value n = var_name (Some s) \<and> t_left n = None \<and> t_right n = None"
    and "\<And>x r. t = Unary x r \<Longrightarrow> t_type n = OP_T \<and> t_value n = op_val x \<and> t_left n = None \<and> tree_at w (t_right n) r"
    and "\<And>x l r. t = Binary x l r \<Longrightarrow>
           t_type n = OP_T \<and> t_value n = op_val x \<and> tree_at w (t_left n) l \<and> tree_at w (t_right n) r"
proof -
  obtain n where n: "node_at w p = Ok n" using tree_at_node [OF assms] by blast
  with assms show thesis by (intro that [OF n]) auto
qed

text \<open>What a program that only allocates leaves as it is.\<close>

definition grows :: "'d world \<Rightarrow> 'd world \<Rightarrow> bool" where
  "grows w w' \<longleftrightarrow>
     (\<forall>a n. w_nodes w a = Some n \<longrightarrow> w_nodes w' a = Some n) \<and> w_next w \<le> w_next w' \<and>
     w_phrases w' = w_phrases w \<and> w_out w' = w_out w \<and> w_graph w' = w_graph w \<and> w_dots w' = w_dots w \<and>
     w_system w' = w_system w"

lemma only_grows_refl [simp]: "grows w w"
  by (simp add: grows_def)

lemma only_grows_trans: "grows w w' \<Longrightarrow> grows w' w'' \<Longrightarrow> grows w w''"
  by (auto simp: grows_def)

lemma grows_node_at: "grows w w' \<Longrightarrow> node_at w p = Ok n \<Longrightarrow> node_at w' p = Ok n"
  by (auto simp: grows_def node_at_def split: option.splits)

lemma tree_at_grows: "grows w w' \<Longrightarrow> tree_at w p t \<Longrightarrow> tree_at w' p t"
proof (induction t arbitrary: p)
  case (Num d)
  then show ?case by (auto dest!: node_isD dest: grows_node_at)
next
  case (Var s)
  then show ?case by (auto dest!: node_isD dest: grows_node_at)
next
  case (Unary x r)
  then show ?case by (auto dest!: node_isD dest: grows_node_at)
next
  case (Binary x l r)
  then show ?case by (auto dest!: node_isD dest: grows_node_at)
qed

text \<open>Addresses are handed out in order, so a new node is at a free address.\<close>

definition fresh_above :: "'d world \<Rightarrow> bool" where
  "fresh_above w \<longleftrightarrow> (\<forall>a\<ge>w_next w. w_nodes w a = None)"

end
