(* ===== verification/DC_Calc.thy ===== *)
theory DC_Calc
  imports DC_Tree
begin

text \<open>
  Evaluation of a tree at a point (\<open>CalcTree\<close>, \<open>CalcOneOp\<close>, \<open>isZero\<close>, \<open>isEqual\<close> of
  \<open>src/backend.cpp\<close>), the sampling of the graph (\<open>PrintGraphic\<close> of \<open>src/frontend.cpp\<close>), and the
  value of an expression, which evaluation computes.
\<close>

definition isZero :: "'d machine \<Rightarrow> 'd \<Rightarrow> bool" where
  "isZero M num = m_le M (m_abs M num) (m_ACCURACY M)"

definition isEqual :: "'d machine \<Rightarrow> 'd \<Rightarrow> 'd \<Rightarrow> bool" where
  "isEqual M num1 num2 = m_less M (m_abs M (m_sub M num1 num2)) (m_ACCURACY M)"

definition CalcOneOp :: "'d machine \<Rightarrow> 'd \<Rightarrow> 'd \<Rightarrow> Operations \<Rightarrow> 'd" where
  "CalcOneOp M val1 val2 operation =
     (case operation of
        ADD \<Rightarrow> m_add M val1 val2
      | SUB \<Rightarrow> m_sub M val1 val2
      | DIV \<Rightarrow> if isZero M val2 then m_of_int M 0 else m_div M val1 val2
      | MUL \<Rightarrow> m_mul M val1 val2
      | POW \<Rightarrow> m_pow M val1 val2
      | SIN \<Rightarrow> m_sin M val2
      | COS \<Rightarrow> m_cos M val2
      | TG \<Rightarrow> m_div M (m_sin M val2) (m_cos M val2)
      | CTG \<Rightarrow> if isZero M val2 then m_of_int M 0 else m_div M (m_cos M val2) (m_sin M val2)
      | LN \<Rightarrow> if m_le M val2 (m_of_int M 0) then m_of_int M 0 else m_log M val2
      | LOG \<Rightarrow> m_div M (m_log M val2) (m_log M val1)
      | _ \<Rightarrow> m_of_int M 0)"

text \<open>The depth is the number of nested calls the recursion may make.\<close>

fun CalcTree :: "'d machine \<Rightarrow> nat \<Rightarrow> ptr option \<Rightarrow> 'd \<Rightarrow> 'd world \<Rightarrow> (dc_error, 'd) res" where
  "CalcTree M 0 node val w = UB"
| "CalcTree M (Suc depth) node val w =
     (if node = None then Err AssertFailed
      else rbind (node_at w node) (\<lambda>n.
        if t_type n \<noteq> OP_T then Ok (m_of_int M 0)
        else
          rbind (if t_left n = None then Ok (m_of_int M 0)
                 else rbind (node_at w (t_left n)) (\<lambda>l.
                   if t_type l = OP_T then CalcTree M depth (t_left n) val w
                   else if t_type l = VAR_T then Ok val
                   else Ok (as_dbl M (t_value l)))) (\<lambda>left_val.
          rbind (if t_right n = None then Ok (m_of_int M 0)
                 else rbind (node_at w (t_right n)) (\<lambda>r.
                   if t_type r = OP_T then CalcTree M depth (t_right n) val w
                   else if t_type r = VAR_T then Ok val
                   else Ok (as_dbl M (t_value r)))) (\<lambda>right_val.
          Ok (CalcOneOp M left_val right_val (as_op M (t_value n)))))))"

section \<open>The value of an expression\<close>

fun value_of :: "'d machine \<Rightarrow> 'd \<Rightarrow> 'd expr \<Rightarrow> 'd" where
  "value_of M x (Num d) = d"
| "value_of M x (Var s) = x"
| "value_of M x (Unary f r) = CalcOneOp M (m_of_int M 0) (value_of M x r) f"
| "value_of M x (Binary f l r) = CalcOneOp M (value_of M x l) (value_of M x r) f"

text \<open>The branch of \<open>CalcTree\<close> on one child.\<close>

lemma calc_child:
  assumes "tree_at w p t" and "\<not> leaf t \<Longrightarrow> CalcTree M depth p x w = Ok (value_of M x t)"
  shows "(if p = None then Ok (m_of_int M 0)
          else rbind (node_at w p) (\<lambda>l.
            if t_type l = OP_T then CalcTree M depth p x w
            else if t_type l = VAR_T then Ok x
            else Ok (as_dbl M (t_value l)))) = Ok (value_of M x t)"
proof -
  obtain a n where "p = Some a" "node_at w p = Ok n" using tree_at_node [OF assms(1)] by blast
  with assms show ?thesis by (cases t) auto
qed

lemma CalcTree_value:
  assumes "tree_at w p t" and "\<not> leaf t" and "height t \<le> depth"
  shows "CalcTree M depth p x w = Ok (value_of M x t)"
  using assms
proof (induction t arbitrary: p depth)
  case (Unary f r)
  then obtain depth' where d: "depth = Suc depth'" "height r \<le> depth'" by (cases depth) auto
  obtain a n where n: "p = Some a" "node_at w p = Ok n" using tree_at_node [OF Unary.prems(1)] by blast
  have t: "t_type n = OP_T" "t_value n = op_val f" "t_left n = None" "tree_at w (t_right n) r"
    using Unary.prems(1) n by auto
  have c: "(if t_right n = None then Ok (m_of_int M 0)
          else rbind (node_at w (t_right n)) (\<lambda>l.
            if t_type l = OP_T then CalcTree M depth' (t_right n) x w
            else if t_type l = VAR_T then Ok x
            else Ok (as_dbl M (t_value l)))) = Ok (value_of M x r)"
    by (rule calc_child [OF t(4)]) (use Unary.IH [OF t(4) _ d(2)] in blast)
  show ?case
    unfolding d(1) CalcTree.simps n(2)
    using n(1) t(1-3) c by simp
next
  case (Binary f l r)
  then obtain depth' where d: "depth = Suc depth'" "height l \<le> depth'" "height r \<le> depth'" by (cases depth) auto
  obtain a n where n: "p = Some a" "node_at w p = Ok n" using tree_at_node [OF Binary.prems(1)] by blast
  have t: "t_type n = OP_T" "t_value n = op_val f" "tree_at w (t_left n) l" "tree_at w (t_right n) r"
    using Binary.prems(1) n by auto
  have "(if t_left n = None then Ok (m_of_int M 0)
          else rbind (node_at w (t_left n)) (\<lambda>l.
            if t_type l = OP_T then CalcTree M depth' (t_left n) x w
            else if t_type l = VAR_T then Ok x
            else Ok (as_dbl M (t_value l)))) = Ok (value_of M x l)"
    by (rule calc_child [OF t(3)]) (use Binary.IH(1) [OF t(3) _ d(2)] in blast)
  moreover have "(if t_right n = None then Ok (m_of_int M 0)
          else rbind (node_at w (t_right n)) (\<lambda>l.
            if t_type l = OP_T then CalcTree M depth' (t_right n) x w
            else if t_type l = VAR_T then Ok x
            else Ok (as_dbl M (t_value l)))) = Ok (value_of M x r)"
    by (rule calc_child [OF t(4)]) (use Binary.IH(2) [OF t(4) _ d(3)] in blast)
  ultimately show ?case
    unfolding d(1) CalcTree.simps n(2)
    using n(1) t(1,2) by simp
qed auto

text \<open>A tree that is a single number or variable evaluates to zero, whatever the number.\<close>

lemma CalcTree_leaf:
  assumes "tree_at w p t" and "leaf t"
  shows "CalcTree M (Suc depth) p x w = Ok (m_of_int M 0)"
proof -
  obtain a n where "p = Some a" "node_at w p = Ok n" using tree_at_node [OF assms(1)] by blast
  with assms show ?thesis by (cases t) auto
qed

section \<open>Sampling\<close>

text \<open>
  \<open>PrintGraphic\<close>: the points from \<open>begin_x\<close> to \<open>end_x\<close> in steps of one.  The loop runs over
  \<open>double\<close>; the file is written anew, and a script draws it.
\<close>

definition PrintGraphic :: "'d machine \<Rightarrow> nat \<Rightarrow> ptr option \<Rightarrow> int \<Rightarrow> int \<Rightarrow> ('d, unit) op" where
  "PrintGraphic M depth root begin_x end_x w =
     (if root = None then Err AssertFailed
      else rbind
        (while_do (\<lambda>(x, points). m_le M x (m_of_int M end_x))
          (\<lambda>(x, points). rbind (CalcTree M depth root x w) (\<lambda>func_res.
             Ok (m_add M x (m_of_int M 1), points @ [(x, func_res)])))
          (m_of_int M begin_x, []))
        (\<lambda>(x, points). Ok ((), w\<lparr>w_graph := points,
           w_system := w_system w @ [''src'' @ tex ''python_graphics'' @ tex ''draw_graph.py''],
           w_out := w_out w @ [Text (tex ''begin{center} '' @ tex ''includegraphics[scale=0.6]{function_graph.png} '' @
             tex ''end{center}'')]\<rparr>)))"

end
