(* ===== verification/DC_Simplify.thy ===== *)
theory DC_Simplify
  imports DC_Calc
begin

text \<open>
  Simplification (\<open>SimplifyTree\<close> of \<open>src/backend.cpp\<close>, \<open>_SimplifyTree\<close> of \<open>include/dsl.h\<close>): the
  rewriting of the heap, and the function on expressions that it implements on a tree whose
  rewritten nodes have one owner.
\<close>

section \<open>The code\<close>

definition fold_numbers ::
    "'d machine \<Rightarrow> ptr option \<Rightarrow> nat \<Rightarrow> 'd TreeNode \<Rightarrow> 'd TreeNode \<Rightarrow> 'd TreeNode \<Rightarrow> ('d, nat) op" where
  "fold_numbers M cur simpl_amount n l r =
     (if t_type l = NUM_T \<and> t_type r = NUM_T \<and> as_op M (t_value n) = ADD then
        seqw (TransformNode M cur NUM_T (m_add M (as_dbl M (t_value l)) (as_dbl M (t_value r))) None) (\<lambda>_. ret 1)
      else if t_type l = NUM_T \<and> t_type r = NUM_T \<and> as_op M (t_value n) = MUL then
        seqw (TransformNode M cur NUM_T (m_mul M (as_dbl M (t_value l)) (as_dbl M (t_value r))) None) (\<lambda>_. ret 1)
      else ret simpl_amount)"

text \<open>A child that takes the place of its parent because the other child is one.\<close>

definition keep_child :: "'d machine \<Rightarrow> ptr option \<Rightarrow> 'd TreeNode \<Rightarrow> ('d, nat) op" where
  "keep_child M cur c =
     (if t_type c = NUM_T
      then seqw (TransformNode M cur NUM_T (as_dbl M (t_value c)) None) (\<lambda>_. ret 1)
      else seqw (readw (\<lambda>w. as_name (t_value c))) (\<lambda>s.
        seqw (TransformNode M cur VAR_T (m_of_int M 0) s) (\<lambda>_. ret 1)))"

definition simplify_node :: "'d machine \<Rightarrow> ptr option \<Rightarrow> nat \<Rightarrow> ('d, nat) op" where
  "simplify_node M cur simpl_amount =
     seqw (readw (\<lambda>w. node_at w cur)) (\<lambda>n.
     if t_type n \<noteq> OP_T then ret simpl_amount else
     seqw (readw (\<lambda>w. node_at w (t_left n))) (\<lambda>l.
     if t_type l = OP_T then ret simpl_amount else
     seqw (readw (\<lambda>w. node_at w (t_right n))) (\<lambda>r.
     if t_type r = OP_T then ret simpl_amount
     else if as_op M (t_value n) = MUL then
       if isZero M (as_dbl M (t_value l)) \<and> t_type l = NUM_T then
         seqw (TransformNode M cur NUM_T (m_of_int M 0) None) (\<lambda>_. ret 1)
       else if isZero M (as_dbl M (t_value r)) \<and> t_type r = NUM_T then
         seqw (TransformNode M cur NUM_T (m_of_int M 0) None) (\<lambda>_. ret 1)
       else if isEqual M (as_dbl M (t_value r)) (m_of_int M 1) then keep_child M cur l
       else if isEqual M (as_dbl M (t_value l)) (m_of_int M 1) then keep_child M cur r
       else fold_numbers M cur simpl_amount n l r
     else fold_numbers M cur simpl_amount n l r)))"

text \<open>The depth is the number of nested calls the recursion may make.\<close>

fun SimplifyTree :: "'d machine \<Rightarrow> nat \<Rightarrow> ptr option \<Rightarrow> ('d, nat) op" where
  "SimplifyTree M 0 cur = (\<lambda>w. UB)"
| "SimplifyTree M (Suc depth) cur =
     assertw (cur \<noteq> None)
       (seqw (readw (\<lambda>w. node_at w cur)) (\<lambda>n.
        seqw (if t_left n = None then ret 0 else SimplifyTree M depth (t_left n)) (\<lambda>a.
        seqw (readw (\<lambda>w. node_at w cur)) (\<lambda>n.
        seqw (if t_right n = None then ret 0 else SimplifyTree M depth (t_right n)) (\<lambda>b.
        seqw (readw (\<lambda>w. node_at w cur)) (\<lambda>n.
        if t_left n = None \<or> t_right n = None then ret 0
        else simplify_node M cur (a + b)))))))"

text \<open>\<open>while (SimplifyTree (X))\<close>\<close>

definition SimplifyAll :: "'d machine \<Rightarrow> nat \<Rightarrow> ptr option \<Rightarrow> ('d, unit) op" where
  "SimplifyAll M depth root w =
     rbind (while_do (\<lambda>(again, w). again)
       (\<lambda>(again, w). rbind (SimplifyTree M depth root w) (\<lambda>(k, w'). Ok (k \<noteq> 0, w'))) (True, w))
       (\<lambda>(again, w'). Ok ((), w'))"

section \<open>The function on expressions\<close>

fun is_num :: "'d expr \<Rightarrow> bool" where
  "is_num (Num d) = True"
| "is_num _ = False"

text \<open>What the code reads as the number of a leaf: for a variable, the bits of its pointer.\<close>

fun leaf_dbl :: "'d machine \<Rightarrow> 'd expr \<Rightarrow> 'd" where
  "leaf_dbl M (Num d) = d"
| "leaf_dbl M (Var s) = m_dbl_of_ptr M (Some s)"
| "leaf_dbl M _ = m_of_int M 0"

definition fold_node :: "'d machine \<Rightarrow> Operations \<Rightarrow> 'd expr \<Rightarrow> 'd expr \<Rightarrow> 'd expr option" where
  "fold_node M f l r =
     (if \<not> leaf l \<or> \<not> leaf r then None
      else if f = MUL \<and> isZero M (leaf_dbl M l) \<and> is_num l then Some (Num (m_of_int M 0))
      else if f = MUL \<and> isZero M (leaf_dbl M r) \<and> is_num r then Some (Num (m_of_int M 0))
      else if f = MUL \<and> isEqual M (leaf_dbl M r) (m_of_int M 1) then Some l
      else if f = MUL \<and> isEqual M (leaf_dbl M l) (m_of_int M 1) then Some r
      else if is_num l \<and> is_num r \<and> f = ADD then Some (Num (m_add M (leaf_dbl M l) (leaf_dbl M r)))
      else if is_num l \<and> is_num r \<and> f = MUL then Some (Num (m_mul M (leaf_dbl M l) (leaf_dbl M r)))
      else None)"

fun simplified :: "'d machine \<Rightarrow> 'd expr \<Rightarrow> 'd expr" where
  "simplified M (Num d) = Num d"
| "simplified M (Var s) = Var s"
| "simplified M (Unary f r) = Unary f (simplified M r)"
| "simplified M (Binary f l r) =
     (case fold_node M f (simplified M l) (simplified M r) of
        Some e \<Rightarrow> e | None \<Rightarrow> Binary f (simplified M l) (simplified M r))"

fun rewrites_of :: "'d machine \<Rightarrow> 'd expr \<Rightarrow> nat" where
  "rewrites_of M (Num d) = 0"
| "rewrites_of M (Var s) = 0"
| "rewrites_of M (Unary f r) = 0"
| "rewrites_of M (Binary f l r) =
     (case fold_node M f (simplified M l) (simplified M r) of
        Some e \<Rightarrow> 1 | None \<Rightarrow> rewrites_of M l + rewrites_of M r)"

text \<open>No node of the expression can be rewritten.\<close>

fun still :: "'d machine \<Rightarrow> 'd expr \<Rightarrow> bool" where
  "still M (Num d) = True"
| "still M (Var s) = True"
| "still M (Unary f r) = still M r"
| "still M (Binary f l r) = (still M l \<and> still M r \<and> fold_node M f l r = None)"

lemma still_simplified: "still M t \<Longrightarrow> simplified M t = t"
  by (induction t) auto

lemma still_rewrites: "still M t \<Longrightarrow> rewrites_of M t = 0"
  by (induction t) (auto simp: still_simplified)

lemma fold_node_leaf: "fold_node M f l r = Some e \<Longrightarrow> leaf e \<and> leaf l \<and> leaf r"
  by (auto simp: fold_node_def split: if_splits)

lemma fold_node_other: "fold_node M f l r \<noteq> None \<Longrightarrow> f = MUL \<or> f = ADD"
  by (auto simp: fold_node_def split: if_splits)

lemma height_leaf: "leaf t \<Longrightarrow> height t = 0"
  by (cases t) auto

lemma height_simplified: "height (simplified M t) \<le> height t"
proof (induction t)
  case (Binary f l r)
  then show ?case by (auto split: option.split dest!: fold_node_leaf simp: height_leaf)
qed auto

lemma size_leaf: "leaf t \<Longrightarrow> size t = 1"
  by (cases t) auto

lemma size_pos: "0 < size (t :: 'd expr)"
  by (cases t) auto

lemma size_simplified_le: "size (simplified M t) \<le> size t"
proof (induction t)
  case (Binary f l r)
  then show ?case by (auto split: option.split dest!: fold_node_leaf simp: size_leaf)
qed auto

text \<open>A pass that reports a rewrite has made the expression smaller.\<close>

lemma size_simplified_less: "rewrites_of M t \<noteq> 0 \<Longrightarrow> size (simplified M t) < size t"
proof (induction t)
  case (Binary f l r)
  show ?case
  proof (cases "fold_node M f (simplified M l) (simplified M r)")
    case None
    with Binary show ?thesis
      using size_simplified_le [of M l] size_simplified_le [of M r] by auto
  next
    case (Some e)
    then show ?thesis using size_pos [of l] by (auto dest!: fold_node_leaf simp: size_leaf)
  qed
qed auto

text \<open>The expression that \<open>while (SimplifyTree (X))\<close> ends with.\<close>

function simplified_all :: "'d machine \<Rightarrow> 'd expr \<Rightarrow> 'd expr" where
  "simplified_all M t =
     (if rewrites_of M t = 0 then simplified M t else simplified_all M (simplified M t))"
  by pat_completeness auto
termination
  by (relation "measure (\<lambda>(M, t). size t)") (auto simp: size_simplified_less)

declare simplified_all.simps [simp del]

end
