(* ===== verification/DC_SimplifyHeap.thy ===== *)
theory DC_SimplifyHeap
  imports DC_Simplify
begin

text \<open>
  What \<open>SimplifyTree\<close> does to the heap.  The nodes of a set \<open>F\<close> may be shared: nothing in them can
  be rewritten.  Every other node of the tree has one owner.  Under this condition the pass returns
  and leaves the tree of the simplified expression.
\<close>

section \<open>Owned and frozen nodes\<close>

text \<open>All nodes of the tree are in \<open>F\<close>.\<close>

fun inside :: "'d world \<Rightarrow> ptr set \<Rightarrow> ptr option \<Rightarrow> 'd expr \<Rightarrow> bool" where
  "inside w F p (Num d) = (the p \<in> F)"
| "inside w F p (Var s) = (the p \<in> F)"
| "inside w F p (Unary f r) = (the p \<in> F \<and> inside w F (right_of w p) r)"
| "inside w F p (Binary f l r) =
     (the p \<in> F \<and> inside w F (left_of w p) l \<and> inside w F (right_of w p) r)"

definition frozen :: "'d machine \<Rightarrow> 'd world \<Rightarrow> ptr set \<Rightarrow> ptr option \<Rightarrow> 'd expr \<Rightarrow> bool" where
  "frozen M w F p t \<longleftrightarrow> still M t \<and> inside w F p t"

text \<open>
  A tree of new nodes over frozen parts.  The children of a node with two children are both frozen,
  and then the node itself cannot be rewritten, or both new.
\<close>

fun owned :: "'d machine \<Rightarrow> 'd world \<Rightarrow> ptr set \<Rightarrow> ptr option \<Rightarrow> 'd expr \<Rightarrow> bool" where
  "owned M w F p (Num d) = (the p \<notin> F)"
| "owned M w F p (Var s) = (the p \<notin> F)"
| "owned M w F p (Unary f r) =
     (the p \<notin> F \<and> (frozen M w F (right_of w p) r \<or> owned M w F (right_of w p) r))"
| "owned M w F p (Binary f l r) =
     (the p \<notin> F \<and>
      (frozen M w F (left_of w p) l \<and> frozen M w F (right_of w p) r \<and> fold_node M f l r = None \<or>
       owned M w F (left_of w p) l \<and> owned M w F (right_of w p) r))"

text \<open>The nodes of a tree that are not in \<open>F\<close>.\<close>

fun cells :: "'d world \<Rightarrow> ptr set \<Rightarrow> ptr option \<Rightarrow> 'd expr \<Rightarrow> ptr list" where
  "cells w F p (Num d) = (if the p \<in> F then [] else [the p])"
| "cells w F p (Var s) = (if the p \<in> F then [] else [the p])"
| "cells w F p (Unary f r) = (if the p \<in> F then [] else the p # cells w F (right_of w p) r)"
| "cells w F p (Binary f l r) =
     (if the p \<in> F then [] else the p # cells w F (left_of w p) l @ cells w F (right_of w p) r)"

definition agree :: "ptr set \<Rightarrow> 'd world \<Rightarrow> 'd world \<Rightarrow> bool" where
  "agree A w w' \<longleftrightarrow> (\<forall>a\<in>A. w_nodes w' a = w_nodes w a)"

lemma agree_node: "agree A w w' \<Longrightarrow> p = None \<or> the p \<in> A \<Longrightarrow> node_at w' p = node_at w p"
  by (cases p) (auto simp: agree_def node_at_def)

lemma agree_left: "agree A w w' \<Longrightarrow> p = None \<or> the p \<in> A \<Longrightarrow> left_of w' p = left_of w p"
  by (simp add: left_of_def agree_node)

lemma agree_right: "agree A w w' \<Longrightarrow> p = None \<or> the p \<in> A \<Longrightarrow> right_of w' p = right_of w p"
  by (simp add: right_of_def agree_node)

lemma agree_node_is: "agree A w w' \<Longrightarrow> p = None \<or> the p \<in> A \<Longrightarrow> node_is w' p ty v = node_is w p ty v"
  by (simp add: node_is_def agree_node)

lemma agree_mono: "agree A w w' \<Longrightarrow> B \<subseteq> A \<Longrightarrow> agree B w w'"
  by (auto simp: agree_def)

lemmas agree_simps = agree_left agree_right agree_node_is

lemma inside_agree:
  assumes "agree F w w'" and "inside w F p t"
  shows "inside w' F p t \<and> (tree_at w' p t \<longleftrightarrow> tree_at w p t) \<and> cells w' F p t = []"
  using assms(2)
proof (induction t arbitrary: p)
  case (Num d)
  then show ?case by (simp add: agree_simps [OF assms(1)])
next
  case (Var s)
  then show ?case by (simp add: agree_simps [OF assms(1)])
next
  case (Unary f r)
  then show ?case by (simp add: agree_simps [OF assms(1)])
next
  case (Binary f l r)
  then show ?case by (simp add: agree_simps [OF assms(1)])
qed

lemma inside_cells: "inside w F p t \<Longrightarrow> cells w F p t = []"
  using inside_agree [of F w w p t] by (simp add: agree_def)

lemma frozen_agree: "agree F w w' \<Longrightarrow> frozen M w F p t \<Longrightarrow> frozen M w' F p t"
  by (simp add: frozen_def inside_agree)

lemma frozen_tree: "agree F w w' \<Longrightarrow> frozen M w F p t \<Longrightarrow> tree_at w p t \<Longrightarrow> tree_at w' p t"
  by (simp add: frozen_def inside_agree)

lemma frozen_cells: "frozen M w F p t \<Longrightarrow> cells w F p t = []"
  by (simp add: frozen_def inside_cells)

lemma cells_outside: "set (cells w F p t) \<inter> F = {}"
  by (induction t arbitrary: p) auto

lemma cells_exist: "tree_at w p t \<Longrightarrow> a \<in> set (cells w F p t) \<Longrightarrow> w_nodes w a \<noteq> None"
proof (induction t arbitrary: p)
  case (Num d)
  then show ?case using tree_at_node [OF Num.prems(1)] by (auto split: if_split_asm)
next
  case (Var s)
  then show ?case using tree_at_node [OF Var.prems(1)] by (auto split: if_split_asm)
next
  case (Unary f r)
  then show ?case using tree_at_node [OF Unary.prems(1)] by (auto split: if_split_asm)
next
  case (Binary f l r)
  then show ?case using tree_at_node [OF Binary.prems(1)] by (auto split: if_split_asm)
qed

lemma owned_root: "owned M w F p t \<Longrightarrow> the p \<notin> F \<and> the p \<in> set (cells w F p t)"
  by (cases t) auto

text \<open>A change elsewhere leaves an owned tree as it is.\<close>

lemma owned_agree:
  assumes "agree (F \<union> set (cells w F p t)) w w'" and "owned M w F p t" and "tree_at w p t"
  shows "owned M w' F p t \<and> tree_at w' p t \<and> cells w' F p t = cells w F p t"
  using assms
proof (induction t arbitrary: p)
  case (Num d)
  then show ?case by (auto simp: agree_left agree_right agree_node_is)
next
  case (Var s)
  then show ?case by (auto simp: agree_left agree_right agree_node_is)
next
  case (Unary f r)
  have p: "the p \<notin> F" "the p \<in> F \<union> set (cells w F p (Unary f r))" using Unary.prems(2) by auto
  note eq = agree_simps [OF Unary.prems(1) disjI2 [OF p(2)]]
  have F: "agree F w w'" using agree_mono [OF Unary.prems(1)] by simp
  have sub: "agree (F \<union> set (cells w F (right_of w p) r)) w w'"
    by (rule agree_mono [OF Unary.prems(1)]) (use p in auto)
  have tr: "tree_at w (right_of w p) r" using Unary.prems(3) by simp
  from Unary.prems(2) have "frozen M w F (right_of w p) r \<or> owned M w F (right_of w p) r" by simp
  then show ?case
  proof
    assume fr: "frozen M w F (right_of w p) r"
    show ?thesis
      using Unary.prems(3) p(1) frozen_agree [OF F fr] frozen_tree [OF F fr tr] frozen_cells [OF fr]
        frozen_cells [OF frozen_agree [OF F fr]]
      by (simp add: eq)
  next
    assume "owned M w F (right_of w p) r"
    from Unary.IH [OF sub this tr] show ?thesis
      using Unary.prems(3) p(1) by (simp add: eq)
  qed
next
  case (Binary f l r)
  have p: "the p \<notin> F" "the p \<in> F \<union> set (cells w F p (Binary f l r))" using Binary.prems(2) by auto
  note eq = agree_simps [OF Binary.prems(1) disjI2 [OF p(2)]]
  have F: "agree F w w'" using agree_mono [OF Binary.prems(1)] by simp
  have subl: "agree (F \<union> set (cells w F (left_of w p) l)) w w'"
    by (rule agree_mono [OF Binary.prems(1)]) (use p in auto)
  have subr: "agree (F \<union> set (cells w F (right_of w p) r)) w w'"
    by (rule agree_mono [OF Binary.prems(1)]) (use p in auto)
  have tr: "tree_at w (left_of w p) l" "tree_at w (right_of w p) r" using Binary.prems(3) by simp_all
  from Binary.prems(2) consider
      (frz) "frozen M w F (left_of w p) l" "frozen M w F (right_of w p) r" "fold_node M f l r = None"
    | (own) "owned M w F (left_of w p) l" "owned M w F (right_of w p) r" by auto
  then show ?case
  proof cases
    case frz
    then show ?thesis
      using Binary.prems(3) p(1) frozen_agree [OF F frz(1)] frozen_agree [OF F frz(2)]
        frozen_tree [OF F frz(1) tr(1)] frozen_tree [OF F frz(2) tr(2)]
        frozen_cells [OF frz(1)] frozen_cells [OF frz(2)]
        frozen_cells [OF frozen_agree [OF F frz(1)]] frozen_cells [OF frozen_agree [OF F frz(2)]]
      by (simp add: eq)
  next
    case own
    from Binary.IH(1) [OF subl own(1) tr(1)] Binary.IH(2) [OF subr own(2) tr(2)] show ?thesis
      using Binary.prems(3) p(1) by (simp add: eq)
  qed
qed

section \<open>One node\<close>

text \<open>The node that \<open>TransformNode\<close> leaves.\<close>

definition leaf_node :: "'d TreeNode \<Rightarrow> 'd expr \<Rightarrow> 'd TreeNode" where
  "leaf_node n e =
     (case e of
        Num d \<Rightarrow> n\<lparr>t_type := NUM_T, t_value := dbl_val d, t_left := None, t_right := None\<rparr>
      | Var s \<Rightarrow> n\<lparr>t_type := VAR_T, t_value := var_name (Some s), t_left := None, t_right := None\<rparr>
      | _ \<Rightarrow> n)"

definition collapse :: "'d world \<Rightarrow> ptr \<Rightarrow> 'd TreeNode \<Rightarrow> 'd expr \<Rightarrow> 'd world" where
  "collapse w a n e =
     w\<lparr>w_nodes := (w_nodes w)(the (t_left n) := None, the (t_right n) := None, a \<mapsto> leaf_node n e)\<rparr>"

lemma set_node_Ok: "w_nodes w a = Some m \<Longrightarrow> set_node (Some a) n w = Ok ((), w\<lparr>w_nodes := (w_nodes w)(a \<mapsto> n)\<rparr>)"
  by (simp add: set_node_def node_at_def)

lemma free_Ok: "w_nodes w a = Some m \<Longrightarrow> free (Some a) w = Ok ((), w\<lparr>w_nodes := (w_nodes w)(a := None)\<rparr>)"
  by (simp add: free_def node_at_def)

lemma TransformNode_Ok:
  assumes "w_nodes w a = Some n" and "t_left n = Some b" and "t_right n = Some c"
    and "w_nodes w b = Some nb" and "w_nodes w c = Some nc" and "a \<noteq> b" and "a \<noteq> c" and "b \<noteq> c"
    and "leaf e" and "ty = (if is_num e then NUM_T else VAR_T)"
    and "\<And>x. e = Num x \<Longrightarrow> d = x" and "\<And>v. e = Var v \<Longrightarrow> s = Some v"
  shows "TransformNode M (Some a) ty d s w = Ok ((), collapse w a n e)"
proof -
  let ?n1 = "n\<lparr>t_type := ty, t_value := (if ty = NUM_T then dbl_val d else var_name s)\<rparr>"
  let ?w1 = "w\<lparr>w_nodes := (w_nodes w)(a \<mapsto> ?n1)\<rparr>"
  let ?w2 = "?w1\<lparr>w_nodes := (w_nodes ?w1)(b := None)\<rparr>"
  let ?w3 = "?w2\<lparr>w_nodes := (w_nodes ?w2)(c := None)\<rparr>"
  have s1: "set_node (Some a) ?n1 w = Ok ((), ?w1)" by (rule set_node_Ok [OF assms(1)])
  have s2: "free (t_left n) ?w1 = Ok ((), ?w2)"
    using free_Ok [of ?w1 b nb] assms(2,4,6) by simp
  have s3: "free (t_right n) ?w2 = Ok ((), ?w3)"
    using free_Ok [of ?w2 c nc] assms(3,5,6,7,8) by simp
  have s4: "node_at ?w3 (Some a) = Ok ?n1"
    using assms(6,7) by (simp add: node_at_def)
  have s5: "set_node (Some a) (?n1\<lparr>t_left := None, t_right := None\<rparr>) ?w3 = Ok ((), collapse w a n e)"
    using set_node_Ok [of ?w3 a ?n1] assms(2,3,6-12)
    by (cases e) (auto simp: collapse_def leaf_node_def fun_upd_twist)
  show ?thesis
    unfolding TransformNode_def
    using assms(1) s1 s2 s3 s4 s5 by (simp add: node_at_Some seqw_Ok)
qed

text \<open>One node with two children, none of them shared.\<close>

lemma simplify_node_None:
  assumes "tree_at w p (Binary f l r)" and "fold_node M f l r = None"
  shows "simplify_node M p k w = Ok (k, w)"
proof -
  obtain n where n: "node_at w p = Ok n" "t_type n = OP_T" "t_value n = op_val f"
      "tree_at w (t_left n) l" "tree_at w (t_right n) r"
    using assms(1) tree_at_node [OF assms(1)] by auto
  obtain nl where nl: "node_at w (t_left n) = Ok nl" using tree_at_node [OF n(4)] by blast
  obtain nr where nr: "node_at w (t_right n) = Ok nr" using tree_at_node [OF n(5)] by blast
  show ?thesis
    using n nl nr assms(2)
    by (cases l; cases r) (auto simp: simplify_node_def fold_numbers_def fold_node_def split: if_splits)
qed

lemma simplify_node_Some:
  assumes "tree_at w (Some a) (Binary f l r)" and "fold_node M f l r = Some e" and "w_nodes w a = Some n"
    and "t_left n = Some b" and "t_right n = Some c" and "a \<noteq> b" and "a \<noteq> c" and "b \<noteq> c"
  shows "simplify_node M (Some a) k w = Ok (1, collapse w a n e)"
proof -
  have n: "node_at w (Some a) = Ok n" using assms(3) by (simp add: node_at_def)
  have t: "t_type n = OP_T" "t_value n = op_val f" "tree_at w (Some b) l" "tree_at w (Some c) r"
    using assms(1,4,5) n by auto
  obtain nl where nl: "node_at w (Some b) = Ok nl" "w_nodes w b = Some nl" using tree_at_node [OF t(3)] by blast
  obtain nr where nr: "node_at w (Some c) = Ok nr" "w_nodes w c = Some nr" using tree_at_node [OF t(4)] by blast
  note T = TransformNode_Ok [OF assms(3-5) nl(2) nr(2) assms(6-8)]
  from fold_node_leaf [OF assms(2)] have e: "leaf e" and lr: "leaf l" "leaf r" by simp_all
  have num: "TransformNode M (Some a) NUM_T x None w = Ok ((), collapse w a n (Num x))" for x
    by (rule T) simp_all
  have var: "TransformNode M (Some a) VAR_T d (Some s) w = Ok ((), collapse w a n (Var s))" for d s
    by (rule T) simp_all
  show ?thesis
  proof (cases l)
    case l: (Num x)
    show ?thesis
      by (cases r) (use n t nl nr assms(2,4,5) lr l num var in
        \<open>auto simp: simplify_node_def fold_numbers_def fold_node_def keep_child_def seqw_Ok split: if_splits\<close>)
  next
    case l: (Var x)
    show ?thesis
      by (cases r) (use n t nl nr assms(2,4,5) lr l num var in
        \<open>auto simp: simplify_node_def fold_numbers_def fold_node_def keep_child_def seqw_Ok split: if_splits\<close>)
  qed (use lr in auto)
qed

section \<open>The pass\<close>

lemma SimplifyTree_leaf:
  assumes "tree_at w p t" and "leaf t"
  shows "SimplifyTree M (Suc depth) p w = Ok (0, w)"
proof -
  obtain a n where "p = Some a" "node_at w p = Ok n" using tree_at_node [OF assms(1)] by blast
  with assms show ?thesis by (cases t) (auto simp: seqw_Ok)
qed

lemma SimplifyTree_Unary:
  assumes "tree_at w p (Unary f r)" and "SimplifyTree M depth (right_of w p) w = Ok (k, w')"
    and "node_at w' p = node_at w p"
  shows "SimplifyTree M (Suc depth) p w = Ok (0, w')"
proof -
  obtain a n where n: "p = Some a" "node_at w p = Ok n" using tree_at_node [OF assms(1)] by blast
  obtain c where "t_right n = Some c" using n assms(1) tree_at_node [of w "t_right n" r] by auto
  with n assms show ?thesis by (auto simp: seqw_Ok)
qed

lemma SimplifyTree_Binary:
  assumes "tree_at w p (Binary f l r)" and "SimplifyTree M depth (left_of w p) w = Ok (i, w1)"
    and "node_at w1 p = node_at w p" and "SimplifyTree M depth (right_of w p) w1 = Ok (j, w2)"
    and "node_at w2 p = node_at w p"
  shows "SimplifyTree M (Suc depth) p w = simplify_node M p (i + j) w2"
proof -
  obtain a n where n: "p = Some a" "node_at w p = Ok n" using tree_at_node [OF assms(1)] by blast
  obtain b c where "t_left n = Some b" "t_right n = Some c"
    using n assms(1) tree_at_node [of w "t_left n" l] tree_at_node [of w "t_right n" r] by auto
  with n assms show ?thesis by (auto simp: seqw_Ok)
qed

text \<open>In a frozen part nothing happens.\<close>

lemma SimplifyTree_still:
  assumes "tree_at w p t" and "still M t" and "height t < depth"
  shows "SimplifyTree M depth p w = Ok (0, w)"
  using assms
proof (induction t arbitrary: p depth)
  case (Num d)
  then obtain d where "depth = Suc d" by (cases depth) auto
  then show ?case using SimplifyTree_leaf [OF Num.prems(1), of M d] by simp
next
  case (Var s)
  then obtain d where "depth = Suc d" by (cases depth) auto
  then show ?case using SimplifyTree_leaf [OF Var.prems(1), of M d] by simp
next
  case (Unary f r)
  then obtain d where d: "depth = Suc d" "height r < d" by (cases depth) auto
  have tr: "tree_at w (right_of w p) r" and st: "still M r" using Unary.prems by simp_all
  show ?case
    unfolding d(1) by (rule SimplifyTree_Unary [OF Unary.prems(1) Unary.IH [OF tr st d(2)]]) simp
next
  case (Binary f l r)
  then obtain d where d: "depth = Suc d" "height l < d" "height r < d" by (cases depth) auto
  have tr: "tree_at w (left_of w p) l" "tree_at w (right_of w p) r" and st: "still M l" "still M r"
    and fn: "fold_node M f l r = None"
    using Binary.prems by simp_all
  have "SimplifyTree M (Suc d) p w = simplify_node M p (0 + 0) w"
    by (rule SimplifyTree_Binary [OF Binary.prems(1) Binary.IH(1) [OF tr(1) st(1) d(2)] _
        Binary.IH(2) [OF tr(2) st(2) d(3)]]) simp_all
  then show ?case
    unfolding d(1) using simplify_node_None [OF Binary.prems(1) fn] by simp
qed

text \<open>Only nodes at the addresses \<open>A\<close> change.\<close>

definition only :: "ptr set \<Rightarrow> 'd world \<Rightarrow> 'd world \<Rightarrow> bool" where
  "only A w w' \<longleftrightarrow> w' = w\<lparr>w_nodes := w_nodes w'\<rparr> \<and> agree (- A) w w'"

lemma only_iff:
  "only A w w' \<longleftrightarrow> (\<exists>ns. w' = w\<lparr>w_nodes := ns\<rparr> \<and> (\<forall>a. a \<notin> A \<longrightarrow> ns a = w_nodes w a))"
proof
  assume "only A w w'"
  then have "w' = w\<lparr>w_nodes := w_nodes w'\<rparr> \<and> (\<forall>a. a \<notin> A \<longrightarrow> w_nodes w' a = w_nodes w a)"
    by (simp add: only_def agree_def)
  then show "\<exists>ns. w' = w\<lparr>w_nodes := ns\<rparr> \<and> (\<forall>a. a \<notin> A \<longrightarrow> ns a = w_nodes w a)" by blast
qed (auto simp: only_def agree_def)

lemma only_refl [simp]: "only A w w"
  by (simp add: only_def agree_def)

lemma only_trans:
  assumes "only A w w'" and "only B w' w''" and "A \<subseteq> C" and "B \<subseteq> C"
  shows "only C w w''"
proof -
  obtain ns where ns: "w' = w\<lparr>w_nodes := ns\<rparr>" "\<And>a. a \<notin> A \<Longrightarrow> ns a = w_nodes w a"
    using assms(1) by (auto simp: only_iff)
  obtain ms where ms: "w'' = w'\<lparr>w_nodes := ms\<rparr>" "\<And>a. a \<notin> B \<Longrightarrow> ms a = w_nodes w' a"
    using assms(2) by (auto simp: only_iff)
  have "w'' = w\<lparr>w_nodes := ms\<rparr>" by (simp add: ns(1) ms(1))
  moreover have "ms a = w_nodes w a" if "a \<notin> C" for a
  proof -
    have "a \<notin> A" "a \<notin> B" using that assms(3,4) by auto
    then show ?thesis by (simp add: ns ms(2))
  qed
  ultimately show ?thesis by (auto simp: only_iff)
qed

lemma only_agree: "only A w w' \<Longrightarrow> B \<inter> A = {} \<Longrightarrow> agree B w w'"
  by (auto simp: only_def agree_def)

lemma only_node: "only A w w' \<Longrightarrow> the p \<notin> A \<Longrightarrow> node_at w' p = node_at w p"
  by (auto simp: only_def agree_def node_at_def split: option.splits)

definition sole :: "'d machine \<Rightarrow> 'd world \<Rightarrow> ptr set \<Rightarrow> ptr option \<Rightarrow> 'd expr \<Rightarrow> bool" where
  "sole M w F p t \<longleftrightarrow> tree_at w p t \<and> owned M w F p t \<and> distinct (cells w F p t)"

lemma sole_agree:
  "agree (F \<union> set (cells w F p t)) w w' \<Longrightarrow> sole M w F p t \<Longrightarrow>
     sole M w' F p t \<and> cells w' F p t = cells w F p t"
  unfolding sole_def using owned_agree [of F w p t w' M] by auto

text \<open>What a pass over the tree at \<open>p\<close> achieves.\<close>

definition pass_ok ::
    "'d machine \<Rightarrow> nat \<Rightarrow> ptr set \<Rightarrow> ptr option \<Rightarrow> 'd expr \<Rightarrow> 'd world \<Rightarrow> 'd world \<Rightarrow> bool" where
  "pass_ok M depth F p t w w' \<longleftrightarrow>
     SimplifyTree M depth p w = Ok (rewrites_of M t, w') \<and> sole M w' F p (simplified M t) \<and>
     set (cells w' F p (simplified M t)) \<subseteq> set (cells w F p t) \<and> only (set (cells w F p t)) w w'"

lemma collapse_sole:
  assumes "sole M w F (Some a) (Binary f l r)" and "fold_node M f l r = Some e" and "w_nodes w a = Some n"
  shows "\<exists>w'. simplify_node M (Some a) k w = Ok (1, w') \<and> sole M w' F (Some a) e \<and>
           cells w' F (Some a) e = [a] \<and> only (set (cells w F (Some a) (Binary f l r))) w w'"
proof -
  have n: "node_at w (Some a) = Ok n" using assms(3) by (simp add: node_at_def)
  from fold_node_leaf [OF assms(2)] have lf: "leaf e" "leaf l" "leaf r" by simp_all
  have t: "tree_at w (Some a) (Binary f l r)" "tree_at w (t_left n) l" "tree_at w (t_right n) r"
      "owned M w F (t_left n) l" "owned M w F (t_right n) r" and aF: "a \<notin> F"
    using assms(1,2) n by (auto simp: sole_def)
  obtain b where b: "t_left n = Some b" using tree_at_node [OF t(2)] by blast
  obtain c where c: "t_right n = Some c" using tree_at_node [OF t(3)] by blast
  have bc: "cells w F (Some a) (Binary f l r) = [a, b, c]"
    using t(4,5) aF lf n b c by (cases l; cases r) auto
  have d: "a \<noteq> b" "a \<noteq> c" "b \<noteq> c" using assms(1) by (auto simp: sole_def bc simp del: cells.simps)
  have s: "simplify_node M (Some a) k w = Ok (1, collapse w a n e)"
    by (rule simplify_node_Some [OF t(1) assms(2,3) b c d])
  have m: "node_at (collapse w a n e) (Some a) = Ok (leaf_node n e)"
    by (simp add: collapse_def node_at_def)
  have "only {a, b, c} w (collapse w a n e)"
    by (simp add: only_def collapse_def b c agree_def)
  moreover have "sole M (collapse w a n e) F (Some a) e \<and> cells (collapse w a n e) F (Some a) e = [a]"
    using lf(1) aF m by (cases e) (auto simp: sole_def leaf_node_def)
  ultimately show ?thesis using s bc by simp
qed

lemma pass_owned:
  assumes "sole M w F p t" and "height t < depth"
  shows "\<exists>w'. pass_ok M depth F p t w w'"
  using assms
proof (induction t arbitrary: p depth w)
  case (Num d)
  then obtain d' where "depth = Suc d'" by (cases depth) auto
  then have "pass_ok M depth F p (Num d) w w"
    using Num.prems SimplifyTree_leaf [of w p "Num d" M d'] by (simp add: pass_ok_def sole_def del: SimplifyTree.simps)
  then show ?case by blast
next
  case (Var s)
  then obtain d' where "depth = Suc d'" by (cases depth) auto
  then have "pass_ok M depth F p (Var s) w w"
    using Var.prems SimplifyTree_leaf [of w p "Var s" M d'] by (simp add: pass_ok_def sole_def del: SimplifyTree.simps)
  then show ?case by blast
next
  case (Unary f r)
  then obtain d where d: "depth = Suc d" "height r < d" by (cases depth) auto
  let ?q = "right_of w p"
  have t: "tree_at w p (Unary f r)" "tree_at w ?q r" and pF: "the p \<notin> F"
    and dist: "distinct (cells w F p (Unary f r))"
    and fo: "frozen M w F ?q r \<or> owned M w F ?q r"
    using Unary.prems(1) by (auto simp: sole_def)
  from fo show ?case
  proof
    assume fr: "frozen M w F ?q r"
    then have st: "still M r" by (simp add: frozen_def)
    have "SimplifyTree M depth p w = Ok (0, w)"
      unfolding d(1) by (rule SimplifyTree_Unary [OF t(1) SimplifyTree_still [OF t(2) st d(2)]]) simp
    then have "pass_ok M depth F p (Unary f r) w w"
      using Unary.prems(1) still_simplified [OF st] by (simp add: pass_ok_def del: SimplifyTree.simps cells.simps)
    then show ?thesis by blast
  next
    assume ow: "owned M w F ?q r"
    have dr: "distinct (cells w F ?q r)" "the p \<notin> set (cells w F ?q r)" using dist pF by simp_all
    obtain w' where w': "pass_ok M d F ?q r w w'"
      using Unary.IH [of w ?q d] t(2) ow dr(1) d(2) by (auto simp: sole_def)
    have np: "node_at w' p = node_at w p"
      using w' dr(2) by (auto simp: pass_ok_def intro: only_node)
    have "SimplifyTree M depth p w = Ok (0, w')"
      unfolding d(1) by (rule SimplifyTree_Unary [OF t(1) _ np]) (use w' in \<open>simp add: pass_ok_def\<close>)
    moreover have "left_of w' p = left_of w p" "right_of w' p = ?q" "node_is w' p = node_is w p"
      by (simp_all add: left_of_def right_of_def node_is_def np fun_eq_iff)
    ultimately have "pass_ok M depth F p (Unary f r) w w'"
      using w' t(1) pF dr by (auto simp: pass_ok_def sole_def elim: only_trans [OF _ only_refl])
    then show ?thesis by blast
  qed
next
  case (Binary f l r)
  then obtain d where d: "depth = Suc d" "height l < d" "height r < d" by (cases depth) auto
  let ?b = "left_of w p" and ?c = "right_of w p"
  have t: "tree_at w p (Binary f l r)" "tree_at w ?b l" "tree_at w ?c r" and pF: "the p \<notin> F"
    and dist: "distinct (cells w F p (Binary f l r))"
    using Binary.prems(1) by (auto simp: sole_def)
  obtain a n where n: "p = Some a" "node_at w p = Ok n" "w_nodes w a = Some n" using tree_at_node [OF t(1)] by blast
  from Binary.prems(1) consider
      (frz) "frozen M w F ?b l" "frozen M w F ?c r" "fold_node M f l r = None"
    | (own) "owned M w F ?b l" "owned M w F ?c r" by (auto simp: sole_def)
  then show ?case
  proof cases
    case frz
    then have st: "still M (Binary f l r)" by (simp add: frozen_def)
    have "pass_ok M depth F p (Binary f l r) w w"
      using Binary.prems SimplifyTree_still [OF t(1) st Binary.prems(2)] still_simplified [OF st] still_rewrites [OF st]
      by (simp add: pass_ok_def del: SimplifyTree.simps cells.simps simplified.simps rewrites_of.simps)
    then show ?thesis by blast
  next
    case own
    let ?l = "simplified M l" and ?r = "simplified M r"
    let ?L = "set (cells w F ?b l)" and ?R = "set (cells w F ?c r)"
    have dd: "distinct (cells w F ?b l)" "distinct (cells w F ?c r)" "?L \<inter> ?R = {}" "the p \<notin> ?L" "the p \<notin> ?R"
      using dist pF by auto
    obtain w1 where w1: "pass_ok M d F ?b l w w1"
      using Binary.IH(1) [of w ?b d] t(2) own(1) dd(1) d(2) by (auto simp: sole_def)
    have o1: "only ?L w w1" and c1: "set (cells w1 F ?b ?l) \<subseteq> ?L" and s1: "sole M w1 F ?b ?l"
      using w1 by (auto simp: pass_ok_def)
    have ag: "agree (F \<union> ?R) w w1"
      by (rule only_agree [OF o1]) (use dd(3) cells_outside [of w F ?b l] in auto)
    have r1: "sole M w1 F ?c r" "cells w1 F ?c r = cells w F ?c r"
      using sole_agree [OF ag, of M] t(3) own(2) dd(2) by (auto simp: sole_def)
    obtain w2 where w2: "pass_ok M d F ?c r w1 w2"
      using Binary.IH(2) [OF r1(1) d(3)] by blast
    have o2: "only ?R w1 w2" and c2: "set (cells w2 F ?c ?r) \<subseteq> ?R" and s2: "sole M w2 F ?c ?r"
      using w2 r1(2) by (auto simp: pass_ok_def)
    have "agree (F \<union> set (cells w1 F ?b ?l)) w1 w2"
      by (rule only_agree [OF o2]) (use c1 dd(3) cells_outside [of w F ?c r] in auto)
    then have l2: "sole M w2 F ?b ?l" "cells w2 F ?b ?l = cells w1 F ?b ?l"
      using sole_agree s1 by blast+
    have n1: "node_at w1 p = node_at w p" by (rule only_node [OF o1 dd(4)])
    have n2: "node_at w2 p = node_at w p" using only_node [OF o2 dd(5)] n1 by simp
    have run: "SimplifyTree M depth p w = simplify_node M p (rewrites_of M l + rewrites_of M r) w2"
      unfolding d(1)
      by (rule SimplifyTree_Binary [OF t(1) _ n1 _ n2]) (use w1 w2 in \<open>simp_all add: pass_ok_def\<close>)
    have at2: "left_of w2 p = ?b" "right_of w2 p = ?c" "node_is w2 p = node_is w p"
      by (simp_all add: left_of_def right_of_def node_is_def n2 fun_eq_iff)
    have cells2: "cells w2 F p (Binary f ?l ?r) = the p # cells w1 F ?b ?l @ cells w2 F ?c ?r"
      using pF l2(2) by (simp add: at2)
    have sole2: "sole M w2 F p (Binary f ?l ?r)"
      using s2 l2 t(1) pF c1 c2 dd unfolding sole_def cells2 by (auto simp: at2)
    have sub: "set (cells w2 F p (Binary f ?l ?r)) \<subseteq> set (cells w F p (Binary f l r))"
      unfolding cells2 using c1 c2 pF by auto
    have o12: "only (set (cells w F p (Binary f l r))) w w2"
      by (rule only_trans [OF o1 o2]) (use pF in auto)
    show ?thesis
    proof (cases "fold_node M f ?l ?r")
      case None
      have "simplify_node M p k w2 = Ok (k, w2)" for k
        by (rule simplify_node_None [OF _ None]) (use sole2 in \<open>simp add: sole_def\<close>)
      then have "pass_ok M depth F p (Binary f l r) w w2"
        using run sole2 sub o12 None by (simp add: pass_ok_def del: cells.simps SimplifyTree.simps)
      then show ?thesis by blast
    next
      case (Some e)
      have "w_nodes w2 a = Some n" using n2 n by (auto simp: node_at_def split: option.splits)
      then obtain w3 where w3: "simplify_node M (Some a) (rewrites_of M l + rewrites_of M r) w2 = Ok (1, w3)"
          "sole M w3 F (Some a) e" "cells w3 F (Some a) e = [a]"
          "only (set (cells w2 F (Some a) (Binary f ?l ?r))) w2 w3"
        using collapse_sole [OF sole2 [unfolded n(1)] Some] by blast
      have "only (set (cells w F p (Binary f l r))) w w3"
        by (rule only_trans [OF o12 w3(4)]) (use sub n(1) in simp_all)
      then have "pass_ok M depth F p (Binary f l r) w w3"
        using run w3 n(1) Some pF by (simp add: pass_ok_def del: SimplifyTree.simps) 
      then show ?thesis by blast
    qed
  qed
qed

section \<open>The loop\<close>

lemma SimplifyAll_loop:
  assumes "sole M w F p t" and "height t < depth"
  shows "\<exists>w'. while_do (\<lambda>(again, w). again)
            (\<lambda>(again, w). rbind (SimplifyTree M depth p w) (\<lambda>(k, w'). Ok (k \<noteq> 0, w'))) (True, w) = Ok (False, w') \<and>
           sole M w' F p (simplified_all M t) \<and>
           set (cells w' F p (simplified_all M t)) \<subseteq> set (cells w F p t) \<and> only (set (cells w F p t)) w w'"
    (is "\<exists>w'. ?loop w = _ \<and> _")
  using assms
proof (induction M t arbitrary: w rule: simplified_all.induct)
  case (1 M t)
  obtain w1 where w1: "pass_ok M depth F p t w w1" using pass_owned [OF 1(2,3)] by blast
  have step: "while_do (\<lambda>(again, w). again)
            (\<lambda>(again, w). rbind (SimplifyTree M depth p w) (\<lambda>(k, w'). Ok (k \<noteq> 0, w'))) (True, w) =
        while_do (\<lambda>(again, w). again)
            (\<lambda>(again, w). rbind (SimplifyTree M depth p w) (\<lambda>(k, w'). Ok (k \<noteq> 0, w'))) (rewrites_of M t \<noteq> 0, w1)"
    by (rule while_do_step) (use w1 in \<open>simp_all add: pass_ok_def\<close>)
  show ?case
  proof (cases "rewrites_of M t = 0")
    case True
    then show ?thesis
      using w1 unfolding step simplified_all.simps [of M t] by (simp add: pass_ok_def)
  next
    case False
    have h: "height (simplified M t) < depth" using height_simplified [of M t] 1(3) by simp
    have s1: "sole M w1 F p (simplified M t)" and c1: "set (cells w1 F p (simplified M t)) \<subseteq> set (cells w F p t)"
      and o1: "only (set (cells w F p t)) w w1"
      using w1 by (auto simp: pass_ok_def)
    from 1(1) [OF False s1 h] obtain w2 where w2: "while_do (\<lambda>(again, w). again)
            (\<lambda>(again, w). rbind (SimplifyTree M depth p w) (\<lambda>(k, w'). Ok (k \<noteq> 0, w'))) (True, w1) = Ok (False, w2)"
        "sole M w2 F p (simplified_all M (simplified M t))"
        "set (cells w2 F p (simplified_all M (simplified M t))) \<subseteq> set (cells w1 F p (simplified M t))"
        "only (set (cells w1 F p (simplified M t))) w1 w2"
      by blast
    have "only (set (cells w F p t)) w w2" by (rule only_trans [OF o1 w2(4)]) (use c1 in auto)
    then show ?thesis
      using False w2 c1 unfolding step simplified_all.simps [of M t] by auto
  qed
qed

lemma SimplifyAll_owned:
  assumes "sole M w F p t" and "height t < depth"
  shows "\<exists>w'. SimplifyAll M depth p w = Ok ((), w') \<and> sole M w' F p (simplified_all M t) \<and>
           set (cells w' F p (simplified_all M t)) \<subseteq> set (cells w F p t) \<and> only (set (cells w F p t)) w w'"
  using SimplifyAll_loop [OF assms] unfolding SimplifyAll_def by fastforce

end
