(* ===== verification/DC_Frontend.thy ===== *)
theory DC_Frontend
  imports DC_SimplifyHeap
begin

text \<open>
  The output of the calculator (\<open>src/frontend.cpp\<close>): a tree as a LaTeX formula, a tree as a graph,
  and the step that prints a derivative and simplifies it.  The recursions over a tree that a
  function starts itself get the number of nodes allocated so far as their depth; a tree without
  cycles is not higher (\<open>height_bound\<close>).
\<close>

section \<open>Formulas\<close>

definition IsFictiveZero :: "Operations \<Rightarrow> bool" where
  "IsFictiveZero x \<longleftrightarrow> x = SIN \<or> x = COS \<or> x = TG \<or> x = CTG \<or> x = LN"

definition isNeedDivision :: "'d machine \<Rightarrow> 'd world \<Rightarrow> ptr option \<Rightarrow> (dc_error, bool) res" where
  "isNeedDivision M w op_node =
     rbind (node_at w op_node) (\<lambda>n.
       if t_type n \<noteq> OP_T then Ok False
       else if as_op M (t_value n) = ADD \<or> as_op M (t_value n) = SUB then Ok False
       else if as_op M (t_value n) = SIN \<or> as_op M (t_value n) = COS \<or> as_op M (t_value n) = LN then Ok True
       else rbind (node_at w (t_left n)) (\<lambda>l.
         if t_left l \<noteq> None \<or> t_right l \<noteq> None then Ok True
         else rbind (node_at w (t_right n)) (\<lambda>r. Ok (t_left r \<noteq> None \<or> t_right r \<noteq> None))))"

definition GetOpSign :: "Operations \<Rightarrow> string" where
  "GetOpSign x =
     (case x of ADD \<Rightarrow> ''+'' | SUB \<Rightarrow> ''-'' | DIV \<Rightarrow> ''/'' | MUL \<Rightarrow> tex ''cdot'' | POW \<Rightarrow> ''^''
      | SIN \<Rightarrow> tex ''sin'' | TG \<Rightarrow> ''tg'' | CTG \<Rightarrow> ''ctg'' | COS \<Rightarrow> tex ''cos'' | LN \<Rightarrow> ''ln'' | LOG \<Rightarrow> ''log''
      | ARCCOS \<Rightarrow> ''arccos'' | ARCSIN \<Rightarrow> ''ARCSIN'' | _ \<Rightarrow> ''?'')"

definition print_if :: "bool \<Rightarrow> string \<Rightarrow> ('d, unit) op" where
  "print_if b s = (if b then printw [Text s] else ret ())"

text \<open>The text of the node itself.\<close>

definition print_node :: "'d machine \<Rightarrow> 'd TreeNode \<Rightarrow> ('d, unit) op" where
  "print_node M n =
     (case t_type n of
        NUM_T \<Rightarrow> printw [Dbl (as_dbl M (t_value n))]
      | OP_T \<Rightarrow> printw [Text (GetOpSign (as_op M (t_value n)))]
      | VAR_T \<Rightarrow> seqw (readw (\<lambda>w. as_name (t_value n))) (\<lambda>s.
          case s of None \<Rightarrow> (\<lambda>w. UB) | Some c \<Rightarrow> printw [Text (c_text c)]))"

fun PrintInOrder :: "'d machine \<Rightarrow> nat \<Rightarrow> ptr option \<Rightarrow> ('d, unit) op" where
  "PrintInOrder M 0 node = (\<lambda>w. UB)"
| "PrintInOrder M (Suc depth) node =
     assertw (node \<noteq> None)
       (seqw (printw [Text ''{'']) (\<lambda>_.
        seqw (readw (\<lambda>w. isNeedDivision M w node)) (\<lambda>need_div.
        seqw (readw (\<lambda>w. node_at w node)) (\<lambda>n.
        seqw (print_if (t_type n = OP_T \<and> as_op M (t_value n) = DIV) (tex ''frac{'')) (\<lambda>_.
        seqw (if t_left n \<noteq> None \<and> \<not> IsFictiveZero (as_op M (t_value n))
              then seqw (print_if need_div ''{('') (\<lambda>_.
                seqw (PrintInOrder M depth (t_left n)) (\<lambda>_. print_if need_div '')}''))
              else ret ()) (\<lambda>_.
        seqw (if t_type n = OP_T \<and> as_op M (t_value n) = DIV then printw [Text ''}{''] else print_node M n) (\<lambda>_.
        seqw (if t_right n \<noteq> None
              then seqw (print_if need_div ''{('') (\<lambda>_.
                seqw (PrintInOrder M depth (t_right n)) (\<lambda>_. print_if need_div '')}''))
              else ret ()) (\<lambda>_.
        seqw (print_if (t_type n = OP_T \<and> as_op M (t_value n) = DIV) ''}'') (\<lambda>_.
        printw [Text ''}''])))))))))"

section \<open>Graphs\<close>

text \<open>
  The name of a variable is passed to \<open>fprintf\<close> as the union that holds it, where a pointer is
  expected.  The standard leaves this undefined; \<open>m_union_as_pointer\<close> says that the calling convention
  passes the union like its pointer.
\<close>

fun InitGraphvisNode :: "'d machine \<Rightarrow> nat \<Rightarrow> 'd world \<Rightarrow> ptr option \<Rightarrow> (dc_error, 'd Dot list) res" where
  "InitGraphvisNode M 0 w node = UB"
| "InitGraphvisNode M (Suc depth) w node =
     (if node = None then Err AssertFailed
      else rbind (node_at w node) (\<lambda>n.
        rbind (case t_type n of
                 NUM_T \<Rightarrow> Ok (Dot_number (the node) (as_dbl M (t_value n)))
               | OP_T \<Rightarrow> Ok (Dot_operation (the node) (GetOpSign (as_op M (t_value n))))
               | VAR_T \<Rightarrow> rbind (as_name (t_value n)) (\<lambda>s.
                   case s of
                     None \<Rightarrow> UB
                   | Some c \<Rightarrow> if m_union_as_pointer M then Ok (Dot_variable (the node) (c_text c)) else UB)) (\<lambda>this.
        rbind (if t_left n = None then Ok [] else InitGraphvisNode M depth w (t_left n)) (\<lambda>l.
        rbind (if t_right n = None then Ok [] else InitGraphvisNode M depth w (t_right n)) (\<lambda>r.
        Ok (this # l @ r))))))"

fun RecursDrawConnections :: "nat \<Rightarrow> 'd world \<Rightarrow> ptr option \<Rightarrow> (dc_error, 'd Dot list) res" where
  "RecursDrawConnections 0 w node = UB"
| "RecursDrawConnections (Suc depth) w node =
     (if node = None then Err AssertFailed
      else rbind (node_at w node) (\<lambda>n.
        rbind (case t_left n of None \<Rightarrow> Ok [] | Some l \<Rightarrow>
                 rbind (RecursDrawConnections depth w (t_left n)) (\<lambda>ds. Ok (Dot_edge (the node) l # ds))) (\<lambda>ls.
        rbind (case t_right n of None \<Rightarrow> Ok [] | Some r \<Rightarrow>
                 rbind (RecursDrawConnections depth w (t_right n)) (\<lambda>ds. Ok (Dot_edge (the node) r # ds))) (\<lambda>rs.
        Ok (ls @ rs)))))"

text \<open>The counter of the images is the number of graphs drawn before.\<close>

definition DrawTree :: "'d machine \<Rightarrow> ptr option \<Rightarrow> ('d, unit) op" where
  "DrawTree M root w =
     (if root = None then Err AssertFailed
      else rbind (InitGraphvisNode M (w_next w) w root) (\<lambda>nodes.
        rbind (RecursDrawConnections (w_next w) w root) (\<lambda>edges.
        Ok ((), w\<lparr>w_dots := w_dots w @ [nodes @ edges],
          w_system := w_system w @
            [''dot -Tpng data/graph.dot -o data/pretty_tree'' @ to_string (length (w_dots w)) @ ''.png'']\<rparr>))))"

section \<open>Steps\<close>

datatype PrintTypes = ORIGIN | DERIVATIVE | INFO | RESULT

text \<open>The number of entries of \<open>UselessPhrases\<close> in \<open>include/cowboy_phrases.h\<close>.\<close>

definition UselessPhrases_size :: nat where
  "UselessPhrases_size = 27"

definition newline :: string where
  "newline = [CHR 0x0A]"

definition equation :: "('d, unit) op \<Rightarrow> ('d, unit) op" where
  "equation X =
     seqw (printw [Text (newline @ tex ''begin{center}$'' @ newline)]) (\<lambda>_.
     seqw X (\<lambda>_. printw [Text (newline @ ''$'' @ tex ''end{center}'' @ newline)]))"

definition divider :: string where
  "divider = tex ''begin{center} $'' @ tex ''clubsuit$~$'' @ tex ''clubsuit$~$'' @ tex ''clubsuit$ '' @ tex ''end{center}''"

definition with_depth :: "(nat \<Rightarrow> ('d, 'a) op) \<Rightarrow> ('d, 'a) op" where
  "with_depth f w = f (w_next w) w"

definition next_phrase :: "('d, unit) op" where
  "next_phrase w =
     (if w_phrases w < UselessPhrases_size
      then Ok ((), w\<lparr>w_out := w_out w @ [Phrase (w_phrases w)], w_phrases := Suc (w_phrases w)\<rparr>)
      else UB)"

definition PrintBranch :: "'d machine \<Rightarrow> ptr option \<Rightarrow> PrintTypes \<Rightarrow> ('d, unit) op" where
  "PrintBranch M root mode =
     assertw (root \<noteq> None)
       (seqw
         (case mode of
            ORIGIN \<Rightarrow>
              seqw (DrawTree M root) (\<lambda>_.
              seqw (printw [Opening]) (\<lambda>_.
              equation (with_depth (\<lambda>depth. PrintInOrder M depth root))))
          | DERIVATIVE \<Rightarrow>
              seqw next_phrase (\<lambda>_.
              seqw (equation (with_depth (\<lambda>depth. PrintInOrder M depth root))) (\<lambda>_.
              with_depth (\<lambda>depth. SimplifyAll M depth root)))
          | RESULT \<Rightarrow>
              seqw (with_depth (\<lambda>depth. SimplifyTree M depth root)) (\<lambda>_.
              seqw (printw [Farewell]) (\<lambda>_.
              equation (with_depth (\<lambda>depth. PrintInOrder M depth root))))
          | INFO \<Rightarrow> ret ())
         (\<lambda>_. printw [Text divider]))"

text \<open>
  The header goes to \<open>fprintf\<close> as the format, and its LaTeX comments are no valid conversions.  The
  standard leaves this undefined; \<open>m_copies_conversions\<close> says that the library copies such a
  conversion to the output as it stands.
\<close>

definition InitLatexFile :: "'d machine \<Rightarrow> ptr option \<Rightarrow> ('d, unit) op" where
  "InitLatexFile M root =
     assertw (root \<noteq> None)
       (seqw (\<lambda>w. if m_copies_conversions M then Ok ((), w\<lparr>w_out := [Header, Introduction]\<rparr>) else UB) (\<lambda>_.
        seqw (with_depth (\<lambda>depth. PrintGraphic M depth root (-50) 50)) (\<lambda>_.
        PrintBranch M root ORIGIN)))"

definition CalcFuncInPoint :: "'d machine \<Rightarrow> ptr option \<Rightarrow> 'd \<Rightarrow> ('d, unit) op" where
  "CalcFuncInPoint M root val =
     assertw (root \<noteq> None)
       (seqw (printw [Text (tex ''textbf{Got to calculate function in point} ''), Dbl val, Text newline]) (\<lambda>_.
        seqw (readw (\<lambda>w. CalcTree M (w_next w) root val w)) (\<lambda>tmp.
        printw [Text ''The result is '', Dbl tmp, Text divider])))"

definition GeneratePdf :: "('d, unit) op" where
  "GeneratePdf w = Ok ((), w\<lparr>w_out := w_out w @ [Ending], w_system := w_system w @ [''run_latex.bat'']\<rparr>)"

section \<open>What is printed\<close>

text \<open>The depth of a tree is less than the number of allocated nodes.\<close>

lemma tree_at_unique: "tree_at w p t \<Longrightarrow> tree_at w p t' \<Longrightarrow> t' = t"
proof (induction t arbitrary: p t')
  case (Num d)
  then show ?case by (cases t') (auto dest!: node_isD)
next
  case (Var s)
  then show ?case by (cases t') (auto dest!: node_isD)
next
  case (Unary f r)
  show ?case
    using Unary.prems Unary.IH [of "right_of w p"] by (cases t') (auto dest!: node_isD)
next
  case (Binary f l r)
  show ?case
    using Binary.prems Binary.IH(1) [of "left_of w p"] Binary.IH(2) [of "right_of w p"]
    by (cases t') (auto dest!: node_isD)
qed

lemma tree_at_heights:
  "tree_at w p t \<Longrightarrow> k \<le> height t \<Longrightarrow> \<exists>a s. tree_at w (Some a) s \<and> height s = k"
proof (induction t arbitrary: p)
  case (Unary f r)
  show ?case
  proof (cases "k = height (Unary f r)")
    case True
    then show ?thesis using Unary.prems(1) tree_at_node [OF Unary.prems(1)] by metis
  next
    case False
    then show ?thesis using Unary.prems Unary.IH [of "right_of w p"] by simp
  qed
next
  case (Binary f l r)
  show ?case
  proof (cases "k = height (Binary f l r)")
    case True
    then show ?thesis using Binary.prems(1) tree_at_node [OF Binary.prems(1)] by metis
  next
    case False
    then have "k \<le> height l \<or> k \<le> height r" using Binary.prems(2) by auto
    then show ?thesis
      using Binary.prems(1) Binary.IH(1) [of "left_of w p"] Binary.IH(2) [of "right_of w p"] by auto
  qed
qed (use tree_at_node in fastforce)+

lemma height_bound:
  assumes "tree_at w p t" and "fresh_above w"
  shows "height t < w_next w"
proof -
  define at where "at k = (SOME a. \<exists>s. tree_at w (Some a) s \<and> height s = k)" for k
  have at: "\<exists>s. tree_at w (Some (at k)) s \<and> height s = k" if "k \<le> height t" for k
    unfolding at_def by (rule someI_ex) (rule tree_at_heights [OF assms(1) that])
  have "inj_on at {..height t}"
    by (rule inj_onI) (metis at atMost_iff tree_at_unique)
  moreover have "at ` {..height t} \<subseteq> {..<w_next w}"
  proof
    fix a assume "a \<in> at ` {..height t}"
    then obtain s where "tree_at w (Some a) s" using at by auto
    then have "w_nodes w a \<noteq> None" using tree_at_node [of w "Some a" s] by auto
    then show "a \<in> {..<w_next w}" using assms(2) by (auto simp: fresh_above_def not_less [symmetric])
  qed
  ultimately have "card {..height t} \<le> card {..<w_next w}" by (meson card_inj_on_le finite_lessThan)
  then show ?thesis by simp
qed

text \<open>Formulas that print: the only functions of one argument are the ones the parser creates.\<close>

fun printable :: "'d expr \<Rightarrow> bool" where
  "printable (Num d) = True"
| "printable (Var s) = True"
| "printable (Unary f r) = ((f = SIN \<or> f = COS \<or> f = LN) \<and> printable r)"
| "printable (Binary f l r) = (printable l \<and> printable r)"

definition wrap :: "bool \<Rightarrow> 'd Piece list \<Rightarrow> 'd Piece list" where
  "wrap b ps = (if b then [Text ''{(''] @ ps @ [Text '')}''] else ps)"

fun in_brackets :: "'d expr \<Rightarrow> bool" where
  "in_brackets (Unary f r) = True"
| "in_brackets (Binary f l r) =
     (f \<noteq> ADD \<and> f \<noteq> SUB \<and> (f = SIN \<or> f = COS \<or> f = LN \<or> \<not> leaf l \<or> \<not> leaf r))"
| "in_brackets _ = False"

fun formula :: "'d expr \<Rightarrow> 'd Piece list" where
  "formula (Num d) = [Text ''{'', Dbl d, Text ''}'']"
| "formula (Var s) = [Text ''{'', Text (c_text s), Text ''}'']"
| "formula (Unary f r) = [Text ''{'', Text (GetOpSign f)] @ wrap True (formula r) @ [Text ''}'']"
| "formula (Binary f l r) =
     [Text ''{''] @ (if f = DIV then [Text (tex ''frac{'')] else []) @
     (if IsFictiveZero f then [] else wrap (in_brackets (Binary f l r)) (formula l)) @
     (if f = DIV then [Text ''}{''] else [Text (GetOpSign f)]) @
     wrap (in_brackets (Binary f l r)) (formula r) @
     (if f = DIV then [Text ''}''] else []) @ [Text ''}'']"

text \<open>The operation only appends the pieces to the output.\<close>

definition emits :: "'d world \<Rightarrow> ('d, unit) op \<Rightarrow> 'd Piece list \<Rightarrow> bool" where
  "emits w m ps \<longleftrightarrow> (\<forall>out. m (w\<lparr>w_out := out\<rparr>) = Ok ((), w\<lparr>w_out := out @ ps\<rparr>))"

lemma emits_printw: "emits w (printw ps) ps"
  by (simp add: emits_def printw_def)

lemma emits_ret: "emits w (ret ()) []"
  by (simp add: emits_def)

lemma emits_print_if: "emits w (print_if b s) (if b then [Text s] else [])"
  by (simp add: print_if_def emits_printw emits_ret)

lemma emits_seqw: "emits w m ps \<Longrightarrow> emits w f qs \<Longrightarrow> emits w (seqw m (\<lambda>_. f)) (ps @ qs)"
  by (simp add: emits_def seqw_Ok)

lemma node_at_out [simp]: "node_at (w\<lparr>w_out := out\<rparr>) = node_at w"
  by (auto simp: node_at_def fun_eq_iff split: option.split)

lemma isNeedDivision_out [simp]: "isNeedDivision M (w\<lparr>w_out := out\<rparr>) = isNeedDivision M w"
  by (simp add: isNeedDivision_def fun_eq_iff cong: if_cong)

lemma emits_read: "(\<And>out. r (w\<lparr>w_out := out\<rparr>) = Ok a) \<Longrightarrow> emits w (f a) ps \<Longrightarrow> emits w (seqw (readw r) f) ps"
  by (simp add: emits_def)

lemma emits_assert: "b \<Longrightarrow> emits w m ps \<Longrightarrow> emits w (assertw b m) ps"
  by simp

lemma emits_eq: "emits w m ps \<Longrightarrow> ps = qs \<Longrightarrow> emits w m qs"
  by simp

lemmas emits_intros = emits_assert emits_read emits_seqw emits_printw emits_ret emits_print_if

lemma tree_at_children:
  assumes "tree_at w p t" and "node_at w p = Ok n"
  shows "t_left n \<noteq> None \<or> t_right n \<noteq> None \<longleftrightarrow> \<not> leaf t"
proof -
  have "tree_at w q s \<Longrightarrow> q \<noteq> None" for q s using tree_at_node by blast
  with assms show ?thesis by (cases t) auto
qed

lemma isNeedDivision_tree:
  assumes "tree_at w p t" and "printable t"
  shows "isNeedDivision M w p = Ok (in_brackets t)"
proof -
  obtain a n where n: "node_at w p = Ok n" using tree_at_node [OF assms(1)] by blast
  show ?thesis
  proof (cases t)
    case (Binary f l r)
    have t: "tree_at w (t_left n) l" "tree_at w (t_right n) r" "t_type n = OP_T" "t_value n = op_val f"
      using assms(1) n Binary by auto
    obtain nl where nl: "node_at w (t_left n) = Ok nl" using tree_at_node [OF t(1)] by blast
    obtain nr where nr: "node_at w (t_right n) = Ok nr" using tree_at_node [OF t(2)] by blast
    show ?thesis
      using n nl nr t(3,4) tree_at_children [OF t(1) nl] tree_at_children [OF t(2) nr] Binary
      by (auto simp: isNeedDivision_def)
  qed (use assms n in \<open>auto simp: isNeedDivision_def\<close>)
qed

lemma emits_child:
  assumes "emits w m ps"
  shows "emits w (seqw (print_if b ''{('') (\<lambda>_. seqw m (\<lambda>_. print_if b '')}''))) (wrap b ps)"
  by (rule emits_eq [OF emits_seqw [OF emits_print_if emits_seqw [OF assms emits_print_if]]])
    (simp add: wrap_def)

text \<open>One call of \<open>PrintInOrder\<close>, the node and the output of the children given.\<close>

lemma emits_node:
  assumes "node_at w p = Ok n" and "isNeedDivision M w p = Ok b" and "emits w (print_node M n) own"
    and "t_left n \<noteq> None \<Longrightarrow> \<not> IsFictiveZero (as_op M (t_value n)) \<Longrightarrow>
           emits w (PrintInOrder M depth (t_left n)) ls"
    and "t_right n \<noteq> None \<Longrightarrow> emits w (PrintInOrder M depth (t_right n)) rs"
    and "frac \<longleftrightarrow> t_type n = OP_T \<and> as_op M (t_value n) = DIV"
  shows "emits w (PrintInOrder M (Suc depth) p)
     ([Text ''{''] @ (if frac then [Text (tex ''frac{'')] else []) @
      (if t_left n \<noteq> None \<and> \<not> IsFictiveZero (as_op M (t_value n)) then wrap b ls else []) @
      (if frac then [Text ''}{''] else own) @
      (if t_right n \<noteq> None then wrap b rs else []) @
      (if frac then [Text ''}''] else []) @ [Text ''}''])"
proof -
  have own: "emits w (if frac then printw [Text ''}{''] else print_node M n) (if frac then [Text ''}{''] else own)"
    using assms(3) by (simp add: emits_printw)
  have left: "emits w
      (if t_left n \<noteq> None \<and> \<not> IsFictiveZero (as_op M (t_value n))
       then seqw (print_if b ''{('') (\<lambda>_. seqw (PrintInOrder M depth (t_left n)) (\<lambda>_. print_if b '')}''))
       else ret ())
      (if t_left n \<noteq> None \<and> \<not> IsFictiveZero (as_op M (t_value n)) then wrap b ls else [])"
  proof (cases "t_left n \<noteq> None \<and> \<not> IsFictiveZero (as_op M (t_value n))")
    case True
    then show ?thesis using emits_child [OF assms(4)] by simp
  next
    case False
    then show ?thesis using emits_ret by auto
  qed
  have right: "emits w
      (if t_right n \<noteq> None
       then seqw (print_if b ''{('') (\<lambda>_. seqw (PrintInOrder M depth (t_right n)) (\<lambda>_. print_if b '')}''))
       else ret ())
      (if t_right n \<noteq> None then wrap b rs else [])"
    using emits_child [OF assms(5)] by (simp add: emits_ret)
  have p: "p \<noteq> None" using assms(1) node_at_OkD by fastforce
  show ?thesis
    unfolding PrintInOrder.simps
  proof (rule emits_assert [OF p emits_seqw [OF emits_printw]])
    show "emits w
      (seqw (readw (\<lambda>w. isNeedDivision M w p)) (\<lambda>need_div.
        seqw (readw (\<lambda>w. node_at w p)) (\<lambda>n.
        seqw (print_if (t_type n = OP_T \<and> as_op M (t_value n) = DIV) (tex ''frac{'')) (\<lambda>_.
        seqw (if t_left n \<noteq> None \<and> \<not> IsFictiveZero (as_op M (t_value n))
              then seqw (print_if need_div ''{('') (\<lambda>_.
                seqw (PrintInOrder M depth (t_left n)) (\<lambda>_. print_if need_div '')}''))
              else ret ()) (\<lambda>_.
        seqw (if t_type n = OP_T \<and> as_op M (t_value n) = DIV then printw [Text ''}{''] else print_node M n) (\<lambda>_.
        seqw (if t_right n \<noteq> None
              then seqw (print_if need_div ''{('') (\<lambda>_.
                seqw (PrintInOrder M depth (t_right n)) (\<lambda>_. print_if need_div '')}''))
              else ret ()) (\<lambda>_.
        seqw (print_if (t_type n = OP_T \<and> as_op M (t_value n) = DIV) ''}'') (\<lambda>_.
        printw [Text ''}'']))))))))
      ((if frac then [Text (tex ''frac{'')] else []) @
      (if t_left n \<noteq> None \<and> \<not> IsFictiveZero (as_op M (t_value n)) then wrap b ls else []) @
      (if frac then [Text ''}{''] else own) @
      (if t_right n \<noteq> None then wrap b rs else []) @
      (if frac then [Text ''}''] else []) @ [Text ''}''])"
      by (rule emits_read [where a = b], simp add: assms(2), rule emits_read [where a = n], simp add: assms(1),
          unfold assms(6) [symmetric])
        (rule emits_seqw [OF emits_print_if] emits_seqw [OF left] emits_seqw [OF own] emits_seqw [OF right]
          emits_printw)+
  qed
qed

lemma PrintInOrder_formula:
  assumes "tree_at w p t" and "printable t" and "height t < depth"
  shows "emits w (PrintInOrder M depth p) (formula t)"
  using assms
proof (induction t arbitrary: p depth)
  case (Num d)
  then obtain k where k: "depth = Suc k" by (cases depth) auto
  obtain a n where n: "node_at w p = Ok n" using tree_at_node [OF Num.prems(1)] by blast
  have own: "emits w (print_node M n) [Dbl d]"
    using n Num.prems(1) by (simp add: print_node_def emits_printw)
  show ?case
    unfolding k
    by (rule emits_eq [OF emits_node [OF n isNeedDivision_tree [OF Num.prems(1,2)] own _ _ refl]])
      (use n Num.prems(1) in simp_all)
next
  case (Var s)
  then obtain k where k: "depth = Suc k" by (cases depth) auto
  obtain a n where n: "node_at w p = Ok n" using tree_at_node [OF Var.prems(1)] by blast
  have own: "emits w (print_node M n) [Text (c_text s)]"
    using n Var.prems(1) by (simp add: print_node_def emits_def printw_def)
  show ?case
    unfolding k
    by (rule emits_eq [OF emits_node [OF n isNeedDivision_tree [OF Var.prems(1,2)] own _ _ refl]])
      (use n Var.prems(1) in simp_all)
next
  case (Unary f r)
  then obtain k where k: "depth = Suc k" "height r < k" by (cases depth) auto
  obtain a n where n: "node_at w p = Ok n" using tree_at_node [OF Unary.prems(1)] by blast
  have own: "emits w (print_node M n) [Text (GetOpSign f)]"
    using n Unary.prems(1) by (simp add: print_node_def emits_printw)
  have r: "tree_at w (t_right n) r" using n Unary.prems(1) by simp
  obtain c where c: "t_right n = Some c" using tree_at_node [OF r] by blast
  have rec: "emits w (PrintInOrder M k (t_right n)) (formula r)"
    using Unary.IH [OF r _ k(2)] Unary.prems(2) by simp
  show ?case
    unfolding k(1)
    by (rule emits_eq [OF emits_node [OF n isNeedDivision_tree [OF Unary.prems(1,2)] own _ rec refl]])
      (use n c Unary.prems(1,2) in auto)
next
  case (Binary f l r)
  then obtain k where k: "depth = Suc k" "height l < k" "height r < k" by (cases depth) auto
  obtain a n where n: "node_at w p = Ok n" using tree_at_node [OF Binary.prems(1)] by blast
  have own: "emits w (print_node M n) [Text (GetOpSign f)]"
    using n Binary.prems(1) by (simp add: print_node_def emits_printw)
  have t: "tree_at w (t_left n) l" "tree_at w (t_right n) r" using n Binary.prems(1) by simp_all
  obtain b where b: "t_left n = Some b" using tree_at_node [OF t(1)] by blast
  obtain c where c: "t_right n = Some c" using tree_at_node [OF t(2)] by blast
  have rec: "emits w (PrintInOrder M k (t_left n)) (formula l)" "emits w (PrintInOrder M k (t_right n)) (formula r)"
    using Binary.IH(1) [OF t(1) _ k(2)] Binary.IH(2) [OF t(2) _ k(3)] Binary.prems(2) by simp_all
  show ?case
    unfolding k(1)
    by (rule emits_eq [OF emits_node [OF n isNeedDivision_tree [OF Binary.prems(1,2)] own rec refl]])
      (use n b c Binary.prems(1,2) in \<open>simp del: in_brackets.simps\<close>)
qed

section \<open>A printed step\<close>

lemma fold_node_printable: "fold_node M f l r = Some e \<Longrightarrow> printable e"
  using fold_node_leaf by (cases e) fastforce+

lemma simplified_printable: "printable t \<Longrightarrow> printable (simplified M t)"
  by (induction t) (auto split: option.split dest: fold_node_printable)

lemma simplified_all_printable: "printable t \<Longrightarrow> printable (simplified_all M t)"
  by (induction M t rule: simplified_all.induct)
    (subst simplified_all.simps, simp add: simplified_printable)

lemma sole_same_nodes:
  "w_nodes w' = w_nodes w \<Longrightarrow> sole M w F p t \<Longrightarrow> sole M w' F p t \<and> cells w' F p t = cells w F p t"
  by (rule sole_agree) (simp_all add: agree_def)

lemma emits_run: "emits w m ps \<Longrightarrow> m w = Ok ((), w\<lparr>w_out := w_out w @ ps\<rparr>)"
  unfolding emits_def by (drule spec [of _ "w_out w"]) simp

lemma emits_equation:
  "emits w X ps \<Longrightarrow> emits w (equation X)
     ([Text (newline @ tex ''begin{center}$'' @ newline)] @ ps @
      [Text (newline @ ''$'' @ tex ''end{center}'' @ newline)])"
  unfolding equation_def by (intro emits_seqw emits_printw)

lemma emits_formula:
  assumes "tree_at w p t" and "printable t" and "fresh_above w"
  shows "emits w (with_depth (\<lambda>depth. PrintInOrder M depth p)) (formula t)"
  using PrintInOrder_formula [OF assms(1,2) height_bound [OF assms(1,3)], of M]
  by (simp add: emits_def with_depth_def)

lemma PrintBranch_derivative:
  assumes "sole M w F p t" and "printable t" and "fresh_above w" and "w_phrases w < UselessPhrases_size"
  shows "\<exists>w'. PrintBranch M p DERIVATIVE w = Ok ((), w') \<and> sole M w' F p (simplified_all M t) \<and>
           set (cells w' F p (simplified_all M t)) \<subseteq> set (cells w F p t) \<and>
           agree (- set (cells w F p t)) w w' \<and> w_next w' = w_next w \<and> w_phrases w' = Suc (w_phrases w) \<and>
           w_graph w' = w_graph w"
proof -
  let ?w1 = "w\<lparr>w_out := w_out w @ [Phrase (w_phrases w)], w_phrases := Suc (w_phrases w)\<rparr>"
  have s1: "sole M ?w1 F p t" "cells ?w1 F p t = cells w F p t"
    using sole_same_nodes [OF _ assms(1), of ?w1] by simp_all
  have t1: "tree_at ?w1 p t" using s1(1) by (simp add: sole_def)
  have f1: "fresh_above ?w1" using assms(3) by (simp add: fresh_above_def)
  obtain ps where "emits ?w1 (equation (with_depth (\<lambda>depth. PrintInOrder M depth p))) ps"
    using emits_equation [OF emits_formula [OF t1 assms(2) f1]] by blast
  from emits_run [OF this] obtain w2 where
      pr: "equation (with_depth (\<lambda>depth. PrintInOrder M depth p)) ?w1 = Ok ((), w2)"
    and w2: "w_nodes w2 = w_nodes w" "w_next w2 = w_next w" "w_phrases w2 = Suc (w_phrases w)" "w_graph w2 = w_graph w"
    by fastforce
  have s2: "sole M w2 F p t" "cells w2 F p t = cells w F p t"
    using sole_same_nodes [OF w2(1) assms(1)] by simp_all
  have f2: "fresh_above w2" using assms(3) w2 by (simp add: fresh_above_def)
  have "height t < w_next w2" using height_bound [of w2 p t] f2 s2(1) by (simp add: sole_def)
  from SimplifyAll_owned [OF s2(1) this] obtain w3 where
      si: "SimplifyAll M (w_next w2) p w2 = Ok ((), w3)" and s3: "sole M w3 F p (simplified_all M t)"
    and c3: "set (cells w3 F p (simplified_all M t)) \<subseteq> set (cells w F p t)"
    and o3: "only (set (cells w F p t)) w2 w3"
    unfolding s2(2) by blast
  have w3: "w_next w3 = w_next w" "w_phrases w3 = Suc (w_phrases w)" "w_graph w3 = w_graph w" "agree (- set (cells w F p t)) w w3"
    using o3 w2 by (auto simp: only_iff agree_def)
  let ?w4 = "w3\<lparr>w_out := w_out w3 @ [Text divider]\<rparr>"
  have s4: "sole M ?w4 F p (simplified_all M t)"
      "cells ?w4 F p (simplified_all M t) = cells w3 F p (simplified_all M t)"
    using sole_same_nodes [OF _ s3, of ?w4] by simp_all
  have "p \<noteq> None" using t1 by (cases p) simp_all
  then have "PrintBranch M p DERIVATIVE w = Ok ((), ?w4)"
    using assms(4) pr si by (simp add: PrintBranch_def next_phrase_def with_depth_def printw_def seqw_Ok seqw_def)
  then show ?thesis
    using s4 c3 w3 by (intro exI [of _ ?w4]) (simp add: agree_def)
qed

end
