(* ===== verification/DC_Lexer.thy ===== *)
theory DC_Lexer
  imports DC_Frontend
begin

text \<open>
  The tokens of the calculator (\<open>FillTokensArray\<close> and its helpers in \<open>src/backend.cpp\<close>).  What the
  standard leaves to the implementation of \<open>sscanf\<close> is the argument \<open>'d scanner\<close>: the characters that
  end a name under \<open>%[^+-*/() ]\<close>, where a range like \<open>+-*\<close> is up to the library, and the number that
  \<open>%lg\<close> reads with the characters it takes.
\<close>

section \<open>Characters\<close>

record 'd scanner =
  s_name_end :: "char \<Rightarrow> bool"
  s_number :: "string \<Rightarrow> 'd \<times> nat"

definition MAX_SRC_LEN :: nat where "MAX_SRC_LEN = 500"
definition MAX_TOKEN_LEN :: nat where "MAX_TOKEN_LEN = 10"
definition MAX_TOKENS :: nat where "MAX_TOKENS = 200"

text \<open>The size of the local array for the name of a function.\<close>

definition OP_NAME_LEN :: nat where "OP_NAME_LEN = 100"

definition in_range :: "char \<Rightarrow> char \<Rightarrow> char \<Rightarrow> bool" where
  "in_range a b c \<longleftrightarrow> (of_char a :: nat) \<le> of_char c \<and> (of_char c :: nat) \<le> of_char b"

definition isalpha :: "char \<Rightarrow> bool" where
  "isalpha c \<longleftrightarrow> in_range CHR ''a'' CHR ''z'' c \<or> in_range CHR ''A'' CHR ''Z'' c"

definition isdigit :: "char \<Rightarrow> bool" where
  "isdigit c \<longleftrightarrow> in_range CHR ''0'' CHR ''9'' c"

definition isspace :: "char \<Rightarrow> bool" where
  "isspace c \<longleftrightarrow> c = CHR '' '' \<or> in_range CHR 0x09 CHR 0x0D c"

text \<open>\<open>fgets\<close> into the buffer, and the string that \<open>strlen\<close> sees there.\<close>

definition GetInputLine :: "string \<Rightarrow> string" where
  "GetInputLine file =
     (let line = takeWhile (\<lambda>c. c \<noteq> CHR 0x0A) file;
          read = line @ (if length line < length file then [CHR 0x0A] else [])
      in takeWhile (\<lambda>c. c \<noteq> CHR 0x00) (take (MAX_SRC_LEN - 1) read))"

definition char_at :: "string \<Rightarrow> nat \<Rightarrow> char" where
  "char_at s i = (if i < length s then s ! i else CHR 0x00)"

definition SkipSpaces :: "string \<Rightarrow> nat \<Rightarrow> nat" where
  "SkipSpaces s i = i + length (takeWhile isspace (drop i s))"

definition GetOpType :: "string \<Rightarrow> Operations" where
  "GetOpType str =
     (if str = [] then TERMINATION_SYM
      else if hd str = CHR ''+'' then ADD
      else if hd str = CHR ''-'' then SUB
      else if hd str = CHR ''*'' then MUL
      else if hd str = CHR ''/'' then DIV
      else if hd str = CHR ''^'' then POW
      else if hd str = CHR ''('' then OPEN_BR
      else if hd str = CHR '')'' then CLOSE_BR
      else if str = ''sin'' then SIN
      else if str = ''cos'' then COS
      else if str = ''tg'' then TG
      else if str = ''ctg'' then CTG
      else if str = ''ln'' then LN
      else if str = ''arccos'' then ARCCOS
      else if str = ''arcsin'' then ARCSIN
      else UNKNOWN)"

section \<open>Tokens\<close>

record 'd Token =
  k_type :: Types
  k_value :: "'d Values"
  k_line :: nat

text \<open>
  A token is allocated and copied; a variable gets a second block for its name.  A failed allocation
  of the token is a write through null.
\<close>

definition CreateToken :: "'d machine \<Rightarrow> Types \<Rightarrow> 'd \<Rightarrow> Operations \<Rightarrow> nat \<Rightarrow> ('d, 'd Token) op" where
  "CreateToken M type dbl x line w =
     (if \<not> m_calloc_ok M (w_next w) then UB
      else if type = VAR_T
      then Ok (\<lparr>k_type = type,
                k_value = var_name (if m_calloc_ok M (Suc (w_next w)) then Some (CStr (Suc (w_next w)) '''') else None),
                k_line = line\<rparr>, w\<lparr>w_next := Suc (Suc (w_next w))\<rparr>)
      else Ok (\<lparr>k_type = type, k_value = init_value type dbl x None, k_line = line\<rparr>,
               w\<lparr>w_next := Suc (w_next w)\<rparr>))"

text \<open>Reading the name of a variable into the block of its token.\<close>

definition scan_name :: "'d Token \<Rightarrow> string \<Rightarrow> (dc_error, 'd Token) res" where
  "scan_name tok name =
     (case k_value tok of
        var_name (Some s) \<Rightarrow>
          if length name < MAX_TOKEN_LEN then Ok (tok\<lparr>k_value := var_name (Some (CStr (c_addr s) name))\<rparr>) else UB
      | _ \<Rightarrow> UB)"

definition push_token :: "'d Token list \<Rightarrow> 'd Token \<Rightarrow> (dc_error, 'd Token list) res" where
  "push_token toks tok = (if length toks < MAX_TOKENS then Ok (toks @ [tok]) else UB)"

text \<open>One token from position \<open>i\<close>; the position after it.\<close>

definition lex_step :: "'d machine \<Rightarrow> 'd scanner \<Rightarrow> string \<Rightarrow> nat \<times> 'd Token list \<Rightarrow> ('d, nat \<times> 'd Token list) op" where
  "lex_step M S input st =
     (let i = SkipSpaces input (fst st); toks = snd st; rest = drop i input; zero = m_of_int M 0 in
      if isalpha (char_at input i) then
        if char_at input (i + length (takeWhile isalpha rest)) = CHR ''('' then
          let op_name = takeWhile (\<lambda>c. c \<noteq> CHR ''('' \<and> c \<noteq> CHR '' '') rest; j = i + length op_name in
          if length op_name < OP_NAME_LEN
          then seqw (CreateToken M OP_T zero (GetOpType op_name) j) (\<lambda>tok.
                 readw (\<lambda>w. rbind (push_token toks tok) (\<lambda>toks. Ok (j, toks))))
          else (\<lambda>w. UB)
        else
          let name = takeWhile (\<lambda>c. \<not> s_name_end S c) rest in
          seqw (CreateToken M VAR_T zero UNKNOWN i) (\<lambda>tok.
            readw (\<lambda>w. rbind (scan_name tok name) (\<lambda>tok.
              rbind (push_token toks tok) (\<lambda>toks. Ok (i + length name, toks)))))
      else if isdigit (char_at input i) then
        seqw (CreateToken M NUM_T (fst (s_number S rest)) UNKNOWN (i + snd (s_number S rest))) (\<lambda>tok.
          readw (\<lambda>w. rbind (push_token toks tok) (\<lambda>toks. Ok (i + snd (s_number S rest), toks))))
      else
        seqw (CreateToken M OP_T zero (GetOpType rest) i) (\<lambda>tok.
          readw (\<lambda>w. rbind (push_token toks tok) (\<lambda>toks. Ok (Suc i, toks)))))"

definition FillTokensArray :: "'d machine \<Rightarrow> 'd scanner \<Rightarrow> string \<Rightarrow> ('d, 'd Token list) op" where
  "FillTokensArray M S file w =
     (let input = GetInputLine file in
      rbind (while_do (\<lambda>((i, toks), w). i \<le> length input) (\<lambda>(st, w). lex_step M S input st w) ((0, []), w))
        (\<lambda>((i, toks), w). Ok (toks, w)))"

text \<open>\<open>PrintTokens\<close> only prints, but it reads the array until it meets the terminating symbol.\<close>

definition PrintTokens :: "'d machine \<Rightarrow> 'd Token list \<Rightarrow> ('d, unit) op" where
  "PrintTokens M toks w =
     rbind (while_do (\<lambda>(more, i). more)
       (\<lambda>(more, i). if i < length toks
          then Ok (as_op M (k_value (toks ! i)) \<noteq> TERMINATION_SYM, Suc i) else UB) (True, 0))
       (\<lambda>_. Ok ((), w))"

end
