(* ===== verification/DC_Parser.thy ===== *)
theory DC_Parser
  imports DC_Lexer
begin

text \<open>
  The recursive-descent parser of the calculator (\<open>GetGrammar\<close> to \<open>GetNumber\<close> in \<open>src/backend.cpp\<close>).
  The parser reads the operation of every token, also of a number or a variable, where it sees the
  bits of another member of the union.
\<close>

section \<open>The code\<close>

definition CUR_TOKEN :: "'d Token list \<Rightarrow> nat \<Rightarrow> ('d, 'd Token) op" where
  "CUR_TOKEN toks i = readw (\<lambda>w. if i < length toks then Ok (toks ! i) else UB)"

definition GetNumber :: "'d machine \<Rightarrow> 'd Token list \<Rightarrow> nat \<Rightarrow> ('d, ptr option \<times> nat) op" where
  "GetNumber M toks i =
     seqw (CUR_TOKEN toks i) (\<lambda>tok.
       case k_type tok of
         NUM_T \<Rightarrow> seqw (CreateDigitNode M (as_dbl M (k_value tok))) (\<lambda>p. ret (p, Suc i))
       | VAR_T \<Rightarrow> seqw (readw (\<lambda>w. as_name (k_value tok))) (\<lambda>s.
           seqw (CreateNode M VAR_T (m_of_int M 0) UNKNOWN s None None) (\<lambda>p. ret (p, Suc i)))
       | OP_T \<Rightarrow> ret (None, Suc i))"

definition GetOperationNode :: "'d machine \<Rightarrow> ptr option \<Rightarrow> Operations \<Rightarrow> ('d, ptr option) op" where
  "GetOperationNode M child_node x =
     (if x = SIN \<or> x = COS \<or> x = LN then CreateNode M OP_T (m_of_int M 0) x None None child_node
      else ret None)"

text \<open>
  \<open>GetExpression\<close>, \<open>GetMlt\<close> and \<open>GetPower\<close> differ in the operations \<open>ops\<close> they read and in the function
  \<open>sub\<close> that reads an operand.
\<close>

definition operand_loop ::
    "'d machine \<Rightarrow> 'd Token list \<Rightarrow> Operations list \<Rightarrow> (nat \<Rightarrow> ('d, ptr option \<times> nat) op) \<Rightarrow>
       bool \<times> (ptr option \<times> nat) \<times> 'd world \<Rightarrow> (dc_error, bool \<times> (ptr option \<times> nat) \<times> 'd world) res" where
  "operand_loop M toks ops sub =
     while_do (\<lambda>(more, st, w). more)
       (\<lambda>(more, (top, i), w).
          rbind (CUR_TOKEN toks i w) (\<lambda>(tok, w).
            let last_op = as_op M (k_value tok) in
            if last_op \<in> set ops then
              rbind (sub (Suc i) w) (\<lambda>((right_node, j), w).
                rbind (CreateNode M OP_T (m_of_int M 0) last_op None top right_node w) (\<lambda>(p, w).
                  Ok (True, (p, j), w)))
            else Ok (False, (top, i), w)))"

definition left_assoc ::
    "'d machine \<Rightarrow> 'd Token list \<Rightarrow> Operations list \<Rightarrow> (nat \<Rightarrow> ('d, ptr option \<times> nat) op) \<Rightarrow> nat \<Rightarrow>
       ('d, ptr option \<times> nat) op" where
  "left_assoc M toks ops sub i w =
     rbind (sub i w) (\<lambda>(st, w). rbind (operand_loop M toks ops sub (True, st, w)) (\<lambda>(more, st, w). Ok (st, w)))"

definition power_ops :: "Operations list" where "power_ops = [POW]"
definition mlt_ops :: "Operations list" where "mlt_ops = [MUL, DIV]"
definition expression_ops :: "Operations list" where "expression_ops = [ADD, SUB]"

text \<open>
  \<open>GetBracketExp\<close>.  A missing bracket falls off the end of the function, and the caller uses the value
  that is not there.  The depth is the number of nested brackets the recursion may enter.
\<close>

primrec GetBracketExp :: "'d machine \<Rightarrow> 'd Token list \<Rightarrow> nat \<Rightarrow> nat \<Rightarrow> ('d, ptr option \<times> nat) op" where
  "GetBracketExp M toks 0 = (\<lambda>i w. UB)"
| "GetBracketExp M toks (Suc depth) = (\<lambda>i.
     seqw (CUR_TOKEN toks i) (\<lambda>tok.
       if as_op M (k_value tok) = OPEN_BR then
         seqw (left_assoc M toks expression_ops (left_assoc M toks mlt_ops
             (left_assoc M toks power_ops (GetBracketExp M toks depth))) (Suc i)) (\<lambda>(sub_node, j).
         seqw (CUR_TOKEN toks j) (\<lambda>tok'.
           if as_op M (k_value tok') = CLOSE_BR then ret (sub_node, Suc j) else (\<lambda>w. UB)))
       else if k_type tok = OP_T then
         seqw (left_assoc M toks expression_ops (left_assoc M toks mlt_ops
             (left_assoc M toks power_ops (GetBracketExp M toks depth))) (i + 2)) (\<lambda>(sub_node, j).
         seqw (CUR_TOKEN toks j) (\<lambda>tok'.
           if as_op M (k_value tok') = CLOSE_BR
           then seqw (GetOperationNode M sub_node (as_op M (k_value tok))) (\<lambda>p. ret (p, Suc j))
           else (\<lambda>w. UB)))
       else GetNumber M toks i))"

definition GetPower :: "'d machine \<Rightarrow> 'd Token list \<Rightarrow> nat \<Rightarrow> nat \<Rightarrow> ('d, ptr option \<times> nat) op" where
  "GetPower M toks depth = left_assoc M toks power_ops (GetBracketExp M toks depth)"

definition GetMlt :: "'d machine \<Rightarrow> 'd Token list \<Rightarrow> nat \<Rightarrow> nat \<Rightarrow> ('d, ptr option \<times> nat) op" where
  "GetMlt M toks depth = left_assoc M toks mlt_ops (GetPower M toks depth)"

definition GetExpression :: "'d machine \<Rightarrow> 'd Token list \<Rightarrow> nat \<Rightarrow> nat \<Rightarrow> ('d, ptr option \<times> nat) op" where
  "GetExpression M toks depth = left_assoc M toks expression_ops (GetMlt M toks depth)"

text \<open>
  Every bracket takes a token, so the number of tokens bounds the depth.  The check for the
  terminating symbol only chooses a message.
\<close>

definition GetGrammar :: "'d machine \<Rightarrow> 'd scanner \<Rightarrow> string \<Rightarrow> ('d, ptr option) op" where
  "GetGrammar M S file =
     seqw (FillTokensArray M S file) (\<lambda>token_array.
     seqw (PrintTokens M token_array) (\<lambda>_.
     seqw (GetExpression M token_array (Suc (length token_array)) 0) (\<lambda>(p, i).
     seqw (CUR_TOKEN token_array i) (\<lambda>_. ret p))))"

section \<open>The grammar\<close>

text \<open>The token of an expression, without its position in the text.\<close>

datatype 'd symbol = Number 'd | Name cstr | Operation Operations

fun symbol_of :: "'d Token \<Rightarrow> 'd symbol option" where
  "symbol_of tok =
     (case (k_type tok, k_value tok) of
        (NUM_T, dbl_val d) \<Rightarrow> Some (Number d)
      | (VAR_T, var_name (Some s)) \<Rightarrow> Some (Name s)
      | (OP_T, op_val x) \<Rightarrow> Some (Operation x)
      | _ \<Rightarrow> None)"

text \<open>
  Expressions written with the brackets that are needed: sums, products, powers, and what needs no
  bracket, all grouping to the left.
\<close>

fun level_of :: "Operations \<Rightarrow> nat" where
  "level_of x = (if x = ADD \<or> x = SUB then 0 else if x = MUL \<or> x = DIV then 1 else 2)"

definition bracket :: "bool \<Rightarrow> 'd symbol list \<Rightarrow> 'd symbol list" where
  "bracket b ss = (if b then [Operation OPEN_BR] @ ss @ [Operation CLOSE_BR] else ss)"

fun symbols :: "nat \<Rightarrow> 'd expr \<Rightarrow> 'd symbol list" where
  "symbols k (Num d) = [Number d]"
| "symbols k (Var s) = [Name s]"
| "symbols k (Unary f r) = Operation f # bracket True (symbols 0 r)"
| "symbols k (Binary f l r) =
     bracket (level_of f < k) (symbols (level_of f) l @ [Operation f] @ symbols (Suc (level_of f)) r)"

text \<open>The expressions that the parser can produce.\<close>

fun parsable :: "'d expr \<Rightarrow> bool" where
  "parsable (Num d) = True"
| "parsable (Var s) = True"
| "parsable (Unary f r) = ((f = SIN \<or> f = COS \<or> f = LN) \<and> parsable r)"
| "parsable (Binary f l r) =
     ((f = ADD \<or> f = SUB \<or> f = MUL \<or> f = DIV \<or> f = POW) \<and> parsable l \<and> parsable r)"

text \<open>The bits of numbers and of pointers to names are no operation that the parser looks for.\<close>

definition no_operation :: "Operations \<Rightarrow> bool" where
  "no_operation x \<longleftrightarrow> x \<notin> {ADD, SUB, MUL, DIV, POW, OPEN_BR, CLOSE_BR, TERMINATION_SYM}"

fun plain_symbol :: "'d machine \<Rightarrow> 'd symbol \<Rightarrow> bool" where
  "plain_symbol M (Number d) = no_operation (m_op_of_dbl M d)"
| "plain_symbol M (Name s) = no_operation (m_op_of_ptr M (Some s))"
| "plain_symbol M (Operation x) = True"

end
