(* ===== verification/DC_Derivative.thy ===== *)
theory DC_Derivative
  imports DC_Frontend
begin

text \<open>
  \<open>GetDerivative\<close> of \<open>src/backend.cpp\<close> with the macros of \<open>include/dsl.h\<close>, \<open>PrintMacloren\<close> of
  \<open>src/frontend.cpp\<close>, and the symbolic derivative they implement.  What the derivation needs from
  the heap is the locale \<open>tree_maker\<close>; it holds when nothing is printed and nodes are shared, and
  when every step is printed and simplified.
\<close>

section \<open>The code\<close>

definition left_w :: "ptr option \<Rightarrow> ('d, ptr option) op" where
  "left_w cur = readw (\<lambda>w. rbind (node_at w cur) (\<lambda>n. Ok (t_left n)))"

definition right_w :: "ptr option \<Rightarrow> ('d, ptr option) op" where
  "right_w cur = readw (\<lambda>w. rbind (node_at w cur) (\<lambda>n. Ok (t_right n)))"

definition CL :: "'d machine \<Rightarrow> ptr option \<Rightarrow> ('d, ptr option) op" where
  "CL M cur = seqw (left_w cur) (CopyNode M)"

definition CR :: "'d machine \<Rightarrow> ptr option \<Rightarrow> ('d, ptr option) op" where
  "CR M cur = seqw (right_w cur) (CopyNode M)"

definition R_DBL :: "'d machine \<Rightarrow> ptr option \<Rightarrow> ('d, 'd) op" where
  "R_DBL M cur =
     seqw (right_w cur) (\<lambda>r. readw (\<lambda>w. rbind (node_at w r) (\<lambda>n. Ok (as_dbl M (t_value n)))))"

definition DIGIT :: "'d machine \<Rightarrow> int \<Rightarrow> ('d, ptr option) op" where
  "DIGIT M k = CreateDigitNode M (m_of_int M k)"

text \<open>\<open>$PRINT_PLUS_RETURN\<close>\<close>

definition print_plus_return :: "'d machine \<Rightarrow> bool \<Rightarrow> ('d, ptr option) op \<Rightarrow> ('d, ptr option) op" where
  "print_plus_return M print_in_pdf X =
     seqw X (\<lambda>tmp_node.
     seqw (if print_in_pdf then PrintBranch M tmp_node DERIVATIVE else ret ()) (\<lambda>_. ret tmp_node))"

text \<open>The rule for an operation, \<open>DL\<close> and \<open>DR\<close> the derivatives of the children.\<close>

definition derivative_rule ::
    "'d machine \<Rightarrow> ('d, ptr option) op \<Rightarrow> ('d, ptr option) op \<Rightarrow> ptr option \<Rightarrow> Operations \<Rightarrow>
       ('d, ptr option) op option" where
  "derivative_rule M DL DR cur x =
     (case x of
        ADD \<Rightarrow> Some (OPERATION M ADD DL DR)
      | SUB \<Rightarrow> Some (OPERATION M SUB DL DR)
      | MUL \<Rightarrow> Some (OPERATION M ADD (OPERATION M MUL DL (CR M cur)) (OPERATION M MUL (CL M cur) DR))
      | DIV \<Rightarrow> Some (OPERATION M DIV
          (OPERATION M SUB (OPERATION M MUL DL (CR M cur)) (OPERATION M MUL (CL M cur) DR))
          (OPERATION M MUL (CR M cur) (CR M cur)))
      | SIN \<Rightarrow> Some (OPERATION M MUL (OPERATION M COS (ret None) (CR M cur)) DR)
      | COS \<Rightarrow> Some (OPERATION M MUL
          (OPERATION M MUL (DIGIT M (-1)) (OPERATION M SIN (ret None) (CR M cur))) DR)
      | LN \<Rightarrow> Some (OPERATION M MUL (OPERATION M DIV (DIGIT M 1) (CR M cur)) DR)
      | TG \<Rightarrow> Some (OPERATION M MUL
          (OPERATION M DIV (DIGIT M 1)
            (OPERATION M POW (OPERATION M COS (ret None) (CR M cur)) (DIGIT M 2))) DR)
      | CTG \<Rightarrow> Some (OPERATION M MUL
          (OPERATION M MUL
            (OPERATION M DIV (DIGIT M 1)
              (OPERATION M POW (OPERATION M SIN (ret None) (CR M cur)) (DIGIT M 2))) DR) (DIGIT M (-1)))
      | _ \<Rightarrow> None)"

definition power_rule :: "'d machine \<Rightarrow> ('d, ptr option) op \<Rightarrow> ptr option \<Rightarrow> ('d, ptr option) op" where
  "power_rule M DL cur =
     OPERATION M MUL
       (OPERATION M MUL
         (seqw (R_DBL M cur) (CreateDigitNode M))
         (OPERATION M POW (CL M cur)
           (seqw (R_DBL M cur) (\<lambda>d. CreateDigitNode M (m_sub M d (m_of_int M 1))))))
       DL"

text \<open>The depth is the number of nested calls the recursion may make.\<close>

fun GetDerivative :: "'d machine \<Rightarrow> nat \<Rightarrow> ptr option \<Rightarrow> bool \<Rightarrow> ('d, ptr option) op" where
  "GetDerivative M 0 cur print_in_pdf = (\<lambda>w. UB)"
| "GetDerivative M (Suc depth) cur print_in_pdf =
     assertw (cur \<noteq> None)
       (seqw (readw (\<lambda>w. node_at w cur)) (\<lambda>n.
        if t_type n = NUM_T then CreateNode M NUM_T (m_of_int M 0) UNKNOWN None None None
        else if t_type n = VAR_T then CreateNode M NUM_T (m_of_int M 1) UNKNOWN None None None
        else
          (case derivative_rule M
              (seqw (left_w cur) (\<lambda>l. GetDerivative M depth l print_in_pdf))
              (seqw (right_w cur) (\<lambda>r. GetDerivative M depth r print_in_pdf)) cur (as_op M (t_value n)) of
             Some X \<Rightarrow> print_plus_return M print_in_pdf X
           | None \<Rightarrow>
               if as_op M (t_value n) = POW
               then seqw (right_w cur) (\<lambda>r. seqw (readw (\<lambda>w. node_at w r)) (\<lambda>m.
                 if t_type m = NUM_T
                 then print_plus_return M print_in_pdf
                   (power_rule M (seqw (left_w cur) (\<lambda>l. GetDerivative M depth l print_in_pdf)) cur)
                 else ret None))
               else ret None)))"

section \<open>The symbolic derivative\<close>

text \<open>The formulas that \<open>GetDerivative\<close> handles.\<close>

fun supported :: "'d expr \<Rightarrow> bool" where
  "supported (Num d) = True"
| "supported (Var s) = True"
| "supported (Unary f r) = ((f = SIN \<or> f = COS \<or> f = LN \<or> f = TG \<or> f = CTG) \<and> supported r)"
| "supported (Binary f l r) =
     (supported l \<and> supported r \<and> (f = ADD \<or> f = SUB \<or> f = MUL \<or> f = DIV \<or> f = POW \<and> is_num r))"

text \<open>The derivative, with \<open>post\<close> applied to the result of every step.\<close>

fun derivative :: "('d expr \<Rightarrow> 'd expr) \<Rightarrow> 'd machine \<Rightarrow> 'd expr \<Rightarrow> 'd expr" where
  "derivative post M (Num d) = Num (m_of_int M 0)"
| "derivative post M (Var s) = Num (m_of_int M 1)"
| "derivative post M (Unary f r) =
     post (case f of
        SIN \<Rightarrow> Binary MUL (Unary COS r) (derivative post M r)
      | COS \<Rightarrow> Binary MUL (Binary MUL (Num (m_of_int M (-1))) (Unary SIN r)) (derivative post M r)
      | LN \<Rightarrow> Binary MUL (Binary DIV (Num (m_of_int M 1)) r) (derivative post M r)
      | TG \<Rightarrow> Binary MUL
          (Binary DIV (Num (m_of_int M 1)) (Binary POW (Unary COS r) (Num (m_of_int M 2)))) (derivative post M r)
      | _ \<Rightarrow> Binary MUL
          (Binary MUL (Binary DIV (Num (m_of_int M 1)) (Binary POW (Unary SIN r) (Num (m_of_int M 2))))
            (derivative post M r)) (Num (m_of_int M (-1))))"
| "derivative post M (Binary f l r) =
     post (case f of
        ADD \<Rightarrow> Binary ADD (derivative post M l) (derivative post M r)
      | SUB \<Rightarrow> Binary SUB (derivative post M l) (derivative post M r)
      | MUL \<Rightarrow> Binary ADD (Binary MUL (derivative post M l) r) (Binary MUL l (derivative post M r))
      | DIV \<Rightarrow> Binary DIV
          (Binary SUB (Binary MUL (derivative post M l) r) (Binary MUL l (derivative post M r))) (Binary MUL r r)
      | _ \<Rightarrow> Binary MUL
          (Binary MUL r (Binary POW l (Num (m_sub M (leaf_dbl M r) (m_of_int M 1))))) (derivative post M l))"

text \<open>The number of operations, which is the number of steps that are printed.\<close>

fun operations :: "'d expr \<Rightarrow> nat" where
  "operations (Num d) = 0"
| "operations (Var s) = 0"
| "operations (Unary f r) = Suc (operations r)"
| "operations (Binary f l r) = (if f = POW then Suc (operations l) else Suc (operations l + operations r))"

section \<open>What the derivation needs from the heap\<close>

text \<open>
  \<open>source w p t\<close>: the tree that is derived is still there.  \<open>made k w w' q t\<close>: between the states
  \<open>w\<close> and \<open>w'\<close> a tree for \<open>t\<close> was made, and \<open>k\<close> steps were printed.  \<open>can w k\<close>: \<open>k\<close> more steps can be
  printed.
\<close>

locale tree_maker =
  fixes M :: "'d machine"
    and pdf :: bool
    and post :: "'d expr \<Rightarrow> 'd expr"
    and after :: "'d world \<Rightarrow> 'd world \<Rightarrow> bool"
    and can :: "'d world \<Rightarrow> nat \<Rightarrow> bool"
    and source :: "'d world \<Rightarrow> ptr option \<Rightarrow> 'd expr \<Rightarrow> bool"
    and made :: "nat \<Rightarrow> 'd world \<Rightarrow> 'd world \<Rightarrow> ptr option \<Rightarrow> 'd expr \<Rightarrow> bool"
  assumes after_refl: "after w w"
    and after_trans: "after w w1 \<Longrightarrow> after w1 w2 \<Longrightarrow> after w w2"
    and made_after: "made k w w1 q t \<Longrightarrow> after w w1"
    and can_mono: "can w k \<Longrightarrow> j \<le> k \<Longrightarrow> can w j"
    and can_made: "can w (i + j) \<Longrightarrow> made i w w1 q t \<Longrightarrow> can w1 j"
    and source_tree: "source w p t \<Longrightarrow> tree_at w p t"
    and source_after: "source w p t \<Longrightarrow> after w w1 \<Longrightarrow> source w1 p t"
    and source_unary: "source w p (Unary f r) \<Longrightarrow> source w (right_of w p) r"
    and source_left: "source w p (Binary f l r) \<Longrightarrow> source w (left_of w p) l"
    and source_right: "source w p (Binary f l r) \<Longrightarrow> source w (right_of w p) r"
    and source_pdf: "source w p t \<Longrightarrow> pdf \<Longrightarrow> printable t"
    and make_number: "can w 0 \<Longrightarrow>
      \<exists>q w1. new_node M \<lparr>t_type = NUM_T, t_parent = None, t_left = None, t_right = None, t_value = dbl_val d\<rparr> w =
        Ok (q, w1) \<and> made 0 w w1 q (Num d)"
    and make_copy: "can w 0 \<Longrightarrow> source w p t \<Longrightarrow> \<exists>q w1. CopyNode M p w = Ok (q, w1) \<and> made 0 w w1 q t"
    and make_unary: "can w1 0 \<Longrightarrow> made j w w1 q r \<Longrightarrow>
      \<exists>p w2. CreateNode M OP_T (m_of_int M 0) f None None q w1 = Ok (p, w2) \<and> made j w w2 p (Unary f r)"
    and make_binary: "can w2 0 \<Longrightarrow> made i w w1 p l \<Longrightarrow> made j w1 w2 q r \<Longrightarrow>
      \<exists>s w3. CreateNode M OP_T (m_of_int M 0) f None p q w2 = Ok (s, w3) \<and> made (i + j) w w3 s (Binary f l r)"
    and make_binary_right: "can w2 0 \<Longrightarrow> made j w w1 q r \<Longrightarrow> made i w1 w2 p l \<Longrightarrow>
      \<exists>s w3. CreateNode M OP_T (m_of_int M 0) f None p q w2 = Ok (s, w3) \<and> made (i + j) w w3 s (Binary f l r)"
    and finish_step: "can w1 1 \<Longrightarrow> made k w w1 q t \<Longrightarrow> pdf \<longrightarrow> printable t \<Longrightarrow>
      \<exists>w2. (if pdf then PrintBranch M q DERIVATIVE else ret ()) w1 = Ok ((), w2) \<and> made (Suc k) w w2 q (post t)"
    and post_printable: "printable t \<Longrightarrow> printable (post t)"
begin

definition builds :: "nat \<Rightarrow> 'd world \<Rightarrow> ('d, ptr option) op \<Rightarrow> 'd expr \<Rightarrow> bool" where
  "builds k w m t \<longleftrightarrow>
     (\<forall>w1. after w w1 \<longrightarrow> can w1 k \<longrightarrow> (\<exists>q w2. m w1 = Ok (q, w2) \<and> made k w1 w2 q t))"

lemma buildsI:
  "(\<And>w1. after w w1 \<Longrightarrow> can w1 k \<Longrightarrow> \<exists>q w2. m w1 = Ok (q, w2) \<and> made k w1 w2 q t) \<Longrightarrow> builds k w m t"
  by (simp add: builds_def)

lemma buildsE:
  assumes "builds k w m t" and "after w w1" and "can w1 k"
  obtains q w2 where "m w1 = Ok (q, w2)" and "made k w1 w2 q t"
  using assms by (auto simp: builds_def)

lemma builds_number: "builds 0 w (CreateDigitNode M d) (Num d)"
  unfolding CreateDigitNode_def by (rule buildsI) (rule make_number)

lemma builds_binary:
  assumes "builds i w L l" and "builds j w R r"
  shows "builds (i + j) w (OPERATION M f L R) (Binary f l r)"
proof (rule buildsI)
  fix w1 assume w1: "after w w1" "can w1 (i + j)"
  show "\<exists>q w2. OPERATION M f L R w1 = Ok (q, w2) \<and> made (i + j) w1 w2 q (Binary f l r)"
  proof (cases "m_left_first M")
    case True
    obtain p w2 where L: "L w1 = Ok (p, w2)" "made i w1 w2 p l"
      by (rule buildsE [OF assms(1) w1(1) can_mono [OF w1(2)]]) auto
    obtain q w3 where R: "R w2 = Ok (q, w3)" "made j w2 w3 q r"
      by (rule buildsE [OF assms(2) after_trans [OF w1(1) made_after [OF L(2)]] can_made [OF w1(2) L(2)]])
    have "can w3 0" using can_made [of w2 j 0] can_made [OF w1(2) L(2)] R(2) by simp
    then show ?thesis
      using make_binary [OF _ L(2) R(2), of f] True L(1) R(1) by (auto simp: OPERATION_def both_def seqw_Ok)
  next
    case False
    have jw: "can w1 (j + i)" using w1(2) by (simp add: add.commute)
    obtain q w2 where R: "R w1 = Ok (q, w2)" "made j w1 w2 q r"
      by (rule buildsE [OF assms(2) w1(1) can_mono [OF w1(2)]]) auto
    obtain p w3 where L: "L w2 = Ok (p, w3)" "made i w2 w3 p l"
      by (rule buildsE [OF assms(1) after_trans [OF w1(1) made_after [OF R(2)]] can_made [OF jw R(2)]])
    have "can w3 0" using can_made [of w2 i 0] can_made [OF jw R(2)] L(2) by simp
    then show ?thesis
      using make_binary_right [OF _ R(2) L(2), of f] False L(1) R(1) by (auto simp: OPERATION_def both_def seqw_Ok)
  qed
qed

lemma builds_unary:
  assumes "builds j w R r"
  shows "builds j w (OPERATION M f (ret None) R) (Unary f r)"
proof (rule buildsI)
  fix w1 assume w1: "after w w1" "can w1 j"
  obtain q w2 where R: "R w1 = Ok (q, w2)" "made j w1 w2 q r"
    by (rule buildsE [OF assms w1])
  have "can w2 0" using can_made [of w1 j 0] w1(2) R(2) by simp
  then show "\<exists>q w2. OPERATION M f (ret None) R w1 = Ok (q, w2) \<and> made j w1 w2 q (Unary f r)"
    using make_unary [OF _ R(2), of f] R(1) by (auto simp: OPERATION_def both_def seqw_Ok)
qed

lemma left_w_source: "source w p (Binary f l r) \<Longrightarrow> left_w p w = Ok (left_of w p, w)"
  using tree_at_node [OF source_tree, of w p "Binary f l r"] by (auto simp: left_w_def readw_def)

lemma right_w_source: "source w p t \<Longrightarrow> right_w p w = Ok (right_of w p, w)"
  using tree_at_node [OF source_tree, of w p t] by (auto simp: right_w_def readw_def)

lemma builds_left:
  assumes "source w p (Binary f l r)" and "\<And>w q. source w q l \<Longrightarrow> builds k w (m q) t"
  shows "builds k w (seqw (left_w p) m) t"
proof (rule buildsI)
  fix w1 assume w1: "after w w1" "can w1 k"
  note s1 = source_after [OF assms(1) w1(1)]
  show "\<exists>q w2. seqw (left_w p) m w1 = Ok (q, w2) \<and> made k w1 w2 q t"
    using buildsE [OF assms(2) [OF source_left [OF s1]] after_refl w1(2)]
    by (metis seqw_Ok left_w_source [OF s1])
qed

lemma builds_right:
  assumes "source w p s" and "\<And>w. source w p s \<Longrightarrow> source w (right_of w p) r"
    and "\<And>w q. source w q r \<Longrightarrow> builds k w (m q) t"
  shows "builds k w (seqw (right_w p) m) t"
proof (rule buildsI)
  fix w1 assume w1: "after w w1" "can w1 k"
  note s1 = source_after [OF assms(1) w1(1)]
  show "\<exists>q w2. seqw (right_w p) m w1 = Ok (q, w2) \<and> made k w1 w2 q t"
    using buildsE [OF assms(3) [OF assms(2) [OF s1]] after_refl w1(2)]
    by (metis seqw_Ok right_w_source [OF s1])
qed

lemma builds_right_unary:
  "source w p (Unary f r) \<Longrightarrow> (\<And>w q. source w q r \<Longrightarrow> builds k w (m q) t) \<Longrightarrow>
     builds k w (seqw (right_w p) m) t"
  by (rule builds_right) (auto intro: source_unary)

lemma builds_right_binary:
  "source w p (Binary f l r) \<Longrightarrow> (\<And>w q. source w q r \<Longrightarrow> builds k w (m q) t) \<Longrightarrow>
     builds k w (seqw (right_w p) m) t"
  by (rule builds_right) (auto intro: source_right)

lemma builds_copy: "source w p t \<Longrightarrow> builds 0 w (CopyNode M p) t"
  by (rule buildsI) (metis make_copy source_after)

lemma builds_CL: "source w p (Binary f l r) \<Longrightarrow> builds 0 w (CL M p) l"
  unfolding CL_def by (rule builds_left) (auto intro: builds_copy)

lemma builds_CR: "source w p (Binary f l r) \<Longrightarrow> builds 0 w (CR M p) r"
  unfolding CR_def by (rule builds_right_binary) (auto intro: builds_copy)

lemma builds_CR_unary: "source w p (Unary f r) \<Longrightarrow> builds 0 w (CR M p) r"
  unfolding CR_def by (rule builds_right_unary) (auto intro: builds_copy)

lemma builds_R_DBL:
  assumes "source w p (Binary f l (Num d))" and "builds k w (g d) t"
  shows "builds k w (seqw (R_DBL M p) g) t"
proof (rule buildsI)
  fix w1 assume w1: "after w w1" "can w1 k"
  note s1 = source_after [OF assms(1) w1(1)]
  have "tree_at w1 (right_of w1 p) (Num d)" using source_tree [OF source_right [OF s1]] .
  then have "R_DBL M p w1 = Ok (d, w1)"
    by (auto simp: R_DBL_def seqw_Ok [where m = "right_w p", OF right_w_source [OF s1]] readw_def dest!: node_isD)
  then show "\<exists>q w2. seqw (R_DBL M p) g w1 = Ok (q, w2) \<and> made k w1 w2 q t"
    using assms(2) w1 by (auto simp: builds_def seqw_Ok)
qed

lemma builds_finish:
  assumes "builds k w X t" and "pdf \<longrightarrow> printable t"
  shows "builds (Suc k) w (print_plus_return M pdf X) (post t)"
proof (rule buildsI)
  fix w1 assume w1: "after w w1" "can w1 (Suc k)"
  obtain q w2 where X: "X w1 = Ok (q, w2)" "made k w1 w2 q t"
    by (rule buildsE [OF assms(1) w1(1) can_mono [OF w1(2)]]) auto
  have "can w2 1" using can_made [of w1 k 1] w1(2) X(2) by simp
  from finish_step [OF this X(2) assms(2)]
  show "\<exists>q w2. print_plus_return M pdf X w1 = Ok (q, w2) \<and> made (Suc k) w1 w2 q (post t)"
    using X(1) by (auto simp: print_plus_return_def seqw_Ok)
qed

lemma derivative_printable: "supported t \<Longrightarrow> printable t \<Longrightarrow> printable (derivative post M t)"
  by (induction t) (auto intro!: post_printable)

lemmas builds_rules = builds_binary builds_unary builds_number

text \<open>A rule for an operation, its result and its number of steps brought into shape.\<close>

lemma builds_eq: "builds k w m t \<Longrightarrow> k = j \<Longrightarrow> builds j w m t"
  by simp

lemma GetDerivative_op:
  assumes "source w p t" and "node_at w p = Ok n" and "t_type n = OP_T" and "t_value n = op_val f"
    and "derivative_rule M
          (seqw (left_w p) (\<lambda>l. GetDerivative M depth l pdf)) (seqw (right_w p) (\<lambda>r. GetDerivative M depth r pdf)) p f =
         Some X"
  shows "GetDerivative M (Suc depth) p pdf w = print_plus_return M pdf X w"
  using assms node_at_OkD [OF assms(2)] by auto

lemma builds_GetDerivative:
  assumes "source w p t" and "supported t" and "height t < depth"
  shows "builds (operations t) w (\<lambda>w. GetDerivative M depth p pdf w) (derivative post M t)"
  using assms
proof (induction t arbitrary: w p depth)
  case (Num d)
  then obtain k where k: "depth = Suc k" by (cases depth) auto
  show ?case
  proof (rule buildsI)
    fix w1 assume w1: "after w w1" "can w1 (operations (Num d))"
    have "tree_at w1 p (Num d)" using source_tree [OF source_after [OF Num.prems(1) w1(1)]] .
    then show "\<exists>q w2. GetDerivative M depth p pdf w1 = Ok (q, w2) \<and>
        made (operations (Num d)) w1 w2 q (derivative post M (Num d))"
      using make_number [of w1 "m_of_int M 0"] w1(2) tree_at_node [of w1 p "Num d"]
      by (auto simp: k CreateNode_def)
  qed
next
  case (Var s)
  then obtain k where k: "depth = Suc k" by (cases depth) auto
  show ?case
  proof (rule buildsI)
    fix w1 assume w1: "after w w1" "can w1 (operations (Var s))"
    have "tree_at w1 p (Var s)" using source_tree [OF source_after [OF Var.prems(1) w1(1)]] .
    then show "\<exists>q w2. GetDerivative M depth p pdf w1 = Ok (q, w2) \<and>
        made (operations (Var s)) w1 w2 q (derivative post M (Var s))"
      using make_number [of w1 "m_of_int M 1"] w1(2) tree_at_node [of w1 p "Var s"]
      by (auto simp: k CreateNode_def)
  qed
next
  case (Unary f r)
  then obtain k where k: "depth = Suc k" "height r < k" by (cases depth) auto
  have sup: "supported r" using Unary.prems(2) by simp
  let ?D = "derivative post M r"
  let ?DL = "seqw (left_w p) (\<lambda>l. GetDerivative M k l pdf)" and ?DR = "seqw (right_w p) (\<lambda>r. GetDerivative M k r pdf)"
  show ?case
  proof (rule buildsI)
    fix w1 assume w1: "after w w1" "can w1 (operations (Unary f r))"
    note s1 = source_after [OF Unary.prems(1) w1(1)]
    have DR: "builds (operations r) w1 ?DR ?D"
      by (rule builds_right_unary [OF s1]) (rule Unary.IH [OF _ sup k(2)])
    note CR = builds_CR_unary [OF s1] and num = builds_number
    have shown: "pdf \<longrightarrow> printable r \<and> printable ?D"
      using source_pdf [OF s1] derivative_printable [of r] Unary.prems(2) by auto
    obtain n where n: "node_at w1 p = Ok n" "t_type n = OP_T" "t_value n = op_val f"
      using tree_at_cases [OF source_tree [OF s1]] by metis
    obtain X t where X: "derivative_rule M ?DL ?DR p f = Some X" "builds (operations r) w1 X t"
        "derivative post M (Unary f r) = post t" "pdf \<longrightarrow> printable t"
    proof -
      from Unary.prems(2) consider "f = SIN" | "f = COS" | "f = LN" | "f = TG" | "f = CTG" by auto
      then show thesis
      proof cases
        case 1
        show thesis
          by (rule that [OF _ builds_eq [OF builds_binary [OF builds_unary [OF CR] DR]]])
            (use 1 shown in \<open>auto simp: derivative_rule_def\<close>)
      next
        case 2
        show thesis
          by (rule that [OF _ builds_eq [OF builds_binary [OF builds_binary [OF num builds_unary [OF CR]] DR]]])
            (use 2 shown in \<open>auto simp: derivative_rule_def DIGIT_def\<close>)
      next
        case 3
        show thesis
          by (rule that [OF _ builds_eq [OF builds_binary [OF builds_binary [OF num CR] DR]]])
            (use 3 shown in \<open>auto simp: derivative_rule_def DIGIT_def\<close>)
      next
        case 4
        show thesis
          by (rule that [OF _ builds_eq [OF builds_binary [OF builds_binary [OF num
                builds_binary [OF builds_unary [OF CR] num]] DR]]])
            (use 4 shown in \<open>auto simp: derivative_rule_def DIGIT_def\<close>)
      next
        case 5
        show thesis
          by (rule that [OF _ builds_eq [OF builds_binary [OF builds_binary [OF builds_binary [OF num
                builds_binary [OF builds_unary [OF CR] num]] DR] num]]])
            (use 5 shown in \<open>auto simp: derivative_rule_def DIGIT_def\<close>)
      qed
    qed
    show "\<exists>q w2. GetDerivative M depth p pdf w1 = Ok (q, w2) \<and>
        made (operations (Unary f r)) w1 w2 q (derivative post M (Unary f r))"
      unfolding k(1) GetDerivative_op [OF s1 n X(1)] X(3)
      using builds_finish [OF X(2,4)] w1(2) by (auto elim: buildsE [OF _ after_refl])
  qed
next
  case (Binary f l r)
  then obtain k where k: "depth = Suc k" "height l < k" "height r < k" by (cases depth) auto
  have sup: "supported l" "supported r" using Binary.prems(2) by simp_all
  let ?DL = "seqw (left_w p) (\<lambda>l. GetDerivative M k l pdf)" and ?DR = "seqw (right_w p) (\<lambda>r. GetDerivative M k r pdf)"
  show ?case
  proof (rule buildsI)
    fix w1 assume w1: "after w w1" "can w1 (operations (Binary f l r))"
    note s1 = source_after [OF Binary.prems(1) w1(1)]
    have DL: "builds (operations l) w1 ?DL (derivative post M l)"
      by (rule builds_left [OF s1]) (rule Binary.IH(1) [OF _ sup(1) k(2)])
    have DR: "builds (operations r) w1 ?DR (derivative post M r)"
      by (rule builds_right_binary [OF s1]) (rule Binary.IH(2) [OF _ sup(2) k(3)])
    note CR = builds_CR [OF s1] and CL = builds_CL [OF s1] and num = builds_number
    have shown: "pdf \<longrightarrow> printable l \<and> printable r \<and>
        printable (derivative post M l) \<and> printable (derivative post M r)"
      using source_pdf [OF s1] derivative_printable sup by auto
    obtain n where n: "node_at w1 p = Ok n" "t_type n = OP_T" "t_value n = op_val f" "t_right n = right_of w1 p"
      by (rule tree_at_cases [OF source_tree [OF s1]]) simp
    show "\<exists>q w2. GetDerivative M depth p pdf w1 = Ok (q, w2) \<and>
        made (operations (Binary f l r)) w1 w2 q (derivative post M (Binary f l r))"
    proof (cases "f = POW")
      case False
      obtain X t where X: "derivative_rule M ?DL ?DR p f = Some X" "builds (operations l + operations r) w1 X t"
          "derivative post M (Binary f l r) = post t" "pdf \<longrightarrow> printable t"
      proof -
        from Binary.prems(2) False consider "f = ADD" | "f = SUB" | "f = MUL" | "f = DIV" by auto
        then show thesis
        proof cases
          case 1
          show thesis
            by (rule that [OF _ builds_eq [OF builds_binary [OF DL DR]]])
              (use 1 shown in \<open>auto simp: derivative_rule_def\<close>)
        next
          case 2
          show thesis
            by (rule that [OF _ builds_eq [OF builds_binary [OF DL DR]]])
              (use 2 shown in \<open>auto simp: derivative_rule_def\<close>)
        next
          case 3
          show thesis
            by (rule that [OF _ builds_eq [OF builds_binary [OF builds_binary [OF DL CR] builds_binary [OF CL DR]]]])
              (use 3 shown in \<open>auto simp: derivative_rule_def\<close>)
        next
          case 4
          show thesis
            by (rule that [OF _ builds_eq [OF builds_binary [OF
                  builds_binary [OF builds_binary [OF DL CR] builds_binary [OF CL DR]] builds_binary [OF CR CR]]]])
              (use 4 shown in \<open>auto simp: derivative_rule_def\<close>)
        qed
      qed
      show ?thesis
        unfolding k(1) GetDerivative_op [OF s1 n(1-3) X(1)] X(3)
        using builds_finish [OF X(2,4)] w1(2) False by (auto elim: buildsE [OF _ after_refl])
    next
      case True
      then obtain d where r: "r = Num d" using Binary.prems(2) by (cases r) auto
      note s2 = s1 [unfolded r]
      let ?X = "power_rule M ?DL p"
      have "builds (operations l) w1 ?X
          (Binary MUL (Binary MUL (Num d) (Binary POW l (Num (m_sub M d (m_of_int M 1))))) (derivative post M l))"
        unfolding power_rule_def
        by (rule builds_eq [OF builds_binary [OF builds_binary [OF builds_R_DBL [OF s2 num]
              builds_binary [OF CL builds_R_DBL [OF s2 num]]] DL]]) simp
      from builds_finish [OF this]
      have fin: "builds (operations (Binary f l r)) w1 (print_plus_return M pdf ?X) (derivative post M (Binary f l r))"
        using shown True r by simp
      have "tree_at w1 (right_of w1 p) (Num d)" using source_tree [OF source_right [OF s2]] .
      then obtain m where m: "node_at w1 (right_of w1 p) = Ok m" "t_type m = NUM_T" by (auto dest!: node_isD)
      have "p \<noteq> None" using node_at_OkD [OF n(1)] by blast
      then have "GetDerivative M (Suc k) p pdf w1 = print_plus_return M pdf ?X w1"
        using n m True
        by (simp add: derivative_rule_def seqw_Ok [where m = "right_w p", OF right_w_source [OF s1]])
      then show ?thesis
        unfolding k(1) using buildsE [OF fin after_refl w1(2)] by metis
    qed
  qed
qed

end

section \<open>Without printing\<close>

definition all_calloc_ok :: "'d machine \<Rightarrow> bool" where
  "all_calloc_ok M \<longleftrightarrow> (\<forall>n. m_calloc_ok M n)"

lemma new_node_world:
  assumes "all_calloc_ok M" and "fresh_above w"
  obtains w1 where "new_node M n w = Ok (Some (w_next w), w1)" and "grows w w1" and "fresh_above w1"
    and "node_at w1 (Some (w_next w)) = Ok n" and "agree {..<w_next w} w w1" and "w_next w1 = Suc (w_next w)"
    and "w_phrases w1 = w_phrases w"
proof
  let ?w1 = "w\<lparr>w_nodes := (w_nodes w)(w_next w \<mapsto> n), w_next := Suc (w_next w)\<rparr>"
  show "new_node M n w = Ok (Some (w_next w), ?w1)"
    using assms(1) by (simp add: new_node_def all_calloc_ok_def)
  show "grows w ?w1" "fresh_above ?w1" using assms(2) by (auto simp: grows_def fresh_above_def)
  show "node_at ?w1 (Some (w_next w)) = Ok n" by (simp add: node_at_def)
  show "agree {..<w_next w} w ?w1" by (simp add: agree_def)
qed simp_all

definition silent_made :: "nat \<Rightarrow> 'd world \<Rightarrow> 'd world \<Rightarrow> ptr option \<Rightarrow> 'd expr \<Rightarrow> bool" where
  "silent_made k w w' q t \<longleftrightarrow> grows w w' \<and> fresh_above w' \<and> tree_at w' q t"

definition silent_can :: "'d machine \<Rightarrow> 'd world \<Rightarrow> nat \<Rightarrow> bool" where
  "silent_can M w k \<longleftrightarrow> all_calloc_ok M \<and> fresh_above w"

lemma silent_new:
  assumes "silent_can M w2 j" and "grows w w2"
    and "\<And>w3 s. node_at w3 s = Ok n \<Longrightarrow> grows w2 w3 \<Longrightarrow> tree_at w3 s t"
  shows "\<exists>s w3. new_node M n w2 = Ok (s, w3) \<and> silent_made k w w3 s t"
proof -
  obtain w3 where "new_node M n w2 = Ok (Some (w_next w2), w3)" "grows w2 w3" "fresh_above w3"
      "node_at w3 (Some (w_next w2)) = Ok n"
    using new_node_world [of M w2 n] assms(1) by (auto simp: silent_can_def)
  then show ?thesis using assms(2,3) only_grows_trans by (auto simp: silent_made_def)
qed

interpretation silent: tree_maker M False "\<lambda>t. t" grows "silent_can M" tree_at silent_made
proof unfold_locales
  fix w w1 w2 :: "'a world" and p q s and t l r :: "'a expr" and f and i j k :: nat and d
  show "grows w w" by simp
  show "grows w w1 \<Longrightarrow> grows w1 w2 \<Longrightarrow> grows w w2" by (rule only_grows_trans)
  show "silent_made k w w1 q t \<Longrightarrow> grows w w1" by (simp add: silent_made_def)
  show "silent_can M w k \<Longrightarrow> j \<le> k \<Longrightarrow> silent_can M w j" by (simp add: silent_can_def)
  show "silent_can M w (i + j) \<Longrightarrow> silent_made i w w1 q t \<Longrightarrow> silent_can M w1 j"
    by (simp add: silent_can_def silent_made_def)
  show "tree_at w p t \<Longrightarrow> grows w w1 \<Longrightarrow> tree_at w1 p t" by (rule tree_at_grows)
  show "tree_at w p (Unary f r) \<Longrightarrow> tree_at w (right_of w p) r"
    "tree_at w p (Binary f l r) \<Longrightarrow> tree_at w (left_of w p) l"
    "tree_at w p (Binary f l r) \<Longrightarrow> tree_at w (right_of w p) r" by simp_all
  show "silent_can M w 0 \<Longrightarrow>
      \<exists>q w1. new_node M \<lparr>t_type = NUM_T, t_parent = None, t_left = None, t_right = None, t_value = dbl_val d\<rparr> w =
        Ok (q, w1) \<and> silent_made 0 w w1 q (Num d)"
    by (rule silent_new [OF _ only_grows_refl]) auto
  show "silent_can M w 0 \<Longrightarrow> tree_at w p t \<Longrightarrow> \<exists>q w1. CopyNode M p w = Ok (q, w1) \<and> silent_made 0 w w1 q t"
  proof -
    assume a: "silent_can M w 0" "tree_at w p t"
    obtain n where n: "node_at w p = Ok n" using tree_at_node [OF a(2)] by blast
    have "\<exists>s w3. new_node M n w = Ok (s, w3) \<and> silent_made 0 w w3 s t"
    proof (rule silent_new [OF a(1) only_grows_refl])
      fix w3 s assume "node_at w3 s = Ok n" and g: "grows w w3"
      then show "tree_at w3 s t"
        using a(2) n tree_at_grows [OF g] by (cases t) auto
    qed
    then show ?thesis using a(1) n by (simp add: CopyNode_def silent_can_def all_calloc_ok_def)
  qed
  show "silent_can M w1 0 \<Longrightarrow> silent_made j w w1 q r \<Longrightarrow>
      \<exists>p w2. CreateNode M OP_T (m_of_int M 0) f None None q w1 = Ok (p, w2) \<and> silent_made j w w2 p (Unary f r)"
    unfolding CreateNode_def
    by (rule silent_new) (auto simp: silent_made_def intro: tree_at_grows)
  show "silent_can M w2 0 \<Longrightarrow> silent_made i w w1 p l \<Longrightarrow> silent_made j w1 w2 q r \<Longrightarrow>
      \<exists>s w3. CreateNode M OP_T (m_of_int M 0) f None p q w2 = Ok (s, w3) \<and> silent_made (i + j) w w3 s (Binary f l r)"
    unfolding CreateNode_def
    by (rule silent_new) (auto simp: silent_made_def intro: tree_at_grows only_grows_trans)
  show "silent_can M w2 0 \<Longrightarrow> silent_made j w w1 q r \<Longrightarrow> silent_made i w1 w2 p l \<Longrightarrow>
      \<exists>s w3. CreateNode M OP_T (m_of_int M 0) f None p q w2 = Ok (s, w3) \<and> silent_made (i + j) w w3 s (Binary f l r)"
    unfolding CreateNode_def
    by (rule silent_new) (auto simp: silent_made_def intro: tree_at_grows only_grows_trans)
  show "silent_can M w1 1 \<Longrightarrow> silent_made k w w1 q t \<Longrightarrow> False \<longrightarrow> printable t \<Longrightarrow>
      \<exists>w2. (if False then PrintBranch M q DERIVATIVE else ret ()) w1 = Ok ((), w2) \<and> silent_made (Suc k) w w2 q t"
    by (simp add: silent_made_def)
qed simp_all

text \<open>Without printing, the derivative is the symbolic one; nothing that was there changes.\<close>

lemma GetDerivative_silent:
  assumes "tree_at w p t" and "supported t" and "height t < depth" and "all_calloc_ok M" and "fresh_above w"
  shows "\<exists>q w'. GetDerivative M depth p False w = Ok (q, w') \<and> grows w w' \<and> fresh_above w' \<and>
           tree_at w' q (derivative (\<lambda>t. t) M t)"
proof -
  have "silent_can M w (operations t)" using assms by (simp add: silent_can_def)
  then show ?thesis
    using silent.buildsE [OF silent.builds_GetDerivative [OF assms(1-3), of M] only_grows_refl]
    unfolding silent_made_def by metis
qed

end
