(* ===== verification/DC_Printed.thy ===== *)
theory DC_Printed
  imports DC_Derivative
begin

text \<open>
  The derivative when every step is printed and simplified.  The nodes of the tree that is derived
  form the set \<open>F\<close>: the copies share them, so they must hold nothing that can be rewritten.
\<close>

section \<open>The states between the steps\<close>

definition later :: "'d world \<Rightarrow> 'd world \<Rightarrow> bool" where
  "later w w' \<longleftrightarrow> agree {..<w_next w} w w' \<and> w_next w \<le> w_next w' \<and> w_graph w' = w_graph w"

definition printed_can :: "'d machine \<Rightarrow> ptr set \<Rightarrow> 'd world \<Rightarrow> nat \<Rightarrow> bool" where
  "printed_can M F w k \<longleftrightarrow>
     all_calloc_ok M \<and> fresh_above w \<and> F \<subseteq> {..<w_next w} \<and> w_phrases w + k \<le> UselessPhrases_size"

definition printed_source :: "'d machine \<Rightarrow> ptr set \<Rightarrow> 'd world \<Rightarrow> ptr option \<Rightarrow> 'd expr \<Rightarrow> bool" where
  "printed_source M F w p t \<longleftrightarrow>
     tree_at w p t \<and> frozen M w F p t \<and> printable t \<and> F \<subseteq> {..<w_next w}"

definition printed_made ::
    "'d machine \<Rightarrow> ptr set \<Rightarrow> nat \<Rightarrow> 'd world \<Rightarrow> 'd world \<Rightarrow> ptr option \<Rightarrow> 'd expr \<Rightarrow> bool" where
  "printed_made M F k w w' q t \<longleftrightarrow>
     later w w' \<and> fresh_above w' \<and> sole M w' F q t \<and> set (cells w' F q t) \<subseteq> {w_next w..<w_next w'} \<and>
     w_phrases w' = w_phrases w + k \<and> F \<subseteq> {..<w_next w}"

lemma later_refl: "later w w"
  by (simp add: later_def agree_def)

lemma later_trans: "later w w1 \<Longrightarrow> later w1 w2 \<Longrightarrow> later w w2"
  by (auto simp: later_def agree_def)

lemma later_agree: "later w w' \<Longrightarrow> A \<subseteq> {..<w_next w} \<Longrightarrow> agree A w w'"
  by (auto simp: later_def intro: agree_mono)

lemma made_sole:
  assumes "printed_made M F k w w1 q t" and "later w1 w2"
  shows "sole M w2 F q t \<and> cells w2 F q t = cells w1 F q t"
proof (rule sole_agree)
  show "sole M w1 F q t" using assms(1) by (simp add: printed_made_def)
  show "agree (F \<union> set (cells w1 F q t)) w1 w2"
    by (rule later_agree [OF assms(2)])
      (use assms(1) in \<open>auto simp: printed_made_def later_def\<close>)
qed

lemma source_parts:
  assumes "printed_source M F w p (Binary f l r)"
  shows "printed_source M F w (left_of w p) l" and "printed_source M F w (right_of w p) r"
  using assms by (auto simp: printed_source_def frozen_def)

lemma source_part:
  assumes "printed_source M F w p (Unary f r)"
  shows "printed_source M F w (right_of w p) r"
  using assms by (auto simp: printed_source_def frozen_def)

lemma source_later:
  assumes "printed_source M F w p t" and "later w w1"
  shows "printed_source M F w1 p t"
proof -
  have "agree F w w1" by (rule later_agree [OF assms(2)]) (use assms(1) in \<open>simp add: printed_source_def\<close>)
  then show ?thesis
    using assms frozen_agree frozen_tree by (auto simp: printed_source_def later_def)
qed

text \<open>A new node over what was made before.\<close>

lemma printed_new:
  assumes "printed_can M F w2 i" and "later w w2" and "w_phrases w2 = w_phrases w + k" and "F \<subseteq> {..<w_next w}"
    and "\<And>w3 s. node_at w3 s = Ok n \<Longrightarrow> later w2 w3 \<Longrightarrow> the s = w_next w2 \<Longrightarrow>
           sole M w3 F s t \<and> set (cells w3 F s t) \<subseteq> {w_next w..w_next w2}"
  shows "\<exists>s w3. new_node M n w2 = Ok (s, w3) \<and> printed_made M F k w w3 s t"
proof -
  obtain w3 where w3: "new_node M n w2 = Ok (Some (w_next w2), w3)" "fresh_above w3"
      "node_at w3 (Some (w_next w2)) = Ok n" "agree {..<w_next w2} w2 w3" "w_next w3 = Suc (w_next w2)"
      "w_phrases w3 = w_phrases w2" "grows w2 w3"
    using new_node_world [of M w2 n] assms(1) by (auto simp: printed_can_def)
  have l: "later w2 w3" using w3(4,5,7) by (simp add: later_def grows_def)
  have "sole M w3 F (Some (w_next w2)) t \<and> set (cells w3 F (Some (w_next w2)) t) \<subseteq> {w_next w..w_next w2}"
    by (rule assms(5) [OF w3(3) l]) simp
  then have "printed_made M F k w w3 (Some (w_next w2)) t"
    using w3 assms(3,4) later_trans [OF assms(2) l] by (auto simp: printed_made_def less_Suc_eq_le)
  with w3(1) show ?thesis by blast
qed

lemma printed_binary:
  assumes "printed_can M F w2 0" and "printed_made M F i w w1 p l" and "printed_made M F j w1 w2 q r"
    and "t_type n = OP_T" and "t_value n = op_val f"
    and "t_left n = p \<and> t_right n = q \<and> e = Binary f l r \<or> t_left n = q \<and> t_right n = p \<and> e = Binary f r l"
  shows "\<exists>s w3. new_node M n w2 = Ok (s, w3) \<and> printed_made M F (i + j) w w3 s e"
proof (rule printed_new [OF assms(1)])
  have l: "later w w1" "later w1 w2" using assms(2,3) by (simp_all add: printed_made_def)
  then show "later w w2" by (rule later_trans)
  show "w_phrases w2 = w_phrases w + (i + j)" "F \<subseteq> {..<w_next w}"
    using assms(2,3) by (simp_all add: printed_made_def)
  fix w3 s assume s: "node_at w3 s = Ok n" "later w2 w3" "the s = w_next w2"
  have sl: "sole M w3 F p l" "cells w3 F p l = cells w1 F p l"
    using made_sole [OF assms(2) later_trans [OF l(2) s(2)]] by simp_all
  have sr: "sole M w3 F q r" "cells w3 F q r = cells w2 F q r"
    using made_sole [OF assms(3) s(2)] by simp_all
  have F: "w_next w2 \<notin> F" using assms(1) by (auto simp: printed_can_def)
  have cl: "set (cells w1 F p l) \<subseteq> {w_next w..<w_next w1}" and cr: "set (cells w2 F q r) \<subseteq> {w_next w1..<w_next w2}"
    and le: "w_next w \<le> w_next w1" "w_next w1 \<le> w_next w2"
    using assms(2,3) l by (simp_all add: printed_made_def later_def)
  have disj: "set (cells w1 F p l) \<inter> set (cells w2 F q r) = {}"
    "w_next w2 \<notin> set (cells w1 F p l)" "w_next w2 \<notin> set (cells w2 F q r)"
    using cl cr le by (auto simp: disjoint_iff subset_iff) (meson leD)+
  have cl': "set (cells w1 F p l) \<subseteq> {w_next w..w_next w2}" and cr': "set (cells w2 F q r) \<subseteq> {w_next w..w_next w2}"
    using cl cr le by force+
  from assms(6) show "sole M w3 F s e \<and> set (cells w3 F s e) \<subseteq> {w_next w..w_next w2}"
  proof
    assume "t_left n = p \<and> t_right n = q \<and> e = Binary f l r"
    with s(1,3) assms(4,5) sl sr F disj cl' cr' le show ?thesis
      by (simp add: sole_def Int_commute)
  next
    assume "t_left n = q \<and> t_right n = p \<and> e = Binary f r l"
    with s(1,3) assms(4,5) sl sr F disj cl' cr' le show ?thesis
      by (simp add: sole_def Int_commute)
  qed
qed

lemma printed_copy:
  assumes "printed_can M F w 0" and "printed_source M F w p t"
  shows "\<exists>q w1. CopyNode M p w = Ok (q, w1) \<and> printed_made M F 0 w w1 q t"
proof -
  have t: "tree_at w p t" using assms(2) by (simp add: printed_source_def)
  obtain n where n: "node_at w p = Ok n" using tree_at_node [OF t] by blast
  have FF: "F \<subseteq> {..<w_next w}" "w_next w \<notin> F" using assms(1) by (auto simp: printed_can_def)
  have "\<exists>s w3. new_node M n w = Ok (s, w3) \<and> printed_made M F 0 w w3 s t"
  proof (rule printed_new [OF assms(1) later_refl _ FF(1)])
    fix w3 s assume s: "node_at w3 s = Ok n" "later w w3" "the s = w_next w"
    have src: "printed_source M F w3 p t" by (rule source_later [OF assms(2) s(2)])
    have "agree F w w3" by (rule later_agree [OF s(2) FF(1)])
    then have p: "node_at w3 p = Ok n"
      using assms(2) n by (cases t) (auto simp: printed_source_def frozen_def agree_node)
    show "sole M w3 F s t \<and> set (cells w3 F s t) \<subseteq> {w_next w..w_next w}"
    proof (cases t)
      case (Unary f r)
      with src have "frozen M w3 F (t_right n) r" using source_part [of M F w3 p f r] p
        by (simp add: printed_source_def)
      with src s p FF(2) Unary show ?thesis
        by (auto simp: sole_def printed_source_def frozen_cells)
    next
      case (Binary f l r)
      with src have fr: "frozen M w3 F (t_left n) l" "frozen M w3 F (t_right n) r"
        using source_parts [of M F w3 p f l r] p by (simp_all add: printed_source_def)
      moreover have "fold_node M f l r = None" using src Binary by (simp add: printed_source_def frozen_def)
      ultimately show ?thesis
        using src s p FF(2) Binary frozen_cells [OF fr(1)] frozen_cells [OF fr(2)]
        by (auto simp: sole_def printed_source_def)
    qed (use src s p FF(2) in \<open>auto simp: sole_def printed_source_def\<close>)
  qed simp
  then show ?thesis using assms(1) n by (simp add: CopyNode_def printed_can_def all_calloc_ok_def)
qed

lemma printed_finish:
  assumes "printed_can M F w1 1" and "printed_made M F k w w1 q t" and "printable t"
  shows "\<exists>w2. PrintBranch M q DERIVATIVE w1 = Ok ((), w2) \<and> printed_made M F (Suc k) w w2 q (simplified_all M t)"
proof -
  have m: "sole M w1 F q t" "fresh_above w1" "set (cells w1 F q t) \<subseteq> {w_next w..<w_next w1}" "later w w1"
    "w_phrases w1 = w_phrases w + k" "F \<subseteq> {..<w_next w}"
    using assms(2) by (simp_all add: printed_made_def)
  have "w_phrases w1 < UselessPhrases_size" using assms(1) by (simp add: printed_can_def)
  from PrintBranch_derivative [OF m(1) assms(3) m(2) this] obtain w2 where
      w2: "PrintBranch M q DERIVATIVE w1 = Ok ((), w2)" "sole M w2 F q (simplified_all M t)"
        "set (cells w2 F q (simplified_all M t)) \<subseteq> set (cells w1 F q t)"
        "agree (- set (cells w1 F q t)) w1 w2" "w_next w2 = w_next w1" "w_phrases w2 = Suc (w_phrases w1)"
        "w_graph w2 = w_graph w1"
    by blast
  have "agree {..<w_next w} w1 w2" by (rule agree_mono [OF w2(4)]) (use m(3) in auto)
  then have "later w w2" using m(4) w2(5,7) by (auto simp: later_def agree_def)
  moreover have "fresh_above w2"
    unfolding fresh_above_def
  proof (intro allI impI)
    fix a assume a: "w_next w2 \<le> a"
    then have "a \<notin> set (cells w1 F q t)" using m(3) w2(5) by auto
    then show "w_nodes w2 a = None" using w2(4,5) m(2) a by (auto simp: agree_def fresh_above_def)
  qed
  ultimately show ?thesis
    using w2 m by (intro exI [of _ w2]) (auto simp: printed_made_def)
qed

section \<open>The derivative\<close>

interpretation printed: tree_maker M True "simplified_all M" later "printed_can M F" "printed_source M F" "printed_made M F"
proof unfold_locales
  fix w w1 w2 :: "'a world" and p q s and t l r :: "'a expr" and f and i j k :: nat and d
  show "later w w" by (rule later_refl)
  show "later w w1 \<Longrightarrow> later w1 w2 \<Longrightarrow> later w w2" by (rule later_trans)
  show "printed_made M F k w w1 q t \<Longrightarrow> later w w1" by (simp add: printed_made_def)
  show "printed_can M F w k \<Longrightarrow> j \<le> k \<Longrightarrow> printed_can M F w j" by (simp add: printed_can_def)
  show "printed_can M F w (i + j) \<Longrightarrow> printed_made M F i w w1 q t \<Longrightarrow> printed_can M F w1 j"
    by (auto simp: printed_can_def printed_made_def later_def)
  show "printed_source M F w p t \<Longrightarrow> tree_at w p t" by (simp add: printed_source_def)
  show "printed_source M F w p t \<Longrightarrow> later w w1 \<Longrightarrow> printed_source M F w1 p t" by (rule source_later)
  show "printed_source M F w p (Unary f r) \<Longrightarrow> printed_source M F w (right_of w p) r" by (rule source_part)
  show "printed_source M F w p (Binary f l r) \<Longrightarrow> printed_source M F w (left_of w p) l" by (rule source_parts)
  show "printed_source M F w p (Binary f l r) \<Longrightarrow> printed_source M F w (right_of w p) r" by (rule source_parts)
  show "printed_source M F w p t \<Longrightarrow> True \<Longrightarrow> printable t" by (simp add: printed_source_def)
  show "printed_can M F w 0 \<Longrightarrow>
      \<exists>q w1. new_node M \<lparr>t_type = NUM_T, t_parent = None, t_left = None, t_right = None, t_value = dbl_val d\<rparr> w =
        Ok (q, w1) \<and> printed_made M F 0 w w1 q (Num d)"
    by (rule printed_new [where i = 0, OF _ later_refl]) (auto simp: printed_can_def sole_def)
  show "printed_can M F w 0 \<Longrightarrow> printed_source M F w p t \<Longrightarrow>
      \<exists>q w1. CopyNode M p w = Ok (q, w1) \<and> printed_made M F 0 w w1 q t"
    by (rule printed_copy)
  show "printed_can M F w1 0 \<Longrightarrow> printed_made M F j w w1 q r \<Longrightarrow>
      \<exists>p w2. CreateNode M OP_T (m_of_int M 0) f None None q w1 = Ok (p, w2) \<and> printed_made M F j w w2 p (Unary f r)"
  proof -
    assume a: "printed_can M F w1 0" "printed_made M F j w w1 q r"
    have m: "later w w1" "w_phrases w1 = w_phrases w + j" "F \<subseteq> {..<w_next w}"
      "set (cells w1 F q r) \<subseteq> {w_next w..<w_next w1}" "w_next w1 \<notin> F"
      using a by (auto simp: printed_made_def printed_can_def)
    show ?thesis
      unfolding CreateNode_def
    proof (rule printed_new [OF a(1) m(1-3)])
      fix w3 s
      assume s: "node_at w3 s = Ok \<lparr>t_type = OP_T, t_parent = None, t_left = None, t_right = q,
          t_value = init_value OP_T (m_of_int M 0) f None\<rparr>" "later w1 w3" "the s = w_next w1"
      have "sole M w3 F q r" "cells w3 F q r = cells w1 F q r" using made_sole [OF a(2) s(2)] by simp_all
      moreover have "set (cells w1 F q r) \<subseteq> {w_next w..w_next w1}" "w_next w1 \<notin> set (cells w1 F q r)"
        using m(4) by force+
      ultimately show "sole M w3 F s (Unary f r) \<and> set (cells w3 F s (Unary f r)) \<subseteq> {w_next w..w_next w1}"
        using s(1,3) m by (simp add: sole_def later_def)
    qed
  qed
  show "printed_can M F w2 0 \<Longrightarrow> printed_made M F i w w1 p l \<Longrightarrow> printed_made M F j w1 w2 q r \<Longrightarrow>
      \<exists>s w3. CreateNode M OP_T (m_of_int M 0) f None p q w2 = Ok (s, w3) \<and> printed_made M F (i + j) w w3 s (Binary f l r)"
    unfolding CreateNode_def by (rule printed_binary) auto
  show "printed_can M F w2 0 \<Longrightarrow> printed_made M F j w w1 q r \<Longrightarrow> printed_made M F i w1 w2 p l \<Longrightarrow>
      \<exists>s w3. CreateNode M OP_T (m_of_int M 0) f None p q w2 = Ok (s, w3) \<and> printed_made M F (i + j) w w3 s (Binary f l r)"
    unfolding CreateNode_def add.commute [of i j] by (rule printed_binary) auto
  show "printed_can M F w1 1 \<Longrightarrow> printed_made M F k w w1 q t \<Longrightarrow> True \<longrightarrow> printable t \<Longrightarrow>
      \<exists>w2. (if True then PrintBranch M q DERIVATIVE else ret ()) w1 = Ok ((), w2) \<and>
        printed_made M F (Suc k) w w2 q (simplified_all M t)"
    using printed_finish by auto
  show "printable t \<Longrightarrow> printable (simplified_all M t)" by (rule simplified_all_printable)
qed

lemma GetDerivative_printed:
  assumes "printed_source M F w p t" and "supported t" and "height t < depth" and "printed_can M F w (operations t)"
  shows "\<exists>q w'. GetDerivative M depth p True w = Ok (q, w') \<and>
           printed_made M F (operations t) w w' q (derivative (simplified_all M) M t)"
  using printed.buildsE [OF printed.builds_GetDerivative [OF assms(1-3)] later_refl assms(4)] by metis

end
