(* ===== verification/DC_ParserCorrect.thy ===== *)
theory DC_ParserCorrect
  imports DC_Parser DC_Printed
begin

text \<open>
  The parser reads back every expression from the symbols that \<open>symbols\<close> writes for it.
\<close>

section \<open>Symbols in the array of tokens\<close>

fun symbols_at :: "'d Token list \<Rightarrow> nat \<Rightarrow> 'd symbol list \<Rightarrow> bool" where
  "symbols_at toks i [] = True"
| "symbols_at toks i (s # ss) =
     (i < length toks \<and> symbol_of (toks ! i) = Some s \<and> symbols_at toks (Suc i) ss)"

lemma symbols_at_append [simp]:
  "symbols_at toks i (ss @ ts) \<longleftrightarrow> symbols_at toks i ss \<and> symbols_at toks (i + length ss) ts"
  by (induction ss arbitrary: i) auto

definition op_at :: "'d machine \<Rightarrow> 'd Token list \<Rightarrow> nat \<Rightarrow> Operations" where
  "op_at M toks i = as_op M (k_value (toks ! i))"

lemma symbol_of_Some:
  "symbol_of tok = Some s \<Longrightarrow>
     (case s of Number d \<Rightarrow> k_type tok = NUM_T \<and> k_value tok = dbl_val d
      | Name c \<Rightarrow> k_type tok = VAR_T \<and> k_value tok = var_name (Some c)
      | Operation x \<Rightarrow> k_type tok = OP_T \<and> k_value tok = op_val x)"
  by (cases "k_type tok"; cases "k_value tok") (auto split: option.splits)

lemma CUR_TOKEN_in: "i < length toks \<Longrightarrow> CUR_TOKEN toks i w = Ok (toks ! i, w)"
  by (simp add: CUR_TOKEN_def readw_def)

lemma op_at_Operation: "symbols_at toks i (Operation x # ss) \<Longrightarrow> op_at M toks i = x"
  using symbol_of_Some [of "toks ! i" "Operation x"] by (simp add: op_at_def)

section \<open>New nodes\<close>

text \<open>The parser allocates nodes only, and gives every node one owner.\<close>

definition parse_can :: "'d machine \<Rightarrow> 'd world \<Rightarrow> bool" where
  "parse_can M w \<longleftrightarrow> silent_can M w 0 \<and> printed_can M {} w 0"

definition parse_made :: "'d machine \<Rightarrow> 'd world \<Rightarrow> 'd world \<Rightarrow> ptr option \<Rightarrow> 'd expr \<Rightarrow> bool" where
  "parse_made M w w' p t \<longleftrightarrow> silent_made 0 w w' p t \<and> printed_made M {} 0 w w' p t"

lemma parse_can_made: "parse_can M w \<Longrightarrow> parse_made M w w1 p t \<Longrightarrow> parse_can M w1"
  by (auto simp: parse_can_def parse_made_def silent_can_def silent_made_def printed_can_def printed_made_def later_def)

lemma parse_number:
  assumes "parse_can M w"
  shows "\<exists>p w1. CreateDigitNode M d w = Ok (p, w1) \<and> parse_made M w w1 p (Num d)"
  using silent.make_number [of M w d] printed.make_number [of M "{}" w d] assms
  by (auto simp: parse_can_def parse_made_def CreateDigitNode_def)

lemma parse_name:
  assumes "parse_can M w"
  shows "\<exists>p w1. CreateNode M VAR_T x UNKNOWN (Some s) None None w = Ok (p, w1) \<and> parse_made M w w1 p (Var s)"
proof -
  let ?n = "\<lparr>t_type = VAR_T, t_parent = None, t_left = None, t_right = None, t_value = var_name (Some s)\<rparr>"
  have "\<exists>p w1. new_node M ?n w = Ok (p, w1) \<and> silent_made 0 w w1 p (Var s)"
    by (rule silent_new [of M w 0]) (use assms in \<open>auto simp: parse_can_def\<close>)
  moreover have "\<exists>p w1. new_node M ?n w = Ok (p, w1) \<and> printed_made M {} 0 w w1 p (Var s)"
    by (rule printed_new [where i = 0, OF _ later_refl]) (use assms in \<open>auto simp: parse_can_def sole_def\<close>)
  ultimately show ?thesis by (auto simp: CreateNode_def parse_made_def)
qed

lemma parse_unary:
  assumes "parse_can M w1" and "parse_made M w w1 q r"
  shows "\<exists>p w2. CreateNode M OP_T (m_of_int M 0) f None None q w1 = Ok (p, w2) \<and> parse_made M w w2 p (Unary f r)"
  using silent.make_unary [of M w1 0 w q r f] printed.make_unary [of M "{}" w1 0 w q r f] assms
  by (auto simp: parse_can_def parse_made_def)

lemma parse_binary:
  assumes "parse_can M w2" and "parse_made M w w1 p l" and "parse_made M w1 w2 q r"
  shows "\<exists>s w3. CreateNode M OP_T (m_of_int M 0) f None p q w2 = Ok (s, w3) \<and> parse_made M w w3 s (Binary f l r)"
  using silent.make_binary [of M w2 0 w w1 p l 0 q r f] printed.make_binary [of M "{}" w2 0 w w1 p l 0 q r f] assms
  by (auto simp: parse_can_def parse_made_def)

section \<open>One level\<close>

definition ops_at :: "nat \<Rightarrow> Operations list" where
  "ops_at k = (if k = 0 then expression_ops else if k = 1 then mlt_ops else power_ops)"

lemma ops_at_level: "x \<in> set (ops_at k) \<Longrightarrow> k \<le> 2 \<Longrightarrow> level_of x = k"
  by (auto simp: ops_at_def expression_ops_def mlt_ops_def power_ops_def split: if_splits)

definition parse_level :: "'d machine \<Rightarrow> 'd Token list \<Rightarrow> nat \<Rightarrow> nat \<Rightarrow> nat \<Rightarrow> ('d, ptr option \<times> nat) op" where
  "parse_level M toks n k =
     (if k = 0 then GetExpression M toks n else if k = 1 then GetMlt M toks n
      else if k = 2 then GetPower M toks n else GetBracketExp M toks n)"

lemma parse_level_step:
  "k \<le> 2 \<Longrightarrow> parse_level M toks n k = left_assoc M toks (ops_at k) (parse_level M toks n (Suc k))"
  by (auto simp: parse_level_def ops_at_def GetExpression_def GetMlt_def GetPower_def le_Suc_eq numeral_2_eq_2)

text \<open>The token at \<open>j\<close> is no operation that a loop of level \<open>k\<close> or above would go on with.\<close>

definition quiet :: "'d machine \<Rightarrow> 'd Token list \<Rightarrow> nat \<Rightarrow> nat \<Rightarrow> bool" where
  "quiet M toks k j \<longleftrightarrow> j < length toks \<and> (\<forall>k'. k \<le> k' \<longrightarrow> k' \<le> 2 \<longrightarrow> op_at M toks j \<notin> set (ops_at k'))"

lemma quiet_mono: "quiet M toks k j \<Longrightarrow> k \<le> k' \<Longrightarrow> quiet M toks k' j"
  by (auto simp: quiet_def)

text \<open>
  Reading the symbols of an expression at a level, and reading them as the first operand of the loop
  of the level.
\<close>

definition reads :: "'d machine \<Rightarrow> 'd Token list \<Rightarrow> nat \<Rightarrow> nat \<Rightarrow> 'd expr \<Rightarrow> bool" where
  "reads M toks n k t \<longleftrightarrow>
     (\<forall>i w j. symbols_at toks i (symbols k t) \<longrightarrow> list_all (plain_symbol M) (symbols k t) \<longrightarrow>
        j = i + length (symbols k t) \<longrightarrow> quiet M toks k j \<longrightarrow> parse_can M w \<longrightarrow>
        (\<exists>p w'. parse_level M toks n k i w = Ok ((p, j), w') \<and> parse_made M w w' p t))"

definition reads_first :: "'d machine \<Rightarrow> 'd Token list \<Rightarrow> nat \<Rightarrow> nat \<Rightarrow> 'd expr \<Rightarrow> bool" where
  "reads_first M toks n k t \<longleftrightarrow>
     (\<forall>i w j. symbols_at toks i (symbols k t) \<longrightarrow> list_all (plain_symbol M) (symbols k t) \<longrightarrow>
        j = i + length (symbols k t) \<longrightarrow> quiet M toks (Suc k) j \<longrightarrow> parse_can M w \<longrightarrow>
        (\<exists>p w'. parse_level M toks n k i w =
             rbind (operand_loop M toks (ops_at k) (parse_level M toks n (Suc k)) (True, (p, j), w'))
               (\<lambda>(more, st, w). Ok (st, w)) \<and> parse_made M w w' p t))"

lemma operand_loop_end:
  assumes "j < length toks" and "op_at M toks j \<notin> set ops"
  shows "operand_loop M toks ops sub (True, (p, j), w) = Ok (False, (p, j), w)"
  unfolding operand_loop_def
  by (subst while_do_step [where t = "(False, (p, j), w)"])
    (use assms in \<open>simp_all add: CUR_TOKEN_in op_at_def\<close>)

lemma operand_loop_more:
  assumes "j < length toks" and "op_at M toks j \<in> set ops"
    and "sub (Suc j) w = Ok ((q, j'), w1)"
    and "CreateNode M OP_T (m_of_int M 0) (op_at M toks j) None p q w1 = Ok (s, w2)"
  shows "operand_loop M toks ops sub (True, (p, j), w) = operand_loop M toks ops sub (True, (s, j'), w2)"
  unfolding operand_loop_def
  by (rule while_do_step) (use assms in \<open>simp_all add: CUR_TOKEN_in op_at_def Let_def\<close>)

lemma reads_first_reads:
  assumes "reads_first M toks n k t" and "k \<le> 2"
  shows "reads M toks n k t"
  unfolding reads_def
proof (intro allI impI)
  fix i w j
  assume a: "symbols_at toks i (symbols k t)" "list_all (plain_symbol M) (symbols k t)"
    "j = i + length (symbols k t)" "quiet M toks k j" "parse_can M w"
  have "quiet M toks (Suc k) j" by (rule quiet_mono [OF a(4)]) simp
  then obtain p w' where w': "parse_level M toks n k i w =
        rbind (operand_loop M toks (ops_at k) (parse_level M toks n (Suc k)) (True, (p, j), w'))
          (\<lambda>(more, st, w). Ok (st, w))" "parse_made M w w' p t"
    using assms(1) a unfolding reads_first_def by blast
  have "operand_loop M toks (ops_at k) (parse_level M toks n (Suc k)) (True, (p, j), w') = Ok (False, (p, j), w')"
    by (rule operand_loop_end) (use a(4) assms(2) in \<open>auto simp: quiet_def\<close>)
  with w' show "\<exists>p w'. parse_level M toks n k i w = Ok ((p, j), w') \<and> parse_made M w w' p t" by auto
qed

lemma reads_reads_first:
  assumes "reads M toks n (Suc k) t" and "k \<le> 2" and "symbols k t = symbols (Suc k) t"
  shows "reads_first M toks n k t"
  unfolding reads_first_def
proof (intro allI impI)
  fix i w j
  assume "symbols_at toks i (symbols k t)" "list_all (plain_symbol M) (symbols k t)"
    "j = i + length (symbols k t)" "quiet M toks (Suc k) j" "parse_can M w"
  then obtain p w' where "parse_level M toks n (Suc k) i w = Ok ((p, j), w')" "parse_made M w w' p t"
    using assms(1) unfolding reads_def assms(3) by blast
  then show "\<exists>p w'. parse_level M toks n k i w =
      rbind (operand_loop M toks (ops_at k) (parse_level M toks n (Suc k)) (True, (p, j), w'))
        (\<lambda>(more, st, w). Ok (st, w)) \<and> parse_made M w w' p t"
    by (auto simp: parse_level_step [OF assms(2)] left_assoc_def)
qed

text \<open>From one level to the levels below that write the expression in the same way.\<close>

lemma reads_down:
  assumes "reads M toks n h t" and "h \<le> 3" and "\<And>k. b \<le> k \<Longrightarrow> k \<le> h \<Longrightarrow> symbols k t = symbols h t"
    and "b \<le> k" and "k \<le> h"
  shows "reads M toks n k t \<and> (k < h \<longrightarrow> reads_first M toks n k t)"
  using assms(5,4)
proof (induction k rule: inc_induct)
  case (step k)
  have "reads M toks n (Suc k) t" using step.IH step.prems by simp
  moreover have "symbols k t = symbols (Suc k) t" using assms(3) [of k] assms(3) [of "Suc k"] step.hyps step.prems by simp
  moreover have "k \<le> 2" using step.hyps assms(2) by simp
  ultimately show ?case using reads_reads_first reads_first_reads by blast
qed (use assms(1) in simp)

section \<open>Operands\<close>

lemma GetBracketExp_number:
  assumes "symbols_at toks i [Number d]" and "plain_symbol M (Number d)" and "parse_can M w"
  shows "\<exists>p w'. GetBracketExp M toks (Suc n) i w = Ok ((p, Suc i), w') \<and> parse_made M w w' p (Num d)"
proof -
  have tok: "i < length toks" "k_type (toks ! i) = NUM_T" "k_value (toks ! i) = dbl_val d"
    using assms(1) symbol_of_Some [of "toks ! i" "Number d"] by simp_all
  obtain p w' where "CreateDigitNode M d w = Ok (p, w')" "parse_made M w w' p (Num d)"
    using parse_number [OF assms(3)] by blast
  with tok assms(2) show ?thesis
    by (auto simp: seqw_Ok [OF CUR_TOKEN_in] GetNumber_def no_operation_def seqw_Ok)
qed

lemma GetBracketExp_name:
  assumes "symbols_at toks i [Name s]" and "plain_symbol M (Name s)" and "parse_can M w"
  shows "\<exists>p w'. GetBracketExp M toks (Suc n) i w = Ok ((p, Suc i), w') \<and> parse_made M w w' p (Var s)"
proof -
  have tok: "i < length toks" "k_type (toks ! i) = VAR_T" "k_value (toks ! i) = var_name (Some s)"
    using assms(1) symbol_of_Some [of "toks ! i" "Name s"] by simp_all
  obtain p w' where "CreateNode M VAR_T (m_of_int M 0) UNKNOWN (Some s) None None w = Ok (p, w')"
      "parse_made M w w' p (Var s)" using parse_name [OF assms(3)] by blast
  with tok assms(2) show ?thesis
    by (auto simp: seqw_Ok [OF CUR_TOKEN_in] GetNumber_def no_operation_def seqw_Ok)
qed

text \<open>An expression in brackets, alone or behind the name of a function.\<close>

lemma quiet_close: "symbols_at toks j (Operation CLOSE_BR # ss) \<Longrightarrow> quiet M toks k j"
  using op_at_Operation [of toks j CLOSE_BR ss M]
  by (auto simp: quiet_def ops_at_def expression_ops_def mlt_ops_def power_ops_def)

lemma reads_bracketed:
  assumes "reads M toks n 0 t" and "symbols_at toks i (bracket True (symbols 0 t))"
    and "list_all (plain_symbol M) (symbols 0 t)" and "parse_can M w"
    and "j = Suc i + length (symbols 0 t)"
  shows "\<exists>p w'. left_assoc M toks expression_ops (left_assoc M toks mlt_ops
             (left_assoc M toks power_ops (GetBracketExp M toks n))) (Suc i) w = Ok ((p, j), w') \<and>
           parse_made M w w' p t \<and> j < length toks \<and> op_at M toks j = CLOSE_BR"
proof -
  have close: "symbols_at toks j [Operation CLOSE_BR]" and s: "symbols_at toks (Suc i) (symbols 0 t)"
    using assms(2,5) by (simp_all add: bracket_def)
  obtain p w' where "parse_level M toks n 0 (Suc i) w = Ok ((p, j), w')" "parse_made M w w' p t"
    using assms(1) s assms(3,4,5) quiet_close [OF close] unfolding reads_def by blast
  then show ?thesis
    using close op_at_Operation [OF close]
    by (auto simp: parse_level_def GetExpression_def GetMlt_def GetPower_def)
qed

lemma GetBracketExp_bracket:
  assumes "reads M toks n 0 t" and "symbols_at toks i (bracket True (symbols 0 t))"
    and "list_all (plain_symbol M) (symbols 0 t)" and "parse_can M w"
  shows "\<exists>p w'. GetBracketExp M toks (Suc n) i w = Ok ((p, i + length (bracket True (symbols 0 t))), w') \<and>
           parse_made M w w' p t"
proof -
  let ?j = "Suc i + length (symbols 0 t)"
  obtain p w' where "left_assoc M toks expression_ops (left_assoc M toks mlt_ops
             (left_assoc M toks power_ops (GetBracketExp M toks n))) (Suc i) w = Ok ((p, ?j), w')"
      and m: "parse_made M w w' p t" and j: "?j < length toks" "op_at M toks ?j = CLOSE_BR"
    using reads_bracketed [OF assms refl] by blast
  moreover have "i < length toks" "op_at M toks i = OPEN_BR"
    using assms(2) op_at_Operation [of toks i OPEN_BR] by (auto simp: bracket_def)
  ultimately have "GetBracketExp M toks (Suc n) i w = Ok ((p, Suc ?j), w')"
    by (simp add: seqw_Ok [OF CUR_TOKEN_in] seqw_Ok op_at_def)
  then show ?thesis using m by (auto simp: bracket_def)
qed

lemma GetBracketExp_function:
  assumes "reads M toks n 0 t" and "f = SIN \<or> f = COS \<or> f = LN"
    and "symbols_at toks i (Operation f # bracket True (symbols 0 t))"
    and "list_all (plain_symbol M) (symbols 0 t)" and "parse_can M w"
  shows "\<exists>p w'. GetBracketExp M toks (Suc n) i w = Ok ((p, Suc i + length (bracket True (symbols 0 t))), w') \<and>
           parse_made M w w' p (Unary f t)"
proof -
  let ?j = "Suc (Suc i) + length (symbols 0 t)"
  obtain p w' where run: "left_assoc M toks expression_ops (left_assoc M toks mlt_ops
             (left_assoc M toks power_ops (GetBracketExp M toks n))) (Suc (Suc i)) w = Ok ((p, ?j), w')"
      and m: "parse_made M w w' p t" and j: "?j < length toks" "op_at M toks ?j = CLOSE_BR"
    using reads_bracketed [OF assms(1) _ assms(4,5) refl, of "Suc i"] assms(3) by auto
  obtain q w2 where q: "CreateNode M OP_T (m_of_int M 0) f None None p w' = Ok (q, w2)" "parse_made M w w2 q (Unary f t)"
    using parse_unary [OF parse_can_made [OF assms(5) m] m, of f] by blast
  have tok: "i < length toks" "k_type (toks ! i) = OP_T" "as_op M (k_value (toks ! i)) = f"
    using assms(3) symbol_of_Some [of "toks ! i" "Operation f"] by auto
  then have "GetBracketExp M toks (Suc n) i w = Ok ((q, Suc ?j), w2)"
    using assms(2) run j q(1)
    by (auto simp: seqw_Ok [OF CUR_TOKEN_in] seqw_Ok op_at_def GetOperationNode_def)
  then show ?thesis using q(2) by (auto simp: bracket_def)
qed

section \<open>Expressions\<close>

text \<open>How deep the brackets of an expression are nested.\<close>

fun nesting :: "nat \<Rightarrow> 'd expr \<Rightarrow> nat" where
  "nesting k (Num d) = 1"
| "nesting k (Var s) = 1"
| "nesting k (Unary f r) = Suc (nesting 0 r)"
| "nesting k (Binary f l r) =
     (if level_of f < k then 1 else 0) + max (nesting (level_of f) l) (nesting (Suc (level_of f)) r)"

lemma nesting_length: "nesting k t \<le> length (symbols k t)"
proof (induction t arbitrary: k)
  case (Unary f r)
  show ?case using Unary.IH [of 0] by (simp add: bracket_def)
next
  case (Binary f l r)
  show ?case
    using Binary(1) [of "level_of f"] Binary(2) [of "Suc (level_of f)"] by (simp add: bracket_def)
qed simp_all

lemma reads_unary_or_leaf:
  assumes "\<And>n i w. b \<le> n \<Longrightarrow> symbols_at toks i (symbols 3 t) \<Longrightarrow> list_all (plain_symbol M) (symbols 3 t) \<Longrightarrow>
      parse_can M w \<Longrightarrow>
      \<exists>p w'. GetBracketExp M toks n i w = Ok ((p, i + length (symbols 3 t)), w') \<and> parse_made M w w' p t"
    and "b \<le> n"
  shows "reads M toks n 3 t"
  using assms unfolding reads_def parse_level_def by simp

lemma reads_binary:
  assumes "reads_first M toks n k l" and "reads M toks n (Suc k) r" and "k = level_of f" and "k \<le> 2"
    and "f \<in> set (ops_at k)"
  shows "reads_first M toks n k (Binary f l r)"
  unfolding reads_first_def
proof (intro allI impI)
  fix i w j
  let ?i1 = "i + length (symbols k l)"
  assume a: "symbols_at toks i (symbols k (Binary f l r))" "list_all (plain_symbol M) (symbols k (Binary f l r))"
    "j = i + length (symbols k (Binary f l r))" "quiet M toks (Suc k) j" "parse_can M w"
  have s: "symbols_at toks i (symbols k l)" "symbols_at toks ?i1 [Operation f]"
      "symbols_at toks (Suc ?i1) (symbols (Suc k) r)" "j = Suc ?i1 + length (symbols (Suc k) r)"
      "list_all (plain_symbol M) (symbols k l)" "list_all (plain_symbol M) (symbols (Suc k) r)"
    using a(1,2,3) assms(3) by (simp_all add: bracket_def)
  have f: "op_at M toks ?i1 = f" "?i1 < length toks"
    using op_at_Operation [OF s(2)] s(2) by simp_all
  have "quiet M toks (Suc k) ?i1"
    using f ops_at_level [of f] assms(3) unfolding quiet_def by fastforce
  then obtain p w1 where l: "parse_level M toks n k i w =
        rbind (operand_loop M toks (ops_at k) (parse_level M toks n (Suc k)) (True, (p, ?i1), w1))
          (\<lambda>(more, st, w). Ok (st, w))" "parse_made M w w1 p l"
    using assms(1) s(1,5) a(5) unfolding reads_first_def by blast
  obtain q w2 where r: "parse_level M toks n (Suc k) (Suc ?i1) w1 = Ok ((q, j), w2)" "parse_made M w1 w2 q r"
    using assms(2) s(3,4,6) a(4) parse_can_made [OF a(5) l(2)] unfolding reads_def by blast
  obtain z w3 where z: "CreateNode M OP_T (m_of_int M 0) f None p q w2 = Ok (z, w3)"
      "parse_made M w w3 z (Binary f l r)"
    using parse_binary [OF parse_can_made [OF parse_can_made [OF a(5) l(2)] r(2)] l(2) r(2), of f] by auto
  have "operand_loop M toks (ops_at k) (parse_level M toks n (Suc k)) (True, (p, ?i1), w1) =
      operand_loop M toks (ops_at k) (parse_level M toks n (Suc k)) (True, (z, j), w3)"
    by (rule operand_loop_more [where sub = "parse_level M toks n (Suc k)", OF f(2) _ r(1)])
      (use f(1) assms(5) z(1) in simp_all)
  then show "\<exists>p w'. parse_level M toks n k i w =
      rbind (operand_loop M toks (ops_at k) (parse_level M toks n (Suc k)) (True, (p, j), w'))
        (\<lambda>(more, st, w). Ok (st, w)) \<and> parse_made M w w' p (Binary f l r)"
    using l(1) z(2) by auto
qed

lemma reads_expr:
  assumes "parsable t"
  shows "(\<forall>k\<le>3. \<forall>n\<ge>nesting k t. reads M toks n k t) \<and> (\<forall>k\<le>2. \<forall>n\<ge>nesting k t. reads_first M toks n k t)"
  using assms
proof (induction t)
  case (Num d)
  have "reads M toks n 3 (Num d)" if "1 \<le> n" for n
  proof (rule reads_unary_or_leaf [OF _ that])
    fix n i :: nat and w
    assume "1 \<le> n" "symbols_at toks i (symbols 3 (Num d))" "list_all (plain_symbol M) (symbols 3 (Num d))"
      "parse_can M w"
    then show "\<exists>p w'. GetBracketExp M toks n i w = Ok ((p, i + length (symbols 3 (Num d))), w') \<and>
        parse_made M w w' p (Num d)"
      using GetBracketExp_number [of toks i d M w "n - 1"] by (cases n) simp_all
  qed
  then show ?case using reads_down [of M toks _ 3 "Num d" 0] by simp
next
  case (Var s)
  have "reads M toks n 3 (Var s)" if "1 \<le> n" for n
  proof (rule reads_unary_or_leaf [OF _ that])
    fix n i :: nat and w
    assume "1 \<le> n" "symbols_at toks i (symbols 3 (Var s))" "list_all (plain_symbol M) (symbols 3 (Var s))"
      "parse_can M w"
    then show "\<exists>p w'. GetBracketExp M toks n i w = Ok ((p, i + length (symbols 3 (Var s))), w') \<and>
        parse_made M w w' p (Var s)"
      using GetBracketExp_name [of toks i s M w "n - 1"] by (cases n) simp_all
  qed
  then show ?case using reads_down [of M toks _ 3 "Var s" 0] by simp
next
  case (Unary f r)
  have "reads M toks n 3 (Unary f r)" if "Suc (nesting 0 r) \<le> n" for n
  proof (rule reads_unary_or_leaf [OF _ that])
    fix n i :: nat and w
    assume a: "Suc (nesting 0 r) \<le> n" "symbols_at toks i (symbols 3 (Unary f r))"
      "list_all (plain_symbol M) (symbols 3 (Unary f r))" "parse_can M w"
    obtain m where m: "n = Suc m" "nesting 0 r \<le> m" using a(1) by (cases n) auto
    have "reads M toks m 0 r" using Unary m(2) by simp
    from GetBracketExp_function [OF this, of f i w]
    show "\<exists>p w'. GetBracketExp M toks n i w = Ok ((p, i + length (symbols 3 (Unary f r))), w') \<and>
        parse_made M w w' p (Unary f r)"
      using Unary.prems a(2-4) by (simp add: m(1) bracket_def)
  qed
  then show ?case using reads_down [of M toks _ 3 "Unary f r" 0] by simp
next
  case (Binary f l r)
  let ?t = "Binary f l r" and ?m = "level_of f"
  have m: "?m \<le> 2" and f: "f \<in> set (ops_at ?m)"
    using Binary.prems by (auto simp: ops_at_def expression_ops_def mlt_ops_def power_ops_def)
  have first: "reads_first M toks n ?m ?t" if "max (nesting ?m l) (nesting (Suc ?m) r) \<le> n" for n
  proof (rule reads_binary [OF _ _ refl m f])
    show "reads_first M toks n ?m l" using Binary that m by simp
    show "reads M toks n (Suc ?m) r" using Binary that m by simp
  qed
  have low: "reads M toks n k ?t \<and> reads_first M toks n k ?t"
    if "k \<le> ?m" "max (nesting ?m l) (nesting (Suc ?m) r) \<le> n" for k n
  proof (cases "k = ?m")
    case True
    then show ?thesis using first [OF that(2)] reads_first_reads m by blast
  next
    case False
    then have "k < ?m" using that(1) by simp
    have "reads M toks n ?m ?t" using first [OF that(2)] reads_first_reads m by blast
    then show ?thesis
      using reads_down [of M toks n ?m ?t 0 k] \<open>k < ?m\<close> m by (auto simp: bracket_def)
  qed
  have top: "reads M toks n 3 ?t" if n: "Suc (max (nesting ?m l) (nesting (Suc ?m) r)) \<le> n" for n
  proof (rule reads_unary_or_leaf [OF _ n])
    fix n i :: nat and w
    assume a: "Suc (max (nesting ?m l) (nesting (Suc ?m) r)) \<le> n" "symbols_at toks i (symbols 3 ?t)"
      "list_all (plain_symbol M) (symbols 3 ?t)" "parse_can M w"
    obtain n' where n': "n = Suc n'" "max (nesting ?m l) (nesting (Suc ?m) r) \<le> n'" using a(1) by (cases n) auto
    have s3: "symbols 3 ?t = bracket True (symbols 0 ?t)" using m by (auto simp: bracket_def)
    have "reads M toks n' 0 ?t" using low [OF _ n'(2)] by blast
    from GetBracketExp_bracket [OF this, of i w]
    show "\<exists>p w'. GetBracketExp M toks n i w = Ok ((p, i + length (symbols 3 ?t)), w') \<and> parse_made M w w' p ?t"
      using a(2-4) unfolding s3 n'(1) by (simp add: bracket_def)
  qed
  have high: "reads M toks n k ?t \<and> (k \<le> 2 \<longrightarrow> reads_first M toks n k ?t)"
    if "?m < k" "k \<le> 3" "Suc (max (nesting ?m l) (nesting (Suc ?m) r)) \<le> n" for k n
  proof -
    have "symbols k' ?t = symbols 3 ?t" if "Suc ?m \<le> k'" for k'
      using that m by (auto simp: bracket_def)
    then have "reads M toks n k ?t \<and> (k < 3 \<longrightarrow> reads_first M toks n k ?t)"
      by (intro reads_down [OF top [OF that(3)], of "Suc ?m" k]) (use that(1,2) in simp_all)
    then show ?thesis by (metis Suc_le_eq le_imp_less_Suc numeral_2_eq_2 numeral_3_eq_3)
  qed
  show ?case
    using low high by (auto simp: not_less) 
qed

text \<open>A whole input: the tree of the expression, and the position of the terminating symbol.\<close>

lemma GetExpression_reads:
  assumes "parsable t" and "symbols_at toks 0 (symbols 0 t @ [Operation TERMINATION_SYM])"
    and "list_all (plain_symbol M) (symbols 0 t)" and "parse_can M w"
  shows "\<exists>p w'. GetExpression M toks (Suc (length toks)) 0 w = Ok ((p, length (symbols 0 t)), w') \<and>
           parse_made M w w' p t"
proof -
  have len: "length (symbols 0 t) < length toks" using assms(2) by simp
  have q: "quiet M toks 0 (length (symbols 0 t))"
    using assms(2) op_at_Operation [of toks "length (symbols 0 t)" TERMINATION_SYM "[]" M] len
    by (auto simp: quiet_def ops_at_def expression_ops_def mlt_ops_def power_ops_def)
  have "reads M toks (Suc (length toks)) 0 t"
    using reads_expr [OF assms(1)] nesting_length [of 0 t] len by simp
  with assms(2-4) q show ?thesis unfolding reads_def by (fastforce simp: parse_level_def)
qed

end
