(* ===== verification/DC_LexerCorrect.thy ===== *)
theory DC_LexerCorrect
  imports DC_ParserCorrect
begin

text \<open>
  The tokens of a text: every symbol is written, a name of a function directly before its bracket,
  every other symbol with a space behind it.  The lexer reads the symbols back; a name gets an
  address of its own.
\<close>

section \<open>Text\<close>

fun op_text :: "Operations \<Rightarrow> string" where
  "op_text ADD = ''+''" | "op_text SUB = ''-''" | "op_text MUL = ''*''" | "op_text DIV = ''/''"
| "op_text POW = ''^''" | "op_text OPEN_BR = ''(''" | "op_text CLOSE_BR = '')''" | "op_text SIN = ''sin''"
| "op_text COS = ''cos''" | "op_text LN = ''ln''" | "op_text _ = []"

fun text_of :: "('d \<Rightarrow> string) \<Rightarrow> 'd symbol \<Rightarrow> string" where
  "text_of fmt (Number d) = fmt d"
| "text_of fmt (Name s) = c_text s"
| "text_of fmt (Operation x) = op_text x"

definition is_function :: "'d symbol \<Rightarrow> bool" where
  "is_function s \<longleftrightarrow> s \<in> {Operation SIN, Operation COS, Operation LN}"

definition is_sign :: "'d symbol \<Rightarrow> bool" where
  "is_sign s \<longleftrightarrow> s \<in> Operation ` {ADD, SUB, MUL, DIV, POW, OPEN_BR, CLOSE_BR}"

fun spell :: "('d \<Rightarrow> string) \<Rightarrow> 'd symbol list \<Rightarrow> string" where
  "spell fmt [] = []"
| "spell fmt (s # ss) = text_of fmt s @ (if is_function s then [] else '' '') @ spell fmt ss"

text \<open>What is assumed of \<open>sscanf\<close>: names end at a space and at no letter.\<close>

definition names_end :: "'d scanner \<Rightarrow> bool" where
  "names_end S \<longleftrightarrow> s_name_end S CHR '' '' \<and> (\<forall>c. isalpha c \<longrightarrow> \<not> s_name_end S c)"

text \<open>A number that \<open>%lg\<close> reads back from its text, which begins with a digit.\<close>

definition readable :: "'d scanner \<Rightarrow> ('d \<Rightarrow> string) \<Rightarrow> 'd \<Rightarrow> bool" where
  "readable S fmt d \<longleftrightarrow>
     fmt d \<noteq> [] \<and> isdigit (hd (fmt d)) \<and> CHR 0x0A \<notin> set (fmt d) \<and> CHR 0x00 \<notin> set (fmt d) \<and>
     (\<forall>rest. s_number S (fmt d @ CHR '' '' # rest) = (d, length (fmt d)))"

fun lexable :: "'d scanner \<Rightarrow> ('d \<Rightarrow> string) \<Rightarrow> 'd symbol \<Rightarrow> bool" where
  "lexable S fmt (Number d) = readable S fmt d"
| "lexable S fmt (Name s) = (c_text s \<noteq> [] \<and> list_all isalpha (c_text s) \<and> length (c_text s) < MAX_TOKEN_LEN)"
| "lexable S fmt (Operation x) = (is_function (Operation x :: 'd symbol) \<or> is_sign (Operation x :: 'd symbol))"

text \<open>A function is followed by a bracket.\<close>

fun functions_applied :: "'d symbol list \<Rightarrow> bool" where
  "functions_applied [] = True"
| "functions_applied [s] = (\<not> is_function s)"
| "functions_applied (s # s' # ss) = ((is_function s \<longrightarrow> s' = Operation OPEN_BR) \<and> functions_applied (s' # ss))"

text \<open>The same symbol, with a name at another address.\<close>

fun same_symbol :: "'d symbol \<Rightarrow> 'd symbol \<Rightarrow> bool" where
  "same_symbol (Name s) (Name s') = (c_text s' = c_text s)"
| "same_symbol s s' = (s' = s)"

section \<open>Characters\<close>

lemma isalpha_not: "isalpha c \<Longrightarrow> \<not> isspace c \<and> \<not> isdigit c \<and> c \<noteq> CHR ''('' \<and> c \<noteq> CHR '' '' \<and> c \<noteq> CHR 0x0A \<and> c \<noteq> CHR 0x00"
  by (auto simp: isalpha_def isspace_def isdigit_def in_range_def)

lemma isdigit_not: "isdigit c \<Longrightarrow> \<not> isspace c \<and> \<not> isalpha c"
  by (auto simp: isalpha_def isspace_def isdigit_def in_range_def)

lemma sign_char:
  assumes "is_sign (Operation x)"
  obtains c where "op_text x = [c]" and "\<not> isspace c" and "\<not> isalpha c" and "\<not> isdigit c"
    and "\<And>r. GetOpType (c # r) = x" and "c \<noteq> CHR 0x0A" and "c \<noteq> CHR 0x00"
  using assms
  by (auto simp: is_sign_def GetOpType_def isalpha_def isspace_def isdigit_def in_range_def)

lemma function_name:
  assumes "is_function (Operation x)"
  shows "op_text x \<noteq> [] \<and> list_all isalpha (op_text x) \<and> length (op_text x) < OP_NAME_LEN \<and> GetOpType (op_text x) = x"
  using assms
  by (auto simp: is_function_def GetOpType_def isalpha_def in_range_def OP_NAME_LEN_def)

lemma char_at_drop: "drop i s = c # r \<Longrightarrow> char_at s i = c"
  by (metis char_at_def drop_all hd_drop_conv_nth list.discI list.sel(1) not_less)

lemma char_at_end: "drop i s = [] \<Longrightarrow> char_at s i = CHR 0x00"
  by (simp add: char_at_def)

lemma SkipSpaces_skip:
  assumes "drop i s = sp @ r" and "list_all isspace sp" and "r \<noteq> [] \<Longrightarrow> \<not> isspace (hd r)"
  shows "SkipSpaces s i = i + length sp" and "drop (i + length sp) s = r"
proof -
  have "takeWhile isspace (sp @ r) = sp"
    using assms(2,3) by (cases r) (auto simp: list_all_iff takeWhile_append)
  then show "SkipSpaces s i = i + length sp" by (simp add: SkipSpaces_def assms(1))
  have "drop (i + length sp) s = drop (length sp) (drop i s)" by (simp add: add.commute)
  then show "drop (i + length sp) s = r" by (simp add: assms(1))
qed

lemma drop_plus: "drop i s = u @ v \<Longrightarrow> drop (i + length u) s = v"
  by (metis add.commute append_eq_conv_conj drop_drop)

section \<open>One token\<close>

definition idle :: "'d world \<Rightarrow> 'd world \<Rightarrow> bool" where
  "idle w w' \<longleftrightarrow> grows w w' \<and> w_nodes w' = w_nodes w"

lemma idle_refl: "idle w w"
  by (simp add: idle_def)

lemma idle_trans: "idle w w1 \<Longrightarrow> idle w1 w2 \<Longrightarrow> idle w w2"
  by (auto simp: idle_def intro: only_grows_trans)

lemma idle_later: "idle w w' \<Longrightarrow> later w w'"
  by (simp add: idle_def later_def agree_def grows_def)

lemma parse_made_idle:
  assumes "idle w w1" and "parse_made M w1 w2 p t"
  shows "parse_made M w w2 p t"
proof -
  have "later w w2" using later_trans [OF idle_later [OF assms(1)]] assms(2) by (simp add: parse_made_def printed_made_def)
  moreover have "w_next w \<le> w_next w1" "w_phrases w1 = w_phrases w" using assms(1) by (simp_all add: idle_def grows_def)
  ultimately show ?thesis
    using assms only_grows_trans [of w w1 w2]
    by (auto simp: parse_made_def silent_made_def printed_made_def idle_def)
qed

lemma parse_can_idle:
  "idle w w1 \<Longrightarrow> all_calloc_ok M \<Longrightarrow> fresh_above w \<Longrightarrow> w_phrases w \<le> UselessPhrases_size \<Longrightarrow> parse_can M w1"
  by (auto simp: idle_def grows_def parse_can_def silent_can_def printed_can_def fresh_above_def)

lemma CreateToken_other:
  assumes "all_calloc_ok M" and "ty \<noteq> VAR_T"
  obtains w' where "CreateToken M ty d x line w = Ok (\<lparr>k_type = ty, k_value = init_value ty d x None, k_line = line\<rparr>, w')"
    and "idle w w'"
  using assms by (simp add: CreateToken_def all_calloc_ok_def idle_def grows_def fresh_above_def)

lemma CreateToken_name:
  assumes "all_calloc_ok M" and "length name < MAX_TOKEN_LEN"
  obtains tok w' s where "CreateToken M VAR_T d x line w = Ok (tok, w')" and "idle w w'"
    and "scan_name tok name = Ok \<lparr>k_type = VAR_T, k_value = var_name (Some s), k_line = line\<rparr>" and "c_text s = name"
  using assms
  by (auto simp: CreateToken_def all_calloc_ok_def idle_def grows_def fresh_above_def scan_name_def)

text \<open>The lexer takes one symbol from the text.\<close>

lemma lex_step_symbol:
  assumes "drop i input = sp @ spell fmt (s # ss)" and "list_all isspace sp" and "lexable S fmt s"
    and "is_function s \<longrightarrow> (\<exists>ss'. ss = Operation OPEN_BR # ss')" and "names_end S" and "all_calloc_ok M"
    and "length toks < MAX_TOKENS"
  shows "\<exists>j tok s' sp' w'. lex_step M S input (i, toks) w = Ok ((j, toks @ [tok]), w') \<and> idle w w' \<and>
           symbol_of tok = Some s' \<and> same_symbol s s' \<and> list_all isspace sp' \<and>
           drop j input = sp' @ spell fmt ss \<and> drop j input \<noteq> []"
proof -
  let ?i = "i + length sp"
  have push: "push_token toks tok = Ok (toks @ [tok])" for tok using assms(7) by (simp add: push_token_def)
  have sp1: "list_all isspace '' ''" by (simp add: isspace_def)
  show ?thesis
  proof (cases s)
    case (Number d)
    have rd: "fmt d \<noteq> []" "isdigit (hd (fmt d))" "s_number S (fmt d @ CHR '' '' # spell fmt ss) = (d, length (fmt d))"
      using assms(3) Number by (simp_all add: readable_def)
    have src: "drop i input = sp @ fmt d @ CHR '' '' # spell fmt ss" using assms(1) Number by (simp add: is_function_def)
    have sk: "SkipSpaces input i = ?i" "drop ?i input = fmt d @ CHR '' '' # spell fmt ss"
      by (rule SkipSpaces_skip [OF src assms(2)], use rd isdigit_not in simp)+
    have c: "char_at input ?i = hd (fmt d)" using sk(2) rd(1) char_at_drop by (cases "fmt d") auto
    obtain w' where w': "CreateToken M NUM_T d UNKNOWN (?i + length (fmt d)) w =
        Ok (\<lparr>k_type = NUM_T, k_value = init_value NUM_T d UNKNOWN None, k_line = ?i + length (fmt d)\<rparr>, w')" "idle w w'"
      by (rule CreateToken_other [OF assms(6), of NUM_T]) simp
    have "lex_step M S input (i, toks) w = Ok ((?i + length (fmt d), toks @
        [\<lparr>k_type = NUM_T, k_value = init_value NUM_T d UNKNOWN None, k_line = ?i + length (fmt d)\<rparr>]), w')"
      using c rd isdigit_not w'(1) push by (simp add: lex_step_def sk Let_def seqw_Ok readw_def)
    moreover have "drop (?i + length (fmt d)) input = '' '' @ spell fmt ss" using drop_plus [OF sk(2)] by simp
    ultimately show ?thesis using w'(2) sp1 Number by fastforce
  next
    case (Name v)
    have nm: "c_text v \<noteq> []" "list_all isalpha (c_text v)" "length (c_text v) < MAX_TOKEN_LEN"
      using assms(3) Name by simp_all
    have src: "drop i input = sp @ c_text v @ CHR '' '' # spell fmt ss" using assms(1) Name by (simp add: is_function_def)
    have hd: "isalpha (hd (c_text v))" using nm(1,2) by (cases "c_text v") simp_all
    have sk: "SkipSpaces input i = ?i" "drop ?i input = c_text v @ CHR '' '' # spell fmt ss"
      by (rule SkipSpaces_skip [OF src assms(2)], use nm hd isalpha_not in simp)+
    have c: "char_at input ?i = hd (c_text v)" using sk(2) nm(1) char_at_drop by (cases "c_text v") auto
    have after: "drop (?i + length (c_text v)) input = '' '' @ spell fmt ss" using drop_plus [OF sk(2)] by simp
    have run: "takeWhile isalpha (c_text v @ CHR '' '' # spell fmt ss) = c_text v"
      "takeWhile (\<lambda>c. \<not> s_name_end S c) (c_text v @ CHR '' '' # spell fmt ss) = c_text v"
      using nm(2) assms(5) isalpha_not by (auto simp: list_all_iff takeWhile_append names_end_def)
    have c2: "char_at input (?i + length (c_text v)) = CHR '' ''" using after char_at_drop by simp
    obtain tok w' s' where tok: "CreateToken M VAR_T (m_of_int M 0) UNKNOWN ?i w = Ok (tok, w')" "idle w w'"
        "scan_name tok (c_text v) = Ok \<lparr>k_type = VAR_T, k_value = var_name (Some s'), k_line = ?i\<rparr>" "c_text s' = c_text v"
      using CreateToken_name [OF assms(6) nm(3)] by metis
    have "lex_step M S input (i, toks) w = Ok ((?i + length (c_text v), toks @
        [\<lparr>k_type = VAR_T, k_value = var_name (Some s'), k_line = ?i\<rparr>]), w')"
      using c hd c2 tok(1,3) push by (simp add: lex_step_def sk run Let_def seqw_Ok readw_def)
    then show ?thesis using tok(2,4) after sp1 Name by fastforce
  next
    case (Operation x)
    show ?thesis
    proof (cases "is_function s")
      case True
      then obtain ss' where ss: "ss = Operation OPEN_BR # ss'" using assms(4) by blast
      have nm: "op_text x \<noteq> []" "list_all isalpha (op_text x)" "length (op_text x) < OP_NAME_LEN"
          "GetOpType (op_text x) = x"
        using function_name True Operation by auto
      have src: "drop i input = sp @ op_text x @ CHR ''('' # '' '' @ spell fmt ss'"
        using assms(1) Operation True by (simp add: ss is_function_def)
      have hd: "isalpha (hd (op_text x))" using nm(1,2) by (cases "op_text x") simp_all
      have sk: "SkipSpaces input i = ?i" "drop ?i input = op_text x @ CHR ''('' # '' '' @ spell fmt ss'"
        by (rule SkipSpaces_skip [OF src assms(2)], use nm hd isalpha_not in simp)+
      have c: "char_at input ?i = hd (op_text x)" using sk(2) nm(1) char_at_drop by (cases "op_text x") auto
      have after: "drop (?i + length (op_text x)) input = CHR ''('' # '' '' @ spell fmt ss'" using drop_plus [OF sk(2)] by simp
      have "\<not> isalpha CHR ''(''" by (simp add: isalpha_def in_range_def)
      then have run: "takeWhile isalpha (op_text x @ CHR ''('' # '' '' @ spell fmt ss') = op_text x"
        "takeWhile (\<lambda>c. c \<noteq> CHR ''('' \<and> c \<noteq> CHR '' '') (op_text x @ CHR ''('' # '' '' @ spell fmt ss') = op_text x"
        using nm(2) isalpha_not by (auto simp: list_all_iff takeWhile_append)
      have c2: "char_at input (?i + length (op_text x)) = CHR ''(''" using after char_at_drop by simp
      obtain w' where w': "CreateToken M OP_T (m_of_int M 0) x (?i + length (op_text x)) w =
          Ok (\<lparr>k_type = OP_T, k_value = init_value OP_T (m_of_int M 0) x None, k_line = ?i + length (op_text x)\<rparr>, w')"
          "idle w w'"
        by (rule CreateToken_other [OF assms(6), of OP_T]) simp
      have "lex_step M S input (i, toks) w = Ok ((?i + length (op_text x), toks @
          [\<lparr>k_type = OP_T, k_value = init_value OP_T (m_of_int M 0) x None, k_line = ?i + length (op_text x)\<rparr>]), w')"
        using c hd c2 nm(3,4) w'(1) push
        by (simp add: lex_step_def sk run [unfolded append.simps] run Let_def seqw_Ok readw_def)
      then show ?thesis using w'(2) after Operation ss by (fastforce simp: is_function_def)
    next
      case False
      then obtain c where ch: "op_text x = [c]" "\<not> isspace c" "\<not> isalpha c" "\<not> isdigit c" "\<And>r. GetOpType (c # r) = x"
        using assms(3) Operation sign_char [of x] by (metis lexable.simps(3))
      have src: "drop i input = sp @ c # '' '' @ spell fmt ss" using assms(1) Operation False ch(1) by simp
      have sk: "SkipSpaces input i = ?i" "drop ?i input = c # '' '' @ spell fmt ss"
        by (rule SkipSpaces_skip [OF src assms(2)], use ch(2) in simp)+
      have cc: "char_at input ?i = c" using sk(2) char_at_drop by blast
      obtain w' where w': "CreateToken M OP_T (m_of_int M 0) x ?i w =
          Ok (\<lparr>k_type = OP_T, k_value = init_value OP_T (m_of_int M 0) x None, k_line = ?i\<rparr>, w')" "idle w w'"
        by (rule CreateToken_other [OF assms(6), of OP_T]) simp
      have "lex_step M S input (i, toks) w = Ok ((Suc ?i, toks @
          [\<lparr>k_type = OP_T, k_value = init_value OP_T (m_of_int M 0) x None, k_line = ?i\<rparr>]), w')"
        using cc ch w'(1) push by (simp add: lex_step_def sk Let_def seqw_Ok readw_def)
      moreover have "drop (Suc ?i) input = '' '' @ spell fmt ss"
        using drop_plus [of ?i input "[c]"] sk(2) by simp
      ultimately show ?thesis using w'(2) sp1 Operation by fastforce
    qed
  qed
qed

section \<open>The whole text\<close>

definition spells :: "'d symbol \<Rightarrow> 'd Token \<Rightarrow> bool" where
  "spells s tok \<longleftrightarrow> (\<exists>s'. symbol_of tok = Some s' \<and> same_symbol s s')"

lemma functions_applied_Cons:
  "functions_applied (s # ss) \<Longrightarrow> functions_applied ss \<and> (is_function s \<longrightarrow> (\<exists>ss'. ss = Operation OPEN_BR # ss'))"
  by (cases ss) auto

lemma lex_step_end:
  assumes "drop i input = sp" and "list_all isspace sp" and "i \<le> length input" and "all_calloc_ok M"
    and "length toks < MAX_TOKENS"
  shows "\<exists>tok w'. lex_step M S input (i, toks) w = Ok ((Suc (length input), toks @ [tok]), w') \<and> idle w w' \<and>
           symbol_of tok = Some (Operation TERMINATION_SYM)"
proof -
  have len: "i + length sp = length input" using assms(1,3) by auto
  have sk: "SkipSpaces input i = length input"
    using SkipSpaces_skip(1) [of i input sp "[]"] assms(1,2) len by simp
  have c: "char_at input (length input) = CHR 0x00" by (simp add: char_at_def)
  have nul: "\<not> isalpha CHR 0x00" "\<not> isdigit CHR 0x00" by (simp_all add: isalpha_def isdigit_def in_range_def)
  obtain w' where w': "CreateToken M OP_T (m_of_int M 0) TERMINATION_SYM (length input) w =
      Ok (\<lparr>k_type = OP_T, k_value = init_value OP_T (m_of_int M 0) TERMINATION_SYM None, k_line = length input\<rparr>, w')"
      "idle w w'"
    by (rule CreateToken_other [OF assms(4), of OP_T]) simp
  have "lex_step M S input (i, toks) w = Ok ((Suc (length input), toks @
      [\<lparr>k_type = OP_T, k_value = init_value OP_T (m_of_int M 0) TERMINATION_SYM None, k_line = length input\<rparr>]), w')"
    using w'(1) assms(5)
    by (simp add: lex_step_def sk c nul Let_def seqw_Ok readw_def push_token_def GetOpType_def)
  then show ?thesis using w'(2) by fastforce
qed

lemma lex_all:
  assumes "drop i input = sp @ spell fmt ss" and "list_all isspace sp" and "i \<le> length input"
    and "list_all (lexable S fmt) ss" and "functions_applied ss" and "names_end S" and "all_calloc_ok M"
    and "length toks + length ss < MAX_TOKENS"
  shows "\<exists>i' toks' tok w'. while_do (\<lambda>((i, toks), w). i \<le> length input) (\<lambda>(st, w). lex_step M S input st w)
             ((i, toks), w) = Ok ((i', toks @ toks' @ [tok]), w') \<and> idle w w' \<and>
           list_all2 spells ss toks' \<and> symbol_of tok = Some (Operation TERMINATION_SYM)"
  using assms
proof (induction ss arbitrary: i sp toks w)
  case Nil
  obtain tok w' where "lex_step M S input (i, toks) w = Ok ((Suc (length input), toks @ [tok]), w')" "idle w w'"
      "symbol_of tok = Some (Operation TERMINATION_SYM)"
    using lex_step_end [of i input sp M toks S w] Nil.prems by auto
  then show ?case
    using Nil.prems(3) while_do_step [where b = "\<lambda>((i, toks), w). i \<le> length input" and
        c = "\<lambda>(st, w). lex_step M S input st w" and s = "((i, toks), w)"]
    by fastforce
next
  case (Cons s ss)
  have fa: "functions_applied ss" "is_function s \<longrightarrow> (\<exists>ss'. ss = Operation OPEN_BR # ss')"
    using functions_applied_Cons [OF Cons.prems(5)] by simp_all
  have lx: "lexable S fmt s" "list_all (lexable S fmt) ss" and room: "length toks < MAX_TOKENS"
    using Cons.prems by simp_all
  obtain j tok s' sp' w1 where one: "lex_step M S input (i, toks) w = Ok ((j, toks @ [tok]), w1)" "idle w w1"
      "symbol_of tok = Some s'" "same_symbol s s'" "list_all isspace sp'" "drop j input = sp' @ spell fmt ss"
      "drop j input \<noteq> []"
    using lex_step_symbol [OF Cons.prems(1,2) lx(1) fa(2) Cons.prems(6,7) room] by metis
  have j: "j \<le> length input" using one(7) by simp
  obtain i' toks' t w2 where rest: "while_do (\<lambda>((i, toks), w). i \<le> length input) (\<lambda>(st, w). lex_step M S input st w)
        ((j, toks @ [tok]), w1) = Ok ((i', (toks @ [tok]) @ toks' @ [t]), w2)" "idle w1 w2"
      "list_all2 spells ss toks'" "symbol_of t = Some (Operation TERMINATION_SYM)"
    using Cons.IH [OF one(6,5) j lx(2) fa(1) Cons.prems(6,7), of "toks @ [tok]" w1] Cons.prems(8) by auto
  have "while_do (\<lambda>((i, toks), w). i \<le> length input) (\<lambda>(st, w). lex_step M S input st w) ((i, toks), w) =
      while_do (\<lambda>((i, toks), w). i \<le> length input) (\<lambda>(st, w). lex_step M S input st w) ((j, toks @ [tok]), w1)"
    by (rule while_do_step) (use Cons.prems(3) one(1) in simp_all)
  moreover have "spells s tok" using one(3,4) by (auto simp: spells_def)
  ultimately show ?case
    using rest idle_trans [OF one(2) rest(2)]
    by (intro exI [of _ i'] exI [of _ "tok # toks'"] exI [of _ t] exI [of _ w2]) (simp del: symbol_of.simps)
qed

lemma lexable_chars: "list_all (lexable S fmt) ss \<Longrightarrow> CHR 0x0A \<notin> set (spell fmt ss) \<and> CHR 0x00 \<notin> set (spell fmt ss)"
proof (induction ss)
  case (Cons s ss)
  have "CHR 0x0A \<notin> set (text_of fmt s) \<and> CHR 0x00 \<notin> set (text_of fmt s)"
  proof (cases s)
    case (Number d)
    then show ?thesis using Cons.prems by (simp add: readable_def)
  next
    case (Name v)
    then show ?thesis using Cons.prems isalpha_not by (auto simp: list_all_iff)
  next
    case (Operation x)
    show ?thesis
    proof (cases "is_function s")
      case True
      then show ?thesis using function_name [of x] isalpha_not Operation by (auto simp: list_all_iff)
    next
      case False
      moreover have "lexable S fmt s" using Cons.prems by simp
      ultimately obtain c where "op_text x = [c]" "c \<noteq> CHR 0x0A" "c \<noteq> CHR 0x00"
        using Operation sign_char [of x] by (metis lexable.simps(3))
      then show ?thesis using Operation by simp
    qed
  qed
  then show ?case using Cons by simp
qed simp

lemma GetInputLine_id:
  assumes "CHR 0x0A \<notin> set s" and "CHR 0x00 \<notin> set s" and "length s < MAX_SRC_LEN"
  shows "GetInputLine s = s"
proof -
  have line: "takeWhile (\<lambda>c. c \<noteq> CHR 0x0A) s = s" and str: "takeWhile (\<lambda>c. c \<noteq> CHR 0x00) s = s"
    using assms(1,2) by (auto simp: takeWhile_eq_all_conv)
  have "take (MAX_SRC_LEN - 1) s = s" using assms(3) by simp
  then show ?thesis unfolding GetInputLine_def Let_def line by (simp only: str less_irrefl if_False append_Nil2)
qed

lemma symbols_at_spells:
  assumes "list_all2 spells ss toks'" and "toks = pre @ toks' @ [tok]" and "symbol_of tok = Some s"
  shows "\<exists>ss'. list_all2 same_symbol ss ss' \<and> symbols_at toks (length pre) (ss' @ [s])"
  using assms(1,2)
proof (induction arbitrary: pre rule: list_all2_induct)
  case Nil
  then show ?case using assms(3) by (intro exI [of _ "[]"]) simp
next
  case (Cons x xs y ys)
  obtain x' where x': "symbol_of y = Some x'" "same_symbol x x'" using Cons.hyps(1) by (auto simp: spells_def)
  obtain ss' where "list_all2 same_symbol xs ss'" "symbols_at toks (length (pre @ [y])) (ss' @ [s])"
    using Cons.IH [of "pre @ [y]"] Cons.prems by auto
  then show ?case using x' Cons.prems by (intro exI [of _ "x' # ss'"]) simp
qed

lemma FillTokensArray_spell:
  assumes "list_all (lexable S fmt) ss" and "functions_applied ss" and "names_end S" and "all_calloc_ok M"
    and "length ss < MAX_TOKENS" and "length (spell fmt ss) < MAX_SRC_LEN"
  shows "\<exists>toks w' ss'. FillTokensArray M S (spell fmt ss) w = Ok (toks, w') \<and> idle w w' \<and>
           list_all2 same_symbol ss ss' \<and> symbols_at toks 0 (ss' @ [Operation TERMINATION_SYM])"
proof -
  have inp: "GetInputLine (spell fmt ss) = spell fmt ss"
    by (rule GetInputLine_id) (use lexable_chars [OF assms(1)] assms(6) in simp_all)
  obtain i' toks' tok w' where run: "while_do (\<lambda>((i, toks), w). i \<le> length (spell fmt ss))
        (\<lambda>(st, w). lex_step M S (spell fmt ss) st w) ((0, []), w) = Ok ((i', toks' @ [tok]), w')" "idle w w'"
      "list_all2 spells ss toks'" "symbol_of tok = Some (Operation TERMINATION_SYM)"
    using lex_all [of 0 "spell fmt ss" "[]" fmt ss S M "[]" w] assms by auto
  obtain ss' where "list_all2 same_symbol ss ss'" "symbols_at (toks' @ [tok]) 0 (ss' @ [Operation TERMINATION_SYM])"
    using symbols_at_spells [OF run(3) _ run(4), of "toks' @ [tok]" "[]"] by auto
  then show ?thesis using run(1,2) by (auto simp: FillTokensArray_def inp Let_def)
qed

text \<open>\<open>PrintTokens\<close> stops at the terminating symbol.\<close>

lemma PrintTokens_stops:
  assumes "symbols_at toks 0 (ss @ [Operation TERMINATION_SYM])"
  shows "PrintTokens M toks w = Ok ((), w)"
proof -
  let ?n = "length ss"
  have n: "?n < length toks" "op_at M toks ?n = TERMINATION_SYM"
    using assms op_at_Operation [of toks ?n TERMINATION_SYM "[]" M] by simp_all
  let ?b = "\<lambda>(again :: bool, i :: nat). again"
  let ?c = "\<lambda>(again :: bool, i). if i < length toks
      then Ok (as_op M (k_value (toks ! i)) \<noteq> TERMINATION_SYM, Suc i) else (UB :: (dc_error, bool \<times> nat) res)"
  let ?P = "\<lambda>(again, i). again \<longrightarrow> i \<le> ?n" and ?m = "\<lambda>(again, i). Suc ?n - i + (if again then 1 else 0)"
  have step: "\<exists>t. ?c st = Ok t \<and> ?P t \<and> ?m t < ?m st" if st: "?P st" "?b st" for st
  proof -
    obtain i where i: "st = (True, i)" "i \<le> ?n" using st by (cases st) auto
    then have "i = ?n \<or> Suc i \<le> ?n" by auto
    then show ?thesis using i n by (auto simp: op_at_def)
  qed
  obtain st where "while_do ?b ?c (True, 0) = Ok st"
    by (rule while_do_rule [where P = ?P and m = ?m and s = "(True, 0)", OF _ step]) simp_all
  then show ?thesis by (simp add: PrintTokens_def)
qed

section \<open>Expressions from text\<close>

text \<open>The expression with every name at the same address.\<close>

fun anon :: "'d expr \<Rightarrow> 'd expr" where
  "anon (Num d) = Num d"
| "anon (Var s) = Var (CStr 0 (c_text s))"
| "anon (Unary f r) = Unary f (anon r)"
| "anon (Binary f l r) = Binary f (anon l) (anon r)"

lemma functions_applied_append: "functions_applied xs \<Longrightarrow> functions_applied ys \<Longrightarrow> functions_applied (xs @ ys)"
proof (induction xs rule: functions_applied.induct)
  case (2 s)
  then show ?case by (cases ys) auto
qed auto

lemma functions_applied_push: "\<not> is_function s \<Longrightarrow> functions_applied ss \<Longrightarrow> functions_applied (s # ss)"
  by (cases ss) auto

lemma functions_applied_bracket: "functions_applied ss \<Longrightarrow> functions_applied (bracket b ss)"
  using functions_applied_append [of "Operation OPEN_BR # ss" "[Operation CLOSE_BR]"]
  by (cases ss) (auto simp: bracket_def is_function_def)

lemma functions_applied_symbols: "parsable t \<Longrightarrow> functions_applied (symbols k t)"
proof (induction t arbitrary: k)
  case (Unary f r)
  then show ?case using functions_applied_bracket [of "symbols 0 r" True] by (simp add: bracket_def)
next
  case (Binary f l r)
  have f: "\<not> is_function (Operation f)" and lr: "parsable l" "parsable r"
    using Binary.prems by (auto simp: is_function_def)
  have "functions_applied (Operation f # symbols (Suc (level_of f)) r)"
    by (rule functions_applied_push [OF f Binary.IH(2) [OF lr(2)]])
  from functions_applied_append [OF Binary.IH(1) [OF lr(1)] this]
  show ?case unfolding symbols.simps by (intro functions_applied_bracket) simp
qed (auto simp: is_function_def)

lemma same_symbols_bracket:
  "list_all2 same_symbol (bracket b ss) ss' \<Longrightarrow> \<exists>ts. ss' = bracket b ts \<and> list_all2 same_symbol ss ts"
  by (cases b) (auto simp: bracket_def list_all2_append1 list_all2_Cons1)

lemma same_symbols:
  "list_all2 same_symbol (symbols k t) ss' \<Longrightarrow> \<exists>t'. ss' = symbols k t' \<and> anon t' = anon t"
proof (induction t arbitrary: k ss')
  case (Num d)
  then show ?case by (intro exI [of _ "Num d"]) (auto simp: list_all2_Cons1)
next
  case (Var s)
  then obtain s' where s': "ss' = [s']" "same_symbol (Name s) s'" by (auto simp: list_all2_Cons1)
  then obtain v where "s' = Name v" "c_text v = c_text s" by (cases s') auto
  with s' show ?case by (intro exI [of _ "Var v"]) simp
next
  case (Unary f r)
  from Unary.prems obtain us where us: "ss' = Operation f # us" "list_all2 same_symbol (bracket True (symbols 0 r)) us"
    by (auto simp: list_all2_Cons1)
  obtain ts where "us = bracket True ts" "list_all2 same_symbol (symbols 0 r) ts"
    using same_symbols_bracket [OF us(2)] by blast
  with Unary.IH [of 0 ts] us(1) obtain r' where "ss' = symbols k (Unary f r')" "anon r' = anon r" by auto
  then show ?case by (intro exI [of _ "Unary f r'"]) simp
next
  case (Binary f l r)
  obtain ts where ts: "ss' = bracket (level_of f < k) ts"
      "list_all2 same_symbol (symbols (level_of f) l @ [Operation f] @ symbols (Suc (level_of f)) r) ts"
    using same_symbols_bracket Binary.prems by (metis symbols.simps(4))
  obtain us vs where uv: "ts = us @ Operation f # vs" "list_all2 same_symbol (symbols (level_of f) l) us"
      "list_all2 same_symbol (symbols (Suc (level_of f)) r) vs"
    using ts(2) by (auto simp: list_all2_append1 list_all2_Cons1)
  obtain l' where "us = symbols (level_of f) l'" "anon l' = anon l" using Binary.IH(1) [OF uv(2)] by blast
  moreover obtain r' where "vs = symbols (Suc (level_of f)) r'" "anon r' = anon r" using Binary.IH(2) [OF uv(3)] by blast
  ultimately show ?case using ts(1) uv(1) by (intro exI [of _ "Binary f l' r'"]) simp
qed

lemma parsable_anon: "parsable (anon t) = parsable t"
  by (induction t) auto

lemma plain_same:
  "list_all2 same_symbol ss ss' \<Longrightarrow> list_all (plain_symbol M) ss \<Longrightarrow> (\<And>s. no_operation (m_op_of_ptr M s)) \<Longrightarrow>
     list_all (plain_symbol M) ss'"
proof (induction rule: list_all2_induct)
  case (Cons x xs y ys)
  then show ?case by (cases x; cases y) auto
qed simp

text \<open>The text of an expression parses to a tree of the expression.\<close>

lemma GetGrammar_text:
  assumes "parsable t" and "list_all (lexable S fmt) (symbols 0 t)" and "names_end S" and "all_calloc_ok M"
    and "fresh_above w" and "w_phrases w \<le> UselessPhrases_size" and "length (symbols 0 t) < MAX_TOKENS" and "length (spell fmt (symbols 0 t)) < MAX_SRC_LEN"
    and "list_all (plain_symbol M) (symbols 0 t)" and "\<And>s. no_operation (m_op_of_ptr M s)"
  shows "\<exists>p w' t'. GetGrammar M S (spell fmt (symbols 0 t)) w = Ok (p, w') \<and> parse_made M w w' p t' \<and> anon t' = anon t"
proof -
  obtain toks w1 ss' where lex: "FillTokensArray M S (spell fmt (symbols 0 t)) w = Ok (toks, w1)" "idle w w1"
      "list_all2 same_symbol (symbols 0 t) ss'" "symbols_at toks 0 (ss' @ [Operation TERMINATION_SYM])"
    using FillTokensArray_spell [OF assms(2) functions_applied_symbols [OF assms(1)] assms(3,4,7,8)] by blast
  obtain t' where t': "ss' = symbols 0 t'" "anon t' = anon t" using same_symbols [OF lex(3)] by blast
  have "parsable t'" using assms(1) parsable_anon t'(2) by metis
  moreover have "parse_can M w1" by (rule parse_can_idle [OF lex(2) assms(4-6)])
  ultimately obtain p w2 where ex: "GetExpression M toks (Suc (length toks)) 0 w1 = Ok ((p, length ss'), w2)"
      "parse_made M w1 w2 p t'"
    using GetExpression_reads [of t' toks M w1] lex(4) plain_same [OF lex(3) assms(9,10)] unfolding t'(1) by blast
  have "length ss' < length toks" using lex(4) by simp
  then have "GetGrammar M S (spell fmt (symbols 0 t)) w = Ok (p, w2)"
    using lex(1) ex(1) PrintTokens_stops [OF lex(4), of M w1]
    by (simp add: GetGrammar_def seqw_Ok CUR_TOKEN_in)
  moreover have "parse_made M w w2 p t'"
    by (rule parse_made_idle [OF lex(2) ex(2)])
  ultimately show ?thesis using t'(2) by blast
qed

end
