(* ===== verification/DC_Calculus.thy ===== *)
theory DC_Calculus
  imports DC_Printed Complex_Main
begin

text \<open>
  The calculator with exact arithmetic: \<open>double\<close> is the real numbers, everything else is as in the
  code (the thresholds, the bits of a pointer read as a number).  The symbolic derivative evaluates
  to the derivative of the function that evaluation computes, and simplification keeps values when
  the constants are integers.
\<close>

section \<open>Exact arithmetic\<close>

definition real_pow :: "real \<Rightarrow> real \<Rightarrow> real" where
  "real_pow x y = (if of_int \<lfloor>y\<rfloor> = y then x powi \<lfloor>y\<rfloor> else x powr y)"

text \<open>A user-space address has at most 48 bits; as a \<open>double\<close> these bits are a denormal number.\<close>

definition denormal :: real where
  "denormal = 1 / 2 ^ 1074"

definition ptr_as_real :: "cstr option \<Rightarrow> real" where
  "ptr_as_real s = (case s of None \<Rightarrow> 0 | Some c \<Rightarrow> real (c_addr c mod 2 ^ 48) * denormal)"

definition real_machine ::
    "(nat \<Rightarrow> bool) \<Rightarrow> bool \<Rightarrow> bool \<Rightarrow> bool \<Rightarrow> (real \<Rightarrow> Operations) \<Rightarrow> (cstr option \<Rightarrow> Operations) \<Rightarrow> real machine" where
  "real_machine calloc_ok left_first copies as_pointer op_of_dbl op_of_ptr =
     \<lparr>m_of_int = of_int, m_ACCURACY = 1 / 1000000, m_add = (+), m_sub = (-), m_mul = (*), m_div = (/),
      m_pow = real_pow, m_sin = sin, m_cos = cos, m_log = ln, m_abs = abs, m_le = (\<le>), m_less = (<),
      m_dbl_of_op = (\<lambda>x. 0), m_dbl_of_ptr = ptr_as_real, m_op_of_dbl = op_of_dbl, m_op_of_ptr = op_of_ptr,
      m_calloc_ok = calloc_ok, m_left_first = left_first, m_copies_conversions = copies,
      m_union_as_pointer = as_pointer\<rparr>"

text \<open>A machine whose arithmetic is exact, whatever its memory and its order of evaluation.\<close>

definition exact :: "real machine \<Rightarrow> bool" where
  "exact M \<longleftrightarrow> (\<exists>calloc_ok left_first copies as_pointer op_of_dbl op_of_ptr.
     M = real_machine calloc_ok left_first copies as_pointer op_of_dbl op_of_ptr)"

lemma exact_simps:
  assumes "exact M"
  shows "m_of_int M = of_int" and "m_ACCURACY M = 1 / 1000000" and "m_add M = (+)" and "m_sub M = (-)"
    and "m_mul M = (*)" and "m_div M = (/)" and "m_pow M = real_pow" and "m_sin M = sin" and "m_cos M = cos"
    and "m_log M = ln" and "m_abs M = abs" and "m_le M = (\<le>)" and "m_less M = (<)"
    and "m_dbl_of_ptr M = ptr_as_real"
  using assms by (auto simp: exact_def real_machine_def)

lemma isZero_exact: "exact M \<Longrightarrow> isZero M v \<longleftrightarrow> \<bar>v\<bar> \<le> 1 / 1000000"
  by (simp add: isZero_def exact_simps)

lemma isEqual_exact: "exact M \<Longrightarrow> isEqual M u v \<longleftrightarrow> \<bar>u - v\<bar> < 1 / 1000000"
  by (simp add: isEqual_def exact_simps)

lemma denormal_bounds: "0 < denormal" "2 ^ 48 * denormal \<le> 1 / 2"
proof -
  have "(2 :: real) ^ 49 \<le> 2 ^ 1074" by (rule power_increasing) simp_all
  moreover have "(0 :: real) < 2 ^ 1074" by (rule zero_less_power) simp
  ultimately show "0 < denormal" "2 ^ 48 * denormal \<le> 1 / 2"
    by (simp_all add: denormal_def divide_le_eq power_add [of 2 48 1, simplified] del: power_numeral)
qed

lemma ptr_as_real_small: "0 \<le> ptr_as_real s \<and> ptr_as_real s < 1 / 2"
proof (cases s)
  case (Some c)
  have "c_addr c mod 2 ^ 48 < 2 ^ 48" by (rule mod_less_divisor) simp
  then have "real (c_addr c mod 2 ^ 48) < 2 ^ 48" by (metis of_nat_less_iff of_nat_numeral of_nat_power)
  then have "real (c_addr c mod 2 ^ 48) * denormal < 2 ^ 48 * denormal"
    using denormal_bounds(1) by (rule mult_strict_right_mono)
  then have "real (c_addr c mod 2 ^ 48) * denormal < 1 / 2" using denormal_bounds(2) by (rule less_le_trans)
  moreover have "0 \<le> real (c_addr c mod 2 ^ 48) * denormal" using denormal_bounds(1) by simp
  ultimately show ?thesis by (simp only: Some ptr_as_real_def option.case)
qed (simp add: ptr_as_real_def)

section \<open>The derivative\<close>

text \<open>
  The points where the derivative is computed exactly: inside the domain, and no divisor that
  evaluation takes for zero.
\<close>

fun regular :: "real machine \<Rightarrow> real \<Rightarrow> real expr \<Rightarrow> bool" where
  "regular M x (Num d) = True"
| "regular M x (Var s) = True"
| "regular M x (Unary f r) =
     (regular M x r \<and>
      (f = SIN \<or> f = COS \<or> f = LN \<and> value_of M x r > m_ACCURACY M \<or>
       f = TG \<and> (cos (value_of M x r))\<^sup>2 > m_ACCURACY M \<or>
       f = CTG \<and> \<bar>value_of M x r\<bar> > m_ACCURACY M \<and> (sin (value_of M x r))\<^sup>2 > m_ACCURACY M))"
| "regular M x (Binary f l r) =
     (regular M x l \<and> regular M x r \<and>
      (f = ADD \<or> f = SUB \<or> f = MUL \<or> f = DIV \<and> (value_of M x r)\<^sup>2 > m_ACCURACY M \<or>
       f = POW \<and> is_num r \<and>
         (if leaf_dbl M r \<in> \<int> then value_of M x l \<noteq> 0 \<or> leaf_dbl M r \<ge> 1 else value_of M x l > 0)))"

lemma regular_supported: "regular M x t \<Longrightarrow> supported t"
  by (induction t) auto

lemma eventually_greater:
  fixes f :: "real \<Rightarrow> real"
  assumes "(f has_real_derivative f') (at x)" and "f x > a"
  shows "eventually (\<lambda>y. f y > a) (nhds x)"
proof -
  have "isCont f x" using assms(1) by (rule DERIV_isCont)
  then have "(f \<longlongrightarrow> f x) (nhds x)" by (simp add: isCont_def tendsto_at_iff_tendsto_nhds)
  then show ?thesis using assms(2) by (rule order_tendstoD(1))
qed

lemma DERIV_local:
  fixes f g :: "real \<Rightarrow> real"
  assumes "(g has_real_derivative D) (at x)" and "eventually (\<lambda>y. f y = g y) (nhds x)" and "D = E"
  shows "(f has_real_derivative E) (at x)"
  using DERIV_cong_ev [OF refl assms(2) refl] assms(1,3) by blast

lemma DERIV_abs_ge:
  fixes f :: "real \<Rightarrow> real"
  assumes "(f has_real_derivative f') (at x)" and "\<bar>f x\<bar> > a"
  shows "eventually (\<lambda>y. \<bar>f y\<bar> > a) (nhds x)"
proof -
  have "isCont f x" using assms(1) by (rule DERIV_isCont)
  then have "((\<lambda>y. \<bar>f y\<bar>) \<longlongrightarrow> \<bar>f x\<bar>) (nhds x)"
    by (simp add: isCont_def tendsto_at_iff_tendsto_nhds tendsto_rabs)
  then show ?thesis using assms(2) by (rule order_tendstoD(1))
qed

lemma square_greater: "(v :: real)\<^sup>2 > 1 / 1000000 \<Longrightarrow> \<bar>v\<bar> > 1 / 1000000"
proof (rule ccontr)
  assume a: "v\<^sup>2 > 1 / 1000000" and "\<not> \<bar>v\<bar> > 1 / 1000000"
  then have "\<bar>v\<bar> \<le> 1 / 1000000" by simp
  then have "\<bar>v\<bar>\<^sup>2 \<le> (1 / 1000000)\<^sup>2" by (intro power_mono) auto
  with a show False by (simp add: power2_eq_square)
qed

lemma real_pow_two: "real_pow v 2 = v\<^sup>2"
  by (simp add: real_pow_def)

lemma real_pow_int: "real_pow v (of_int k) = v powi k"
  by (simp add: real_pow_def)

lemma DERIV_real_pow:
  fixes f :: "real \<Rightarrow> real"
  assumes f: "(f has_real_derivative f') (at x)"
    and c: "if c \<in> \<int> then f x \<noteq> 0 \<or> c \<ge> 1 else f x > 0"
  shows "((\<lambda>y. real_pow (f y) c) has_real_derivative c * real_pow (f x) (c - 1) * f') (at x)"
proof (cases "c \<in> \<int>")
  case True
  then obtain k where k: "c = of_int k" by (elim Ints_cases)
  have eq: "real_pow (f x) (c - 1) = f x powi (k - 1)"
    using real_pow_int [of "f x" "k - 1"] by (simp add: k)
  have "((\<lambda>y. f y powi k) has_real_derivative c * f x powi (k - 1) * f') (at x)"
  proof (cases "k \<ge> 1")
    case True
    then obtain n where "k - 1 = int n" using zero_le_imp_eq_int [of "k - 1"] by auto
    then have n: "k = int (Suc n)" by simp
    have "((\<lambda>y. f y ^ Suc n) has_real_derivative real (Suc n) * f x ^ n * f') (at x)"
      using DERIV_power [OF f, of "Suc n"] by (simp add: mult_ac)
    then show ?thesis using k n by (simp add: power_int_def nat_add_distrib)
  next
    case False
    with c \<open>c \<in> \<int>\<close> have "f x \<noteq> 0" by (auto simp: k)
    then show ?thesis
      using DERIV_power_int [OF f, of k] by (simp add: k mult_ac)
  qed
  then show ?thesis by (simp add: eq) (simp add: k real_pow_int)
next
  case False
  have ne: "of_int \<lfloor>c\<rfloor> \<noteq> c" "of_int \<lfloor>c - 1\<rfloor> \<noteq> c - 1"
    using False by (metis Ints_of_int, metis Ints_of_int Ints_1 Ints_add diff_add_cancel)
  have "f x > 0" using c False by simp
  from has_real_derivative_powr [of "f x" c] this
  have "((\<lambda>y. f y powr c) has_real_derivative c * f x powr (c - 1) * f') (at x)"
    using DERIV_chain2 [OF _ f, of "\<lambda>z. z powr c" "c * f x powr (c - 1)"] by blast
  then show ?thesis using ne by (simp add: real_pow_def)
qed

lemma CalcOneOp_exact:
  assumes "exact M"
  shows "CalcOneOp M u v ADD = u + v" and "CalcOneOp M u v SUB = u - v" and "CalcOneOp M u v MUL = u * v"
    and "CalcOneOp M u v DIV = (if \<bar>v\<bar> \<le> 1 / 1000000 then 0 else u / v)"
    and "CalcOneOp M u v POW = real_pow u v" and "CalcOneOp M u v SIN = sin v" and "CalcOneOp M u v COS = cos v"
    and "CalcOneOp M u v TG = sin v / cos v"
    and "CalcOneOp M u v CTG = (if \<bar>v\<bar> \<le> 1 / 1000000 then 0 else cos v / sin v)"
    and "CalcOneOp M u v LN = (if v \<le> 0 then 0 else ln v)"
  using assms by (simp_all add: CalcOneOp_def isZero_exact exact_simps)

lemma tangent_quotient:
  fixes s c d :: real
  assumes "s\<^sup>2 + c\<^sup>2 = 1"
  shows "(c * d * c - s * (- s * d)) / (c * c) = 1 / c\<^sup>2 * d"
    and "(- s * d * s - c * (c * d)) / (s * s) = 1 / s\<^sup>2 * d * (- 1)"
proof -
  have "c * d * c - s * (- s * d) = (s\<^sup>2 + c\<^sup>2) * d" "- s * d * s - c * (c * d) = - ((s\<^sup>2 + c\<^sup>2) * d)"
    by (simp_all add: power2_eq_square algebra_simps)
  then have "c * d * c - s * (- s * d) = d" "- s * d * s - c * (c * d) = - d" by (simp_all add: assms)
  then show "(c * d * c - s * (- s * d)) / (c * c) = 1 / c\<^sup>2 * d"
    and "(- s * d * s - c * (c * d)) / (s * s) = 1 / s\<^sup>2 * d * (- 1)"
    by (simp_all only: power2_eq_square) simp_all
qed

lemma value_derivative:
  assumes "exact M" and "regular M x t"
  shows "((\<lambda>y. value_of M y t) has_real_derivative value_of M x (derivative (\<lambda>t. t) M t)) (at x)"
  using assms(2)
proof (induction t)
  case (Num d)
  then show ?case using assms(1) by (simp add: exact_simps)
next
  case (Var s)
  then show ?case using assms(1) by (simp add: exact_simps)
next
  case (Unary f r)
  note calc = CalcOneOp_exact [OF assms(1)] exact_simps [OF assms(1)]
  let ?v = "\<lambda>y. value_of M y r" and ?d = "value_of M x (derivative (\<lambda>t. t) M r)"
  have v: "(?v has_real_derivative ?d) (at x)" using Unary by simp
  from Unary.prems have "f = SIN \<or> f = COS \<or> f = LN \<or> f = TG \<or> f = CTG" by auto
  then consider "f = SIN" | "f = COS" | "f = LN" | "f = TG" | "f = CTG" by blast
  then show ?case
  proof cases
    case 1
    have "((\<lambda>y. sin (?v y)) has_real_derivative cos (?v x) * ?d) (at x)"
      by (rule DERIV_fun_sin [OF v])
    then show ?thesis by (simp add: 1 calc)
  next
    case 2
    have "((\<lambda>y. cos (?v y)) has_real_derivative - sin (?v x) * ?d) (at x)"
      by (rule DERIV_fun_cos [OF v])
    then show ?thesis by (simp add: 2 calc)
  next
    case 3
    have gt: "?v x > 1 / 1000000" using Unary.prems 3 by (simp add: calc)
    then have pos: "?v x > 0" by (rule order.strict_trans [rotated]) simp
    have "((\<lambda>y. ln (?v y)) has_real_derivative 1 / ?v x * ?d) (at x)"
      by (rule DERIV_chain2 [OF DERIV_ln_divide [OF pos] v])
    moreover have "eventually (\<lambda>y. value_of M y (Unary f r) = ln (?v y)) (nhds x)"
      using eventually_greater [OF v pos] by eventually_elim (simp add: 3 calc)
    ultimately show ?thesis
      by (rule DERIV_local) (use gt in \<open>simp add: 3 calc\<close>)
  next
    case 4
    have sq: "(cos (?v x))\<^sup>2 > 1 / 1000000" using Unary.prems 4 by (simp add: calc)
    then have ne: "cos (?v x) \<noteq> 0" by auto
    have "((\<lambda>y. sin (?v y) / cos (?v y)) has_real_derivative
        (cos (?v x) * ?d * cos (?v x) - sin (?v x) * (- sin (?v x) * ?d)) / (cos (?v x) * cos (?v x))) (at x)"
      by (rule DERIV_divide [OF DERIV_fun_sin [OF v] DERIV_fun_cos [OF v] ne])
    moreover have "(cos (?v x) * ?d * cos (?v x) - sin (?v x) * (- sin (?v x) * ?d)) / (cos (?v x) * cos (?v x)) =
        1 / (cos (?v x))\<^sup>2 * ?d"
      by (rule tangent_quotient(1)) simp
    ultimately show ?thesis
      using sq by (simp add: 4 calc real_pow_two)
  next
    case 5
    have big: "\<bar>?v x\<bar> > 1 / 1000000" and sq: "(sin (?v x))\<^sup>2 > 1 / 1000000"
      using Unary.prems 5 by (simp_all add: calc)
    then have ne: "sin (?v x) \<noteq> 0" by auto
    have "((\<lambda>y. cos (?v y) / sin (?v y)) has_real_derivative
        (- sin (?v x) * ?d * sin (?v x) - cos (?v x) * (cos (?v x) * ?d)) / (sin (?v x) * sin (?v x))) (at x)"
      by (rule DERIV_divide [OF DERIV_fun_cos [OF v] DERIV_fun_sin [OF v] ne])
    moreover have "eventually (\<lambda>y. value_of M y (Unary f r) = cos (?v y) / sin (?v y)) (nhds x)"
      using DERIV_abs_ge [OF v big] by eventually_elim (simp add: 5 calc)
    moreover have "(- sin (?v x) * ?d * sin (?v x) - cos (?v x) * (cos (?v x) * ?d)) / (sin (?v x) * sin (?v x)) =
        value_of M x (derivative (\<lambda>t. t) M (Unary f r))"
      by (rule trans [OF tangent_quotient(2)]) (use sq in \<open>simp_all add: 5 calc real_pow_two\<close>)
    ultimately show ?thesis by (rule DERIV_local)
  qed
next
  case (Binary f l r)
  note calc = CalcOneOp_exact [OF assms(1)] exact_simps [OF assms(1)]
  let ?u = "\<lambda>y. value_of M y l" and ?c = "value_of M x (derivative (\<lambda>t. t) M l)"
  let ?v = "\<lambda>y. value_of M y r" and ?d = "value_of M x (derivative (\<lambda>t. t) M r)"
  have u: "(?u has_real_derivative ?c) (at x)" and v: "(?v has_real_derivative ?d) (at x)" using Binary by simp_all
  from Binary.prems have "f = ADD \<or> f = SUB \<or> f = MUL \<or> f = DIV \<or> f = POW" by auto
  then consider "f = ADD" | "f = SUB" | "f = MUL" | "f = DIV" | "f = POW" by blast
  then show ?case
  proof cases
    case 1
    then show ?thesis using DERIV_add [OF u v] by (simp add: calc)
  next
    case 2
    then show ?thesis using DERIV_diff [OF u v] by (simp add: calc)
  next
    case 3
    then show ?thesis using DERIV_mult [OF u v] by (simp add: calc algebra_simps)
  next
    case 4
    have sq: "(?v x)\<^sup>2 > 1 / 1000000" using Binary.prems 4 by (simp add: calc)
    note big = square_greater [OF sq]
    then have ne: "?v x \<noteq> 0" by auto
    have "((\<lambda>y. ?u y / ?v y) has_real_derivative (?c * ?v x - ?u x * ?d) / (?v x * ?v x)) (at x)"
      by (rule DERIV_divide [OF u v ne])
    moreover have "eventually (\<lambda>y. value_of M y (Binary f l r) = ?u y / ?v y) (nhds x)"
      using DERIV_abs_ge [OF v big] by eventually_elim (simp add: 4 calc)
    ultimately show ?thesis
      by (rule DERIV_local) (use sq in \<open>simp add: 4 calc power2_eq_square\<close>)
  next
    case 5
    then obtain c where r: "r = Num c" using Binary.prems by (cases r) auto
    have "if c \<in> \<int> then ?u x \<noteq> 0 \<or> c \<ge> 1 else ?u x > 0" using Binary.prems 5 r by (auto split: if_splits)
    from DERIV_real_pow [OF u this] show ?thesis by (simp add: 5 r calc)
  qed
qed

section \<open>Simplification keeps values\<close>

text \<open>
  Arithmetic on constants with a property \<open>K\<close> that sums and products keep: the thresholds of
  \<open>isZero\<close> and \<open>isEqual\<close> tell exactly zero and one, and the bits of a pointer are never taken for one.
\<close>

locale exact_constants =
  fixes M :: "'d machine" and K :: "'d \<Rightarrow> bool"
  assumes K_int: "K (m_of_int M k)"
    and K_add: "K u \<Longrightarrow> K v \<Longrightarrow> K (m_add M u v)"
    and K_sub: "K u \<Longrightarrow> K v \<Longrightarrow> K (m_sub M u v)"
    and K_mul: "K u \<Longrightarrow> K v \<Longrightarrow> K (m_mul M u v)"
    and zero_iff: "K u \<Longrightarrow> isZero M u \<longleftrightarrow> u = m_of_int M 0"
    and one_iff: "K u \<Longrightarrow> isEqual M u (m_of_int M 1) \<longleftrightarrow> u = m_of_int M 1"
    and ptr_not_one: "\<not> isEqual M (m_dbl_of_ptr M s) (m_of_int M 1)"
    and mul_zero: "m_mul M (m_of_int M 0) y = m_of_int M 0" "m_mul M y (m_of_int M 0) = m_of_int M 0"
    and mul_one: "m_mul M (m_of_int M 1) y = y" "m_mul M y (m_of_int M 1) = y"
begin

primrec constants :: "'d expr \<Rightarrow> bool" where
  "constants (Num d) = K d"
| "constants (Var s) = True"
| "constants (Unary f r) = constants r"
| "constants (Binary f l r) = (constants l \<and> constants r)"

lemma fold_node_value:
  assumes "fold_node M f l r = Some e" and "constants l" and "constants r"
  shows "constants e \<and> value_of M x e = CalcOneOp M (value_of M x l) (value_of M x r) f"
  using assms
  by (cases l; cases r)
    (auto simp: fold_node_def CalcOneOp_def K_int K_add K_mul zero_iff one_iff ptr_not_one mul_zero mul_one
      split: if_splits)

lemma simplified_value:
  "constants t \<Longrightarrow> constants (simplified M t) \<and> value_of M x (simplified M t) = value_of M x t"
proof (induction t)
  case (Binary f l r)
  then show ?case
    using fold_node_value [of f "simplified M l" "simplified M r" _ x] by (auto split: option.split)
qed auto

lemma simplified_all_value:
  "constants t \<Longrightarrow> constants (simplified_all M t) \<and> value_of M x (simplified_all M t) = value_of M x t"
proof (induction t rule: measure_induct_rule [of size])
  case (less t)
  show ?case
  proof (cases "rewrites_of M t = 0")
    case True
    then show ?thesis using simplified_value [OF less.prems] by (subst (1 2) simplified_all.simps) simp
  next
    case False
    have "simplified_all M t = simplified_all M (simplified M t)" using False by (subst simplified_all.simps) simp
    then show ?thesis
      using less.IH [OF size_simplified_less [OF False]] simplified_value [OF less.prems] by simp
  qed
qed

text \<open>Simplifying after every step does not change the value of the derivative.\<close>

lemma derivative_value:
  assumes "supported t" and "constants t"
  shows "constants (derivative (simplified_all M) M t) \<and>
    value_of M x (derivative (simplified_all M) M t) = value_of M x (derivative (\<lambda>t. t) M t)"
  using assms
proof (induction t)
  case (Unary f r)
  then show ?case by (auto simp: simplified_all_value K_int)
next
  case (Binary f l r)
  then show ?case by (cases r) (auto simp: simplified_all_value K_int K_sub)
qed (simp_all add: K_int)

end

lemma int_small: "\<bar>of_int k\<bar> \<le> (1 / 1000000 :: real) \<longleftrightarrow> k = 0"
proof
  assume "\<bar>of_int k\<bar> \<le> (1 / 1000000 :: real)"
  then have "\<bar>of_int k\<bar> < (1 :: real)" by simp
  then show "k = 0" by linarith
qed simp

lemma int_near_one: "\<bar>of_int k - 1\<bar> < (1 / 1000000 :: real) \<longleftrightarrow> k = 1"
proof
  assume "\<bar>of_int k - 1\<bar> < (1 / 1000000 :: real)"
  then have "\<bar>of_int (k - 1)\<bar> < (1 :: real)" by simp
  then show "k = 1" by linarith
qed simp

text \<open>Exact arithmetic on expressions with integer constants.\<close>

lemma exact_real_machine: "exact (real_machine calloc_ok left_first copies as_pointer op_of_dbl op_of_ptr)"
  unfolding exact_def by (intro exI) (rule refl)

interpretation reals: exact_constants "real_machine calloc_ok left_first copies as_pointer op_of_dbl op_of_ptr" "\<lambda>c. c \<in> \<int>"
proof unfold_locales
  fix u v y :: real and k s
  let ?M = "real_machine calloc_ok left_first copies as_pointer op_of_dbl op_of_ptr"
  note ex = exact_simps [OF exact_real_machine] and zero = isZero_exact [OF exact_real_machine]
    and equal = isEqual_exact [OF exact_real_machine]
  show "m_of_int ?M k \<in> \<int>" by (simp add: ex)
  show "u \<in> \<int> \<Longrightarrow> v \<in> \<int> \<Longrightarrow> m_add ?M u v \<in> \<int>" "u \<in> \<int> \<Longrightarrow> v \<in> \<int> \<Longrightarrow> m_sub ?M u v \<in> \<int>"
    "u \<in> \<int> \<Longrightarrow> v \<in> \<int> \<Longrightarrow> m_mul ?M u v \<in> \<int>" by (simp_all add: ex)
  show "u \<in> \<int> \<Longrightarrow> isZero ?M u \<longleftrightarrow> u = m_of_int ?M 0"
    by (elim Ints_cases) (simp only: zero ex int_small, simp)
  show "u \<in> \<int> \<Longrightarrow> isEqual ?M u (m_of_int ?M 1) \<longleftrightarrow> u = m_of_int ?M 1"
    by (elim Ints_cases) (simp only: equal ex of_int_1 int_near_one, simp)
  show "\<not> isEqual ?M (m_dbl_of_ptr ?M s) (m_of_int ?M 1)"
    using ptr_as_real_small [of s] by (simp add: equal ex)
qed (simp_all add: exact_simps [OF exact_real_machine])

abbreviation integer_constants :: "real expr \<Rightarrow> bool" where
  "integer_constants \<equiv> exact_constants.constants (\<lambda>c. c \<in> \<int>)"

lemma exact_reals:
  assumes "exact M" and "integer_constants t"
  shows "integer_constants (simplified M t) \<and> value_of M x (simplified M t) = value_of M x t"
    and "integer_constants (simplified_all M t) \<and> value_of M x (simplified_all M t) = value_of M x t"
    and "supported t \<Longrightarrow> integer_constants (derivative (simplified_all M) M t) \<and>
      value_of M x (derivative (simplified_all M) M t) = value_of M x (derivative (\<lambda>t. t) M t)"
  using assms reals.simplified_value reals.simplified_all_value reals.derivative_value
  by (auto simp: exact_def)

end
