(* ===== verification/DC_Maclaurin.thy ===== *)
theory DC_Maclaurin
  imports DC_Calculus
begin

text \<open>
  \<open>PrintMacloren\<close> of \<open>src/frontend.cpp\<close>: the values of a function and of its derivatives at zero, each
  derivative taken of the tree of the one before.
\<close>

definition maclaurin_head :: "int \<Rightarrow> 'd Piece list" where
  "maclaurin_head i =
     (if i = 0 then [Text ''f(0) + '']
      else [Text (tex ''frac{f^{(''), Decimal i, Text '')}(0)}{'', Decimal i, Text (''!}'' @ tex ''cdot X + '')])"

definition maclaurin_step :: "'d machine \<Rightarrow> int \<Rightarrow> ptr option \<Rightarrow> ('d, ptr option) op" where
  "maclaurin_step M i cur_der =
     seqw (printw [Text (tex ''[ f^{(''), Decimal i, Text '')}(0) = '']) (\<lambda>_.
     seqw (readw (\<lambda>w. CalcTree M (w_next w) cur_der (m_of_int M 0) w)) (\<lambda>v.
     seqw (printw [Dbl v]) (\<lambda>_.
     seqw (printw [Text (tex '']'')]) (\<lambda>_.
     with_depth (\<lambda>depth. GetDerivative M depth cur_der False)))))"

definition PrintMacloren :: "'d machine \<Rightarrow> ptr option \<Rightarrow> int \<Rightarrow> ('d, unit) op" where
  "PrintMacloren M tree steps =
     assertw (tree \<noteq> None)
       (seqw (printw [Maclaurin_text steps, Text (newline @ '' '' @ tex ''[ f(x) = '')]) (\<lambda>_.
        seqw (each_w (\<lambda>i _. printw (maclaurin_head i)) [0..steps] ()) (\<lambda>_.
        seqw (printw [Text (tex ''text{...}'' @ tex '']'' @ newline)]) (\<lambda>_.
        seqw (each_w (maclaurin_step M) [0..steps] tree) (\<lambda>_. ret ())))))"

definition maclaurin_line :: "int \<Rightarrow> 'd \<Rightarrow> 'd Piece list" where
  "maclaurin_line i v = [Text (tex ''[ f^{(''), Decimal i, Text '')}(0) = '', Dbl v, Text (tex '']'')]"

text \<open>The derivatives of the expression, one after the other.\<close>

fun nth_derivative :: "'d machine \<Rightarrow> 'd expr \<Rightarrow> nat \<Rightarrow> 'd expr" where
  "nth_derivative M t 0 = t"
| "nth_derivative M t (Suc n) = derivative (\<lambda>t. t) M (nth_derivative M t n)"

lemma supported_derivative: "supported t \<Longrightarrow> supported (derivative (\<lambda>t. t) M t)"
proof (induction t)
  case (Binary f l r)
  then show ?case by (cases r) auto
qed auto

lemma not_leaf_derivative: "\<not> leaf t \<Longrightarrow> supported t \<Longrightarrow> \<not> leaf (derivative (\<lambda>t. t) M t)"
  by (cases t) auto

lemma nth_derivative_tree: "\<not> leaf t \<Longrightarrow> supported t \<Longrightarrow> supported (nth_derivative M t n) \<and> \<not> leaf (nth_derivative M t n)"
  by (induction n) (simp_all add: supported_derivative not_leaf_derivative)

lemma tree_at_out: "tree_at (w\<lparr>w_out := out\<rparr>) p t = tree_at w p t"
  by (induction t arbitrary: p) (simp_all add: node_is_def left_of_def right_of_def)

text \<open>Nodes stay as they are; output may be added.\<close>

definition extends :: "'d world \<Rightarrow> 'd world \<Rightarrow> bool" where
  "extends w w' \<longleftrightarrow>
     (\<forall>a n. w_nodes w a = Some n \<longrightarrow> w_nodes w' a = Some n) \<and> fresh_above w' \<and> w_graph w' = w_graph w"

lemma extends_trans: "extends w w1 \<Longrightarrow> extends w1 w2 \<Longrightarrow> extends w w2"
  by (simp add: extends_def)

lemma extends_grows: "grows w w' \<Longrightarrow> fresh_above w' \<Longrightarrow> extends w w'"
  by (simp add: extends_def grows_def)

lemma extends_out: "extends (w\<lparr>w_out := out\<rparr>) w' = extends w w'"
  by (simp add: extends_def)

lemma maclaurin_step_run:
  assumes "tree_at w p t" and "supported t" and "\<not> leaf t" and "all_calloc_ok M" and "fresh_above w"
  shows "\<exists>q w'. maclaurin_step M i p w = Ok (q, w') \<and> tree_at w' q (derivative (\<lambda>t. t) M t) \<and> extends w w' \<and>
           w_out w' = w_out w @ maclaurin_line i (value_of M (m_of_int M 0) t)"
proof -
  let ?w1 = "w\<lparr>w_out := w_out w @ [Text (tex ''[ f^{(''), Decimal i, Text '')}(0) = '']\<rparr>"
  let ?w2 = "w\<lparr>w_out := w_out w @ maclaurin_line i (value_of M (m_of_int M 0) t)\<rparr>"
  have t1: "tree_at ?w1 p t" "fresh_above ?w1" using assms(1,5) by (simp_all add: tree_at_out fresh_above_def)
  have t2: "tree_at ?w2 p t" "fresh_above ?w2" using assms(1,5) by (simp_all add: tree_at_out fresh_above_def)
  have calc: "CalcTree M (w_next ?w1) p (m_of_int M 0) ?w1 = Ok (value_of M (m_of_int M 0) t)"
    by (rule CalcTree_value [OF t1(1) assms(3)]) (use height_bound [OF t1] in simp)
  obtain q w3 where w3: "GetDerivative M (w_next ?w2) p False ?w2 = Ok (q, w3)" "grows ?w2 w3" "fresh_above w3"
      "tree_at w3 q (derivative (\<lambda>t. t) M t)"
    using GetDerivative_silent [OF t2(1) assms(2) height_bound [OF t2] assms(4) t2(2)] by blast
  have "maclaurin_step M i p w = Ok (q, w3)"
    using calc w3(1) by (simp add: maclaurin_step_def seqw_def printw_def readw_def with_depth_def maclaurin_line_def)
  then show ?thesis using w3 extends_grows [OF w3(2,3)] by (auto simp: grows_def extends_out)
qed

lemma maclaurin_loop:
  assumes "tree_at w p (nth_derivative M t k)" and "supported t" and "\<not> leaf t" and "all_calloc_ok M" and "fresh_above w"
  shows "\<exists>q w'. each_w (maclaurin_step M) (map int [k..<k + n]) p w = Ok (q, w') \<and> extends w w' \<and>
           w_out w' = w_out w @
             concat (map (\<lambda>i. maclaurin_line (int i) (value_of M (m_of_int M 0) (nth_derivative M t i))) [k..<k + n])"
  using assms(1,5)
proof (induction n arbitrary: k p w)
  case (Suc n)
  obtain q w1 where w1: "maclaurin_step M (int k) p w = Ok (q, w1)" "tree_at w1 q (nth_derivative M t (Suc k))"
      "extends w w1"
      "w_out w1 = w_out w @ maclaurin_line (int k) (value_of M (m_of_int M 0) (nth_derivative M t k))"
    using maclaurin_step_run [OF Suc.prems(1) _ _ assms(4) Suc.prems(2), of "int k"]
      nth_derivative_tree [OF assms(3,2), of M k] by auto
  obtain r w2 where w2: "each_w (maclaurin_step M) (map int [Suc k..<Suc k + n]) q w1 = Ok (r, w2)" "extends w1 w2"
      "w_out w2 = w_out w1 @
         concat (map (\<lambda>i. maclaurin_line (int i) (value_of M (m_of_int M 0) (nth_derivative M t i))) [Suc k..<Suc k + n])"
    using Suc.IH [OF w1(2)] w1(3) by (auto simp: extends_def)
  have "[k..<k + Suc n] = k # [Suc k..<Suc k + n]" by (simp add: upt_conv_Cons)
  then show ?case using w1 w2 extends_trans by (simp add: seqw_Ok)
qed (simp add: extends_def)

lemma each_w_print:
  "each_w (\<lambda>i _. printw (g i)) is () w = Ok ((), w\<lparr>w_out := w_out w @ concat (map g is)\<rparr>)"
  by (induction "is" arbitrary: w) (simp_all add: seqw_def printw_def)

lemma seqw_printw: "seqw (printw ps) f w = f () (w\<lparr>w_out := w_out w @ ps\<rparr>)"
  by (simp add: seqw_def printw_def)

lemma PrintMacloren_run:
  assumes "tree_at w p t" and "supported t" and "\<not> leaf t" and "all_calloc_ok M" and "fresh_above w"
  shows "\<exists>w' head. PrintMacloren M p (int n) w = Ok ((), w') \<and> extends w w' \<and>
           w_out w' = w_out w @ head @
             concat (map (\<lambda>i. maclaurin_line (int i) (value_of M (m_of_int M 0) (nth_derivative M t i))) [0..<Suc n])"
proof -
  have upto: "[0..int n] = map int [0..<0 + Suc n]"
    by (induction n) (simp_all add: upto_rec2)
  let ?w1 = "w\<lparr>w_out := w_out w @ [Maclaurin_text (int n), Text (newline @ '' '' @ tex ''[ f(x) = '')] @
    concat (map maclaurin_head [0..int n]) @ [Text (tex ''text{...}'' @ tex '']'' @ newline)]\<rparr>"
  have t: "tree_at ?w1 p (nth_derivative M t 0)" "fresh_above ?w1"
    using assms(1,5) by (simp_all add: tree_at_out fresh_above_def)
  obtain q w2 where w2: "each_w (maclaurin_step M) (map int [0..<0 + Suc n]) p ?w1 = Ok (q, w2)" "extends ?w1 w2"
      "w_out w2 = w_out ?w1 @
         concat (map (\<lambda>i. maclaurin_line (int i) (value_of M (m_of_int M 0) (nth_derivative M t i))) [0..<0 + Suc n])"
    using maclaurin_loop [OF t(1) assms(2-4) t(2)] by blast
  have "p \<noteq> None" using assms(1) by (cases p) simp_all
  then have "PrintMacloren M p (int n) w = Ok ((), w2)"
    using w2(1) unfolding PrintMacloren_def upto [symmetric]
    by (simp add: seqw_printw seqw_Ok [OF each_w_print] seqw_Ok del: upt_Suc)
  then show ?thesis using w2(2,3) by (simp add: extends_out del: upt_Suc)
qed

end
