(* ===== verification/DC_Properties.thy ===== *)
theory DC_Properties
  imports DC_Maclaurin
begin

text \<open>
  The results about the derivative calculator: derivatives, simplification, the expansion at zero,
  and the use of freed nodes that shallow copies lead to.
\<close>

lemma owned_all: "tree_at w p t \<Longrightarrow> owned M w {} p t"
  by (induction t arbitrary: p) auto


text \<open>Trees for the examples.\<close>

definition mk_node :: "Types \<Rightarrow> 'd Values \<Rightarrow> ptr option \<Rightarrow> ptr option \<Rightarrow> 'd TreeNode" where
  "mk_node type v l r = \<lparr>t_type = type, t_parent = None, t_left = l, t_right = r, t_value = v\<rparr>"

definition mk_world :: "(ptr \<times> 'd TreeNode) list \<Rightarrow> 'd world" where
  "mk_world nodes =
     \<lparr>w_nodes = map_of nodes, w_next = length nodes, w_phrases = 0, w_out = [], w_graph = [], w_dots = [], w_system = []\<rparr>"

definition ideal :: "real machine" where
  "ideal = real_machine (\<lambda>_. True) True True True (\<lambda>_. UNKNOWN) (\<lambda>_. UNKNOWN)"

definition name_x :: cstr where
  "name_x = CStr 4096 ''x''"

lemma ideal_ok [simp]: "exact ideal" "all_calloc_ok ideal"
  unfolding ideal_def by (rule exact_real_machine) (simp add: all_calloc_ok_def real_machine_def)

lemma fresh_mk_world: "(\<And>a n. (a, n) \<in> set nodes \<Longrightarrow> a < length nodes) \<Longrightarrow> fresh_above (mk_world nodes)"
  by (force simp: fresh_above_def mk_world_def map_of_eq_None_iff)

section \<open>Derivatives\<close>

text \<open>
  C33. \<open>GetDerivative\<close> without printing returns a tree whose value at \<open>x\<close>, as \<open>CalcTree\<close> computes it,
  is the derivative at \<open>x\<close> of the function that \<open>CalcTree\<close> computes on the given tree.  The
  arithmetic is exact; \<open>x\<close> is a point of the domain where no divisor is below the threshold.
\<close>

theorem derivative_correct:
  assumes "exact M" and "all_calloc_ok M" and "fresh_above w" and "tree_at w p t" and "\<not> leaf t"
    and "regular M x t" and "height t < depth"
  shows "\<exists>q w' f d. GetDerivative M depth p False w = Ok (q, w') \<and>
           (\<forall>y. CalcTree M (w_next w) p y w = Ok (f y)) \<and>
           CalcTree M (w_next w') q x w' = Ok d \<and> (f has_real_derivative d) (at x)"
proof -
  note sup = regular_supported [OF assms(6)]
  obtain q w' where w': "GetDerivative M depth p False w = Ok (q, w')" "fresh_above w'"
      "tree_at w' q (derivative (\<lambda>t. t) M t)"
    using GetDerivative_silent [OF assms(4) sup assms(7,2,3)] by blast
  have "CalcTree M (w_next w) p y w = Ok (value_of M y t)" for y
    by (rule CalcTree_value [OF assms(4,5)]) (use height_bound [OF assms(4,3)] in simp)
  moreover have "CalcTree M (w_next w') q x w' = Ok (value_of M x (derivative (\<lambda>t. t) M t))"
    by (rule CalcTree_value [OF w'(3) not_leaf_derivative [OF assms(5) sup]])
      (use height_bound [OF w'(3,2)] in simp)
  ultimately show ?thesis
    using w'(1) value_derivative [OF assms(1,6)]
    by (intro exI [of _ q] exI [of _ w'] exI [of _ "\<lambda>y. value_of M y t"] exI [of _ "value_of M x (derivative (\<lambda>t. t) M t)"]) simp
qed

text \<open>The tree of \<open>x * sin x\<close>.\<close>

definition x_sin_x :: "real world" where
  "x_sin_x = mk_world
     [(0, mk_node VAR_T (var_name (Some name_x)) None None), (1, mk_node VAR_T (var_name (Some name_x)) None None),
      (2, mk_node OP_T (op_val SIN) None (Some 1)), (3, mk_node OP_T (op_val MUL) (Some 0) (Some 2))]"

lemma x_sin_x_tree:
  "tree_at x_sin_x (Some 3) (Binary MUL (Var name_x) (Unary SIN (Var name_x)))" "fresh_above x_sin_x"
  "w_next x_sin_x = 4"
  by (auto simp: x_sin_x_def mk_node_def node_is_def left_of_def right_of_def node_at_def intro!: fresh_mk_world)
    (simp_all add: mk_world_def)

theorem derivative_correct_witness:
  "\<exists>q w' f d. GetDerivative ideal 3 (Some 3) False x_sin_x = Ok (q, w') \<and>
     (\<forall>y. CalcTree ideal (w_next x_sin_x) (Some 3) y x_sin_x = Ok (f y)) \<and>
     CalcTree ideal (w_next w') q 5 w' = Ok d \<and> (f has_real_derivative d) (at 5)"
  by (rule derivative_correct [OF ideal_ok x_sin_x_tree(2,1)]) simp_all



section \<open>Simplification\<close>

text \<open>
  C35. \<open>while (SimplifyTree (X))\<close> on a tree without shared nodes ends, frees only nodes of the tree, and
  leaves a tree whose formula has the same value at every point.  (\<open>CalcTree\<close> computes the value of a
  formula unless it is a single node, for which it returns 0.)  The arithmetic is exact, the constants
  are integers.
\<close>

theorem simplify_correct:
  assumes "exact M" and "tree_at w p t" and "distinct (cells w {} p t)" and "integer_constants t" and "height t < depth"
  shows "\<exists>w' u. SimplifyAll M depth p w = Ok ((), w') \<and> tree_at w' p u \<and> size u \<le> size t \<and>
           (\<forall>x. value_of M x u = value_of M x t) \<and> (\<forall>a. a \<notin> set (cells w {} p t) \<longrightarrow> w_nodes w' a = w_nodes w a)"
proof -
  have "sole M w {} p t" using assms(2,3) owned_all by (simp add: sole_def)
  from SimplifyAll_owned [OF this assms(5)] obtain w' where
      w': "SimplifyAll M depth p w = Ok ((), w')" "tree_at w' p (simplified_all M t)" "only (set (cells w {} p t)) w w'"
    by (auto simp: sole_def)
  have "size (simplified_all M t) \<le> size t"
  proof (induction M t rule: simplified_all.induct)
    case (1 M t)
    then show ?case
      using size_simplified_le [of M t] by (subst simplified_all.simps) auto
  qed
  then show ?thesis
    using w' exact_reals(2) [OF assms(1,4)] by (auto simp: only_def agree_def)
qed

text \<open>The tree of \<open>(2 * 3) * x\<close>.\<close>

definition six_x :: "real world" where
  "six_x = mk_world
     [(0, mk_node NUM_T (dbl_val 2) None None), (1, mk_node NUM_T (dbl_val 3) None None),
      (2, mk_node OP_T (op_val MUL) (Some 0) (Some 1)), (3, mk_node VAR_T (var_name (Some name_x)) None None),
      (4, mk_node OP_T (op_val MUL) (Some 2) (Some 3))]"

theorem simplify_correct_witness:
  "\<exists>w' u. SimplifyAll ideal 3 (Some 4) six_x = Ok ((), w') \<and> tree_at w' (Some 4) u \<and>
     size u \<le> size (Binary MUL (Binary MUL (Num (2 :: real)) (Num 3)) (Var name_x)) \<and>
     (\<forall>x. value_of ideal x u = value_of ideal x (Binary MUL (Binary MUL (Num 2) (Num 3)) (Var name_x))) \<and>
     (\<forall>a. a \<notin> set (cells six_x {} (Some 4) (Binary MUL (Binary MUL (Num 2) (Num 3)) (Var name_x))) \<longrightarrow>
        w_nodes w' a = w_nodes six_x a)"
  by (rule simplify_correct [OF ideal_ok(1)])
    (simp_all add: six_x_def mk_world_def mk_node_def node_is_def left_of_def right_of_def node_at_def reals.constants.simps)

section \<open>The expansion at zero\<close>

text \<open>
  C36. \<open>PrintMacloren\<close> prints the values at zero of the function that the tree computes and of its first
  \<open>n\<close> derivatives, on a set of points that contains zero and where the tree and its symbolic
  derivatives up to the order \<open>n - 1\<close> are regular.  The tree is no single number or variable, for which
  \<open>CalcTree\<close> returns 0, and holds operations that have a rule, with numbers as exponents.  The arithmetic
  is exact and memory does not run out.
\<close>

theorem maclaurin_values:
  assumes "exact M" and "all_calloc_ok M" and "fresh_above w" and "tree_at w p t" and "\<not> leaf t"
    and "\<And>i y. i < n \<Longrightarrow> y \<in> S \<Longrightarrow> regular M y (nth_derivative M t i)" and "0 \<in> S" and "supported t"
  shows "\<exists>w' head f. PrintMacloren M p (int n) w = Ok ((), w') \<and>
           (\<forall>y. CalcTree M (w_next w) p y w = Ok (f 0 y)) \<and>
           (\<forall>i<n. \<forall>y\<in>S. (f i has_real_derivative f (Suc i) y) (at y)) \<and>
           w_out w' = w_out w @ head @ concat (map (\<lambda>i. maclaurin_line (int i) (f i 0)) [0..<Suc n])"
proof -
  define f where "f i y = value_of M y (nth_derivative M t i)" for i y
  have zero: "m_of_int M 0 = 0" using exact_simps(1) [OF assms(1)] by simp
  obtain w' head where "PrintMacloren M p (int n) w = Ok ((), w')"
      "w_out w' = w_out w @ head @ concat (map (\<lambda>i. maclaurin_line (int i) (f i 0)) [0..<Suc n])"
    using PrintMacloren_run [OF assms(4,8,5,2,3), of n] unfolding f_def zero by blast
  moreover have "\<forall>y. CalcTree M (w_next w) p y w = Ok (f 0 y)"
    using CalcTree_value [OF assms(4,5)] height_bound [OF assms(4,3)] by (simp add: f_def)
  moreover have "\<forall>i<n. \<forall>y\<in>S. (f i has_real_derivative f (Suc i) y) (at y)"
    unfolding f_def nth_derivative.simps using value_derivative [OF assms(1) assms(6)] by blast
  ultimately show ?thesis by blast
qed

theorem maclaurin_values_witness:
  "\<exists>w' head f. PrintMacloren ideal (Some 3) (int 2) x_sin_x = Ok ((), w') \<and>
     (\<forall>y. CalcTree ideal (w_next x_sin_x) (Some 3) y x_sin_x = Ok (f 0 y)) \<and>
     (\<forall>i<2. \<forall>y\<in>UNIV. (f i has_real_derivative f (Suc i) y) (at y)) \<and>
     w_out w' = w_out x_sin_x @ head @ concat (map (\<lambda>i. maclaurin_line (int i) (f i 0)) [0..<Suc 2])"
  by (rule maclaurin_values [OF ideal_ok x_sin_x_tree(2,1)]) (auto simp: less_2_cases_iff)

section \<open>Freed nodes\<close>

text \<open>Whole numbers as a machine: enough for trees of sums and products.\<close>

definition int_machine :: "int machine" where
  "int_machine =
     \<lparr>m_of_int = (\<lambda>k. k), m_ACCURACY = 0, m_add = (+), m_sub = (-), m_mul = (*), m_div = (div),
      m_pow = (\<lambda>x y. x ^ nat y), m_sin = (\<lambda>x. x), m_cos = (\<lambda>x. x), m_log = (\<lambda>x. x), m_abs = abs, m_le = (\<le>),
      m_less = (<), m_dbl_of_op = (\<lambda>_. 0), m_dbl_of_ptr = (\<lambda>_. 0), m_op_of_dbl = (\<lambda>_. UNKNOWN),
      m_op_of_ptr = (\<lambda>_. UNKNOWN), m_calloc_ok = (\<lambda>_. True), m_left_first = True,
      m_copies_conversions = True, m_union_as_pointer = True\<rparr>"

definition int_six_x :: "int world" where
  "int_six_x = mk_world
     [(0, mk_node NUM_T (dbl_val 2) None None), (1, mk_node NUM_T (dbl_val 3) None None),
      (2, mk_node OP_T (op_val MUL) (Some 0) (Some 1)), (3, mk_node VAR_T (var_name (Some name_x)) None None),
      (4, mk_node OP_T (op_val MUL) (Some 2) (Some 3))]"

declare while_res.simps [code]

text \<open>
  The copies of a node share its children, and simplification frees the children it folds: after
  the printed derivative of \<open>(2 * 3) * x\<close>, evaluating the given tree, as the expansion at zero does
  next, reads a freed node.
\<close>

lemma shared_fold_use_after_free:
  "case GetDerivative int_machine 3 (Some 4) True int_six_x of
     Ok (q, w) \<Rightarrow> CalcTree int_machine 3 (Some 4) 0 w = UB \<and> CalcTree int_machine 3 (Some 4) 0 int_six_x = Ok 0
   | _ \<Rightarrow> False"
  by code_simp

end
