(* ===== verification/DC_Main.thy ===== *)
theory DC_Main
  imports DC_LexerCorrect DC_Properties
begin


section \<open>Output that leaves the nodes alone\<close>












section \<open>The result\<close>


section \<open>Freeing the tree\<close>


section \<open>Names do not matter\<close>







section \<open>The program\<close>

















end
