(* ===== verification/Spec2Isabelle.thy ===== *)
theory Spec2Isabelle
  imports RV_Properties RV_Findings JIT_Findings JIT_DomTreeProperties JIT_OptProperties JIT_AnalysisProperties
    JIT_BuilderCalls JIT_CheckElim JIT_Inlining JIT_RegAllocPhi DC_Main
begin

text \<open>
  The repository holds several independent projects.  This development models three of them from
  the source: the RISC-V simulator (\<open>src/riscv-pipelined-cpu-sim\<close>), the JIT compiler
  (\<open>src/JIT-AOT-Compilers-master\<close>) and the derivative calculator
  (\<open>src/Derivative-Calculator-main\<close>).

  \<^bold>\<open>Conventions.\<close>  A call that may fail returns \<open>Ok\<close> or \<open>Err\<close> of an error type, or \<open>UB\<close> for undefined
  behaviour: reading a null pointer, an index out of range, a halfword or word at an address that is no
  multiple of its size, a shift that is too wide, an iterator used after it was invalidated, a loop or a recursion that does not end (theory \<open>Prelude\<close>; loops in
  \<open>Loops\<close>).  Words keep their width.  Loops are \<open>while_do\<close>, whose value is \<open>UB\<close> when the loop does not
  end, or \<open>for_each\<close> over a list; a theorem with the value \<open>Ok\<close> therefore says that the code returns.
  Recursion that is not structural has an argument \<open>depth\<close> with the number of nested calls, set by the
  caller to a bound that the recursion cannot exceed; the recursion of \<open>queueCond\<close>, which may never
  end, is a \<open>partial_function\<close> whose value is then \<open>None\<close>.  The rule of C++ that an object is accessed
  only as its own type is not modelled: the memories of the simulator are arrays of bytes and of words
  that the code reads through casts.

  \<^bold>\<open>The RISC-V simulator.\<close>  \<open>RV_Modules\<close>: gates, multiplexers, ALU, comparator (\<open>modules/\<close>).
  \<open>RV_Memory\<close>: data and instruction memory, register file, clocked register.  \<open>RV_Decode\<close>: instruction
  fields, immediates, control unit (\<open>pipeline/instruction.h\<close>, \<open>control_unit.h\<close>).  \<open>RV_Pipeline\<close>: stages,
  hazard unit, \<open>tick\<close> and \<open>run\<close> (\<open>pipeline/pipeline.h\<close>, \<open>pipeline.cpp\<close>); one C++ exception type is one
  constructor of \<open>rv_exception\<close>.  \<open>RV_Eval\<close>, \<open>RV_Hazards\<close>, \<open>RV_Safety\<close>, \<open>RV_Simulation\<close> and
  \<open>RV_StraightLine\<close> hold the invariant of the pipeline's state and the simulation of the sequential
  machine; \<open>RV_Properties\<close> and \<open>RV_Findings\<close> state the results: the pipeline computes what executing
  the instructions one after the other computes, the effects of stalls and flushes, the exceptions
  and the undefined behaviour a tick can have, the end of a run after the last instruction, and
  programs on which it goes wrong.

  \<^bold>\<open>The JIT compiler: representation.\<close>  All objects live in one \<open>heap\<close> (\<open>JIT_IR\<close>): instructions, basic
  blocks, loops and graphs by address; \<open>h_new_i\<close> and its like are the next free addresses.  The classes
  derived from \<open>InstructionBase\<close> are one record \<open>Instr\<close> with a class tag.  \<open>JIT_Types\<close>: types, opcodes,
  properties, condition codes, \<open>ASSERT\<close>.  The models are those of the build with assertions, so a
  failed one is \<open>Err AssertionFail\<close>; only \<open>JIT_RegAlloc\<close> has the build as an argument \<open>dbg\<close>.  \<open>JIT_Marker\<close>:
  \<open>ir/marker\<close>.  \<open>JIT_Block\<close>, \<open>JIT_Graph\<close>: \<open>ir/BasicBlock.*\<close>, \<open>ir/Loop.h\<close>, \<open>ir/Graph.*\<close>.  \<open>JIT_Builder\<close>:
  \<open>ir/InstructionBuilder.h\<close> and the copies of instructions.  \<open>JIT_Compiler\<close>: the function table and
  the copies of graphs.  \<open>JIT_Live\<close>: ranges, intervals, live sets.

  \<^bold>\<open>The JIT compiler: analyses.\<close>  \<open>JIT_Traverse\<close> (depth-first order and reverse post-order; the depth is
  the number of allocated blocks), \<open>JIT_DSU\<close> and \<open>JIT_DomTree\<close> (dominators; the depth of the
  compression is the size of the forest), \<open>JIT_LoopAnalyzer\<close>, \<open>JIT_LinearOrdering\<close>, \<open>JIT_Liveness\<close>,
  \<open>JIT_GraphChecker\<close>.

  \<^bold>\<open>The JIT compiler: optimisations and register allocation.\<close>  \<open>JIT_Peephole\<close>, \<open>JIT_DCE\<close> (the depth of
  \<open>markAlive\<close> is one more than the number of instructions), \<open>JIT_BranchElim\<close>, \<open>JIT_EmptyBlocks\<close>,
  \<open>JIT_CheckElim\<close>, \<open>JIT_Inlining\<close>, \<open>JIT_RegAlloc\<close> and \<open>JIT_RegAllocPhi\<close> (linear scan, moves for PHI inputs,
  checker).

  \<^bold>\<open>The JIT compiler: results.\<close>  \<open>JIT_BlockList\<close> relates the linked instruction lists of a block to two
  HOL lists and every list operation to its effect on them; \<open>JIT_CFG\<close> does the same for the edges of
  the graph; \<open>JIT_DefUse\<close> and \<open>JIT_Build\<close> treat the users of an instruction and the shape of what the
  builder makes; \<open>JIT_BuilderCalls\<close> holds all \<open>Create\<close> functions against one specification.  \<open>JIT_IRProperties\<close> states the properties of the representation and of the traversal.
  \<open>JIT_PeepholeCorrect\<close> and \<open>JIT_PeepholeValues\<close> give the instructions values and show that rewrites
  keep them.  \<open>JIT_RegAllocSafe\<close> has the invariant of the scan by increasing begin, \<open>JIT_RegAllocOrder\<close>
  the one for the order in which the program meets the intervals; \<open>JIT_Properties\<close> has the results.
  \<open>JIT_OptProperties\<close>: dead code elimination.  \<open>JIT_DomTreeProperties\<close>: the union-find structure is
  right, the builder needs a graph without unlinked blocks, and gives wrong dominators on a graph of
  five blocks.  \<open>JIT_AnalysisProperties\<close>: the PHI check, and blocks at which the search for a linear order never ends.
  \<open>JIT_Findings\<close>: inverted conditions, lost instructions and failing assertions.

  \<^bold>\<open>The derivative calculator.\<close>  \<open>DC_Tree\<close>: the nodes of an expression, allocated and freed one by one,
  and the predicate \<open>tree_at\<close> that reads an expression off the heap; the arithmetic of \<open>double\<close>, the
  bits of a union, the order of evaluation, and two library behaviours that the standard leaves
  undefined but every run relies on are the argument \<open>machine\<close>.  \<open>DC_Calc\<close> (\<open>CalcTree\<close>),
  \<open>DC_Simplify\<close> (\<open>SimplifyTree\<close> and the function on expressions it implements), \<open>DC_Frontend\<close>
  (\<open>src/frontend.cpp\<close>: formulas, graphs, printed steps), \<open>DC_Derivative\<close> (\<open>GetDerivative\<close>) and
  \<open>DC_Maclaurin\<close> (\<open>PrintMacloren\<close>).  \<open>DC_SimplifyHeap\<close> shows that simplification implements its
  function on a tree whose rewritten nodes have one owner, \<open>DC_Printed\<close> that the printed derivative
  keeps this condition, \<open>DC_Calculus\<close> that the symbolic derivative is the derivative for exact
  arithmetic.  \<open>DC_Lexer\<close> and \<open>DC_Parser\<close> have the tokens and the recursive descent; the number and the
  name that \<open>sscanf\<close> takes from the text are the argument \<open>scanner\<close>, and a bracket takes a token, so the
  depth of \<open>GetBracketExp\<close> is one more than the number of tokens.  \<open>DC_ParserCorrect\<close> and
  \<open>DC_LexerCorrect\<close> follow an expression from its tree to its symbols and its text and back;
  \<open>DC_Main\<close> composes all parts as \<open>src/main.cpp\<close> does.  \<open>DC_Properties\<close> and \<open>DC_Main\<close> have the
  results.  The depth of a recursion over a tree is the number of
  allocated nodes, which exceeds the height of a tree (\<open>height_bound\<close>).

  \<^bold>\<open>Interfaces.\<close>  Five locales state what one component promises to another: \<open>cell_store\<close> (a memory of
  cells that a load reads back; interpreted on the words of the simulator's data memory),
  \<open>kept_invariant\<close> (a step that keeps an invariant; interpreted on the tick of the pipeline) and
  \<open>traversal_client\<close> (a callback of the depth-first traversal that leaves markers and edges alone;
  interpreted on the callback of the reverse post-order), \<open>tree_maker\<close> (what the derivation needs from
  the heap; interpreted on silent and on printed derivation) and \<open>exact_constants\<close> (arithmetic that
  simplification relies on; interpreted on the machine with exact arithmetic).

  \<^bold>\<open>Not modelled.\<close>  Printing, logging, \<open>Dump\<close>, memory resources and the tests of both projects; the
  register count of an architecture is an argument of the allocator.  The other projects
  (BinaryTranslator, ProgrammingLanguage, leechVM) are not modelled;
  TXLib.h is a vendored library, and Load-Screen and Mandelbrot draw pictures with floating-point
  arithmetic and intrinsics.
\<close>

end
